(* ===== verification/Prelude.thy ===== *)
theory Prelude
  imports Main "HOL-Library.Word" "HOL-Library.List_Lexorder" "HOL-Library.Product_Lexorder"
    "HOL-Library.Multiset"
begin

text \<open>
  Shared vocabulary of the development: Python exceptions and results, byte strings, text,
  big-endian integers, hexadecimal text and points in time, with the lemmas and the
  \<open>named_theorems\<close> collections every component uses. Everything here models the part of
  the Python language and of its standard library that \<^verbatim>\<open>src/anchor_v1\<close> relies on.
\<close>

section \<open>Lemma collections\<close>

named_theorems ok_elims \<open>rewrite rules that take a successful result apart\<close>
named_theorems unfold_op \<open>definitions of the operations of a component\<close>

section \<open>Exceptions\<close>

text \<open>
  One constructor per exception class the code raises or catches. \<open>Exn c msg\<close> is a raised
  exception: \<open>msg\<close> is the constant text of the message, without the values an f-string
  interpolates, so two different \<^verbatim>\<open>raise\<close> statements are different values.
\<close>

datatype exn_class =
    PyException | ValueError | TypeError | KeyError | AttributeError | OverflowError | UnicodeError
  | ValidationError | TimeoutExpired
  | CBORError | COSEError | EnvelopeError | CapabilityError
  | StoreError | AuthorizationDenied | DoubleSpendError | BudgetExceededError
  | RevokedError | StaleRevocationError | LifecycleError | UnknownCapabilityError
  | StateBindingError | StateChangedError | StatePolicyDenied
  | BrokerAccessDenied | PEPError
  | ConstitutionRejected | AuthorizationError | DelegationError
  | DecisionVerificationError | SCITTError | ProvenanceError | CheckpointError
  | OTSAnchorError | OTSCodecError | CalendarNotFoundError
  | StepUpError | QuorumError | AgentIdentityError | PatternError | PolicyError
  | MCPGatewayError | MCPDeniedError | CardVerificationError | DelegationPropagationError
  | DelegationRejected | DecisionTimeoutError | WireAuthError
  | ShadowDenied | ModeChangeRejected | CompareInputRejected | IdentityError

datatype exn = Exn (exn_cls: exn_class) (exn_msg: string)

text \<open>The class statements: the direct base class of each exception class.\<close>

fun exn_parent :: "exn_class \<Rightarrow> exn_class" where
  "exn_parent UnicodeError = ValueError"
| "exn_parent ValidationError = ValueError"
| "exn_parent CBORError = ValueError"
| "exn_parent COSEError = ValueError"
| "exn_parent EnvelopeError = ValueError"
| "exn_parent CapabilityError = ValueError"
| "exn_parent AuthorizationDenied = StoreError"
| "exn_parent DoubleSpendError = AuthorizationDenied"
| "exn_parent BudgetExceededError = AuthorizationDenied"
| "exn_parent RevokedError = AuthorizationDenied"
| "exn_parent StaleRevocationError = AuthorizationDenied"
| "exn_parent UnknownCapabilityError = AuthorizationDenied"
| "exn_parent LifecycleError = StoreError"
| "exn_parent StateBindingError = ValueError"
| "exn_parent StateChangedError = StateBindingError"
| "exn_parent StatePolicyDenied = StateBindingError"
| "exn_parent ConstitutionRejected = ValueError"
| "exn_parent DecisionVerificationError = ValueError"
| "exn_parent SCITTError = ValueError"
| "exn_parent ProvenanceError = ValueError"
| "exn_parent CheckpointError = ValueError"
| "exn_parent OTSAnchorError = ValueError"
| "exn_parent OTSCodecError = OTSAnchorError"
| "exn_parent CalendarNotFoundError = OTSAnchorError"
| "exn_parent StepUpError = ValueError"
| "exn_parent QuorumError = ValueError"
| "exn_parent AgentIdentityError = ValueError"
| "exn_parent PatternError = AgentIdentityError"
| "exn_parent PolicyError = ValueError"
| "exn_parent MCPDeniedError = MCPGatewayError"
| "exn_parent CardVerificationError = ValueError"
| "exn_parent DelegationPropagationError = ValueError"
| "exn_parent DelegationRejected = ValueError"
| "exn_parent ModeChangeRejected = ValueError"
| "exn_parent CompareInputRejected = ValueError"
| "exn_parent IdentityError = ValueError"
| "exn_parent _ = PyException"

text \<open>\<open>is_a c d\<close>: an \<^verbatim>\<open>except d\<close> clause catches an exception of class \<open>c\<close>.
  The hierarchy is at most three classes deep.\<close>

definition is_a :: "exn_class \<Rightarrow> exn_class \<Rightarrow> bool" where
  "is_a c d \<longleftrightarrow> d = c \<or> d = exn_parent c \<or> d = exn_parent (exn_parent c)
     \<or> d = exn_parent (exn_parent (exn_parent c))"

lemma is_a_refl [simp]: "is_a c c"
  by (simp add: is_a_def)

lemma is_a_PyException [simp]: "is_a c PyException"
  by (cases c) (simp_all add: is_a_def)

section \<open>Results\<close>

type_synonym 'a res = "exn + 'a"

abbreviation raise :: "exn_class \<Rightarrow> string \<Rightarrow> 'a res" where
  "raise c msg \<equiv> Inl (Exn c msg)"

definition rbind :: "'a res \<Rightarrow> ('a \<Rightarrow> 'b res) \<Rightarrow> 'b res" where
  "rbind r k = (case r of Inl e \<Rightarrow> Inl e | Inr x \<Rightarrow> k x)"

text \<open>\<open>require b c msg k\<close> is \<^verbatim>\<open>if not b: raise c(msg)\<close> followed by \<open>k\<close>.\<close>

definition require :: "bool \<Rightarrow> exn_class \<Rightarrow> string \<Rightarrow> 'a res \<Rightarrow> 'a res" where
  "require b c msg k = (if b then k else raise c msg)"

text \<open>\<open>except c d msg r\<close> is \<^verbatim>\<open>try: r except c as exc: raise d(msg) from exc\<close>.\<close>

definition except :: "exn_class \<Rightarrow> exn_class \<Rightarrow> string \<Rightarrow> 'a res \<Rightarrow> 'a res" where
  "except c d msg r = (case r of
     Inl e \<Rightarrow> (if is_a (exn_cls e) c then raise d msg else Inl e)
   | Inr x \<Rightarrow> Inr x)"

lemma rbind_simps [simp]:
  "rbind (Inl e) k = Inl e"
  "rbind (Inr x) k = k x"
  by (simp_all add: rbind_def)

lemma rbind_eq_Inr [simp, ok_elims]: "rbind r k = Inr y \<longleftrightarrow> (\<exists>x. r = Inr x \<and> k x = Inr y)"
  by (cases r) auto

lemma rbind_eq_Inl: "rbind r k = Inl e \<longleftrightarrow> r = Inl e \<or> (\<exists>x. r = Inr x \<and> k x = Inl e)"
  by (cases r) auto

lemma rbind_assoc [simp]: "rbind (rbind r f) g = rbind r (\<lambda>x. rbind (f x) g)"
  by (cases r) auto

lemma require_eq_Inr [simp, ok_elims]: "require b c msg k = Inr y \<longleftrightarrow> b \<and> k = Inr y"
  by (simp add: require_def)

lemma require_True [simp]: "require True c msg k = k"
  by (simp add: require_def)

lemma require_False [simp]: "require False c msg k = raise c msg"
  by (simp add: require_def)

lemma require_eq_Inl:
  "require b c msg k = Inl e \<longleftrightarrow> (if b then k = Inl e else e = Exn c msg)"
  by (auto simp: require_def)

lemma except_eq_Inr [simp, ok_elims]: "except c d msg r = Inr y \<longleftrightarrow> r = Inr y"
  by (cases r) (auto simp: except_def)

lemma except_Inr [simp]: "except c d msg (Inr x) = Inr x"
  by (simp add: except_def)

lemma except_PyException [simp]: "except PyException d msg (Inl e) = raise d msg"
  by (simp add: except_def)

lemma except_same [simp]: "except c d msg (raise c m) = raise d msg"
  by (simp add: except_def)

lemma if_raise_eq_Inr [simp, ok_elims]:
  "(if b then Inl e else r) = Inr y \<longleftrightarrow> \<not> b \<and> r = Inr y"
  "(if b then r else Inl e) = Inr y \<longleftrightarrow> b \<and> r = Inr y"
  by auto

text \<open>An optional value that a lookup found, or the exception to raise.\<close>

definition of_option :: "exn_class \<Rightarrow> string \<Rightarrow> 'a option \<Rightarrow> 'a res" where
  "of_option c msg x = (case x of None \<Rightarrow> raise c msg | Some y \<Rightarrow> Inr y)"

lemma of_option_simps [simp]:
  "of_option c msg None = raise c msg"
  "of_option c msg (Some y) = Inr y"
  by (simp_all add: of_option_def)

lemma of_option_eq_Inr [simp, ok_elims]: "of_option c msg x = Inr y \<longleftrightarrow> x = Some y"
  by (cases x) auto

text \<open>A comprehension whose element expression may raise: left to right, first error wins.\<close>

fun rmap :: "('a \<Rightarrow> 'b res) \<Rightarrow> 'a list \<Rightarrow> 'b list res" where
  "rmap f [] = Inr []"
| "rmap f (x # xs) = rbind (f x) (\<lambda>y. rbind (rmap f xs) (\<lambda>ys. Inr (y # ys)))"

lemma rmap_eq_Inr: "rmap f xs = Inr ys \<longleftrightarrow> list_all2 (\<lambda>x y. f x = Inr y) xs ys"
  by (induction xs arbitrary: ys) (auto simp: list_all2_Cons1)

text \<open>A loop of checks: the body returns nothing and may raise.\<close>

fun for_each :: "('a \<Rightarrow> unit res) \<Rightarrow> 'a list \<Rightarrow> unit res" where
  "for_each f [] = Inr ()"
| "for_each f (x # xs) = rbind (f x) (\<lambda>_. for_each f xs)"

lemma for_each_eq_Inr [simp, ok_elims]:
  "for_each f xs = Inr u \<longleftrightarrow> (\<forall>x \<in> set xs. f x = Inr ())"
  by (induction xs) auto

lemma sort_key_permuted:
  assumes "mset xs = mset ys" "distinct (map f xs)"
  shows "sort_key f xs = sort_key f ys"
proof (rule sort_key_inj_key_eq)
  show "mset xs = mset (sort_key f ys)" using assms(1) by simp
  show "inj_on f (set xs)" using assms(2) by (simp add: distinct_map)
qed simp

lemma sort_key_map: "sort_key f (map g xs) = map g (sort_key (f \<circ> g) xs)"
proof -
  have "insort_key f (g x) (map g ys) = map g (insort_key (f \<circ> g) x ys)" for x ys
    by (induction ys) auto
  then show ?thesis by (induction xs) auto
qed

lemma sort_key_Nil_iff [simp]: "sort_key k xs = [] \<longleftrightarrow> xs = []"
  by (metis length_0_conv length_sort)

lemma isl_iff_ex: "isl r \<longleftrightarrow> (\<exists>e. r = Inl e)"
  by (cases r) auto

lemma not_isl_iff_ex: "\<not> isl r \<longleftrightarrow> (\<exists>x. r = Inr x)"
  by (cases r) auto

end
