(* ===== verification/Stdlib.thy ===== *)
theory Stdlib
  imports Prelude
begin

text \<open>
  The parts of Python's standard library the components use: \<^verbatim>\<open>bytes\<close>, text and
  UTF-8, big-endian integers (\<^verbatim>\<open>int.to_bytes\<close>, \<^verbatim>\<open>struct.pack\<close> of
  unsigned integers), hexadecimal text (\<^verbatim>\<open>bytes.hex\<close>, \<^verbatim>\<open>bytes.fromhex\<close>),
  \<^verbatim>\<open>str.split\<close>, \<^verbatim>\<open>fnmatch.fnmatchcase\<close> and points in time.
\<close>

section \<open>Bytes and big-endian integers\<close>

type_synonym byte = "8 word"
type_synonym bytes = "byte list"

text \<open>\<open>b8 n\<close> is the byte \<^verbatim>\<open>n & 0xFF\<close>.\<close>

definition b8 :: "nat \<Rightarrow> byte" where
  "b8 n = word_of_nat n"

lemma unat_b8 [simp]: "unat (b8 n) = n mod 256"
  by (simp add: b8_def unat_of_nat)

lemma b8_unat [simp]: "b8 (unat b) = b"
  by (simp add: b8_def)

lemma b8_eq_iff: "b8 m = b8 n \<longleftrightarrow> m mod 256 = n mod 256"
  by (metis b8_def of_nat_unat ucast_id unat_b8 word_unat_eq_iff)

lemma unat_byte_lt [simp]: "unat (b :: byte) < 256"
  using unsigned_less [of b, where ?'a = nat] by simp

fun to_be :: "nat \<Rightarrow> nat \<Rightarrow> bytes" where
  "to_be 0 n = []"
| "to_be (Suc k) n = to_be k (n div 256) @ [b8 n]"

definition from_be :: "bytes \<Rightarrow> nat" where
  "from_be bs = foldl (\<lambda>a b. a * 256 + unat b) 0 bs"

lemma length_to_be [simp]: "length (to_be k n) = k"
  by (induction k n rule: to_be.induct) simp_all

lemma from_be_Nil [simp]: "from_be [] = 0"
  by (simp add: from_be_def)

lemma from_be_snoc [simp]: "from_be (bs @ [b]) = from_be bs * 256 + unat b"
  by (simp add: from_be_def)

lemma from_be_single [simp]: "from_be [b] = unat b"
  by (simp add: from_be_def)

lemma from_be_to_be: "n < 256 ^ k \<Longrightarrow> from_be (to_be k n) = n"
proof (induction k n rule: to_be.induct)
  case (2 k n)
  then have "n div 256 < 256 ^ k" by (simp add: less_mult_imp_div_less mult.commute)
  with 2 show ?case by simp
qed simp

lemma from_be_bound: "from_be bs < 256 ^ length bs"
proof (induction bs rule: rev_induct)
  case (snoc b bs)
  have "from_be bs * 256 + unat b < (from_be bs + 1) * 256" by simp
  also have "\<dots> \<le> 256 ^ length bs * 256" using snoc by (intro mult_right_mono) auto
  finally show ?case by simp
qed simp

lemma to_be_from_be: "to_be (length bs) (from_be bs) = bs"
proof (induction bs rule: rev_induct)
  case (snoc b bs)
  have "b8 (from_be bs * 256 + unat b) = b"
    by (metis b8_eq_iff b8_unat mod_mult_self3)
  moreover have "(from_be bs * 256 + unat b) div 256 = from_be bs"
    by simp
  ultimately show ?case using snoc by simp
qed simp

lemma to_be_inject: "n < 256 ^ k \<Longrightarrow> m < 256 ^ k \<Longrightarrow> to_be k n = to_be k m \<longleftrightarrow> n = m"
  by (metis from_be_to_be)

lemma from_be_inject: "length xs = length ys \<Longrightarrow> from_be xs = from_be ys \<Longrightarrow> xs = ys"
  by (metis to_be_from_be)

text \<open>Big-endian strings of one length compare as the numbers they denote.\<close>

lemma less_append_same_length:
  fixes xs ys :: "'a::linorder list"
  assumes "length xs = length ys"
  shows "xs @ us < ys @ vs \<longleftrightarrow> xs < ys \<or> xs = ys \<and> us < vs"
  using assms by (induction xs ys rule: list_induct2) auto

lemma from_be_less_iff: "length xs = length ys \<Longrightarrow> from_be xs < from_be ys \<longleftrightarrow> xs < ys"
proof (induction xs arbitrary: ys rule: rev_induct)
  case (snoc x xs)
  then obtain y ys' where ys: "ys = ys' @ [y]" and len: "length xs = length ys'"
    by (cases ys rule: rev_cases) auto
  have x: "unat x < 256" and y: "unat y < 256" by simp_all
  have "from_be xs * 256 + unat x < from_be ys' * 256 + unat y \<longleftrightarrow>
      from_be xs < from_be ys' \<or> from_be xs = from_be ys' \<and> unat x < unat y"
    using x y by linarith
  also have "\<dots> \<longleftrightarrow> xs < ys' \<or> xs = ys' \<and> x < y"
    using snoc.IH [OF len] from_be_inject [OF len] by (auto simp: word_less_nat_alt)
  finally show ?case by (simp add: ys less_append_same_length [OF len])
qed simp

lemma to_be_less_iff:
  "n < 256 ^ k \<Longrightarrow> m < 256 ^ k \<Longrightarrow> to_be k n < to_be k m \<longleftrightarrow> n < m"
  by (simp flip: from_be_less_iff add: from_be_to_be)

text \<open>\<^verbatim>\<open>int.bit_length\<close> and the width \<^verbatim>\<open>(n.bit_length() + 7) // 8\<close>.\<close>

fun bit_length :: "nat \<Rightarrow> nat" where
  "bit_length n = (if n = 0 then 0 else Suc (bit_length (n div 2)))"

declare bit_length.simps [simp del]

lemma bit_length_0 [simp]: "bit_length 0 = 0"
  by (simp add: bit_length.simps)

lemma bit_length_upper: "n < 2 ^ bit_length n"
proof (induction n rule: bit_length.induct)
  case (1 n)
  show ?case
  proof (cases "n = 0")
    case False
    with 1 have "n div 2 < 2 ^ bit_length (n div 2)" by simp
    then have "n < 2 * 2 ^ bit_length (n div 2)" by linarith
    with False show ?thesis by (subst bit_length.simps) simp
  qed simp
qed

lemma bit_length_lower: "n \<noteq> 0 \<Longrightarrow> 2 ^ (bit_length n - 1) \<le> n"
proof (induction n rule: bit_length.induct)
  case (1 n)
  show ?case
  proof (cases "n div 2 = 0")
    case True
    with 1 have "n = Suc 0" by auto
    then show ?thesis by (simp add: bit_length.simps [of "Suc 0"])
  next
    case False
    then have "bit_length (n div 2) \<noteq> 0" by (subst bit_length.simps) simp
    then obtain k where k: "bit_length (n div 2) = Suc k" by (cases "bit_length (n div 2)") auto
    with 1 False have "2 ^ k \<le> n div 2" by simp
    then have "2 * 2 ^ k \<le> n" by linarith
    with 1 k show ?thesis by (subst bit_length.simps) simp
  qed
qed

definition byte_width :: "nat \<Rightarrow> nat" where
  "byte_width n = (bit_length n + 7) div 8"

lemma less_256_byte_width: "n < 256 ^ byte_width n"
proof -
  have "bit_length n \<le> 8 * byte_width n" by (simp add: byte_width_def)
  then have "(2::nat) ^ bit_length n \<le> 2 ^ (8 * byte_width n)" by (simp add: power_increasing)
  with bit_length_upper [of n] show ?thesis by (simp add: power_mult)
qed

lemma byte_width_lower:
  assumes "n \<noteq> 0" shows "0 < byte_width n" and "256 ^ (byte_width n - 1) \<le> n"
proof -
  have pos: "bit_length n \<noteq> 0" using assms by (subst bit_length.simps) simp
  then show "0 < byte_width n" by (simp add: byte_width_def)
  have "8 * (byte_width n - 1) \<le> bit_length n - 1" using pos by (simp add: byte_width_def)
  then have "(2::nat) ^ (8 * (byte_width n - 1)) \<le> 2 ^ (bit_length n - 1)"
    by (simp add: power_increasing)
  with bit_length_lower [OF assms] show "256 ^ (byte_width n - 1) \<le> n" by (simp add: power_mult)
qed

lemma hd_to_be_nonzero:
  assumes "n \<noteq> 0" shows "hd (to_be (byte_width n) n) \<noteq> 0"
proof
  assume z: "hd (to_be (byte_width n) n) = 0"
  obtain b bs where eq: "to_be (byte_width n) n = b # bs"
    using byte_width_lower(1) [OF assms] by (cases "to_be (byte_width n) n") (auto dest: arg_cong [of _ _ length])
  with z have b: "b = 0" by simp
  have len: "length bs = byte_width n - 1" using eq by (metis length_to_be length_Cons diff_Suc_1)
  have "n = from_be (b # bs)" by (metis from_be_to_be [OF less_256_byte_width] eq)
  also have "\<dots> = from_be bs" by (simp add: b from_be_def)
  also have "\<dots> < 256 ^ (byte_width n - 1)" using from_be_bound [of bs] len by simp
  finally show False using byte_width_lower(2) [OF assms] by simp
qed

section \<open>Text and UTF-8\<close>

text \<open>
  A Python \<^verbatim>\<open>str\<close> is the list of its code points; \<open>py ''abc''\<close> is a literal.
\<close>

type_synonym pystr = "nat list"

definition py :: "string \<Rightarrow> pystr" where
  "py s = map of_char s"

lemma py_inject [simp]: "py s = py t \<longleftrightarrow> s = t"
  unfolding py_def by (rule inj_map_eq_map) (simp add: inj_on_def)

lemma py_eq_Nil [simp]: "py s = [] \<longleftrightarrow> s = []" "[] = py s \<longleftrightarrow> s = []"
  by (simp_all add: py_def)

lemma length_py [simp]: "length (py s) = length s"
  by (simp add: py_def)

lemma py_append: "py (s @ t) = py s @ py t"
  by (simp add: py_def)

text \<open>The encoding of one code point; a surrogate raises \<^verbatim>\<open>UnicodeEncodeError\<close>.\<close>

definition utf8_char :: "nat \<Rightarrow> bytes option" where
  "utf8_char c =
     (if c < 0x80 then Some [b8 c]
      else if c < 0x800 then Some [b8 (0xC0 + c div 64), b8 (0x80 + c mod 64)]
      else if 0xD800 \<le> c \<and> c < 0xE000 then None
      else if c < 0x10000 then
        Some [b8 (0xE0 + c div 4096), b8 (0x80 + c div 64 mod 64),
              b8 (0x80 + c mod 64)]
      else if c < 0x110000 then
        Some [b8 (0xF0 + c div 262144), b8 (0x80 + c div 4096 mod 64),
              b8 (0x80 + c div 64 mod 64), b8 (0x80 + c mod 64)]
      else None)"

fun utf8_encode :: "pystr \<Rightarrow> bytes res" where
  "utf8_encode [] = Inr []"
| "utf8_encode (c # cs) =
     (case utf8_char c of
        None \<Rightarrow> raise UnicodeError ''surrogates not allowed''
      | Some bs \<Rightarrow> rbind (utf8_encode cs) (\<lambda>r. Inr (bs @ r)))"

text \<open>
  The strict decoder accepts exactly the shortest encodings of code points that are not
  surrogates. \<open>utf8_next\<close> reads the code point the first byte announces and checks that
  the bytes read are its encoding.
\<close>

definition utf8_width :: "byte \<Rightarrow> nat" where
  "utf8_width b = (let n = unat b in
     if n < 0x80 then 1 else if n < 0xE0 then 2 else if n < 0xF0 then 3 else 4)"

definition utf8_value :: "bytes \<Rightarrow> nat" where
  "utf8_value bs = (case map unat bs of
       [a] \<Rightarrow> a
     | [a, b] \<Rightarrow> (a - 0xC0) * 64 + (b - 0x80)
     | [a, b, c] \<Rightarrow> (a - 0xE0) * 4096 + (b - 0x80) * 64 + (c - 0x80)
     | [a, b, c, d] \<Rightarrow> (a - 0xF0) * 262144 + (b - 0x80) * 4096 + (c - 0x80) * 64 + (d - 0x80)
     | _ \<Rightarrow> 0)"

definition utf8_next :: "bytes \<Rightarrow> (nat \<times> bytes) option" where
  "utf8_next bs = (case bs of [] \<Rightarrow> None | b # _ \<Rightarrow>
     (let w = utf8_width b; seq = take w bs; c = utf8_value seq
      in if utf8_char c = Some seq then Some (c, drop w bs) else None))"

lemma utf8_char_nonempty: "utf8_char c = Some bs \<Longrightarrow> bs \<noteq> []"
  by (auto simp: utf8_char_def split: if_splits)

lemma utf8_next_SomeD: "utf8_next bs = Some (c, r) \<Longrightarrow> \<exists>s. utf8_char c = Some s \<and> bs = s @ r"
  by (auto simp: utf8_next_def Let_def split: list.splits if_splits)

lemma utf8_next_shorter: "utf8_next bs = Some (c, r) \<Longrightarrow> length r < length bs"
  by (auto dest!: utf8_next_SomeD utf8_char_nonempty)

function utf8_decode :: "bytes \<Rightarrow> pystr option" where
  "utf8_decode bs = (if bs = [] then Some [] else
     (case utf8_next bs of None \<Rightarrow> None
      | Some (c, r) \<Rightarrow> map_option (\<lambda>cs. c # cs) (utf8_decode r)))"
  by pat_completeness auto
termination
  by (relation "measure length") (auto simp: utf8_next_shorter)

declare utf8_decode.simps [simp del]

lemma utf8_decode_Nil [simp]: "utf8_decode [] = Some []"
  by (simp add: utf8_decode.simps)

lemma utf8_char_width: "utf8_char c = Some s \<Longrightarrow> \<exists>b t. s = b # t \<and> utf8_width b = length s"
  by (auto simp: utf8_char_def utf8_width_def Let_def split: if_splits)

lemma utf8_tail [simp]: "unat (b8 (128 + x mod 64)) - 128 = x mod 64"
proof -
  have "128 + x mod 64 < 256" by (simp add: trans_less_add2)
  then show ?thesis by simp
qed

lemma utf8_lead [simp]:
  "x < 32 \<Longrightarrow> unat (b8 (192 + x)) - 192 = x"
  "x < 16 \<Longrightarrow> unat (b8 (224 + x)) - 224 = x"
  "x < 8 \<Longrightarrow> unat (b8 (240 + x)) - 240 = x"
  by simp_all

lemma radix64:
  fixes c :: nat
  shows "c div 64 * 64 + c mod 64 = c"
    and "c div 4096 * 4096 + c div 64 mod 64 * 64 + c mod 64 = c"
    and "c div 262144 * 262144 + c div 4096 mod 64 * 4096 + c div 64 mod 64 * 64 + c mod 64 = c"
proof -
  show e1: "c div 64 * 64 + c mod 64 = c" by simp
  have "c div 64 div 64 * 64 + c div 64 mod 64 = c div 64" by simp
  then have d: "c div 4096 * 64 + c div 64 mod 64 = c div 64" by (simp flip: div_mult2_eq)
  with e1 show e2: "c div 4096 * 4096 + c div 64 mod 64 * 64 + c mod 64 = c" by linarith
  have "c div 4096 div 64 * 64 + c div 4096 mod 64 = c div 4096" by simp
  then have "c div 262144 * 64 + c div 4096 mod 64 = c div 4096" by (simp flip: div_mult2_eq)
  with e2 show "c div 262144 * 262144 + c div 4096 mod 64 * 4096 + c div 64 mod 64 * 64 + c mod 64 = c"
    by linarith
qed

lemma utf8_value_char:
  assumes "utf8_char c = Some s" shows "utf8_value s = c"
proof -
  consider "c < 0x80" | "0x80 \<le> c" "c < 0x800" | "0x800 \<le> c" "c < 0x10000"
    | "0x10000 \<le> c" "c < 0x110000"
    using assms by (auto simp: utf8_char_def split: if_splits)
  then show ?thesis
  proof cases
    case 2
    then have "c div 64 < 32" by linarith
    with 2 assms show ?thesis
      by (auto simp del: unat_b8 simp: utf8_char_def utf8_value_def radix64)
  next
    case 3
    then have "c div 4096 < 16" by linarith
    with 3 assms show ?thesis
      by (auto simp del: unat_b8 simp: utf8_char_def utf8_value_def radix64 split: if_splits)
  next
    case 4
    then have "c div 262144 < 8" by linarith
    with 4 assms show ?thesis
      by (auto simp del: unat_b8 simp: utf8_char_def utf8_value_def radix64)
  qed (use assms in \<open>auto simp: utf8_char_def utf8_value_def\<close>)
qed

lemma utf8_next_char: "utf8_char c = Some s \<Longrightarrow> utf8_next (s @ r) = Some (c, r)"
  using utf8_char_width [of c s] utf8_value_char [of c s]
  by (auto simp: utf8_next_def Let_def)

theorem utf8_decode_encode: "utf8_encode s = Inr bs \<Longrightarrow> utf8_decode bs = Some s"
proof (induction s arbitrary: bs)
  case (Cons c cs)
  then obtain s r where c: "utf8_char c = Some s" and r: "utf8_encode cs = Inr r" and bs: "bs = s @ r"
    by (auto split: option.splits)
  from c have "s \<noteq> []" by (rule utf8_char_nonempty)
  then show ?case
    using Cons.IH [OF r] utf8_next_char [OF c] by (subst utf8_decode.simps) (simp add: bs)
qed simp

theorem utf8_encode_decode: "utf8_decode bs = Some s \<Longrightarrow> utf8_encode s = Inr bs"
proof (induction bs arbitrary: s rule: utf8_decode.induct)
  case (1 bs)
  show ?case
  proof (cases "bs = []")
    case False
    with "1.prems" obtain c r cs where
      n: "utf8_next bs = Some (c, r)" and d: "utf8_decode r = Some cs" and s: "s = c # cs"
      by (subst (asm) utf8_decode.simps) (auto split: option.splits)
    from utf8_next_SomeD [OF n] "1.IH" [OF False n refl d] show ?thesis by (auto simp: s)
  qed (use "1.prems" in simp)
qed

lemma utf8_encode_inject: "utf8_encode s = Inr bs \<Longrightarrow> utf8_encode t = Inr bs \<Longrightarrow> s = t"
  by (metis utf8_decode_encode option.inject)

section \<open>Hexadecimal text\<close>

definition hex_digit :: "nat \<Rightarrow> nat" where
  "hex_digit n = (if n < 10 then 48 + n else 87 + n)"

definition hex_value :: "nat \<Rightarrow> nat option" where
  "hex_value c = (if 48 \<le> c \<and> c \<le> 57 then Some (c - 48)
     else if 97 \<le> c \<and> c \<le> 102 then Some (c - 87)
     else if 65 \<le> c \<and> c \<le> 70 then Some (c - 55) else None)"

fun to_hex :: "bytes \<Rightarrow> pystr" where
  "to_hex [] = []"
| "to_hex (b # bs) = hex_digit (unat b div 16) # hex_digit (unat b mod 16) # to_hex bs"

definition is_ascii_space :: "nat \<Rightarrow> bool" where
  "is_ascii_space c \<longleftrightarrow> c = 32 \<or> 9 \<le> c \<and> c \<le> 13"

text \<open>
  \<^verbatim>\<open>bytes.fromhex\<close>: pairs of digits of either case, with ASCII white space allowed
  before a pair; \<open>None\<close> is \<^verbatim>\<open>ValueError\<close>.
\<close>

fun from_hex :: "pystr \<Rightarrow> bytes option" where
  "from_hex [] = Some []"
| "from_hex [c] = (if is_ascii_space c then Some [] else None)"
| "from_hex (c # d # s) =
     (if is_ascii_space c then from_hex (d # s)
      else (case (hex_value c, hex_value d) of
          (Some a, Some b) \<Rightarrow> map_option (\<lambda>bs. b8 (16 * a + b) # bs) (from_hex s)
        | _ \<Rightarrow> None))"

definition ascii_lower :: "pystr \<Rightarrow> pystr" where
  "ascii_lower s = map (\<lambda>c. if 65 \<le> c \<and> c \<le> 90 then c + 32 else c) s"

lemma length_to_hex [simp]: "length (to_hex bs) = 2 * length bs"
  by (induction bs) simp_all

lemma to_hex_eq_Nil [simp]: "to_hex bs = [] \<longleftrightarrow> bs = []"
  by (cases bs) simp_all

lemma hex_digit_not_space [simp]: "n < 16 \<Longrightarrow> \<not> is_ascii_space (hex_digit n)"
  by (auto simp: hex_digit_def is_ascii_space_def)

lemma hex_value_digit [simp]: "n < 16 \<Longrightarrow> hex_value (hex_digit n) = Some n"
  by (auto simp: hex_digit_def hex_value_def)

lemma from_hex_to_hex [simp]: "from_hex (to_hex bs) = Some bs"
proof (induction bs)
  case (Cons b bs)
  have "unat b div 16 < 16" using unat_byte_lt [of b] by linarith
  moreover have "16 * (unat b div 16) + unat b mod 16 = unat b" by simp
  ultimately show ?case using Cons by simp
qed simp

lemma to_hex_inject [simp]: "to_hex a = to_hex b \<longleftrightarrow> a = b"
  by (metis from_hex_to_hex option.inject)

section \<open>String methods\<close>

definition startswith :: "pystr \<Rightarrow> pystr \<Rightarrow> bool" where
  "startswith s p \<longleftrightarrow> take (length p) s = p"

lemma startswith_iff: "startswith s p \<longleftrightarrow> (\<exists>r. s = p @ r)"
  unfolding startswith_def by (metis append_eq_conv_conj append_take_drop_id)

definition endswith :: "pystr \<Rightarrow> pystr \<Rightarrow> bool" where
  "endswith s p \<longleftrightarrow> length p \<le> length s \<and> drop (length s - length p) s = p"

text \<open>\<^verbatim>\<open>s.split(sep)\<close> for a separator of one character: never empty.\<close>

fun split_on :: "nat \<Rightarrow> pystr \<Rightarrow> pystr list" where
  "split_on sep [] = [[]]"
| "split_on sep (c # cs) =
     (if c = sep then [] # split_on sep cs
      else (case split_on sep cs of [] \<Rightarrow> [[c]] | w # ws \<Rightarrow> (c # w) # ws))"

lemma split_on_nonempty [simp]: "split_on sep s \<noteq> []"
  by (induction s) (auto split: list.splits)

section \<open>fnmatch.fnmatchcase\<close>

text \<open>
  Shell patterns: \<^verbatim>\<open>*\<close>, \<^verbatim>\<open>?\<close> and the bracket classes
  \<^verbatim>\<open>[seq]\<close> and \<^verbatim>\<open>[!seq]\<close>. \<open>glob_class\<close> reads the text after an
  opening bracket: the class text and the rest of the pattern, or \<open>None\<close> if no bracket
  closes it (the bracket is then an ordinary character). A bracket right after the opening
  (or after the exclamation mark) does not close the class.
\<close>

definition glob_class :: "pystr \<Rightarrow> (pystr \<times> pystr) option" where
  "glob_class p =
     (let (neg, p1) = (case p of c # r \<Rightarrow> if c = 33 then ([33], r) else ([], p) | [] \<Rightarrow> ([], p));
          (lead, p2) = (case p1 of c # r \<Rightarrow> if c = 93 then ([93], r) else ([], p1) | [] \<Rightarrow> ([], p1));
          body = takeWhile (\<lambda>c. c \<noteq> 93) p2; rest = dropWhile (\<lambda>c. c \<noteq> 93) p2
      in case rest of [] \<Rightarrow> None | _ # r \<Rightarrow> Some (neg @ lead @ body, r))"

text \<open>Membership in a class: ranges \<^verbatim>\<open>lo-hi\<close> are read greedily from the left.\<close>

fun glob_items :: "pystr \<Rightarrow> nat \<Rightarrow> bool" where
  "glob_items (lo # d # hi # r) c =
     (if d = 45 then lo \<le> c \<and> c \<le> hi \<or> glob_items r c else lo = c \<or> glob_items (d # hi # r) c)"
| "glob_items (x # r) c = (x = c \<or> glob_items r c)"
| "glob_items [] c = False"

definition glob_member :: "pystr \<Rightarrow> nat \<Rightarrow> bool" where
  "glob_member cls c = (case cls of
     x # r \<Rightarrow> if x = 33 then \<not> glob_items r c else glob_items cls c | [] \<Rightarrow> False)"

lemma glob_class_shorter: "glob_class p = Some (cls, r) \<Longrightarrow> length r < length p"
proof -
  assume a: "glob_class p = Some (cls, r)"
  have d: "dropWhile P xs = y # ys \<Longrightarrow> length ys < length xs" for P :: "nat \<Rightarrow> bool" and xs y ys
    by (metis Suc_le_lessD length_Cons length_dropWhile_le)
  show ?thesis
    using a by (auto simp: glob_class_def Let_def split: list.splits if_splits dest!: d)
qed

function fnmatchcase :: "pystr \<Rightarrow> pystr \<Rightarrow> bool" where
  "fnmatchcase s [] = (s = [])"
| "fnmatchcase s (p # ps) =
     (if p = 42 then fnmatchcase s ps \<or> (case s of [] \<Rightarrow> False | _ # cs \<Rightarrow> fnmatchcase cs (p # ps))
      else (case s of [] \<Rightarrow> False | c # cs \<Rightarrow>
        if p = 63 then fnmatchcase cs ps
        else if p = 91 then
          (case glob_class ps of
             Some (cls, r) \<Rightarrow> glob_member cls c \<and> fnmatchcase cs r
           | None \<Rightarrow> c = 91 \<and> fnmatchcase cs ps)
        else c = p \<and> fnmatchcase cs ps))"
  by pat_completeness auto
termination
  by (relation "measure (\<lambda>(s, p). length s + length p)") (auto dest!: glob_class_shorter)

lemma fnmatchcase_star: "fnmatchcase s [42]"
  by (induction s) auto

lemma fnmatchcase_literal: "set p \<inter> {42, 63, 91} = {} \<Longrightarrow> fnmatchcase s p \<longleftrightarrow> s = p"
  by (induction p arbitrary: s) (auto split: list.splits)

section \<open>Points in time\<close>

text \<open>
  A \<^verbatim>\<open>datetime\<close> is naive (no time zone) or aware; times are microseconds since
  1970-01-01, for an aware one the instant in UTC and the offset of its zone. A
  \<^verbatim>\<open>timedelta\<close> is a number of microseconds.
\<close>

datatype datetime = Naive int | Aware int int

fun as_utc :: "datetime \<Rightarrow> int" where
  "as_utc (Naive t) = t"
| "as_utc (Aware t z) = t"

text \<open>Comparing a naive with an aware time raises.\<close>

definition dt_less :: "datetime \<Rightarrow> datetime \<Rightarrow> bool res" where
  "dt_less a b = (case (a, b) of
     (Naive s, Naive t) \<Rightarrow> Inr (s < t)
   | (Aware s _, Aware t _) \<Rightarrow> Inr (s < t)
   | _ \<Rightarrow> raise TypeError ''cannot compare offset-naive and offset-aware datetimes'')"

definition dt_max :: "datetime \<Rightarrow> datetime \<Rightarrow> datetime res" where
  "dt_max a b = rbind (dt_less a b) (\<lambda>l. Inr (if l then b else a))"

definition dt_min :: "datetime \<Rightarrow> datetime \<Rightarrow> datetime res" where
  "dt_min a b = rbind (dt_less b a) (\<lambda>l. Inr (if l then b else a))"

lemma dt_less_eq_Inr: "dt_less a b = Inr l \<Longrightarrow> l = (as_utc a < as_utc b)"
  by (auto simp: dt_less_def split: datetime.splits)

abbreviation seconds :: "int \<Rightarrow> int" where
  "seconds n \<equiv> n * 1000000"

definition dt_add :: "int \<Rightarrow> int \<Rightarrow> int res" where
  "dt_add t d = (if -62135596800000000 \<le> t + d \<and> t + d \<le> 253402300799999999 then Inr (t + d)
     else raise OverflowError ''date value out of range'')"

lemma dt_add_eq_Inr [simp]: "dt_add t d = Inr u \<Longrightarrow> u = t + d"
  by (auto simp: dt_add_def split: if_splits)

section \<open>Primitives that are not Python source\<close>

text \<open>
  C-level and third-party functions, as parameters: SHA-256, Ed25519 verification of raw
  keys (\<^verbatim>\<open>cryptography\<close>), base64 (\<^verbatim>\<open>b64_strict\<close> is
  \<^verbatim>\<open>validate=True\<close>), \<^verbatim>\<open>datetime.isoformat\<close> of a UTC time and
  \<^verbatim>\<open>datetime.fromisoformat\<close>, \<^verbatim>\<open>float.__repr__\<close> on the
  64 bits of a float, and the text pydantic writes for a UTC time in JSON mode.
\<close>

record prims =
  sha256 :: "bytes \<Rightarrow> bytes"
  ed_verify :: "bytes \<Rightarrow> bytes \<Rightarrow> bytes \<Rightarrow> bool"
  b64_encode :: "bytes \<Rightarrow> pystr"
  b64_decode :: "pystr \<Rightarrow> bytes option"
  b64_strict :: "pystr \<Rightarrow> bytes option"
  isoformat :: "int \<Rightarrow> pystr"
  fromisoformat :: "pystr \<Rightarrow> datetime option"
  float_repr :: "64 word \<Rightarrow> pystr"
  dt_json :: "int \<Rightarrow> pystr"

text \<open>An \<^verbatim>\<open>Ed25519Signer\<close>: its key id, raw public key and signing function.\<close>

record signer =
  key_id :: pystr
  public_key_bytes :: bytes
  sign_bytes :: "bytes \<Rightarrow> bytes"

text \<open>
  What the code relies on: a signature made by a key pair verifies under its public key,
  and a raw signature has 64 bytes (the documented behaviour of Ed25519).
\<close>

definition signer_ok :: "prims \<Rightarrow> signer \<Rightarrow> bool" where
  "signer_ok P sg \<longleftrightarrow> length (public_key_bytes sg) = 32 \<and>
     (\<forall>m. length (sign_bytes sg m) = 64 \<and> ed_verify P (public_key_bytes sg) (sign_bytes sg m) m)"

text \<open>The base64 and ISO-8601 round trips the code relies on.\<close>

definition prims_ok :: "prims \<Rightarrow> bool" where
  "prims_ok P \<longleftrightarrow> (\<forall>b. length (sha256 P b) = 32) \<and> (\<forall>b. b64_decode P (b64_encode P b) = Some b)
     \<and> (\<forall>t. fromisoformat P (isoformat P t) = Some (Aware t 0))"

end
