(* ===== verification/Floats.thy ===== *)
theory Floats
  imports Stdlib
begin

text \<open>
  Python floats as the 64 bits of an IEEE 754 double, and \<^verbatim>\<open>struct.pack\<close> and
  \<^verbatim>\<open>struct.unpack\<close> of the narrower formats \<^verbatim>\<open>>e\<close> (half) and
  \<^verbatim>\<open>>f\<close> (single). All NaNs are one value: nothing in the code observes the bits of
  a NaN (the encoder writes one constant for all of them).
\<close>

type_synonym f64 = "64 word"

definition f64_sign :: "f64 \<Rightarrow> nat" where
  "f64_sign x = unat x div 2 ^ 63"

definition f64_exp :: "f64 \<Rightarrow> nat" where
  "f64_exp x = unat x div 2 ^ 52 mod 2048"

definition f64_mant :: "f64 \<Rightarrow> nat" where
  "f64_mant x = unat x mod 2 ^ 52"

definition mk_f64 :: "nat \<Rightarrow> nat \<Rightarrow> nat \<Rightarrow> f64" where
  "mk_f64 s e m = word_of_nat (s * 2 ^ 63 + e * 2 ^ 52 + m)"

definition nan_f64 :: f64 where
  "nan_f64 = mk_f64 0 2047 (2 ^ 51)"

definition is_nan :: "f64 \<Rightarrow> bool" where
  "is_nan x \<longleftrightarrow> f64_exp x = 2047 \<and> f64_mant x \<noteq> 0"

definition is_finite :: "f64 \<Rightarrow> bool" where
  "is_finite x \<longleftrightarrow> f64_exp x \<noteq> 2047"

text \<open>
  \<open>unpack_small eb mb n\<close>: the double that an IEEE value with \<open>eb\<close> exponent bits and
  \<open>mb\<close> mantissa bits denotes; widening is exact.
\<close>

definition unpack_small :: "nat \<Rightarrow> nat \<Rightarrow> nat \<Rightarrow> f64" where
  "unpack_small eb mb n =
     (let s = n div 2 ^ (eb + mb); e = n div 2 ^ mb mod 2 ^ eb; m = n mod 2 ^ mb;
          bias = 2 ^ (eb - 1) - 1
      in if e = 2 ^ eb - 1 then (if m = 0 then mk_f64 s 2047 0 else nan_f64)
         else if e = 0 then
           (if m = 0 then mk_f64 s 0 0
            else let k = bit_length m - 1
                 in mk_f64 s (1023 + k + 1 - bias - mb) ((m - 2 ^ k) * 2 ^ (52 - k)))
         else mk_f64 s (1023 + e - bias) (m * 2 ^ (52 - mb)))"

text \<open>
  \<open>pack_small eb mb x\<close>: the bits of \<open>x\<close> in the narrow format with the excess mantissa
  bits dropped, or \<open>None\<close> where the exponent does not fit. The code only keeps the packed
  value where unpacking gives \<open>x\<close> back, and on those the dropped bits are zero, so rounding
  and dropping agree.
\<close>

definition pack_small :: "nat \<Rightarrow> nat \<Rightarrow> f64 \<Rightarrow> nat option" where
  "pack_small eb mb x =
     (let s = f64_sign x * 2 ^ (eb + mb); e = f64_exp x; m = f64_mant x;
          bias = 2 ^ (eb - 1) - 1
      in if e = 2047 then Some (s + (2 ^ eb - 1) * 2 ^ mb)
         else if e = 0 then (if m = 0 then Some s else None)
         else if 1023 < e + bias \<and> e + bias < 1023 + 2 ^ eb - 1 then
           Some (s + (e + bias - 1023) * 2 ^ mb + m div 2 ^ (52 - mb))
         else if 1023 < e + bias + mb \<and> e + bias \<le> 1023 then
           Some (s + (2 ^ 52 + m) div 2 ^ (53 - mb + (1023 - (e + bias))))
         else None)"

text \<open>\<open>fits eb mb x\<close>: packing and unpacking \<open>x\<close> gives \<open>x\<close> back.\<close>

definition fits :: "nat \<Rightarrow> nat \<Rightarrow> f64 \<Rightarrow> nat option" where
  "fits eb mb x = (case pack_small eb mb x of None \<Rightarrow> None
     | Some n \<Rightarrow> if n < 2 ^ (1 + eb + mb) \<and> unpack_small eb mb n = x then Some n else None)"

lemma fitsD: "fits eb mb x = Some n \<Longrightarrow> n < 2 ^ (1 + eb + mb) \<and> unpack_small eb mb n = x"
  by (auto simp: fits_def split: option.splits if_splits)

text \<open>
  \<^verbatim>\<open>struct.pack(">f", x)\<close> raises \<^verbatim>\<open>OverflowError\<close> for a finite
  \<open>x\<close> that rounds to infinity: from half a unit in the last place above the largest single.
\<close>

definition f32_overflows :: "f64 \<Rightarrow> bool" where
  "f32_overflows x \<longleftrightarrow> is_finite x \<and> 0x47EFFFFFF0000000 \<le> unat x mod 2 ^ 63"

text \<open>\<^verbatim>\<open>struct.unpack(">d", b)\<close>, with the NaNs identified.\<close>

definition unpack_f64 :: "nat \<Rightarrow> f64" where
  "unpack_f64 n = (let x = word_of_nat n in if is_nan x then nan_f64 else x)"

text \<open>
  The exact value of a float that is an integer, for \<^verbatim>\<open>==\<close> between a float and an
  int: \<open>None\<close> for fractions, infinities and NaNs.
\<close>

definition f64_to_int :: "f64 \<Rightarrow> int option" where
  "f64_to_int x =
     (let e = f64_exp x; m = f64_mant x; sg = (if f64_sign x = 0 then 1 else - 1)
      in if e = 2047 then None
         else if e = 0 then (if m = 0 then Some 0 else None)
         else if 1075 \<le> e then Some (sg * int ((2 ^ 52 + m) * 2 ^ (e - 1075)))
         else if (2 ^ 52 + m) mod 2 ^ (1075 - e) = 0 then Some (sg * int ((2 ^ 52 + m) div 2 ^ (1075 - e)))
         else None)"

text \<open>\<^verbatim>\<open>==\<close> of two floats: a NaN differs from everything, zeros are equal.\<close>

definition f64_eq :: "f64 \<Rightarrow> f64 \<Rightarrow> bool" where
  "f64_eq x y \<longleftrightarrow> \<not> is_nan x \<and> \<not> is_nan y \<and>
     (x = y \<or> f64_to_int x = Some 0 \<and> f64_to_int y = Some 0)"

lemma nan_f64_is_nan [simp]: "is_nan nan_f64"
  by (simp add: is_nan_def nan_f64_def mk_f64_def f64_exp_def f64_mant_def)

lemma unpack_f64_unat: "is_nan x \<longrightarrow> x = nan_f64 \<Longrightarrow> unpack_f64 (unat x) = x"
  by (auto simp: unpack_f64_def Let_def)

end
