(* ===== verification/Cbor.thy ===== *)
theory Cbor
  imports Floats
begin

text \<open>
  \<^verbatim>\<open>cbor.py\<close>: the deterministic CBOR encoder and the strict decoder. The Python
  values CBOR carries are \<open>pyval\<close>; a \<^verbatim>\<open>dict\<close> is its list of entries in
  insertion order (tuples encode as lists and are modelled as such).
\<close>

section \<open>Python values\<close>

datatype pyval =
    PNone | PBool bool | PInt int | PFloat f64 | PBytes bytes | PStr pystr
  | PList "pyval list" | PDict "(pyval \<times> pyval) list"
  | PTag nat pyval | PSimple nat | PUndefined

text \<open>
  Dictionary keys: \<^verbatim>\<open>list\<close>, \<^verbatim>\<open>dict\<close> and the undefined singleton
  (a class with \<^verbatim>\<open>__eq__\<close> and no \<^verbatim>\<open>__hash__\<close>) are unhashable; booleans,
  ints and floats of one value are one key.
\<close>

fun hashable :: "pyval \<Rightarrow> bool" where
  "hashable (PList _) = False"
| "hashable (PDict _) = False"
| "hashable PUndefined = False"
| "hashable (PTag _ v) = hashable v"
| "hashable _ = True"

fun as_number :: "pyval \<Rightarrow> int option" where
  "as_number (PBool b) = Some (if b then 1 else 0)"
| "as_number (PInt i) = Some i"
| "as_number (PFloat x) = f64_to_int x"
| "as_number _ = None"

fun py_eq :: "pyval \<Rightarrow> pyval \<Rightarrow> bool" where
  "py_eq (PTag n v) w = (case w of PTag m u \<Rightarrow> n = m \<and> py_eq v u | _ \<Rightarrow> False)"
| "py_eq (PFloat x) w = (case w of PFloat y \<Rightarrow> f64_eq x y
     | _ \<Rightarrow> f64_to_int x \<noteq> None \<and> f64_to_int x = as_number w)"
| "py_eq v w = (case (as_number v, as_number w) of (Some i, Some j) \<Rightarrow> i = j | _ \<Rightarrow> v = w)"

text \<open>\<^verbatim>\<open>d[k] = v\<close> and \<^verbatim>\<open>d.get(k)\<close>: an existing entry keeps its key and place.\<close>

fun dict_set :: "pyval \<Rightarrow> pyval \<Rightarrow> (pyval \<times> pyval) list \<Rightarrow> (pyval \<times> pyval) list" where
  "dict_set k v [] = [(k, v)]"
| "dict_set k v ((k', v') # d) =
     (if py_eq k' k then (k', v) # d else (k', v') # dict_set k v d)"

fun dict_get :: "pyval \<Rightarrow> (pyval \<times> pyval) list \<Rightarrow> pyval option" where
  "dict_get k [] = None"
| "dict_get k ((k', v') # d) = (if py_eq k' k then Some v' else dict_get k d)"

section \<open>Encoding\<close>

definition head :: "nat \<Rightarrow> nat \<Rightarrow> bytes res" where
  "head major n =
     (if n < 24 then Inr [b8 (major * 32 + n)]
      else if n < 0x100 then Inr [b8 (major * 32 + 24), b8 n]
      else if n < 0x10000 then Inr (b8 (major * 32 + 25) # to_be 2 n)
      else if n < 0x100000000 then Inr (b8 (major * 32 + 26) # to_be 4 n)
      else if n < 0x10000000000000000 then Inr (b8 (major * 32 + 27) # to_be 8 n)
      else raise CBORError ''integer argument too large for CBOR'')"

definition encode_bignum :: "nat \<Rightarrow> nat \<Rightarrow> bytes res" where
  "encode_bignum tag mag =
     (let content = to_be (byte_width mag) mag
      in rbind (head 6 tag) (\<lambda>t. rbind (head 2 (length content)) (\<lambda>l. Inr (t @ l @ content))))"

definition encode_int :: "int \<Rightarrow> bytes res" where
  "encode_int n =
     (if 0 \<le> n \<and> n < 0x10000000000000000 then head 0 (nat n)
      else if - 0x10000000000000000 \<le> n \<and> n < 0 then head 1 (nat (- 1 - n))
      else if 0 \<le> n then encode_bignum 2 (nat n)
      else encode_bignum 3 (nat (- 1 - n)))"

definition encode_float :: "f64 \<Rightarrow> bytes res" where
  "encode_float x =
     (if is_nan x then Inr [0xF9, 0x7E, 0x00]
      else case fits 5 10 x of
        Some h \<Rightarrow> Inr (0xF9 # to_be 2 h)
      | None \<Rightarrow>
          (if f32_overflows x then raise OverflowError ''float too large to pack with f format''
           else case fits 8 23 x of
             Some f \<Rightarrow> Inr (0xFA # to_be 4 f)
           | None \<Rightarrow> Inr (0xFB # to_be 8 (unat x))))"

text \<open>
  The keys of a map are encoded first, in insertion order; the pairs are then sorted by the
  length and the bytes of the encoded key, and the values encoded in that order.
  \<open>encode_pairs\<close> pairs each encoded key with the outcome of encoding its value.
\<close>

definition key_order :: "bytes \<times> bytes res \<Rightarrow> nat \<times> bytes" where
  "key_order p = (length (fst p), fst p)"

definition put_entry :: "bytes \<times> bytes res \<Rightarrow> bytes res" where
  "put_entry p = rbind (snd p) (\<lambda>vb. Inr (fst p @ vb))"

function encode :: "pyval \<Rightarrow> bytes res"
  and encode_items :: "pyval list \<Rightarrow> bytes res"
  and encode_pairs :: "(pyval \<times> pyval) list \<Rightarrow> (bytes \<times> bytes res) list res" where
  "encode PNone = Inr [0xF6]"
| "encode (PBool b) = Inr [if b then 0xF5 else 0xF4]"
| "encode (PInt n) = encode_int n"
| "encode (PFloat x) = encode_float x"
| "encode (PBytes b) = rbind (head 2 (length b)) (\<lambda>h. Inr (h @ b))"
| "encode (PStr s) = rbind (utf8_encode s) (\<lambda>raw.
     rbind (head 3 (length raw)) (\<lambda>h. Inr (h @ raw)))"
| "encode (PList vs) = rbind (head 4 (length vs)) (\<lambda>h.
     rbind (encode_items vs) (\<lambda>bs. Inr (h @ bs)))"
| "encode (PDict kvs) = rbind (encode_pairs kvs) (\<lambda>pairs.
     rbind (head 5 (length pairs)) (\<lambda>h.
     rbind (rmap put_entry (sort_key key_order pairs)) (\<lambda>es. Inr (h @ concat es))))"
| "encode (PTag n v) = rbind (head 6 n) (\<lambda>h. rbind (encode v) (\<lambda>b. Inr (h @ b)))"
| "encode (PSimple n) = raise CBORError ''cannot CBOR-encode value of type''"
| "encode PUndefined = raise CBORError ''cannot CBOR-encode value of type''"
| "encode_items [] = Inr []"
| "encode_items (v # vs) = rbind (encode v) (\<lambda>b. rbind (encode_items vs) (\<lambda>bs. Inr (b @ bs)))"
| "encode_pairs [] = Inr []"
| "encode_pairs ((k, v) # kvs) = rbind (encode k) (\<lambda>kb.
     rbind (encode_pairs kvs) (\<lambda>ps. Inr ((kb, encode v) # ps)))"
  by pat_completeness auto
termination
  by (relation "measure (case_sum size (case_sum (size_list size)
        (size_list (size_prod size size))))") auto

definition cbor_dumps :: "pyval \<Rightarrow> bytes res" where
  "cbor_dumps v = encode v"

section \<open>Decoding\<close>

text \<open>
  The reader's state is the input that is left. \<open>read n\<close> takes \<open>n\<close> bytes;
  \<open>read_arg\<close> is \<^verbatim>\<open>_Reader._arg\<close>, \<open>decode_simple\<close> is
  \<^verbatim>\<open>_Reader._decode_simple\<close>.
\<close>

definition read :: "nat \<Rightarrow> bytes \<Rightarrow> (bytes \<times> bytes) res" where
  "read n bs = (if length bs < n then raise CBORError ''truncated CBOR input''
     else Inr (take n bs, drop n bs))"

definition read_arg :: "nat \<Rightarrow> bytes \<Rightarrow> (nat \<times> bytes) res" where
  "read_arg ai bs =
     (if ai < 24 then Inr (ai, bs)
      else if ai = 24 then rbind (read 1 bs) (\<lambda>(c, r). let n = from_be c in
        if n < 24 then raise CBORError ''non-shortest integer encoding (1-byte)'' else Inr (n, r))
      else if ai = 25 then rbind (read 2 bs) (\<lambda>(c, r). let n = from_be c in
        if n < 0x100 then raise CBORError ''non-shortest integer encoding (2-byte)'' else Inr (n, r))
      else if ai = 26 then rbind (read 4 bs) (\<lambda>(c, r). let n = from_be c in
        if n < 0x10000 then raise CBORError ''non-shortest integer encoding (4-byte)'' else Inr (n, r))
      else if ai = 27 then rbind (read 8 bs) (\<lambda>(c, r). let n = from_be c in
        if n < 0x100000000 then raise CBORError ''non-shortest integer encoding (8-byte)''
        else Inr (n, r))
      else raise CBORError ''invalid additional information'')"

definition read_head :: "bytes \<Rightarrow> ((nat \<times> nat) \<times> bytes) res" where
  "read_head bs = rbind (read 1 bs) (\<lambda>(c, r). let i = from_be c in Inr ((i div 32, i mod 32), r))"

definition decode_simple :: "nat \<Rightarrow> bytes \<Rightarrow> (pyval \<times> bytes) res" where
  "decode_simple ai bs =
     (if ai < 20 then Inr (PSimple ai, bs)
      else if ai = 20 then Inr (PBool False, bs)
      else if ai = 21 then Inr (PBool True, bs)
      else if ai = 22 then Inr (PNone, bs)
      else if ai = 23 then Inr (PUndefined, bs)
      else if ai = 24 then rbind (read 1 bs) (\<lambda>(c, r). let n = from_be c in
        if n < 32 then raise CBORError ''non-shortest simple-value encoding'' else Inr (PSimple n, r))
      else if ai = 25 then rbind (read 2 bs) (\<lambda>(c, r). Inr (PFloat (unpack_small 5 10 (from_be c)), r))
      else if ai = 26 then rbind (read 4 bs) (\<lambda>(c, r). Inr (PFloat (unpack_small 8 23 (from_be c)), r))
      else if ai = 27 then rbind (read 8 bs) (\<lambda>(c, r). Inr (PFloat (unpack_f64 (from_be c)), r))
      else if ai \<in> {28, 29, 30} then raise CBORError ''reserved additional information''
      else raise CBORError ''break stop code outside indefinite-length item'')"

text \<open>
  The loops of arrays and maps, over the decoder of one item. The bytes of a key are what
  its decoding consumed; each key must be greater than the one before, byte by byte, and
  storing it in the result needs it hashable.
\<close>

fun decode_items :: "(bytes \<Rightarrow> ('v \<times> bytes) res) \<Rightarrow> nat \<Rightarrow> bytes \<Rightarrow> ('v list \<times> bytes) res" where
  "decode_items f 0 bs = Inr ([], bs)"
| "decode_items f (Suc n) bs = rbind (f bs) (\<lambda>(v, r).
     rbind (decode_items f n r) (\<lambda>(vs, r'). Inr (v # vs, r')))"

fun decode_entries :: "(bytes \<Rightarrow> (pyval \<times> bytes) res) \<Rightarrow> nat \<Rightarrow> bytes option
    \<Rightarrow> (pyval \<times> pyval) list \<Rightarrow> bytes \<Rightarrow> (pyval \<times> bytes) res" where
  "decode_entries f 0 prev acc bs = Inr (PDict acc, bs)"
| "decode_entries f (Suc n) prev acc bs = rbind (f bs) (\<lambda>(k, r).
     let kb = take (length bs - length r) bs in
     if (case prev of None \<Rightarrow> False | Some p \<Rightarrow> kb \<le> p)
     then raise CBORError ''map keys not in canonical order (or duplicate key)''
     else rbind (f r) (\<lambda>(v, r').
       if hashable k then decode_entries f n (Some kb) (dict_set k v acc) r'
       else raise TypeError ''unhashable type''))"

definition decode_tag :: "nat \<Rightarrow> pyval \<Rightarrow> pyval res" where
  "decode_tag n v =
     (if n \<in> {2, 3} then (case v of
        PBytes b \<Rightarrow>
          (if 1 < length b \<and> hd b = 0 then raise CBORError ''non-shortest bignum encoding''
           else Inr (PInt (if n = 2 then int (from_be b) else - 1 - int (from_be b))))
      | _ \<Rightarrow> Inr (PTag n v))
      else Inr (PTag n v))"

text \<open>
  \<open>decode d\<close> is \<^verbatim>\<open>_Reader.decode\<close> at depth \<^verbatim>\<open>max_depth + 1 - d\<close>:
  the number of nesting levels that are left bounds the recursion.
\<close>

fun decode :: "nat \<Rightarrow> bytes \<Rightarrow> (pyval \<times> bytes) res" where
  "decode 0 bs = raise CBORError ''CBOR nesting depth exceeded limit''"
| "decode (Suc d) bs = rbind (read_head bs) (\<lambda>((major, ai), r).
     if ai = 31 then raise CBORError ''indefinite lengths are not allowed in deterministic CBOR''
     else if major = 7 then decode_simple ai r
     else rbind (read_arg ai r) (\<lambda>(n, r).
       if major = 0 then Inr (PInt (int n), r)
       else if major = 1 then Inr (PInt (- 1 - int n), r)
       else if major = 2 then rbind (read n r) (\<lambda>(c, r). Inr (PBytes c, r))
       else if major = 3 then rbind (read n r) (\<lambda>(c, r).
         case utf8_decode c of
           None \<Rightarrow> raise CBORError ''invalid UTF-8 in text string''
         | Some s \<Rightarrow> Inr (PStr s, r))
       else if major = 4 then rbind (decode_items (decode d) n r) (\<lambda>(vs, r). Inr (PList vs, r))
       else if major = 5 then decode_entries (decode d) n None [] r
       else rbind (decode d r) (\<lambda>(v, r). rbind (decode_tag n v) (\<lambda>w. Inr (w, r)))))"

definition max_recursion_depth :: nat where
  "max_recursion_depth = 64"

definition cbor_loads :: "bytes \<Rightarrow> pyval res" where
  "cbor_loads data = rbind (decode (Suc max_recursion_depth) data) (\<lambda>(v, rest).
     require (rest = []) CBORError ''trailing bytes after CBOR item'' (Inr v))"

end
