(* ===== verification/Cbor_Roundtrip.thy ===== *)
theory Cbor_Roundtrip
  imports Cbor
begin

text \<open>
  What \<^verbatim>\<open>cbor.py\<close> promises: decoding the encoding of a value gives the value
  back, with the entries of every map in canonical order, and the encoding does not depend
  on the insertion order. The interface the protocol layers rely on is the locale
  \<open>item_codec\<close>; \<open>decode\<close> is an instance at every nesting depth.
\<close>

section \<open>The interface of a self-delimiting codec\<close>

locale item_codec =
  fixes enc :: "'v \<Rightarrow> bytes res"
    and dec :: "bytes \<Rightarrow> ('v \<times> bytes) res"
    and nf :: "'v \<Rightarrow> 'v"
    and ok :: "'v \<Rightarrow> bool"
  assumes dec_enc: "ok v \<Longrightarrow> enc v = Inr b \<Longrightarrow> dec (b @ r) = Inr (nf v, r)"
begin

lemma enc_prefix_free:
  assumes "ok v" "ok w" "enc v = Inr b" "enc w = Inr c" "b @ r = c @ q"
  shows "nf v = nf w \<and> r = q"
proof -
  have "Inr (nf v, r) = (Inr (nf w, q) :: ('v \<times> bytes) res)"
    using dec_enc [OF assms(1,3)] dec_enc [OF assms(2,4)] assms(5) by metis
  then show ?thesis by simp
qed

lemma enc_inject:
  assumes "ok v" "ok w" "enc v = Inr b" "enc w = Inr b"
  shows "nf v = nf w"
  using enc_prefix_free [OF assms, of "[]" "[]"] by simp

lemma decode_items_enc:
  assumes "list_all ok vs" "list_all2 (\<lambda>v b. enc v = Inr b) vs bss"
  shows "decode_items dec (length vs) (concat bss @ r) = Inr (map nf vs, r)"
  using assms
proof (induction vs arbitrary: bss)
  case (Cons v vs)
  then obtain b bss' where "bss = b # bss'" "enc v = Inr b" "list_all2 (\<lambda>v b. enc v = Inr b) vs bss'"
    by (auto simp: list_all2_Cons1)
  with Cons dec_enc [of v b "concat bss' @ r"] show ?case by simp
qed simp

end

section \<open>Heads\<close>

lemma read_append [simp]: "n = length a \<Longrightarrow> read n (a @ r) = Inr (a, r)"
  by (simp add: read_def)

lemma read_1 [simp]: "read 1 (b # r) = Inr ([b], r)" "read (Suc 0) (b # r) = Inr ([b], r)"
  by (simp_all add: read_def)

lemma from_be_b8 [simp]: "from_be [b8 n] = n mod 256"
  by simp

lemma from_be_to_be_2 [simp]: "n < 0x10000 \<Longrightarrow> from_be (to_be 2 n) = n"
  by (rule from_be_to_be) simp

lemma from_be_to_be_4 [simp]: "n < 0x100000000 \<Longrightarrow> from_be (to_be 4 n) = n"
  by (rule from_be_to_be) simp

lemma from_be_to_be_8 [simp]: "n < 0x10000000000000000 \<Longrightarrow> from_be (to_be 8 n) = n"
  by (rule from_be_to_be) simp

lemma read_head_b8:
  "m < 8 \<Longrightarrow> a < 32 \<Longrightarrow> read_head (b8 (m * 32 + a) # r) = Inr ((m, a), r)"
  by (simp add: read_head_def Let_def)

text \<open>The additional information and the argument bytes of a head.\<close>

definition head_ai :: "nat \<Rightarrow> nat" where
  "head_ai n = (if n < 24 then n else if n < 0x100 then 24 else if n < 0x10000 then 25
     else if n < 0x100000000 then 26 else 27)"

definition head_arg :: "nat \<Rightarrow> bytes" where
  "head_arg n = (if n < 24 then [] else if n < 0x100 then [b8 n] else if n < 0x10000 then to_be 2 n
     else if n < 0x100000000 then to_be 4 n else to_be 8 n)"

lemma head_eq:
  "head m n = Inr h \<longleftrightarrow> n < 0x10000000000000000 \<and> h = b8 (m * 32 + head_ai n) # head_arg n"
  by (auto simp: head_def head_ai_def head_arg_def)

lemma head_ai_less: "head_ai n < 28"
  by (simp add: head_ai_def)

lemma read_arg_head: "n < 0x10000000000000000 \<Longrightarrow> read_arg (head_ai n) (head_arg n @ r) = Inr (n, r)"
  by (simp add: read_arg_def head_ai_def head_arg_def Let_def)

lemma head_read:
  assumes "m < 8" "head m n = Inr h"
  obtains ai q where "read_head (h @ r) = Inr ((m, ai), q)" "ai < 28" "read_arg ai q = Inr (n, r)"
proof
  show "read_head (h @ r) = Inr ((m, head_ai n), head_arg n @ r)"
    using assms head_ai_less [of n] by (auto simp: head_eq read_head_b8)
  show "read_arg (head_ai n) (head_arg n @ r) = Inr (n, r)"
    using assms by (simp add: head_eq read_arg_head)
qed (rule head_ai_less)

text \<open>Only the shortest form of a head is read back.\<close>

lemma read_1_eq: "read (Suc 0) bs = Inr (c, r) \<longleftrightarrow> (\<exists>b. c = [b] \<and> bs = b # r)"
  by (cases bs) (auto simp: read_def)

lemma read_eq_Inr: "read n bs = Inr (c, r) \<longleftrightarrow> length c = n \<and> bs = c @ r"
  by (auto simp: read_def)

lemma to_be_eq: "length c = k \<Longrightarrow> to_be k (from_be c) = c"
  using to_be_from_be by blast

lemma from_be_less: "length c = k \<Longrightarrow> from_be c < 256 ^ k"
  using from_be_bound by blast

lemma read_arg_shortest:
  assumes "read_arg ai q = Inr (n, r)"
  shows "ai = head_ai n \<and> q = head_arg n @ r \<and> n < 0x10000000000000000"
proof -
  have one: "c = [b8 (from_be c)]" if "length c = Suc 0" for c
    using that by (cases c) auto
  consider "ai < 24" | "ai = 24" | "ai = 25" | "ai = 26" | "ai = 27"
    using assms by (auto simp: read_arg_def split: if_splits)
  then show ?thesis
  proof cases
    case 2
    with assms show ?thesis
      by (auto simp: read_arg_def Let_def read_eq_Inr head_ai_def head_arg_def dest: from_be_less one)
  next
    case 3
    with assms show ?thesis
      by (auto simp: read_arg_def Let_def read_eq_Inr head_ai_def head_arg_def to_be_eq
          dest: from_be_less)
  next
    case 4
    with assms show ?thesis
      by (auto simp: read_arg_def Let_def read_eq_Inr head_ai_def head_arg_def to_be_eq
          dest: from_be_less)
  next
    case 5
    with assms show ?thesis
      by (auto simp: read_arg_def Let_def read_eq_Inr head_ai_def head_arg_def to_be_eq
          dest: from_be_less)
  qed (use assms in \<open>auto simp: read_arg_def head_ai_def head_arg_def\<close>)
qed

lemma head_less:
  assumes "head m a = Inr h" "head m b = Inr k" "a < b" "m < 8"
  shows "h @ x < k @ y" "length h \<le> length k"
proof -
  have ai: "head_ai a \<le> head_ai b" using assms(3) by (auto simp: head_ai_def)
  have arg: "head_arg a @ x < head_arg b @ y" if "head_ai a = head_ai b"
  proof -
    have "word_of_nat a < (word_of_nat b :: byte)" if "b < 256"
      using that assms(3) by (simp add: word_less_nat_alt unat_of_nat)
    with assms that show ?thesis
      by (auto simp: head_ai_def head_arg_def head_eq b8_def less_append_same_length to_be_less_iff
          split: if_splits)
  qed
  have "b8 (m * 32 + head_ai a) < b8 (m * 32 + head_ai b)" if "head_ai a < head_ai b"
    using that assms(4) head_ai_less [of b] by (simp add: word_less_nat_alt)
  with ai arg show "h @ x < k @ y"
    using assms(1,2) by (cases "head_ai a = head_ai b") (auto simp: head_eq)
  show "length h \<le> length k"
    using assms by (auto simp: head_eq head_arg_def)
qed

section \<open>Scalars\<close>

lemma decode_uint: "head 0 n = Inr h \<Longrightarrow> decode (Suc d) (h @ r) = Inr (PInt (int n), r)"
  by (erule head_read [rotated, where r = r]) auto

lemma decode_nint: "head 1 n = Inr h \<Longrightarrow> decode (Suc d) (h @ r) = Inr (PInt (- 1 - int n), r)"
  by (erule head_read [rotated, where r = r]) auto

lemma decode_bytes: "head 2 (length c) = Inr h \<Longrightarrow> decode (Suc d) (h @ c @ r) = Inr (PBytes c, r)"
  by (erule head_read [rotated, where r = "c @ r"]) auto

lemma decode_text:
  assumes "utf8_encode s = Inr c" "head 3 (length c) = Inr h"
  shows "decode (Suc d) (h @ c @ r) = Inr (PStr s, r)"
  using assms(2) by (rule head_read [rotated, where r = "c @ r"])
    (auto simp: utf8_decode_encode [OF assms(1)])

lemma decode_array:
  assumes "head 4 n = Inr h" "decode_items (decode d) n bs = Inr (vs, r)"
  shows "decode (Suc d) (h @ bs) = Inr (PList vs, r)"
  by (rule head_read [OF _ assms(1), of bs]) (simp_all add: assms)

lemma decode_map:
  assumes "head 5 n = Inr h" "decode_entries (decode d) n None [] bs = Inr (v, r)"
  shows "decode (Suc d) (h @ bs) = Inr (v, r)"
  by (rule head_read [OF _ assms(1), of bs]) (simp_all add: assms)

lemma decode_tagged:
  assumes "head 6 n = Inr h" "decode d bs = Inr (v, r)" "decode_tag n v = Inr w"
  shows "decode (Suc d) (h @ bs) = Inr (w, r)"
  by (rule head_read [OF _ assms(1), of bs]) (simp_all add: assms)

lemma decode_bignum:
  assumes "encode_bignum t mag = Inr b" "mag \<noteq> 0" "t = 2 \<or> t = 3"
  shows "decode (Suc (Suc d)) (b @ r) = Inr (PInt (if t = 2 then int mag else - 1 - int mag), r)"
proof -
  let ?c = "to_be (byte_width mag) mag"
  from assms(1) obtain h l where h: "head 6 t = Inr h" and l: "head 2 (length ?c) = Inr l"
    and b: "b = h @ l @ ?c"
    by (auto simp: encode_bignum_def Let_def)
  have "from_be ?c = mag" by (rule from_be_to_be [OF less_256_byte_width])
  moreover have "hd ?c \<noteq> 0" using assms(2) by (rule hd_to_be_nonzero)
  ultimately have "decode_tag t (PBytes ?c) = Inr (PInt (if t = 2 then int mag else - 1 - int mag))"
    using assms(3) by (auto simp: decode_tag_def)
  with decode_tagged [OF h decode_bytes [OF l, of d r]] show ?thesis by (simp add: b)
qed

lemma decode_int:
  assumes "encode_int n = Inr b" "- 0x10000000000000000 \<le> n \<and> n < 0x10000000000000000 \<or> d \<noteq> 0"
  shows "decode (Suc d) (b @ r) = Inr (PInt n, r)"
proof -
  consider "0 \<le> n" "n < 0x10000000000000000" | "- 0x10000000000000000 \<le> n" "n < 0"
    | "0x10000000000000000 \<le> n" | "n < - 0x10000000000000000" by linarith
  then show ?thesis
  proof cases
    case 1
    with assms(1) have "head 0 (nat n) = Inr b" by (simp add: encode_int_def)
    with 1 show ?thesis using decode_uint [of "nat n" b d r] by simp
  next
    case 2
    with assms(1) have "head 1 (nat (- 1 - n)) = Inr b" by (simp add: encode_int_def)
    with 2 show ?thesis using decode_nint [of "nat (- 1 - n)" b d r] by simp
  next
    case 3
    with assms obtain e where "encode_bignum 2 (nat n) = Inr b" "d = Suc e"
      by (auto simp: encode_int_def not0_implies_Suc dest: gr0_implies_Suc split: if_splits)
    with 3 show ?thesis using decode_bignum [of 2 "nat n" b e r] by simp
  next
    case 4
    with assms obtain e where "encode_bignum 3 (nat (- 1 - n)) = Inr b" "d = Suc e"
      by (auto simp: encode_int_def dest: gr0_implies_Suc split: if_splits)
    with 4 show ?thesis using decode_bignum [of 3 "nat (- 1 - n)" b e r] by simp
  qed
qed

lemma decode_major7:
  assumes "unat b = 224 + a" "a < 31"
  shows "decode (Suc d) (b # r) = decode_simple a r"
proof -
  have "b = b8 (224 + a)" using b8_unat [of b] by (simp only: assms(1))
  then have "read_head (b # r) = Inr ((7, a), r)" using read_head_b8 [of 7 a r] assms(2) by simp
  with assms(2) show ?thesis by simp
qed

lemma decode_F [simp]:
  "decode (Suc d) (0xF4 # r) = decode_simple 20 r"
  "decode (Suc d) (0xF5 # r) = decode_simple 21 r"
  "decode (Suc d) (0xF6 # r) = decode_simple 22 r"
  "decode (Suc d) (0xF9 # r) = decode_simple 25 r"
  "decode (Suc d) (0xFA # r) = decode_simple 26 r"
  "decode (Suc d) (0xFB # r) = decode_simple 27 r"
  by (rule decode_major7; simp)+

lemma decode_float:
  assumes "encode_float x = Inr b" "is_nan x \<longrightarrow> x = nan_f64"
  shows "decode (Suc d) (b @ r) = Inr (PFloat x, r)"
proof (cases "is_nan x")
  case True
  have "unpack_small 5 10 0x7E00 = nan_f64" by (simp add: unpack_small_def Let_def)
  moreover have "from_be [0x7E, 0x00] = 0x7E00" by (simp add: from_be_def)
  moreover have "b = [0xF9, 0x7E, 0x00]" and "x = nan_f64"
    using True assms by (simp_all add: encode_float_def)
  ultimately show ?thesis by (simp add: decode_simple_def read_def del: decode.simps)
next
  case False
  have u: "unat x < 0x10000000000000000" using unsigned_less [of x, where ?'a = nat] by simp
  have x8: "unpack_f64 (from_be (to_be 8 (unat x))) = x"
    using False u by (simp add: unpack_f64_unat)
  from False assms(1) show ?thesis
    by (auto simp: encode_float_def decode_simple_def x8 simp del: decode.simps
        split: option.splits if_splits dest!: fitsD)
qed

section \<open>Maps\<close>

declare decode.simps(2) [simp del]

text \<open>
  The maps of the protocol have text keys (payloads) or small non-negative integer keys (COSE
  headers). On either family the byte order of the encoded keys, which the decoder checks,
  agrees with the order by length and bytes in which the encoder sorts.
\<close>

fun is_text :: "pyval \<Rightarrow> bool" where
  "is_text (PStr s) = True" | "is_text _ = False"

fun is_label :: "pyval \<Rightarrow> bool" where
  "is_label (PInt i) = (0 \<le> i \<and> i < 0x10000000000000000)" | "is_label _ = False"

definition uniform_keys :: "pyval list \<Rightarrow> bool" where
  "uniform_keys ks \<longleftrightarrow> list_all is_text ks \<or> list_all is_label ks"

definition key_bytes :: "pyval \<Rightarrow> bytes" where
  "key_bytes k = (case encode k of Inr b \<Rightarrow> b | Inl _ \<Rightarrow> [])"

definition entry_order :: "pyval \<times> 'a \<Rightarrow> nat \<times> bytes" where
  "entry_order e = (length (key_bytes (fst e)), key_bytes (fst e))"

lemma text_key_less:
  assumes "encode (PStr s) = Inr a" "encode (PStr t) = Inr b" "(length a, a) < (length b, b)"
  shows "a < b"
proof -
  from assms(1,2) obtain u h v k where
    "head 3 (length u) = Inr h" "a = h @ u" "head 3 (length v) = Inr k" "b = k @ v"
    by auto
  moreover have "length u = length v \<Longrightarrow> h = k" using calculation by simp
  ultimately show ?thesis
    using assms(3) head_less(1) [of 3 "length u" h "length v" k u v]
      head_less(2) [of 3 "length v" k "length u" h]
    by (cases "length u" "length v" rule: linorder_cases) (auto simp: less_append_same_length)
qed

lemma label_key_less:
  assumes "is_label i" "is_label j" "encode i = Inr a" "encode j = Inr b" "(length a, a) < (length b, b)"
  shows "a < b"
proof -
  obtain x y where ij: "i = PInt x" "j = PInt y" using assms(1,2) by (cases i; cases j) auto
  with assms have "head 0 (nat x) = Inr a" "head 0 (nat y) = Inr b"
    by (auto simp: encode_int_def)
  then show ?thesis
    using assms(5) head_less(1) [of 0 "nat x" a "nat y" b "[]" "[]"]
      head_less(1) [of 0 "nat y" b "nat x" a "[]" "[]"] head_less(2) [of 0 "nat y" b "nat x" a]
    by (cases "nat x" "nat y" rule: linorder_cases) auto
qed

lemma uniform_key_less:
  assumes "uniform_keys ks" "i \<in> set ks" "j \<in> set ks" "encode i = Inr a" "encode j = Inr b"
    "(length a, a) < (length b, b)"
  shows "a < b"
  using assms(1)
proof (unfold uniform_keys_def, elim disjE)
  assume "list_all is_text ks"
  with assms(2,3) have "is_text i" "is_text j" by (auto simp: list_all_iff)
  then obtain s t where "i = PStr s" "j = PStr t" by (cases i; cases j) auto
  with assms text_key_less show ?thesis by metis
next
  assume "list_all is_label ks"
  with assms(2,3) have "is_label i" "is_label j" by (auto simp: list_all_iff)
  then show ?thesis using label_key_less assms(4-6) by blast
qed

lemma uniform_key_hashable: "uniform_keys ks \<Longrightarrow> k \<in> set ks \<Longrightarrow> hashable k"
  by (cases k) (auto simp: uniform_keys_def list_all_iff)

lemma uniform_key_eq:
  "uniform_keys ks \<Longrightarrow> i \<in> set ks \<Longrightarrow> j \<in> set ks \<Longrightarrow> py_eq i j \<longleftrightarrow> i = j"
  by (cases i; cases j) (auto simp: uniform_keys_def list_all_iff)

lemma dict_set_new: "\<forall>(k', v') \<in> set d. \<not> py_eq k' k \<Longrightarrow> dict_set k v d = d @ [(k, v)]"
  by (induction k v d rule: dict_set.induct) auto

text \<open>
  The decoder's loop over the encodings of entries whose keys increase: every entry is
  \<open>(kb, vb, k, v)\<close>, the bytes and the decoded values.
\<close>

definition entry_bytes :: "bytes \<times> bytes \<times> pyval \<times> pyval \<Rightarrow> bytes" where
  "entry_bytes e = (case e of (kb, vb, _, _) \<Rightarrow> kb @ vb)"

lemma decode_entries_ok:
  assumes dec: "\<forall>(kb, vb, k, v) \<in> set es. (\<forall>r. f (kb @ r) = Inr (k, r)) \<and>
      (\<forall>r. f (vb @ r) = Inr (v, r)) \<and> hashable k"
    and sorted: "sorted_wrt (<) (map fst es)" "\<forall>p. prev = Some p \<longrightarrow> (\<forall>kb \<in> fst ` set es. p < kb)"
    and new: "sorted_wrt (\<lambda>i j. \<not> py_eq i j) (map fst acc @ map (fst \<circ> snd \<circ> snd) es)"
  shows "decode_entries f (length es) prev acc (concat (map entry_bytes es) @ r) =
    Inr (PDict (acc @ map (snd \<circ> snd) es), r)"
  using assms
proof (induction es arbitrary: prev acc)
  case (Cons e es)
  obtain kb vb k v where e: "e = (kb, vb, k, v)" by (cases e)
  have fk: "f (kb @ q) = Inr (k, q)" and fv: "f (vb @ q) = Inr (v, q)" and hk: "hashable k" for q
    using Cons.prems(1) by (auto simp: e)
  have prev: "\<not> (case prev of None \<Rightarrow> False | Some p \<Rightarrow> kb \<le> p)"
    using Cons.prems(3) by (auto simp: e split: option.splits)
  have set: "dict_set k v acc = acc @ [(k, v)]"
    using Cons.prems(4) by (intro dict_set_new) (auto simp: e sorted_wrt_append)
  have "decode_entries f (length es) (Some kb) (acc @ [(k, v)]) (concat (map entry_bytes es) @ r) =
      Inr (PDict ((acc @ [(k, v)]) @ map (snd \<circ> snd) es), r)"
    using Cons.prems by (intro Cons.IH) (auto simp: e)
  with prev show ?case
    by (simp add: e entry_bytes_def [of "(kb, vb, k, v)"] fk fv hk set)
qed simp

section \<open>Round trip\<close>

text \<open>
  \<open>nf\<close> is the value as it comes back: the entries of every map in the order of their
  encoded keys. \<open>plain d v\<close> holds where \<open>v\<close> nests at most \<open>d\<close> levels (an
  integer beyond 64 bits takes two), its maps have uniform and distinct keys, its NaNs are
  the canonical one, and no bignum tag wraps a byte string (that would be read as an integer).
\<close>

function nf :: "pyval \<Rightarrow> pyval"
  and nf_items :: "pyval list \<Rightarrow> pyval list"
  and nf_pairs :: "(pyval \<times> pyval) list \<Rightarrow> (pyval \<times> pyval) list" where
  "nf (PList vs) = PList (nf_items vs)"
| "nf (PDict kvs) = PDict (sort_key entry_order (nf_pairs kvs))"
| "nf (PTag n v) = PTag n (nf v)"
| "nf PNone = PNone"
| "nf (PBool b) = PBool b"
| "nf (PInt i) = PInt i"
| "nf (PFloat x) = PFloat x"
| "nf (PBytes b) = PBytes b"
| "nf (PStr s) = PStr s"
| "nf (PSimple n) = PSimple n"
| "nf PUndefined = PUndefined"
| "nf_items [] = []"
| "nf_items (v # vs) = nf v # nf_items vs"
| "nf_pairs [] = []"
| "nf_pairs ((k, v) # kvs) = (k, nf v) # nf_pairs kvs"
  by pat_completeness auto
termination
  by (relation "measure (case_sum size (case_sum (size_list size)
        (size_list (size_prod size size))))") auto

lemma nf_items_map: "nf_items vs = map nf vs"
  by (induction vs) auto

lemma nf_pairs_map: "nf_pairs kvs = map (\<lambda>(k, v). (k, nf v)) kvs"
  by (induction kvs) auto

fun is_bytes :: "pyval \<Rightarrow> bool" where
  "is_bytes (PBytes b) = True" | "is_bytes _ = False"

fun plain :: "nat \<Rightarrow> pyval \<Rightarrow> bool" where
  "plain 0 v = False"
| "plain (Suc d) (PInt i) = (- 0x10000000000000000 \<le> i \<and> i < 0x10000000000000000 \<or> d \<noteq> 0)"
| "plain (Suc d) (PFloat x) = (is_nan x \<longrightarrow> x = nan_f64)"
| "plain (Suc d) (PList vs) = list_all (plain d) vs"
| "plain (Suc d) (PDict kvs) = (uniform_keys (map fst kvs) \<and> distinct (map fst kvs) \<and>
     list_all (\<lambda>(k, v). plain d k \<and> plain d v) kvs)"
| "plain (Suc d) (PTag n v) = (plain d v \<and> \<not> (n \<in> {2, 3} \<and> is_bytes v))"
| "plain (Suc d) (PSimple n) = False"
| "plain (Suc d) PUndefined = False"
| "plain (Suc d) _ = True"

lemma encode_items_eq: "encode_items vs = Inr bs \<longleftrightarrow>
    (\<exists>bss. list_all2 (\<lambda>v b. encode v = Inr b) vs bss \<and> bs = concat bss)"
  by (induction vs arbitrary: bs) (fastforce simp: list_all2_Cons1)+

lemma encode_pairs_eq: "encode_pairs kvs = Inr ps \<longleftrightarrow>
    (\<forall>(k, v) \<in> set kvs. \<exists>kb. encode k = Inr kb) \<and>
    ps = map (\<lambda>(k, v). (key_bytes k, encode v)) kvs"
  by (induction kvs arbitrary: ps) (auto simp: key_bytes_def)

lemma nf_tag_bytes: "decode_tag n (nf v) = Inr (PTag n (nf v))" if "\<not> (n \<in> {2, 3} \<and> is_bytes v)"
  using that by (cases v) (auto simp: decode_tag_def)

lemma list_all2_graph:
  "list_all2 (\<lambda>x y. Q x \<and> y = g x) xs ys \<longleftrightarrow> list_all Q xs \<and> ys = map g xs"
  by (induction xs arbitrary: ys) (auto simp: list_all2_Cons1)

text \<open>The bytes of a map, and the entries in the order in which they are written.\<close>

lemma encode_dict:
  assumes "encode (PDict kvs) = Inr bs"
  obtains h vbs where "head 5 (length kvs) = Inr h"
    "\<forall>(k, v) \<in> set kvs. encode k = Inr (key_bytes k) \<and> encode v = Inr (vbs v)"
    "bs = h @ concat (map (\<lambda>(k, v). key_bytes k @ vbs v) (sort_key entry_order kvs))"
proof -
  define vbs where "vbs v = (case encode v of Inr b \<Rightarrow> b | Inl _ \<Rightarrow> [])" for v
  let ?g = "\<lambda>(k, v). (key_bytes k, encode v)"
  have comp: "key_order \<circ> ?g = entry_order"
    by (auto simp: key_order_def entry_order_def)
  from assms obtain h es where h: "head 5 (length kvs) = Inr h"
    and keys: "\<forall>(k, v) \<in> set kvs. \<exists>kb. encode k = Inr kb"
    and es: "list_all2 (\<lambda>e b. put_entry e = Inr b) (map ?g (sort_key entry_order kvs)) es"
    and bs: "bs = h @ concat es"
    by (auto simp: encode_pairs_eq rmap_eq_Inr sort_key_map comp)
  have put: "put_entry (?g e) = Inr b \<longleftrightarrow>
      (case e of (k, v) \<Rightarrow> encode v = Inr (vbs v)) \<and> b = (case e of (k, v) \<Rightarrow> key_bytes k @ vbs v)"
    for e b
    by (auto simp: put_entry_def vbs_def split: prod.splits sum.splits)
  have "es = map (\<lambda>(k, v). key_bytes k @ vbs v) (sort_key entry_order kvs)"
    and "list_all (\<lambda>(k, v). encode v = Inr (vbs v)) (sort_key entry_order kvs)"
    using es by (simp_all add: list_all2_map1 put list_all2_graph)
  then show thesis
    using that [of h vbs] h keys bs by (fastforce simp: key_bytes_def list_all_iff)
qed

lemma nf_key: "uniform_keys ks \<Longrightarrow> k \<in> set ks \<Longrightarrow> nf k = k"
  by (cases k) (auto simp: uniform_keys_def list_all_iff)

lemma sorted_entries:
  assumes "uniform_keys (map fst kvs)" "distinct (map fst kvs)"
    and enc: "\<forall>k \<in> fst ` set kvs. encode k = Inr (key_bytes k)"
    and inj: "\<forall>i \<in> fst ` set kvs. \<forall>j \<in> fst ` set kvs. key_bytes i = key_bytes j \<longrightarrow> i = j"
  shows "sorted_wrt (\<lambda>e e'. key_bytes (fst e) < key_bytes (fst e')) (sort_key entry_order kvs)"
proof -
  let ?s = "sort_key entry_order kvs"
  have "inj_on entry_order (set kvs)"
  proof (rule inj_onI)
    fix e e' assume in_set: "e \<in> set kvs" "e' \<in> set kvs" and eq: "entry_order e = entry_order e'"
    have "fst e = fst e'" using inj in_set eq unfolding entry_order_def by blast
    moreover have "inj_on fst (set kvs)" using assms(2) by (simp add: distinct_map)
    ultimately show "e = e'" using in_set by (meson inj_onD)
  qed
  moreover have "distinct ?s" using assms(2) by (simp add: distinct_map)
  ultimately have "distinct (map entry_order ?s)" by (simp add: distinct_map)
  then have "sorted_wrt (<) (map entry_order ?s)"
    by (simp add: strict_sorted_iff)
  then have "sorted_wrt (\<lambda>e e'. entry_order e < entry_order e') ?s" by (simp add: sorted_wrt_map)
  then show ?thesis
  proof (rule sorted_wrt_mono_rel [rotated])
    fix e e' assume in_set: "e \<in> set ?s" "e' \<in> set ?s" and less: "entry_order e < entry_order e'"
    show "key_bytes (fst e) < key_bytes (fst e')"
      using assms(1) by (rule uniform_key_less [where i = "fst e" and j = "fst e'"]) (use in_set less enc in \<open>auto simp: entry_order_def\<close>)
  qed
qed

lemma distinct_sorted_wrt: "distinct xs \<Longrightarrow> sorted_wrt (\<noteq>) xs"
  by (induction xs) auto

lemma decode_encode_dict:
  assumes codec: "item_codec encode (decode d) nf (plain d)"
    and uni: "uniform_keys (map fst kvs)" and dist: "distinct (map fst kvs)"
    and pl: "\<forall>(k, v) \<in> set kvs. plain d k \<and> plain d v"
    and enc_d: "encode (PDict kvs) = Inr b"
  shows "decode (Suc d) (b @ r) = Inr (nf (PDict kvs), r)"
proof -
  from enc_d obtain h vbs where h: "head 5 (length kvs) = Inr h"
    and enc: "\<forall>(k, v) \<in> set kvs. encode k = Inr (key_bytes k) \<and> encode v = Inr (vbs v)"
    and b: "b = h @ concat (map (\<lambda>(k, v). key_bytes k @ vbs v) (sort_key entry_order kvs))"
    by (rule encode_dict)
  have key: "nf k = k" "hashable k" if "(k, v) \<in> set kvs" for k v
    using that nf_key [OF uni, of k] uniform_key_hashable [OF uni, of k] by force+
  have dec: "decode d (key_bytes k @ q) = Inr (k, q)" "decode d (vbs v @ q) = Inr (nf v, q)"
    if "(k, v) \<in> set kvs" for k v q
    using that enc pl key [OF that] item_codec.dec_enc [OF codec, of k "key_bytes k" q]
      item_codec.dec_enc [OF codec, of v "vbs v" q] by auto
  have inj: "\<forall>i \<in> fst ` set kvs. \<forall>j \<in> fst ` set kvs. key_bytes i = key_bytes j \<longrightarrow> i = j"
  proof (intro ballI impI)
    fix i j assume "i \<in> fst ` set kvs" "j \<in> fst ` set kvs" and eq: "key_bytes i = key_bytes j"
    then obtain v w where "(i, v) \<in> set kvs" "(j, w) \<in> set kvs" by auto
    from dec(1) [OF this(1), of "[]"] dec(1) [OF this(2), of "[]"] eq show "i = j" by simp
  qed
  let ?s = "sort_key entry_order kvs"
  define es where "es = map (\<lambda>(k, v). (key_bytes k, vbs v, k, nf v)) ?s"
  have "decode_entries (decode d) (length es) None [] (concat (map entry_bytes es) @ r) =
      Inr (PDict ([] @ map (snd \<circ> snd) es), r)"
  proof (rule decode_entries_ok)
    have "sorted_wrt (\<lambda>e e'. key_bytes (fst e) < key_bytes (fst e')) ?s"
      using uni dist _ inj by (rule sorted_entries) (use enc in auto)
    then show "sorted_wrt (<) (map fst es)"
      by (simp add: es_def sorted_wrt_map case_prod_unfold)
    have "sorted_wrt (\<noteq>) (map fst ?s)"
      using dist by (intro distinct_sorted_wrt) (simp add: distinct_map)
    then have "sorted_wrt (\<lambda>i j. \<not> py_eq i j) (map fst ?s)"
      by (rule sorted_wrt_mono_rel [rotated]) (use uniform_key_eq [OF uni] in auto)
    then show "sorted_wrt (\<lambda>i j. \<not> py_eq i j) (map fst [] @ map (fst \<circ> snd \<circ> snd) es)"
      by (simp add: es_def comp_def case_prod_unfold)
  qed (auto simp: es_def dec key)
  moreover have "concat (map entry_bytes es) = concat (map (\<lambda>(k, v). key_bytes k @ vbs v) ?s)"
    by (simp add: es_def comp_def entry_bytes_def case_prod_unfold)
  moreover have "map (snd \<circ> snd) es = sort_key entry_order (nf_pairs kvs)"
  proof -
    have "entry_order \<circ> (\<lambda>(k, v). (k, nf v)) = entry_order" by (auto simp: entry_order_def)
    then show ?thesis by (simp add: es_def nf_pairs_map sort_key_map case_prod_unfold)
  qed
  ultimately show ?thesis
    using h by (simp add: b decode_map es_def)
qed

lemma decode_encode:
  "plain d v \<Longrightarrow> encode v = Inr b \<Longrightarrow> decode d (b @ r) = Inr (nf v, r)"
proof (induction d arbitrary: v b r)
  case (Suc d)
  have codec: "item_codec encode (decode d) nf (plain d)"
    by unfold_locales (rule Suc.IH)
  show ?case
  proof (cases v)
    case (PList vs)
    with Suc.prems obtain h bss where "head 4 (length vs) = Inr h" "b = h @ concat bss"
      and "list_all2 (\<lambda>v b. encode v = Inr b) vs bss"
      by (auto simp: encode_items_eq)
    then show ?thesis
      using Suc.prems item_codec.decode_items_enc [OF codec, of vs bss r] PList
      by (auto simp: nf_items_map intro!: decode_array)
  next
    case (PTag n u)
    with Suc.prems obtain h c where "head 6 n = Inr h" "encode u = Inr c" "b = h @ c" by auto
    then show ?thesis
      using Suc.prems PTag Suc.IH [of u c r] by (auto intro!: decode_tagged nf_tag_bytes)
  next
    case (PDict kvs)
    then show ?thesis
      using Suc.prems decode_encode_dict [OF codec, of kvs b r] by (auto simp: list_all_iff)
  next
    case (PInt i)
    then show ?thesis using Suc.prems decode_int [of i b d r] by simp
  next
    case (PFloat x)
    then show ?thesis using Suc.prems decode_float [of x b d r] by simp
  next
    case (PBytes c)
    then show ?thesis using Suc.prems by (auto simp: decode_bytes)
  next
    case (PStr s)
    then show ?thesis using Suc.prems by (auto simp: decode_text)
  next
    case (PBool c)
    then show ?thesis using Suc.prems by (cases c) (auto simp: decode_simple_def)
  qed (use Suc.prems in \<open>auto simp: decode_simple_def\<close>)
qed simp

interpretation reader: item_codec encode "decode d" nf "plain d" for d
  by unfold_locales (rule decode_encode)

section \<open>Whole messages\<close>

abbreviation cbor_plain :: "pyval \<Rightarrow> bool" where
  "cbor_plain v \<equiv> plain (Suc max_recursion_depth) v"

lemma cbor_loads_dumps:
  assumes "cbor_plain v" "cbor_dumps v = Inr b"
  shows "cbor_loads b = Inr (nf v)"
  using reader.dec_enc [of "Suc max_recursion_depth" v b "[]"] assms
  by (simp add: cbor_loads_def cbor_dumps_def)

lemma cbor_dumps_inject:
  assumes "cbor_plain v" "cbor_plain w" "cbor_dumps v = Inr b" "cbor_dumps w = Inr b"
  shows "nf v = nf w"
  using reader.enc_inject [of "Suc max_recursion_depth" v w b] assms by (simp add: cbor_dumps_def)

text \<open>Insertion order does not reach the bytes: the entries are sorted by their encoded keys.\<close>

lemma encode_pairs_mset:
  assumes "mset kvs = mset kvs'" "encode_pairs kvs = Inr ps"
  shows "\<exists>ps'. encode_pairs kvs' = Inr ps' \<and> mset ps' = mset ps"
proof -
  have "set kvs = set kvs'" using assms(1) by (rule mset_eq_setD)
  with assms show ?thesis by (auto simp: encode_pairs_eq)
qed

lemma encode_permuted:
  assumes "mset kvs = mset kvs'" "encode (PDict kvs) = Inr b"
    and "distinct (map (key_bytes \<circ> fst) kvs)"
  shows "encode (PDict kvs') = Inr b"
proof -
  from assms(2) obtain ps where ps: "encode_pairs kvs = Inr ps" by auto
  with assms(1) obtain ps' where ps': "encode_pairs kvs' = Inr ps'" and m: "mset ps' = mset ps"
    using encode_pairs_mset by blast
  have "distinct (map fst ps)"
    using ps assms(3) by (auto simp: encode_pairs_eq comp_def case_prod_unfold)
  then have "distinct (map key_order ps)"
    by (auto simp: distinct_map key_order_def inj_on_def)
  with m have "sort_key key_order ps' = sort_key key_order ps"
    by (metis sort_key_permuted)
  moreover have "length ps' = length ps" using m by (metis size_mset)
  ultimately show ?thesis using assms(2) ps ps' by simp
qed

end
