(* ===== verification/Cbor_Size.thy ===== *)
theory Cbor_Size
  imports Cbor_Roundtrip
begin

text \<open>
  Encoding succeeds: a bound on the length of what \<open>encode\<close> writes, computed from the
  value, and the lemma that a value of representable numbers and text whose bound is below
  \<open>2 ^ 64\<close> is encoded, within that bound.
\<close>

definition text_ok :: "pystr \<Rightarrow> bool" where
  "text_ok s \<longleftrightarrow> (\<forall>c \<in> set s. c < 0xD800 \<or> 0xE000 \<le> c \<and> c < 0x110000)"

lemma utf8_encode_total: "text_ok s \<Longrightarrow> \<exists>raw. utf8_encode s = Inr raw \<and> length raw \<le> 4 * length s"
proof (induction s)
  case (Cons c cs)
  then obtain raw where raw: "utf8_encode cs = Inr raw" "length raw \<le> 4 * length cs"
    by (auto simp: text_ok_def)
  from Cons.prems have "\<exists>b. utf8_char c = Some b \<and> length b \<le> 4"
    by (auto simp: text_ok_def utf8_char_def)
  with raw show ?case by auto
qed simp

lemma text_ok_simps [simp]:
  "text_ok []"
  "text_ok (c # s) \<longleftrightarrow> (c < 0xD800 \<or> 0xE000 \<le> c \<and> c < 0x110000) \<and> text_ok s"
  "text_ok (s @ t) \<longleftrightarrow> text_ok s \<and> text_ok t"
  by (auto simp: text_ok_def)

lemma text_ok_py [simp]: "text_ok (py s)"
proof (induction s)
  case (Cons c s)
  have "of_char c < (0xD800 :: nat)" using nat_of_char_less_256 [of c] by linarith
  then show ?case using Cons by (auto simp: py_def)
qed (simp add: py_def)

lemma text_ok_to_hex [simp]: "text_ok (to_hex b)"
proof (induction b)
  case (Cons b bs)
  have "unat b div 16 < 16" using unat_byte_lt [of b] by linarith
  then show ?case using Cons by (auto simp: hex_digit_def)
qed simp

function encodable :: "pyval \<Rightarrow> bool"
  and encodable_items :: "pyval list \<Rightarrow> bool"
  and encodable_pairs :: "(pyval \<times> pyval) list \<Rightarrow> bool" where
  "encodable (PInt i) \<longleftrightarrow> - 0x10000000000000000 \<le> i \<and> i < 0x10000000000000000"
| "encodable (PFloat x) \<longleftrightarrow> is_nan x \<or> \<not> f32_overflows x"
| "encodable (PStr s) \<longleftrightarrow> text_ok s"
| "encodable (PList vs) \<longleftrightarrow> encodable_items vs"
| "encodable (PDict kvs) \<longleftrightarrow> encodable_pairs kvs"
| "encodable (PTag n v) \<longleftrightarrow> n < 0x10000000000000000 \<and> encodable v"
| "encodable (PSimple n) \<longleftrightarrow> False"
| "encodable PUndefined \<longleftrightarrow> False"
| "encodable PNone \<longleftrightarrow> True"
| "encodable (PBool b) \<longleftrightarrow> True"
| "encodable (PBytes bs) \<longleftrightarrow> True"
| "encodable_items [] \<longleftrightarrow> True"
| "encodable_items (v # vs) \<longleftrightarrow> encodable v \<and> encodable_items vs"
| "encodable_pairs [] \<longleftrightarrow> True"
| "encodable_pairs ((k, v) # kvs) \<longleftrightarrow> encodable k \<and> encodable v \<and> encodable_pairs kvs"
  by pat_completeness auto
termination
  by (relation "measure (case_sum size (case_sum (size_list size)
        (size_list (size_prod size size))))") auto

function enc_size :: "pyval \<Rightarrow> nat"
  and enc_size_items :: "pyval list \<Rightarrow> nat"
  and enc_size_pairs :: "(pyval \<times> pyval) list \<Rightarrow> nat" where
  "enc_size (PInt i) = 9"
| "enc_size (PFloat x) = 9"
| "enc_size (PStr s) = 9 + 4 * length s"
| "enc_size (PList vs) = 9 + enc_size_items vs"
| "enc_size (PDict kvs) = 9 + enc_size_pairs kvs"
| "enc_size (PTag n v) = 9 + enc_size v"
| "enc_size (PBytes bs) = 9 + length bs"
| "enc_size PNone = 9"
| "enc_size (PBool b) = 9"
| "enc_size (PSimple n) = 9"
| "enc_size PUndefined = 9"
| "enc_size_items [] = 0"
| "enc_size_items (v # vs) = enc_size v + enc_size_items vs"
| "enc_size_pairs [] = 0"
| "enc_size_pairs ((k, v) # kvs) = enc_size k + enc_size v + enc_size_pairs kvs"
  by pat_completeness auto
termination
  by (relation "measure (case_sum size (case_sum (size_list size)
        (size_list (size_prod size size))))") auto

abbreviation fits_in :: "nat \<Rightarrow> bytes res \<Rightarrow> bool" where
  "fits_in n r \<equiv> \<exists>b. r = Inr b \<and> length b \<le> n"

lemma head_fits: "n < 0x10000000000000000 \<Longrightarrow> \<exists>h. head m n = Inr h \<and> length h \<le> 9"
  by (auto simp: head_eq head_arg_def)

lemma encode_float_fits: "is_nan x \<or> \<not> f32_overflows x \<Longrightarrow> fits_in 9 (encode_float x)"
  by (auto simp: encode_float_def split: option.splits)

lemma encode_int_fits:
  assumes "- 0x10000000000000000 \<le> i \<and> i < 0x10000000000000000"
  shows "fits_in 9 (encode_int i)"
proof (cases "0 \<le> i")
  case True
  then show ?thesis using assms head_fits [of "nat i" 0] by (simp add: encode_int_def)
next
  case False
  then show ?thesis using assms head_fits [of "nat (- 1 - i)" 1] by (simp add: encode_int_def)
qed

lemma sum_list_sort_key [simp]: "sum_list (map g (sort_key f xs)) = (sum_list (map g xs) :: nat)"
  by (metis mset_map mset_sort sum_mset_sum_list)

lemma put_entries_fit:
  assumes "\<forall>(kb, r) \<in> set ps. \<exists>vb. r = Inr vb"
  shows "\<exists>es. rmap put_entry (sort_key f ps) = Inr es \<and> length (concat es) =
    (\<Sum>(kb, r) \<leftarrow> ps. length kb + length (projr r))"
proof -
  let ?g = "\<lambda>(kb, r). kb @ projr r"
  have "rmap put_entry qs = Inr (map ?g qs)" if "\<forall>(kb, r) \<in> set qs. \<exists>vb. r = Inr vb"
    for qs :: "(bytes \<times> bytes res) list"
    using that by (induction qs) (auto simp: put_entry_def)
  then have "rmap put_entry (sort_key f ps) = Inr (map ?g (sort_key f ps))"
    using assms by simp
  moreover have "length (concat (map ?g qs)) = (\<Sum>(kb, r) \<leftarrow> qs. length kb + length (projr r))"
    for qs :: "(bytes \<times> bytes res) list"
    by (induction qs) auto
  ultimately show ?thesis by simp
qed

lemma length_le_items: "length vs \<le> enc_size_items vs"
proof (induction vs)
  case (Cons v vs)
  have "1 \<le> enc_size v" by (cases v) auto
  with Cons show ?case by simp
qed simp

lemma length_le_pairs: "length kvs \<le> enc_size_pairs kvs"
proof (induction kvs)
  case (Cons e kvs)
  obtain k v where e: "e = (k, v)" by (cases e)
  have "1 \<le> enc_size v" by (cases v) auto
  with Cons show ?case by (simp add: e)
qed simp

lemma encode_fits:
  "encodable v \<Longrightarrow> enc_size v < 0x10000000000000000 \<Longrightarrow> fits_in (enc_size v) (encode v)"
  "encodable_items vs \<Longrightarrow> enc_size_items vs < 0x10000000000000000 \<Longrightarrow>
     fits_in (enc_size_items vs) (encode_items vs)"
  "encodable_pairs kvs \<Longrightarrow> enc_size_pairs kvs < 0x10000000000000000 \<Longrightarrow>
     \<exists>ps. encode_pairs kvs = Inr ps \<and> (\<forall>(kb, r) \<in> set ps. \<exists>vb. r = Inr vb) \<and>
       (\<Sum>(kb, r) \<leftarrow> ps. length kb + length (projr r)) \<le> enc_size_pairs kvs \<and> length ps = length kvs"
proof (induction v and vs and kvs rule: encodable_encodable_items_encodable_pairs.induct)
  case (3 s)
  then obtain raw where "utf8_encode s = Inr raw" "length raw \<le> 4 * length s"
    using utf8_encode_total by auto
  moreover from this 3 have "length raw < 0x10000000000000000" by simp
  then obtain h where "head 3 (length raw) = Inr h" "length h \<le> 9" using head_fits by blast
  ultimately show ?case by simp
next
  case (4 vs)
  then obtain bs where "encode_items vs = Inr bs" "length bs \<le> enc_size_items vs" by auto
  moreover have "length vs < 0x10000000000000000" using 4 length_le_items [of vs] by simp
  then obtain h where "head 4 (length vs) = Inr h" "length h \<le> 9" using head_fits by blast
  ultimately show ?case by simp
next
  case (5 kvs)
  then obtain ps where ps: "encode_pairs kvs = Inr ps" "\<forall>(kb, r) \<in> set ps. \<exists>vb. r = Inr vb"
    "(\<Sum>(kb, r) \<leftarrow> ps. length kb + length (projr r)) \<le> enc_size_pairs kvs" "length ps = length kvs"
    by auto
  have "length ps < 0x10000000000000000" using 5 ps(4) length_le_pairs [of kvs] by simp
  then obtain h where "head 5 (length ps) = Inr h" "length h \<le> 9" using head_fits by blast
  moreover obtain es where "rmap put_entry (sort_key key_order ps) = Inr es"
    "length (concat es) \<le> enc_size_pairs kvs"
    using put_entries_fit [OF ps(2), of key_order] ps(3) by auto
  ultimately show ?case using ps(1) by simp
next
  case (6 n v)
  then obtain b h where "encode v = Inr b" "length b \<le> enc_size v" "head 6 n = Inr h" "length h \<le> 9"
    using head_fits [of n 6] by auto
  then show ?case by simp
next
  case (11 bs)
  then obtain h where "head 2 (length bs) = Inr h" "length h \<le> 9"
    using head_fits [of "length bs" 2] by auto
  then show ?case by simp
next
  case (13 v vs)
  then obtain b bs where "encode v = Inr b" "length b \<le> enc_size v" "encode_items vs = Inr bs"
    "length bs \<le> enc_size_items vs" by auto
  then show ?case by simp
next
  case (15 k v kvs)
  then obtain kb vb ps where "encode k = Inr kb" "length kb \<le> enc_size k"
    "encode v = Inr vb" "length vb \<le> enc_size v" "encode_pairs kvs = Inr ps"
    "\<forall>(kb, r) \<in> set ps. \<exists>vb. r = Inr vb"
    "(\<Sum>(kb, r) \<leftarrow> ps. length kb + length (projr r)) \<le> enc_size_pairs kvs" "length ps = length kvs"
    by auto
  then show ?case by simp
qed (use encode_int_fits encode_float_fits in auto)

lemma cbor_dumps_total:
  "encodable v \<Longrightarrow> enc_size v < 0x10000000000000000 \<Longrightarrow>
   \<exists>b. cbor_dumps v = Inr b \<and> length b \<le> enc_size v"
  unfolding cbor_dumps_def by (rule encode_fits(1))

end
