(* ===== verification/Cose.thy ===== *)
theory Cose
  imports Cbor_Size
begin

text \<open>
  \<^verbatim>\<open>cose.py\<close>: COSE_Sign1 over Ed25519. A trust set maps key ids to raw public
  keys. Arguments whose type the code checks at run time are Python values.
\<close>

section \<open>Access to decoded values\<close>

definition get_bytes :: "exn_class \<Rightarrow> string \<Rightarrow> pyval \<Rightarrow> bytes res" where
  "get_bytes c msg v = (case v of PBytes b \<Rightarrow> Inr b | _ \<Rightarrow> raise c msg)"

definition get_dict :: "exn_class \<Rightarrow> string \<Rightarrow> pyval \<Rightarrow> (pyval \<times> pyval) list res" where
  "get_dict c msg v = (case v of PDict d \<Rightarrow> Inr d | _ \<Rightarrow> raise c msg)"

definition get_four :: "exn_class \<Rightarrow> string \<Rightarrow> pyval \<Rightarrow> (pyval \<times> pyval \<times> pyval \<times> pyval) res" where
  "get_four c msg v = (case v of PList [x, y, z, w] \<Rightarrow> Inr (x, y, z, w) | _ \<Rightarrow> raise c msg)"

lemma get_bytes_simps [simp]: "get_bytes c msg (PBytes b) = Inr b"
  by (simp add: get_bytes_def)

lemma get_dict_simps [simp]: "get_dict c msg (PDict d) = Inr d"
  by (simp add: get_dict_def)

lemma get_four_simps [simp]: "get_four c msg (PList [x, y, z, w]) = Inr (x, y, z, w)"
  by (simp add: get_four_def)

lemma get_four_eq_Inr [simp, ok_elims]: "get_four c msg v = Inr q \<longleftrightarrow>
    v = PList [fst q, fst (snd q), fst (snd (snd q)), snd (snd (snd q))]"
  by (cases q) (auto simp: get_four_def split: pyval.splits list.splits)

lemma get_bytes_eq_Inr [simp, ok_elims]: "get_bytes c msg v = Inr b \<longleftrightarrow> v = PBytes b"
  by (cases v) (auto simp: get_bytes_def)

lemma get_dict_eq_Inr [simp, ok_elims]: "get_dict c msg v = Inr d \<longleftrightarrow> v = PDict d"
  by (cases v) (auto simp: get_dict_def)

text \<open>\<^verbatim>\<open>set(d.keys()) == {ks}\<close>, with the equality of Python's numbers.\<close>

definition keys_are :: "(pyval \<times> 'a) list \<Rightarrow> pyval list \<Rightarrow> bool" where
  "keys_are d ks \<longleftrightarrow> list_all (\<lambda>(k, _). list_ex (py_eq k) ks) d \<and>
     list_all (\<lambda>k. list_ex (\<lambda>(k', _). py_eq k' k) d) ks"

section \<open>Signing\<close>

definition alg_eddsa :: int where "alg_eddsa = -8"
definition label_alg :: pyval where "label_alg = PInt 1"
definition label_kid :: pyval where "label_kid = PInt 4"

type_synonym trust = "bytes \<rightharpoonup> bytes"

definition protected_header :: "bytes \<Rightarrow> bytes res" where
  "protected_header kid = cbor_dumps (PDict [(label_alg, PInt alg_eddsa), (label_kid, PBytes kid)])"

definition sig_structure :: "bytes \<Rightarrow> bytes \<Rightarrow> bytes \<Rightarrow> bytes res" where
  "sig_structure body aad pl =
     cbor_dumps (PList [PStr (py ''Signature1''), PBytes body, PBytes aad, PBytes pl])"

definition cose_sign_bytes :: "bytes \<Rightarrow> (bytes \<Rightarrow> bytes) \<Rightarrow> bytes \<Rightarrow> bytes \<Rightarrow> bytes res" where
  "cose_sign_bytes pl sign_fn kid aad =
     rbind (protected_header kid) (\<lambda>body.
     rbind (sig_structure body aad pl) (\<lambda>ss.
     let sig = sign_fn ss in
     require (length sig = 64) COSEError ''sign_fn must return a 64-byte Ed25519 signature''
       (cbor_dumps (PList [PBytes body, PDict [], PBytes pl, PBytes sig]))))"

definition cose_sign :: "pyval \<Rightarrow> (bytes \<Rightarrow> bytes) \<Rightarrow> pyval \<Rightarrow> pyval \<Rightarrow> bytes res" where
  "cose_sign pl sign_fn kid aad =
     rbind (get_bytes COSEError ''payload must be bytes'' pl) (\<lambda>p.
     rbind (get_bytes COSEError ''kid must be a non-empty byte string'' kid) (\<lambda>k.
     require (k \<noteq> []) COSEError ''kid must be a non-empty byte string''
     (rbind (get_bytes COSEError ''external_aad must be bytes'' aad) (\<lambda>a.
      rbind (protected_header k) (\<lambda>body.
      rbind (sig_structure body a p) (\<lambda>ss.
      cbor_dumps (PList [PBytes body, PDict [], PBytes p, PBytes (sign_fn ss)])))))))"

section \<open>Verification\<close>

definition validate_cose_headers :: "pyval \<Rightarrow> pyval \<Rightarrow> (pyval \<times> bytes) res" where
  "validate_cose_headers protected unprotected =
     rbind (get_dict COSEError ''unprotected header must be a map'' unprotected) (\<lambda>u.
     require (u = []) COSEError ''unprotected header must be empty''
     (rbind (get_dict COSEError ''protected header must be a map'' protected) (\<lambda>p.
      require (keys_are p [label_alg, label_kid]) COSEError
        ''protected header must contain exactly alg and kid''
      (rbind (of_option KeyError ''alg'' (dict_get label_alg p)) (\<lambda>alg.
       require (py_eq alg (PInt alg_eddsa)) COSEError ''algorithm not allowed''
       (rbind (of_option KeyError ''kid'' (dict_get label_kid p)) (\<lambda>kid.
        rbind (get_bytes COSEError ''kid must be a byte string'' kid) (\<lambda>k. Inr (alg, k)))))))))"

definition cose_verify :: "prims \<Rightarrow> pyval \<Rightarrow> trust \<Rightarrow> bytes \<Rightarrow> (bytes \<times> bytes) res" where
  "cose_verify P message trusted_keys aad =
     rbind (get_bytes COSEError ''COSE message must be bytes'' message) (\<lambda>m.
     rbind (except CBORError COSEError ''malformed COSE_Sign1'' (cbor_loads m)) (\<lambda>outer.
     rbind (get_four COSEError ''COSE_Sign1 must be an array of 4 elements'' outer)
       (\<lambda>(body_v, unprotected, payload_v, signature_v).
         rbind (get_bytes COSEError ''body_protected must be a byte string'' body_v) (\<lambda>body.
         rbind (get_dict COSEError ''unprotected header must be a map'' unprotected) (\<lambda>_.
         rbind (get_bytes COSEError ''payload must be a byte string'' payload_v) (\<lambda>pl.
         rbind (get_bytes COSEError ''signature must be a byte string'' signature_v) (\<lambda>sig.
         rbind (except CBORError COSEError ''malformed protected header'' (cbor_loads body))
           (\<lambda>protected.
         rbind (validate_cose_headers protected unprotected) (\<lambda>(_, kid).
         rbind (of_option COSEError ''unknown kid: no trusted key'' (trusted_keys kid)) (\<lambda>key.
         rbind (sig_structure body aad pl) (\<lambda>ss.
         require (ed_verify P key sig ss) COSEError ''signature verification failed''
           (Inr (pl, kid)))))))))))))"

section \<open>What a verified message is\<close>

text \<open>Everything the verifier has established about a message it accepts.\<close>

definition cose_authentic :: "prims \<Rightarrow> bytes \<Rightarrow> trust \<Rightarrow> bytes \<Rightarrow> bytes \<Rightarrow> bytes \<Rightarrow> bool" where
  "cose_authentic P m trusted aad pl kid \<longleftrightarrow>
     (\<exists>body sig key hdr ss. cbor_loads m = Inr (PList [PBytes body, PDict [], PBytes pl, PBytes sig])
        \<and> cbor_loads body = Inr (PDict hdr) \<and> dict_get label_kid hdr = Some (PBytes kid)
        \<and> (\<exists>alg. dict_get label_alg hdr = Some alg \<and> py_eq alg (PInt alg_eddsa))
        \<and> keys_are hdr [label_alg, label_kid]
        \<and> trusted kid = Some key \<and> sig_structure body aad pl = Inr ss \<and> ed_verify P key sig ss)"

lemma cose_verify_eq:
  "cose_verify P msg trusted aad = Inr (pl, kid) \<longleftrightarrow>
     (\<exists>m. msg = PBytes m \<and> cose_authentic P m trusted aad pl kid)"
  by (auto simp: cose_verify_def cose_authentic_def validate_cose_headers_def)

section \<open>Signing and verifying fit together\<close>

lemma label_simps [simp]:
  "py_eq label_alg label_alg" "py_eq label_kid label_kid" "py_eq (PInt alg_eddsa) (PInt alg_eddsa)"
  "\<not> py_eq label_alg label_kid" "\<not> py_eq label_kid label_alg"
  by (simp_all add: label_alg_def label_kid_def alg_eddsa_def)

lemma key_bytes_labels: "key_bytes label_alg = [1]" "key_bytes label_kid = [4]"
  by (simp_all add: key_bytes_def label_alg_def label_kid_def encode_int_def head_def b8_def)

lemma nf_header:
  "nf (PDict [(label_alg, PInt alg_eddsa), (label_kid, PBytes kid)]) =
   PDict [(label_alg, PInt alg_eddsa), (label_kid, PBytes kid)]"
  by (simp add: entry_order_def key_bytes_labels)

lemma plain_header: "cbor_plain (PDict [(label_alg, PInt alg_eddsa), (label_kid, PBytes kid)])"
  by (simp add: max_recursion_depth_def numeral_eq_Suc uniform_keys_def label_alg_def label_kid_def
      alg_eddsa_def)

lemma cbor_loads_header: "protected_header kid = Inr body \<Longrightarrow>
    cbor_loads body = Inr (PDict [(label_alg, PInt alg_eddsa), (label_kid, PBytes kid)])"
  using cbor_loads_dumps [OF plain_header] by (simp only: protected_header_def nf_header)

lemma plain_outer: "cbor_plain (PList [PBytes a, PDict [], PBytes b, PBytes c])"
  by (simp add: max_recursion_depth_def numeral_eq_Suc uniform_keys_def)

lemma cbor_loads_outer:
  "cbor_dumps (PList [PBytes a, PDict [], PBytes b, PBytes c]) = Inr m \<Longrightarrow>
   cbor_loads m = Inr (PList [PBytes a, PDict [], PBytes b, PBytes c])"
  using cbor_loads_dumps [OF plain_outer] by simp

lemma sig_structure_inject:
  assumes "sig_structure b a p = Inr ss" "sig_structure b' a' p' = Inr ss"
  shows "b = b' \<and> a = a' \<and> p = p'"
proof -
  have "cbor_plain (PList [PStr (py ''Signature1''), PBytes b, PBytes a, PBytes p])" for b a p
    by (simp add: max_recursion_depth_def numeral_eq_Suc)
  from cbor_dumps_inject [OF this this] assms show ?thesis
    by (auto simp: sig_structure_def)
qed

lemma cose_verify_sign:
  assumes "\<forall>m. ed_verify P pk (sign_fn m) m" "trusted kid = Some pk"
    and "cose_sign_bytes pl sign_fn kid aad = Inr m"
  shows "cose_verify P (PBytes m) trusted aad = Inr (pl, kid)"
proof -
  from assms(3) obtain body ss where body: "protected_header kid = Inr body"
    and ss: "sig_structure body aad pl = Inr ss"
    and m: "cbor_dumps (PList [PBytes body, PDict [], PBytes pl, PBytes (sign_fn ss)]) = Inr m"
    by (auto simp: cose_sign_bytes_def Let_def)
  then show ?thesis
    using assms(1,2) cbor_loads_header [OF body] cbor_loads_outer [OF m]
    by (auto simp: cose_verify_eq cose_authentic_def keys_are_def)
qed

text \<open>Signing succeeds on a payload and a key id of practical size.\<close>

lemma protected_header_total:
  "length kid < 2 ^ 60 \<Longrightarrow> \<exists>body. protected_header kid = Inr body \<and> length body \<le> 45 + length kid"
  using cbor_dumps_total [of "PDict [(label_alg, PInt alg_eddsa), (label_kid, PBytes kid)]"]
  by (auto simp: protected_header_def label_alg_def label_kid_def alg_eddsa_def)

lemma sig_structure_total:
  assumes "length body < 2 ^ 61" "length aad < 2 ^ 60" "length pl < 2 ^ 60"
  shows "\<exists>ss. sig_structure body aad pl = Inr ss"
  using cbor_dumps_total [of "PList [PStr (py ''Signature1''), PBytes body, PBytes aad, PBytes pl]"] assms
  by (auto simp: sig_structure_def)

lemma cose_sign_total:
  assumes "\<forall>m. length (sign_fn m) = 64" "length kid < 2 ^ 60" "length aad < 2 ^ 60" "length pl < 2 ^ 60"
  shows "\<exists>m. cose_sign_bytes pl sign_fn kid aad = Inr m"
proof -
  obtain body where body: "protected_header kid = Inr body" "length body \<le> 45 + length kid"
    using protected_header_total assms(2) by blast
  then have small: "length body < 2 ^ 61" using assms(2) by simp
  then obtain ss where ss: "sig_structure body aad pl = Inr ss"
    using sig_structure_total assms(3,4) by blast
  have "\<exists>m. cbor_dumps (PList [PBytes body, PDict [], PBytes pl, PBytes (sign_fn ss)]) = Inr m"
    using cbor_dumps_total [of "PList [PBytes body, PDict [], PBytes pl, PBytes (sign_fn ss)]"]
      small assms(1,4) by auto
  then show ?thesis using body ss assms(1) by (auto simp: cose_sign_bytes_def Let_def)
qed

end
