(* ===== verification/Canonical.thy ===== *)
theory Canonical
  imports Floats
begin

text \<open>
  \<^verbatim>\<open>canonical.py\<close>, \<^verbatim>\<open>models.py\<close> and \<^verbatim>\<open>crypto.py\<close>:
  canonical JSON, its SHA-256 digest, and the signed envelope of protocol v0. The JSON values
  are those of \<^verbatim>\<open>model_dump(mode="json")\<close>: objects have text keys, in insertion order.
\<close>

section \<open>JSON values and their canonical text\<close>

datatype json =
    JNull | JBool bool | JInt int | JFloat f64 | JStr pystr
  | JArr "json list" | JObj "(pystr \<times> json) list"

text \<open>\<^verbatim>\<open>str(n)\<close> for an int.\<close>

fun nat_text :: "nat \<Rightarrow> pystr" where
  "nat_text n = (if n < 10 then [48 + n] else nat_text (n div 10) @ [48 + n mod 10])"

declare nat_text.simps [simp del]

definition int_text :: "int \<Rightarrow> pystr" where
  "int_text i = (if i < 0 then 45 # nat_text (nat (- i)) else nat_text (nat i))"

text \<open>The escapes of the encoder with \<^verbatim>\<open>ensure_ascii=False\<close>.\<close>

definition json_escape :: "nat \<Rightarrow> pystr" where
  "json_escape c =
     (if c = 34 then [92, 34] else if c = 92 then [92, 92]
      else if c = 10 then [92, 110] else if c = 13 then [92, 114] else if c = 9 then [92, 116]
      else if c = 12 then [92, 102] else if c = 8 then [92, 98]
      else if c < 32 then [92, 117, 48, 48, hex_digit (c div 16), hex_digit (c mod 16)]
      else [c])"

definition json_string :: "pystr \<Rightarrow> pystr" where
  "json_string s = [34] @ concat (map json_escape s) @ [34]"

fun comma_join :: "pystr list \<Rightarrow> pystr" where
  "comma_join [] = []"
| "comma_join [w] = w"
| "comma_join (w # ws) = w @ [44] @ comma_join ws"

text \<open>
  The members of an object are written in the order of their keys; a member's value is
  written (and may raise) when its turn comes.
\<close>

fun json_text :: "prims \<Rightarrow> json \<Rightarrow> pystr res"
  and json_texts :: "prims \<Rightarrow> json list \<Rightarrow> pystr list res"
  and json_members :: "prims \<Rightarrow> (pystr \<times> json) list \<Rightarrow> (pystr \<times> pystr res) list" where
  "json_text P JNull = Inr (py ''null'')"
| "json_text P (JBool b) = Inr (if b then py ''true'' else py ''false'')"
| "json_text P (JInt i) = Inr (int_text i)"
| "json_text P (JFloat x) =
     (if is_finite x then Inr (float_repr P x)
      else raise ValueError ''Out of range float values are not JSON compliant'')"
| "json_text P (JStr s) = Inr (json_string s)"
| "json_text P (JArr vs) =
     rbind (json_texts P vs) (\<lambda>ws. Inr ([91] @ comma_join ws @ [93]))"
| "json_text P (JObj kvs) =
     rbind (rmap (\<lambda>(k, r). rbind r (\<lambda>w. Inr (json_string k @ [58] @ w)))
              (sort_key fst (json_members P kvs)))
       (\<lambda>ws. Inr ([123] @ comma_join ws @ [125]))"
| "json_texts P [] = Inr []"
| "json_texts P (v # vs) =
     rbind (json_text P v) (\<lambda>w. rbind (json_texts P vs) (\<lambda>ws. Inr (w # ws)))"
| "json_members P [] = []"
| "json_members P ((k, v) # kvs) = (k, json_text P v) # json_members P kvs"

definition canonical_bytes :: "prims \<Rightarrow> json \<Rightarrow> bytes res" where
  "canonical_bytes P v = rbind (json_text P v) utf8_encode"

definition sha256_hex :: "prims \<Rightarrow> json \<Rightarrow> pystr res" where
  "sha256_hex P v = rbind (canonical_bytes P v) (\<lambda>b. Inr (to_hex (sha256 P b)))"

text \<open>The order in which an object was built does not reach its canonical bytes.\<close>

lemma json_members_map: "json_members P kvs = map (\<lambda>(k, v). (k, json_text P v)) kvs"
  by (induction kvs) auto

lemma json_text_permuted:
  assumes "mset kvs = mset kvs'" "distinct (map fst kvs)"
  shows "json_text P (JObj kvs) = json_text P (JObj kvs')"
proof -
  have "mset (json_members P kvs) = mset (json_members P kvs')"
    using assms(1) by (simp add: json_members_map)
  moreover have "distinct (map fst (json_members P kvs))"
    using assms(2) by (simp add: json_members_map comp_def case_prod_unfold)
  ultimately show ?thesis by (simp add: sort_key_permuted)
qed

section \<open>Signed envelopes (models.py, crypto.py)\<close>

record signed_envelope =
  alg :: pystr
  env_key_id :: pystr
  payload :: "(pystr \<times> json) list"
  signature :: pystr

definition alg_ed25519 :: pystr where
  "alg_ed25519 = py ''Ed25519''"

definition sign_payload :: "prims \<Rightarrow> signer \<Rightarrow> (pystr \<times> json) list \<Rightarrow> signed_envelope res" where
  "sign_payload P sg p = rbind (canonical_bytes P (JObj p)) (\<lambda>b.
     Inr \<lparr>alg = alg_ed25519, env_key_id = key_id sg, payload = p,
          signature = b64_encode P (sign_bytes sg b)\<rparr>)"

text \<open>
  \<^verbatim>\<open>verify_envelope\<close>: loading a key that is not 32 bytes long raises
  \<^verbatim>\<open>ValueError\<close> outside the \<^verbatim>\<open>try\<close>; bad base64, a payload with no
  canonical form and a wrong signature are all reported as an invalid signature.
\<close>

definition verify_envelope :: "prims \<Rightarrow> signed_envelope \<Rightarrow> bytes \<Rightarrow> (pystr \<times> json) list res" where
  "verify_envelope P env pub =
     require (alg env = alg_ed25519) ValueError ''unsupported signature algorithm''
    (require (length pub = 32) ValueError ''An Ed25519 public key is 32 bytes long''
    (except ValueError ValueError ''invalid signature''
      (rbind (of_option ValueError ''Incorrect padding'' (b64_decode P (signature env))) (\<lambda>sig.
       rbind (canonical_bytes P (JObj (payload env))) (\<lambda>m.
       require (ed_verify P pub sig m) ValueError ''InvalidSignature'' (Inr (payload env)))))))"

definition public_key_from_b64 :: "prims \<Rightarrow> pystr \<Rightarrow> bytes res" where
  "public_key_from_b64 P v = of_option ValueError ''Incorrect padding'' (b64_decode P v)"

lemma verify_envelope_ok:
  "verify_envelope P env pub = Inr p \<longleftrightarrow>
     alg env = alg_ed25519 \<and> length pub = 32 \<and> p = payload env \<and>
     (\<exists>sig m. b64_decode P (signature env) = Some sig \<and>
        canonical_bytes P (JObj (payload env)) = Inr m \<and> ed_verify P pub sig m)"
  by (auto simp: verify_envelope_def)

lemma sign_payload_ok:
  assumes "sign_payload P sg p = Inr env"
  shows "env_key_id env = key_id sg" "payload env = p" "alg env = alg_ed25519"
  using assms by (auto simp: sign_payload_def)

lemma verify_signed_payload:
  assumes "prims_ok P" "signer_ok P sg" "sign_payload P sg p = Inr env"
  shows "verify_envelope P env (public_key_bytes sg) = Inr p"
  using assms by (auto simp: verify_envelope_ok sign_payload_def prims_ok_def signer_ok_def)

end
