(* ===== verification/Envelope.thy ===== *)
theory Envelope
  imports Cose Canonical
begin

text \<open>
  \<^verbatim>\<open>envelope.py\<close>: the action envelope, its canonical bytes and digest, signing
  and verification, and the migration of v0 envelopes. Pydantic's \<^verbatim>\<open>model_validate\<close>
  is a parameter (\<open>None\<close> is a validation error); times are UTC instants, as the validator
  of the model makes them.
\<close>

record effect =
  plane :: pystr
  verb :: pystr
  target :: pystr
  args_digest :: pystr

record action_envelope =
  action_id :: pystr
  principal :: pystr
  effect :: effect
  policy_ref :: pystr
  issued_at :: int
  not_before :: int
  not_after :: int
  nonce :: pystr

section \<open>Canonical bytes and digest\<close>

definition effect_dump :: "effect \<Rightarrow> pyval" where
  "effect_dump e = PDict
     [(PStr (py ''plane''), PStr (plane e)), (PStr (py ''verb''), PStr (verb e)),
      (PStr (py ''target''), PStr (target e)), (PStr (py ''args_digest''), PStr (args_digest e))]"

text \<open>\<^verbatim>\<open>self.model_dump(mode="json")\<close>: every field is text.\<close>

definition envelope_dump :: "prims \<Rightarrow> action_envelope \<Rightarrow> pyval" where
  "envelope_dump P e = PDict
     [(PStr (py ''action_id''), PStr (action_id e)), (PStr (py ''principal''), PStr (principal e)),
      (PStr (py ''effect''), effect_dump (effect e)), (PStr (py ''policy_ref''), PStr (policy_ref e)),
      (PStr (py ''issued_at''), PStr (dt_json P (issued_at e))),
      (PStr (py ''not_before''), PStr (dt_json P (not_before e))),
      (PStr (py ''not_after''), PStr (dt_json P (not_after e))), (PStr (py ''nonce''), PStr (nonce e))]"

definition envelope_bytes :: "prims \<Rightarrow> action_envelope \<Rightarrow> bytes res" where
  "envelope_bytes P e = cbor_dumps (envelope_dump P e)"

definition action_digest :: "prims \<Rightarrow> action_envelope \<Rightarrow> pystr res" where
  "action_digest P e = rbind (envelope_bytes P e) (\<lambda>b. Inr (to_hex (sha256 P b)))"

section \<open>Signing and verification\<close>

definition sign_envelope :: "prims \<Rightarrow> action_envelope \<Rightarrow> signer \<Rightarrow> bytes \<Rightarrow> bytes res" where
  "sign_envelope P e sg aad =
     rbind (envelope_bytes P e) (\<lambda>b.
     rbind (utf8_encode (key_id sg)) (\<lambda>kid. cose_sign_bytes b (sign_bytes sg) kid aad))"

text \<open>The trust set built from key ids and raw keys; a key that does not load is an error.\<close>

fun load_keys :: "(pystr \<times> bytes) list \<Rightarrow> trust res" where
  "load_keys [] = Inr Map.empty"
| "load_keys ((k, raw) # ks) =
     rbind (utf8_encode k) (\<lambda>kid.
     require (length raw = 32) ValueError ''An Ed25519 public key is 32 bytes long''
       (rbind (load_keys ks) (\<lambda>m. Inr (m(kid \<mapsto> raw)))))"

definition verify_action_envelope ::
  "prims \<Rightarrow> (pyval \<Rightarrow> action_envelope option) \<Rightarrow> pyval \<Rightarrow> (pystr \<times> bytes) list
     \<Rightarrow> datetime option \<Rightarrow> int \<Rightarrow> bytes \<Rightarrow> action_envelope res" where
  "verify_action_envelope P validate data trusted_keys now clock aad =
     rbind (except ValueError EnvelopeError ''bad trusted key material'' (load_keys trusted_keys)) (\<lambda>pubkeys.
     rbind (except COSEError EnvelopeError ''COSE'' (cose_verify P data pubkeys aad)) (\<lambda>(pl, _).
     rbind (except CBORError EnvelopeError ''envelope payload is not valid CBOR'' (cbor_loads pl)) (\<lambda>raw.
     rbind (of_option EnvelopeError ''envelope schema invalid'' (validate raw)) (\<lambda>e.
     let moment = (case now of Some t \<Rightarrow> as_utc t | None \<Rightarrow> clock) in
     if moment < not_before e
     then raise EnvelopeError ''envelope not yet valid (not_before in the future)''
     else if not_after e < moment
     then raise EnvelopeError ''envelope expired (not_after in the past)''
     else Inr e))))"

section \<open>Migration of v0 envelopes\<close>

fun truthy :: "json \<Rightarrow> bool" where
  "truthy JNull = False"
| "truthy (JBool b) = b"
| "truthy (JInt i) = (i \<noteq> 0)"
| "truthy (JFloat x) = (f64_to_int x \<noteq> Some 0)"
| "truthy (JStr s) = (s \<noteq> [])"
| "truthy (JArr vs) = (vs \<noteq> [])"
| "truthy (JObj kvs) = (kvs \<noteq> [])"

text \<open>\<^verbatim>\<open>payload.get(k)\<close>, and the first truthy of a chain of \<^verbatim>\<open>or\<close>.\<close>

definition json_get :: "(pystr \<times> json) list \<Rightarrow> string \<Rightarrow> json" where
  "json_get d k = (case map_of d (py k) of None \<Rightarrow> JNull | Some v \<Rightarrow> v)"

definition py_or :: "json \<Rightarrow> json \<Rightarrow> json" where
  "py_or a b = (if truthy a then a else b)"

definition str_of :: "(json \<Rightarrow> pystr) \<Rightarrow> json \<Rightarrow> pystr" where
  "str_of repr v = (case v of JStr s \<Rightarrow> s | _ \<Rightarrow> repr v)"

definition migrate_effect :: "prims \<Rightarrow> (json \<Rightarrow> pystr) \<Rightarrow> (pystr \<times> json) list \<Rightarrow> bytes \<Rightarrow> effect res" where
  "migrate_effect P repr d v0 =
     (let synthesized = \<lparr>plane = py ''v0-migrated'', verb = py ''migrated'',
            target = str_of repr (case map_of d (py ''action'') of None \<Rightarrow> JStr (py ''unknown'') | Some v \<Rightarrow> v),
            args_digest = to_hex (sha256 P v0)\<rparr>
      in case json_get d ''effect'' of
        JObj raw \<Rightarrow>
          (case (map_of raw (py ''plane''), map_of raw (py ''verb''), map_of raw (py ''target''),
                 map_of raw (py ''args_digest'')) of
             (Some p, Some v, Some t, Some a) \<Rightarrow>
               (case (p, v, t, a) of
                  (JStr p, JStr v, JStr t, JStr a) \<Rightarrow>
                    Inr \<lparr>plane = p, verb = v, target = t, args_digest = a\<rparr>
                | _ \<Rightarrow> raise ValidationError ''Effect'')
           | _ \<Rightarrow> Inr synthesized)
      | _ \<Rightarrow> Inr synthesized)"

definition parse_time :: "prims \<Rightarrow> json \<Rightarrow> int option" where
  "parse_time P v = (case v of JStr s \<Rightarrow> map_option as_utc (fromisoformat P s) | _ \<Rightarrow> None)"

text \<open>
  \<open>uuid\<close> is \<^verbatim>\<open>uuid5\<close> in the migration namespace and \<open>repr\<close> is
  \<^verbatim>\<open>str()\<close> of a value that is not text.
\<close>

definition migrate_from_signed_envelope ::
  "prims \<Rightarrow> (pystr \<Rightarrow> pystr) \<Rightarrow> (json \<Rightarrow> pystr) \<Rightarrow> int \<Rightarrow> signed_envelope \<Rightarrow> action_envelope res" where
  "migrate_from_signed_envelope P uuid repr clock se =
     (let d = payload se in
      rbind (canonical_bytes P (JObj d)) (\<lambda>v0.
      rbind (migrate_effect P repr d v0) (\<lambda>eff.
      let issued = (case parse_time P (json_get d ''issued_at'') of Some t \<Rightarrow> t | None \<Rightarrow> clock);
          nb = (case parse_time P (json_get d ''not_before'') of Some t \<Rightarrow> t | None \<Rightarrow> issued)
      in rbind (case parse_time P (json_get d ''not_after'') of Some t \<Rightarrow> Inr t
                | None \<Rightarrow> dt_add issued (seconds 3600)) (\<lambda>na.
      Inr \<lparr>action_id = uuid (to_hex v0),
           principal = str_of repr (py_or (json_get d ''subject'')
             (py_or (json_get d ''principal'') (JStr (env_key_id se)))),
           effect = eff,
           policy_ref = str_of repr (py_or (json_get d ''constitution'')
             (py_or (json_get d ''policy_ref'') (JStr (py ''v0:unknown'')))),
           issued_at = issued, not_before = nb, not_after = na,
           nonce = str_of repr (py_or (json_get d ''nonce'') (JStr (signature se)))\<rparr>))))"

section \<open>The digest binds the envelope\<close>

lemma plain_envelope: "cbor_plain (envelope_dump P e)"
  by (simp add: max_recursion_depth_def numeral_eq_Suc uniform_keys_def envelope_dump_def effect_dump_def)

lemma nf_dict_lookup:
  assumes "nf (PDict d) = nf (PDict d')" "distinct (map fst d)" "distinct (map fst d')"
  shows "map_option nf (map_of d k) = map_option nf (map_of d' k)"
proof -
  have nfp: "map fst (nf_pairs e) = map fst e" "map_of (nf_pairs e) k = map_option nf (map_of e k)" for e
    by (induction e) auto
  from assms(1) have "sort_key entry_order (nf_pairs d) = sort_key entry_order (nf_pairs d')" by simp
  then have "set (nf_pairs d) = set (nf_pairs d')" by (metis set_sort)
  with assms(2,3) have "map_of (nf_pairs d) = map_of (nf_pairs d')"
    by (subst map_of_inject_set) (simp_all add: nfp)
  then show ?thesis by (metis nfp(2))
qed

lemma effect_dump_inject:
  assumes "nf (effect_dump e) = nf (effect_dump e')" shows "e = e'"
proof -
  note look = nf_dict_lookup [OF assms [unfolded effect_dump_def]]
  show ?thesis
    using look [of "PStr (py ''plane'')"] look [of "PStr (py ''verb'')"]
      look [of "PStr (py ''target'')"] look [of "PStr (py ''args_digest'')"]
    by (cases e; cases e') simp
qed

lemma envelope_dump_inject:
  assumes "inj (dt_json P)" "nf (envelope_dump P e) = nf (envelope_dump P e')" shows "e = e'"
proof -
  note look = nf_dict_lookup [OF assms(2) [unfolded envelope_dump_def]]
  show ?thesis
    using assms(1) look [of "PStr (py ''action_id'')"] look [of "PStr (py ''principal'')"]
      look [of "PStr (py ''effect'')"] look [of "PStr (py ''policy_ref'')"]
      look [of "PStr (py ''issued_at'')"] look [of "PStr (py ''not_before'')"]
      look [of "PStr (py ''not_after'')"] look [of "PStr (py ''nonce'')"]
    by (cases e; cases e') (auto dest: effect_dump_inject injD)
qed

text \<open>Two envelopes with the same canonical bytes are the same envelope.\<close>

lemma envelope_bytes_inject:
  assumes "inj (dt_json P)" "envelope_bytes P e = Inr b" "envelope_bytes P e' = Inr b"
  shows "e = e'"
  using cbor_dumps_inject [OF plain_envelope plain_envelope] envelope_dump_inject assms
  by (metis envelope_bytes_def)

lemma envelope_bytes_loads:
  "envelope_bytes P e = Inr b \<Longrightarrow> cbor_loads b = Inr (nf (envelope_dump P e))"
  unfolding envelope_bytes_def by (rule cbor_loads_dumps [OF plain_envelope])

lemma load_keys_lookup:
  assumes "load_keys ks = Inr m" "distinct (map fst ks)" "(k, raw) \<in> set ks" "utf8_encode k = Inr kid"
  shows "m kid = Some raw"
  using assms
proof (induction ks arbitrary: m)
  case (Cons a ks)
  obtain k' raw' where a: "a = (k', raw')" by (cases a)
  with Cons.prems obtain kid' m' where kid': "utf8_encode k' = Inr kid'"
    and m': "load_keys ks = Inr m'" and m: "m = m'(kid' \<mapsto> raw')" by auto
  show ?case
  proof (cases "k' = k")
    case True
    with Cons.prems a kid' show ?thesis by (auto simp: m image_iff)
  next
    case False
    then have "kid' \<noteq> kid" using kid' Cons.prems(4) utf8_encode_inject by blast
    with Cons.IH [OF m'] Cons.prems a False show ?thesis by (simp add: m)
  qed
qed simp

text \<open>What \<open>verify_action_envelope\<close> has checked when it returns.\<close>

lemma verify_action_envelope_eq:
  "verify_action_envelope P validate data keys now clock aad = Inr e \<longleftrightarrow>
     (\<exists>pubkeys m pl kid raw. load_keys keys = Inr pubkeys \<and> data = PBytes m
        \<and> cose_authentic P m pubkeys aad pl kid \<and> cbor_loads pl = Inr raw \<and> validate raw = Some e
        \<and> not_before e \<le> (case now of Some t \<Rightarrow> as_utc t | None \<Rightarrow> clock)
        \<and> (case now of Some t \<Rightarrow> as_utc t | None \<Rightarrow> clock) \<le> not_after e)"
  by (auto simp: verify_action_envelope_def cose_verify_eq Let_def not_less)

lemma verify_sign_envelope:
  assumes "signer_ok P sg" and keys: "load_keys keys = Inr m" "distinct (map fst keys)"
    "(key_id sg, public_key_bytes sg) \<in> set keys"
    and "validate (nf (envelope_dump P e)) = Some e" "not_before e \<le> as_utc t" "as_utc t \<le> not_after e"
    and sign: "sign_envelope P e sg aad = Inr msg"
  shows "verify_action_envelope P validate (PBytes msg) keys (Some t) clock aad = Inr e"
proof -
  from sign obtain b kid where b: "envelope_bytes P e = Inr b" and kid: "utf8_encode (key_id sg) = Inr kid"
    and msg: "cose_sign_bytes b (sign_bytes sg) kid aad = Inr msg"
    by (auto simp: sign_envelope_def)
  have "m kid = Some (public_key_bytes sg)" using load_keys_lookup [OF keys kid] .
  with assms(1) msg have "cose_verify P (PBytes msg) m aad = Inr (b, kid)"
    by (intro cose_verify_sign) (auto simp: signer_ok_def)
  with assms envelope_bytes_loads [OF b] show ?thesis
    by (simp add: verify_action_envelope_def)
qed

end
