(* ===== verification/Cbor_Python.thy ===== *)
theory Cbor_Python
  imports Cbor Canonical
begin

text \<open>
  Python's conversions of decoded CBOR: truth, \<^verbatim>\<open>int(...)\<close>, iteration, and the
  reverse translation of JSON-like values.
\<close>

section \<open>Truth\<close>

fun truthy :: "pyval \<Rightarrow> bool" where
  "truthy PNone = False"
| "truthy (PBool b) = b"
| "truthy (PInt i) = (i \<noteq> 0)"
| "truthy (PFloat x) = (f64_to_int x \<noteq> Some 0)"
| "truthy (PBytes b) = (b \<noteq> [])"
| "truthy (PStr s) = (s \<noteq> [])"
| "truthy (PList vs) = (vs \<noteq> [])"
| "truthy (PDict d) = (d \<noteq> [])"
| "truthy (PTag n v) = True"
| "truthy (PSimple n) = True"
| "truthy PUndefined = True"

text \<open>\<^verbatim>\<open>v or {}\<close> and \<^verbatim>\<open>d.get(k)\<close> with its default.\<close>

definition or_empty_dict :: "pyval \<Rightarrow> pyval" where
  "or_empty_dict v = (if truthy v then v else PDict [])"

definition dict_get_or :: "pyval \<Rightarrow> (pyval \<times> pyval) list \<Rightarrow> pyval \<Rightarrow> pyval" where
  "dict_get_or k d v = (case dict_get k d of None \<Rightarrow> v | Some w \<Rightarrow> w)"

abbreviation str_key :: "string \<Rightarrow> pyval" where
  "str_key k \<equiv> PStr (py k)"

section \<open>Integers from text\<close>

text \<open>
  The decimal digits of Unicode 15 stand in runs of ten; the list holds their zeros.
\<close>

definition decimal_zeros :: "nat list" where
  "decimal_zeros = [48, 1632, 1776, 1984, 2406, 2534, 2662, 2790, 2918, 3046, 3174, 3302, 3430,
     3558, 3664, 3792, 3872, 4160, 4240, 6112, 6160, 6470, 6608, 6784, 6800, 6992, 7088, 7232, 7248,
     42528, 43216, 43264, 43472, 43504, 43600, 44016, 65296, 66720, 68912, 69734, 69872, 69942,
     70096, 70384, 70736, 70864, 71248, 71360, 71472, 71904, 72016, 72784, 73040, 73120, 73552,
     92768, 92864, 93008, 120782, 120792, 120802, 120812, 120822, 123200, 123632, 124144, 125264,
     130032]"

definition is_space :: "nat \<Rightarrow> bool" where
  "is_space c \<longleftrightarrow> 9 \<le> c \<and> c \<le> 13 \<or> 28 \<le> c \<and> c \<le> 32 \<or> c \<in> {133, 160, 5760, 8232, 8233, 8239, 8287, 12288}
     \<or> 8192 \<le> c \<and> c \<le> 8202"

text \<open>
  \<^verbatim>\<open>int\<close> of a \<^verbatim>\<open>str\<close> first turns digits and white space into ASCII;
  anything else beyond ASCII becomes a character that is not accepted.
\<close>

definition ascii_digit :: "nat \<Rightarrow> nat" where
  "ascii_digit c = (if c < 128 then (if is_space c then 32 else c)
     else if is_space c then 32
     else case List.find (\<lambda>z. z \<le> c \<and> c \<le> z + 9) decimal_zeros of
         None \<Rightarrow> 63 | Some z \<Rightarrow> 48 + (c - z))"

text \<open>Digits, with single underscores between them; at most 4300 digits are converted.\<close>

fun digits_of :: "nat list \<Rightarrow> nat list option" where
  "digits_of [] = None"
| "digits_of [c] = (if 48 \<le> c \<and> c \<le> 57 then Some [c - 48] else None)"
| "digits_of (c # d # s) =
     (if 48 \<le> c \<and> c \<le> 57
      then map_option (\<lambda>ds. (c - 48) # ds) (digits_of (if d = 95 then s else d # s))
      else None)"

definition decimal :: "nat list \<Rightarrow> int option" where
  "decimal s = (case digits_of s of None \<Rightarrow> None
     | Some ds \<Rightarrow> if 4300 < length ds then None
                  else Some (int (foldl (\<lambda>a d. 10 * a + d) 0 ds)))"

definition strip_spaces :: "nat list \<Rightarrow> nat list" where
  "strip_spaces s = rev (dropWhile is_ascii_space (rev (dropWhile is_ascii_space s)))"

definition ascii_int :: "nat list \<Rightarrow> int option" where
  "ascii_int s = (case strip_spaces s of
     [] \<Rightarrow> None
   | c # r \<Rightarrow> if c = 43 then decimal r else if c = 45 then map_option uminus (decimal r)
       else decimal (c # r))"

text \<open>The integer part of a float, towards zero; \<open>None\<close> for NaNs and infinities.\<close>

definition f64_trunc :: "f64 \<Rightarrow> int option" where
  "f64_trunc x =
     (let e = f64_exp x; m = f64_mant x; sg = (if f64_sign x = 0 then 1 else - 1)
      in if e = 2047 then None
         else if e < 1023 then Some 0
         else if 1075 \<le> e then Some (sg * int ((2 ^ 52 + m) * 2 ^ (e - 1075)))
         else Some (sg * int ((2 ^ 52 + m) div 2 ^ (1075 - e))))"

fun int_of :: "pyval \<Rightarrow> int res" where
  "int_of (PInt i) = Inr i"
| "int_of (PBool b) = Inr (if b then 1 else 0)"
| "int_of (PFloat x) = (case f64_trunc x of Some i \<Rightarrow> Inr i
     | None \<Rightarrow> if is_nan x then raise ValueError ''cannot convert float NaN to integer''
               else raise OverflowError ''cannot convert float infinity to integer'')"
| "int_of (PStr s) = of_option ValueError ''invalid literal for int()'' (ascii_int (map ascii_digit s))"
| "int_of (PBytes b) = of_option ValueError ''invalid literal for int()'' (ascii_int (map unat b))"
| "int_of _ = raise TypeError ''int() argument must be a number or a string''"

section \<open>Iteration\<close>

fun iterate :: "pyval \<Rightarrow> pyval list res" where
  "iterate (PList vs) = Inr vs"
| "iterate (PStr s) = Inr (map (\<lambda>c. PStr [c]) s)"
| "iterate (PBytes b) = Inr (map (\<lambda>c. PInt (int (unat c))) b)"
| "iterate (PDict d) = Inr (map fst d)"
| "iterate _ = raise TypeError ''object is not iterable''"

text \<open>\<^verbatim>\<open>bytes.fromhex(v)\<close> for any \<open>v\<close>.\<close>

fun hex_of :: "pyval \<Rightarrow> bytes res" where
  "hex_of (PStr s) = of_option ValueError ''non-hexadecimal number found in fromhex() arg'' (from_hex s)"
| "hex_of _ = raise TypeError ''fromhex() argument must be str''"

section \<open>JSON-like values as CBOR\<close>

fun to_cbor :: "json \<Rightarrow> pyval" where
  "to_cbor JNull = PNone"
| "to_cbor (JBool b) = PBool b"
| "to_cbor (JInt i) = PInt i"
| "to_cbor (JFloat x) = PFloat x"
| "to_cbor (JStr s) = PStr s"
| "to_cbor (JArr vs) = PList (map to_cbor vs)"
| "to_cbor (JObj d) = PDict (map (\<lambda>(k, v). (PStr k, to_cbor v)) d)"

end
