(* ===== verification/Authority.thy ===== *)
theory Authority
  imports Envelope Cbor_Python
begin

text \<open>
  \<^verbatim>\<open>authority.py\<close>: holder-of-key capabilities. Issuance, verification, the minting
  of attenuated children and the per-request holder proof. Arguments whose type the code
  checks at run time are Python values; the random ids, the clock and pydantic's validation
  of a decoded payload are parameters.
\<close>

section \<open>Payloads\<close>

definition capability_version :: int where "capability_version = 1"
definition kind_mandate :: pystr where "kind_mandate = py ''mandate''"
definition kind_execution :: pystr where "kind_execution = py ''execution''"
definition kind_read :: pystr where "kind_read = py ''read''"
definition kinds :: "pystr list" where "kinds = [kind_mandate, kind_execution, kind_read]"
definition default_revocation_staleness_s :: int where "default_revocation_staleness_s = 300"
definition future_issuance_skew_s :: int where "future_issuance_skew_s = 300"

lemma kinds_distinct [simp]:
  "kind_mandate \<noteq> kind_execution" "kind_execution \<noteq> kind_mandate" "kind_mandate \<noteq> kind_read"
  "kind_read \<noteq> kind_mandate" "kind_execution \<noteq> kind_read" "kind_read \<noteq> kind_execution"
  by (simp_all add: kind_mandate_def kind_execution_def kind_read_def)

record cap_payload =
  version :: int
  capability_id :: pystr
  kind :: pystr
  cap_digest :: pystr
  holder_pubkey :: bytes
  spend_limit :: "int option"
  spend_asset :: "pystr option"
  cap_issued_at :: pystr
  expires_at :: pystr
  cap_nonce :: pystr
  parent_capability_id :: "pystr option"
  max_revocation_staleness :: int
  read_key_prefix :: "pystr option"
  read_trusted_writers :: "pystr list option"
  read_min_version :: "int option"
  read_require_statement :: bool

fun opt_val :: "('a \<Rightarrow> pyval) \<Rightarrow> 'a option \<Rightarrow> pyval" where
  "opt_val f None = PNone"
| "opt_val f (Some x) = f x"

text \<open>\<^verbatim>\<open>payload.model_dump()\<close>.\<close>

definition payload_dump :: "cap_payload \<Rightarrow> pyval" where
  "payload_dump p = PDict
     [(PStr (py ''version''), PInt (version p)),
      (PStr (py ''capability_id''), PStr (capability_id p)),
      (PStr (py ''kind''), PStr (kind p)),
      (PStr (py ''action_digest''), PStr (cap_digest p)),
      (PStr (py ''holder_pubkey''), PBytes (holder_pubkey p)),
      (PStr (py ''spend_limit''), opt_val PInt (spend_limit p)),
      (PStr (py ''spend_asset''), opt_val PStr (spend_asset p)),
      (PStr (py ''issued_at''), PStr (cap_issued_at p)),
      (PStr (py ''expires_at''), PStr (expires_at p)),
      (PStr (py ''nonce''), PStr (cap_nonce p)),
      (PStr (py ''parent_capability_id''), opt_val PStr (parent_capability_id p)),
      (PStr (py ''max_revocation_staleness''), PInt (max_revocation_staleness p)),
      (PStr (py ''read_key_prefix''), opt_val PStr (read_key_prefix p)),
      (PStr (py ''read_trusted_writers''), opt_val (\<lambda>ws. PList (map PStr ws)) (read_trusted_writers p)),
      (PStr (py ''read_min_version''), opt_val PInt (read_min_version p)),
      (PStr (py ''read_require_statement''), PBool (read_require_statement p))]"

definition payload_bytes :: "cap_payload \<Rightarrow> bytes res" where
  "payload_bytes p = cbor_dumps (payload_dump p)"

definition sign_capability :: "cap_payload \<Rightarrow> signer \<Rightarrow> bytes res" where
  "sign_capability p issuer =
     rbind (payload_bytes p) (\<lambda>b. rbind (utf8_encode (key_id issuer)) (\<lambda>kid.
       cose_sign_bytes b (sign_bytes issuer) kid []))"

section \<open>Field checks\<close>

definition parse_iso :: "prims \<Rightarrow> pystr \<Rightarrow> int res" where
  "parse_iso P v = (case fromisoformat P v of
     None \<Rightarrow> raise CapabilityError ''capability time is not ISO-8601''
   | Some t \<Rightarrow> Inr (as_utc t))"

definition check_pubkey :: "pyval \<Rightarrow> bytes res" where
  "check_pubkey v = (case v of
     PBytes b \<Rightarrow> if length b = 32 then Inr b
       else raise CapabilityError ''holder_pubkey must be 32 raw Ed25519 bytes''
   | _ \<Rightarrow> raise CapabilityError ''holder_pubkey must be 32 raw Ed25519 bytes'')"

definition check_digest :: "pyval \<Rightarrow> pystr res" where
  "check_digest v = (case v of
     PStr s \<Rightarrow>
       if length s \<noteq> 64 then raise CapabilityError ''action_digest must be a 64-char hex string''
       else if from_hex s = None then raise CapabilityError ''action_digest must be hex''
       else Inr (ascii_lower s)
   | _ \<Rightarrow> raise CapabilityError ''action_digest must be a 64-char hex string'')"

fun check_spend_limit :: "pyval \<Rightarrow> unit res" where
  "check_spend_limit PNone = Inr ()"
| "check_spend_limit (PInt n) =
     (if n < 0 then raise CapabilityError ''spend_limit must be >= 0'' else Inr ())"
| "check_spend_limit _ = raise CapabilityError ''spend_limit must be an integer (minor units)''"

fun check_spend_asset :: "pyval \<Rightarrow> unit res" where
  "check_spend_asset PNone = Inr ()"
| "check_spend_asset (PStr s) =
     (if s = [] then raise CapabilityError ''spend_asset must be a non-empty string'' else Inr ())"
| "check_spend_asset _ = raise CapabilityError ''spend_asset must be a non-empty string''"

definition check_spend :: "pyval \<Rightarrow> pyval \<Rightarrow> unit res" where
  "check_spend limit asset =
     rbind (check_spend_limit limit) (\<lambda>_. rbind (check_spend_asset asset) (\<lambda>_.
     if limit = PNone \<and> asset \<noteq> PNone
     then raise CapabilityError ''spend_asset without spend_limit is meaningless'' else Inr ()))"

fun check_writer :: "pyval \<Rightarrow> unit res" where
  "check_writer (PStr s) = (if s = []
     then raise CapabilityError ''read_trusted_writers entries must be non-empty strings'' else Inr ())"
| "check_writer _ = raise CapabilityError ''read_trusted_writers entries must be non-empty strings''"

fun check_writers :: "pyval \<Rightarrow> unit res" where
  "check_writers PNone = Inr ()"
| "check_writers (PList ws) = (if ws = []
     then raise CapabilityError ''read_trusted_writers must be a non-empty list when given''
     else for_each check_writer ws)"
| "check_writers _ = raise CapabilityError ''read_trusted_writers must be a non-empty list when given''"

fun check_min_version :: "pyval \<Rightarrow> unit res" where
  "check_min_version PNone = Inr ()"
| "check_min_version (PInt n) =
     (if n < 0 then raise CapabilityError ''read_min_version must be >= 0'' else Inr ())"
| "check_min_version _ = raise CapabilityError ''read_min_version must be an integer''"

definition check_read_caveats :: "pyval \<Rightarrow> pyval \<Rightarrow> pyval \<Rightarrow> pyval \<Rightarrow> unit res" where
  "check_read_caveats prefix writers min_version require_statement =
     require (case prefix of PStr s \<Rightarrow> s \<noteq> [] | _ \<Rightarrow> False) CapabilityError
       ''read_key_prefix must be a non-empty string''
     (rbind (check_writers writers) (\<lambda>_.
      rbind (check_min_version min_version) (\<lambda>_.
      require (case require_statement of PBool _ \<Rightarrow> True | _ \<Rightarrow> False) CapabilityError
        ''read_require_statement must be a bool''
      (if writers = PNone \<and> require_statement = PBool False
       then raise CapabilityError ''a read capability must bind provenance''
       else Inr ()))))"

text \<open>Reading a checked Python value at its type.\<close>

fun val_int :: "pyval \<Rightarrow> int option" where
  "val_int (PInt n) = Some n"
| "val_int (PBool b) = Some (if b then 1 else 0)"
| "val_int _ = None"

fun val_str :: "pyval \<Rightarrow> pystr option" where
  "val_str (PStr s) = Some s" | "val_str _ = None"

fun val_strs :: "pyval \<Rightarrow> pystr list option" where
  "val_strs (PList vs) = those (map val_str vs)" | "val_strs _ = None"

section \<open>Issuance\<close>

record issue_args =
  i_kind :: pystr
  i_digest :: pyval
  i_holder :: pyval
  i_spend_limit :: pyval
  i_spend_asset :: pyval
  i_ttl :: int
  i_parent :: "pystr option"
  i_staleness :: pyval
  i_now :: "datetime option"
  i_prefix :: pyval
  i_writers :: pyval
  i_min_version :: pyval
  i_require_statement :: pyval

record fresh =
  clock :: int
  fresh_id :: pystr
  fresh_nonce :: pystr

definition now_or_clock :: "fresh \<Rightarrow> datetime option \<Rightarrow> int" where
  "now_or_clock fr now = (case now of Some t \<Rightarrow> as_utc t | None \<Rightarrow> clock fr)"

definition issue_payload :: "prims \<Rightarrow> fresh \<Rightarrow> issue_args \<Rightarrow> cap_payload res" where
  "issue_payload P fr a =
     require (i_kind a \<in> set kinds) CapabilityError ''unknown capability kind''
     (rbind (check_digest (i_digest a)) (\<lambda>digest.
      rbind (check_pubkey (i_holder a)) (\<lambda>holder.
      rbind (check_spend (i_spend_limit a) (i_spend_asset a)) (\<lambda>_.
      rbind (case val_int (i_staleness a) of
          Some n \<Rightarrow> (if n < 0 then raise CapabilityError ''max_revocation_staleness must be an int >= 0''
            else Inr n)
        | None \<Rightarrow> raise CapabilityError ''max_revocation_staleness must be an int >= 0'') (\<lambda>staleness.
      rbind (if i_kind a = kind_read
          then check_read_caveats (i_prefix a) (i_writers a) (i_min_version a) (i_require_statement a)
          else if list_ex (\<lambda>v. v \<noteq> PNone \<and> v \<noteq> PBool False) [i_prefix a, i_writers a, i_min_version a]
              \<or> truthy (i_require_statement a)
          then raise CapabilityError ''read caveats are only valid for kind read''
          else Inr ()) (\<lambda>_.
      let moment = now_or_clock fr (i_now a) in
      rbind (dt_add moment (i_ttl a)) (\<lambda>expiry.
      Inr \<lparr>version = capability_version, capability_id = fresh_id fr, kind = i_kind a,
           cap_digest = digest, holder_pubkey = holder,
           spend_limit = val_int (i_spend_limit a), spend_asset = val_str (i_spend_asset a),
           cap_issued_at = isoformat P moment, expires_at = isoformat P expiry,
           cap_nonce = fresh_nonce fr, parent_capability_id = i_parent a,
           max_revocation_staleness = staleness,
           read_key_prefix = (if i_kind a = kind_read then val_str (i_prefix a) else None),
           read_trusted_writers = (if i_kind a = kind_read then val_strs (i_writers a) else None),
           read_min_version = (if i_kind a = kind_read then val_int (i_min_version a) else None),
           read_require_statement = (i_kind a = kind_read \<and> i_require_statement a = PBool True)\<rparr>)))))))"

definition issue :: "prims \<Rightarrow> fresh \<Rightarrow> signer \<Rightarrow> issue_args \<Rightarrow> bytes res" where
  "issue P fr issuer a = rbind (issue_payload P fr a) (\<lambda>p. sign_capability p issuer)"

definition plain_args :: "pystr \<Rightarrow> pyval \<Rightarrow> pyval \<Rightarrow> pyval \<Rightarrow> pyval \<Rightarrow> int \<Rightarrow> pyval \<Rightarrow> datetime option \<Rightarrow> issue_args" where
  "plain_args k digest holder limit asset ttl staleness now =
     \<lparr>i_kind = k, i_digest = digest, i_holder = holder, i_spend_limit = limit, i_spend_asset = asset,
      i_ttl = ttl, i_parent = None, i_staleness = staleness, i_now = now,
      i_prefix = PNone, i_writers = PNone, i_min_version = PNone, i_require_statement = PBool False\<rparr>"

definition issue_mandate where
  "issue_mandate P fr issuer digest holder limit asset ttl staleness now =
     issue P fr issuer (plain_args kind_mandate digest holder limit asset ttl staleness now)"

definition issue_execution where
  "issue_execution P fr issuer digest holder limit asset ttl staleness now =
     issue P fr issuer (plain_args kind_execution digest holder limit asset ttl staleness now)"

text \<open>
  The scope digest of a read capability is taken before the caveats are checked, so here
  they have the types of the signature.
\<close>

definition read_scope :: "pystr \<Rightarrow> pystr list option \<Rightarrow> int option \<Rightarrow> bool \<Rightarrow> json" where
  "read_scope prefix writers min_version require_statement = JObj
     [(py ''kind'', JStr kind_read), (py ''read_key_prefix'', JStr prefix),
      (py ''read_trusted_writers'', JArr (map JStr (sort (case writers of None \<Rightarrow> [] | Some ws \<Rightarrow> ws)))),
      (py ''read_min_version'', (case min_version of None \<Rightarrow> JNull | Some n \<Rightarrow> JInt n)),
      (py ''read_require_statement'', JBool require_statement)]"

definition issue_read ::
  "prims \<Rightarrow> fresh \<Rightarrow> signer \<Rightarrow> pyval \<Rightarrow> pystr \<Rightarrow> pystr list option \<Rightarrow> int option \<Rightarrow> bool \<Rightarrow> int
     \<Rightarrow> pyval \<Rightarrow> datetime option \<Rightarrow> bytes res" where
  "issue_read P fr issuer holder prefix writers min_version require_statement ttl staleness now =
     rbind (sha256_hex P (read_scope prefix writers min_version require_statement)) (\<lambda>digest.
     issue P fr issuer ((plain_args kind_read (PStr digest) holder PNone PNone ttl staleness now)
       \<lparr>i_prefix := PStr prefix, i_writers := opt_val (\<lambda>ws. PList (map PStr ws)) writers,
        i_min_version := opt_val PInt min_version, i_require_statement := PBool require_statement\<rparr>))"

section \<open>Verification\<close>

text \<open>The structural checks of \<^verbatim>\<open>verify_capability\<close> on a payload of valid schema.\<close>

definition check_payload :: "cap_payload \<Rightarrow> unit res" where
  "check_payload p =
     require (version p = capability_version) CapabilityError ''unsupported capability version''
     (require (kind p \<in> set kinds) CapabilityError ''unknown capability kind''
     (rbind (check_digest (PStr (cap_digest p))) (\<lambda>_.
      rbind (check_pubkey (PBytes (holder_pubkey p))) (\<lambda>_.
      rbind (check_spend (opt_val PInt (spend_limit p)) (opt_val PStr (spend_asset p))) (\<lambda>_.
      require (capability_id p \<noteq> [] \<and> cap_nonce p \<noteq> []) CapabilityError
        ''capability_id and nonce must be non-empty''
      (rbind (if kind p = kind_read
          then check_read_caveats (opt_val PStr (read_key_prefix p))
            (opt_val (\<lambda>ws. PList (map PStr ws)) (read_trusted_writers p))
            (opt_val PInt (read_min_version p)) (PBool (read_require_statement p))
          else Inr ()) (\<lambda>_.
       require (0 \<le> max_revocation_staleness p) CapabilityError
         ''max_revocation_staleness must be >= 0'' (Inr ()))))))))"

definition check_window :: "prims \<Rightarrow> int \<Rightarrow> cap_payload \<Rightarrow> unit res" where
  "check_window P moment p =
     rbind (parse_iso P (cap_issued_at p)) (\<lambda>iat.
     rbind (parse_iso P (expires_at p)) (\<lambda>exp.
     if exp \<le> iat then raise CapabilityError ''capability expires_at must be after issued_at''
     else if iat - moment > seconds future_issuance_skew_s
     then raise CapabilityError ''capability issued_at is in the future''
     else if moment > exp then raise CapabilityError ''capability expired''
     else Inr ()))"

definition verify_capability ::
  "prims \<Rightarrow> (pyval \<Rightarrow> cap_payload option) \<Rightarrow> pyval \<Rightarrow> trust \<Rightarrow> int \<Rightarrow> cap_payload res" where
  "verify_capability P validate data trusted_issuers moment =
     rbind (except COSEError CapabilityError ''capability COSE verification failed''
       (cose_verify P data trusted_issuers [])) (\<lambda>(raw, _).
     rbind (except CBORError CapabilityError ''capability payload is not valid CBOR''
       (cbor_loads raw)) (\<lambda>raw_map.
     rbind (of_option CapabilityError ''capability payload schema invalid'' (validate raw_map)) (\<lambda>p.
     rbind (check_payload p) (\<lambda>_. rbind (check_window P moment p) (\<lambda>_. Inr p)))))"

section \<open>Minting a child\<close>

record mint_args =
  m_holder :: pyval
  m_spend_limit :: pyval
  m_spend_asset :: pyval
  m_ttl :: "int option"
  m_staleness :: "int option"
  m_now :: "datetime option"

definition or_default :: "pyval \<Rightarrow> pyval \<Rightarrow> pyval" where
  "or_default v d = (if v = PNone then d else v)"

definition child_payload :: "prims \<Rightarrow> fresh \<Rightarrow> mint_args \<Rightarrow> cap_payload \<Rightarrow> cap_payload res" where
  "child_payload P fr a parent =
     require (kind parent = kind_mandate) CapabilityError ''cannot mint child: parent is not a mandate''
     (rbind (if m_holder a = PNone then Inr (holder_pubkey parent) else check_pubkey (m_holder a)) (\<lambda>holder.
      let limit = or_default (m_spend_limit a) (opt_val PInt (spend_limit parent));
          asset = or_default (m_spend_asset a) (opt_val PStr (spend_asset parent)) in
      rbind (check_spend limit asset) (\<lambda>_.
      rbind (case spend_limit parent of
          None \<Rightarrow> Inr ()
        | Some bound \<Rightarrow> (case val_int limit of
            None \<Rightarrow> raise CapabilityError ''attenuation violated: parent spend bound dropped''
          | Some n \<Rightarrow> if bound < n
              then raise CapabilityError ''attenuation violated: child spend_limit > parent''
              else Inr ())) (\<lambda>_.
      require (spend_asset parent \<noteq> None \<longrightarrow> asset = opt_val PStr (spend_asset parent)) CapabilityError
        ''attenuation violated: spend_asset changed''
      (let moment = now_or_clock fr (m_now a) in
       rbind (parse_iso P (expires_at parent)) (\<lambda>parent_expiry.
       rbind (dt_add moment (case m_ttl a of None \<Rightarrow> seconds 900 | Some t \<Rightarrow> t)) (\<lambda>child_expiry.
       if parent_expiry < child_expiry
       then raise CapabilityError ''attenuation violated: child expires_at beyond parent expiry''
       else let staleness = (case m_staleness a of None \<Rightarrow> max_revocation_staleness parent | Some n \<Rightarrow> n) in
         if max_revocation_staleness parent < staleness
         then raise CapabilityError ''attenuation violated: child max_revocation_staleness exceeds parent's''
         else Inr \<lparr>version = capability_version, capability_id = fresh_id fr, kind = kind_execution,
           cap_digest = cap_digest parent, holder_pubkey = holder,
           spend_limit = val_int limit, spend_asset = val_str asset,
           cap_issued_at = isoformat P moment, expires_at = isoformat P child_expiry,
           cap_nonce = fresh_nonce fr, parent_capability_id = Some (capability_id parent),
           max_revocation_staleness = staleness,
           read_key_prefix = None, read_trusted_writers = None, read_min_version = None,
           read_require_statement = False\<rparr>)))))))"

definition mint_child ::
  "prims \<Rightarrow> (pyval \<Rightarrow> cap_payload option) \<Rightarrow> fresh \<Rightarrow> pyval \<Rightarrow> signer \<Rightarrow> trust \<Rightarrow> mint_args \<Rightarrow> bytes res" where
  "mint_child P validate fr parent_cose issuer trusted_issuers a =
     rbind (verify_capability P validate parent_cose trusted_issuers (now_or_clock fr (m_now a))) (\<lambda>parent.
     rbind (child_payload P fr a parent) (\<lambda>child. sign_capability child issuer))"

section \<open>Holder proofs\<close>

fun ascii_encode :: "pystr \<Rightarrow> bytes res" where
  "ascii_encode [] = Inr []"
| "ascii_encode (c # cs) = (if c < 128 then rbind (ascii_encode cs) (\<lambda>bs. Inr (b8 c # bs))
     else raise UnicodeError ''ordinal not in range(128)'')"

definition proof_message :: "pystr \<Rightarrow> bytes \<Rightarrow> bytes res" where
  "proof_message cid challenge = rbind (ascii_encode cid) (\<lambda>b. Inr (b @ challenge))"

definition make_holder_proof :: "signer \<Rightarrow> pystr \<Rightarrow> pyval \<Rightarrow> bytes res" where
  "make_holder_proof holder cid challenge = (case challenge of
     PBytes c \<Rightarrow> (if c = [] then raise CapabilityError ''challenge must be a non-empty byte string''
       else rbind (proof_message cid c) (\<lambda>m. Inr (sign_bytes holder m)))
   | _ \<Rightarrow> raise CapabilityError ''challenge must be a non-empty byte string'')"

definition verify_holder_proof :: "prims \<Rightarrow> bytes \<Rightarrow> pystr \<Rightarrow> bytes \<Rightarrow> pyval \<Rightarrow> unit res" where
  "verify_holder_proof P holder cid challenge pf =
     rbind (check_pubkey (PBytes holder)) (\<lambda>_.
     rbind (get_bytes CapabilityError ''holder proof must be a 64-byte Ed25519 signature'' pf) (\<lambda>sig.
     require (length sig = 64) CapabilityError ''holder proof must be a 64-byte Ed25519 signature''
     (rbind (proof_message cid challenge) (\<lambda>m.
      require (ed_verify P holder sig m) CapabilityError ''holder proof-of-possession failed'' (Inr ())))))"

section \<open>Lemmas\<close>

lemma check_digest_eq [ok_elims]: "check_digest v = Inr d \<longleftrightarrow>
    (\<exists>s. v = PStr s \<and> length s = 64 \<and> from_hex s \<noteq> None \<and> d = ascii_lower s)"
  by (cases v) (auto simp: check_digest_def)

lemma check_pubkey_eq [ok_elims]: "check_pubkey v = Inr b \<longleftrightarrow> v = PBytes b \<and> length b = 32"
  by (cases v) (auto simp: check_pubkey_def)

lemma check_spend_limit_eq: "check_spend_limit v = Inr u \<longleftrightarrow>
    v = PNone \<or> (\<exists>n. v = PInt n \<and> 0 \<le> n)"
  by (cases v) auto

lemma check_spend_asset_eq: "check_spend_asset v = Inr u \<longleftrightarrow>
    v = PNone \<or> (\<exists>s. v = PStr s \<and> s \<noteq> [])"
  by (cases v) auto

lemma check_spend_eq [ok_elims]: "check_spend l a = Inr u \<longleftrightarrow>
    (l = PNone \<and> a = PNone) \<or>
    (\<exists>n. l = PInt n \<and> 0 \<le> n \<and> (a = PNone \<or> (\<exists>s. a = PStr s \<and> s \<noteq> [])))"
  by (auto simp: check_spend_def check_spend_limit_eq check_spend_asset_eq)

lemma opt_val_eq [simp]:
  "opt_val f x = PNone \<longleftrightarrow> x = None \<or> (\<exists>y. x = Some y \<and> f y = PNone)"
  "PNone = opt_val f x \<longleftrightarrow> x = None \<or> (\<exists>y. x = Some y \<and> PNone = f y)"
  by (cases x; auto)+

lemma opt_val_PInt [simp]: "opt_val PInt x = PInt n \<longleftrightarrow> x = Some n"
  by (cases x) auto

lemma opt_val_PStr [simp]: "opt_val PStr x = PStr s \<longleftrightarrow> x = Some s"
  by (cases x) auto

lemma opt_val_inject [simp]:
  "opt_val PInt x = opt_val PInt y \<longleftrightarrow> x = y"
  "opt_val PStr a = opt_val PStr b \<longleftrightarrow> a = b"
  by (cases x; cases y; simp) (cases a; cases b; simp)

lemma val_of_opt [simp]: "val_int (opt_val PInt x) = x" "val_str (opt_val PStr y) = y"
  by (cases x; simp) (cases y; simp)

lemma check_spend_typed: "check_spend (opt_val PInt l) (opt_val PStr a) = Inr u \<longleftrightarrow>
    (\<forall>n. l = Some n \<longrightarrow> 0 \<le> n) \<and> (l = None \<longrightarrow> a = None) \<and> a \<noteq> Some []"
  by (cases l; cases a) (auto simp: check_spend_eq)

lemma check_writers_typed:
  "check_writers (opt_val (\<lambda>ws. PList (map PStr ws)) w) = Inr u \<longleftrightarrow>
     (\<forall>ws. w = Some ws \<longrightarrow> ws \<noteq> [] \<and> [] \<notin> set ws)"
  by (cases w) (auto simp: ok_elims)

lemma check_min_version_typed:
  "check_min_version (opt_val PInt m) = Inr u \<longleftrightarrow> (\<forall>n. m = Some n \<longrightarrow> 0 \<le> n)"
  by (cases m) auto

lemma check_read_caveats_typed:
  "check_read_caveats (opt_val PStr p) (opt_val (\<lambda>ws. PList (map PStr ws)) w) (opt_val PInt m) (PBool r) = Inr u
   \<longleftrightarrow> p \<noteq> None \<and> p \<noteq> Some [] \<and> (\<forall>ws. w = Some ws \<longrightarrow> ws \<noteq> [] \<and> [] \<notin> set ws) \<and>
     (\<forall>n. m = Some n \<longrightarrow> 0 \<le> n) \<and> (w \<noteq> None \<or> r)"
  by (cases p) (auto simp: check_read_caveats_def check_writers_typed check_min_version_typed)

text \<open>A capability that passes the structural checks and the validity window.\<close>

definition well_formed :: "cap_payload \<Rightarrow> bool" where
  "well_formed p \<longleftrightarrow> version p = capability_version \<and> kind p \<in> set kinds \<and>
     length (cap_digest p) = 64 \<and> from_hex (cap_digest p) \<noteq> None \<and> length (holder_pubkey p) = 32 \<and>
     (\<forall>n. spend_limit p = Some n \<longrightarrow> 0 \<le> n) \<and> (spend_limit p = None \<longrightarrow> spend_asset p = None) \<and>
     spend_asset p \<noteq> Some [] \<and> capability_id p \<noteq> [] \<and> cap_nonce p \<noteq> [] \<and>
     0 \<le> max_revocation_staleness p \<and>
     (kind p = kind_read \<longrightarrow> read_key_prefix p \<noteq> None \<and> read_key_prefix p \<noteq> Some [] \<and>
        (\<forall>ws. read_trusted_writers p = Some ws \<longrightarrow> ws \<noteq> [] \<and> [] \<notin> set ws) \<and>
        (\<forall>n. read_min_version p = Some n \<longrightarrow> 0 \<le> n) \<and> (read_trusted_writers p \<noteq> None \<or> read_require_statement p))"

definition in_window :: "prims \<Rightarrow> int \<Rightarrow> cap_payload \<Rightarrow> bool" where
  "in_window P moment p \<longleftrightarrow> (\<exists>iat exp.
     fromisoformat P (cap_issued_at p) = Some iat \<and> fromisoformat P (expires_at p) = Some exp \<and>
     as_utc iat < as_utc exp \<and> as_utc iat \<le> moment + seconds future_issuance_skew_s \<and>
     moment \<le> as_utc exp)"

lemma check_payload_eq: "check_payload p = Inr u \<longleftrightarrow> well_formed p"
  by (auto simp: check_payload_def well_formed_def check_digest_eq check_pubkey_eq
      check_spend_typed check_read_caveats_typed)

lemma parse_iso_eq [ok_elims]: "parse_iso P v = Inr t \<longleftrightarrow>
    (\<exists>d. fromisoformat P v = Some d \<and> t = as_utc d)"
  by (auto simp: parse_iso_def split: option.splits)

lemma check_window_eq: "check_window P moment p = Inr u \<longleftrightarrow> in_window P moment p"
  by (auto simp: check_window_def in_window_def ok_elims)

lemma verify_capability_eq:
  "verify_capability P validate data trusted t = Inr p \<longleftrightarrow>
     (\<exists>m raw kid rm. data = PBytes m \<and> cose_authentic P m trusted [] raw kid
        \<and> cbor_loads raw = Inr rm \<and> validate rm = Some p \<and> well_formed p \<and> in_window P t p)"
  by (auto simp: verify_capability_def cose_verify_eq check_window_eq check_payload_eq)

end
