(* ===== verification/Instances.thy ===== *)
theory Instances
  imports Canonical Cbor_Size
begin

text \<open>
  One concrete choice of the primitives, on which the witnesses evaluate the theorems: a toy
  digest and a toy signature that meet the contracts \<open>prims_ok\<close> and \<open>signer_ok\<close>,
  hexadecimal for base64 and the decimal count of microseconds for ISO-8601.
\<close>

section \<open>Decimal text is read back\<close>

definition digits_value :: "pystr \<Rightarrow> nat" where
  "digits_value s = foldl (\<lambda>a c. a * 10 + (c - 48)) 0 s"

definition text_int :: "pystr \<Rightarrow> int" where
  "text_int s = (case s of c # r \<Rightarrow> if c = 45 then - int (digits_value r) else int (digits_value s)
     | [] \<Rightarrow> 0)"

lemma digits_value_snoc: "digits_value (s @ [c]) = digits_value s * 10 + (c - 48)"
  by (simp add: digits_value_def)

lemma digits_value_nat_text [simp]: "digits_value (nat_text n) = n"
proof (induction n rule: nat_text.induct)
  case (1 n)
  show ?case
  proof (cases "n < 10")
    case True
    then show ?thesis by (simp add: nat_text.simps [of n] digits_value_def)
  next
    case False
    with 1 show ?thesis by (simp add: nat_text.simps [of n] digits_value_snoc)
  qed
qed

lemma nat_text_head: "\<exists>c r. nat_text n = c # r \<and> 48 \<le> c"
proof (induction n rule: nat_text.induct)
  case (1 n)
  then show ?case by (cases "n < 10") (auto simp: nat_text.simps [of n])
qed

lemma text_int_int_text [simp]: "text_int (int_text i) = i"
proof (cases "i < 0")
  case False
  obtain c r where "nat_text (nat i) = c # r" "48 \<le> c" using nat_text_head by blast
  moreover from this have "digits_value (c # r) = nat i" by (metis digits_value_nat_text)
  ultimately show ?thesis using False by (simp add: text_int_def int_text_def)
qed (simp add: text_int_def int_text_def)

lemma int_text_inject [simp]: "int_text i = int_text j \<longleftrightarrow> i = j"
  by (metis text_int_int_text)

lemma text_ok_int_text [simp]: "text_ok (int_text i)"
proof -
  have "text_ok (nat_text n)" for n
    by (induction n rule: nat_text.induct) (subst nat_text.simps, auto)
  then show ?thesis by (simp add: int_text_def)
qed

lemma length_int_text: "length (int_text i) \<le> 2 + nat \<bar>i\<bar>"
proof -
  have "length (nat_text n) \<le> Suc n" for n
    by (induction n rule: nat_text.induct) (subst nat_text.simps, auto)
  from this [of "nat \<bar>i\<bar>"] show ?thesis by (cases "i < 0") (simp_all add: int_text_def)
qed

section \<open>Concrete primitives and signers\<close>

definition toy_digest :: "bytes \<Rightarrow> bytes" where
  "toy_digest b = to_be 32 (length b + 256 * from_be b)"

lemma toy_digest_neq_Nil [simp]: "toy_digest b \<noteq> []"
proof -
  have "length (toy_digest b) = 32" by (simp add: toy_digest_def)
  then show ?thesis by auto
qed

definition toy_signature :: "bytes \<Rightarrow> bytes \<Rightarrow> bytes" where
  "toy_signature pk m = to_be 64 (from_be pk + 257 * from_be m)"

definition toy :: prims where
  "toy = \<lparr>sha256 = toy_digest, ed_verify = (\<lambda>pk sig m. sig = toy_signature pk m),
     b64_encode = to_hex, b64_decode = from_hex, b64_strict = from_hex,
     isoformat = int_text, fromisoformat = (\<lambda>s. Some (Aware (text_int s) 0)),
     float_repr = (\<lambda>x. nat_text (unat x)), dt_json = int_text\<rparr>"

definition toy_signer :: "string \<Rightarrow> byte \<Rightarrow> signer" where
  "toy_signer kid b = \<lparr>key_id = py kid, public_key_bytes = replicate 32 b,
     sign_bytes = toy_signature (replicate 32 b)\<rparr>"

text \<open>The trust set that holds one signer's key.\<close>

definition toy_trust :: "signer \<Rightarrow> bytes \<Rightarrow> bytes option" where
  "toy_trust sg = (\<lambda>kid. if utf8_encode (key_id sg) = Inr kid then Some (public_key_bytes sg) else None)"

lemma toy_sel [simp]:
  "sha256 toy = toy_digest" "b64_decode toy = from_hex" "b64_encode toy = to_hex"
  "b64_strict toy = from_hex" "isoformat toy = int_text" "dt_json toy = int_text"
  "fromisoformat toy s = Some (Aware (text_int s) 0)"
  "ed_verify toy pk sig m = (sig = toy_signature pk m)"
  by (simp_all add: toy_def)

lemma toy_signer_sel [simp]:
  "key_id (toy_signer k b) = py k" "public_key_bytes (toy_signer k b) = replicate 32 b"
  "sign_bytes (toy_signer k b) = toy_signature (replicate 32 b)"
  by (simp_all add: toy_signer_def)

lemma length_toy_signature [simp]: "length (toy_signature pk m) = 64"
  by (simp add: toy_signature_def)

lemma toy_ok [simp]: "prims_ok toy"
  by (simp add: prims_ok_def toy_digest_def)

lemma toy_signer_ok [simp]: "signer_ok toy (toy_signer k b)"
  by (simp add: signer_ok_def)

lemma inj_dt_json_toy [simp]: "inj (dt_json toy)"
  by (simp add: inj_def)

end
