(* ===== verification/Capability.thy ===== *)
theory Capability
  imports Authority Instances
begin

text \<open>
  What the operations of \<^verbatim>\<open>authority.py\<close> guarantee together: an issued capability
  verifies, a minted child attenuates its parent, and a holder proof is accepted. The laws of
  pydantic the module relies on are \<open>pydantic_ok\<close>; \<open>read_cap\<close> is a validator
  that meets them, on which the witnesses run.
\<close>

section \<open>Validation of a decoded payload\<close>

text \<open>Validating what \<^verbatim>\<open>model_dump\<close> wrote gives the model back.\<close>

definition pydantic_ok :: "(pyval \<Rightarrow> cap_payload option) \<Rightarrow> bool" where
  "pydantic_ok validate \<longleftrightarrow> (\<forall>p. validate (nf (payload_dump p)) = Some p)"

fun val_bytes :: "pyval \<Rightarrow> bytes option" where
  "val_bytes (PBytes b) = Some b" | "val_bytes _ = None"

fun val_bool :: "pyval \<Rightarrow> bool option" where
  "val_bool (PBool b) = Some b" | "val_bool _ = None"

definition optional :: "(pyval \<Rightarrow> 'a option) \<Rightarrow> pyval \<Rightarrow> 'a option option" where
  "optional f v = (if v = PNone then Some None else map_option Some (f v))"

definition field :: "(pyval \<times> pyval) list \<Rightarrow> string \<Rightarrow> (pyval \<Rightarrow> 'a option) \<Rightarrow> ('a \<Rightarrow> 'b option) \<Rightarrow> 'b option" where
  "field d k f g = Option.bind (Option.bind (map_of d (PStr (py k))) f) g"

fun read_cap :: "pyval \<Rightarrow> cap_payload option" where
  "read_cap (PDict d) =
     field d ''version'' val_int (\<lambda>ver.
     field d ''capability_id'' val_str (\<lambda>cid.
     field d ''kind'' val_str (\<lambda>k.
     field d ''action_digest'' val_str (\<lambda>digest.
     field d ''holder_pubkey'' val_bytes (\<lambda>holder.
     field d ''spend_limit'' (optional val_int) (\<lambda>limit.
     field d ''spend_asset'' (optional val_str) (\<lambda>asset.
     field d ''issued_at'' val_str (\<lambda>iat.
     field d ''expires_at'' val_str (\<lambda>exp.
     field d ''nonce'' val_str (\<lambda>n.
     field d ''parent_capability_id'' (optional val_str) (\<lambda>parent.
     field d ''max_revocation_staleness'' val_int (\<lambda>staleness.
     field d ''read_key_prefix'' (optional val_str) (\<lambda>prefix.
     field d ''read_trusted_writers'' (optional val_strs) (\<lambda>writers.
     field d ''read_min_version'' (optional val_int) (\<lambda>min_version.
     field d ''read_require_statement'' val_bool (\<lambda>required.
       Some \<lparr>version = ver, capability_id = cid, kind = k, cap_digest = digest,
         holder_pubkey = holder, spend_limit = limit, spend_asset = asset, cap_issued_at = iat,
         expires_at = exp, cap_nonce = n, parent_capability_id = parent,
         max_revocation_staleness = staleness, read_key_prefix = prefix,
         read_trusted_writers = writers, read_min_version = min_version,
         read_require_statement = required\<rparr>))))))))))))))))"
| "read_cap _ = None"

lemma optional_opt_val [simp]:
  "optional val_int (opt_val PInt i) = Some i"
  "optional val_str (opt_val PStr s) = Some s"
  "optional val_strs (opt_val (\<lambda>ws. PList (map PStr ws)) w) = Some w"
proof -
  have "those (map (val_str \<circ> PStr) ws) = Some ws" for ws by (induction ws) auto
  then show "optional val_strs (opt_val (\<lambda>ws. PList (map PStr ws)) w) = Some w"
    by (cases w) (simp_all add: optional_def)
qed (cases i; cases s; simp add: optional_def)+

lemma nf_opt_val [simp]:
  "nf (opt_val PInt i) = opt_val PInt i"
  "nf (opt_val PStr s) = opt_val PStr s"
  "nf (opt_val (\<lambda>ws. PList (map PStr ws)) w) = opt_val (\<lambda>ws. PList (map PStr ws)) w"
  by (cases i, simp_all) (cases s, simp_all, cases w, simp_all add: nf_items_map)

lemma map_of_sort_key: "distinct (map fst d) \<Longrightarrow> map_of (sort_key f d) = map_of d"
  by (subst map_of_inject_set) (simp_all add: distinct_map)

lemma nf_map:
  assumes "distinct (map fst e)" shows "\<exists>d. nf (PDict e) = PDict d \<and> map_of d = map_of (nf_pairs e)"
proof -
  have "map fst (nf_pairs e) = map fst e" by (induction e) auto
  with assms show ?thesis by (simp add: map_of_sort_key)
qed

lemma read_cap_ok: "pydantic_ok read_cap"
proof -
  have "read_cap (nf (payload_dump p)) = Some p" for p
  proof -
    let ?e = "THE e. payload_dump p = PDict e"
    have e: "payload_dump p = PDict ?e" by (simp add: payload_dump_def)
    have "distinct (map fst ?e)" by (simp add: payload_dump_def)
    then obtain d where d: "nf (PDict ?e) = PDict d" "map_of d = map_of (nf_pairs ?e)"
      using nf_map by blast
    have "read_cap (PDict d) = Some p"
      by (simp add: field_def d(2)) (simp add: payload_dump_def)
    then show ?thesis using e d(1) by simp
  qed
  then show ?thesis by (simp add: pydantic_ok_def)
qed


section \<open>Signing and reading back\<close>

lemma plain_payload: "cbor_plain (payload_dump p)"
proof -
  have "plain (Suc (Suc (Suc d))) (opt_val PInt i)" for d i by (cases i) auto
  moreover have "plain (Suc (Suc (Suc d))) (opt_val PStr s)" for d s by (cases s) auto
  moreover have "plain (Suc (Suc (Suc d))) (opt_val (\<lambda>ws. PList (map PStr ws)) w)" for d w
    by (cases w) (auto simp: list_all_iff)
  ultimately show ?thesis
    by (simp add: payload_dump_def uniform_keys_def max_recursion_depth_def numeral_eq_Suc)
qed

text \<open>The text fields of a payload can be encoded and its numbers fit 64 bits.\<close>

definition cap_small :: "cap_payload \<Rightarrow> bool" where
  "cap_small p \<longleftrightarrow> encodable (payload_dump p) \<and> enc_size (payload_dump p) < 2 ^ 60"

lemma sign_capability_total:
  assumes "cap_small p" "signer_ok P issuer" "utf8_encode (key_id issuer) = Inr kid" "length kid < 2 ^ 60"
  shows "\<exists>m. sign_capability p issuer = Inr m"
proof -
  obtain b where b: "payload_bytes p = Inr b" "length b < 2 ^ 60"
    using cbor_dumps_total [of "payload_dump p"] assms(1) by (auto simp: cap_small_def payload_bytes_def)
  then show ?thesis
    using cose_sign_total [of "sign_bytes issuer" kid "[]" b] assms(2-)
    by (simp add: sign_capability_def signer_ok_def)
qed

lemma verify_sign_capability:
  assumes "signer_ok P issuer" "pydantic_ok validate"
    and kid: "utf8_encode (key_id issuer) = Inr kid" "trusted kid = Some (public_key_bytes issuer)"
    and sign: "sign_capability p issuer = Inr m"
  shows "verify_capability P validate (PBytes m) trusted t = Inr q \<longleftrightarrow>
    q = p \<and> well_formed p \<and> in_window P t p"
proof -
  from sign kid obtain b where b: "cbor_dumps (payload_dump p) = Inr b"
    and m: "cose_sign_bytes b (sign_bytes issuer) kid [] = Inr m"
    by (auto simp: sign_capability_def payload_bytes_def)
  have "cose_verify P (PBytes m) trusted [] = Inr (b, kid)"
    using assms(1) kid(2) m by (intro cose_verify_sign) (auto simp: signer_ok_def)
  then show ?thesis
    using cbor_loads_dumps [OF plain_payload b] assms(2)
    by (auto simp: verify_capability_def pydantic_ok_def check_window_eq check_payload_eq)
qed

section \<open>Attenuation\<close>

text \<open>\<open>attenuates P c p\<close>: in every dimension \<open>c\<close> is within \<open>p\<close>.\<close>

definition expiry_le :: "prims \<Rightarrow> pystr \<Rightarrow> pystr \<Rightarrow> bool" where
  "expiry_le P a b \<longleftrightarrow> (case (fromisoformat P a, fromisoformat P b) of
     (Some x, Some y) \<Rightarrow> as_utc x \<le> as_utc y | _ \<Rightarrow> False)"

definition attenuates :: "prims \<Rightarrow> cap_payload \<Rightarrow> cap_payload \<Rightarrow> bool" where
  "attenuates P c p \<longleftrightarrow> cap_digest c = cap_digest p \<and>
     (\<forall>bound. spend_limit p = Some bound \<longrightarrow> (\<exists>n. spend_limit c = Some n \<and> n \<le> bound)) \<and>
     (spend_asset p \<noteq> None \<longrightarrow> spend_asset c = spend_asset p) \<and>
     expiry_le P (expires_at c) (expires_at p) \<and>
     max_revocation_staleness c \<le> max_revocation_staleness p"

lemma attenuates_trans: "attenuates P a b \<Longrightarrow> attenuates P b c \<Longrightarrow> attenuates P a c"
  by (fastforce simp: attenuates_def expiry_le_def split: option.splits)

lemma child_payload_elim:
  assumes "child_payload P fr a parent = Inr c"
  obtains holder limit asset expiry bound staleness where
    "kind parent = kind_mandate" "m_holder a = PNone \<Longrightarrow> holder = holder_pubkey parent"
    "m_holder a \<noteq> PNone \<Longrightarrow> m_holder a = PBytes holder \<and> length holder = 32"
    "limit = or_default (m_spend_limit a) (opt_val PInt (spend_limit parent))"
    "asset = or_default (m_spend_asset a) (opt_val PStr (spend_asset parent))"
    "check_spend limit asset = Inr ()"
    "\<And>n. spend_limit parent = Some n \<Longrightarrow> \<exists>k. val_int limit = Some k \<and> k \<le> n"
    "spend_asset parent \<noteq> None \<longrightarrow> asset = opt_val PStr (spend_asset parent)"
    "parse_iso P (expires_at parent) = Inr bound" "expiry \<le> bound"
    "staleness \<le> max_revocation_staleness parent"
    "c = \<lparr>version = capability_version, capability_id = fresh_id fr, kind = kind_execution,
       cap_digest = cap_digest parent, holder_pubkey = holder,
       spend_limit = val_int limit, spend_asset = val_str asset,
       cap_issued_at = isoformat P (now_or_clock fr (m_now a)), expires_at = isoformat P expiry,
       cap_nonce = fresh_nonce fr, parent_capability_id = Some (capability_id parent),
       max_revocation_staleness = staleness, read_key_prefix = None, read_trusted_writers = None,
       read_min_version = None, read_require_statement = False\<rparr>"
proof -
  let ?limit = "or_default (m_spend_limit a) (opt_val PInt (spend_limit parent))"
  let ?asset = "or_default (m_spend_asset a) (opt_val PStr (spend_asset parent))"
  from assms obtain holder bound expiry where k: "kind parent = kind_mandate"
    and h: "(if m_holder a = PNone then Inr (holder_pubkey parent) else check_pubkey (m_holder a)) = Inr holder"
    and sp: "check_spend ?limit ?asset = Inr ()"
    and lim: "(case spend_limit parent of None \<Rightarrow> Inr () | Some bound \<Rightarrow> (case val_int ?limit of
        None \<Rightarrow> raise CapabilityError ''attenuation violated: parent spend bound dropped''
      | Some n \<Rightarrow> if bound < n then raise CapabilityError ''attenuation violated: child spend_limit > parent''
          else Inr ())) = Inr ()"
    and ass: "spend_asset parent \<noteq> None \<longrightarrow> ?asset = opt_val PStr (spend_asset parent)"
    and pe: "parse_iso P (expires_at parent) = Inr bound" "\<not> bound < expiry"
    and st: "\<not> max_revocation_staleness parent <
      (case m_staleness a of None \<Rightarrow> max_revocation_staleness parent | Some n \<Rightarrow> n)"
    and c: "c = \<lparr>version = capability_version, capability_id = fresh_id fr, kind = kind_execution,
       cap_digest = cap_digest parent, holder_pubkey = holder,
       spend_limit = val_int ?limit, spend_asset = val_str ?asset,
       cap_issued_at = isoformat P (now_or_clock fr (m_now a)), expires_at = isoformat P expiry,
       cap_nonce = fresh_nonce fr, parent_capability_id = Some (capability_id parent),
       max_revocation_staleness =
         (case m_staleness a of None \<Rightarrow> max_revocation_staleness parent | Some n \<Rightarrow> n),
       read_key_prefix = None, read_trusted_writers = None,
       read_min_version = None, read_require_statement = False\<rparr>"
    unfolding child_payload_def Let_def require_eq_Inr rbind_eq_Inr if_raise_eq_Inr by auto
  have l: "\<exists>k. val_int ?limit = Some k \<and> k \<le> n" if "spend_limit parent = Some n" for n
    using lim that by (auto split: option.splits if_splits)
  have h': "m_holder a = PNone \<Longrightarrow> holder = holder_pubkey parent"
    "m_holder a \<noteq> PNone \<Longrightarrow> m_holder a = PBytes holder \<and> length holder = 32"
    using h by (auto simp: check_pubkey_eq)
  have e: "expiry \<le> bound" "(case m_staleness a of None \<Rightarrow> max_revocation_staleness parent | Some n \<Rightarrow> n)
      \<le> max_revocation_staleness parent"
    using pe(2) st by simp_all
  show ?thesis by (rule that [OF k h' refl refl sp l ass pe(1) e c])
qed

lemma child_payload_facts:
  assumes "prims_ok P" "child_payload P fr a parent = Inr c"
  shows "kind parent = kind_mandate" "kind c = kind_execution" "attenuates P c parent"
    "parent_capability_id c = Some (capability_id parent)" "capability_id c = fresh_id fr"
proof -
  show "kind parent = kind_mandate" "kind c = kind_execution"
    "parent_capability_id c = Some (capability_id parent)" "capability_id c = fresh_id fr"
    by (rule child_payload_elim [OF assms(2)]; simp)+
  show "attenuates P c parent"
  proof (rule child_payload_elim [OF assms(2)])
  qed (auto simp: attenuates_def expiry_le_def parse_iso_eq assms(1) [unfolded prims_ok_def])
qed


text \<open>Whatever a minted child verifies as, its parent verified and bounds it.\<close>

lemma mint_child_facts:
  assumes "prims_ok P" "signer_ok P issuer" "pydantic_ok validate"
    and "utf8_encode (key_id issuer) = Inr kid" "trusted kid = Some (public_key_bytes issuer)"
    and mint: "mint_child P validate fr parent_cose issuer trusted a = Inr m"
    and verify: "verify_capability P validate (PBytes m) trusted t = Inr c"
  shows "\<exists>parent. verify_capability P validate parent_cose trusted (now_or_clock fr (m_now a)) = Inr parent
    \<and> child_payload P fr a parent = Inr c"
proof -
  from mint obtain parent child where
    "verify_capability P validate parent_cose trusted (now_or_clock fr (m_now a)) = Inr parent"
    and "child_payload P fr a parent = Inr child" and sign: "sign_capability child issuer = Inr m"
    by (auto simp: mint_child_def)
  with verify_sign_capability [where trusted = trusted and P = P, OF assms(2-5) sign] verify
  show ?thesis by auto
qed

section \<open>Issuance\<close>

lemma hex_value_lower [simp]:
  "hex_value (if 65 \<le> c \<and> c \<le> 90 then c + 32 else c) = hex_value c"
  by (auto simp: hex_value_def)

lemma is_ascii_space_lower [simp]:
  "is_ascii_space (if 65 \<le> c \<and> c \<le> 90 then c + 32 else c) = is_ascii_space c"
  by (auto simp: is_ascii_space_def)

lemma from_hex_lower [simp]: "from_hex (ascii_lower s) = from_hex s"
  by (induction s rule: from_hex.induct)
    (simp_all add: ascii_lower_def del: split_paired_All split: option.splits)

lemma val_strs_ok:
  "check_writers w = Inr u \<Longrightarrow> w = PNone \<and> val_strs w = None \<or>
     (\<exists>ws. val_strs w = Some ws \<and> ws \<noteq> [] \<and> [] \<notin> set ws \<and> w = PList (map PStr ws))"
proof (cases w)
  case (PList vs)
  assume "check_writers w = Inr u"
  with PList have ne: "vs \<noteq> []" and ok: "\<forall>v \<in> set vs. check_writer v = Inr ()" by auto
  from ok have "\<exists>ws. those (map val_str vs) = Some ws \<and> [] \<notin> set ws \<and> vs = map PStr ws"
  proof (induction vs)
    case (Cons v vs)
    then show ?case by (cases v) auto
  qed simp
  with ne PList show ?thesis by auto
qed simp_all

lemma check_spend_typed_val:
  "check_spend l a = Inr u \<Longrightarrow> (\<forall>n. val_int l = Some n \<longrightarrow> 0 \<le> n) \<and>
     (val_int l = None \<longrightarrow> val_str a = None) \<and> val_str a \<noteq> Some []"
  by (auto simp: check_spend_eq)

text \<open>What is issued is well formed, for non-empty random ids.\<close>

lemma issue_payload_elim:
  assumes "issue_payload P fr a = Inr p"
  obtains digest holder staleness expiry where "i_kind a \<in> set kinds" "check_digest (i_digest a) = Inr digest"
    "check_pubkey (i_holder a) = Inr holder" "check_spend (i_spend_limit a) (i_spend_asset a) = Inr ()"
    "val_int (i_staleness a) = Some staleness" "0 \<le> staleness"
    "i_kind a = kind_read \<Longrightarrow>
       check_read_caveats (i_prefix a) (i_writers a) (i_min_version a) (i_require_statement a) = Inr ()"
    "expiry = now_or_clock fr (i_now a) + i_ttl a"
    "p = \<lparr>version = capability_version, capability_id = fresh_id fr, kind = i_kind a,
           cap_digest = digest, holder_pubkey = holder,
           spend_limit = val_int (i_spend_limit a), spend_asset = val_str (i_spend_asset a),
           cap_issued_at = isoformat P (now_or_clock fr (i_now a)), expires_at = isoformat P expiry,
           cap_nonce = fresh_nonce fr, parent_capability_id = i_parent a,
           max_revocation_staleness = staleness,
           read_key_prefix = (if i_kind a = kind_read then val_str (i_prefix a) else None),
           read_trusted_writers = (if i_kind a = kind_read then val_strs (i_writers a) else None),
           read_min_version = (if i_kind a = kind_read then val_int (i_min_version a) else None),
           read_require_statement = (i_kind a = kind_read \<and> i_require_statement a = PBool True)\<rparr>"
proof -
  from assms have k: "i_kind a \<in> set kinds"
    unfolding issue_payload_def by simp
  from assms obtain digest holder staleness u u' expiry where d: "check_digest (i_digest a) = Inr digest"
    and h: "check_pubkey (i_holder a) = Inr holder"
    and sp: "check_spend (i_spend_limit a) (i_spend_asset a) = Inr u'"
    and st: "(case val_int (i_staleness a) of
          Some n \<Rightarrow> (if n < 0 then raise CapabilityError ''max_revocation_staleness must be an int >= 0''
            else Inr n)
        | None \<Rightarrow> raise CapabilityError ''max_revocation_staleness must be an int >= 0'') = Inr staleness"
    and rc: "(if i_kind a = kind_read
          then check_read_caveats (i_prefix a) (i_writers a) (i_min_version a) (i_require_statement a)
          else if list_ex (\<lambda>v. v \<noteq> PNone \<and> v \<noteq> PBool False) [i_prefix a, i_writers a, i_min_version a]
              \<or> truthy (i_require_statement a)
          then raise CapabilityError ''read caveats are only valid for kind read''
          else Inr ()) = Inr u"
    and ex: "dt_add (now_or_clock fr (i_now a)) (i_ttl a) = Inr expiry"
    and p: "\<lparr>version = capability_version, capability_id = fresh_id fr, kind = i_kind a,
           cap_digest = digest, holder_pubkey = holder,
           spend_limit = val_int (i_spend_limit a), spend_asset = val_str (i_spend_asset a),
           cap_issued_at = isoformat P (now_or_clock fr (i_now a)), expires_at = isoformat P expiry,
           cap_nonce = fresh_nonce fr, parent_capability_id = i_parent a,
           max_revocation_staleness = staleness,
           read_key_prefix = (if i_kind a = kind_read then val_str (i_prefix a) else None),
           read_trusted_writers = (if i_kind a = kind_read then val_strs (i_writers a) else None),
           read_min_version = (if i_kind a = kind_read then val_int (i_min_version a) else None),
           read_require_statement = (i_kind a = kind_read \<and> i_require_statement a = PBool True)\<rparr> = p"
    unfolding issue_payload_def Let_def require_eq_Inr rbind_eq_Inr sum.inject by blast
  from st have st': "val_int (i_staleness a) = Some staleness" "0 \<le> staleness"
    by (auto split: option.splits if_splits)
  have rc': "check_read_caveats (i_prefix a) (i_writers a) (i_min_version a) (i_require_statement a)
      = Inr ()" if "i_kind a = kind_read"
    using rc that by simp
  show ?thesis
    by (rule that [OF k d h _ st' rc' dt_add_eq_Inr [OF ex] p [symmetric]]) (use sp in simp_all)
qed

lemma read_caveats_val:
  assumes "check_read_caveats prefix writers min_version required = Inr u"
  shows "val_str prefix \<noteq> None" "val_str prefix \<noteq> Some []"
    "val_strs writers = Some ws \<Longrightarrow> ws \<noteq> [] \<and> [] \<notin> set ws"
    "val_int min_version = Some n \<Longrightarrow> 0 \<le> n"
    "val_strs writers \<noteq> None \<or> required = PBool True"
proof -
  from assms obtain s where s: "prefix = PStr s" "s \<noteq> []" and w: "check_writers writers = Inr ()"
    and m: "check_min_version min_version = Inr ()" and b: "\<exists>b. required = PBool b"
    and some: "\<not> (writers = PNone \<and> required = PBool False)"
    by (auto simp: check_read_caveats_def split: pyval.splits)
  from s show "val_str prefix \<noteq> None" "val_str prefix \<noteq> Some []" by simp_all
  from val_strs_ok [OF w] show "val_strs writers = Some ws \<Longrightarrow> ws \<noteq> [] \<and> [] \<notin> set ws" by auto
  from m show "val_int min_version = Some n \<Longrightarrow> 0 \<le> n" by (cases min_version) auto
  from val_strs_ok [OF w] some b show "val_strs writers \<noteq> None \<or> required = PBool True" by auto
qed

lemma issue_payload_well_formed:
  assumes "issue_payload P fr a = Inr p" "fresh_id fr \<noteq> []" "fresh_nonce fr \<noteq> []"
  shows "well_formed p"
proof (rule issue_payload_elim [OF assms(1)])
  fix digest holder staleness expiry
  assume a: "i_kind a \<in> set kinds" "check_digest (i_digest a) = Inr digest"
    "check_pubkey (i_holder a) = Inr holder" "check_spend (i_spend_limit a) (i_spend_asset a) = Inr ()"
    "0 \<le> staleness"
    and rc: "i_kind a = kind_read \<Longrightarrow>
       check_read_caveats (i_prefix a) (i_writers a) (i_min_version a) (i_require_statement a) = Inr ()"
    and p: "p = \<lparr>version = capability_version, capability_id = fresh_id fr, kind = i_kind a,
           cap_digest = digest, holder_pubkey = holder,
           spend_limit = val_int (i_spend_limit a), spend_asset = val_str (i_spend_asset a),
           cap_issued_at = isoformat P (now_or_clock fr (i_now a)), expires_at = isoformat P expiry,
           cap_nonce = fresh_nonce fr, parent_capability_id = i_parent a,
           max_revocation_staleness = staleness,
           read_key_prefix = (if i_kind a = kind_read then val_str (i_prefix a) else None),
           read_trusted_writers = (if i_kind a = kind_read then val_strs (i_writers a) else None),
           read_min_version = (if i_kind a = kind_read then val_int (i_min_version a) else None),
           read_require_statement = (i_kind a = kind_read \<and> i_require_statement a = PBool True)\<rparr>"
  from a(2) have "length digest = 64" "from_hex digest \<noteq> None"
    by (auto simp: check_digest_eq) (simp add: ascii_lower_def)
  then show ?thesis
    using a assms(2,3) check_spend_typed_val [OF a(4)] read_caveats_val [OF rc]
    by (simp add: p well_formed_def check_pubkey_eq)
qed

lemma issue_payload_kind: "issue_payload P fr a = Inr p \<Longrightarrow> kind p = i_kind a"
  by (erule issue_payload_elim) simp

lemma verify_issued:
  assumes "prims_ok P" "signer_ok P issuer" "pydantic_ok validate"
    and "utf8_encode (key_id issuer) = Inr kid" "trusted kid = Some (public_key_bytes issuer)"
    and issue: "issue P fr issuer a = Inr m" and fresh: "fresh_id fr \<noteq> []" "fresh_nonce fr \<noteq> []"
    and window: "0 < i_ttl a" "now_or_clock fr (i_now a) \<le> t + seconds future_issuance_skew_s"
      "t \<le> now_or_clock fr (i_now a) + i_ttl a"
  shows "\<exists>p. issue_payload P fr a = Inr p \<and> verify_capability P validate (PBytes m) trusted t = Inr p"
proof -
  from issue obtain p where p: "issue_payload P fr a = Inr p" and m: "sign_capability p issuer = Inr m"
    by (auto simp: issue_def)
  have "in_window P t p"
    by (rule issue_payload_elim [OF p]) (use assms(1) window in \<open>simp add: in_window_def prims_ok_def\<close>)
  with issue_payload_well_formed [OF p fresh] p
    verify_sign_capability [where trusted = trusted and P = P, OF assms(2-5) m]
  show ?thesis by blast
qed

section \<open>Holder proofs\<close>

lemma ascii_encode_inject: "ascii_encode s = Inr b \<Longrightarrow> ascii_encode t = Inr b \<Longrightarrow> s = t"
proof (induction s arbitrary: t b)
  case Nil
  then show ?case by (cases t) (auto split: if_splits)
next
  case (Cons c cs)
  then show ?case by (cases t) (auto simp: b8_eq_iff split: if_splits)
qed

lemma length_ascii_encode: "ascii_encode s = Inr b \<Longrightarrow> length b = length s"
  by (induction s arbitrary: b) (auto split: if_splits)

lemma verify_holder_proof_eq:
  "verify_holder_proof P holder cid challenge pf = Inr u \<longleftrightarrow> length holder = 32 \<and>
     (\<exists>sig m. pf = PBytes sig \<and> length sig = 64 \<and> proof_message cid challenge = Inr m \<and>
        ed_verify P holder sig m)"
  by (auto simp: verify_holder_proof_def check_pubkey_eq)

lemma proof_message_inject:
  assumes "proof_message c x = Inr m" "proof_message d y = Inr m" "length c = length d"
  shows "c = d \<and> x = y"
proof -
  from assms(1,2) obtain a b where ab: "ascii_encode c = Inr a" "ascii_encode d = Inr b" "a @ x = b @ y"
    by (auto simp: proof_message_def)
  with assms(3) length_ascii_encode have "length a = length b" by metis
  with ab ascii_encode_inject show ?thesis by auto
qed


section \<open>A concrete issuer, mandate and child\<close>

definition demo_issuer :: signer where
  "demo_issuer = toy_signer ''issuer'' 7"

definition demo_fresh :: fresh where
  "demo_fresh = \<lparr>clock = 0, fresh_id = py ''cap-1'', fresh_nonce = py ''nonce-1''\<rparr>"

definition demo_args :: "pystr \<Rightarrow> issue_args" where
  "demo_args k = plain_args k (PStr (to_hex (replicate 32 17))) (PBytes (replicate 32 9))
     (PInt 100) (PStr (py ''USD'')) (seconds 3600) (PInt 300) (Some (Aware 0 0))"

definition demo_mint :: mint_args where
  "demo_mint = \<lparr>m_holder = PNone, m_spend_limit = PInt 40, m_spend_asset = PNone,
     m_ttl = Some (seconds 600), m_staleness = Some 60, m_now = Some (Aware (seconds 5) 0)\<rparr>"

definition demo_payload :: "pystr \<Rightarrow> cap_payload" where
  "demo_payload k = \<lparr>version = 1, capability_id = py ''cap-1'', kind = k,
     cap_digest = to_hex (replicate 32 17), holder_pubkey = replicate 32 9, spend_limit = Some 100,
     spend_asset = Some (py ''USD''), cap_issued_at = int_text 0, expires_at = int_text (seconds 3600),
     cap_nonce = py ''nonce-1'', parent_capability_id = None, max_revocation_staleness = 300,
     read_key_prefix = None, read_trusted_writers = None, read_min_version = None,
     read_require_statement = False\<rparr>"

definition demo_child :: cap_payload where
  "demo_child = (demo_payload kind_execution)\<lparr>spend_limit := Some 40, cap_issued_at := int_text (seconds 5),
     expires_at := int_text (seconds 605), parent_capability_id := Some (py ''cap-1''),
     max_revocation_staleness := 60\<rparr>"

lemma demo_issuer_simps [simp]:
  "signer_ok toy demo_issuer" "key_id demo_issuer = py ''issuer''"
  "public_key_bytes demo_issuer = replicate 32 7"
  by (simp_all add: demo_issuer_def)

lemma demo_kid: "\<exists>kid. utf8_encode (py ''issuer'') = Inr kid \<and> length kid < 2 ^ 60 \<and>
    toy_trust demo_issuer kid = Some (public_key_bytes demo_issuer)"
  using utf8_encode_total [of "py ''issuer''"] by (force simp: toy_trust_def)

lemma from_hex_demo: "from_hex (to_hex (replicate 32 17)) = Some (replicate 32 17)"
  by simp

lemma ascii_lower_to_hex [simp]: "ascii_lower (to_hex b) = to_hex b"
proof (induction b)
  case (Cons b bs)
  have "unat b div 16 < 16" using unat_byte_lt [of b] by linarith
  then show ?case using Cons by (auto simp: ascii_lower_def hex_digit_def)
qed (simp add: ascii_lower_def)

lemma demo_issue: "k \<in> {kind_mandate, kind_execution} \<Longrightarrow>
    issue_payload toy demo_fresh (demo_args k) = Inr (demo_payload k)"
  by (auto simp: issue_payload_def demo_args_def plain_args_def demo_fresh_def demo_payload_def kinds_def
      check_digest_def check_pubkey_def check_spend_def now_or_clock_def dt_add_def capability_version_def
      simp del: to_hex.simps)

lemma demo_child_payload:
  "child_payload toy demo_fresh demo_mint (demo_payload kind_mandate) = Inr demo_child"
  by (simp add: child_payload_def demo_mint_def demo_fresh_def demo_child_def demo_payload_def
      or_default_def check_spend_def now_or_clock_def parse_iso_def dt_add_def capability_version_def
      del: to_hex.simps)

lemma demo_small: "cap_small (demo_payload kind_mandate)" "cap_small (demo_payload kind_execution)"
    "cap_small demo_child"
  using length_int_text [of 0] length_int_text [of 3600000000] length_int_text [of 5000000]
    length_int_text [of 605000000]
  by (simp_all add: cap_small_def demo_child_def demo_payload_def payload_dump_def
      kind_mandate_def kind_execution_def del: to_hex.simps)

lemma demo_signed: "cap_small p \<Longrightarrow> \<exists>m. sign_capability p demo_issuer = Inr m"
  using demo_kid sign_capability_total [of p toy demo_issuer] by auto

lemma demo_verify:
  assumes "sign_capability p demo_issuer = Inr m"
  shows "verify_capability toy read_cap (PBytes m) (toy_trust demo_issuer) t = Inr q \<longleftrightarrow>
    q = p \<and> well_formed p \<and> in_window toy t p"
proof -
  obtain kid where "utf8_encode (key_id demo_issuer) = Inr kid"
    "toy_trust demo_issuer kid = Some (public_key_bytes demo_issuer)"
    using demo_kid by auto
  from verify_sign_capability [where trusted = "toy_trust demo_issuer", OF demo_issuer_simps(1) read_cap_ok this assms] show ?thesis .
qed

lemma demo_window: "0 \<le> t \<Longrightarrow> t \<le> 3600000000 \<Longrightarrow> in_window toy t (demo_payload k)"
    "0 \<le> t \<Longrightarrow> t \<le> 605000000 \<Longrightarrow> in_window toy t demo_child"
  by (simp_all add: in_window_def demo_payload_def demo_child_def future_issuance_skew_s_def)

lemma demo_well_formed: "well_formed (demo_payload kind_mandate)" "well_formed (demo_payload kind_execution)"
    "well_formed demo_child"
  by (simp_all add: well_formed_def demo_payload_def demo_child_def capability_version_def kinds_def
      del: to_hex.simps)

section \<open>Properties\<close>

text \<open>C35: a capability issued with non-empty random ids verifies, under a trust set that holds
  the issuer's key, to exactly the payload that was issued, at every moment of its validity
  window (with the leeway for a clock that is behind).\<close>

theorem issued_capability_verifies:
  assumes "prims_ok P" "signer_ok P issuer" "pydantic_ok validate"
    and "utf8_encode (key_id issuer) = Inr kid" "trusted kid = Some (public_key_bytes issuer)"
    and "issue P fr issuer a = Inr m" and "fresh_id fr \<noteq> []" "fresh_nonce fr \<noteq> []"
    and "0 < i_ttl a" "now_or_clock fr (i_now a) \<le> t + seconds future_issuance_skew_s"
    and "t \<le> now_or_clock fr (i_now a) + i_ttl a"
  shows "\<exists>p. issue_payload P fr a = Inr p \<and> kind p = i_kind a \<and>
    verify_capability P validate (PBytes m) trusted t = Inr p"
  using verify_issued [where trusted = trusted, OF assms]
  by (auto simp: issue_payload_kind)

theorem issued_capability_verifies_witness:
  "\<exists>m p. issue_mandate toy demo_fresh demo_issuer (PStr (to_hex (replicate 32 17)))
       (PBytes (replicate 32 9)) (PInt 100) (PStr (py ''USD'')) (seconds 3600) (PInt 300)
       (Some (Aware 0 0)) = Inr m \<and>
     verify_capability toy read_cap (PBytes m) (toy_trust demo_issuer) (seconds 60) = Inr p \<and>
     kind p = kind_mandate"
proof -
  obtain m where m: "sign_capability (demo_payload kind_mandate) demo_issuer = Inr m"
    using demo_signed demo_small by blast
  then have i: "issue toy demo_fresh demo_issuer (demo_args kind_mandate) = Inr m"
    by (simp add: issue_def demo_issue)
  obtain kid where kid: "utf8_encode (key_id demo_issuer) = Inr kid"
    "toy_trust demo_issuer kid = Some (public_key_bytes demo_issuer)" using demo_kid by auto
  from issued_capability_verifies [where trusted = "toy_trust demo_issuer", OF toy_ok demo_issuer_simps(1) read_cap_ok kid i, of "seconds 60"] i
  show ?thesis
    by (auto simp: issue_mandate_def demo_args_def plain_args_def demo_fresh_def now_or_clock_def
        future_issuance_skew_s_def simp del: to_hex.simps)
qed

text \<open>C14: minting only attenuates. Whatever payload a minted child verifies as, its parent
  verified as a mandate at minting time, the child is a one-use execution capability that
  records its parent, and its action digest, spend bound and asset, expiry and revocation
  staleness are all within the parent's.\<close>

theorem minted_child_attenuates:
  assumes "prims_ok P" "signer_ok P issuer" "pydantic_ok validate"
    and "utf8_encode (key_id issuer) = Inr kid" "trusted kid = Some (public_key_bytes issuer)"
    and "mint_child P validate fr parent_cose issuer trusted a = Inr m"
    and "verify_capability P validate (PBytes m) trusted t = Inr c"
  shows "\<exists>parent. verify_capability P validate parent_cose trusted (now_or_clock fr (m_now a)) = Inr parent
    \<and> kind parent = kind_mandate \<and> kind c = kind_execution \<and> attenuates P c parent
    \<and> parent_capability_id c = Some (capability_id parent)"
  using mint_child_facts [where trusted = trusted, OF assms] child_payload_facts [OF assms(1)] by blast

theorem minted_child_attenuates_witness:
  "\<exists>pm m. sign_capability (demo_payload kind_mandate) demo_issuer = Inr pm \<and>
     mint_child toy read_cap demo_fresh (PBytes pm) demo_issuer (toy_trust demo_issuer) demo_mint = Inr m \<and>
     verify_capability toy read_cap (PBytes m) (toy_trust demo_issuer) (seconds 60) = Inr demo_child \<and>
     attenuates toy demo_child (demo_payload kind_mandate)"
proof -
  obtain pm m where pm: "sign_capability (demo_payload kind_mandate) demo_issuer = Inr pm"
    and m: "sign_capability demo_child demo_issuer = Inr m"
    using demo_signed demo_small by blast
  obtain kid where kid: "utf8_encode (key_id demo_issuer) = Inr kid"
    "toy_trust demo_issuer kid = Some (public_key_bytes demo_issuer)" using demo_kid by auto
  have vp: "verify_capability toy read_cap (PBytes pm) (toy_trust demo_issuer)
      (now_or_clock demo_fresh (m_now demo_mint)) = Inr (demo_payload kind_mandate)"
    using pm demo_well_formed demo_window by (simp add: demo_verify demo_mint_def now_or_clock_def)
  then have mint: "mint_child toy read_cap demo_fresh (PBytes pm) demo_issuer (toy_trust demo_issuer)
      demo_mint = Inr m"
    using m by (simp add: mint_child_def demo_child_payload)
  have vc: "verify_capability toy read_cap (PBytes m) (toy_trust demo_issuer) (seconds 60) = Inr demo_child"
    using m demo_well_formed demo_window by (simp add: demo_verify)
  from minted_child_attenuates [where trusted = "toy_trust demo_issuer", OF toy_ok demo_issuer_simps(1) read_cap_ok kid mint vc] pm mint vc vp
  show ?thesis by auto
qed

text \<open>An execution or read capability cannot delegate: minting a child from a parent that
  verifies as anything but a mandate raises, whatever is asked for.\<close>

theorem only_mandates_delegate:
  assumes "verify_capability P validate parent_cose trusted (now_or_clock fr (m_now a)) = Inr parent"
    and "kind parent \<noteq> kind_mandate"
  shows "mint_child P validate fr parent_cose issuer trusted a =
    raise CapabilityError ''cannot mint child: parent is not a mandate''"
  using assms by (simp add: mint_child_def child_payload_def)

theorem only_mandates_delegate_witness:
  "\<exists>pm. sign_capability (demo_payload kind_execution) demo_issuer = Inr pm \<and>
     mint_child toy read_cap demo_fresh (PBytes pm) demo_issuer (toy_trust demo_issuer) demo_mint =
     raise CapabilityError ''cannot mint child: parent is not a mandate''"
proof -
  obtain pm where pm: "sign_capability (demo_payload kind_execution) demo_issuer = Inr pm"
    using demo_signed demo_small by blast
  have "verify_capability toy read_cap (PBytes pm) (toy_trust demo_issuer)
      (now_or_clock demo_fresh (m_now demo_mint)) = Inr (demo_payload kind_execution)"
    using pm demo_well_formed demo_window by (simp add: demo_verify demo_mint_def now_or_clock_def)
  from only_mandates_delegate [OF this] pm show ?thesis by (simp add: demo_payload_def)
qed

text \<open>Possession of the holder key is what a holder proof shows: the proof the holder makes
  for a capability id and a challenge is accepted under the holder's key, and an accepted
  proof is a signature over exactly that id followed by that challenge.\<close>

theorem holder_proof_correct:
  assumes "signer_ok P holder"
  shows "(make_holder_proof holder cid (PBytes challenge) = Inr pf \<longrightarrow>
      verify_holder_proof P (public_key_bytes holder) cid challenge (PBytes pf) = Inr ()) \<and>
    (verify_holder_proof P key cid challenge v = Inr () \<longrightarrow>
      (\<exists>sig b. v = PBytes sig \<and> ascii_encode cid = Inr b \<and> ed_verify P key sig (b @ challenge)))"
  using assms
  by (auto simp: make_holder_proof_def verify_holder_proof_eq signer_ok_def proof_message_def
      split: if_splits)

theorem holder_proof_correct_witness:
  "\<exists>pf. make_holder_proof (toy_signer ''h'' 9) (py ''cap-1'') (PBytes [1, 2]) = Inr pf \<and>
     verify_holder_proof toy (replicate 32 9) (py ''cap-1'') [1, 2] (PBytes pf) = Inr ()"
proof -
  have "\<exists>pf. make_holder_proof (toy_signer ''h'' 9) (py ''cap-1'') (PBytes [1, 2]) = Inr pf"
    by (simp add: make_holder_proof_def proof_message_def py_def)
  with holder_proof_correct [of toy "toy_signer ''h'' 9" "py ''cap-1''" "[1, 2]"] show ?thesis by auto
qed

text \<open>The signed message has no delimiter between the capability id and the challenge: ids
  of one length are bound, but a proof for the id \<open>ab\<close> and the challenge \<open>c\<close> is also
  one for the id \<open>a\<close> and the challenge \<open>bc\<close>.\<close>

theorem holder_proof_message_bounds:
  "(\<forall>c d x y m. length c = length d \<longrightarrow> proof_message c x = Inr m \<longrightarrow> proof_message d y = Inr m \<longrightarrow>
      c = d \<and> x = y) \<and>
   proof_message (py ''ab'') [99] = proof_message (py ''a'') [98, 99]"
proof
  show "proof_message (py ''ab'') [99] = proof_message (py ''a'') [98, 99]"
    by (simp add: proof_message_def py_def b8_def)
qed (use proof_message_inject in blast)

theorem holder_proof_message_bounds_witness:
  "proof_message (py ''ab'') [1] \<noteq> proof_message (py ''ac'') [1]"
proof
  obtain m where m: "proof_message (py ''ab'') [1] = Inr m" by (simp add: proof_message_def py_def)
  assume "proof_message (py ''ab'') [1] = proof_message (py ''ac'') [1]"
  with holder_proof_message_bounds [THEN conjunct1, rule_format, of "py ''ab''" "py ''ac''" "[1]" m "[1]"] m
  show False by simp
qed

end
