(* ===== verification/Cbor_Properties.thy ===== *)
theory Cbor_Properties
  imports Cbor_Size
begin

text \<open>
  The properties of \<^verbatim>\<open>cbor.py\<close>: the total round trip, the canonical form (two
  values have one encoding exactly when they differ in the order of map entries only), the
  strictness of the decoder about trailing bytes, and the inputs on which encoder and
  decoder do not agree.
\<close>

section \<open>The normal form has the same encoding\<close>

lemma encode_items_nf:
  "list_all2 (\<lambda>v b. encode v = Inr b) vs bss \<Longrightarrow> \<forall>v \<in> set vs. \<forall>b. encode v = Inr b \<longrightarrow> encode (nf v) = Inr b \<Longrightarrow>
   list_all2 (\<lambda>v b. encode v = Inr b) (map nf vs) bss"
  by (auto simp: list_all2_conv_all_nth)

lemma encode_pairs_nf:
  assumes "encode_pairs kvs = Inr ps" "\<forall>(k, v) \<in> set kvs. encode (nf v) = encode v"
  shows "encode_pairs (nf_pairs kvs) = Inr ps"
  using assms by (auto simp: encode_pairs_eq nf_pairs_map case_prod_unfold)

lemma encode_nf: "plain d v \<Longrightarrow> encode v = Inr b \<Longrightarrow> encode (nf v) = Inr b"
proof (induction d arbitrary: v b)
  case (Suc d)
  show ?case
  proof (cases v)
    case (PList vs)
    with Suc.prems obtain h bss where "head 4 (length vs) = Inr h" "b = h @ concat bss"
      and "list_all2 (\<lambda>v b. encode v = Inr b) vs bss"
      by (auto simp: encode_items_eq)
    moreover from this(3) have "list_all2 (\<lambda>v b. encode v = Inr b) (map nf vs) bss"
      by (rule encode_items_nf) (use Suc PList in \<open>auto simp: list_all_iff\<close>)
    ultimately show ?thesis using PList by (auto simp: nf_items_map encode_items_eq)
  next
    case (PTag n u)
    with Suc show ?thesis by auto
  next
    case (PDict kvs)
    from Suc.prems(2) [unfolded PDict] obtain h vbs where
      enc: "\<forall>(k, v) \<in> set kvs. encode k = Inr (key_bytes k) \<and> encode v = Inr (vbs v)"
      by (rule encode_dict)
    have pl: "\<forall>(k, v) \<in> set kvs. plain d k \<and> plain d v" and dist: "distinct (map fst kvs)"
      and uni: "uniform_keys (map fst kvs)"
      using Suc.prems(1) PDict by (auto simp: list_all_iff)
    have codec: "item_codec encode (decode d) nf (plain d)" by unfold_locales (rule decode_encode)
    have "inj_on key_bytes (fst ` set kvs)"
    proof (rule inj_onI)
      fix i j assume "i \<in> fst ` set kvs" "j \<in> fst ` set kvs" and eq: "key_bytes i = key_bytes j"
      then have "plain d i" "plain d j" "encode i = Inr (key_bytes i)" "encode j = Inr (key_bytes j)"
        "nf i = i" "nf j = j"
        using pl enc nf_key [OF uni] by force+
      with item_codec.enc_inject [OF codec, of i j "key_bytes i"] eq show "i = j" by simp
    qed
    then have dk: "distinct (map (key_bytes \<circ> fst) (nf_pairs kvs))"
      using dist by (auto simp: distinct_map nf_pairs_map case_prod_unfold inj_on_def)
    from Suc.prems(2) PDict obtain ps where ps: "encode_pairs kvs = Inr ps" by auto
    have "\<forall>(k, v) \<in> set kvs. encode (nf v) = encode v"
      using Suc.IH pl enc by fastforce
    from encode_pairs_nf [OF ps this] ps have "encode (PDict (nf_pairs kvs)) = Inr b"
      using Suc.prems(2) PDict by simp
    from encode_permuted [OF _ this dk, of "sort_key entry_order (nf_pairs kvs)"] show ?thesis
      by (simp add: PDict)
  qed (use Suc.prems in auto)
qed simp

section \<open>Readers that look at what they consume\<close>

text \<open>
  A reader is local when the value it returns depends on the bytes it consumes only; the
  parsers of the module are built from local readers by sequencing and case distinction.
\<close>

definition local_reader :: "(bytes \<Rightarrow> ('v \<times> bytes) res) \<Rightarrow> bool" where
  "local_reader f \<longleftrightarrow> (\<forall>bs v r. f bs = Inr (v, r) \<longrightarrow> (\<exists>c. bs = c @ r \<and> (\<forall>q. f (c @ q) = Inr (v, q))))"

lemma local_readerD:
  assumes "local_reader f" "f bs = Inr (v, r)"
  obtains c where "bs = c @ r" "\<And>q. f (c @ q) = Inr (v, q)"
  using assms unfolding local_reader_def by blast

named_theorems local_intros \<open>introduction rules for local readers\<close>

lemma local_return [local_intros]: "local_reader (\<lambda>bs. Inr (v, bs))"
  by (simp add: local_reader_def)

lemma local_raise [local_intros]: "local_reader (\<lambda>bs. Inl e)"
  by (simp add: local_reader_def)

lemma local_if [local_intros]:
  "(b \<Longrightarrow> local_reader f) \<Longrightarrow> (\<not> b \<Longrightarrow> local_reader g) \<Longrightarrow> local_reader (\<lambda>bs. if b then f bs else g bs)"
  by (cases b) simp_all

lemma local_bind [local_intros]:
  assumes "local_reader f" "\<And>v. local_reader (g v)"
  shows "local_reader (\<lambda>bs. rbind (f bs) (\<lambda>(v, r). g v r))"
  unfolding local_reader_def
proof (intro allI impI)
  fix bs w r
  assume "rbind (f bs) (\<lambda>(v, r). g v r) = Inr (w, r)"
  then obtain v s where f: "f bs = Inr (v, s)" and g: "g v s = Inr (w, r)" by auto
  from local_readerD [OF assms(1) f] obtain c where c: "bs = c @ s" "\<And>q. f (c @ q) = Inr (v, q)" by blast
  from local_readerD [OF assms(2) g] obtain d where d: "s = d @ r" "\<And>q. g v (d @ q) = Inr (w, q)" by blast
  from c d have "bs = (c @ d) @ r \<and> (\<forall>q. rbind (f ((c @ d) @ q)) (\<lambda>(v, r). g v r) = Inr (w, q))" by simp
  then show "\<exists>c. bs = c @ r \<and> (\<forall>q. rbind (f (c @ q)) (\<lambda>(v, r). g v r) = Inr (w, q))" by blast
qed

lemma local_fun: "local_reader f \<Longrightarrow> (\<And>bs. g bs = f bs) \<Longrightarrow> local_reader g"
  by (simp add: local_reader_def)

lemma local_read [local_intros]: "local_reader (read n)"
  by (auto simp: local_reader_def read_eq_Inr)

lemma local_read_arg [local_intros]: "local_reader (read_arg ai)"
  unfolding read_arg_def Let_def by (intro local_intros)

lemma local_read_head [local_intros]: "local_reader read_head"
  unfolding read_head_def Let_def by (intro local_intros)

lemma local_decode_simple [local_intros]: "local_reader (decode_simple ai)"
  unfolding decode_simple_def Let_def by (intro local_intros)

lemma local_decode_items [local_intros]: "local_reader f \<Longrightarrow> local_reader (decode_items f n)"
proof (induction n)
  case 0
  show ?case by (rule local_fun [OF local_return]) (rule decode_items.simps)
next
  case (Suc n)
  then have "local_reader (\<lambda>bs. rbind (f bs) (\<lambda>(v, r).
      rbind (decode_items f n r) (\<lambda>(vs, r'). Inr (v # vs, r'))))"
    by (intro local_intros)
  then show ?case by (rule local_fun) (rule decode_items.simps)
qed

lemma local_decode_entries [local_intros]:
  assumes f: "local_reader f" shows "local_reader (decode_entries f n prev acc)"
proof (induction n arbitrary: prev acc)
  case 0
  show ?case by (rule local_fun [OF local_return]) (rule decode_entries.simps)
next
  case (Suc n)
  show ?case unfolding local_reader_def
  proof (intro allI impI)
    fix bs w r
    assume a: "decode_entries f (Suc n) prev acc bs = Inr (w, r)"
    then obtain k s where k: "f bs = Inr (k, s)" by (auto simp: Let_def)
    from local_readerD [OF f k] obtain c where c: "bs = c @ s" "\<And>q. f (c @ q) = Inr (k, q)" by blast
    let ?ok = "\<not> (case prev of None \<Rightarrow> False | Some p \<Rightarrow> c \<le> p)"
    let ?tail = "\<lambda>s. rbind (f s) (\<lambda>(v, r'). if hashable k
      then decode_entries f n (Some c) (dict_set k v acc) r' else raise TypeError ''unhashable type'')"
    have step: "decode_entries f (Suc n) prev acc (c @ q) =
        (if ?ok then ?tail q else raise CBORError ''map keys not in canonical order (or duplicate key)'')" for q
    proof -
      have e: "take (length (c @ q) - length q) (c @ q) = c" by simp
      show ?thesis by (simp only: decode_entries.simps c(2) rbind_simps prod.case Let_def e) simp
    qed
    have "(if ?ok then ?tail s
        else raise CBORError ''map keys not in canonical order (or duplicate key)'') = Inr (w, r)"
      using a unfolding c(1) step .
    then have ok: "?ok" and tail: "?tail s = Inr (w, r)" unfolding if_raise_eq_Inr by blast+
    have "local_reader ?tail" by (intro local_intros f Suc.IH)
    from local_readerD [OF this tail] obtain d where d: "s = d @ r" "\<And>q. ?tail (d @ q) = Inr (w, q)"
      by blast
    have "decode_entries f (Suc n) prev acc ((c @ d) @ q) = Inr (w, q)" for q
      unfolding append_assoc step using ok d(2) [of q] by (simp only: if_True simp_thms)
    moreover have "bs = (c @ d) @ r" using c(1) d(1) by simp
    ultimately show "\<exists>c. bs = c @ r \<and> (\<forall>q. decode_entries f (Suc n) prev acc (c @ q) = Inr (w, q))"
      by blast
  qed
qed

lemma local_text [local_intros]: "local_reader (\<lambda>r. rbind (read n r) (\<lambda>(c, r).
    case utf8_decode c of None \<Rightarrow> raise CBORError ''invalid UTF-8 in text string''
    | Some s \<Rightarrow> Inr (PStr s, r)))"
proof (rule local_bind [OF local_read])
  fix c :: bytes
  show "local_reader (\<lambda>r. case utf8_decode c of None \<Rightarrow> raise CBORError ''invalid UTF-8 in text string''
    | Some s \<Rightarrow> Inr (PStr s, r))"
    by (cases "utf8_decode c") (simp_all add: local_raise local_return)
qed

lemma local_tag [local_intros]:
  "local_reader f \<Longrightarrow> local_reader (\<lambda>r. rbind (f r) (\<lambda>(v, r). rbind (decode_tag n v) (\<lambda>w. Inr (w, r))))"
proof (rule local_bind)
  fix v
  show "local_reader (\<lambda>r. rbind (decode_tag n v) (\<lambda>w. Inr (w, r)))"
    by (cases "decode_tag n v") (simp_all add: local_raise local_return)
qed

lemma local_decode: "local_reader (decode d)"
proof (induction d)
  case 0
  show ?case by (rule local_fun [OF local_raise]) (rule decode.simps)
next
  case (Suc d)
  have "local_reader (\<lambda>r. if ai = 31
      then raise CBORError ''indefinite lengths are not allowed in deterministic CBOR''
      else if major = 7 then decode_simple ai r
      else rbind (read_arg ai r) (\<lambda>(n, r).
        if major = 0 then Inr (PInt (int n), r)
        else if major = 1 then Inr (PInt (- 1 - int n), r)
        else if major = 2 then rbind (read n r) (\<lambda>(c, r). Inr (PBytes c, r))
        else if major = 3 then rbind (read n r) (\<lambda>(c, r). case utf8_decode c of
            None \<Rightarrow> raise CBORError ''invalid UTF-8 in text string'' | Some s \<Rightarrow> Inr (PStr s, r))
        else if major = 4 then rbind (decode_items (decode d) n r) (\<lambda>(vs, r). Inr (PList vs, r))
        else if major = 5 then decode_entries (decode d) n None [] r
        else rbind (decode d r) (\<lambda>(v, r). rbind (decode_tag n v) (\<lambda>w. Inr (w, r)))))" for major ai
    by (intro local_intros Suc)
  then have "local_reader (\<lambda>bs. rbind (read_head bs) (\<lambda>(mai, r). case mai of (major, ai) \<Rightarrow> if ai = 31
      then raise CBORError ''indefinite lengths are not allowed in deterministic CBOR''
      else if major = 7 then decode_simple ai r
      else rbind (read_arg ai r) (\<lambda>(n, r).
        if major = 0 then Inr (PInt (int n), r)
        else if major = 1 then Inr (PInt (- 1 - int n), r)
        else if major = 2 then rbind (read n r) (\<lambda>(c, r). Inr (PBytes c, r))
        else if major = 3 then rbind (read n r) (\<lambda>(c, r). case utf8_decode c of
            None \<Rightarrow> raise CBORError ''invalid UTF-8 in text string'' | Some s \<Rightarrow> Inr (PStr s, r))
        else if major = 4 then rbind (decode_items (decode d) n r) (\<lambda>(vs, r). Inr (PList vs, r))
        else if major = 5 then decode_entries (decode d) n None [] r
        else rbind (decode d r) (\<lambda>(v, r). rbind (decode_tag n v) (\<lambda>w. Inr (w, r))))))"
    by (intro local_bind [OF local_read_head]) (simp add: case_prod_unfold)
  then show ?case by (rule local_fun) (simp only: decode.simps case_prod_unfold)
qed

section \<open>Properties\<close>

text \<open>C37: CBOR round trip. A value of representable numbers and text, with uniform distinct map
  keys and at most 64 levels of nesting, encodes, within a bound on the length, and its
  encoding decodes to the same value with its map entries in canonical order.\<close>

theorem cbor_round_trip:
  assumes "cbor_plain v" "encodable v" "enc_size v < 2 ^ 64"
  shows "\<exists>b. cbor_dumps v = Inr b \<and> length b \<le> enc_size v \<and> cbor_loads b = Inr (nf v)"
  using cbor_dumps_total [of v] cbor_loads_dumps [of v] assms by auto

lemma key_bytes_small: "key_bytes (PInt 1) = [1]" "key_bytes (PInt 2) = [2]"
  by (simp_all add: key_bytes_def encode_int_def head_def b8_def)

lemma demo_value:
  "cbor_plain (PDict [(PInt 2, PStr (py s)), (PInt 1, PList [PNone, PBool c])])"
  "encodable (PDict [(PInt 2, PStr (py s)), (PInt 1, PList [PNone, PBool c])])"
  "nf (PDict [(PInt 2, PStr (py s)), (PInt 1, PList [PNone, PBool c])]) =
     PDict [(PInt 1, PList [PNone, PBool c]), (PInt 2, PStr (py s))]"
proof -
  have "plain (Suc (Suc (Suc (Suc d)))) (PDict [(PInt 2, PStr (py s)), (PInt 1, PList [PNone, PBool c])])" for d
    by (simp add: uniform_keys_def)
  from this [of 61] show "cbor_plain (PDict [(PInt 2, PStr (py s)), (PInt 1, PList [PNone, PBool c])])"
    by (simp add: max_recursion_depth_def)
  show "nf (PDict [(PInt 2, PStr (py s)), (PInt 1, PList [PNone, PBool c])]) =
     PDict [(PInt 1, PList [PNone, PBool c]), (PInt 2, PStr (py s))]"
    by (simp add: entry_order_def key_bytes_small)
qed simp

theorem cbor_round_trip_witness:
  "\<exists>b. cbor_dumps (PDict [(PInt 2, PStr (py ''b'')), (PInt 1, PList [PNone, PBool True])]) = Inr b \<and>
     cbor_loads b = Inr (PDict [(PInt 1, PList [PNone, PBool True]), (PInt 2, PStr (py ''b''))])"
  using cbor_round_trip [OF demo_value(1,2), of "''b''" True] by (simp only: demo_value) auto

text \<open>The encoding is canonical: two plain values have the same bytes exactly when they are
  the same value up to the order of map entries.\<close>

theorem cbor_canonical:
  assumes "cbor_plain v" "cbor_plain w" "cbor_dumps v = Inr b" "cbor_dumps w = Inr c"
  shows "b = c \<longleftrightarrow> nf v = nf w"
proof
  assume "b = c"
  with assms cbor_dumps_inject show "nf v = nf w" by blast
next
  assume "nf v = nf w"
  with encode_nf [OF assms(1)] encode_nf [OF assms(2)] assms(3,4) show "b = c"
    by (simp add: cbor_dumps_def)
qed

theorem cbor_canonical_witness:
  "\<exists>b c. cbor_dumps (PDict [(PInt 2, PStr (py ''b'')), (PInt 1, PList [PNone, PBool True])]) = Inr b \<and>
     cbor_dumps (PDict [(PInt 2, PStr (py ''b'')), (PInt 1, PList [PNone, PBool False])]) = Inr c \<and> b \<noteq> c"
proof -
  let ?v = "\<lambda>x. PDict [(PInt 2, PStr (py ''b'')), (PInt 1, PList [PNone, PBool x])]"
  obtain b c where "cbor_dumps (?v True) = Inr b" "cbor_dumps (?v False) = Inr c"
    using cbor_dumps_total [of "?v True"] cbor_dumps_total [of "?v False"] demo_value(2) by auto
  then show ?thesis
    using cbor_canonical [OF demo_value(1) [of "''b''" True] demo_value(1) [of "''b''" False]]
    by (auto simp: demo_value(3))
qed

text \<open>The decoder accepts whole messages only: no accepted message is a proper prefix of
  another input that is accepted, the longer input is refused for its trailing bytes.\<close>

theorem cbor_no_trailing_bytes:
  assumes "cbor_loads b = Inr v" "r \<noteq> []"
  shows "cbor_loads (b @ r) = raise CBORError ''trailing bytes after CBOR item''"
proof -
  from assms(1) have "decode (Suc max_recursion_depth) b = Inr (v, [])"
    by (auto simp: cbor_loads_def)
  from local_readerD [OF local_decode this] obtain c where
    "b = c @ []" "\<And>q. decode (Suc max_recursion_depth) (c @ q) = Inr (v, q)" by blast
  with assms(2) show ?thesis by (simp add: cbor_loads_def)
qed

theorem cbor_no_trailing_bytes_witness:
  "cbor_loads ([0xF6] @ [0x00]) = raise CBORError ''trailing bytes after CBOR item''"
proof -
  have "cbor_loads [0xF6] = Inr PNone" by (simp add: cbor_loads_def decode_simple_def)
  from cbor_no_trailing_bytes [OF this, of "[0x00]"] show ?thesis by simp
qed

lemma loads_shallow:
  "(\<And>d. decode (Suc (Suc d)) b = Inr (v, [])) \<Longrightarrow> cbor_loads b = Inr v"
  "(\<And>d. decode (Suc (Suc d)) b = Inl e) \<Longrightarrow> cbor_loads b = Inl e"
proof -
  have d: "Suc max_recursion_depth = Suc (Suc 63)" by (simp add: max_recursion_depth_def)
  show "(\<And>d. decode (Suc (Suc d)) b = Inr (v, [])) \<Longrightarrow> cbor_loads b = Inr v"
    unfolding cbor_loads_def d by (simp only: rbind_simps prod.case simp_thms require_True)
  show "(\<And>d. decode (Suc (Suc d)) b = Inl e) \<Longrightarrow> cbor_loads b = Inl e"
    unfolding cbor_loads_def d by (simp only: rbind_simps)
qed

lemma eval_head: "read_head (b # r) = Inr ((unat b div 32, unat b mod 32), r)"
  by (simp add: read_head_def Let_def)


lemma decode_entries_2: "decode_entries f 2 prev acc bs = decode_entries f (Suc (Suc 0)) prev acc bs"
  by (simp only: numeral_2_eq_2)

lemmas eval_decode = decode.simps(2) eval_head read_arg_def read_def decode_entries_2

lemma loads_bignum: "cbor_loads [0xC2, 0x41, 0x05] = Inr (PInt 5)"
proof (rule loads_shallow)
  show "decode (Suc (Suc d)) [0xC2, 0x41, 0x05] = Inr (PInt 5, [])" for d
    by (simp add: eval_decode decode_tag_def)
qed

lemma loads_unhashable: "cbor_loads [0xA1, 0x80, 0x27] = raise TypeError ''unhashable type''"
proof (rule loads_shallow)
  show "decode (Suc (Suc d)) [0xA1, 0x80, 0x27] = raise TypeError ''unhashable type''" for d
    by (simp add: eval_decode Let_def)
qed

lemma loads_aliased: "cbor_loads [0xA2, 0x01, 0x26, 0xF5, 0x27] = Inr (PDict [(PInt 1, PInt (-8))])"
proof (rule loads_shallow)
  show "decode (Suc (Suc d)) [0xA2, 0x01, 0x26, 0xF5, 0x27] = Inr (PDict [(PInt 1, PInt (-8))], [])" for d
    by (simp add: eval_decode Let_def decode_simple_def)
qed

lemma loads_mixed_keys: "cbor_loads [0xA2, 0x20, 0xF6, 0x18, 0x18, 0xF6] =
    raise CBORError ''map keys not in canonical order (or duplicate key)''"
proof (rule loads_shallow)
  show "decode (Suc (Suc d)) [0xA2, 0x20, 0xF6, 0x18, 0x18, 0xF6] =
      raise CBORError ''map keys not in canonical order (or duplicate key)''" for d
    by (simp add: eval_decode Let_def decode_simple_def)
qed

lemma dumps_mixed_keys: "cbor_dumps (PDict [(PInt 24, PNone), (PInt (-1), PNone)]) =
    Inr [0xA2, 0x20, 0xF6, 0x18, 0x18, 0xF6]"
  by (simp add: cbor_dumps_def encode_int_def head_def key_order_def put_entry_def b8_def)

lemma dumps_large_float: "cbor_dumps (PFloat 0x7E37E43C8800759C) =
    raise OverflowError ''float too large to pack with f format''"
  by (simp add: cbor_dumps_def encode_float_def is_nan_def fits_def pack_small_def f64_exp_def
      f64_mant_def f64_sign_def f32_overflows_def is_finite_def)

text \<open>Where encoder and decoder do not agree. A map whose labels are 24 and -1 is encoded (by
  length, then bytes) in an order that the decoder (bytes only) refuses; the decoder reads the
  small integer 5 from a bignum and from a map drops an entry whose key is equal to another one in
  Python; an unhashable map key raises \<open>TypeError\<close>, not \<open>CBORError\<close>; and a float beyond single
  precision raises \<open>OverflowError\<close> in the encoder.\<close>

theorem cbor_disagreements:
  "(\<exists>b. cbor_dumps (PDict [(PInt 24, PNone), (PInt (-1), PNone)]) = Inr b \<and>
      cbor_loads b = raise CBORError ''map keys not in canonical order (or duplicate key)'') \<and>
   (cbor_loads [0xC2, 0x41, 0x05] = Inr (PInt 5) \<and> cbor_dumps (PInt 5) = Inr [0x05]) \<and>
   cbor_loads [0xA2, 0x01, 0x26, 0xF5, 0x27] = Inr (PDict [(PInt 1, PInt (-8))]) \<and>
   cbor_loads [0xA1, 0x80, 0x27] = raise TypeError ''unhashable type'' \<and>
   cbor_dumps (PFloat 0x7E37E43C8800759C) = raise OverflowError ''float too large to pack with f format''"
proof -
  have "cbor_dumps (PInt 5) = Inr [0x05]"
    by (simp add: cbor_dumps_def encode_int_def head_def b8_def)
  then show ?thesis
    using loads_bignum loads_unhashable loads_aliased loads_mixed_keys dumps_mixed_keys dumps_large_float
    by blast
qed

end
