(* ===== verification/Envelope_Properties.thy ===== *)
theory Envelope_Properties
  imports Envelope Instances
begin

text \<open>
  The properties of the signed formats: the v0 envelopes of \<^verbatim>\<open>crypto.py\<close>, the
  COSE_Sign1 messages of \<^verbatim>\<open>cose.py\<close> and the action envelopes of
  \<^verbatim>\<open>envelope.py\<close>, with concrete instances.
\<close>

section \<open>Signed envelopes of protocol v0\<close>

text \<open>What \<open>sign_payload\<close> signs, \<open>verify_envelope\<close> accepts under the signer's key, also when
  the members of the payload arrive in another order; and it returns the payload it received.\<close>

theorem signed_payload_verifies:
  assumes "prims_ok P" "signer_ok P sg" "sign_payload P sg p = Inr env"
    and "mset q = mset p" "distinct (map fst p)"
  shows "verify_envelope P (env\<lparr>payload := q\<rparr>) (public_key_bytes sg) = Inr q"
proof -
  have "canonical_bytes P (JObj q) = canonical_bytes P (JObj p)"
    using json_text_permuted [of p q P] assms(4,5) by (simp add: canonical_bytes_def)
  with assms(1-3) show ?thesis
    by (auto simp: verify_envelope_ok sign_payload_def prims_ok_def signer_ok_def)
qed

theorem signed_payload_verifies_witness:
  "\<exists>env. sign_payload toy (toy_signer ''k'' 7) [(py ''a'', JNull), (py ''b'', JBool True)] = Inr env \<and>
     verify_envelope toy (env\<lparr>payload := [(py ''b'', JBool True), (py ''a'', JNull)]\<rparr>) (replicate 32 7) =
       Inr [(py ''b'', JBool True), (py ''a'', JNull)]"
proof -
  let ?p = "[(py ''a'', JNull), (py ''b'', JBool True)]"
  obtain env where env: "sign_payload toy (toy_signer ''k'' 7) ?p = Inr env"
    by (simp add: sign_payload_def canonical_bytes_def py_def json_string_def json_escape_def utf8_char_def)
  show ?thesis
    using signed_payload_verifies [OF toy_ok toy_signer_ok env, of "rev ?p"] env by simp
qed

section \<open>COSE_Sign1\<close>

text \<open>Signing succeeds on inputs of practical size and the message verifies, under a trust set
  that maps the key id to the signer's key and with the same external data, to exactly the
  signed payload and key id.\<close>

theorem cose_sign_verify:
  assumes "signer_ok P sg" "trusted kid = Some (public_key_bytes sg)"
    and "length pl < 2 ^ 60" "length kid < 2 ^ 60" "length aad < 2 ^ 60"
  shows "\<exists>m. cose_sign_bytes pl (sign_bytes sg) kid aad = Inr m \<and>
    cose_verify P (PBytes m) trusted aad = Inr (pl, kid)"
proof -
  from assms obtain m where m: "cose_sign_bytes pl (sign_bytes sg) kid aad = Inr m"
    using cose_sign_total [of "sign_bytes sg" kid aad pl] by (auto simp: signer_ok_def)
  moreover have "cose_verify P (PBytes m) trusted aad = Inr (pl, kid)"
    using assms(1,2) m by (intro cose_verify_sign) (auto simp: signer_ok_def)
  ultimately show ?thesis by blast
qed

theorem cose_sign_verify_witness:
  "\<exists>m. cose_sign_bytes [1, 2, 3] (sign_bytes (toy_signer ''k'' 7)) [107] [] = Inr m \<and>
     cose_verify toy (PBytes m) [[107] \<mapsto> replicate 32 7] [] = Inr ([1, 2, 3], [107])"
  using cose_sign_verify [OF toy_signer_ok, of "[[107] \<mapsto> replicate 32 7]" "[107]" "''k''" 7 "[1, 2, 3]" "[]"]
  by simp

text \<open>C36: an accepted COSE message carries a valid signature of the trusted key its key id names
  over the signature structure, and that structure determines everything: if the structures of
  two accepted messages agree, so do their payloads, external data and key ids.\<close>

theorem cose_verified_binds:
  assumes "cose_verify P m trusted aad = Inr (pl, kid)"
    and "cose_verify P m' trusted' aad' = Inr (pl', kid')"
  shows "\<exists>key sig ss key' sig' ss'. trusted kid = Some key \<and> ed_verify P key sig ss \<and>
    trusted' kid' = Some key' \<and> ed_verify P key' sig' ss' \<and>
    (ss = ss' \<longrightarrow> pl = pl' \<and> aad = aad' \<and> kid = kid')"
proof -
  from assms(1) obtain body sig key hdr ss where a: "cbor_loads body = Inr (PDict hdr)"
    "dict_get label_kid hdr = Some (PBytes kid)" "trusted kid = Some key"
    "sig_structure body aad pl = Inr ss" "ed_verify P key sig ss"
    by (auto simp: cose_verify_eq cose_authentic_def)
  from assms(2) obtain body' sig' key' hdr' ss' where b: "cbor_loads body' = Inr (PDict hdr')"
    "dict_get label_kid hdr' = Some (PBytes kid')" "trusted' kid' = Some key'"
    "sig_structure body' aad' pl' = Inr ss'" "ed_verify P key' sig' ss'"
    by (auto simp: cose_verify_eq cose_authentic_def)
  have "pl = pl' \<and> aad = aad' \<and> kid = kid'" if "ss = ss'"
    using sig_structure_inject [OF a(4) b(4) [folded that]] a(1,2) b(1,2) by simp
  with a b show ?thesis by blast
qed

theorem cose_verified_binds_witness:
  "\<exists>m. cose_verify toy (PBytes m) [[107] \<mapsto> replicate 32 7] [] = Inr ([1], [107]) \<and>
     (\<exists>key sig ss. key = replicate 32 7 \<and> ed_verify toy key sig ss)"
proof -
  have l: "length [1 :: byte] < 2 ^ 60" "length [107 :: byte] < 2 ^ 60" "length ([] :: bytes) < 2 ^ 60"
    by simp_all
  obtain m where m: "cose_verify toy (PBytes m) [[107] \<mapsto> replicate 32 7] [] = Inr ([1], [107])"
  proof -
    obtain m where "cose_sign_bytes [1] (sign_bytes (toy_signer ''k'' 7)) [107] [] = Inr m"
      using cose_sign_total [of "sign_bytes (toy_signer ''k'' 7)" "[107]" "[]" "[1]"] by auto
    then have "cose_verify toy (PBytes m) [[107] \<mapsto> replicate 32 7] [] = Inr ([1], [107])"
      by (intro cose_verify_sign [where pk = "replicate 32 7"]) auto
    then show ?thesis by (rule that)
  qed
  from cose_verified_binds [OF m m] m show ?thesis by auto
qed

section \<open>Action envelopes\<close>

text \<open>The action digest binds the whole envelope. Two envelopes of one digest are the same
  envelope, unless their canonical bytes are two different preimages of one SHA-256 value.\<close>

theorem action_digest_binds:
  assumes "inj (dt_json P)" "action_digest P e = Inr d" "action_digest P e' = Inr d"
  shows "e = e' \<or> (\<exists>b b'. envelope_bytes P e = Inr b \<and> envelope_bytes P e' = Inr b' \<and>
    b \<noteq> b' \<and> sha256 P b = sha256 P b')"
proof -
  from assms(2,3) obtain b b' where "envelope_bytes P e = Inr b" "envelope_bytes P e' = Inr b'"
    "sha256 P b = sha256 P b'" by (auto simp: action_digest_def)
  with envelope_bytes_inject [OF assms(1)] show ?thesis by blast
qed

definition demo_envelope :: "string \<Rightarrow> action_envelope" where
  "demo_envelope who = \<lparr>action_id = py ''id'', principal = py ''agent'',
     effect = \<lparr>plane = py ''shell'', verb = py ''run'', target = py who, args_digest = py ''00''\<rparr>,
     policy_ref = py ''p'', issued_at = 0, not_before = 0, not_after = seconds 60, nonce = py ''n''\<rparr>"

lemma demo_envelope_bytes: "length t < 2 ^ 30 \<Longrightarrow> \<exists>b. envelope_bytes toy (demo_envelope t) = Inr b \<and> length b < 2 ^ 60"
  using cbor_dumps_total [of "envelope_dump toy (demo_envelope t)"]
    length_int_text [of 0] length_int_text [of "60000000"]
  by (auto simp: envelope_bytes_def envelope_dump_def effect_dump_def demo_envelope_def)

theorem action_digest_binds_witness:
  "\<exists>d. action_digest toy (demo_envelope ''alice'') = Inr d \<and>
     (\<forall>b b'. envelope_bytes toy (demo_envelope ''alice'') = Inr b \<and>
        envelope_bytes toy (demo_envelope ''bob'') = Inr b' \<and> sha256 toy b \<noteq> sha256 toy b' \<longrightarrow>
      action_digest toy (demo_envelope ''bob'') \<noteq> Inr d)"
proof -
  obtain b where "envelope_bytes toy (demo_envelope ''alice'') = Inr b"
    using demo_envelope_bytes [of "''alice''"] by auto
  then have d: "action_digest toy (demo_envelope ''alice'') = Inr (to_hex (sha256 toy b))"
    by (simp add: action_digest_def)
  have "demo_envelope ''alice'' \<noteq> demo_envelope ''bob''" by (simp add: demo_envelope_def)
  with action_digest_binds [OF inj_dt_json_toy d, of "demo_envelope ''bob''"] d show ?thesis
    by (intro exI conjI) (assumption, auto simp: action_digest_def)
qed

text \<open>A signed envelope is accepted exactly in its validity window. Under trusted keys that hold
  the signer's and a schema validation that gives the model back, verification at the moment
  \<open>t\<close> returns the signed envelope between \<open>not_before\<close> and \<open>not_after\<close> and
  raises \<open>EnvelopeError\<close> outside.\<close>

theorem signed_envelope_window:
  assumes "signer_ok P sg" "load_keys keys = Inr m" "distinct (map fst keys)"
    and "(key_id sg, public_key_bytes sg) \<in> set keys" "validate (nf (envelope_dump P e)) = Some e"
    and "sign_envelope P e sg aad = Inr msg"
  shows "verify_action_envelope P validate (PBytes msg) keys (Some t) clock aad =
    (if as_utc t < not_before e then raise EnvelopeError ''envelope not yet valid (not_before in the future)''
     else if not_after e < as_utc t then raise EnvelopeError ''envelope expired (not_after in the past)''
     else Inr e)"
proof -
  from assms(6) obtain b kid where b: "envelope_bytes P e = Inr b" and kid: "utf8_encode (key_id sg) = Inr kid"
    and msg: "cose_sign_bytes b (sign_bytes sg) kid aad = Inr msg"
    by (auto simp: sign_envelope_def)
  have "m kid = Some (public_key_bytes sg)" using load_keys_lookup [OF assms(2-4) kid] .
  with assms(1) msg have "cose_verify P (PBytes msg) m aad = Inr (b, kid)"
    by (intro cose_verify_sign) (auto simp: signer_ok_def)
  with assms(2,5) envelope_bytes_loads [OF b] show ?thesis
    by (simp add: verify_action_envelope_def)
qed

theorem signed_envelope_window_witness:
  "\<exists>msg. sign_envelope toy (demo_envelope ''alice'') (toy_signer ''k'' 7) [] = Inr msg \<and>
     verify_action_envelope toy (\<lambda>v. if v = nf (envelope_dump toy (demo_envelope ''alice''))
         then Some (demo_envelope ''alice'') else None)
       (PBytes msg) [(py ''k'', replicate 32 7)] (Some (Aware (seconds 61) 0)) 0 [] =
     raise EnvelopeError ''envelope expired (not_after in the past)''"
proof -
  obtain b where b: "envelope_bytes toy (demo_envelope ''alice'') = Inr b" "length b < 2 ^ 60"
    using demo_envelope_bytes [of "''alice''"] by auto
  obtain kid where kid: "utf8_encode (py ''k'') = Inr kid" "length kid < 2 ^ 60"
    using utf8_encode_total [of "py ''k''"] by force
  obtain msg where msg: "sign_envelope toy (demo_envelope ''alice'') (toy_signer ''k'' 7) [] = Inr msg"
    using b kid cose_sign_total [of "sign_bytes (toy_signer ''k'' 7)" kid "[]" b]
    by (auto simp: sign_envelope_def)
  have keys: "load_keys [(py ''k'', replicate 32 7)] = Inr [kid \<mapsto> replicate 32 7]"
    using kid by simp
  from signed_envelope_window [OF toy_signer_ok keys _ _ _ msg, of "\<lambda>v. if v = nf (envelope_dump toy
      (demo_envelope ''alice'')) then Some (demo_envelope ''alice'') else None" "Aware (seconds 61) 0" 0] msg
  show ?thesis by (simp add: demo_envelope_def)
qed

end
