(* ===== verification/Single_Use.thy ===== *)
theory Single_Use
  imports Prelude
begin

text \<open>
  The interface between a resource that may be used once per identifier and the code that
  guards an effect with it: a denied use changes nothing, a granted use was not spent before
  and is spent afterwards. The capability store and the nonce registries provide it; what the
  clients rely on is proved here once.
\<close>

section \<open>Transactions\<close>

text \<open>
  \<open>immediate body\<close> is \<^verbatim>\<open>BEGIN IMMEDIATE\<close>, the body, and
  \<^verbatim>\<open>COMMIT\<close>, or \<^verbatim>\<open>ROLLBACK\<close> and a re-raise when the body raises.
\<close>

definition immediate :: "('s \<Rightarrow> ('a \<times> 's) res) \<Rightarrow> 's \<Rightarrow> 'a res \<times> 's" where
  "immediate body s = (case body s of Inl e \<Rightarrow> (Inl e, s) | Inr (x, s') \<Rightarrow> (Inr x, s'))"

lemma immediate_Inl [simp]: "immediate body s = (Inl e, s') \<longleftrightarrow> body s = Inl e \<and> s' = s"
  by (auto simp: immediate_def split: sum.splits)

lemma immediate_Inr [simp]: "immediate body s = (Inr x, s') \<longleftrightarrow> body s = Inr (x, s')"
  by (auto simp: immediate_def split: sum.splits)

lemma immediate_cases:
  obtains (raised) e where "body s = Inl e" "immediate body s = (Inl e, s)"
  | (committed) x s' where "body s = Inr (x, s')" "immediate body s = (Inr x, s')"
proof (cases "body s")
  case (Inl e)
  then show ?thesis by (intro raised) (simp_all add: immediate_def)
next
  case (Inr q)
  obtain x s' where "q = (x, s')" by (cases q)
  with Inr show ?thesis by (intro committed) (simp_all add: immediate_def)
qed

section \<open>Sequences of uses\<close>

fun run_all :: "('r \<Rightarrow> 's \<Rightarrow> 'a res \<times> 's) \<Rightarrow> 'r list \<Rightarrow> 's \<Rightarrow> ('r \<times> 'a res) list \<times> 's" where
  "run_all f [] s = ([], s)"
| "run_all f (r # rs) s =
     (let (a, s') = f r s; (as, s'') = run_all f rs s' in ((r, a) # as, s''))"

text \<open>The identifiers a trace of uses was granted.\<close>

fun granted :: "('r \<Rightarrow> 'a \<Rightarrow> 'i option) \<Rightarrow> ('r \<times> 'a res) list \<Rightarrow> 'i list" where
  "granted ident [] = []"
| "granted ident ((r, Inl e) # t) = granted ident t"
| "granted ident ((r, Inr x) # t) =
     (case ident r x of None \<Rightarrow> granted ident t | Some i \<Rightarrow> i # granted ident t)"

text \<open>A relation between what was answered so far and the state holds after a run.\<close>

lemma run_all_invariant:
  assumes "\<And>t s r a s'. I t s \<Longrightarrow> f r s = (a, s') \<Longrightarrow> I (t @ [(r, a)]) s'" "I t0 s0" "run_all f rs s0 = (t, s)"
  shows "I (t0 @ t) s"
  using assms(2,3)
proof (induction rs arbitrary: t0 s0 t)
  case (Cons r rs)
  obtain a s1 where step: "f r s0 = (a, s1)" by (cases "f r s0")
  obtain t1 s2 where run: "run_all f rs s1 = (t1, s2)" by (cases "run_all f rs s1")
  from Cons.prems(2) step run have t: "t = (r, a) # t1" "s = s2" by auto
  have "I ((t0 @ [(r, a)]) @ t1) s" using Cons.IH [of "t0 @ [(r, a)]" s1 t1] assms(1) [OF Cons.prems(1) step] run t(2) by blast
  then show ?case by (simp add: t(1))
qed simp

text \<open>
  Not every operation of the provider uses an identifier: \<open>ident r x\<close> is the one that
  the request \<open>r\<close>, answered by \<open>x\<close>, used up, if it did. The laws may need an invariant
  of the provider's state.
\<close>

locale guarded_use =
  fixes serve :: "'r \<Rightarrow> 's \<Rightarrow> 'a res \<times> 's"
    and ident :: "'r \<Rightarrow> 'a \<Rightarrow> 'i option"
    and spent :: "'s \<Rightarrow> 'i set"
    and inv :: "'s \<Rightarrow> bool"
  assumes kept_inv: "inv s \<Longrightarrow> inv (snd (serve r s))"
    and spent_kept: "inv s \<Longrightarrow> spent s \<subseteq> spent (snd (serve r s))"
    and granted_fresh: "inv s \<Longrightarrow> serve r s = (Inr x, s') \<Longrightarrow> ident r x = Some i \<Longrightarrow> i \<notin> spent s \<and> i \<in> spent s'"
begin

lemma run_inv: "inv s \<Longrightarrow> inv (snd (run_all serve rs s))"
  by (induction rs arbitrary: s) (auto simp: case_prod_unfold Let_def kept_inv)

lemma run_spent_kept: "inv s \<Longrightarrow> spent s \<subseteq> spent (snd (run_all serve rs s))"
proof (induction rs arbitrary: s)
  case (Cons r rs)
  show ?case using spent_kept [OF Cons.prems, of r] Cons.IH [OF kept_inv [OF Cons.prems, of r]]
    by (auto simp: case_prod_unfold Let_def)
qed simp

text \<open>Each identifier is granted at most once over any run, and never after it was spent.\<close>

lemma granted_distinct:
  "inv s \<Longrightarrow> distinct (granted ident (fst (run_all serve rs s))) \<and>
   set (granted ident (fst (run_all serve rs s))) \<inter> spent s = {}"
proof (induction rs arbitrary: s)
  case (Cons r rs)
  obtain a s' where serve: "serve r s = (a, s')" by (cases "serve r s")
  let ?t = "fst (run_all serve rs s')"
  have run: "fst (run_all serve (r # rs) s) = (r, a) # ?t"
    by (simp add: serve case_prod_unfold Let_def)
  have "inv s'" using kept_inv [OF Cons.prems, of r] by (simp add: serve)
  from Cons.IH [OF this] have ih: "distinct (granted ident ?t)" "set (granted ident ?t) \<inter> spent s' = {}" by auto
  have mono: "spent s \<subseteq> spent s'" using spent_kept [OF Cons.prems, of r] by (simp add: serve)
  show ?case
  proof (cases a)
    case (Inl e)
    with ih mono show ?thesis unfolding run by auto
  next
    case (Inr x)
    show ?thesis
    proof (cases "ident r x")
      case (Some i)
      with granted_fresh [OF Cons.prems] serve Inr have "i \<notin> spent s" "i \<in> spent s'" by auto
      with ih mono Inr Some show ?thesis unfolding run by auto
    next
      case None
      with ih mono Inr show ?thesis unfolding run by auto
    qed
  qed
qed simp

end

locale single_use =
  fixes serve :: "'r \<Rightarrow> 's \<Rightarrow> 'a res \<times> 's"
    and ident :: "'r \<Rightarrow> 'a \<Rightarrow> 'i option"
    and spent :: "'s \<Rightarrow> 'i set"
  assumes denied: "serve r s = (Inl e, s') \<Longrightarrow> spent s \<subseteq> spent s'"
    and kept: "serve r s = (Inr x, s') \<Longrightarrow> spent s \<subseteq> spent s'"
    and fresh_use: "serve r s = (Inr x, s') \<Longrightarrow> ident r x = Some i \<Longrightarrow> i \<notin> spent s \<and> i \<in> spent s'"
begin

lemma spent_mono: "spent s \<subseteq> spent (snd (serve r s))"
proof (cases "serve r s")
  case (Pair a s')
  then show ?thesis using denied kept by (cases a) auto
qed

end

text \<open>Without an invariant the laws are those of the guarded interface for the trivial one.\<close>

sublocale single_use \<subseteq> unguarded: guarded_use serve ident spent "\<lambda>_. True"
  by unfold_locales (use spent_mono fresh_use in auto)

context single_use
begin

lemma run_spent_mono: "spent s \<subseteq> spent (snd (run_all serve rs s))"
  by (rule unguarded.run_spent_kept [OF TrueI])

lemma granted_once:
  "distinct (granted ident (fst (run_all serve rs s))) \<and>
   set (granted ident (fst (run_all serve rs s))) \<inter> spent s = {}"
  by (rule unguarded.granted_distinct [OF TrueI])

lemma never_again:
  assumes "i \<in> spent s" shows "i \<notin> set (granted ident (fst (run_all serve rs s)))"
  using granted_once [of rs s] assms by blast

end

end
