(* ===== verification/Sqlite.thy ===== *)
theory Sqlite
  imports Stdlib
begin

text \<open>
  The numbers of SQLite: what an \<^verbatim>\<open>int\<close> is bound to, and the sum of a column and an integer, which leaves
  the 64 bit integers for a double where it overflows.
\<close>

section \<open>Bound parameters\<close>

definition int64 :: "int \<Rightarrow> bool" where
  "int64 n \<longleftrightarrow> - 0x8000000000000000 \<le> n \<and> n < 0x8000000000000000"

text \<open>An \<^verbatim>\<open>int\<close> that does not fit a 64-bit SQLite integer cannot be bound.\<close>

definition sql_int :: "int \<Rightarrow> int res" where
  "sql_int n = (if int64 n then Inr n else raise OverflowError ''Python int too large to convert to SQLite INTEGER'')"

definition sql_int_option :: "int option \<Rightarrow> int option res" where
  "sql_int_option n = (case n of None \<Rightarrow> Inr None | Some i \<Rightarrow> rbind (sql_int i) (\<lambda>j. Inr (Some j)))"

lemma sql_int_eq [simp]: "sql_int n = Inr m \<longleftrightarrow> int64 n \<and> m = n"
  by (auto simp: sql_int_def)

lemma sql_int_option_eq [simp]: "sql_int_option n = Inr m \<longleftrightarrow> (\<forall>i. n = Some i \<longrightarrow> int64 i) \<and> m = n"
  by (cases n) (auto simp: sql_int_option_def)

section \<open>Columns\<close>

text \<open>The double nearest to an integer, ties to even; beyond the range of doubles it is not used: adding at most
  \<open>2 ^ 63\<close> to a double from \<open>2 ^ 117\<close> on does not change it.\<close>

definition round_to :: "nat \<Rightarrow> nat \<Rightarrow> nat" where
  "round_to u n = (let q = n div u; r = n mod u in (if 2 * r < u \<or> 2 * r = u \<and> even q then q else q + 1) * u)"

definition nearest_nat :: "nat \<Rightarrow> nat" where
  "nearest_nat n = round_to (2 ^ (bit_length n - 53)) n"

definition nearest_double :: "int \<Rightarrow> int" where
  "nearest_double i = sgn i * int (nearest_nat (nat \<bar>i\<bar>))"

text \<open>A number in a column: an \<^verbatim>\<open>INTEGER\<close>, or a \<^verbatim>\<open>REAL\<close>, here the double nearest to an integer
  (every \<^verbatim>\<open>REAL\<close> of these columns comes from a sum of integers).\<close>

datatype sql_num = SqlInt int | SqlReal int

fun sql_val :: "sql_num \<Rightarrow> int" where
  "sql_val (SqlInt n) = n"
| "sql_val (SqlReal n) = nearest_double n"

text \<open>\<^verbatim>\<open>column + ?\<close>: an integer sum that overflows is computed again in doubles.\<close>

fun sql_add :: "sql_num \<Rightarrow> int \<Rightarrow> sql_num" where
  "sql_add (SqlInt a) b = (if int64 (a + b) then SqlInt (a + b) else SqlReal (nearest_double a + nearest_double b))"
| "sql_add (SqlReal a) b = SqlReal (nearest_double a + nearest_double b)"

text \<open>What a column of affinity \<^verbatim>\<open>INTEGER\<close> stores: a double strictly between the least and the largest
  integer is converted (it is integral here), a larger one stays a double.\<close>

fun sql_store :: "sql_num \<Rightarrow> sql_num" where
  "sql_store (SqlReal a) = (let r = nearest_double a in
     if - 0x8000000000000000 < r \<and> r < 0x7FFFFFFFFFFFFFFF then SqlInt r else SqlReal a)"
| "sql_store v = v"

lemma sql_val_store [simp]: "sql_val (sql_store v) = sql_val v"
  by (cases v) (simp_all add: Let_def)

section \<open>Rounding\<close>

lemma bit_length_eq: "2 ^ m \<le> n \<Longrightarrow> n < 2 ^ Suc m \<Longrightarrow> bit_length n = Suc m"
proof (rule ccontr)
  assume n: "2 ^ m \<le> n" "n < 2 ^ Suc m" and ne: "bit_length n \<noteq> Suc m"
  from n(1) have "n \<noteq> 0" by (metis le_zero_eq power_not_zero zero_neq_numeral)
  then have low: "2 ^ (bit_length n - 1) \<le> n" by (rule bit_length_lower)
  show False
  proof (cases "bit_length n \<le> m")
    case True
    then have "(2::nat) ^ bit_length n \<le> 2 ^ m" by (rule power_increasing) simp
    with bit_length_upper [of n] n(1) show False by linarith
  next
    case False
    with ne have "Suc m \<le> bit_length n - 1" by linarith
    then have "(2::nat) ^ Suc m \<le> 2 ^ (bit_length n - 1)" by (rule power_increasing) simp
    with low n(2) show False by linarith
  qed
qed

lemma bit_length_mono: assumes "m \<le> n" shows "bit_length m \<le> bit_length n"
proof (cases "m = 0")
  case False
  show ?thesis
  proof (rule ccontr)
    assume "\<not> bit_length m \<le> bit_length n"
    then have "(2::nat) ^ bit_length n \<le> 2 ^ (bit_length m - 1)" by (intro power_increasing) simp_all
    with bit_length_upper [of n] bit_length_lower [OF False] assms show False by linarith
  qed
qed simp

lemma round_to_1 [simp]: "round_to (Suc 0) n = n"
  by (simp add: round_to_def)

lemma round_to_dvd: "u dvd round_to u n"
  by (simp add: round_to_def Let_def)

lemma round_to_bounds: "n div u * u \<le> round_to u n" "round_to u n \<le> (n div u + 1) * u"
  by (simp_all add: round_to_def Let_def)

lemma round_to_error: assumes "0 < u" shows "2 * n \<le> 2 * round_to u n + u"
proof -
  have n: "n = n div u * u + n mod u" by (simp add: div_mult_mod_eq)
  show ?thesis
  proof (cases "2 * (n mod u) \<le> u")
    case True
    then show ?thesis using n round_to_bounds(1) [of n u] by linarith
  next
    case False
    then have "round_to u n = n div u * u + u" by (simp add: round_to_def Let_def)
    moreover have "n mod u < u" using assms by simp
    ultimately show ?thesis using n by linarith
  qed
qed

lemma round_to_mono: assumes "m \<le> n" shows "round_to u m \<le> round_to u n"
proof (cases "m div u = n div u")
  case True
  with assms have "m mod u \<le> n mod u"
    by (metis add_le_cancel_left div_mult_mod_eq)
  with True show ?thesis by (auto simp: round_to_def Let_def)
next
  case False
  then have "m div u + 1 \<le> n div u" using div_le_mono [OF assms, of u] by linarith
  then have "(m div u + 1) * u \<le> n div u * u" by (rule mult_le_mono1)
  with round_to_bounds(1,2) show ?thesis by (meson order_trans)
qed

lemma nearest_nat_dvd: "2 ^ (bit_length n - 53) dvd nearest_nat n"
  unfolding nearest_nat_def by (rule round_to_dvd)

lemma nearest_nat_error: "2 * n \<le> 2 * nearest_nat n + 2 ^ (bit_length n - 53)"
  unfolding nearest_nat_def by (rule round_to_error) simp

lemma nearest_nat_exact: "bit_length n \<le> 53 \<Longrightarrow> nearest_nat n = n"
  by (simp add: nearest_nat_def)

text \<open>Rounding stays between the powers of two around a number, so it is monotone.\<close>

lemma nearest_nat_upper: "nearest_nat n \<le> 2 ^ bit_length n"
proof (cases "bit_length n \<le> 53")
  case True
  with bit_length_upper [of n] show ?thesis by (simp add: nearest_nat_exact)
next
  case False
  let ?k = "bit_length n - 53"
  have "bit_length n = 53 + ?k" using False by simp
  then have p: "(2::nat) ^ bit_length n = 2 ^ 53 * 2 ^ ?k" by (metis power_add)
  then have "n div 2 ^ ?k < 2 ^ 53" using bit_length_upper [of n] by (simp add: less_mult_imp_div_less)
  then have le: "(n div 2 ^ ?k + 1) * 2 ^ ?k \<le> 2 ^ 53 * 2 ^ ?k" by (intro mult_le_mono1) simp
  have "nearest_nat n \<le> (n div 2 ^ ?k + 1) * 2 ^ ?k" unfolding nearest_nat_def by (rule round_to_bounds(2))
  with le show ?thesis unfolding p by (rule order_trans [rotated])
qed

lemma nearest_nat_lower: assumes "n \<noteq> 0" shows "2 ^ (bit_length n - 1) \<le> nearest_nat n"
proof (cases "bit_length n \<le> 53")
  case True
  with bit_length_lower [OF assms] show ?thesis by (simp add: nearest_nat_exact)
next
  case False
  let ?k = "bit_length n - 53"
  have "bit_length n - 1 = 52 + ?k" using False by simp
  then have p: "(2::nat) ^ (bit_length n - 1) = 2 ^ 52 * 2 ^ ?k" by (simp only: power_add)
  have "2 ^ 52 * 2 ^ ?k div 2 ^ ?k \<le> n div 2 ^ ?k" using bit_length_lower [OF assms] unfolding p by (rule div_le_mono)
  then have "2 ^ 52 * 2 ^ ?k \<le> n div 2 ^ ?k * 2 ^ ?k" by (intro mult_le_mono1) simp
  also have "\<dots> \<le> nearest_nat n" unfolding nearest_nat_def by (rule round_to_bounds(1))
  finally show ?thesis unfolding p .
qed

lemma nearest_nat_mono: assumes "m \<le> n" shows "nearest_nat m \<le> nearest_nat n"
proof (cases "bit_length m = bit_length n")
  case True
  with round_to_mono [OF assms] show ?thesis by (simp add: nearest_nat_def)
next
  case False
  with bit_length_mono [OF assms] have lt: "bit_length m \<le> bit_length n - 1" "n \<noteq> 0" by (auto intro: gr0I)
  have "nearest_nat m \<le> 2 ^ bit_length m" by (rule nearest_nat_upper)
  also have "\<dots> \<le> 2 ^ (bit_length n - 1)" by (rule power_increasing [OF lt(1)]) simp
  also have "\<dots> \<le> nearest_nat n" by (rule nearest_nat_lower [OF lt(2)])
  finally show ?thesis .
qed

section \<open>A sum that overflows\<close>

text \<open>The sum of two integers that overflows is at least \<open>2 ^ 63\<close> as a double too: it exceeds every integer of a
  column, so a limit rejects it.\<close>

lemma nearest_power: "nearest_nat (2 ^ 62) = 2 ^ 62"
  by (simp add: nearest_nat_def bit_length_eq [of 62] round_to_def Let_def)

lemma nearest_top: "nearest_nat (2 ^ 63 - 512) = 2 ^ 63"
  by (simp add: nearest_nat_def bit_length_eq [of 62] round_to_def Let_def)

lemma overflow_rounds_up:
  assumes "a < 2 ^ 63" "b < 2 ^ 63" "2 ^ 63 \<le> a + b"
  shows "2 ^ 63 \<le> nearest_nat (nearest_nat a + nearest_nat b)"
proof -
  have main: "2 ^ 63 - 512 \<le> nearest_nat x + nearest_nat y"
    if xy: "y \<le> x" "x < 2 ^ 63" "2 ^ 63 \<le> x + y" for x y
  proof (cases "2 ^ 62 \<le> y")
    case True
    then have "2 ^ 62 \<le> nearest_nat y" "2 ^ 62 \<le> nearest_nat x"
      using nearest_nat_mono [of "2 ^ 62"] xy(1) nearest_power by fastforce+
    then show ?thesis by simp
  next
    case False
    have x: "bit_length x = 63" using xy by (subst bit_length_eq [of 62]) simp_all
    have "bit_length y \<le> bit_length (2 ^ 62 - 1 :: nat)" by (rule bit_length_mono) (use False in simp)
    also have "\<dots> = 62" by (simp add: bit_length_eq [of 61])
    finally have k: "bit_length y - 53 \<le> 9" by simp
    define u :: nat where "u = 2 ^ (bit_length y - 53)"
    have u: "u dvd 512" "0 < u" using le_imp_power_dvd [OF k, of "2::nat"] by (simp_all add: u_def)
    have "1024 dvd nearest_nat x" using nearest_nat_dvd [of x] by (simp add: x)
    moreover have "u dvd 1024" using u(1) by (rule dvd_trans) simp
    ultimately have "u dvd nearest_nat x" using dvd_trans by blast
    then have d: "u dvd nearest_nat x + nearest_nat y" using nearest_nat_dvd [of y] by (simp add: u_def)
    have "2 * x \<le> 2 * nearest_nat x + 1024" using nearest_nat_error [of x] by (simp add: x)
    moreover have "2 * y \<le> 2 * nearest_nat y + u" using nearest_nat_error [of y] by (simp add: u_def)
    ultimately have low: "2 ^ 64 \<le> 2 * (nearest_nat x + nearest_nat y) + 1024 + u" using xy(3) by simp
    have "u dvd 2 ^ 63 - 512" using u(1) by (rule dvd_trans) simp
    then obtain c where "2 ^ 63 - 512 = u * c" by (rule dvdE)
    moreover obtain s where "nearest_nat x + nearest_nat y = u * s" using d by (rule dvdE)
    moreover have "u * c < u * (s + 1)" using low calculation u(2) by (simp add: algebra_simps)
    then have "c < s + 1" by (simp only: nat_mult_less_cancel_disj)
    then have "u * c \<le> u * s" by simp
    ultimately show ?thesis by simp
  qed
  have "2 ^ 63 - 512 \<le> nearest_nat a + nearest_nat b"
    using main [of b a] main [of a b] assms by (cases "b \<le> a") (simp_all add: add.commute)
  from nearest_nat_mono [OF this] show ?thesis unfolding nearest_top .
qed

text \<open>The numbers a counter holds: 64 bit integers and doubles, none negative.\<close>

definition counter_ok :: "sql_num \<Rightarrow> bool" where
  "counter_ok v \<longleftrightarrow> 0 \<le> sql_val v \<and> (\<forall>n. v = SqlInt n \<longrightarrow> int64 n)"

lemma nearest_double_nonneg: "0 \<le> n \<Longrightarrow> 0 \<le> nearest_double n"
  by (simp add: nearest_double_def sgn_if)

lemma nearest_double_int: "nearest_double (int n) = int (nearest_nat n)"
  by (cases "n = 0") (simp_all add: nearest_double_def nearest_nat_def)

lemma counter_add: assumes "counter_ok v" "0 \<le> b" shows "counter_ok (sql_store (sql_add v b))"
proof (cases v)
  case (SqlInt a)
  have "0 \<le> nearest_double (nearest_double a + nearest_double b)" "0 \<le> a"
    using assms SqlInt by (auto simp: counter_ok_def intro!: nearest_double_nonneg add_nonneg_nonneg)
  then show ?thesis using assms SqlInt by (auto simp: counter_ok_def Let_def int64_def)
next
  case (SqlReal a)
  have "0 \<le> nearest_double (nearest_double a + nearest_double b)"
    using assms SqlReal by (auto simp: counter_ok_def intro!: nearest_double_nonneg add_nonneg_nonneg)
  then show ?thesis using assms SqlReal by (auto simp: counter_ok_def Let_def int64_def)
qed

text \<open>A guarded sum that stays within an integer limit is the exact sum, and an integer.\<close>

lemma guarded_sum:
  assumes "counter_ok (SqlInt a)" "0 \<le> b" "int64 b" "int64 l"
  shows "sql_val (sql_add (SqlInt a) b) \<le> l \<longleftrightarrow> a + b \<le> l"
    and "sql_val (sql_add (SqlInt a) b) \<le> l \<Longrightarrow> sql_store (sql_add (SqlInt a) b) = SqlInt (a + b)"
proof -
  have ab: "0 \<le> a" "a < 2 ^ 63" "b < 2 ^ 63" "l < 2 ^ 63" using assms by (auto simp: counter_ok_def int64_def)
  have over: "2 ^ 63 \<le> sql_val (sql_add (SqlInt a) b)" if "\<not> int64 (a + b)"
  proof -
    have "2 ^ 63 \<le> a + b" using that ab assms(2) by (auto simp: int64_def)
    then have "2 ^ 63 \<le> nat a + nat b" "nat a < 2 ^ 63" "nat b < 2 ^ 63" using ab assms(2) by simp_all
    then have "2 ^ 63 \<le> nearest_nat (nearest_nat (nat a) + nearest_nat (nat b))" by (intro overflow_rounds_up) simp_all
    moreover have "nearest_double a + nearest_double b = int (nearest_nat (nat a) + nearest_nat (nat b))"
      using nearest_double_int [of "nat a"] nearest_double_int [of "nat b"] ab assms(2) by simp
    ultimately show ?thesis using that by (simp add: nearest_double_int del: of_nat_add)
  qed
  show "sql_val (sql_add (SqlInt a) b) \<le> l \<longleftrightarrow> a + b \<le> l"
  proof (cases "int64 (a + b)")
    case False
    then have "2 ^ 63 \<le> a + b" using ab assms(2) by (auto simp: int64_def)
    with over [OF False] ab(4) show ?thesis by linarith
  qed simp
  show "sql_store (sql_add (SqlInt a) b) = SqlInt (a + b)" if "sql_val (sql_add (SqlInt a) b) \<le> l"
  proof (cases "int64 (a + b)")
    case False
    with over [OF False] that ab(4) show ?thesis by linarith
  qed simp
qed

text \<open>A column that is increased by one amount after the other.\<close>

definition tally :: "sql_num \<Rightarrow> int list \<Rightarrow> sql_num" where
  "tally v ns = foldl (\<lambda>v n. sql_store (sql_add v n)) v ns"

lemma tally_simps [simp]: "tally v [] = v" "tally v (n # ns) = tally (sql_store (sql_add v n)) ns"
  by (simp_all add: tally_def)

lemma tally_append: "tally v (ms @ ns) = tally (tally v ms) ns"
  by (simp add: tally_def)

lemma tally_exact:
  "0 \<le> a \<Longrightarrow> \<forall>n \<in> set ns. 0 \<le> n \<Longrightarrow> a + sum_list ns < 2 ^ 63 \<Longrightarrow> tally (SqlInt a) ns = SqlInt (a + sum_list ns)"
proof (induction ns arbitrary: a)
  case (Cons n ns)
  have "0 \<le> sum_list ns" using Cons.prems(2) by (intro sum_list_nonneg) simp
  then have "int64 (a + n)" using Cons.prems by (simp add: int64_def)
  with Cons.IH [of "a + n"] Cons.prems show ?case by (simp add: add.assoc)
qed simp

end
