(* ===== verification/Store.thy ===== *)
theory Store
  imports Authority Single_Use Sqlite
begin

text \<open>
  \<^verbatim>\<open>store.py\<close>: the capability store. The SQLite tables are the maps of one
  state record, a transaction is \<open>immediate\<close>. The wall clock (as text in
  \<^verbatim>\<open>_utcnow_iso\<close>, as a number in \<^verbatim>\<open>time.time\<close>) is an argument of
  the operations that read it; times are in microseconds. A governance value is kept as the JSON
  value that its stored text parses to.
\<close>

section \<open>State\<close>

datatype cap_state = ISSUED | CONSUMED

datatype mandate_lifecycle = CREATED | ACTIVE | PAUSED | EXHAUSTED | REVOKED | EXPIRED

fun legal_transitions :: "mandate_lifecycle \<Rightarrow> mandate_lifecycle list" where
  "legal_transitions CREATED = [ACTIVE, REVOKED, EXPIRED]"
| "legal_transitions ACTIVE = [PAUSED, EXHAUSTED, REVOKED, EXPIRED]"
| "legal_transitions PAUSED = [ACTIVE, REVOKED, EXPIRED]"
| "legal_transitions EXHAUSTED = [REVOKED]"
| "legal_transitions REVOKED = []"
| "legal_transitions EXPIRED = []"

record cap_row =
  row_digest :: pystr
  row_holder :: bytes
  row_kind :: pystr
  row_state :: cap_state
  row_spend_limit :: "int option"
  row_spend_asset :: "pystr option"
  row_issued_at :: pystr
  row_expires_at :: pystr
  row_consumed_at :: "pystr option"
  row_spend_consumed :: int
  row_mandate :: "pystr option"
  row_staleness :: int

record mandate_row =
  lifecycle :: mandate_lifecycle
  spend_used :: sql_num
  mandate_limit :: "int option"
  actions_used :: sql_num
  actions_limit :: "int option"
  recipients :: "pystr list"

record store =
  capabilities :: "pystr \<rightharpoonup> cap_row"
  mandates :: "pystr \<rightharpoonup> mandate_row"
  revocations :: "pystr \<rightharpoonup> pystr \<times> nat"
  epochs :: "pystr list"
  last_sync :: int
  version_counter :: int
  agent_state :: "pystr \<rightharpoonup> json"

text \<open>\<^verbatim>\<open>__init__\<close> on a new database: the schema, the first epoch, the sync
  time and the state version.\<close>

definition new_store :: "pystr \<Rightarrow> int \<Rightarrow> store" where
  "new_store now_iso now =
     \<lparr>capabilities = Map.empty, mandates = Map.empty, revocations = Map.empty, epochs = [now_iso],
      last_sync = now, version_counter = 0, agent_state = Map.empty\<rparr>"

section \<open>Revocation view\<close>

text \<open>\<^verbatim>\<open>INSERT ... ON CONFLICT(id) DO NOTHING\<close> for each id.\<close>

fun insert_revocations :: "pystr \<Rightarrow> nat \<Rightarrow> pystr list \<Rightarrow> (pystr \<rightharpoonup> pystr \<times> nat) \<Rightarrow> (pystr \<rightharpoonup> pystr \<times> nat)" where
  "insert_revocations now_iso epoch [] m = m"
| "insert_revocations now_iso epoch (i # is) m =
     insert_revocations now_iso epoch is (if m i = None then m(i \<mapsto> (now_iso, epoch)) else m)"

definition sync_revocations :: "pystr \<Rightarrow> int \<Rightarrow> pystr list \<Rightarrow> store \<Rightarrow> nat res \<times> store" where
  "sync_revocations now_iso when ids = immediate (\<lambda>s.
     let eps = epochs s @ [now_iso]; epoch = length eps in
     Inr (epoch, s\<lparr>epochs := eps, revocations := insert_revocations now_iso epoch ids (revocations s),
       last_sync := when\<rparr>))"

definition revoke :: "pystr \<Rightarrow> int \<Rightarrow> pystr \<Rightarrow> store \<Rightarrow> nat res \<times> store" where
  "revoke now_iso now i = sync_revocations now_iso now [i]"

definition is_revoked :: "pystr \<Rightarrow> store \<Rightarrow> bool" where
  "is_revoked i s \<longleftrightarrow> revocations s i \<noteq> None"

section \<open>Mandates\<close>

text \<open>
  The statement that inserts the row is one autocommitted transaction; the limits have the type
  of the signature.
\<close>

definition create_mandate ::
  "pystr \<Rightarrow> int option \<Rightarrow> int option \<Rightarrow> pystr list \<Rightarrow> store \<Rightarrow> unit res \<times> store" where
  "create_mandate i limit alimit recips = immediate (\<lambda>s.
     if (case limit of None \<Rightarrow> False | Some n \<Rightarrow> n < 0)
     then raise StoreError ''spend_limit must be a non-negative int or None''
     else if (case alimit of None \<Rightarrow> False | Some n \<Rightarrow> n < 0)
     then raise StoreError ''actions_limit must be a non-negative int or None''
     else rbind (sql_int_option limit) (\<lambda>l. rbind (sql_int_option alimit) (\<lambda>a.
       require (mandates s i = None) StoreError ''mandate already exists''
       (Inr ((), s\<lparr>mandates := (mandates s)(i \<mapsto> \<lparr>lifecycle = CREATED, spend_used = SqlInt 0,
          mandate_limit = l, actions_used = SqlInt 0, actions_limit = a, recipients = recips\<rparr>)\<rparr>)))))"

definition get_mandate :: "pystr \<Rightarrow> store \<Rightarrow> mandate_row res" where
  "get_mandate i s = of_option StoreError ''unknown mandate'' (mandates s i)"

definition transition_mandate :: "pystr \<Rightarrow> mandate_lifecycle \<Rightarrow> store \<Rightarrow> unit res \<times> store" where
  "transition_mandate i new = immediate (\<lambda>s.
     rbind (of_option StoreError ''unknown mandate'' (mandates s i)) (\<lambda>row.
     require (new \<in> set (legal_transitions (lifecycle row))) LifecycleError ''illegal mandate transition''
     (Inr ((), s\<lparr>mandates := (mandates s)(i \<mapsto> row\<lparr>lifecycle := new\<rparr>)\<rparr>))))"

text \<open>
  The guarded \<^verbatim>\<open>UPDATE\<close>: a limit that is \<^verbatim>\<open>NULL\<close> does not bound, and then the sum of the
  column may leave the 64 bit integers. The second query only chooses the error.
\<close>

definition within :: "int \<Rightarrow> int option \<Rightarrow> bool" where
  "within n limit \<longleftrightarrow> (case limit of None \<Rightarrow> True | Some l \<Rightarrow> n \<le> l)"

definition debit_mandate_for_child :: "pystr \<Rightarrow> int option \<Rightarrow> store \<Rightarrow> unit res \<times> store" where
  "debit_mandate_for_child i child_limit = immediate (\<lambda>s.
     let reserve = (case child_limit of None \<Rightarrow> 0 | Some n \<Rightarrow> n) in
     if reserve < 0 then raise BudgetExceededError ''child spend_limit must be a non-negative int''
     else rbind (sql_int reserve) (\<lambda>reserve.
       rbind (of_option StoreError ''unknown mandate'' (mandates s i)) (\<lambda>row.
       require (lifecycle row = ACTIVE) AuthorizationDenied ''cannot mint child: mandate is not ACTIVE''
       (require (within (sql_val (sql_add (spend_used row) reserve)) (mandate_limit row) \<and>
                 within (sql_val (sql_add (actions_used row) 1)) (actions_limit row)) BudgetExceededError
          ''mandate budget oversubscribed by child mint''
        (Inr ((), s\<lparr>mandates := (mandates s)(i \<mapsto> row\<lparr>spend_used := sql_store (sql_add (spend_used row) reserve),
           actions_used := sql_store (sql_add (actions_used row) 1)\<rparr>)\<rparr>))))))"

section \<open>Capabilities\<close>

definition register_capability :: "cap_payload \<Rightarrow> pystr option \<Rightarrow> store \<Rightarrow> unit res \<times> store" where
  "register_capability p mandate = immediate (\<lambda>s.
     require (case mandate of None \<Rightarrow> True | Some m \<Rightarrow> mandates s m \<noteq> None) StoreError ''unknown mandate''
     (rbind (sql_int_option (spend_limit p)) (\<lambda>limit.
      rbind (sql_int (max_revocation_staleness p)) (\<lambda>staleness.
      require (capabilities s (capability_id p) = None) StoreError ''capability already registered''
      (Inr ((), s\<lparr>capabilities := (capabilities s)(capability_id p \<mapsto>
         \<lparr>row_digest = cap_digest p, row_holder = holder_pubkey p, row_kind = kind p,
          row_state = ISSUED, row_spend_limit = limit, row_spend_asset = spend_asset p,
          row_issued_at = cap_issued_at p, row_expires_at = expires_at p, row_consumed_at = None,
          row_spend_consumed = 0, row_mandate = mandate, row_staleness = staleness\<rparr>)\<rparr>))))))"

definition capability_state :: "pystr \<Rightarrow> store \<Rightarrow> cap_state res" where
  "capability_state i s = of_option UnknownCapabilityError ''no such capability''
     (map_option row_state (capabilities s i))"


section \<open>Consumption\<close>

record consume_args =
  a_cose :: pyval
  a_proof :: pyval
  a_challenge :: bytes
  a_issuers :: trust
  a_env :: "action_envelope option"

text \<open>
  \<^verbatim>\<open>_consume_inner\<close> in the order of its steps. Steps 1 and 8 turn a
  \<^verbatim>\<open>CapabilityError\<close> into a denial; other exceptions pass.
\<close>

definition revoke_targets :: "cap_payload \<Rightarrow> cap_row \<Rightarrow> pystr list" where
  "revoke_targets p row = capability_id p #
     (case row_mandate row of None \<Rightarrow> [] | Some m \<Rightarrow> if m = [] then [] else [m])"

definition match_record :: "cap_payload \<Rightarrow> cap_row \<Rightarrow> unit res" where
  "match_record p row =
     require (row_holder row = holder_pubkey p) AuthorizationDenied ''holder key does not match registered capability''
     (require (row_digest row = cap_digest p) AuthorizationDenied ''action digest does not match registered capability''
     (require (row_kind row = kind p) AuthorizationDenied ''kind does not match registered capability'' (Inr ())))"

definition match_envelope :: "prims \<Rightarrow> cap_payload \<Rightarrow> action_envelope option \<Rightarrow> unit res" where
  "match_envelope P p e = (case e of None \<Rightarrow> Inr ()
     | Some e \<Rightarrow> rbind (action_digest P e) (\<lambda>d. require (d = cap_digest p) AuthorizationDenied
         ''envelope action_digest does not match capability binding'' (Inr ())))"

definition check_mandate :: "store \<Rightarrow> pystr option \<Rightarrow> unit res" where
  "check_mandate s m = (case m of None \<Rightarrow> Inr ()
     | Some i \<Rightarrow> require (case mandates s i of None \<Rightarrow> False | Some row \<Rightarrow> lifecycle row = ACTIVE) AuthorizationDenied
         ''mandate is not ACTIVE'' (Inr ()))"

definition flip :: "pystr \<Rightarrow> int \<Rightarrow> pystr \<Rightarrow> store \<Rightarrow> store res" where
  "flip now_iso amount i s = rbind (sql_int amount) (\<lambda>amount. case capabilities s i of
     Some row \<Rightarrow> if row_state row = ISSUED
       then Inr (s\<lparr>capabilities := (capabilities s)(i \<mapsto> row\<lparr>row_state := CONSUMED,
         row_consumed_at := Some now_iso, row_spend_consumed := amount\<rparr>)\<rparr>)
       else raise DoubleSpendError ''capability consumed concurrently''
   | None \<Rightarrow> raise DoubleSpendError ''capability consumed concurrently'')"

definition consume_inner ::
  "prims \<Rightarrow> (pyval \<Rightarrow> cap_payload option) \<Rightarrow> pystr \<Rightarrow> consume_args \<Rightarrow> int \<Rightarrow> int \<Rightarrow> bool \<Rightarrow> store
     \<Rightarrow> (cap_payload \<times> store) res" where
  "consume_inner P validate now_iso a amount moment consume s =
     rbind (except CapabilityError AuthorizationDenied ''capability verification failed''
       (verify_capability P validate (a_cose a) (a_issuers a) moment)) (\<lambda>p.
     rbind (of_option UnknownCapabilityError ''capability not registered'' (capabilities s (capability_id p))) (\<lambda>row.
     rbind (match_record p row) (\<lambda>_.
     rbind (match_envelope P p (a_env a)) (\<lambda>_.
     require (\<forall>t \<in> set (revoke_targets p row). \<not> is_revoked t s) RevokedError ''has been revoked''
     (require (moment - last_sync s \<le> seconds (max_revocation_staleness p)) StaleRevocationError
        ''revocation view is older than max_revocation_staleness''
     (require (row_state row = ISSUED) DoubleSpendError ''capability already consumed''
     (rbind (except CapabilityError AuthorizationDenied ''holder proof failed''
        (verify_holder_proof P (holder_pubkey p) (capability_id p) (a_challenge a) (a_proof a))) (\<lambda>_.
      rbind (check_mandate s (row_mandate row)) (\<lambda>_.
      require (within amount (spend_limit p)) BudgetExceededError ''spend_amount exceeds capability spend_limit''
      (if consume then rbind (flip now_iso amount (capability_id p) s) (\<lambda>s'. Inr (p, s'))
       else Inr (p, s)))))))))))"

definition consume_capability ::
  "prims \<Rightarrow> (pyval \<Rightarrow> cap_payload option) \<Rightarrow> int \<Rightarrow> pystr \<Rightarrow> consume_args \<Rightarrow> pyval \<Rightarrow> datetime option
     \<Rightarrow> store \<Rightarrow> cap_payload res \<times> store" where
  "consume_capability P validate tick now_iso a amount now = immediate (\<lambda>s. case amount of
     PInt n \<Rightarrow>
       if n < 0 then raise AuthorizationDenied ''spend_amount must be >= 0''
       else consume_inner P validate now_iso a n (case now of Some t \<Rightarrow> as_utc t | None \<Rightarrow> tick) True s
   | _ \<Rightarrow> raise AuthorizationDenied ''spend_amount must be an integer'')"

definition check_capability ::
  "prims \<Rightarrow> (pyval \<Rightarrow> cap_payload option) \<Rightarrow> int \<Rightarrow> consume_args \<Rightarrow> datetime option \<Rightarrow> store \<Rightarrow> cap_payload res" where
  "check_capability P validate tick a now s =
     rbind (consume_inner P validate [] (a\<lparr>a_env := None\<rparr>) 0
       (case now of Some t \<Rightarrow> as_utc t | None \<Rightarrow> tick) False s) (\<lambda>(p, _). Inr p)"

section \<open>State-bound commits\<close>

text \<open>\<^verbatim>\<open>json.loads(canonical_bytes(v))\<close>: the members of objects come back
  in the order of their keys.\<close>

function json_norm :: "json \<Rightarrow> json" and json_norm_items :: "json list \<Rightarrow> json list"
  and json_norm_members :: "(pystr \<times> json) list \<Rightarrow> (pystr \<times> json) list" where
  "json_norm (JArr vs) = JArr (json_norm_items vs)"
| "json_norm (JObj kvs) = JObj (sort_key fst (json_norm_members kvs))"
| "json_norm JNull = JNull"
| "json_norm (JBool b) = JBool b"
| "json_norm (JInt i) = JInt i"
| "json_norm (JFloat x) = JFloat x"
| "json_norm (JStr s) = JStr s"
| "json_norm_items [] = []"
| "json_norm_items (v # vs) = json_norm v # json_norm_items vs"
| "json_norm_members [] = []"
| "json_norm_members ((k, v) # kvs) = (k, json_norm v) # json_norm_members kvs"
  by pat_completeness auto
termination
  by (relation "measure (case_sum size (case_sum (size_list size)
        (size_list (size_prod (\<lambda>_. 0) size))))") auto

record state_view =
  sv_version :: int
  sv_digest :: pystr
  sv_values :: "(pystr \<times> json) list"

record effect_preview =
  preview_id :: pystr
  envelope_digest :: pystr
  pv_version :: int
  pv_digest :: pystr
  read_keys :: "pystr list"
  pv_outcome :: "(pystr \<times> json) list"
  planned_writes :: "(pystr \<times> json) list"
  pv_allowed :: bool
  pv_previewed_at :: int
  pv_expires_at :: int
  authority_key_id :: pystr
  pv_signature :: pystr

text \<open>The values of the keys, each key once (a repeated key keeps its first place).\<close>

definition values_of :: "store \<Rightarrow> pystr list \<Rightarrow> (pystr \<times> json) list" where
  "values_of s keys = map (\<lambda>k. (k, case agent_state s k of None \<Rightarrow> JNull | Some v \<Rightarrow> v)) (rev (remdups (rev keys)))"

definition read_state_locked :: "prims \<Rightarrow> pystr list \<Rightarrow> store \<Rightarrow> state_view res" where
  "read_state_locked P keys s =
     (let vs = values_of s keys in
      rbind (Canonical.sha256_hex P (JObj (sort_key fst vs))) (\<lambda>d.
      Inr \<lparr>sv_version = version_counter s, sv_digest = d, sv_values = vs\<rparr>))"

definition read_state :: "prims \<Rightarrow> pystr list \<Rightarrow> store \<Rightarrow> state_view res" where
  "read_state P keys s = require (keys \<noteq> []) StoreError ''read_state requires at least one key''
     (read_state_locked P keys s)"

text \<open>The loop of upserts; a value without a canonical form raises.\<close>

fun put_all :: "prims \<Rightarrow> (pystr \<times> json) list \<Rightarrow> (pystr \<rightharpoonup> json) \<Rightarrow> (pystr \<rightharpoonup> json) res" where
  "put_all P [] m = Inr m"
| "put_all P ((k, v) # kvs) m =
     rbind (canonical_bytes P v) (\<lambda>_. put_all P kvs (m(k \<mapsto> json_norm v)))"

definition write_state :: "prims \<Rightarrow> (pystr \<times> json) list \<Rightarrow> store \<Rightarrow> int res \<times> store" where
  "write_state P writes = immediate (\<lambda>s.
     require (writes \<noteq> []) StoreError ''write_state requires at least one write''
     (rbind (put_all P writes (agent_state s)) (\<lambda>m.
      Inr (version_counter s + 1, s\<lparr>agent_state := m, version_counter := version_counter s + 1\<rparr>))))"

record commit_result =
  cr_preview_id :: pystr
  cr_capability_id :: pystr
  cr_version :: int
  cr_writes :: "(pystr \<times> json) list"

definition commit_state_bound ::
  "prims \<Rightarrow> (pyval \<Rightarrow> cap_payload option) \<Rightarrow> pystr \<Rightarrow> action_envelope \<Rightarrow> consume_args \<Rightarrow> effect_preview
     \<Rightarrow> datetime \<Rightarrow> store \<Rightarrow> commit_result res \<times> store" where
  "commit_state_bound P validate now_iso e a pv now = immediate (\<lambda>s.
     if \<exists>k \<in> fst ` set (planned_writes pv). k \<notin> set (read_keys pv)
     then raise StateChangedError ''preview writes to keys outside its read set''
     else rbind (consume_inner P validate now_iso (a\<lparr>a_env := Some e\<rparr>) 0 (as_utc now) True s) (\<lambda>(p, s1).
       rbind (read_state_locked P (read_keys pv) s1) (\<lambda>view.
       require (sv_version view = pv_version pv \<and> sv_digest view = pv_digest pv) StateChangedError
         ''state moved since prepare''
       (rbind (put_all P (planned_writes pv) (agent_state s1)) (\<lambda>m.
        let v = sv_version view + 1 in
        Inr (\<lparr>cr_preview_id = preview_id pv, cr_capability_id = capability_id p, cr_version = v,
             cr_writes = planned_writes pv\<rparr>,
           s1\<lparr>agent_state := m, version_counter := v\<rparr>))))))"

end
