(* ===== verification/Store_Laws.thy ===== *)
theory Store_Laws
  imports Store Capability
begin

text \<open>
  What the capability store guarantees over every sequence of its operations: failures leave
  no trace, a capability is granted at most once, revocation is final, budgets are not
  oversubscribed, lifecycles move along legal transitions, and a state-bound commit applies
  to the state it was prepared against. Operations are serialised by the store's lock and by
  \<^verbatim>\<open>BEGIN IMMEDIATE\<close>, so an execution is a sequence of operations.
\<close>

section \<open>The operations as one step\<close>

datatype op =
    Sync pystr int "pystr list"
  | Create pystr "int option" "int option" "pystr list"
  | Transition pystr mandate_lifecycle
  | Register cap_payload "pystr option"
  | Debit pystr "int option"
  | Consume int pystr consume_args pyval "datetime option"
  | Write "(pystr \<times> json) list"
  | Commit pystr action_envelope consume_args effect_preview datetime

datatype answer =
    Done | Epoch nat | Granted cap_payload | Version int | Committed commit_result

definition answer_with :: "('a \<Rightarrow> answer) \<Rightarrow> 'a res \<times> store \<Rightarrow> answer res \<times> store" where
  "answer_with f r = (map_sum id f (fst r), snd r)"

fun exec :: "prims \<Rightarrow> (pyval \<Rightarrow> cap_payload option) \<Rightarrow> op \<Rightarrow> store \<Rightarrow> answer res \<times> store" where
  "exec P V (Sync now_iso now ids) s = answer_with Epoch (sync_revocations now_iso now ids s)"
| "exec P V (Create i l a rs) s = answer_with (\<lambda>_. Done) (create_mandate i l a rs s)"
| "exec P V (Transition i new) s = answer_with (\<lambda>_. Done) (transition_mandate i new s)"
| "exec P V (Register p m) s = answer_with (\<lambda>_. Done) (register_capability p m s)"
| "exec P V (Debit i n) s = answer_with (\<lambda>_. Done) (debit_mandate_for_child i n s)"
| "exec P V (Consume tick now_iso a n now) s =
     answer_with Granted (consume_capability P V tick now_iso a n now s)"
| "exec P V (Write ws) s = answer_with Version (write_state P ws s)"
| "exec P V (Commit now_iso e a pv now) s =
     answer_with Committed (commit_state_bound P V now_iso e a pv now s)"

lemma answer_with_eq:
  "answer_with f r = (Inl e, s') \<longleftrightarrow> r = (Inl e, s')"
  "answer_with f r = (Inr x, s') \<longleftrightarrow> (\<exists>y. r = (Inr y, s') \<and> x = f y)"
  by (cases r; cases "fst r"; auto simp: answer_with_def)+

lemmas store_ops = sync_revocations_def create_mandate_def transition_mandate_def
  register_capability_def debit_mandate_for_child_def consume_capability_def write_state_def
  commit_state_bound_def

text \<open>Every operation is a transaction: an exception leaves the store as it was.\<close>

lemma exec_failed: "exec P V x s = (Inl e, s') \<Longrightarrow> s' = s"
  by (cases x) (simp_all add: answer_with_eq store_ops)

section \<open>What a successful consumption has checked\<close>

lemma match_record_eq [simp]: "match_record p row = Inr u \<longleftrightarrow>
    row_holder row = holder_pubkey p \<and> row_digest row = cap_digest p \<and> row_kind row = kind p"
  by (auto simp: match_record_def)

lemma match_envelope_eq [simp]: "match_envelope P p e = Inr u \<longleftrightarrow>
    (\<forall>x. e = Some x \<longrightarrow> action_digest P x = Inr (cap_digest p))"
  by (auto simp: match_envelope_def split: option.splits)

lemma check_mandate_eq [simp]: "check_mandate s m = Inr u \<longleftrightarrow>
    (\<forall>i. m = Some i \<longrightarrow> (\<exists>row. mandates s i = Some row \<and> lifecycle row = ACTIVE))"
  by (auto simp: check_mandate_def split: option.splits)

definition authorized ::
  "prims \<Rightarrow> (pyval \<Rightarrow> cap_payload option) \<Rightarrow> consume_args \<Rightarrow> int \<Rightarrow> int \<Rightarrow> store \<Rightarrow> cap_payload \<Rightarrow> cap_row \<Rightarrow> bool" where
  "authorized P V a amount moment s p row \<longleftrightarrow>
     verify_capability P V (a_cose a) (a_issuers a) moment = Inr p \<and>
     capabilities s (capability_id p) = Some row \<and>
     row_holder row = holder_pubkey p \<and> row_digest row = cap_digest p \<and> row_kind row = kind p \<and>
     (\<forall>e. a_env a = Some e \<longrightarrow> action_digest P e = Inr (cap_digest p)) \<and>
     (\<forall>t \<in> set (revoke_targets p row). \<not> is_revoked t s) \<and>
     moment - last_sync s \<le> seconds (max_revocation_staleness p) \<and> row_state row = ISSUED \<and>
     verify_holder_proof P (holder_pubkey p) (capability_id p) (a_challenge a) (a_proof a) = Inr () \<and>
     (\<forall>i. row_mandate row = Some i \<longrightarrow> (\<exists>m. mandates s i = Some m \<and> lifecycle m = ACTIVE)) \<and>
     within amount (spend_limit p)"

definition consumed_row :: "pystr \<Rightarrow> int \<Rightarrow> cap_row \<Rightarrow> cap_row" where
  "consumed_row now_iso amount row =
     row\<lparr>row_state := CONSUMED, row_consumed_at := Some now_iso, row_spend_consumed := amount\<rparr>"

definition consumed_store :: "pystr \<Rightarrow> int \<Rightarrow> pystr \<Rightarrow> cap_row \<Rightarrow> store \<Rightarrow> store" where
  "consumed_store now_iso amount i row s =
     s\<lparr>capabilities := (capabilities s)(i \<mapsto> consumed_row now_iso amount row)\<rparr>"

lemma consume_inner_eq:
  "consume_inner P V now_iso a amount moment c s = Inr (p, s') \<longleftrightarrow>
     (\<exists>row. authorized P V a amount moment s p row \<and>
        (if c then int64 amount \<and> s' = consumed_store now_iso amount (capability_id p) row s else s' = s))"
  unfolding consume_inner_def authorized_def
  by (auto simp: flip_def consumed_store_def consumed_row_def)


lemma consume_capability_eq:
  "consume_capability P V tick now_iso a v now s = (Inr p, s') \<longleftrightarrow>
     (\<exists>n row. v = PInt n \<and> 0 \<le> n \<and> int64 n \<and>
        authorized P V a n (case now of Some t \<Rightarrow> as_utc t | None \<Rightarrow> tick) s p row \<and>
        s' = consumed_store now_iso n (capability_id p) row s)"
  by (cases v) (auto simp: consume_capability_def consume_inner_eq)

definition bound_view :: "prims \<Rightarrow> effect_preview \<Rightarrow> store \<Rightarrow> bool" where
  "bound_view P pv s \<longleftrightarrow> version_counter s = pv_version pv \<and>
     Canonical.sha256_hex P (JObj (sort_key fst (values_of s (read_keys pv)))) = Inr (pv_digest pv)"

lemma consumed_store_view [simp]:
  "values_of (consumed_store now n i row s) keys = values_of s keys"
  "version_counter (consumed_store now n i row s) = version_counter s"
  "agent_state (consumed_store now n i row s) = agent_state s"
  by (simp_all add: consumed_store_def values_of_def)

lemma commit_body_eq:
  "rbind (read_state_locked P (read_keys pv) s1) (\<lambda>view.
     require (sv_version view = pv_version pv \<and> sv_digest view = pv_digest pv) StateChangedError msg
     (rbind (put_all P (planned_writes pv) (agent_state s1)) (\<lambda>m.
      let v = sv_version view + 1 in Inr (f v, s1\<lparr>agent_state := m, version_counter := v\<rparr>)))) = Inr (r, s')
   \<longleftrightarrow> bound_view P pv s1 \<and> r = f (pv_version pv + 1) \<and>
     (\<exists>m. put_all P (planned_writes pv) (agent_state s1) = Inr m \<and>
       s' = s1\<lparr>agent_state := m, version_counter := pv_version pv + 1\<rparr>)"
  by (auto simp: read_state_locked_def Let_def bound_view_def)

lemma commit_state_bound_eq:
  "commit_state_bound P V now_iso e a pv now s = (Inr r, s') \<longleftrightarrow>
     fst ` set (planned_writes pv) \<subseteq> set (read_keys pv) \<and> bound_view P pv s \<and>
     (\<exists>p row m. authorized P V (a\<lparr>a_env := Some e\<rparr>) 0 (as_utc now) s p row \<and>
        put_all P (planned_writes pv) (agent_state s) = Inr m \<and>
        r = \<lparr>cr_preview_id = preview_id pv, cr_capability_id = capability_id p,
             cr_version = pv_version pv + 1, cr_writes = planned_writes pv\<rparr> \<and>
        s' = (consumed_store now_iso 0 (capability_id p) row s)
          \<lparr>agent_state := m, version_counter := pv_version pv + 1\<rparr>)"
  (is "?l \<longleftrightarrow> ?r")
proof -
  have b: "bound_view P pv (consumed_store now_iso 0 i row s) = bound_view P pv s" for i row
    by (simp add: bound_view_def)
  let ?ci = "consume_inner P V now_iso (a\<lparr>a_env := Some e\<rparr>) 0 (as_utc now) True s"
  have ci: "?ci = Inr (p, s1) \<longleftrightarrow> (\<exists>row. authorized P V (a\<lparr>a_env := Some e\<rparr>) 0 (as_utc now) s p row \<and>
      s1 = consumed_store now_iso 0 (capability_id p) row s)" for p s1
    by (simp add: consume_inner_eq int64_def)
  show ?thesis
  proof (cases ?ci)
    case (Inl x)
    then have "\<not> ?l" by (simp add: commit_state_bound_def)
    moreover have "\<not> ?r" using Inl ci by fastforce
    ultimately show ?thesis by blast
  next
    case (Inr q)
    obtain p s1 where q: "q = (p, s1)" by (cases q)
    then obtain row where row: "authorized P V (a\<lparr>a_env := Some e\<rparr>) 0 (as_utc now) s p row"
      and s1: "s1 = consumed_store now_iso 0 (capability_id p) row s" using Inr ci by blast
    have uniq: "p' = p \<and> row' = row"
      if "authorized P V (a\<lparr>a_env := Some e\<rparr>) 0 (as_utc now) s p' row'" for p' row'
      using that row by (simp add: authorized_def)
    have "?l \<longleftrightarrow> fst ` set (planned_writes pv) \<subseteq> set (read_keys pv) \<and> bound_view P pv s1 \<and>
        r = \<lparr>cr_preview_id = preview_id pv, cr_capability_id = capability_id p,
             cr_version = pv_version pv + 1, cr_writes = planned_writes pv\<rparr> \<and>
        (\<exists>m. put_all P (planned_writes pv) (agent_state s1) = Inr m \<and>
          s' = s1\<lparr>agent_state := m, version_counter := pv_version pv + 1\<rparr>)"
      unfolding commit_state_bound_def immediate_Inr if_raise_eq_Inr Inr q rbind_simps prod.case commit_body_eq
      by (simp add: image_subset_iff Ball_def Bex_def) blast
    then show ?thesis unfolding s1 b consumed_store_view using row uniq by blast
  qed
qed

section \<open>History\<close>

text \<open>\<open>evolves s s'\<close>: what never happens backwards. A capability stays registered as
  it was issued and a consumed one stays consumed; limits are fixed, usage changes by
  adding amounts that are not negative, lifecycles move along legal transitions; revocations and epochs accumulate; the version does not
  decrease.\<close>

definition legal :: "(mandate_lifecycle \<times> mandate_lifecycle) set" where
  "legal = {(a, b). b \<in> set (legal_transitions a)}"

definition row_evolves :: "cap_row \<Rightarrow> cap_row \<Rightarrow> bool" where
  "row_evolves r r' \<longleftrightarrow> r' = r \<or> row_state r = ISSUED \<and> (\<exists>now n. r' = consumed_row now n r)"

definition increments :: "(sql_num \<times> sql_num) set" where
  "increments = {(v, sql_store (sql_add v n)) | v n. 0 \<le> n}"

lemma increment_step: "0 \<le> n \<Longrightarrow> (v, sql_store (sql_add v n)) \<in> increments\<^sup>*"
  by (rule r_into_rtrancl) (auto simp: increments_def)

definition mandate_evolves :: "mandate_row \<Rightarrow> mandate_row \<Rightarrow> bool" where
  "mandate_evolves m m' \<longleftrightarrow> mandate_limit m' = mandate_limit m \<and> actions_limit m' = actions_limit m \<and>
     (spend_used m, spend_used m') \<in> increments\<^sup>* \<and> (actions_used m, actions_used m') \<in> increments\<^sup>* \<and>
     (lifecycle m, lifecycle m') \<in> legal\<^sup>*"

definition evolves :: "store \<Rightarrow> store \<Rightarrow> bool" where
  "evolves s s' \<longleftrightarrow>
     (\<forall>i r. capabilities s i = Some r \<longrightarrow> (\<exists>r'. capabilities s' i = Some r' \<and> row_evolves r r')) \<and>
     (\<forall>i m. mandates s i = Some m \<longrightarrow> (\<exists>m'. mandates s' i = Some m' \<and> mandate_evolves m m')) \<and>
     (\<forall>i. is_revoked i s \<longrightarrow> is_revoked i s') \<and> (\<exists>es. epochs s' = epochs s @ es) \<and>
     version_counter s \<le> version_counter s'"

lemma evolves_mandate: "evolves s s' \<Longrightarrow> mandates s i = Some m \<Longrightarrow>
    \<exists>m'. mandates s' i = Some m' \<and> mandate_evolves m m'"
  by (simp add: evolves_def)

lemma evolves_row: "evolves s s' \<Longrightarrow> capabilities s i = Some r \<Longrightarrow>
    \<exists>r'. capabilities s' i = Some r' \<and> row_evolves r r'"
  by (simp add: evolves_def)

lemma row_state_consumed [simp]: "row_state (consumed_row now n r) = CONSUMED"
  by (simp add: consumed_row_def)

lemma row_evolves_refl [simp]: "row_evolves r r"
  by (simp add: row_evolves_def)

lemma row_evolves_trans: "row_evolves a b \<Longrightarrow> row_evolves b c \<Longrightarrow> row_evolves a c"
  by (auto simp: row_evolves_def)

lemma mandate_evolves_refl [simp]: "mandate_evolves m m"
  by (simp add: mandate_evolves_def)

lemma mandate_evolves_trans: "mandate_evolves a b \<Longrightarrow> mandate_evolves b c \<Longrightarrow> mandate_evolves a c"
  by (auto simp: mandate_evolves_def)

lemma evolves_refl [simp]: "evolves s s"
  by (auto simp: evolves_def)

lemma evolves_trans:
  assumes "evolves a b" "evolves b c" shows "evolves a c"
proof -
  have "\<exists>r'. capabilities c i = Some r' \<and> row_evolves r r'" if "capabilities a i = Some r" for i r
    using assms that row_evolves_trans unfolding evolves_def by meson
  moreover have "\<exists>m'. mandates c i = Some m' \<and> mandate_evolves m m'" if "mandates a i = Some m" for i m
    using assms that mandate_evolves_trans unfolding evolves_def by meson
  moreover have "\<exists>es. epochs c = epochs a @ es" "version_counter a \<le> version_counter c"
    "is_revoked i a \<Longrightarrow> is_revoked i c" for i
    using assms by (auto simp: evolves_def)
  ultimately show ?thesis by (simp add: evolves_def)
qed

lemma insert_revocations_mono: "m i \<noteq> None \<Longrightarrow> insert_revocations now e ids m i = m i"
  by (induction ids arbitrary: m) auto

lemma insert_revocations_dom: "i \<in> set ids \<Longrightarrow> insert_revocations now e ids m i \<noteq> None"
proof (induction ids arbitrary: m)
  case (Cons a ids)
  then show ?case
    by (cases "i = a"; cases "m a") (auto simp: insert_revocations_mono)
qed simp

lemma consumed_store_evolves:
  "capabilities s i = Some row \<Longrightarrow> row_state row = ISSUED \<Longrightarrow> evolves s (consumed_store now n i row s)"
  by (auto simp: evolves_def consumed_store_def row_evolves_def is_revoked_def)

lemma exec_evolves: "exec P V x s = (a, s') \<Longrightarrow> evolves s s'"
proof (cases a)
  case (Inl e)
  assume "exec P V x s = (a, s')"
  with Inl exec_failed show ?thesis by (metis evolves_refl)
next
  case (Inr y)
  assume "exec P V x s = (a, s')"
  then have ex: "exec P V x s = (Inr y, s')" by (simp add: Inr)
  show ?thesis
  proof (cases x)
    case (Sync now_iso now ids)
    then show ?thesis using ex
      by (auto simp: answer_with_eq sync_revocations_def Let_def evolves_def is_revoked_def
          insert_revocations_mono)
  next
    case (Create i l al rs)
    then show ?thesis using ex
      by (auto simp: answer_with_eq create_mandate_def evolves_def is_revoked_def)
  next
    case (Transition i new)
    then show ?thesis using ex
      by (auto simp: answer_with_eq transition_mandate_def evolves_def is_revoked_def mandate_evolves_def
          legal_def intro!: r_into_rtrancl [of "(lifecycle m, new)" for m])
  next
    case (Register p m)
    then show ?thesis using ex
      by (auto simp: answer_with_eq register_capability_def evolves_def is_revoked_def)
  next
    case (Debit i n)
    then show ?thesis using ex
      by (auto simp: answer_with_eq debit_mandate_for_child_def Let_def evolves_def is_revoked_def
          mandate_evolves_def intro!: increment_step)
  next
    case (Consume tick now_iso ca v now)
    then show ?thesis using ex
      by (auto simp: answer_with_eq consume_capability_eq authorized_def intro: consumed_store_evolves)
  next
    case (Write ws)
    then show ?thesis using ex
      by (auto simp: answer_with_eq write_state_def evolves_def is_revoked_def)
  next
    case (Commit now_iso e ca pv now)
    with ex obtain p row m where "authorized P V (ca\<lparr>a_env := Some e\<rparr>) 0 (as_utc now) s p row"
      "bound_view P pv s" and s': "s' = (consumed_store now_iso 0 (capability_id p) row s)
          \<lparr>agent_state := m, version_counter := pv_version pv + 1\<rparr>"
      by (auto simp: answer_with_eq commit_state_bound_eq)
    then have "evolves s (consumed_store now_iso 0 (capability_id p) row s)" "version_counter s = pv_version pv"
      by (auto simp: authorized_def bound_view_def intro: consumed_store_evolves)
    then show ?thesis by (simp add: s' evolves_def is_revoked_def consumed_store_def)
  qed
qed


section \<open>Executions\<close>

text \<open>The sequences of operations from a new store, and the store they reach.\<close>

inductive reachable :: "prims \<Rightarrow> (pyval \<Rightarrow> cap_payload option) \<Rightarrow> store \<Rightarrow> bool" for P V where
  start: "reachable P V (new_store now_iso now)"
| step: "reachable P V s \<Longrightarrow> exec P V x s = (a, s') \<Longrightarrow> reachable P V s'"

definition limit_kept :: "sql_num \<Rightarrow> int option \<Rightarrow> bool" where
  "limit_kept v limit \<longleftrightarrow> counter_ok v \<and> (\<forall>l. limit = Some l \<longrightarrow> int64 l \<and> (\<exists>n. v = SqlInt n \<and> n \<le> l))"

definition mandate_ok :: "mandate_row \<Rightarrow> bool" where
  "mandate_ok m \<longleftrightarrow> limit_kept (spend_used m) (mandate_limit m) \<and> limit_kept (actions_used m) (actions_limit m)"

definition row_ok :: "store \<Rightarrow> cap_row \<Rightarrow> bool" where
  "row_ok s r \<longleftrightarrow> (\<forall>i. row_mandate r = Some i \<longrightarrow> mandates s i \<noteq> None) \<and> 0 \<le> row_spend_consumed r \<and>
     (row_state r = CONSUMED \<longleftrightarrow> row_consumed_at r \<noteq> None) \<and>
     (row_state r = ISSUED \<longrightarrow> row_spend_consumed r = 0)"

definition store_ok :: "store \<Rightarrow> bool" where
  "store_ok s \<longleftrightarrow> (\<forall>i m. mandates s i = Some m \<longrightarrow> mandate_ok m) \<and>
     (\<forall>i r. capabilities s i = Some r \<longrightarrow> row_ok s r) \<and>
     (\<forall>i t e. revocations s i = Some (t, e) \<longrightarrow> e \<le> length (epochs s)) \<and>
     epochs s \<noteq> [] \<and> 0 \<le> version_counter s"

lemma within_simps [simp]: "within n None" "within n (Some l) \<longleftrightarrow> n \<le> l"
  by (simp_all add: within_def)

lemma limit_kept_add:
  assumes "limit_kept v limit" "0 \<le> n" "int64 n" "within (sql_val (sql_add v n)) limit"
  shows "limit_kept (sql_store (sql_add v n)) limit"
proof (cases limit)
  case None
  with assms counter_add [of v n] show ?thesis by (simp add: limit_kept_def)
next
  case (Some l)
  with assms(1) obtain a where a: "v = SqlInt a" "int64 l" "counter_ok (SqlInt a)" by (auto simp: limit_kept_def)
  note sum = guarded_sum [OF a(3) assms(2,3) a(2)]
  from assms(4) Some a(1) sum have "sql_store (sql_add v n) = SqlInt (a + n)" "a + n \<le> l" by simp_all
  with counter_add [of v n] assms(2) a Some show ?thesis by (simp add: limit_kept_def)
qed

lemma limit_kept_within: "limit_kept v limit \<Longrightarrow> within (sql_val v) limit"
  by (cases limit) (auto simp: limit_kept_def)

lemma new_store_ok: "store_ok (new_store now_iso now)"
  by (simp add: store_ok_def new_store_def)

lemma insert_revocations_epoch:
  "\<forall>i t e. m i = Some (t, e) \<longrightarrow> e \<le> n \<Longrightarrow> insert_revocations now n ids m i = Some (t, e) \<Longrightarrow> e \<le> n"
proof (induction ids arbitrary: m)
  case (Cons a ids)
  let ?m = "if m a = None then m(a \<mapsto> (now, n)) else m"
  have "\<forall>i t e. ?m i = Some (t, e) \<longrightarrow> e \<le> n" using Cons.prems(1) by auto
  moreover have "insert_revocations now n ids ?m i = Some (t, e)" using Cons.prems(2) by simp
  ultimately show ?case by (rule Cons.IH)
qed simp

lemma store_ok_capability:
  assumes "store_ok s" "row_ok s r" shows "store_ok (s\<lparr>capabilities := (capabilities s)(i \<mapsto> r)\<rparr>)"
  using assms by (simp add: store_ok_def row_ok_def)

lemma consumed_store_ok:
  assumes "store_ok s" "capabilities s i = Some row" "0 \<le> n"
  shows "store_ok (consumed_store now n i row s)"
proof -
  have "row_ok s (consumed_row now n row)"
    using assms by (simp add: store_ok_def row_ok_def consumed_row_def)
  with assms(1) show ?thesis unfolding consumed_store_def by (rule store_ok_capability)
qed

lemma row_ok_mono: "row_ok s r \<Longrightarrow> (\<And>i. mandates s i \<noteq> None \<Longrightarrow> mandates s' i \<noteq> None) \<Longrightarrow> row_ok s' r"
  by (auto simp: row_ok_def)

lemma store_ok_mandate:
  assumes "store_ok s" "mandate_ok m" shows "store_ok (s\<lparr>mandates := (mandates s)(i \<mapsto> m)\<rparr>)"
  using assms unfolding store_ok_def by (auto intro: row_ok_mono [of s])

lemma exec_ok:
  assumes ok: "store_ok s" and ex: "exec P V x s = (a, s')"
  shows "store_ok s'"
proof (cases a)
  case (Inl e)
  with ex exec_failed ok show ?thesis by metis
next
  case (Inr y)
  note ex = ex [unfolded Inr]
  show ?thesis
  proof (cases x)
    case (Sync now_iso now ids)
    with ex have s': "s' = s\<lparr>epochs := epochs s @ [now_iso], revocations :=
        insert_revocations now_iso (Suc (length (epochs s))) ids (revocations s), last_sync := now\<rparr>"
      by (auto simp: answer_with_eq sync_revocations_def Let_def)
    have "e \<le> Suc (length (epochs s))"
      if "insert_revocations now_iso (Suc (length (epochs s))) ids (revocations s) i = Some (t, e)" for i t e
      using that by (rule insert_revocations_epoch [rotated]) (use ok in \<open>auto simp: store_ok_def intro: le_SucI\<close>)
    then show ?thesis using ok by (auto simp: s' store_ok_def row_ok_def)
  next
    case (Create i l al rs)
    with ex show ?thesis
      by (auto simp: answer_with_eq create_mandate_def mandate_ok_def limit_kept_def counter_ok_def int64_def
          split: option.splits intro!: store_ok_mandate [OF ok])
  next
    case (Transition i new)
    with ex ok show ?thesis
      by (auto simp: answer_with_eq transition_mandate_def intro!: store_ok_mandate [OF ok])
        (simp add: store_ok_def mandate_ok_def)
  next
    case (Register p m)
    with ex show ?thesis
      by (auto simp: answer_with_eq register_capability_def intro!: store_ok_capability [OF ok])
        (auto simp: row_ok_def)
  next
    case (Debit i n)
    with ex obtain m r where d: "mandates s i = Some m" "0 \<le> r" "int64 r"
      "within (sql_val (sql_add (spend_used m) r)) (mandate_limit m)"
      "within (sql_val (sql_add (actions_used m) 1)) (actions_limit m)"
      "s' = s\<lparr>mandates := (mandates s)(i \<mapsto> m\<lparr>spend_used := sql_store (sql_add (spend_used m) r),
         actions_used := sql_store (sql_add (actions_used m) 1)\<rparr>)\<rparr>"
      by (auto simp: answer_with_eq debit_mandate_for_child_def Let_def not_less)
    moreover have "mandate_ok m" using ok d(1) by (simp add: store_ok_def)
    ultimately show ?thesis
      by (auto simp: mandate_ok_def int64_def intro!: store_ok_mandate [OF ok] limit_kept_add)
  next
    case (Consume tick now_iso ca v now)
    with ex ok show ?thesis
      by (auto simp: answer_with_eq consume_capability_eq authorized_def intro: consumed_store_ok)
  next
    case (Write ws)
    with ex ok show ?thesis
      by (auto simp: answer_with_eq write_state_def store_ok_def row_ok_def)
  next
    case (Commit now_iso e ca pv now)
    with ex obtain p row m where auth: "authorized P V (ca\<lparr>a_env := Some e\<rparr>) 0 (as_utc now) s p row"
      and b: "bound_view P pv s" and s': "s' = (consumed_store now_iso 0 (capability_id p) row s)
          \<lparr>agent_state := m, version_counter := pv_version pv + 1\<rparr>"
      by (auto simp: answer_with_eq commit_state_bound_eq)
    have "store_ok (consumed_store now_iso 0 (capability_id p) row s)" "version_counter s = pv_version pv"
      using auth b ok by (auto simp: authorized_def bound_view_def intro: consumed_store_ok)
    moreover have "0 \<le> version_counter s" using ok by (simp add: store_ok_def)
    ultimately show ?thesis by (simp add: s' store_ok_def row_ok_def)
  qed
qed

lemma reachable_ok: "reachable P V s \<Longrightarrow> store_ok s"
  by (induction rule: reachable.induct) (auto intro: new_store_ok exec_ok)

lemma run_evolves: "evolves s (snd (run_all (exec P V) xs s))"
proof (induction xs arbitrary: s)
  case (Cons x xs)
  have "evolves s (snd (exec P V x s))" by (rule exec_evolves [of P V x s "fst (exec P V x s)"]) simp
  with Cons [of "snd (exec P V x s)"] evolves_trans show ?case
    by (auto simp: case_prod_unfold Let_def)
qed simp

section \<open>Single use\<close>

text \<open>The capability a request used up, and the capabilities that are used up.\<close>

fun used_id :: "op \<Rightarrow> answer \<Rightarrow> pystr option" where
  "used_id x (Granted p) = Some (capability_id p)"
| "used_id x (Committed r) = Some (cr_capability_id r)"
| "used_id x _ = None"

definition consumed_ids :: "store \<Rightarrow> pystr set" where
  "consumed_ids s = {i. \<exists>r. capabilities s i = Some r \<and> row_state r = CONSUMED}"

lemma evolves_consumed: "evolves s s' \<Longrightarrow> consumed_ids s \<subseteq> consumed_ids s'"
  by (fastforce simp: evolves_def consumed_ids_def row_evolves_def)

lemma used_id_fresh:
  assumes "exec P V x s = (Inr y, s')" "used_id x y = Some i"
  shows "i \<notin> consumed_ids s \<and> i \<in> consumed_ids s'"
  using assms
  by (cases x) (auto simp: answer_with_eq consume_capability_eq commit_state_bound_eq authorized_def
      consumed_ids_def consumed_store_def)

interpretation capability_store: single_use "exec P V" used_id consumed_ids for P V
proof
  fix x s s' e
  assume "exec P V x s = (Inl e, s')"
  then show "consumed_ids s \<subseteq> consumed_ids s'" using exec_failed by blast
next
  fix x s s' y
  assume "exec P V x s = (Inr y, s')"
  then show "consumed_ids s \<subseteq> consumed_ids s'" using exec_evolves evolves_consumed by blast
next
  fix x s s' y i
  assume "exec P V x s = (Inr y, s')" "used_id x y = Some i"
  then show "i \<notin> consumed_ids s \<and> i \<in> consumed_ids s'" by (rule used_id_fresh)
qed


section \<open>Debits\<close>

definition reserve_of :: "int option \<Rightarrow> int" where
  "reserve_of n = (case n of None \<Rightarrow> 0 | Some k \<Rightarrow> k)"

text \<open>The amounts that the granted debits of a mandate reserved, in their order.\<close>

fun debits_of :: "pystr \<Rightarrow> op \<times> answer res \<Rightarrow> int list" where
  "debits_of i (Debit j n, Inr y) = (if i = j then [reserve_of n] else [])"
| "debits_of i _ = []"

definition debited :: "pystr \<Rightarrow> (op \<times> answer res) list \<Rightarrow> int list" where
  "debited i t = concat (map (debits_of i) t)"

lemma exec_debit:
  assumes "exec P V x s = (a, s')" "mandates s i = Some m" "mandate_ok m"
  shows "\<exists>m'. mandates s' i = Some m' \<and> spend_used m' = tally (spend_used m) (debits_of i (x, a)) \<and>
    actions_used m' = tally (actions_used m) (map (\<lambda>_. 1) (debits_of i (x, a))) \<and> (\<forall>n \<in> set (debits_of i (x, a)). 0 \<le> n) \<and>
    (\<forall>b. spend_used m = SqlInt b \<and> mandate_limit m \<noteq> None \<longrightarrow> spend_used m' = SqlInt (b + sum_list (debits_of i (x, a))))"
proof (cases a)
  case (Inl e)
  with assms exec_failed have "s' = s" by metis
  then show ?thesis using assms Inl by (cases x) auto
next
  case (Inr y)
  show ?thesis
  proof (cases x)
    case (Commit now_iso e ca pv now)
    with assms Inr have "mandates s' = mandates s"
      by (auto simp: answer_with_eq commit_state_bound_eq consumed_store_def)
    then show ?thesis using assms Commit by simp
  next
    case (Debit j n)
    show ?thesis
    proof (cases "i = j")
      case True
      let ?r = "reserve_of n"
      from assms(1,2) Inr Debit True have d: "0 \<le> ?r" "int64 ?r" "within (sql_val (sql_add (spend_used m) ?r)) (mandate_limit m)"
        "mandates s' i = Some (m\<lparr>spend_used := sql_store (sql_add (spend_used m) ?r),
           actions_used := sql_store (sql_add (actions_used m) 1)\<rparr>)"
        by (auto simp: answer_with_eq debit_mandate_for_child_def Let_def reserve_of_def not_less)
      have "sql_store (sql_add (spend_used m) ?r) = SqlInt (b + ?r)" if b: "spend_used m = SqlInt b" "mandate_limit m = Some l" for b l
      proof -
        have "counter_ok (SqlInt b)" "int64 l" using assms(3) b by (auto simp: mandate_ok_def limit_kept_def)
        from guarded_sum(2) [OF this(1) d(1,2) this(2)] d(3) b show ?thesis by simp
      qed
      then have "\<forall>b. spend_used m = SqlInt b \<and> mandate_limit m \<noteq> None \<longrightarrow>
          sql_store (sql_add (spend_used m) ?r) = SqlInt (b + ?r)" by blast
      then show ?thesis using d(1,4) Debit Inr True by (simp del: sql_add.simps sql_store.simps)
    next
      case False
      with assms Inr Debit show ?thesis by (auto simp: answer_with_eq debit_mandate_for_child_def Let_def)
    qed
  qed (use assms Inr in \<open>auto simp: answer_with_eq sync_revocations_def create_mandate_def
      transition_mandate_def register_capability_def consume_capability_eq write_state_def
      consumed_store_def Let_def\<close>)
qed

lemma run_debits:
  assumes "store_ok s" "mandates s i = Some m" "t = fst (run_all (exec P V) xs s)"
  shows "\<exists>m'. mandates (snd (run_all (exec P V) xs s)) i = Some m' \<and> spend_used m' = tally (spend_used m) (debited i t) \<and>
    actions_used m' = tally (actions_used m) (map (\<lambda>_. 1) (debited i t)) \<and> (\<forall>n \<in> set (debited i t). 0 \<le> n) \<and>
    (\<forall>b. spend_used m = SqlInt b \<and> mandate_limit m \<noteq> None \<longrightarrow> spend_used m' = SqlInt (b + sum_list (debited i t)))"
  using assms
proof (induction xs arbitrary: s m t)
  case (Cons x xs)
  obtain a s1 where ex: "exec P V x s = (a, s1)" by (cases "exec P V x s")
  let ?t = "fst (run_all (exec P V) xs s1)"
  have "mandate_ok m" using Cons.prems(1,2) by (simp add: store_ok_def)
  from exec_debit [OF ex Cons.prems(2) this] obtain m1 where m1: "mandates s1 i = Some m1"
    "spend_used m1 = tally (spend_used m) (debits_of i (x, a))"
    "actions_used m1 = tally (actions_used m) (map (\<lambda>_. 1) (debits_of i (x, a)))" "\<forall>n \<in> set (debits_of i (x, a)). 0 \<le> n"
    "\<forall>b. spend_used m = SqlInt b \<and> mandate_limit m \<noteq> None \<longrightarrow> spend_used m1 = SqlInt (b + sum_list (debits_of i (x, a)))"
    by blast
  have limit: "mandate_limit m1 = mandate_limit m"
    using evolves_mandate [OF exec_evolves [OF ex] Cons.prems(2)] m1(1) by (auto simp: mandate_evolves_def)
  have t: "t = (x, a) # ?t" "snd (run_all (exec P V) (x # xs) s) = snd (run_all (exec P V) xs s1)"
    using Cons.prems(3) by (simp_all add: ex case_prod_unfold Let_def)
  have d: "debited i t = debits_of i (x, a) @ debited i ?t" unfolding t(1) by (simp add: debited_def)
  from Cons.IH [OF exec_ok [OF Cons.prems(1) ex] m1(1) refl] obtain m' where
    "mandates (snd (run_all (exec P V) xs s1)) i = Some m'" "spend_used m' = tally (spend_used m1) (debited i ?t)"
    "actions_used m' = tally (actions_used m1) (map (\<lambda>_. 1) (debited i ?t))" "\<forall>n \<in> set (debited i ?t). 0 \<le> n"
    "\<forall>b. spend_used m1 = SqlInt b \<and> mandate_limit m1 \<noteq> None \<longrightarrow> spend_used m' = SqlInt (b + sum_list (debited i ?t))"
    by blast
  then show ?case using m1(2-5) limit unfolding t(2) d by (intro exI [of _ m']) (auto simp: tally_append add.assoc)
qed (simp add: debited_def)

lemma run_reachable: "reachable P V s \<Longrightarrow> reachable P V (snd (run_all (exec P V) xs s))"
proof (induction xs arbitrary: s)
  case (Cons x xs)
  obtain a s' where ex: "exec P V x s = (a, s')" by (cases "exec P V x s")
  with Cons reachable.step show ?case by (auto simp: case_prod_unfold Let_def)
qed simp

section \<open>Revocation is final\<close>

text \<open>What stops a capability: its own id or its mandate's is revoked.\<close>

definition stopped :: "pystr \<Rightarrow> store \<Rightarrow> bool" where
  "stopped c s \<longleftrightarrow> is_revoked c s \<or>
     (\<exists>r i. capabilities s c = Some r \<and> row_mandate r = Some i \<and> i \<noteq> [] \<and> is_revoked i s)"

lemma evolves_stopped:
  assumes "evolves s s'" "stopped c s" shows "stopped c s'"
proof -
  have "row_mandate r' = row_mandate r" if "row_evolves r r'" for r r'
    using that by (auto simp: row_evolves_def consumed_row_def)
  with assms show ?thesis unfolding evolves_def stopped_def by metis
qed

lemma stopped_not_granted:
  assumes "stopped c s" "exec P V x s = (Inr y, s')" shows "used_id x y \<noteq> Some c"
proof
  assume u: "used_id x y = Some c"
  then obtain a n t p row where "authorized P V a n t s p row" "capability_id p = c"
    using assms(2) by (cases x)
      (auto simp: answer_with_eq consume_capability_eq commit_state_bound_eq)
  then show False using assms(1) by (auto simp: authorized_def stopped_def revoke_targets_def)
qed

lemma run_stopped:
  "stopped c s \<Longrightarrow> c \<notin> set (granted used_id (fst (run_all (exec P V) xs s)))"
proof (induction xs arbitrary: s)
  case (Cons x xs)
  obtain a s' where ex: "exec P V x s = (a, s')" by (cases "exec P V x s")
  have "stopped c s'" using evolves_stopped [OF exec_evolves [OF ex] Cons.prems] .
  with Cons.IH have ih: "c \<notin> set (granted used_id (fst (run_all (exec P V) xs s')))" by blast
  have run: "fst (run_all (exec P V) (x # xs) s) = (x, a) # fst (run_all (exec P V) xs s')"
    by (simp add: ex case_prod_unfold Let_def)
  show ?case
  proof (cases a)
    case (Inl e)
    with ih show ?thesis unfolding run by simp
  next
    case (Inr y)
    with ih stopped_not_granted [OF Cons.prems, of P V x y s'] ex show ?thesis
      unfolding run by (auto split: option.splits)
  qed
qed simp

section \<open>Preparing against a state\<close>

text \<open>A preview binds one version: once the version moved, it never commits again.\<close>

lemma commit_needs_version:
  "pv_version pv < version_counter s \<Longrightarrow> \<exists>x. commit_state_bound P V now_iso e a pv now s = (Inl x, s)"
proof -
  assume "pv_version pv < version_counter s"
  then have "fst (commit_state_bound P V now_iso e a pv now s) \<noteq> Inr r" for r
    by (cases "commit_state_bound P V now_iso e a pv now s") (auto simp: commit_state_bound_eq bound_view_def)
  then obtain x where "fst (commit_state_bound P V now_iso e a pv now s) = Inl x"
    by (cases "fst (commit_state_bound P V now_iso e a pv now s)") auto
  then show ?thesis
    by (cases "commit_state_bound P V now_iso e a pv now s") (auto simp: commit_state_bound_def)
qed

end
