(* ===== verification/Store_Properties.thy ===== *)
theory Store_Properties
  imports Store_Laws Envelope_Properties
begin

text \<open>
  The properties of \<^verbatim>\<open>store.py\<close> over arbitrary sequences of its operations,
  with a concrete run of the store.
\<close>

section \<open>A concrete run\<close>

definition demo_message :: bytes where
  "demo_message = projr (proof_message (py ''cap-1'') [1, 2])"

definition demo_consume :: "bytes \<Rightarrow> consume_args" where
  "demo_consume m = \<lparr>a_cose = PBytes m, a_proof = PBytes (toy_signature (replicate 32 9) demo_message),
     a_challenge = [1, 2], a_issuers = toy_trust demo_issuer, a_env = None\<rparr>"

definition demo_setup :: "cap_payload \<Rightarrow> op list" where
  "demo_setup p = [Create (py ''m'') (Some 150) (Some 2) [], Transition (py ''m'') ACTIVE,
     Debit (py ''m'') (Some 100), Register p (Some (py ''m''))]"

abbreviation run_toy :: "op list \<Rightarrow> store \<Rightarrow> (op \<times> answer res) list \<times> store" where
  "run_toy \<equiv> run_all (exec toy read_cap)"

definition demo_store :: store where
  "demo_store = snd (run_toy (demo_setup (demo_payload kind_execution)) (new_store (py ''t'') 0))"

definition demo_row :: cap_row where
  "demo_row = \<lparr>row_digest = to_hex (replicate 32 17), row_holder = replicate 32 9,
     row_kind = kind_execution, row_state = ISSUED, row_spend_limit = Some 100,
     row_spend_asset = Some (py ''USD''), row_issued_at = int_text 0,
     row_expires_at = int_text (seconds 3600), row_consumed_at = None, row_spend_consumed = 0,
     row_mandate = Some (py ''m''), row_staleness = 300\<rparr>"

definition demo_mandate :: mandate_row where
  "demo_mandate = \<lparr>lifecycle = ACTIVE, spend_used = SqlInt 100, mandate_limit = Some 150, actions_used = SqlInt 1,
     actions_limit = Some 2, recipients = []\<rparr>"

lemma demo_store_eq: "demo_store = (new_store (py ''t'') 0)
    \<lparr>mandates := [py ''m'' \<mapsto> demo_mandate], capabilities := [py ''cap-1'' \<mapsto> demo_row]\<rparr>"
  unfolding demo_store_def demo_setup_def
  by (simp add: answer_with_def store_ops immediate_def sql_int_def int64_def sql_int_option_def new_store_def
      demo_payload_def demo_mandate_def demo_row_def within_def del: to_hex.simps)

lemma demo_proof: "verify_holder_proof toy (replicate 32 9) (py ''cap-1'') [1, 2]
    (PBytes (toy_signature (replicate 32 9) demo_message)) = Inr ()"
  by (simp add: verify_holder_proof_eq demo_message_def proof_message_def py_def)

lemma demo_authorized:
  assumes "sign_capability (demo_payload kind_execution) demo_issuer = Inr m" "n \<le> 100" "0 \<le> t" "t \<le> 300000000"
  shows "authorized toy read_cap (demo_consume m) n t demo_store (demo_payload kind_execution) demo_row"
proof -
  have "verify_capability toy read_cap (PBytes m) (toy_trust demo_issuer) t = Inr (demo_payload kind_execution)"
    using assms demo_well_formed demo_window by (simp add: demo_verify)
  then show ?thesis
    using assms(2-) demo_proof
    by (simp add: authorized_def demo_consume_def demo_store_eq demo_payload_def demo_row_def new_store_def
        revoke_targets_def is_revoked_def demo_mandate_def within_def del: to_hex.simps)
qed


lemma demo_consume_ok:
  assumes "sign_capability (demo_payload kind_execution) demo_issuer = Inr m"
  shows "exec toy read_cap (Consume 0 (py ''u'') (demo_consume m) (PInt 30) (Some (Aware 60000000 0))) demo_store
    = (Inr (Granted (demo_payload kind_execution)),
       consumed_store (py ''u'') 30 (py ''cap-1'') demo_row demo_store)"
proof -
  have "consume_capability toy read_cap 0 (py ''u'') (demo_consume m) (PInt 30) (Some (Aware 60000000 0)) demo_store
    = (Inr (demo_payload kind_execution), consumed_store (py ''u'') 30 (py ''cap-1'') demo_row demo_store)"
    using demo_authorized [OF assms, of 30 60000000]
    by (simp add: consume_capability_eq int64_def) (auto simp: demo_payload_def)
  then show ?thesis by (simp add: answer_with_def)
qed

lemma demo_reachable: "reachable toy read_cap demo_store"
  unfolding demo_store_def by (rule run_reachable) (rule reachable.start)

section \<open>Properties\<close>

text \<open>C1: exactly one consumer wins. Over any sequence of store operations, from any store, each
  capability id is granted (by a consumption or a state-bound commit) at most once, and an id that
  was consumed before is not granted at all.\<close>

theorem capability_granted_once:
  "distinct (granted used_id (fst (run_all (exec P V) xs s))) \<and>
   set (granted used_id (fst (run_all (exec P V) xs s))) \<inter> consumed_ids s = {}"
  by (rule capability_store.granted_once)

text \<open>C29: consumption implements its specification. It grants a payload exactly when the presented
  bytes verify, match the registered record and the envelope, nothing is revoked, the revocation
  view is fresh, the holder proof is valid, the mandate is active and the amount is within the
  caveat; and then the one change is that the row is consumed with the amount.\<close>

theorem consumption_specification:
  "consume_capability P V tick now_iso a v now s = (Inr p, s') \<longleftrightarrow>
     (\<exists>n row. v = PInt n \<and> 0 \<le> n \<and> int64 n \<and>
        authorized P V a n (case now of Some t \<Rightarrow> as_utc t | None \<Rightarrow> tick) s p row \<and>
        s' = consumed_store now_iso n (capability_id p) row s)"
  by (rule consume_capability_eq)

text \<open>A failing operation of the store leaves no trace: whatever it raises, nothing is consumed,
  no budget is debited, no write lands.\<close>

theorem failed_operation_changes_nothing:
  assumes "exec P V x s = (Inl e, s')"
  shows "s' = s"
  using assms by (rule exec_failed)

theorem failed_operation_changes_nothing_witness:
  "exec toy read_cap (Debit (py ''m'') (Some 51)) demo_store =
     (raise BudgetExceededError ''mandate budget oversubscribed by child mint'', demo_store)"
proof -
  obtain e s' where ex: "exec toy read_cap (Debit (py ''m'') (Some 51)) demo_store = (Inl e, s')"
    and e: "e = Exn BudgetExceededError ''mandate budget oversubscribed by child mint''"
    by (simp add: answer_with_def debit_mandate_for_child_def immediate_def sql_int_def int64_def demo_store_eq
        demo_mandate_def within_def)
  from failed_operation_changes_nothing [OF ex] ex e show ?thesis by simp
qed

text \<open>C2: budgets are never oversubscribed. Over any execution from a reachable store, a mandate's spend is its spend
  before, increased in the arithmetic of SQLite by the reserves of the debits that were granted, none of them negative,
  and its action count by one for each; neither exceeds its limit. Under a spend limit the spend is an integer and the
  sum is exact; without a limit it is exact as long as the sum fits into 64 bits (beyond, the column is a double).\<close>

theorem mandate_budget_sound:
  assumes "reachable P V s" "mandates s i = Some m" "t = fst (run_all (exec P V) xs s)"
  shows "\<exists>m'. mandates (snd (run_all (exec P V) xs s)) i = Some m' \<and>
    mandate_limit m' = mandate_limit m \<and> actions_limit m' = actions_limit m \<and>
    spend_used m' = tally (spend_used m) (debited i t) \<and> (\<forall>n \<in> set (debited i t). 0 \<le> n) \<and>
    actions_used m' = tally (actions_used m) (map (\<lambda>_. 1) (debited i t)) \<and>
    within (sql_val (spend_used m')) (mandate_limit m) \<and> within (sql_val (actions_used m')) (actions_limit m) \<and>
    (mandate_limit m \<noteq> None \<longrightarrow> (\<exists>a. spend_used m = SqlInt a \<and> spend_used m' = SqlInt (a + sum_list (debited i t)))) \<and>
    (\<forall>a. spend_used m = SqlInt a \<and> a + sum_list (debited i t) < 2 ^ 63 \<longrightarrow>
       spend_used m' = SqlInt (a + sum_list (debited i t)))"
proof -
  let ?s' = "snd (run_all (exec P V) xs s)"
  note ok = reachable_ok [OF assms(1)]
  from run_debits [OF ok assms(2,3)] obtain m' where m': "mandates ?s' i = Some m'"
    "spend_used m' = tally (spend_used m) (debited i t)"
    "actions_used m' = tally (actions_used m) (map (\<lambda>_. 1) (debited i t))" "\<forall>n \<in> set (debited i t). 0 \<le> n"
    "\<forall>b. spend_used m = SqlInt b \<and> mandate_limit m \<noteq> None \<longrightarrow> spend_used m' = SqlInt (b + sum_list (debited i t))" by blast
  have e: "mandate_limit m' = mandate_limit m" "actions_limit m' = actions_limit m"
    using evolves_mandate [OF run_evolves assms(2), of P V xs] m'(1) by (auto simp: mandate_evolves_def)
  have mok: "mandate_ok m" "mandate_ok m'"
    using ok assms(2) reachable_ok [OF run_reachable [OF assms(1)]] m'(1) by (auto simp: store_ok_def)
  then have "within (sql_val (spend_used m')) (mandate_limit m)" "within (sql_val (actions_used m')) (actions_limit m)"
    using e by (auto simp: mandate_ok_def dest!: limit_kept_within)
  moreover have "\<exists>a. spend_used m = SqlInt a" if "mandate_limit m \<noteq> None"
    using mok(1) that by (auto simp: mandate_ok_def limit_kept_def)
  moreover have "spend_used m' = SqlInt (a + sum_list (debited i t))"
    if "spend_used m = SqlInt a" "a + sum_list (debited i t) < 2 ^ 63" for a
    using tally_exact [OF _ m'(4) that(2)] mok(1) that(1) m'(2) by (simp add: mandate_ok_def limit_kept_def counter_ok_def)
  ultimately show ?thesis using m' e by blast
qed

theorem mandate_budget_sound_witness:
  "\<exists>m'. mandates (snd (run_toy [Debit (py ''m'') (Some 50), Debit (py ''m'') (Some 1)] demo_store)) (py ''m'') = Some m'
     \<and> spend_used m' = SqlInt 150 \<and> within (sql_val (spend_used m')) (Some 150)"
proof -
  have m: "mandates demo_store (py ''m'') = Some demo_mandate" by (simp add: demo_store_eq)
  have "debited (py ''m'') (fst (run_toy [Debit (py ''m'') (Some 50), Debit (py ''m'') (Some 1)] demo_store)) = [50]"
    by (simp add: debited_def answer_with_def debit_mandate_for_child_def immediate_def sql_int_def int64_def
        demo_store_eq demo_mandate_def within_def reserve_of_def)
  with mandate_budget_sound [OF demo_reachable m refl, of "[Debit (py ''m'') (Some 50), Debit (py ''m'') (Some 1)]"]
  show ?thesis by (auto simp: demo_mandate_def)
qed

text \<open>C3: revocation is final. Once a capability id, or the (non-empty) id of the mandate it is
  registered under, is in the revocation set, no execution grants that capability again.\<close>

theorem revoked_never_granted:
  assumes "is_revoked c s \<or> (\<exists>r i. capabilities s c = Some r \<and> row_mandate r = Some i \<and> i \<noteq> [] \<and> is_revoked i s)"
  shows "c \<notin> set (granted used_id (fst (run_all (exec P V) xs s)))"
  by (rule run_stopped) (use assms in \<open>simp add: stopped_def\<close>)

theorem revoked_never_granted_witness:
  "\<exists>m. sign_capability (demo_payload kind_execution) demo_issuer = Inr m \<and>
     py ''cap-1'' \<notin> set (granted used_id (fst (run_toy
       [Consume 0 (py ''u'') (demo_consume m) (PInt 30) (Some (Aware 60000000 0))]
       (snd (exec toy read_cap (Sync (py ''v'') 0 [py ''m'']) demo_store)))))"
proof -
  obtain m where m: "sign_capability (demo_payload kind_execution) demo_issuer = Inr m"
    using demo_signed demo_small by blast
  let ?s = "snd (exec toy read_cap (Sync (py ''v'') 0 [py ''m'']) demo_store)"
  have "capabilities ?s (py ''cap-1'') = Some demo_row" "row_mandate demo_row = Some (py ''m'')"
    "is_revoked (py ''m'') ?s"
    by (simp_all add: answer_with_def sync_revocations_def immediate_def Let_def is_revoked_def demo_store_eq
        demo_row_def new_store_def)
  then have "is_revoked (py ''cap-1'') ?s \<or> (\<exists>r i. capabilities ?s (py ''cap-1'') = Some r \<and>
      row_mandate r = Some i \<and> i \<noteq> [] \<and> is_revoked i ?s)" by auto
  from revoked_never_granted [OF this] m show ?thesis by blast
qed

text \<open>History only grows. Over any execution, registered capabilities keep their issuance and a
  consumed one never changes, limits are fixed and usage changes only by adding amounts that are not negative, every mandate moves along legal
  transitions only (so a revoked or expired one stays so), revocations and epochs accumulate and
  the state version does not decrease.\<close>

theorem store_history:
  "evolves s (snd (run_all (exec P V) xs s)) \<and>
   (\<forall>i m. mandates s i = Some m \<and> lifecycle m \<in> {REVOKED, EXPIRED} \<longrightarrow>
     (\<exists>m'. mandates (snd (run_all (exec P V) xs s)) i = Some m' \<and> lifecycle m' = lifecycle m))"
proof (intro conjI allI impI)
  show ev: "evolves s (snd (run_all (exec P V) xs s))" by (rule run_evolves)
  fix i m
  assume a: "mandates s i = Some m \<and> lifecycle m \<in> {REVOKED, EXPIRED}"
  then have "mandates s i = Some m" by blast
  from evolves_mandate [OF ev this] obtain m' where "mandates (snd (run_all (exec P V) xs s)) i = Some m'"
    and l: "(lifecycle m, lifecycle m') \<in> legal\<^sup>*"
    unfolding mandate_evolves_def by blast
  moreover have "lifecycle m' = lifecycle m"
    using l a by (cases rule: converse_rtranclE) (auto simp: legal_def)
  ultimately show "\<exists>m'. mandates (snd (run_all (exec P V) xs s)) i = Some m' \<and> lifecycle m' = lifecycle m"
    by blast
qed

theorem store_history_witness:
  "\<exists>m'. mandates (snd (run_toy [Transition (py ''m'') REVOKED, Transition (py ''m'') ACTIVE] demo_store)) (py ''m'') = Some m'
     \<and> lifecycle m' = REVOKED"
proof -
  let ?s = "snd (exec toy read_cap (Transition (py ''m'') REVOKED) demo_store)"
  have m: "mandates ?s (py ''m'') = Some (demo_mandate\<lparr>lifecycle := REVOKED\<rparr>)"
    by (simp add: answer_with_def transition_mandate_def immediate_def demo_store_eq demo_mandate_def)
  have "\<exists>m'. mandates (snd (run_toy [Transition (py ''m'') ACTIVE] ?s)) (py ''m'') = Some m' \<and>
      lifecycle m' = lifecycle (demo_mandate\<lparr>lifecycle := REVOKED\<rparr>)"
    by (rule store_history [THEN conjunct2, THEN spec, THEN spec, THEN mp]) (use m in \<open>simp del: exec.simps\<close>)
  then show ?thesis by (simp add: case_prod_unfold Let_def)
qed

text \<open>C30: no effect on a state that moved. A state-bound commit succeeds only when the live version and
  digest are those of the preview and its writes are within the keys that were read; it then
  consumes the capability, applies the writes and bumps the version; and whatever happens afterwards,
  a preview of that version never commits again.\<close>

theorem commit_binds_state:
  assumes "commit_state_bound P V now_iso e a pv now s = (Inr r, s')"
  shows "bound_view P pv s \<and> fst ` set (planned_writes pv) \<subseteq> set (read_keys pv) \<and>
    cr_capability_id r \<notin> consumed_ids s \<and> cr_capability_id r \<in> consumed_ids s' \<and>
    put_all P (planned_writes pv) (agent_state s) = Inr (agent_state s') \<and>
    version_counter s' = version_counter s + 1 \<and>
    (\<forall>xs iso e' a' pv' now'. pv_version pv' = pv_version pv \<longrightarrow>
      (let s'' = snd (run_all (exec P V) xs s') in
       \<exists>x. commit_state_bound P V iso e' a' pv' now' s'' = (Inl x, s'')))"
proof -
  from assms have ex: "exec P V (Commit now_iso e a pv now) s = (Inr (Committed r), s')"
    by (simp add: answer_with_def)
  note used = used_id_fresh [OF ex, of "cr_capability_id r"]
  have "version_counter s' \<le> version_counter (snd (run_all (exec P V) xs s'))" for xs
    using run_evolves [of s' P V xs] by (simp add: evolves_def)
  moreover have v: "version_counter s = pv_version pv" "version_counter s' = pv_version pv + 1"
    using assms by (auto simp: commit_state_bound_eq bound_view_def)
  ultimately have "pv_version pv < version_counter (snd (run_all (exec P V) xs s'))" for xs
    by (smt (verit))
  then have "\<forall>xs iso e' a' pv' now'. pv_version pv' = pv_version pv \<longrightarrow>
      (let s'' = snd (run_all (exec P V) xs s') in
       \<exists>x. commit_state_bound P V iso e' a' pv' now' s'' = (Inl x, s''))"
    by (auto simp: Let_def intro: commit_needs_version)
  moreover have "put_all P (planned_writes pv) (agent_state s) = Inr (agent_state s')"
    using assms by (auto simp: commit_state_bound_eq)
  ultimately show ?thesis using assms used v by (simp add: commit_state_bound_eq)
qed

definition demo_preview :: effect_preview where
  "demo_preview = \<lparr>preview_id = py ''pv'', envelope_digest = py ''d'', pv_version = 0,
     pv_digest = projr (Canonical.sha256_hex toy (JObj [(py ''k'', JNull)])), read_keys = [py ''k''],
     pv_outcome = [], planned_writes = [(py ''k'', JBool True)], pv_allowed = True, pv_previewed_at = 0,
     pv_expires_at = seconds 60, authority_key_id = py ''a'', pv_signature = []\<rparr>"

lemma demo_bound_view: "bound_view toy demo_preview demo_store"
  by (simp add: bound_view_def demo_preview_def demo_store_eq new_store_def values_of_def
      Canonical.sha256_hex_def canonical_bytes_def json_string_def json_escape_def py_def utf8_char_def)

definition demo_bound :: cap_payload where
  "demo_bound = (demo_payload kind_execution)
     \<lparr>cap_digest := projr (action_digest toy (demo_envelope ''alice''))\<rparr>"

definition demo_bound_store :: store where
  "demo_bound_store = demo_store\<lparr>capabilities := [py ''cap-1'' \<mapsto> demo_row\<lparr>row_digest := cap_digest demo_bound\<rparr>]\<rparr>"

lemma demo_bound_digest: "\<exists>b. length b = 32 \<and> cap_digest demo_bound = to_hex b \<and>
    action_digest toy (demo_envelope ''alice'') = Inr (to_hex b)"
proof -
  obtain b where b: "envelope_bytes toy (demo_envelope ''alice'') = Inr b"
    using demo_envelope_bytes [of "''alice''"] by auto
  then show ?thesis by (auto simp: demo_bound_def action_digest_def toy_digest_def)
qed

lemma demo_bound_signed: "\<exists>m. sign_capability demo_bound demo_issuer = Inr m"
proof (rule demo_signed)
  obtain b where "length b = 32" "cap_digest demo_bound = to_hex b" using demo_bound_digest by blast
  then show "cap_small demo_bound"
    using length_int_text [of 0] length_int_text [of 3600000000]
    by (simp add: cap_small_def demo_bound_def demo_payload_def payload_dump_def kind_execution_def
        del: to_hex.simps)
qed

lemma demo_bound_authorized:
  assumes "sign_capability demo_bound demo_issuer = Inr m"
  shows "authorized toy read_cap ((demo_consume m)\<lparr>a_env := Some (demo_envelope ''alice'')\<rparr>) 0 60000000
    demo_bound_store demo_bound (demo_row\<lparr>row_digest := cap_digest demo_bound\<rparr>)"
proof -
  obtain b where b: "length b = 32" "cap_digest demo_bound = to_hex b"
    "action_digest toy (demo_envelope ''alice'') = Inr (to_hex b)" using demo_bound_digest by blast
  have "well_formed demo_bound" "in_window toy 60000000 demo_bound"
    using b demo_well_formed(2) demo_window(1) [of 60000000 kind_execution]
    by (simp_all add: demo_bound_def well_formed_def in_window_def del: to_hex.simps)
  then have "verify_capability toy read_cap (PBytes m) (toy_trust demo_issuer) 60000000 = Inr demo_bound"
    using assms by (simp add: demo_verify)
  then show ?thesis
    using demo_proof b
    by (simp add: authorized_def demo_consume_def demo_bound_store_def demo_bound_def demo_store_eq
        demo_payload_def demo_row_def new_store_def revoke_targets_def is_revoked_def demo_mandate_def
        within_def del: to_hex.simps)
qed

theorem commit_binds_state_witness:
  "\<exists>m r s'. commit_state_bound toy read_cap (py ''u'') (demo_envelope ''alice'') (demo_consume m) demo_preview
       (Aware 60000000 0) demo_bound_store = (Inr r, s') \<and>
     agent_state s' (py ''k'') = Some (JBool True) \<and> version_counter s' = 1 \<and>
     py ''cap-1'' \<in> consumed_ids s'"
proof -
  obtain m where m: "sign_capability demo_bound demo_issuer = Inr m" using demo_bound_signed by blast
  let ?s = "(consumed_store (py ''u'') 0 (py ''cap-1'') (demo_row\<lparr>row_digest := cap_digest demo_bound\<rparr>)
      demo_bound_store)\<lparr>agent_state := [py ''k'' \<mapsto> JBool True], version_counter := 1\<rparr>"
  let ?r = "\<lparr>cr_preview_id = py ''pv'', cr_capability_id = py ''cap-1'', cr_version = 1,
      cr_writes = [(py ''k'', JBool True)]\<rparr>"
  have "bound_view toy demo_preview demo_bound_store"
    using demo_bound_view by (simp add: bound_view_def demo_bound_store_def values_of_def)
  moreover have "put_all toy (planned_writes demo_preview) (agent_state demo_bound_store) =
      Inr [py ''k'' \<mapsto> JBool True]"
    by (simp add: demo_preview_def canonical_bytes_def py_def utf8_char_def demo_bound_store_def
        demo_store_eq new_store_def)
  moreover have "capability_id demo_bound = py ''cap-1''" by (simp add: demo_bound_def demo_payload_def)
  moreover have pv: "planned_writes demo_preview = [(py ''k'', JBool True)]" "read_keys demo_preview = [py ''k'']"
    "pv_version demo_preview = 0" "preview_id demo_preview = py ''pv''"
    by (simp_all add: demo_preview_def)
  ultimately have c: "commit_state_bound toy read_cap (py ''u'') (demo_envelope ''alice'') (demo_consume m)
      demo_preview (Aware 60000000 0) demo_bound_store = (Inr ?r, ?s)"
    unfolding commit_state_bound_eq
    using demo_bound_authorized [OF m] by (intro conjI exI) (assumption | simp)+
  from commit_binds_state [OF c] have "py ''cap-1'' \<in> consumed_ids ?s" by simp
  then show ?thesis by (intro exI conjI) (rule c, simp_all)
qed

definition demo_free :: cap_payload where
  "demo_free = (demo_payload kind_execution)\<lparr>spend_limit := None, spend_asset := None\<rparr>"

definition demo_free_store :: store where
  "demo_free_store = snd (run_toy [Create (py ''m'') (Some 10) None [], Transition (py ''m'') ACTIVE,
     Debit (py ''m'') None, Register demo_free (Some (py ''m''))] (new_store (py ''t'') 0))"

definition demo_free_row :: cap_row where
  "demo_free_row = demo_row\<lparr>row_spend_limit := None, row_spend_asset := None\<rparr>"

lemma demo_free_store_eq: "demo_free_store = (new_store (py ''t'') 0)
    \<lparr>mandates := [py ''m'' \<mapsto> \<lparr>lifecycle = ACTIVE, spend_used = SqlInt 0, mandate_limit = Some 10, actions_used = SqlInt 1,
       actions_limit = None, recipients = []\<rparr>], capabilities := [py ''cap-1'' \<mapsto> demo_free_row]\<rparr>"
  unfolding demo_free_store_def
  by (simp add: answer_with_def store_ops immediate_def sql_int_def int64_def sql_int_option_def new_store_def
      demo_free_def demo_payload_def demo_free_row_def demo_row_def within_def del: to_hex.simps)

lemma demo_free_authorized:
  assumes "sign_capability demo_free demo_issuer = Inr m"
  shows "authorized toy read_cap (demo_consume m) n 60000000 demo_free_store demo_free demo_free_row"
proof -
  have "well_formed demo_free" "in_window toy 60000000 demo_free"
    using demo_well_formed(2) demo_window(1) [of 60000000 kind_execution]
    by (simp_all add: demo_free_def well_formed_def in_window_def)
  then have "verify_capability toy read_cap (PBytes m) (toy_trust demo_issuer) 60000000 = Inr demo_free"
    using assms by (simp add: demo_verify)
  then show ?thesis
    using demo_proof
    by (simp add: authorized_def demo_consume_def demo_free_def demo_free_store_eq demo_free_row_def
        demo_payload_def demo_row_def new_store_def revoke_targets_def is_revoked_def
        del: to_hex.simps)
qed

lemma demo_free_signed: "\<exists>m. sign_capability demo_free demo_issuer = Inr m"
  using length_int_text [of 0] length_int_text [of 3600000000]
  by (intro demo_signed) (simp add: cap_small_def demo_free_def demo_payload_def payload_dump_def
      kind_execution_def del: to_hex.simps)

text \<open>The mandate budget does not bound what is spent under it. A child without a spend limit
  reserves nothing when it is debited and any amount passes at consumption: in a reachable store with
  a mandate limited to 10, a registered capability without a spend limit consumes 1000 while the
  mandate's spend stays 0; and after the mandate's id is revoked it is still debited.\<close>

theorem mandate_budget_gap:
  "\<exists>m s md p s' md' r s1 s2. reachable toy read_cap s \<and>
     mandates s (py ''m'') = Some md \<and> mandate_limit md = Some 10 \<and>
     exec toy read_cap (Consume 0 (py ''u'') (demo_consume m) (PInt 1000) (Some (Aware 60000000 0))) s
       = (Inr (Granted p), s') \<and>
     mandates s' (py ''m'') = Some md' \<and> spend_used md' = SqlInt 0 \<and>
     capabilities s' (capability_id p) = Some r \<and> row_mandate r = Some (py ''m'') \<and> row_spend_consumed r = 1000 \<and>
     exec toy read_cap (Sync (py ''v'') 0 [py ''m'']) s = (Inr (Epoch 2), s1) \<and> is_revoked (py ''m'') s1 \<and>
     exec toy read_cap (Debit (py ''m'') (Some 5)) s1 = (Inr Done, s2)"
proof -
  obtain m where m: "sign_capability demo_free demo_issuer = Inr m" using demo_free_signed by blast
  let ?s' = "consumed_store (py ''u'') 1000 (py ''cap-1'') demo_free_row demo_free_store"
  let ?s1 = "snd (exec toy read_cap (Sync (py ''v'') 0 [py ''m'']) demo_free_store)"
  have id: "capability_id demo_free = py ''cap-1''" by (simp add: demo_free_def demo_payload_def)
  have "reachable toy read_cap demo_free_store"
    unfolding demo_free_store_def by (rule run_reachable) (rule reachable.start)
  moreover have "exec toy read_cap (Consume 0 (py ''u'') (demo_consume m) (PInt 1000) (Some (Aware 60000000 0)))
      demo_free_store = (Inr (Granted demo_free), ?s')"
  proof -
    have "consume_capability toy read_cap 0 (py ''u'') (demo_consume m) (PInt 1000) (Some (Aware 60000000 0))
        demo_free_store = (Inr demo_free, ?s')"
      using demo_free_authorized [OF m] id by (auto simp: consume_capability_eq int64_def)
    then show ?thesis by (simp add: answer_with_def)
  qed
  moreover have "exec toy read_cap (Sync (py ''v'') 0 [py ''m'']) demo_free_store = (Inr (Epoch 2), ?s1)"
    "is_revoked (py ''m'') ?s1"
    by (simp_all add: answer_with_def sync_revocations_def immediate_def Let_def is_revoked_def
        demo_free_store_eq new_store_def)
  moreover have "exec toy read_cap (Debit (py ''m'') (Some 5)) ?s1 =
      (Inr Done, snd (exec toy read_cap (Debit (py ''m'') (Some 5)) ?s1))"
    by (simp add: answer_with_def sync_revocations_def debit_mandate_for_child_def immediate_def Let_def
        demo_free_store_eq new_store_def sql_int_def int64_def)
  moreover have "mandates demo_free_store (py ''m'') = Some \<lparr>lifecycle = ACTIVE, spend_used = SqlInt 0,
      mandate_limit = Some 10, actions_used = SqlInt 1, actions_limit = None, recipients = []\<rparr>"
    by (simp add: demo_free_store_eq)
  moreover have "mandates ?s' = mandates demo_free_store"
    "capabilities ?s' (py ''cap-1'') = Some (consumed_row (py ''u'') 1000 demo_free_row)"
    by (simp_all add: consumed_store_def)
  moreover have "row_mandate (consumed_row (py ''u'') 1000 demo_free_row) = Some (py ''m'')"
    "row_spend_consumed (consumed_row (py ''u'') 1000 demo_free_row) = 1000"
    by (simp_all add: consumed_row_def demo_free_row_def demo_row_def)
  ultimately show ?thesis using id
    by (intro exI [of _ m] exI [of _ demo_free_store] exI conjI) (assumption | simp del: exec.simps)+
qed

text \<open>Without a spend limit the spend leaves the 64 bit integers: two debits of the largest reserve that can be bound, on
  a fresh mandate, make the column the double \<open>2 ^ 64\<close>, which is two more than what they reserved.\<close>

theorem unlimited_spend_rounds:
  "\<exists>s m. reachable toy read_cap s \<and> mandates s (py ''m'') = Some m \<and> mandate_limit m = None \<and>
     spend_used m = SqlReal (2 ^ 64) \<and> sql_val (spend_used m) = 2 ^ 64 \<and>
     debited (py ''m'') (fst (run_toy [Create (py ''m'') None None [], Transition (py ''m'') ACTIVE,
       Debit (py ''m'') (Some 0x7FFFFFFFFFFFFFFF), Debit (py ''m'') (Some 0x7FFFFFFFFFFFFFFF)] (new_store (py ''t'') 0)))
       = [2 ^ 63 - 1, 2 ^ 63 - 1] \<and>
     s = snd (run_toy [Create (py ''m'') None None [], Transition (py ''m'') ACTIVE,
       Debit (py ''m'') (Some 0x7FFFFFFFFFFFFFFF), Debit (py ''m'') (Some 0x7FFFFFFFFFFFFFFF)] (new_store (py ''t'') 0))"
proof -
  let ?ops = "[Create (py ''m'') None None [], Transition (py ''m'') ACTIVE,
       Debit (py ''m'') (Some 0x7FFFFFFFFFFFFFFF), Debit (py ''m'') (Some 0x7FFFFFFFFFFFFFFF)]"
  let ?run = "run_toy ?ops (new_store (py ''t'') 0)"
  have r: "nearest_nat 0x7FFFFFFFFFFFFFFF = 0x8000000000000000" "nearest_nat 0x10000000000000000 = 0x10000000000000000"
    by (simp_all add: nearest_nat_def bit_length_eq [of 62] bit_length_eq [of 64] round_to_def Let_def)
  have d: "nearest_double 0x7FFFFFFFFFFFFFFF = 0x8000000000000000" "nearest_double 0x10000000000000000 = 0x10000000000000000"
    by (simp_all add: nearest_double_def r)
  have "\<exists>m. mandates (snd ?run) (py ''m'') = Some m \<and> mandate_limit m = None \<and> spend_used m = SqlReal 0x10000000000000000"
    by (simp add: answer_with_def store_ops immediate_def sql_int_def int64_def new_store_def within_def d Let_def sql_int_option_def)
  moreover have "debited (py ''m'') (fst ?run) = [0x7FFFFFFFFFFFFFFF, 0x7FFFFFFFFFFFFFFF]"
    by (simp add: debited_def answer_with_def store_ops immediate_def sql_int_def int64_def new_store_def within_def d Let_def
        sql_int_option_def reserve_of_def)
  moreover have "reachable toy read_cap (snd ?run)" by (rule run_reachable) (rule reachable.start)
  ultimately show ?thesis by (intro exI [of _ "snd ?run"]) (auto simp: d)
qed

end
