(* ===== verification/Canonical_Total.thy ===== *)
theory Canonical_Total
  imports Canonical Instances
begin

text \<open>Canonical JSON exists for every value of finite numbers and valid text.\<close>

function json_ok :: "prims \<Rightarrow> json \<Rightarrow> bool" and json_ok_items :: "prims \<Rightarrow> json list \<Rightarrow> bool"
  and json_ok_members :: "prims \<Rightarrow> (pystr \<times> json) list \<Rightarrow> bool" where
  "json_ok P JNull \<longleftrightarrow> True"
| "json_ok P (JBool b) \<longleftrightarrow> True"
| "json_ok P (JInt i) \<longleftrightarrow> True"
| "json_ok P (JFloat x) \<longleftrightarrow> is_finite x \<and> text_ok (float_repr P x)"
| "json_ok P (JStr s) \<longleftrightarrow> text_ok s"
| "json_ok P (JArr vs) \<longleftrightarrow> json_ok_items P vs"
| "json_ok P (JObj kvs) \<longleftrightarrow> json_ok_members P kvs"
| "json_ok_items P [] \<longleftrightarrow> True"
| "json_ok_items P (v # vs) \<longleftrightarrow> json_ok P v \<and> json_ok_items P vs"
| "json_ok_members P [] \<longleftrightarrow> True"
| "json_ok_members P ((k, v) # kvs) \<longleftrightarrow> text_ok k \<and> json_ok P v \<and> json_ok_members P kvs"
  by pat_completeness auto
termination
  by (relation "measure (case_sum (size \<circ> snd) (case_sum (size_list size \<circ> snd)
        (size_list (size_prod (\<lambda>_. 0) size) \<circ> snd)))") auto

abbreviation good_text :: "pystr res \<Rightarrow> bool" where
  "good_text r \<equiv> \<exists>t. r = Inr t \<and> text_ok t"

lemma text_ok_escape: "text_ok [c] \<Longrightarrow> text_ok (json_escape c)"
  by (auto simp: json_escape_def hex_digit_def)

lemma text_ok_concat: "\<forall>w \<in> set ws. text_ok w \<Longrightarrow> text_ok (concat ws)"
  by (induction ws) auto

lemma text_ok_json_string: "text_ok s \<Longrightarrow> text_ok (json_string s)"
  by (auto simp: json_string_def text_ok_def [of s] intro!: text_ok_concat text_ok_escape)

lemma text_ok_comma_join: "\<forall>w \<in> set ws. text_ok w \<Longrightarrow> text_ok (comma_join ws)"
  by (induction ws rule: comma_join.induct) auto

lemma rmap_good:
  "\<forall>x \<in> set xs. good_text (f x) \<Longrightarrow> \<exists>ys. rmap f xs = Inr ys \<and> (\<forall>y \<in> set ys. text_ok y)"
  by (induction xs) auto

lemma json_text_good:
  "json_ok P v \<Longrightarrow> good_text (json_text P v)"
  "json_ok_items P vs \<Longrightarrow> \<exists>ws. json_texts P vs = Inr ws \<and> (\<forall>w \<in> set ws. text_ok w)"
  "json_ok_members P kvs \<Longrightarrow> \<forall>(k, r) \<in> set (json_members P kvs). text_ok k \<and> good_text r"
proof (induction P v and P vs and P kvs rule: json_ok_json_ok_items_json_ok_members.induct)
  case (6 P vs)
  then obtain ws where "json_texts P vs = Inr ws" "\<forall>w \<in> set ws. text_ok w" by auto
  then show ?case using text_ok_comma_join by simp
next
  case (7 P kvs)
  then have "\<forall>x \<in> set (sort_key fst (json_members P kvs)).
      good_text ((\<lambda>(k, r). rbind r (\<lambda>w. Inr (json_string k @ [58] @ w))) x)"
    by (fastforce intro: text_ok_json_string)
  from rmap_good [OF this] show ?case using text_ok_comma_join by auto
qed (auto simp: text_ok_json_string)

lemma canonical_total: "json_ok P v \<Longrightarrow> \<exists>b. canonical_bytes P v = Inr b"
  using json_text_good(1) [of P v] utf8_encode_total by (fastforce simp: canonical_bytes_def)

section \<open>Values without a canonical text\<close>

lemma rmap_eq_Inl: "rmap f xs = Inl e \<Longrightarrow> \<exists>x \<in> set xs. f x = Inl e"
  by (induction xs) (auto simp: rbind_eq_Inl)

lemma json_text_error:
  "json_text P v = Inl e \<Longrightarrow> exn_cls e = ValueError"
  "json_texts P vs = Inl e \<Longrightarrow> exn_cls e = ValueError"
  "(k, Inl e) \<in> set (json_members P kvs) \<Longrightarrow> exn_cls e = ValueError"
proof (induction P v and P vs and P kvs arbitrary: e and e and k e
    rule: json_text_json_texts_json_members.induct)
  case (7 P kvs)
  then obtain x where "x \<in> set (json_members P kvs)"
    "(\<lambda>(k, r). rbind r (\<lambda>w. Inr (json_string k @ [58] @ w))) x = Inl e"
    by (auto simp: rbind_eq_Inl dest!: rmap_eq_Inl)
  with 7(1) show ?case by (auto simp: rbind_eq_Inl split: prod.splits)
qed (auto simp: rbind_eq_Inl split: if_splits)

lemma rmap_all: "rmap f xs = Inr ys \<Longrightarrow> x \<in> set xs \<Longrightarrow> \<exists>y. f x = Inr y"
  by (induction xs arbitrary: ys) auto

lemma json_text_member_error:
  assumes "(k, v) \<in> set kvs" "isl (json_text P v)"
  shows "isl (json_text P (JObj kvs))"
proof (rule ccontr)
  let ?f = "\<lambda>(k, r). rbind r (\<lambda>w. Inr (json_string k @ [58] @ w)) :: (pystr res)"
  assume "\<not> ?thesis"
  then obtain ws where ws: "rmap ?f (sort_key fst (json_members P kvs)) = Inr ws"
    by (cases "rmap ?f (sort_key fst (json_members P kvs))") simp_all
  have "(k, json_text P v) \<in> set (sort_key fst (json_members P kvs))"
    using assms(1) by (auto simp: json_members_map intro: rev_image_eqI)
  from rmap_all [OF ws this] assms(2) show False by (auto simp: isl_iff_ex)
qed

end
