(* ===== verification/State_Binding.thy ===== *)
theory State_Binding
  imports Store_Properties Canonical_Total
begin

text \<open>
  \<^verbatim>\<open>state_binding.py\<close>: preparing an effect against a snapshot of the state and
  committing it. The policy is a parameter; \<open>None\<close> is a result that is not a
  \<^verbatim>\<open>PolicyDecision\<close>. The preview's random id and the clock are arguments.
\<close>

record policy_decision =
  dec_allowed :: bool
  dec_outcome :: "(pystr \<times> json) list"
  dec_writes :: "(pystr \<times> json) list"

type_synonym policy_fn = "(pystr \<times> json) list \<Rightarrow> action_envelope \<Rightarrow> policy_decision option res"

definition is_expired :: "effect_preview \<Rightarrow> int \<Rightarrow> bool" where
  "is_expired pv moment \<longleftrightarrow> pv_expires_at pv \<le> moment"

definition preview_json :: "prims \<Rightarrow> effect_preview \<Rightarrow> json" where
  "preview_json P pv = JObj
     [(py ''preview_id'', JStr (preview_id pv)), (py ''envelope_digest'', JStr (envelope_digest pv)),
      (py ''state_version'', JInt (pv_version pv)), (py ''state_digest'', JStr (pv_digest pv)),
      (py ''read_keys'', JArr (map JStr (read_keys pv))), (py ''outcome'', JObj (pv_outcome pv)),
      (py ''planned_writes'', JObj (planned_writes pv)), (py ''allowed'', JBool (pv_allowed pv)),
      (py ''previewed_at'', JStr (dt_json P (pv_previewed_at pv))),
      (py ''expires_at'', JStr (dt_json P (pv_expires_at pv))),
      (py ''authority_key_id'', JStr (authority_key_id pv))]"

definition preview_signature_bytes :: "prims \<Rightarrow> effect_preview \<Rightarrow> bytes res" where
  "preview_signature_bytes P pv = canonical_bytes P (preview_json P pv)"

text \<open>\<^verbatim>\<open>EffectPreview(...)\<close> validates its fields.\<close>

definition valid_preview :: "effect_preview \<Rightarrow> bool" where
  "valid_preview pv \<longleftrightarrow> preview_id pv \<noteq> [] \<and> length (envelope_digest pv) = 64 \<and> 0 \<le> pv_version pv \<and>
     length (pv_digest pv) = 64 \<and> authority_key_id pv \<noteq> []"

definition prepare ::
  "prims \<Rightarrow> pystr \<Rightarrow> int \<Rightarrow> store \<Rightarrow> action_envelope \<Rightarrow> pystr list \<Rightarrow> policy_fn \<Rightarrow> signer \<Rightarrow> int \<Rightarrow> datetime option
     \<Rightarrow> effect_preview res" where
  "prepare P fresh_preview_id tick s e keys policy_fn authority ttl_seconds now =
     require (keys \<noteq> []) StateBindingError ''prepare requires at least one read key''
     (require (0 < ttl_seconds) StateBindingError ''preview ttl_seconds must be positive''
     (let moment = (case now of Some t \<Rightarrow> as_utc t | None \<Rightarrow> tick) in
      rbind (read_state P keys s) (\<lambda>view.
      rbind (policy_fn (sv_values view) e) (\<lambda>d.
      rbind (of_option StateBindingError ''policy_fn must return a PolicyDecision'' d) (\<lambda>decision.
      rbind (action_digest P e) (\<lambda>digest.
      require (dec_allowed decision) StatePolicyDenied ''policy denied action''
      (rbind (dt_add moment (seconds ttl_seconds)) (\<lambda>expiry.
       let pv = \<lparr>preview_id = fresh_preview_id, envelope_digest = digest, pv_version = sv_version view,
             pv_digest = sv_digest view, read_keys = keys, pv_outcome = dec_outcome decision,
             planned_writes = dec_writes decision, pv_allowed = True, pv_previewed_at = moment,
             pv_expires_at = expiry, authority_key_id = key_id authority, pv_signature = []\<rparr> in
       require (valid_preview pv) ValidationError ''EffectPreview''
       (rbind (preview_signature_bytes P pv) (\<lambda>b.
        Inr (pv\<lparr>pv_signature := to_hex (sign_bytes authority b)\<rparr>)))))))))))"

definition verify_preview_signature :: "prims \<Rightarrow> effect_preview \<Rightarrow> trust \<Rightarrow> unit res" where
  "verify_preview_signature P pv trusted =
     require (pv_signature pv \<noteq> []) StateBindingError ''preview is not signed''
     (rbind (of_option StateBindingError ''preview signature is not hex'' (from_hex (pv_signature pv))) (\<lambda>sig.
      require (length sig = 64) StateBindingError ''preview signature must be 64 bytes''
      (rbind (utf8_encode (authority_key_id pv)) (\<lambda>kid.
       rbind (of_option StateBindingError ''preview authority is not trusted'' (trusted kid)) (\<lambda>key.
       rbind (preview_signature_bytes P pv) (\<lambda>b.
       require (ed_verify P key sig b) StateBindingError ''preview signature invalid'' (Inr ())))))))"

definition commit ::
  "prims \<Rightarrow> (pyval \<Rightarrow> cap_payload option) \<Rightarrow> int \<Rightarrow> pystr \<Rightarrow> action_envelope \<Rightarrow> consume_args \<Rightarrow> effect_preview
     \<Rightarrow> trust \<Rightarrow> datetime option \<Rightarrow> store \<Rightarrow> commit_result res \<times> store" where
  "commit P validate tick now_iso e a pv trusted now s =
     (let moment = (case now of Some t \<Rightarrow> as_utc t | None \<Rightarrow> tick) in
      case rbind (verify_preview_signature P pv trusted) (\<lambda>_.
        if is_expired pv moment then raise StateBindingError ''preview has expired''
        else require (pv_allowed pv) StateBindingError ''preview was not allowed''
          (rbind (action_digest P e) (\<lambda>d.
           require (envelope_digest pv = d) StateBindingError
             ''preview is bound to a different envelope/action_digest'' (Inr ())))) of
        Inl x \<Rightarrow> (Inl x, s)
      | Inr _ \<Rightarrow> commit_state_bound P validate now_iso e a pv (Aware moment 0) s)"

section \<open>Lemmas\<close>

lemma signature_bytes_unsigned [simp]:
  "preview_signature_bytes P (pv\<lparr>pv_signature := sg\<rparr>) = preview_signature_bytes P pv"
  by (simp add: preview_signature_bytes_def preview_json_def)

definition preview_signed :: "prims \<Rightarrow> effect_preview \<Rightarrow> trust \<Rightarrow> bool" where
  "preview_signed P pv trusted \<longleftrightarrow> (\<exists>sig kid key b. from_hex (pv_signature pv) = Some sig \<and> length sig = 64 \<and>
     utf8_encode (authority_key_id pv) = Inr kid \<and> trusted kid = Some key \<and>
     preview_signature_bytes P pv = Inr b \<and> ed_verify P key sig b)"

lemma verify_preview_signature_eq:
  "verify_preview_signature P pv trusted = Inr u \<longleftrightarrow> pv_signature pv \<noteq> [] \<and> preview_signed P pv trusted"
  by (auto simp: verify_preview_signature_def preview_signed_def)

lemma commit_eq:
  "commit P V tick now_iso e a pv trusted now s = (Inr r, s') \<longleftrightarrow>
     pv_signature pv \<noteq> [] \<and> preview_signed P pv trusted \<and> pv_allowed pv \<and>
     \<not> is_expired pv (case now of Some t \<Rightarrow> as_utc t | None \<Rightarrow> tick) \<and>
     action_digest P e = Inr (envelope_digest pv) \<and>
     commit_state_bound P V now_iso e a pv (Aware (case now of Some t \<Rightarrow> as_utc t | None \<Rightarrow> tick) 0) s = (Inr r, s')"
proof -
  let ?m = "case now of Some t \<Rightarrow> as_utc t | None \<Rightarrow> tick"
  let ?g = "rbind (verify_preview_signature P pv trusted) (\<lambda>_.
        if is_expired pv ?m then raise StateBindingError ''preview has expired''
        else require (pv_allowed pv) StateBindingError ''preview was not allowed''
          (rbind (action_digest P e) (\<lambda>d.
           require (envelope_digest pv = d) StateBindingError
             ''preview is bound to a different envelope/action_digest'' (Inr ()))))"
  have "?g = Inr () \<longleftrightarrow> pv_signature pv \<noteq> [] \<and> preview_signed P pv trusted \<and> \<not> is_expired pv ?m \<and>
      pv_allowed pv \<and> action_digest P e = Inr (envelope_digest pv)"
    by (auto simp: verify_preview_signature_eq)
  then show ?thesis by (cases ?g) (auto simp: commit_def Let_def)
qed

lemma commit_failed: "commit P V tick now_iso e a pv trusted now s = (Inl x, s') \<Longrightarrow> s' = s"
  by (auto simp: commit_def Let_def commit_state_bound_def split: sum.splits)

lemma prepare_elim:
  assumes "prepare P i tick s e keys policy_fn authority ttl now = Inr pv"
  obtains decision b where "keys \<noteq> []" "0 < ttl"
    "policy_fn (values_of s keys) e = Inr (Some decision)" "dec_allowed decision"
    "action_digest P e = Inr (envelope_digest pv)" "bound_view P pv s"
    "read_keys pv = keys" "planned_writes pv = dec_writes decision" "pv_allowed pv"
    "pv_expires_at pv = (case now of Some t \<Rightarrow> as_utc t | None \<Rightarrow> tick) + seconds ttl"
    "authority_key_id pv = key_id authority" "preview_signature_bytes P pv = Inr b"
    "pv_signature pv = to_hex (sign_bytes authority b)"
  using assms
  by (auto simp: prepare_def Let_def read_state_def read_state_locked_def bound_view_def
      preview_signature_bytes_def preview_json_def dest!: dt_add_eq_Inr)


lemma prepare_commit:
  assumes "signer_ok P authority" "utf8_encode (key_id authority) = Inr kid"
    and "trusted kid = Some (public_key_bytes authority)"
    and "prepare P i tick s e keys policy_fn authority ttl (Some t0) = Inr pv"
    and "as_utc t < as_utc t0 + seconds ttl"
    and "authorized P V (a\<lparr>a_env := Some e\<rparr>) 0 (as_utc t) s p row"
    and "fst ` set (planned_writes pv) \<subseteq> set keys" "put_all P (planned_writes pv) (agent_state s) = Inr m"
  shows "\<exists>r s'. commit P V tick' now_iso e a pv trusted (Some t) s = (Inr r, s') \<and>
    cr_capability_id r = capability_id p \<and> agent_state s' = m \<and> version_counter s' = version_counter s + 1"
proof (rule prepare_elim [OF assms(4)])
  fix decision b
  assume p: "action_digest P e = Inr (envelope_digest pv)" "bound_view P pv s" "read_keys pv = keys" "pv_allowed pv"
    "pv_expires_at pv = (case Some t0 of Some t \<Rightarrow> as_utc t | None \<Rightarrow> tick) + seconds ttl"
    and b: "authority_key_id pv = key_id authority" "preview_signature_bytes P pv = Inr b"
    "pv_signature pv = to_hex (sign_bytes authority b)"
  have len: "length (sign_bytes authority b) = 64" using assms(1) by (simp add: signer_ok_def)
  then have "pv_signature pv \<noteq> []" using b(3) by (cases "sign_bytes authority b") auto
  moreover have "preview_signed P pv trusted"
    using assms(1-3) b len by (simp add: preview_signed_def signer_ok_def)
  moreover have "\<exists>r s'. commit_state_bound P V now_iso e a pv (Aware (as_utc t) 0) s = (Inr r, s') \<and>
      cr_capability_id r = capability_id p \<and> agent_state s' = m \<and> version_counter s' = version_counter s + 1"
    unfolding commit_state_bound_eq using p assms(6-8)
    by (intro exI conjI) (assumption | simp add: bound_view_def)+
  ultimately show ?thesis
    using p assms(5) by (auto simp: commit_eq is_expired_def)
qed

section \<open>A concrete authority and policy\<close>

definition demo_authority :: signer where
  "demo_authority = toy_signer ''auth'' 5"

definition demo_policy :: policy_fn where
  "demo_policy vs e = Inr (Some \<lparr>dec_allowed = True, dec_outcome = [], dec_writes = [(py ''k'', JBool True)]\<rparr>)"

lemma demo_values: "values_of demo_bound_store [py ''k''] = [(py ''k'', JNull)]"
  by (simp add: values_of_def demo_bound_store_def demo_store_eq new_store_def)

lemma demo_state_digest: "\<exists>b. length b = 32 \<and>
    Canonical.sha256_hex toy (JObj [(py ''k'', JNull)]) = Inr (to_hex b)"
proof -
  obtain c where "canonical_bytes toy (JObj [(py ''k'', JNull)]) = Inr c"
    using canonical_total [of toy "JObj [(py ''k'', JNull)]"] by auto
  then show ?thesis by (auto simp: Canonical.sha256_hex_def toy_digest_def)
qed

lemma demo_prepare: "\<exists>pv. prepare toy (py ''pv'') 0 demo_bound_store (demo_envelope ''alice'') [py ''k'']
    demo_policy demo_authority 120 (Some (Aware 0 0)) = Inr pv"
proof -
  obtain d where d: "length d = 32" "action_digest toy (demo_envelope ''alice'') = Inr (to_hex d)"
    using demo_bound_digest by blast
  obtain b where b: "length b = 32" "Canonical.sha256_hex toy (JObj [(py ''k'', JNull)]) = Inr (to_hex b)"
    using demo_state_digest by blast
  let ?pv = "\<lparr>preview_id = py ''pv'', envelope_digest = to_hex d, pv_version = version_counter demo_bound_store,
     pv_digest = to_hex b, read_keys = [py ''k''], pv_outcome = [], planned_writes = [(py ''k'', JBool True)],
     pv_allowed = True, pv_previewed_at = 0, pv_expires_at = seconds 120, authority_key_id = py ''auth'',
     pv_signature = []\<rparr>"
  obtain c where "preview_signature_bytes toy ?pv = Inr c"
    using canonical_total [of toy "preview_json toy ?pv"]
    by (auto simp: preview_signature_bytes_def preview_json_def)
  moreover have "version_counter demo_bound_store = 0"
    by (simp add: demo_bound_store_def demo_store_eq new_store_def)
  ultimately show ?thesis
    using d b by (simp add: prepare_def read_state_def read_state_locked_def demo_values demo_policy_def
        demo_authority_def dt_add_def valid_preview_def)
qed

lemma demo_prepared_commit:
  assumes "prepare toy (py ''pv'') 0 demo_bound_store (demo_envelope ''alice'') [py ''k'']
      demo_policy demo_authority 120 (Some (Aware 0 0)) = Inr pv"
  shows "fst ` set (planned_writes pv) \<subseteq> set [py ''k'']"
    "put_all toy (planned_writes pv) (agent_state demo_bound_store) = Inr [py ''k'' \<mapsto> JBool True]"
proof -
  have w: "planned_writes pv = [(py ''k'', JBool True)]"
    by (rule prepare_elim [OF assms]) (auto simp: demo_policy_def)
  show "fst ` set (planned_writes pv) \<subseteq> set [py ''k'']" by (simp add: w)
  show "put_all toy (planned_writes pv) (agent_state demo_bound_store) = Inr [py ''k'' \<mapsto> JBool True]"
    by (simp add: w canonical_bytes_def py_def utf8_char_def demo_bound_store_def demo_store_eq new_store_def)
qed

lemma demo_commit:
  "\<exists>pv m r s'. prepare toy (py ''pv'') 0 demo_bound_store (demo_envelope ''alice'') [py ''k''] demo_policy
       demo_authority 120 (Some (Aware 0 0)) = Inr pv \<and>
     commit toy read_cap 0 (py ''u'') (demo_envelope ''alice'') (demo_consume m) pv (toy_trust demo_authority)
       (Some (Aware 60000000 0)) demo_bound_store = (Inr r, s') \<and> version_counter s' = 1"
proof -
  obtain pv where pv: "prepare toy (py ''pv'') 0 demo_bound_store (demo_envelope ''alice'') [py ''k'']
      demo_policy demo_authority 120 (Some (Aware 0 0)) = Inr pv" using demo_prepare by blast
  obtain m where m: "sign_capability demo_bound demo_issuer = Inr m" using demo_bound_signed by blast
  obtain kid where kid: "utf8_encode (key_id demo_authority) = Inr kid"
    using utf8_encode_total [of "key_id demo_authority"] by (auto simp: demo_authority_def)
  have ok: "signer_ok toy demo_authority" by (simp add: demo_authority_def)
  have trust: "toy_trust demo_authority kid = Some (public_key_bytes demo_authority)"
    using kid by (simp add: toy_trust_def)
  have auth: "authorized toy read_cap ((demo_consume m)\<lparr>a_env := Some (demo_envelope ''alice'')\<rparr>) 0
      (as_utc (Aware 60000000 0)) demo_bound_store demo_bound (demo_row\<lparr>row_digest := cap_digest demo_bound\<rparr>)"
    using demo_bound_authorized [OF m] by simp
  have "as_utc (Aware 60000000 0) < as_utc (Aware 0 0) + seconds 120" by simp
  from prepare_commit [where trusted = "toy_trust demo_authority", OF ok kid trust pv this auth
      demo_prepared_commit [OF pv], of 0 "py ''u''"] pv
  show ?thesis by (auto simp: demo_bound_store_def demo_store_eq new_store_def)
qed

section \<open>Properties\<close>

text \<open>A committed effect is the one the policy decided on the state it is applied to. If a preview
  prepared against one store commits against another, the live version, state digest and read keys
  are those the policy saw, the envelope is the one it judged, the writes that land are the ones it
  planned, and the preview carries a trusted authority's signature and had not expired.\<close>

theorem committed_effect_was_decided:
  assumes "prepare P i tick s0 e0 keys policy_fn authority ttl now0 = Inr pv"
    and "commit P V tick' now_iso e a pv trusted now s = (Inr r, s')"
  shows "\<exists>decision. policy_fn (values_of s0 keys) e0 = Inr (Some decision) \<and> dec_allowed decision \<and>
    preview_signed P pv trusted \<and> action_digest P e = action_digest P e0 \<and> version_counter s = version_counter s0 \<and>
    Canonical.sha256_hex P (JObj (sort_key fst (values_of s keys))) =
      Canonical.sha256_hex P (JObj (sort_key fst (values_of s0 keys))) \<and>
    put_all P (dec_writes decision) (agent_state s) = Inr (agent_state s') \<and>
    (case now of Some t \<Rightarrow> as_utc t | None \<Rightarrow> tick') <
      (case now0 of Some t \<Rightarrow> as_utc t | None \<Rightarrow> tick) + seconds ttl"
proof (rule prepare_elim [OF assms(1)])
  fix decision b
  assume p: "policy_fn (values_of s0 keys) e0 = Inr (Some decision)" "dec_allowed decision"
    "action_digest P e0 = Inr (envelope_digest pv)" "bound_view P pv s0" "read_keys pv = keys"
    "planned_writes pv = dec_writes decision"
    "pv_expires_at pv = (case now0 of Some t \<Rightarrow> as_utc t | None \<Rightarrow> tick) + seconds ttl"
  from assms(2) have c: "action_digest P e = Inr (envelope_digest pv)" "preview_signed P pv trusted"
    "\<not> is_expired pv (case now of Some t \<Rightarrow> as_utc t | None \<Rightarrow> tick')"
    and cs: "commit_state_bound P V now_iso e a pv (Aware (case now of Some t \<Rightarrow> as_utc t | None \<Rightarrow> tick') 0) s
      = (Inr r, s')" by (simp_all add: commit_eq)
  from cs have "bound_view P pv s" "put_all P (planned_writes pv) (agent_state s) = Inr (agent_state s')"
    by (auto simp: commit_state_bound_eq)
  with p c show ?thesis by (auto simp: bound_view_def is_expired_def)
qed

text \<open>Prepare and commit fit together. A preview prepared by a trusted authority commits against the
  state it was prepared on, before it expires, for a capability that is authorized for the envelope,
  when the policy plans writes of encodable values within the keys it read.\<close>

theorem prepared_effect_commits:
  assumes "signer_ok P authority" "utf8_encode (key_id authority) = Inr kid"
    and "trusted kid = Some (public_key_bytes authority)"
    and "prepare P i tick s e keys policy_fn authority ttl (Some t0) = Inr pv"
    and "as_utc t < as_utc t0 + seconds ttl"
    and "authorized P V (a\<lparr>a_env := Some e\<rparr>) 0 (as_utc t) s p row"
    and "fst ` set (planned_writes pv) \<subseteq> set keys" "put_all P (planned_writes pv) (agent_state s) = Inr m"
  shows "\<exists>r s'. commit P V tick' now_iso e a pv trusted (Some t) s = (Inr r, s') \<and>
    cr_capability_id r = capability_id p \<and> agent_state s' = m \<and> version_counter s' = version_counter s + 1"
  by (rule prepare_commit [where trusted = trusted, OF assms])

theorem prepared_effect_commits_witness:
  "\<exists>pv m r s'. prepare toy (py ''pv'') 0 demo_bound_store (demo_envelope ''alice'') [py ''k''] demo_policy
       demo_authority 120 (Some (Aware 0 0)) = Inr pv \<and>
     commit toy read_cap 0 (py ''u'') (demo_envelope ''alice'') (demo_consume m) pv (toy_trust demo_authority)
       (Some (Aware 60000000 0)) demo_bound_store = (Inr r, s') \<and> version_counter s' = 1"
proof -
  obtain pv where pv: "prepare toy (py ''pv'') 0 demo_bound_store (demo_envelope ''alice'') [py ''k'']
      demo_policy demo_authority 120 (Some (Aware 0 0)) = Inr pv" using demo_prepare by blast
  obtain m where m: "sign_capability demo_bound demo_issuer = Inr m" using demo_bound_signed by blast
  obtain kid where kid: "utf8_encode (key_id demo_authority) = Inr kid"
    using utf8_encode_total [of "key_id demo_authority"] by (auto simp: demo_authority_def)
  have ok: "signer_ok toy demo_authority" by (simp add: demo_authority_def)
  have trust: "toy_trust demo_authority kid = Some (public_key_bytes demo_authority)"
    using kid by (simp add: toy_trust_def)
  have auth: "authorized toy read_cap ((demo_consume m)\<lparr>a_env := Some (demo_envelope ''alice'')\<rparr>) 0
      (as_utc (Aware 60000000 0)) demo_bound_store demo_bound (demo_row\<lparr>row_digest := cap_digest demo_bound\<rparr>)"
    using demo_bound_authorized [OF m] by simp
  have "as_utc (Aware 60000000 0) < as_utc (Aware 0 0) + seconds 120" by simp
  from prepared_effect_commits [where trusted = "toy_trust demo_authority", OF ok kid trust pv this auth
      demo_prepared_commit [OF pv], of 0 "py ''u''"] pv
  show ?thesis by (auto simp: demo_bound_store_def demo_store_eq new_store_def)
qed

theorem committed_effect_was_decided_witness:
  "\<exists>pv m r s' decision. commit toy read_cap 0 (py ''u'') (demo_envelope ''alice'') (demo_consume m) pv
       (toy_trust demo_authority) (Some (Aware 60000000 0)) demo_bound_store = (Inr r, s') \<and>
     put_all toy (dec_writes decision) (agent_state demo_bound_store) = Inr (agent_state s') \<and>
     demo_policy (values_of demo_bound_store [py ''k'']) (demo_envelope ''alice'') = Inr (Some decision)"
proof -
  obtain pv m r s' where pv: "prepare toy (py ''pv'') 0 demo_bound_store (demo_envelope ''alice'') [py ''k'']
      demo_policy demo_authority 120 (Some (Aware 0 0)) = Inr pv"
    and c: "commit toy read_cap 0 (py ''u'') (demo_envelope ''alice'') (demo_consume m) pv
      (toy_trust demo_authority) (Some (Aware 60000000 0)) demo_bound_store = (Inr r, s')"
    using demo_commit by blast
  from committed_effect_was_decided [OF pv c] c show ?thesis by blast
qed

end
