(* ===== verification/Pep.thy ===== *)
theory Pep
  imports Store_Properties
begin

text \<open>
  \<^verbatim>\<open>pep.py\<close>: the credential broker and the enforcement points for shell
  commands and HTTP egress. A subprocess is the parameter \<open>spawn\<close>: its answer, or the
  exception it raises. The state is the store and the list of commands that were spawned, each
  with the capability that was consumed for it.
\<close>

section \<open>The broker\<close>

record broker =
  broker_secrets :: "(pystr \<times> pystr) list"

definition secrets :: "broker \<Rightarrow> (pystr \<times> pystr) list res" where
  "secrets b = raise BrokerAccessDenied ''raw broker secrets are never exposed to agent-side code''"

definition secret_names :: "broker \<Rightarrow> pystr list" where
  "secret_names b = map fst (broker_secrets b)"

definition brokered_env :: "broker \<Rightarrow> pystr \<rightharpoonup> pystr" where
  "brokered_env b = map_of (broker_secrets b)"

definition brokered_token :: "broker \<Rightarrow> pystr \<Rightarrow> pystr res" where
  "brokered_token b name = of_option PEPError ''broker has no secret of that name'' (map_of (broker_secrets b) name)"

section \<open>The shell enforcement point\<close>

record shell_pep =
  sh_broker :: broker
  sh_issuers :: trust
  sh_challenge :: bytes
  sh_commands :: "pystr \<rightharpoonup> pystr list"

record spawned =
  sp_capability :: pystr
  sp_argv :: "pystr list"
  sp_env :: "pystr \<rightharpoonup> pystr"

record pep_state =
  pep_store :: store
  pep_log :: "spawned list"

definition register_command :: "pystr \<Rightarrow> pystr list \<Rightarrow> shell_pep \<Rightarrow> shell_pep res" where
  "register_command digest argv pep = require (argv \<noteq> []) PEPError ''cannot register an empty command''
     (Inr (pep\<lparr>sh_commands := (sh_commands pep)(digest \<mapsto> argv)\<rparr>))"

record exec_args =
  x_envelope :: action_envelope
  x_cose :: pyval
  x_proof :: pyval
  x_amount :: pyval
  x_clock :: int
  x_now_iso :: pystr

text \<open>The request a PEP makes to the store, with its own challenge and issuers.\<close>

definition pep_request :: "trust \<Rightarrow> bytes \<Rightarrow> exec_args \<Rightarrow> consume_args" where
  "pep_request tr ch x = \<lparr>a_cose = x_cose x, a_proof = x_proof x, a_challenge = ch, a_issuers = tr,
     a_env = Some (x_envelope x)\<rparr>"

definition pep_consume ::
  "prims \<Rightarrow> (pyval \<Rightarrow> cap_payload option) \<Rightarrow> trust \<Rightarrow> bytes \<Rightarrow> exec_args \<Rightarrow> store \<Rightarrow> cap_payload res \<times> store" where
  "pep_consume P V tr ch x s =
     (let (r, s') = consume_capability P V (x_clock x) (x_now_iso x) (pep_request tr ch x) (x_amount x) None s
      in (except AuthorizationDenied PEPError ''PEP refused'' r, s'))"

definition shell_command :: "prims \<Rightarrow> shell_pep \<Rightarrow> action_envelope \<Rightarrow> pystr list res" where
  "shell_command P pep e =
     require (plane (effect e) = py ''shell'') PEPError ''ShellPEP refuses non-shell envelope''
     (rbind (action_digest P e) (\<lambda>d.
      of_option PEPError ''no command registered for this action_digest'' (sh_commands pep d)))"

definition execute ::
  "prims \<Rightarrow> (pyval \<Rightarrow> cap_payload option) \<Rightarrow> (pystr list \<Rightarrow> (pystr \<rightharpoonup> pystr) \<Rightarrow> 'r res) \<Rightarrow> (pystr \<rightharpoonup> pystr)
     \<Rightarrow> shell_pep \<Rightarrow> exec_args \<Rightarrow> pep_state \<Rightarrow> 'r res \<times> pep_state" where
  "execute P V spawn os_env pep x st =
     (case shell_command P pep (x_envelope x) of
        Inl e \<Rightarrow> (Inl e, st)
      | Inr argv \<Rightarrow>
         (case pep_consume P V (sh_issuers pep) (sh_challenge pep) x (pep_store st) of
            (Inl e, s') \<Rightarrow> (Inl e, st\<lparr>pep_store := s'\<rparr>)
          | (Inr p, s') \<Rightarrow>
             (let child_env = os_env ++ brokered_env (sh_broker pep) in
              (except TimeoutExpired PEPError ''command timed out'' (spawn argv child_env),
               \<lparr>pep_store = s', pep_log = pep_log st @
                 [\<lparr>sp_capability = capability_id p, sp_argv = argv, sp_env = child_env\<rparr>]\<rparr>))))"

section \<open>The egress enforcement point\<close>

record route =
  rt_url :: pystr
  rt_secret_name :: pystr
  rt_extra_headers :: "(pystr \<times> pystr) list"

record egress_proxy =
  eg_broker :: broker
  eg_issuers :: trust
  eg_challenge :: bytes
  eg_routes :: "pystr \<rightharpoonup> route"

definition register_route :: "pystr \<Rightarrow> pystr \<Rightarrow> pystr \<Rightarrow> (pystr \<times> pystr) list \<Rightarrow> egress_proxy \<Rightarrow> egress_proxy" where
  "register_route digest url secret_name extra proxy = proxy\<lparr>eg_routes := (eg_routes proxy)(digest \<mapsto>
     \<lparr>rt_url = url, rt_secret_name = secret_name, rt_extra_headers = extra\<rparr>)\<rparr>"

definition authorize_http ::
  "prims \<Rightarrow> (pyval \<Rightarrow> cap_payload option) \<Rightarrow> egress_proxy \<Rightarrow> exec_args \<Rightarrow> store
     \<Rightarrow> (pystr \<rightharpoonup> pystr) res \<times> store" where
  "authorize_http P V proxy x s =
     (case require (plane (effect (x_envelope x)) = py ''http'') PEPError ''EgressProxy refuses non-http envelope''
          (rbind (action_digest P (x_envelope x)) (\<lambda>d.
           of_option PEPError ''no egress route for this action_digest'' (eg_routes proxy d))) of
        Inl e \<Rightarrow> (Inl e, s)
      | Inr route \<Rightarrow>
         (case pep_consume P V (eg_issuers proxy) (eg_challenge proxy) (x\<lparr>x_amount := PInt 0\<rparr>) s of
            (Inl e, s') \<Rightarrow> (Inl e, s')
          | (Inr _, s') \<Rightarrow>
             (rbind (brokered_token (eg_broker proxy) (rt_secret_name route)) (\<lambda>token.
                Inr ([py ''Authorization'' \<mapsto> py ''Bearer '' @ token] ++ map_of (rt_extra_headers route))), s')))"

section \<open>Consumption comes first\<close>

lemma pep_consume_eq:
  "pep_consume P V tr ch x s = (Inr p, s') \<longleftrightarrow>
     consume_capability P V (x_clock x) (x_now_iso x) (pep_request tr ch x) (x_amount x) None s = (Inr p, s')"
  by (auto simp: pep_consume_def case_prod_unfold Let_def prod_eq_iff)

lemma pep_consume_failed: "pep_consume P V tr ch x s = (Inl e, s') \<Longrightarrow> s' = s"
  by (cases "consume_capability P V (x_clock x) (x_now_iso x) (pep_request tr ch x) (x_amount x) None s")
    (auto simp: pep_consume_def consume_capability_def except_def split: sum.splits)

lemma pep_consume_facts:
  assumes "pep_consume P V tr ch x s = (Inr p, s')"
  shows "action_digest P (x_envelope x) = Inr (cap_digest p)" "capability_id p \<notin> consumed_ids s"
    "consumed_ids s' = insert (capability_id p) (consumed_ids s)"
    "verify_holder_proof P (holder_pubkey p) (capability_id p) ch (x_proof x) = Inr ()"
    "\<exists>t. verify_capability P V (x_cose x) tr t = Inr p"
  using assms
  by (auto simp: pep_consume_eq consume_capability_eq authorized_def pep_request_def consumed_ids_def
      consumed_store_def)

text \<open>Either nothing was spawned and the store is unchanged, or exactly one command was spawned, for a
  capability that this call consumed.\<close>

lemma execute_cases:
  obtains (refused) e where "execute P V spawn os_env pep x st = (Inl e, st)"
  | (ran) p s' argv where
      "shell_command P pep (x_envelope x) = Inr argv"
      "pep_consume P V (sh_issuers pep) (sh_challenge pep) x (pep_store st) = (Inr p, s')"
      "snd (execute P V spawn os_env pep x st) = \<lparr>pep_store = s', pep_log = pep_log st @
         [\<lparr>sp_capability = capability_id p, sp_argv = argv, sp_env = os_env ++ brokered_env (sh_broker pep)\<rparr>]\<rparr>"
proof (cases "shell_command P pep (x_envelope x)")
  case (Inl e)
  then show ?thesis by (intro refused [of e]) (simp add: execute_def)
next
  case (Inr argv)
  obtain r s' where c: "pep_consume P V (sh_issuers pep) (sh_challenge pep) x (pep_store st) = (r, s')"
    by (cases "pep_consume P V (sh_issuers pep) (sh_challenge pep) x (pep_store st)")
  show ?thesis
  proof (cases r)
    case (Inl e)
    with c pep_consume_failed have "s' = pep_store st" by metis
    with Inl c Inr show ?thesis by (intro refused [of e]) (simp add: execute_def)
  next
    case p: (Inr p)
    show ?thesis using c p Inr by (intro ran [OF Inr]) (auto simp: execute_def Let_def)
  qed
qed

section \<open>Every effect has its own capability\<close>

text \<open>What an enforcement point owes: \<open>used\<close> are the capabilities behind its effects, \<open>spent\<close> those the
  store has consumed. A move adds at most one effect, for a capability that was not spent before and is afterwards.\<close>

locale enforcement =
  fixes moves :: "'st \<Rightarrow> 'st \<Rightarrow> bool" and used :: "'st \<Rightarrow> pystr list" and spent :: "'st \<Rightarrow> pystr set"
  assumes spent_stays: "moves st st' \<Longrightarrow> spent st \<subseteq> spent st'"
    and use_spends: "moves st st' \<Longrightarrow>
      used st' = used st \<or> (\<exists>c. used st' = used st @ [c] \<and> c \<notin> spent st \<and> c \<in> spent st')"
begin

lemma move_backed:
  assumes "moves st st'" "distinct (used st)" "set (used st) \<subseteq> spent st"
  shows "distinct (used st') \<and> set (used st') \<subseteq> spent st'"
  using spent_stays [OF assms(1)] use_spends [OF assms(1)] assms(2,3) by fastforce

lemma effects_backed:
  assumes "moves\<^sup>*\<^sup>* st st'" "used st = []"
  shows "distinct (used st') \<and> set (used st') \<subseteq> spent st'"
  using assms(1)
proof (induction rule: rtranclp_induct)
  case base
  then show ?case using assms(2) by simp
next
  case (step u v)
  then show ?case using move_backed by blast
qed

end

text \<open>What happens around the PEP: its own executions, and any operation on the shared store.\<close>

inductive pep_step ::
  "prims \<Rightarrow> (pyval \<Rightarrow> cap_payload option) \<Rightarrow> (pystr list \<Rightarrow> (pystr \<rightharpoonup> pystr) \<Rightarrow> 'r res) \<Rightarrow> (pystr \<rightharpoonup> pystr)
     \<Rightarrow> shell_pep \<Rightarrow> pep_state \<Rightarrow> pep_state \<Rightarrow> bool" for P V spawn os_env pep where
  executed: "pep_step P V spawn os_env pep st (snd (execute P V spawn os_env pep x st))"
| other: "exec P V op s = (a, s') \<Longrightarrow> s = pep_store st \<Longrightarrow>
    pep_step P V spawn os_env pep st (st\<lparr>pep_store := s'\<rparr>)"

interpretation shell: enforcement "pep_step P V spawn os_env pep" "\<lambda>st. map sp_capability (pep_log st)"
    "\<lambda>st. consumed_ids (pep_store st)"
  for P :: prims and V and spawn :: "pystr list \<Rightarrow> (pystr \<rightharpoonup> pystr) \<Rightarrow> 'r res" and os_env pep
proof unfold_locales
  fix st st'
  assume step: "pep_step P V spawn os_env pep st st'"
  then show "consumed_ids (pep_store st) \<subseteq> consumed_ids (pep_store st')"
  proof (cases rule: pep_step.cases)
    case (executed x)
    then show ?thesis
      by (cases rule: execute_cases [of P V spawn os_env pep x st]) (auto simp: pep_consume_facts(3))
  qed (auto dest: evolves_consumed [OF exec_evolves])
  from step show "map sp_capability (pep_log st') = map sp_capability (pep_log st) \<or>
      (\<exists>c. map sp_capability (pep_log st') = map sp_capability (pep_log st) @ [c] \<and>
        c \<notin> consumed_ids (pep_store st) \<and> c \<in> consumed_ids (pep_store st'))"
  proof (cases rule: pep_step.cases)
    case (executed x)
    then show ?thesis
      by (cases rule: execute_cases [of P V spawn os_env pep x st]) (auto simp: pep_consume_facts(2,3))
  qed auto
qed

section \<open>A concrete enforcement point\<close>

definition demo_pep :: shell_pep where
  "demo_pep = \<lparr>sh_broker = \<lparr>broker_secrets = [(py ''TOKEN'', py ''s3cret'')]\<rparr>,
     sh_issuers = toy_trust demo_issuer, sh_challenge = [1, 2],
     sh_commands = [cap_digest demo_bound \<mapsto> [py ''ls'']]\<rparr>"

definition demo_request :: "bytes \<Rightarrow> exec_args" where
  "demo_request m = \<lparr>x_envelope = demo_envelope ''alice'', x_cose = PBytes m,
     x_proof = PBytes (toy_signature (replicate 32 9) demo_message), x_amount = PInt 0,
     x_clock = 60000000, x_now_iso = py ''u''\<rparr>"

definition demo_state :: pep_state where
  "demo_state = \<lparr>pep_store = demo_bound_store, pep_log = []\<rparr>"

lemma demo_execute:
  assumes "sign_capability demo_bound demo_issuer = Inr m"
  shows "snd (execute toy read_cap (\<lambda>argv e. Inr (length argv)) Map.empty demo_pep (demo_request m) demo_state) =
    \<lparr>pep_store = consumed_store (py ''u'') 0 (py ''cap-1'') (demo_row\<lparr>row_digest := cap_digest demo_bound\<rparr>)
        demo_bound_store,
     pep_log = [\<lparr>sp_capability = py ''cap-1'', sp_argv = [py ''ls''], sp_env = [py ''TOKEN'' \<mapsto> py ''s3cret'']\<rparr>]\<rparr>"
proof -
  have req: "pep_request (sh_issuers demo_pep) (sh_challenge demo_pep) (demo_request m) =
      (demo_consume m)\<lparr>a_env := Some (demo_envelope ''alice'')\<rparr>"
    by (simp add: pep_request_def demo_pep_def demo_request_def demo_consume_def)
  have "pep_consume toy read_cap (sh_issuers demo_pep) (sh_challenge demo_pep) (demo_request m) demo_bound_store =
      (Inr demo_bound, consumed_store (py ''u'') 0 (py ''cap-1'')
         (demo_row\<lparr>row_digest := cap_digest demo_bound\<rparr>) demo_bound_store)"
    unfolding pep_consume_eq req consume_capability_eq
    using demo_bound_authorized [OF assms]
    by (intro exI [of _ 0] exI [of _ "demo_row\<lparr>row_digest := cap_digest demo_bound\<rparr>"])
      (simp add: demo_request_def int64_def demo_bound_def demo_payload_def)
  moreover have "shell_command toy demo_pep (demo_envelope ''alice'') = Inr [py ''ls'']"
    using demo_bound_digest by (auto simp: shell_command_def demo_pep_def demo_envelope_def)
  moreover have "x_envelope (demo_request m) = demo_envelope ''alice''" by (simp add: demo_request_def)
  ultimately show ?thesis
    by (simp add: execute_def demo_state_def Let_def brokered_env_def demo_pep_def demo_bound_def demo_payload_def)
qed

section \<open>Properties\<close>

text \<open>C34: no execution without a capability of its own. From a state whose log is empty, after any
  sequence of executions and of other operations on the shared store, every command that was spawned
  was spawned for a consumed capability, and no capability stands behind two commands.\<close>

theorem commands_backed_by_capabilities:
  assumes "(pep_step P V spawn os_env pep)\<^sup>*\<^sup>* st st'" "pep_log st = []"
  shows "distinct (map sp_capability (pep_log st')) \<and>
    set (map sp_capability (pep_log st')) \<subseteq> consumed_ids (pep_store st')"
  using shell.effects_backed [OF assms(1)] assms(2) by simp

theorem commands_backed_by_capabilities_witness:
  "\<exists>m st'. (pep_step toy read_cap (\<lambda>argv e. Inr (length argv)) Map.empty demo_pep)\<^sup>*\<^sup>* demo_state st' \<and>
     sign_capability demo_bound demo_issuer = Inr m \<and> map sp_capability (pep_log st') = [py ''cap-1''] \<and>
     py ''cap-1'' \<in> consumed_ids (pep_store st')"
proof -
  obtain m where m: "sign_capability demo_bound demo_issuer = Inr m" using demo_bound_signed by blast
  let ?st = "snd (execute toy read_cap (\<lambda>argv e. Inr (length argv)) Map.empty demo_pep (demo_request m) demo_state)"
  have steps: "(pep_step toy read_cap (\<lambda>argv e. Inr (length argv)) Map.empty demo_pep)\<^sup>*\<^sup>* demo_state ?st"
    by (rule r_into_rtranclp) (rule pep_step.executed)
  have "pep_log demo_state = []" by (simp add: demo_state_def)
  from commands_backed_by_capabilities [OF steps this] steps m demo_execute [OF m] show ?thesis
    by (intro exI [of _ m] exI [of _ ?st]) simp
qed

text \<open>One execution. It either raises with store and log unchanged, or spawns exactly the command
  that is registered for the digest of a shell-plane envelope, with the broker's secrets over the
  environment, after a capability bound to that digest was consumed with the PEP's challenge.\<close>

theorem execution_is_authorized:
  "(\<exists>e. execute P V spawn os_env pep x st = (Inl e, st)) \<or>
   (\<exists>(p :: cap_payload) argv d st'. st' = snd (execute P V spawn os_env pep x st) \<and>
      plane (effect (x_envelope x)) = py ''shell'' \<and> action_digest P (x_envelope x) = Inr d \<and>
      cap_digest p = d \<and> sh_commands pep d = Some argv \<and>
      verify_holder_proof P (holder_pubkey p) (capability_id p) (sh_challenge pep) (x_proof x) = Inr () \<and>
      capability_id p \<notin> consumed_ids (pep_store st) \<and> capability_id p \<in> consumed_ids (pep_store st') \<and>
      pep_log st' = pep_log st @ [\<lparr>sp_capability = capability_id p, sp_argv = argv,
        sp_env = os_env ++ brokered_env (sh_broker pep)\<rparr>])"
proof (cases rule: execute_cases [of P V spawn os_env pep x st])
  case (refused e)
  then show ?thesis by blast
next
  case (ran p s' argv)
  from pep_consume_facts [OF ran(2)] have "capability_id p \<in> consumed_ids s'" by simp
  with ran pep_consume_facts(1,2,4) [OF ran(2)] show ?thesis
    by - (intro disjI2 exI [of _ p] exI [of _ argv] exI [of _ "cap_digest p"]
        exI [of _ "snd (execute P V spawn os_env pep x st)"], auto simp: shell_command_def)
qed

text \<open>Egress headers are handed out for a consumed capability only: a proxy that answers with
  headers has consumed a capability bound to the digest of the HTTP-plane envelope of a registered
  route, and a refusal that is not a missing secret leaves the store unchanged.\<close>

theorem egress_is_authorized:
  "(\<forall>h s'. authorize_http P V proxy x s = (Inr h, s') \<longrightarrow>
      (\<exists>(p :: cap_payload) d route. plane (effect (x_envelope x)) = py ''http'' \<and> action_digest P (x_envelope x) = Inr d \<and>
         cap_digest p = d \<and> eg_routes proxy d = Some route \<and> capability_id p \<notin> consumed_ids s \<and>
         capability_id p \<in> consumed_ids s')) \<and>
   (\<forall>e s'. authorize_http P V proxy x s = (Inl e, s') \<longrightarrow>
      s' = s \<or> e = Exn PEPError ''broker has no secret of that name'')"
proof (intro conjI allI impI)
  fix h s'
  assume "authorize_http P V proxy x s = (Inr h, s')"
  then obtain d route p where d: "plane (effect (x_envelope x)) = py ''http''"
    "action_digest P (x_envelope x) = Inr d" "eg_routes proxy d = Some route"
    and c: "pep_consume P V (eg_issuers proxy) (eg_challenge proxy) (x\<lparr>x_amount := PInt 0\<rparr>) s = (Inr p, s')"
    by (auto simp: authorize_http_def split: sum.splits prod.splits)
  from pep_consume_facts [OF c] have "capability_id p \<in> consumed_ids s'" by simp
  with d pep_consume_facts(1,2) [OF c]
  show "\<exists>(p :: cap_payload) d route. plane (effect (x_envelope x)) = py ''http'' \<and> action_digest P (x_envelope x) = Inr d \<and>
         cap_digest p = d \<and> eg_routes proxy d = Some route \<and> capability_id p \<notin> consumed_ids s \<and>
         capability_id p \<in> consumed_ids s'"
    by - (intro exI [of _ p] exI [of _ d] exI [of _ route], auto)
next
  fix e s'
  assume "authorize_http P V proxy x s = (Inl e, s')"
  then show "s' = s \<or> e = Exn PEPError ''broker has no secret of that name''"
    by (auto simp: authorize_http_def brokered_token_def of_option_def
        split: sum.splits prod.splits option.splits dest: pep_consume_failed)
qed

theorem egress_is_authorized_witness:
  "authorize_http toy read_cap \<lparr>eg_broker = \<lparr>broker_secrets = []\<rparr>, eg_issuers = Map.empty,
       eg_challenge = [1], eg_routes = Map.empty\<rparr> (demo_request []) demo_store =
     (raise PEPError ''EgressProxy refuses non-http envelope'', demo_store)"
proof -
  let ?proxy = "\<lparr>eg_broker = \<lparr>broker_secrets = []\<rparr>, eg_issuers = Map.empty,
       eg_challenge = [1], eg_routes = Map.empty\<rparr>"
  obtain s' where r: "authorize_http toy read_cap ?proxy (demo_request []) demo_store =
     (raise PEPError ''EgressProxy refuses non-http envelope'', s')"
    by (simp add: authorize_http_def demo_request_def demo_envelope_def)
  from egress_is_authorized [THEN conjunct2, THEN spec, THEN spec, THEN mp, OF r] r show ?thesis by simp
qed

end
