(* ===== verification/Narrowing.thy ===== *)
theory Narrowing
  imports Stdlib
begin

text \<open>
  The interface shared by everything that hands authority on: an order "is within" between
  grants, and what a grant permits. Tokens and delegation receipts provide it; their chains get
  from it that the last grant is within every earlier one.
\<close>

locale narrowing =
  fixes within :: "'g \<Rightarrow> 'g \<Rightarrow> bool"
  assumes within_refl: "within g g"
    and within_trans: "within g h \<Longrightarrow> within h k \<Longrightarrow> within g k"
begin

text \<open>A chain of grants, the narrowest first.\<close>

lemma chain_sorted: "successively within gs \<longleftrightarrow> sorted_wrt within gs"
  by (rule successively_iff_sorted_wrt_strong) (blast intro: within_trans)

lemma first_within_all:
  assumes "successively within (g # gs)" "h \<in> set (g # gs)"
  shows "within g h"
  using assms within_refl by (auto simp: chain_sorted)

text \<open>A chain of grants, the widest first.\<close>

lemma last_within_all:
  assumes "successively (\<lambda>h g. within g h) gs" "h \<in> set gs"
  shows "within (last gs) h"
proof -
  have "successively within (rev gs)" using assms(1) by simp
  moreover obtain g r where "rev gs = g # r" using assms(2) by (cases "rev gs") auto
  moreover from this have "last gs = g" by (metis hd_rev list.sel(1))
  ultimately show ?thesis using first_within_all [of g r h] assms(2) by (metis set_rev)
qed

end

locale authority = narrowing +
  fixes permits :: "'g \<Rightarrow> 'r \<Rightarrow> bool"
  assumes within_permits: "within g h \<Longrightarrow> permits g r \<Longrightarrow> permits h r"
begin

lemma last_permits:
  assumes "successively (\<lambda>h g. within g h) gs" "permits (last gs) r" "h \<in> set gs"
  shows "permits h r"
  using within_permits [OF last_within_all [OF assms(1,3)] assms(2)] .

lemma first_permits:
  assumes "successively within (g # gs)" "permits g r" "h \<in> set (g # gs)"
  shows "permits h r"
  using within_permits [OF first_within_all [OF assms(1,3)] assms(2)] .

end

end
