(* ===== verification/Delegation.thy ===== *)
theory Delegation
  imports Canonical_Total Narrowing
begin

text \<open>
  \<^verbatim>\<open>delegation_chains.py\<close>: delegation receipts, their minting, and the offline
  verification of a chain of them. A receipt's times are instants: the validators of the model
  make them aware and in UTC.
\<close>

section \<open>Scopes\<close>

record scope =
  s_actions :: "pystr list"
  resource_prefixes :: "pystr list"
  s_caveats :: "json list"

definition caveat_key :: "prims \<Rightarrow> json \<Rightarrow> pystr res" where
  "caveat_key P c = sha256_hex P (JObj [(py ''caveat'', c)])"

definition is_sub_prefix :: "pystr \<Rightarrow> pystr \<Rightarrow> bool" where
  "is_sub_prefix child parent =
     (if parent = [] then True
      else let p = split_on 47 parent; c = split_on 47 child
        in if length c < length p then False else take (length p) c = p)"

definition prefixes_within :: "pystr list \<Rightarrow> pystr list \<Rightarrow> bool" where
  "prefixes_within child parent \<longleftrightarrow> list_all (\<lambda>cp. list_ex (is_sub_prefix cp) parent) child"

definition is_scope_narrower_or_equal :: "prims \<Rightarrow> scope \<Rightarrow> scope \<Rightarrow> bool res" where
  "is_scope_narrower_or_equal P child parent =
     (if \<not> set (s_actions child) \<subseteq> set (s_actions parent) then Inr False
      else if \<not> prefixes_within (resource_prefixes child) (resource_prefixes parent) then Inr False
      else rbind (rmap (caveat_key P) (s_caveats parent)) (\<lambda>ps.
           rbind (rmap (caveat_key P) (s_caveats child)) (\<lambda>cs. Inr (set ps \<subseteq> set cs))))"

definition scope_allows :: "scope \<Rightarrow> pystr \<Rightarrow> pystr \<Rightarrow> bool" where
  "scope_allows s act res \<longleftrightarrow>
     (if act \<notin> set (s_actions s) then False else list_ex (is_sub_prefix res) (resource_prefixes s))"

section \<open>Receipts\<close>

record receipt =
  delegation_id :: pystr
  parent_receipt_hash :: "pystr option"
  root_mandate_hash :: pystr
  delegator :: pystr
  delegatee :: pystr
  d_scope :: scope
  depth :: int
  max_depth :: int
  d_not_before :: int
  d_expires_at :: int
  d_nonce :: pystr
  d_constitution_hash :: pystr

definition scope_json :: "scope \<Rightarrow> json" where
  "scope_json s = JObj [(py ''actions'', JArr (map JStr (s_actions s))),
     (py ''resource_prefixes'', JArr (map JStr (resource_prefixes s))), (py ''caveats'', JArr (s_caveats s))]"

definition payload_dict :: "prims \<Rightarrow> receipt \<Rightarrow> (pystr \<times> json) list" where
  "payload_dict P r =
     [(py ''delegation_id'', JStr (delegation_id r)),
      (py ''parent_receipt_hash'', case parent_receipt_hash r of None \<Rightarrow> JNull | Some h \<Rightarrow> JStr h),
      (py ''root_mandate_hash'', JStr (root_mandate_hash r)), (py ''delegator'', JStr (delegator r)),
      (py ''delegatee'', JStr (delegatee r)), (py ''scope'', scope_json (d_scope r)),
      (py ''depth'', JInt (depth r)), (py ''max_depth'', JInt (max_depth r)),
      (py ''not_before'', JStr (dt_json P (d_not_before r))),
      (py ''expires_at'', JStr (dt_json P (d_expires_at r))), (py ''nonce'', JStr (d_nonce r)),
      (py ''constitution_hash'', JStr (d_constitution_hash r))]"

text \<open>\<^verbatim>\<open>envelope.model_dump(mode="json")\<close>, and its digest.\<close>

definition envelope_json :: "signed_envelope \<Rightarrow> json" where
  "envelope_json env = JObj [(py ''alg'', JStr (alg env)), (py ''key_id'', JStr (env_key_id env)),
     (py ''payload'', JObj (payload env)), (py ''signature'', JStr (signature env))]"

definition receipt_hash :: "prims \<Rightarrow> signed_envelope \<Rightarrow> pystr res" where
  "receipt_hash P env = sha256_hex P (envelope_json env)"

section \<open>Minting\<close>

text \<open>\<open>rnd\<close> are the values of \<^verbatim>\<open>secrets.token_hex\<close>: the suffix of a default id, and
  the nonce. The record is the constructor's argument list; its id is the caller's, empty when there
  is none.\<close>

definition new_receipt ::
    "prims \<Rightarrow> pystr \<times> pystr \<Rightarrow> signer \<Rightarrow> datetime \<Rightarrow> datetime \<Rightarrow> receipt \<Rightarrow> signed_envelope res" where
  "new_receipt P rnd sg nb ea r =
     require (delegator r = key_id sg) DelegationError ''minting signer key is not the delegator''
    (rbind (dt_less nb ea) (\<lambda>ordered.
     require ordered DelegationError ''not_before must be strictly before expires_at''
    (require (0 \<le> depth r \<and> 0 \<le> max_depth r) ValidationError
       ''Input should be greater than or equal to 0''
    (sign_payload P sg (payload_dict P (r\<lparr>
       delegation_id := (if delegation_id r \<noteq> [] then delegation_id r else py ''del-'' @ fst rnd),
       d_not_before := as_utc nb, d_expires_at := as_utc ea, d_nonce := snd rnd\<rparr>))))))"

record root_args =
  ra_mandate_hash :: pystr
  ra_constitution_hash :: pystr
  ra_delegatee :: pystr
  ra_scope :: scope
  ra_max_depth :: int
  ra_not_before :: datetime
  ra_expires_at :: datetime
  ra_id :: "pystr option"

definition id_or_empty :: "pystr option \<Rightarrow> pystr" where
  "id_or_empty i = (case i of None \<Rightarrow> [] | Some s \<Rightarrow> s)"

definition issue_root :: "prims \<Rightarrow> pystr \<times> pystr \<Rightarrow> signer \<Rightarrow> root_args \<Rightarrow> signed_envelope res" where
  "issue_root P rnd sg a =
     require (0 \<le> ra_max_depth a) DelegationError ''max_depth must be >= 0''
     (new_receipt P rnd sg (ra_not_before a) (ra_expires_at a)
       \<lparr>delegation_id = id_or_empty (ra_id a), parent_receipt_hash = None,
        root_mandate_hash = ra_mandate_hash a, delegator = key_id sg, delegatee = ra_delegatee a,
        d_scope = ra_scope a, depth = 0, max_depth = ra_max_depth a, d_not_before = 0, d_expires_at = 0,
        d_nonce = [], d_constitution_hash = ra_constitution_hash a\<rparr>)"

record delegate_args =
  da_delegatee :: pystr
  da_scope :: scope
  da_not_before :: "datetime option"
  da_expires_at :: "datetime option"
  da_max_depth :: "int option"
  da_id :: "pystr option"

text \<open>\<open>read_receipt\<close> is \<^verbatim>\<open>DelegationReceipt.model_validate\<close>; a parsed time is
  aware.\<close>

definition delegate :: "prims \<Rightarrow> ((pystr \<times> json) list \<Rightarrow> receipt option) \<Rightarrow> pystr \<times> pystr \<Rightarrow>
    signed_envelope \<Rightarrow> signer \<Rightarrow> delegate_args \<Rightarrow> signed_envelope res" where
  "delegate P read_receipt rnd env sg a =
     rbind (of_option ValidationError ''validation error for DelegationReceipt'' (read_receipt (payload env))) (\<lambda>parent.
     require (key_id sg = delegatee parent) DelegationError ''only the current holder may delegate onward''
    (rbind (is_scope_narrower_or_equal P (da_scope a) (d_scope parent)) (\<lambda>narrower.
     require narrower DelegationError ''child scope must be within parent scope''
    (let nb = (case da_not_before a of None \<Rightarrow> Aware (d_not_before parent) 0 | Some d \<Rightarrow> d);
         ea = (case da_expires_at a of None \<Rightarrow> Aware (d_expires_at parent) 0 | Some d \<Rightarrow> d);
         child_depth = depth parent + 1;
         child_max = (case da_max_depth a of None \<Rightarrow> max_depth parent | Some m \<Rightarrow> m)
     in rbind (dt_less nb (Aware (d_not_before parent) 0)) (\<lambda>early.
        require (\<not> early) DelegationError ''child not_before may not precede parent not_before''
       (rbind (dt_less (Aware (d_expires_at parent) 0) ea) (\<lambda>late.
        require (\<not> late) DelegationError ''child expiry may not exceed parent expiry''
       (require (child_depth \<le> max_depth parent) DelegationError ''depth exceeds chain max_depth''
       (require (child_max \<le> max_depth parent) DelegationError
          ''child max_depth may not exceed parent max_depth''
       (rbind (receipt_hash P env) (\<lambda>h.
        new_receipt P rnd sg nb ea
          \<lparr>delegation_id = id_or_empty (da_id a), parent_receipt_hash = Some h,
           root_mandate_hash = root_mandate_hash parent, delegator = delegatee parent,
           delegatee = da_delegatee a, d_scope = da_scope a, depth = child_depth, max_depth = child_max,
           d_not_before = 0, d_expires_at = 0, d_nonce = [],
           d_constitution_hash = d_constitution_hash parent\<rparr>)))))))))))"

section \<open>Offline verification\<close>

text \<open>An entry of the key registry: raw bytes, base64 text, or something else.\<close>

datatype registered = KeyBytes bytes | KeyText pystr | KeyOther

definition resolve_public_key :: "prims \<Rightarrow> (pystr \<rightharpoonup> registered) \<Rightarrow> pystr \<Rightarrow> bytes res" where
  "resolve_public_key P registry kid = (case registry kid of
     None \<Rightarrow> raise DelegationError ''no public key registered''
   | Some (KeyBytes b) \<Rightarrow> Inr b
   | Some (KeyText t) \<Rightarrow> of_option DelegationError ''public key is not valid base64'' (b64_strict P t)
   | Some KeyOther \<Rightarrow> raise DelegationError ''public key has unsupported type'')"

definition verify_receipt_signature :: "prims \<Rightarrow> (pystr \<rightharpoonup> registered) \<Rightarrow> signed_envelope \<Rightarrow> unit res" where
  "verify_receipt_signature P registry env =
     rbind (resolve_public_key P registry (env_key_id env)) (\<lambda>pub.
     rbind (except PyException DelegationError ''signature verification failed'' (verify_envelope P env pub))
       (\<lambda>_. Inr ()))"

record verified_chain =
  effective_scope :: scope
  leaf_depth :: int
  chain_length :: nat
  ancestor_hashes :: "pystr list"
  delegatee_chain :: "pystr list"
  vc_root_mandate_hash :: pystr
  vc_constitution_hash :: pystr
  leaf_hash :: pystr

record verifier =
  read_receipt :: "(pystr \<times> json) list \<Rightarrow> receipt option"
  trusted_authority :: "pystr list"
  registry :: "pystr \<rightharpoonup> registered"
  moment :: int

definition check_root :: "verifier \<Rightarrow> signed_envelope \<Rightarrow> receipt \<Rightarrow> unit res" where
  "check_root V env r =
     require (env_key_id env \<in> set (trusted_authority V)) DelegationError
       ''root not signed by a trusted authority key''
    (require (delegator r = env_key_id env) DelegationError ''root delegator must be the signing authority key''
    (require (depth r = 0) DelegationError ''root receipt must have depth 0''
    (require (parent_receipt_hash r = None) DelegationError
       ''root receipt must have parent_receipt_hash=None'' (Inr ()))))"

definition check_hop ::
    "prims \<Rightarrow> nat \<Rightarrow> receipt \<Rightarrow> pystr \<Rightarrow> signed_envelope \<Rightarrow> receipt \<Rightarrow> unit res" where
  "check_hop P index prev prev_hash env r =
     require (env_key_id env = delegatee prev) DelegationError ''custody break''
    (require (delegator r = delegatee prev) DelegationError ''delegator is not the delegatee of the hop''
    (require (parent_receipt_hash r = Some prev_hash) DelegationError ''link broken''
    (require (depth r = int index) DelegationError ''depth claim != position''
    (require (depth r = depth prev + 1) DelegationError ''depth not strictly increasing by 1''
    (rbind (is_scope_narrower_or_equal P (d_scope r) (d_scope prev)) (\<lambda>narrower.
     require narrower DelegationError ''narrowing invariant violated''
    (require (root_mandate_hash r = root_mandate_hash prev) DelegationError ''root_mandate_hash changed mid-chain''
    (require (d_constitution_hash r = d_constitution_hash prev) DelegationError
       ''constitution_hash changed mid-chain''
    (require (max_depth r \<le> max_depth prev) DelegationError ''max_depth increased mid-chain''
    (require (depth r \<le> max_depth r) DelegationError ''depth exceeds max_depth''
    (require (d_not_before prev \<le> d_not_before r) DelegationError ''not_before precedes parent not_before''
    (require (d_expires_at r \<le> d_expires_at prev) DelegationError ''expiry exceeds parent expiry''
      (Inr ())))))))))))))"

text \<open>
  One round of the loop. The two lists are \<^verbatim>\<open>receipts\<close> and \<^verbatim>\<open>hashes\<close>;
  the sets of seen hashes and ids are the elements of \<^verbatim>\<open>hashes\<close> and the ids of
  \<^verbatim>\<open>receipts\<close>.
\<close>

definition verify_hop ::
    "prims \<Rightarrow> verifier \<Rightarrow> signed_envelope \<Rightarrow> receipt list \<times> pystr list \<Rightarrow> (receipt list \<times> pystr list) res" where
  "verify_hop P V env acc =
     (let (rs, hs) = acc in
      rbind (of_option DelegationError ''malformed payload'' (read_receipt V (payload env))) (\<lambda>r.
      rbind (receipt_hash P env) (\<lambda>h.
      require (h \<notin> set hs) DelegationError ''receipt appears twice (cycle)''
     (require (delegation_id r \<notin> set (map delegation_id rs)) DelegationError ''duplicate delegation_id''
     (rbind (verify_receipt_signature P (registry V) env) (\<lambda>_.
      rbind (if rs = [] then check_root V env r
             else check_hop P (length rs) (last rs) (last hs) env r) (\<lambda>_.
      require (d_not_before r \<le> moment V \<and> moment V \<le> d_expires_at r) DelegationError
        ''receipt not valid at this time''
        (Inr (rs @ [r], hs @ [h])))))))))"

fun verify_hops ::
    "prims \<Rightarrow> verifier \<Rightarrow> signed_envelope list \<Rightarrow> receipt list \<times> pystr list \<Rightarrow> (receipt list \<times> pystr list) res" where
  "verify_hops P V [] acc = Inr acc"
| "verify_hops P V (env # envs) acc = rbind (verify_hop P V env acc) (verify_hops P V envs)"

definition verify_chain :: "prims \<Rightarrow> verifier \<Rightarrow> signed_envelope list \<Rightarrow> verified_chain res" where
  "verify_chain P V envs =
     require (envs \<noteq> []) DelegationError ''empty delegation chain''
    (rbind (verify_hops P V envs ([], [])) (\<lambda>(rs, hs).
     Inr \<lparr>effective_scope = d_scope (last rs), leaf_depth = depth (last rs), chain_length = length rs,
       ancestor_hashes = hs, delegatee_chain = map delegatee rs,
       vc_root_mandate_hash = root_mandate_hash (hd rs), vc_constitution_hash = d_constitution_hash (hd rs),
       leaf_hash = last hs\<rparr>))"

end
