(* ===== verification/Delegation_Laws.thy ===== *)
theory Delegation_Laws
  imports Delegation
begin

text \<open>
  What a verified delegation chain is: an exact characterisation of the verification, and the order
  of scopes as an instance of the interface of \<open>Narrowing\<close>.
\<close>

section \<open>The order of scopes\<close>

lemma is_sub_prefix_iff: "is_sub_prefix c p \<longleftrightarrow> p = [] \<or> (\<exists>r. split_on 47 c = split_on 47 p @ r)"
  by (auto simp: is_sub_prefix_def Let_def not_less) (metis append_take_drop_id)

lemma split_on_eq_Nil: "split_on 47 p = [[]] @ r \<Longrightarrow> r = [] \<Longrightarrow> p = []"
  by (cases p) (auto split: if_splits list.splits)

lemma is_sub_prefix_trans: "is_sub_prefix c b \<Longrightarrow> is_sub_prefix b a \<Longrightarrow> is_sub_prefix c a"
proof -
  assume cb: "is_sub_prefix c b" and ba: "is_sub_prefix b a"
  show "is_sub_prefix c a"
  proof (cases "b = []")
    case True
    with ba obtain r where "a = [] \<or> [[]] = split_on 47 a @ r" by (auto simp: is_sub_prefix_iff)
    then have "a = []" by (cases a) (auto split: if_splits list.splits)
    then show ?thesis by (simp add: is_sub_prefix_iff)
  qed (use cb ba in \<open>auto simp: is_sub_prefix_iff\<close>)
qed

lemma is_sub_prefix_refl [simp]: "is_sub_prefix p p"
  by (simp add: is_sub_prefix_iff)

definition caveat_keys :: "prims \<Rightarrow> scope \<Rightarrow> pystr set" where
  "caveat_keys P s = {k. \<exists>c \<in> set (s_caveats s). caveat_key P c = Inr k}"

definition scope_within :: "prims \<Rightarrow> scope \<Rightarrow> scope \<Rightarrow> bool" where
  "scope_within P child parent \<longleftrightarrow> set (s_actions child) \<subseteq> set (s_actions parent) \<and>
     prefixes_within (resource_prefixes child) (resource_prefixes parent) \<and>
     caveat_keys P parent \<subseteq> caveat_keys P child"

lemma prefixes_within_iff:
  "prefixes_within cs ps \<longleftrightarrow> (\<forall>c \<in> set cs. \<exists>p \<in> set ps. is_sub_prefix c p)"
  by (simp add: prefixes_within_def list_all_iff list_ex_iff)

lemma prefixes_within_refl [simp]: "prefixes_within ps ps"
  unfolding prefixes_within_iff using is_sub_prefix_refl by blast

lemma prefixes_within_trans: "prefixes_within c b \<Longrightarrow> prefixes_within b a \<Longrightarrow> prefixes_within c a"
  unfolding prefixes_within_iff by (meson is_sub_prefix_trans)

lemma scope_allows_iff:
  "scope_allows s act res \<longleftrightarrow> act \<in> set (s_actions s) \<and> prefixes_within [res] (resource_prefixes s)"
  by (simp add: scope_allows_def prefixes_within_def)

interpretation delegation: authority "scope_within P" "\<lambda>s (act, res). scope_allows s act res"
proof unfold_locales
  fix g show "scope_within P g g" by (simp add: scope_within_def)
next
  fix g h k assume "scope_within P g h" "scope_within P h k"
  then show "scope_within P g k"
    unfolding scope_within_def using prefixes_within_trans subset_trans by blast
next
  fix g h r assume "scope_within P g h" "case r of (act, res) \<Rightarrow> scope_allows g act res"
  then show "case r of (act, res) \<Rightarrow> scope_allows h act res"
    unfolding scope_within_def using prefixes_within_trans by (auto simp: scope_allows_iff)
qed

lemma keys_of_rmap: "rmap (caveat_key P) cs = Inr ks \<Longrightarrow> set ks = {k. \<exists>c \<in> set cs. caveat_key P c = Inr k}"
  by (induction cs arbitrary: ks) auto

lemma narrower_imp_within:
  assumes "is_scope_narrower_or_equal P c p = Inr True" shows "scope_within P c p"
proof -
  from assms obtain ps cs where "rmap (caveat_key P) (s_caveats p) = Inr ps"
    "rmap (caveat_key P) (s_caveats c) = Inr cs" "set ps \<subseteq> set cs"
    and "set (s_actions c) \<subseteq> set (s_actions p)" "prefixes_within (resource_prefixes c) (resource_prefixes p)"
    unfolding is_scope_narrower_or_equal_def by (auto split: if_splits)
  then show ?thesis unfolding scope_within_def caveat_keys_def using keys_of_rmap by blast
qed

section \<open>Verified chains\<close>

text \<open>The conditions on a receipt by itself, on the first one, and on two neighbours.\<close>

definition receipt_ok :: "prims \<Rightarrow> verifier \<Rightarrow> signed_envelope \<Rightarrow> receipt \<Rightarrow> pystr \<Rightarrow> bool" where
  "receipt_ok P V env r h \<longleftrightarrow>
     read_receipt V (payload env) = Some r \<and> receipt_hash P env = Inr h \<and>
     (\<exists>pub. resolve_public_key P (registry V) (env_key_id env) = Inr pub \<and>
        verify_envelope P env pub = Inr (payload env)) \<and>
     d_not_before r \<le> moment V \<and> moment V \<le> d_expires_at r"

definition root_ok :: "verifier \<Rightarrow> signed_envelope \<Rightarrow> receipt \<Rightarrow> bool" where
  "root_ok V env r \<longleftrightarrow> env_key_id env \<in> set (trusted_authority V) \<and> delegator r = env_key_id env \<and>
     depth r = 0 \<and> parent_receipt_hash r = None"

definition follows :: "prims \<Rightarrow> receipt \<Rightarrow> pystr \<Rightarrow> signed_envelope \<Rightarrow> receipt \<Rightarrow> bool" where
  "follows P prev prev_hash env r \<longleftrightarrow>
     env_key_id env = delegatee prev \<and> delegator r = delegatee prev \<and>
     parent_receipt_hash r = Some prev_hash \<and> depth r = depth prev + 1 \<and>
     is_scope_narrower_or_equal P (d_scope r) (d_scope prev) = Inr True \<and>
     root_mandate_hash r = root_mandate_hash prev \<and> d_constitution_hash r = d_constitution_hash prev \<and>
     max_depth r \<le> max_depth prev \<and> depth r \<le> max_depth r \<and>
     d_not_before prev \<le> d_not_before r \<and> d_expires_at r \<le> d_expires_at prev"

definition link_ok ::
    "prims \<Rightarrow> verifier \<Rightarrow> signed_envelope list \<Rightarrow> receipt list \<Rightarrow> pystr list \<Rightarrow> nat \<Rightarrow> bool" where
  "link_ok P V envs rs hs i \<longleftrightarrow> depth (rs ! i) = int i \<and>
     (if i = 0 then root_ok V (envs ! 0) (rs ! 0)
      else follows P (rs ! (i - 1)) (hs ! (i - 1)) (envs ! i) (rs ! i))"

definition legit_chain ::
    "prims \<Rightarrow> verifier \<Rightarrow> signed_envelope list \<Rightarrow> receipt list \<Rightarrow> pystr list \<Rightarrow> bool" where
  "legit_chain P V envs rs hs \<longleftrightarrow>
     length rs = length envs \<and> length hs = length envs \<and>
     distinct hs \<and> distinct (map delegation_id rs) \<and>
     (\<forall>i < length envs. receipt_ok P V (envs ! i) (rs ! i) (hs ! i) \<and> link_ok P V envs rs hs i)"

lemma check_root_ok: "check_root V env r = Inr u \<longleftrightarrow> root_ok V env r"
  by (auto simp: check_root_def root_ok_def)

lemma check_hop_ok: "check_hop P n prev h env r = Inr u \<longleftrightarrow> follows P prev h env r \<and> depth r = int n"
  unfolding check_hop_def follows_def require_eq_Inr rbind_eq_Inr by auto

lemma verify_receipt_signature_ok: "verify_receipt_signature P reg env = Inr u \<longleftrightarrow>
    (\<exists>pub. resolve_public_key P reg (env_key_id env) = Inr pub \<and> verify_envelope P env pub = Inr (payload env))"
  by (auto simp: verify_receipt_signature_def verify_envelope_ok)

lemma verify_hop_ok: "verify_hop P V env (rs, hs) = Inr (rs', hs') \<longleftrightarrow>
    (\<exists>r h. rs' = rs @ [r] \<and> hs' = hs @ [h] \<and> receipt_ok P V env r h \<and> h \<notin> set hs \<and>
       delegation_id r \<notin> set (map delegation_id rs) \<and>
       (if rs = [] then root_ok V env r
        else follows P (last rs) (last hs) env r \<and> depth r = int (length rs)))"
proof -
  have "verify_hop P V env (rs, hs) = Inr (rs', hs') \<longleftrightarrow>
    (\<exists>r h. rs' = rs @ [r] \<and> hs' = hs @ [h] \<and> receipt_ok P V env r h \<and> h \<notin> set hs \<and>
       delegation_id r \<notin> set (map delegation_id rs) \<and>
       (if rs = [] then check_root V env r
        else check_hop P (length rs) (last rs) (last hs) env r) = Inr ())"
    unfolding verify_hop_def Let_def prod.case rbind_eq_Inr require_eq_Inr of_option_eq_Inr
      verify_receipt_signature_ok receipt_ok_def by auto
  then show ?thesis by (auto simp: check_root_ok check_hop_ok)
qed

lemma verify_hops_append:
  "verify_hops P V (as @ bs) acc = rbind (verify_hops P V as acc) (verify_hops P V bs)"
  by (induction as arbitrary: acc) (simp_all add: rbind_def split: sum.split)

lemma verify_hops_snoc: "verify_hops P V (envs @ [env]) acc = Inr out \<longleftrightarrow>
    (\<exists>mid. verify_hops P V envs acc = Inr mid \<and> verify_hop P V env mid = Inr out)"
  by (cases out) (simp add: verify_hops_append)

lemma link_ok_append:
  "i < length envs \<Longrightarrow> length rs = length envs \<Longrightarrow> length hs = length envs \<Longrightarrow>
    link_ok P V (envs @ xs) (rs @ ys) (hs @ zs) i \<longleftrightarrow> link_ok P V envs rs hs i"
  by (cases i) (auto simp: link_ok_def nth_append)

lemma link_ok_last:
  assumes "length rs = length envs" "length hs = length envs"
  shows "link_ok P V (envs @ [env]) (rs @ [r]) (hs @ [h]) (length envs) \<longleftrightarrow>
    (if rs = [] then root_ok V env r else follows P (last rs) (last hs) env r \<and> depth r = int (length rs))"
proof (cases "envs = []")
  case False
  then have "rs \<noteq> []" "hs \<noteq> []" using assms by auto
  with assms False show ?thesis by (auto simp: link_ok_def nth_append last_conv_nth)
qed (use assms in \<open>auto simp: link_ok_def root_ok_def\<close>)

lemma legit_chain_snoc: "legit_chain P V (envs @ [env]) rs' hs' \<longleftrightarrow>
    (\<exists>rs hs r h. rs' = rs @ [r] \<and> hs' = hs @ [h] \<and> legit_chain P V envs rs hs \<and> receipt_ok P V env r h \<and>
       h \<notin> set hs \<and> delegation_id r \<notin> set (map delegation_id rs) \<and>
       (if rs = [] then root_ok V env r
        else follows P (last rs) (last hs) env r \<and> depth r = int (length rs)))"
proof -
  have snoc: "length xs = Suc n \<longleftrightarrow> (\<exists>ys y. xs = ys @ [y] \<and> length ys = n)" for xs :: "'x list" and n
    by (metis length_Suc_conv_rev)
  have step: "legit_chain P V (envs @ [env]) (rs @ [r]) (hs @ [h]) \<longleftrightarrow>
      legit_chain P V envs rs hs \<and> receipt_ok P V env r h \<and> h \<notin> set hs \<and>
       delegation_id r \<notin> set (map delegation_id rs) \<and>
       (if rs = [] then root_ok V env r
        else follows P (last rs) (last hs) env r \<and> depth r = int (length rs))"
    if len: "length rs = length envs" "length hs = length envs" for rs hs r h
    using len link_ok_last [OF len, of P V env r h] link_ok_append [OF _ len, of _ P V "[env]" "[r]" "[h]"]
    by (auto simp: legit_chain_def less_Suc_eq nth_append)
  show ?thesis
  proof
    assume l: "legit_chain P V (envs @ [env]) rs' hs'"
    then obtain rs r hs h where "rs' = rs @ [r]" "length rs = length envs" "hs' = hs @ [h]" "length hs = length envs"
      unfolding legit_chain_def length_append by (auto simp: snoc)
    with l step show "\<exists>rs hs r h. rs' = rs @ [r] \<and> hs' = hs @ [h] \<and> legit_chain P V envs rs hs \<and>
       receipt_ok P V env r h \<and> h \<notin> set hs \<and> delegation_id r \<notin> set (map delegation_id rs) \<and>
       (if rs = [] then root_ok V env r
        else follows P (last rs) (last hs) env r \<and> depth r = int (length rs))" by blast
  qed (use step in \<open>auto simp: legit_chain_def [of P V envs]\<close>)
qed

lemma verify_hops_ok: "verify_hops P V envs ([], []) = Inr (rs, hs) \<longleftrightarrow> legit_chain P V envs rs hs"
proof (induction envs arbitrary: rs hs rule: rev_induct)
  case Nil
  show ?case by (auto simp: legit_chain_def)
next
  case (snoc env envs)
  have "verify_hops P V (envs @ [env]) ([], []) = Inr (rs, hs) \<longleftrightarrow>
      (\<exists>rs0 hs0. verify_hops P V envs ([], []) = Inr (rs0, hs0) \<and> verify_hop P V env (rs0, hs0) = Inr (rs, hs))"
    unfolding verify_hops_snoc by auto
  then show ?case unfolding snoc.IH verify_hop_ok legit_chain_snoc by auto
qed

definition summary :: "receipt list \<Rightarrow> pystr list \<Rightarrow> verified_chain" where
  "summary rs hs = \<lparr>effective_scope = d_scope (last rs), leaf_depth = depth (last rs),
     chain_length = length rs, ancestor_hashes = hs, delegatee_chain = map delegatee rs,
     vc_root_mandate_hash = root_mandate_hash (hd rs), vc_constitution_hash = d_constitution_hash (hd rs),
     leaf_hash = last hs\<rparr>"

lemma verify_chain_ok: "verify_chain P V envs = Inr v \<longleftrightarrow>
    envs \<noteq> [] \<and> (\<exists>rs hs. legit_chain P V envs rs hs \<and> v = summary rs hs)"
  by (auto simp: verify_chain_def verify_hops_ok summary_def)

lemma legit_chain_scopes:
  assumes "legit_chain P V envs rs hs" "r \<in> set rs"
  shows "scope_within P (d_scope (last rs)) (d_scope r)"
proof -
  have "successively (\<lambda>p c. scope_within P c p) (map d_scope rs)"
    unfolding successively_conv_nth using assms(1)
    by (auto simp: legit_chain_def link_ok_def follows_def intro!: narrower_imp_within)
  from delegation.last_within_all [OF this, of "d_scope r"] assms(2) show ?thesis
    by (cases "rs = []") (auto simp: last_map)
qed

end
