(* ===== verification/Delegation_Properties.thy ===== *)
theory Delegation_Properties
  imports Delegation_Laws Instances
begin

text \<open>
  What a delegation chain guarantees: the verification accepts exactly the legitimate chains, the
  leaf's authority is within every hop's, and an honestly minted receipt extends a verified chain.
\<close>

section \<open>Minted receipts\<close>

text \<open>Pydantic reads a receipt back from its dump.\<close>

definition receipts_read_back :: "prims \<Rightarrow> ((pystr \<times> json) list \<Rightarrow> receipt option) \<Rightarrow> bool" where
  "receipts_read_back P rd \<longleftrightarrow> (\<forall>r. 0 \<le> depth r \<and> 0 \<le> max_depth r \<longrightarrow> rd (payload_dict P r) = Some r)"

lemma new_receipt_ok:
  assumes "new_receipt P rnd sg nb ea r = Inr env"
  obtains r' where "sign_payload P sg (payload_dict P r') = Inr env" "delegator r = key_id sg"
    "0 \<le> depth r" "0 \<le> max_depth r"
    "r' = r\<lparr>delegation_id := (if delegation_id r \<noteq> [] then delegation_id r else py ''del-'' @ fst rnd),
       d_not_before := as_utc nb, d_expires_at := as_utc ea, d_nonce := snd rnd\<rparr>"
  using assms unfolding new_receipt_def require_eq_Inr rbind_eq_Inr by blast

lemma delegate_ok:
  assumes "delegate P rd rnd parent_env sg a = Inr env" "receipts_read_back P rd"
    and "rd (payload env) = Some r"
  obtains parent h where "rd (payload parent_env) = Some parent" "receipt_hash P parent_env = Inr h"
    "sign_payload P sg (payload_dict P r) = Inr env" "key_id sg = delegatee parent"
    "is_scope_narrower_or_equal P (d_scope r) (d_scope parent) = Inr True"
    "d_scope r = da_scope a" "delegator r = delegatee parent" "delegatee r = da_delegatee a"
    "parent_receipt_hash r = Some h" "depth r = depth parent + 1" "max_depth r \<le> max_depth parent"
    "root_mandate_hash r = root_mandate_hash parent" "d_constitution_hash r = d_constitution_hash parent"
    "d_not_before parent \<le> d_not_before r" "d_expires_at r \<le> d_expires_at parent"
proof -
  let ?nb = "\<lambda>p. case da_not_before a of None \<Rightarrow> Aware (d_not_before p) 0 | Some d \<Rightarrow> d"
  let ?ea = "\<lambda>p. case da_expires_at a of None \<Rightarrow> Aware (d_expires_at p) 0 | Some d \<Rightarrow> d"
  let ?cm = "\<lambda>p. case da_max_depth a of None \<Rightarrow> max_depth p | Some m \<Rightarrow> m"
  let ?new = "\<lambda>p h. \<lparr>delegation_id = id_or_empty (da_id a), parent_receipt_hash = Some h,
     root_mandate_hash = root_mandate_hash p, delegator = delegatee p, delegatee = da_delegatee a,
     d_scope = da_scope a, depth = depth p + 1, max_depth = ?cm p, d_not_before = 0, d_expires_at = 0,
     d_nonce = [], d_constitution_hash = d_constitution_hash p\<rparr>"
  obtain parent h where p: "rd (payload parent_env) = Some parent" "key_id sg = delegatee parent"
    "is_scope_narrower_or_equal P (da_scope a) (d_scope parent) = Inr True"
    "dt_less (?nb parent) (Aware (d_not_before parent) 0) = Inr False"
    "dt_less (Aware (d_expires_at parent) 0) (?ea parent) = Inr False" "?cm parent \<le> max_depth parent"
    "receipt_hash P parent_env = Inr h" and new: "new_receipt P rnd sg (?nb parent) (?ea parent) (?new parent h) = Inr env"
    using assms(1) unfolding delegate_def Let_def rbind_eq_Inr require_eq_Inr of_option_eq_Inr by auto
  obtain q where q: "sign_payload P sg (payload_dict P q) = Inr env" "0 \<le> depth (?new parent h)"
      "0 \<le> max_depth (?new parent h)"
    and qd: "q = (?new parent h)\<lparr>delegation_id := (if delegation_id (?new parent h) \<noteq> []
         then delegation_id (?new parent h) else py ''del-'' @ fst rnd),
       d_not_before := as_utc (?nb parent), d_expires_at := as_utc (?ea parent), d_nonce := snd rnd\<rparr>"
    by (rule new_receipt_ok [OF new])
  have "0 \<le> depth q" "0 \<le> max_depth q" using q(2,3) by (simp_all add: qd)
  then have "rd (payload env) = Some q"
    using assms(2) sign_payload_ok(2) [OF q(1)] by (simp add: receipts_read_back_def)
  with assms(3) have "q = r" by simp
  then have r: "d_scope r = da_scope a" "delegator r = delegatee parent" "delegatee r = da_delegatee a"
    "parent_receipt_hash r = Some h" "depth r = depth parent + 1" "max_depth r = ?cm parent"
    "root_mandate_hash r = root_mandate_hash parent" "d_constitution_hash r = d_constitution_hash parent"
    "d_not_before r = as_utc (?nb parent)" "d_expires_at r = as_utc (?ea parent)"
    by (simp_all add: qd flip: \<open>q = r\<close>)
  have "d_not_before parent \<le> d_not_before r" "d_expires_at r \<le> d_expires_at parent"
    using dt_less_eq_Inr [OF p(4)] dt_less_eq_Inr [OF p(5)] r(9,10) by auto
  with q(1) \<open>q = r\<close> p r show ?thesis by (intro that [of parent h]) simp_all
qed

section \<open>An instance\<close>

text \<open>The concrete primitives with a digest that tells envelopes apart by the first letter of their
  key id, and a reader of dumped receipts.\<close>

definition demo_prims :: prims where
  "demo_prims = toy\<lparr>sha256 := (\<lambda>b. replicate 32 (hd (drop 27 b @ [0])))\<rparr>"

lemma demo_prims_ok [simp]: "prims_ok demo_prims" "signer_ok demo_prims (toy_signer k b)"
  using toy_ok toy_signer_ok [of k b]
  by (simp_all add: demo_prims_def prims_ok_def signer_ok_def)

definition text_at :: "(pystr \<times> json) list \<Rightarrow> string \<Rightarrow> pystr" where
  "text_at d k = (case map_of d (py k) of Some v \<Rightarrow> (case v of JStr s \<Rightarrow> s | _ \<Rightarrow> []) | None \<Rightarrow> [])"

definition int_at :: "(pystr \<times> json) list \<Rightarrow> string \<Rightarrow> int" where
  "int_at d k = (case map_of d (py k) of Some v \<Rightarrow> (case v of JInt n \<Rightarrow> n | _ \<Rightarrow> 0) | None \<Rightarrow> 0)"

definition list_at :: "(pystr \<times> json) list \<Rightarrow> string \<Rightarrow> json list" where
  "list_at d k = (case map_of d (py k) of Some v \<Rightarrow> (case v of JArr vs \<Rightarrow> vs | _ \<Rightarrow> []) | None \<Rightarrow> [])"

definition texts_of :: "json list \<Rightarrow> pystr list" where
  "texts_of vs = map (\<lambda>v. case v of JStr s \<Rightarrow> s | _ \<Rightarrow> []) vs"

fun scope_of :: "json \<Rightarrow> scope" where
  "scope_of (JObj d) = \<lparr>s_actions = texts_of (list_at d ''actions''),
     resource_prefixes = texts_of (list_at d ''resource_prefixes''), s_caveats = list_at d ''caveats''\<rparr>"
| "scope_of _ = \<lparr>s_actions = [], resource_prefixes = [], s_caveats = []\<rparr>"

definition demo_read :: "(pystr \<times> json) list \<Rightarrow> receipt" where
  "demo_read d = \<lparr>delegation_id = text_at d ''delegation_id'',
     parent_receipt_hash = (case map_of d (py ''parent_receipt_hash'') of
        Some v \<Rightarrow> (case v of JStr s \<Rightarrow> Some s | _ \<Rightarrow> None) | None \<Rightarrow> None),
     root_mandate_hash = text_at d ''root_mandate_hash'', delegator = text_at d ''delegator'',
     delegatee = text_at d ''delegatee'',
     d_scope = (case map_of d (py ''scope'') of Some v \<Rightarrow> scope_of v | None \<Rightarrow> scope_of JNull),
     depth = int_at d ''depth'', max_depth = int_at d ''max_depth'',
     d_not_before = text_int (text_at d ''not_before''), d_expires_at = text_int (text_at d ''expires_at''),
     d_nonce = text_at d ''nonce'', d_constitution_hash = text_at d ''constitution_hash''\<rparr>"

lemma demo_read_back [simp]: "demo_read (payload_dict demo_prims r) = r"
proof -
  have "scope_of (scope_json s) = s" for s
    by (simp add: scope_json_def list_at_def texts_of_def comp_def)
  moreover have "dt_json demo_prims = int_text" by (simp add: demo_prims_def)
  ultimately show ?thesis
    by (cases r) (simp add: demo_read_def payload_dict_def text_at_def int_at_def split: option.splits)
qed

definition demo_verifier :: verifier where
  "demo_verifier = \<lparr>read_receipt = (\<lambda>d. Some (demo_read d)), trusted_authority = [py ''a''],
     registry = [py ''a'' \<mapsto> KeyBytes (replicate 32 1), py ''b'' \<mapsto> KeyBytes (replicate 32 2)], moment = 5\<rparr>"

definition demo_scope :: scope where
  "demo_scope = \<lparr>s_actions = [py ''read''], resource_prefixes = [py ''ws''], s_caveats = []\<rparr>"

definition demo_root_args :: root_args where
  "demo_root_args = \<lparr>ra_mandate_hash = py ''m'', ra_constitution_hash = py ''c'', ra_delegatee = py ''b'',
     ra_scope = demo_scope, ra_max_depth = 2, ra_not_before = Aware 0 0, ra_expires_at = Aware 10 0,
     ra_id = Some (py ''r0'')\<rparr>"

definition demo_receipt :: receipt where
  "demo_receipt = \<lparr>delegation_id = py ''r0'', parent_receipt_hash = None, root_mandate_hash = py ''m'',
     delegator = py ''a'', delegatee = py ''b'', d_scope = demo_scope, depth = 0, max_depth = 2,
     d_not_before = 0, d_expires_at = 10, d_nonce = py ''n'', d_constitution_hash = py ''c''\<rparr>"

definition demo_delegate_args :: delegate_args where
  "demo_delegate_args = \<lparr>da_delegatee = py ''c'', da_scope = demo_scope, da_not_before = None,
     da_expires_at = None, da_max_depth = None, da_id = Some (py ''r1'')\<rparr>"

lemma demo_sign:
  assumes "json_ok demo_prims (JObj d)"
  obtains env where "sign_payload demo_prims (toy_signer k x) d = Inr env" "text_ok (signature env)"
    "alg env = alg_ed25519" "env_key_id env = py k" "payload env = d"
    "verify_envelope demo_prims env (replicate 32 x) = Inr d"
proof -
  obtain b where "canonical_bytes demo_prims (JObj d) = Inr b" using canonical_total [OF assms] by blast
  moreover from this obtain env where env: "sign_payload demo_prims (toy_signer k x) d = Inr env"
    by (simp add: sign_payload_def)
  moreover from calculation have "text_ok (signature env)"
    by (auto simp: sign_payload_def demo_prims_def simp del: to_hex.simps)
  ultimately show ?thesis using that sign_payload_ok [OF env] verify_signed_payload [OF _ _ env]
    by (metis demo_prims_ok toy_signer_sel(1,2))
qed

text \<open>The digest of an envelope signed under a key id of one ASCII letter.\<close>

lemma utf8_encode_ascii:
  "list_all (\<lambda>c. c < 128) s \<Longrightarrow> utf8_encode (s @ t) = rbind (utf8_encode t) (\<lambda>r. Inr (map b8 s @ r))"
proof (induction s)
  case (Cons c s)
  then have "utf8_char c = Some [b8 c]" by (simp add: utf8_char_def)
  with Cons show ?case by (simp add: rbind_def split: sum.splits)
qed (simp add: rbind_def split: sum.splits)

lemma demo_hash:
  assumes "alg env = alg_ed25519" "env_key_id env = [c]" "96 < c" "c < 128"
    and "json_ok demo_prims (JObj (payload env))" "text_ok (signature env)"
  shows "receipt_hash demo_prims env = Inr (to_hex (replicate 32 (b8 c)))"
proof -
  obtain w where w: "json_text demo_prims (JObj (payload env)) = Inr w" "text_ok w"
    using json_text_good(1) [OF assms(5)] by blast
  let ?ms = "[(py ''alg'', Inr (json_string alg_ed25519)), (py ''key_id'', Inr (json_string [c])),
     (py ''payload'', Inr w), (py ''signature'', Inr (json_string (signature env)))] :: (pystr \<times> pystr res) list"
  have "json_members demo_prims [(py ''alg'', JStr (alg env)), (py ''key_id'', JStr (env_key_id env)),
     (py ''payload'', JObj (payload env)), (py ''signature'', JStr (signature env))] = ?ms"
    using assms(1,2) w(1) by (simp del: json_text.simps(7))
  moreover have "sort_key fst ?ms = ?ms" by (rule sort_key_id_if_sorted) (simp add: py_def)
  ultimately have jt: "json_text demo_prims (envelope_json env) = Inr ([123] @ (json_string (py ''alg'') @ [58] @
      json_string alg_ed25519) @ [44] @ (json_string (py ''key_id'') @ [58] @ json_string [c]) @ [44] @
      (json_string (py ''payload'') @ [58] @ w) @ [44] @
      (json_string (py ''signature'') @ [58] @ json_string (signature env)) @ [125])"
    unfolding envelope_json_def json_text.simps(7) by (simp only:) (simp add: rbind_def)
  let ?t = "[34] @ [44] @ (json_string (py ''payload'') @ [58] @ w) @ [44] @
      (json_string (py ''signature'') @ [58] @ json_string (signature env)) @ [125]"
  have "text_ok (json_string (py ''payload''))" "text_ok (json_string (py ''signature''))"
    by (simp_all add: text_ok_json_string)
  then have "text_ok ?t" using w(2) text_ok_json_string [OF assms(6)] by simp
  moreover have "[123] @ (json_string (py ''alg'') @ [58] @ json_string alg_ed25519) @ [44] @
      (json_string (py ''key_id'') @ [58] @ json_string [c]) =
      [123, 34, 97, 108, 103, 34, 58, 34, 69, 100, 50, 53, 53, 49, 57, 34, 44,
        34, 107, 101, 121, 95, 105, 100, 34, 58, 34, c] @ [34]"
    using assms(3) by (simp add: json_string_def json_escape_def alg_ed25519_def py_def)
  ultimately have "\<exists>t. text_ok t \<and> json_text demo_prims (envelope_json env) =
      Inr ([123, 34, 97, 108, 103, 34, 58, 34, 69, 100, 50, 53, 53, 49, 57, 34, 44,
        34, 107, 101, 121, 95, 105, 100, 34, 58, 34, c] @ t)"
    unfolding jt by (intro exI [of _ ?t] conjI) (simp_all only: append_assoc [symmetric])
  then obtain t where t: "text_ok t" "json_text demo_prims (envelope_json env) =
      Inr ([123, 34, 97, 108, 103, 34, 58, 34, 69, 100, 50, 53, 53, 49, 57, 34, 44,
        34, 107, 101, 121, 95, 105, 100, 34, 58, 34, c] @ t)" by blast
  obtain r where r: "utf8_encode t = Inr r" using utf8_encode_total [OF t(1)] by blast
  have "canonical_bytes demo_prims (envelope_json env) = Inr (map b8 [123, 34, 97, 108, 103, 34, 58, 34, 69, 100,
      50, 53, 53, 49, 57, 34, 44, 34, 107, 101, 121, 95, 105, 100, 34, 58, 34, c] @ r)"
    unfolding canonical_bytes_def t(2) rbind_simps
    by (subst utf8_encode_ascii) (use assms(4) r in simp_all)
  then show ?thesis
    by (simp add: receipt_hash_def sha256_hex_def demo_prims_def del: to_hex.simps)
qed

lemma demo_json_ok: "json_ok demo_prims (JObj (payload_dict demo_prims r))"
  if "text_ok (delegation_id r)" "\<And>h. parent_receipt_hash r = Some h \<Longrightarrow> text_ok h" "text_ok (root_mandate_hash r)"
    "text_ok (delegator r)" "text_ok (delegatee r)" "d_scope r = demo_scope" "text_ok (d_nonce r)"
    "text_ok (d_constitution_hash r)"
proof -
  have "dt_json demo_prims = int_text" by (simp add: demo_prims_def)
  with that show ?thesis
    by (simp add: payload_dict_def scope_json_def demo_scope_def split: option.split)
qed

lemma demo_receipt_ok:
  assumes "sign_payload demo_prims (toy_signer [x] k) (payload_dict demo_prims r) = Inr env"
    "text_ok (signature env)" "json_ok demo_prims (JObj (payload_dict demo_prims r))"
    "registry demo_verifier (py [x]) = Some (KeyBytes (replicate 32 k))"
    "(96 :: nat) < of_char x" "of_char x < (128 :: nat)" "d_not_before r \<le> 5" "5 \<le> d_expires_at r"
  shows "receipt_ok demo_prims demo_verifier env r (to_hex (replicate 32 (b8 (of_char x))))"
proof -
  note e = sign_payload_ok [OF assms(1)]
  have "receipt_hash demo_prims env = Inr (to_hex (replicate 32 (b8 (of_char x))))"
    using e assms(2,3,5,6) by (intro demo_hash) (simp_all add: py_def)
  moreover have "verify_envelope demo_prims env (replicate 32 k) = Inr (payload env)"
    using verify_signed_payload [OF _ _ assms(1)] e by simp
  moreover have "read_receipt demo_verifier (payload env) = Some r"
    using e by (simp add: demo_verifier_def)
  ultimately show ?thesis using assms(4,7,8) e(1)
    by (simp add: receipt_ok_def resolve_public_key_def demo_verifier_def)
qed

lemma demo_root: "\<exists>env. issue_root demo_prims ([], py ''n'') (toy_signer ''a'' 1) demo_root_args = Inr env \<and>
    legit_chain demo_prims demo_verifier [env] [demo_receipt] [to_hex (replicate 32 97)]"
proof -
  have j: "json_ok demo_prims (JObj (payload_dict demo_prims demo_receipt))"
    by (rule demo_json_ok) (simp_all add: demo_receipt_def)
  obtain env where env: "sign_payload demo_prims (toy_signer ''a'' 1) (payload_dict demo_prims demo_receipt) = Inr env"
    "text_ok (signature env)" "env_key_id env = py ''a''" by (rule demo_sign [OF j])
  have "receipt_ok demo_prims demo_verifier env demo_receipt (to_hex (replicate 32 (b8 (of_char (CHR ''a'')))))"
    by (rule demo_receipt_ok [OF env(1,2) j]) (simp_all add: demo_verifier_def demo_receipt_def)
  moreover have "b8 (of_char (CHR ''a'')) = 97" by (simp add: b8_def)
  moreover have "issue_root demo_prims ([], py ''n'') (toy_signer ''a'' 1) demo_root_args = Inr env"
    using env(1) by (simp add: issue_root_def new_receipt_def demo_root_args_def demo_receipt_def dt_less_def
      id_or_empty_def)
  moreover have "root_ok demo_verifier env demo_receipt"
    by (simp add: root_ok_def demo_verifier_def demo_receipt_def env(3))
  ultimately show ?thesis
    by (intro exI [of _ env]) (simp add: legit_chain_def link_ok_def demo_receipt_def del: to_hex.simps replicate.simps)
qed

lemma demo_delegated:
  assumes "legit_chain demo_prims demo_verifier [env] [demo_receipt] [h]" "text_ok h"
  obtains env2 r2 where "delegate demo_prims (read_receipt demo_verifier) ([], py ''n'') env (toy_signer ''b'' 2)
      demo_delegate_args = Inr env2" "receipt_ok demo_prims demo_verifier env2 r2 (to_hex (replicate 32 98))"
    "delegation_id r2 = py ''r1''" "depth r2 \<le> max_depth r2"
proof -
  let ?r2 = "demo_receipt\<lparr>delegation_id := py ''r1'', parent_receipt_hash := Some h, delegator := py ''b'',
     delegatee := py ''c'', depth := 1\<rparr>"
  have env: "read_receipt demo_verifier (payload env) = Some demo_receipt" "receipt_hash demo_prims env = Inr h"
    using assms(1) by (auto simp: legit_chain_def receipt_ok_def)
  have j: "json_ok demo_prims (JObj (payload_dict demo_prims ?r2))"
    by (rule demo_json_ok) (use assms(2) in \<open>simp_all add: demo_receipt_def\<close>)
  obtain env2 where e2: "sign_payload demo_prims (toy_signer ''b'' 2) (payload_dict demo_prims ?r2) = Inr env2"
    "text_ok (signature env2)" by (rule demo_sign [OF j])
  have "receipt_ok demo_prims demo_verifier env2 ?r2 (to_hex (replicate 32 (b8 (of_char (CHR ''b'')))))"
    by (rule demo_receipt_ok [OF e2 j]) (simp_all add: demo_verifier_def demo_receipt_def)
  moreover have "b8 (of_char (CHR ''b'')) = 98" by (simp add: b8_def)
  moreover have "is_scope_narrower_or_equal demo_prims demo_scope demo_scope = Inr True"
    by (simp add: is_scope_narrower_or_equal_def demo_scope_def)
  then have "delegate demo_prims (read_receipt demo_verifier) ([], py ''n'') env (toy_signer ''b'' 2)
      demo_delegate_args = Inr env2"
    using env e2(1) by (simp add: delegate_def new_receipt_def demo_delegate_args_def demo_receipt_def dt_less_def
      id_or_empty_def)
  ultimately show ?thesis using that [of env2 ?r2] by (simp add: demo_receipt_def del: to_hex.simps replicate.simps)
qed

section \<open>Properties\<close>

text \<open>C15: the verification accepts exactly the legitimate chains: it returns a summary if and only if the
  chain is not empty and there are receipts and hashes, one for each envelope, all different, such
  that each receipt is read from its envelope, signed by the registered key of its signer and valid
  now, the first is a root signed by a trusted authority at depth 0, and each of the others is
  granted by the delegatee of the one before, linked to its hash, one deeper, within its scope,
  depth limit and window, under the same mandate and constitution.\<close>

theorem chain_verification_exact:
  "verify_chain P V envs = Inr v \<longleftrightarrow> envs \<noteq> [] \<and> (\<exists>rs hs. legit_chain P V envs rs hs \<and> v = summary rs hs)"
  by (rule verify_chain_ok)

text \<open>Delegated authority only narrows. What the effective scope of a verified chain allows, every
  hop of the chain allows, and the effective scope keeps every caveat of every hop; each hop is
  signed by the delegatee of the hop before, and each is valid at the time of verification.\<close>

theorem delegated_authority_within_every_hop:
  assumes "verify_chain P V envs = Inr v"
  shows "\<exists>rs :: receipt list. length rs = length envs \<and> effective_scope v = d_scope (last rs) \<and>
    (\<forall>r \<in> set rs. scope_within P (effective_scope v) (d_scope r) \<and>
       (\<forall>act res. scope_allows (effective_scope v) act res \<longrightarrow> scope_allows (d_scope r) act res) \<and>
       d_not_before r \<le> moment V \<and> moment V \<le> d_expires_at r) \<and>
    (\<forall>i. Suc i < length envs \<longrightarrow> env_key_id (envs ! Suc i) = delegatee (rs ! i))"
proof -
  obtain rs hs where l: "legit_chain P V envs rs hs" "v = summary rs hs" "envs \<noteq> []"
    using assms verify_chain_ok by blast
  have within: "scope_within P (effective_scope v) (d_scope r)" if "r \<in> set rs" for r
    using legit_chain_scopes [OF l(1) that] l(2) by (simp add: summary_def)
  have "d_not_before r \<le> moment V \<and> moment V \<le> d_expires_at r" if "r \<in> set rs" for r
    using that l(1) by (auto simp: legit_chain_def receipt_ok_def in_set_conv_nth)
  moreover have "env_key_id (envs ! Suc i) = delegatee (rs ! i)" if "Suc i < length envs" for i
    using l(1) that by (auto simp: legit_chain_def link_ok_def follows_def)
  moreover have "scope_allows (d_scope r) act res" if "r \<in> set rs" "scope_allows (effective_scope v) act res" for r act res
    using delegation.within_permits [OF within [OF that(1)], of "(act, res)"] that(2) by simp
  ultimately show ?thesis using l within
    by - (rule exI [of _ rs], auto simp: summary_def legit_chain_def)
qed

theorem delegated_authority_within_every_hop_witness:
  "\<exists>env v. verify_chain demo_prims demo_verifier [env] = Inr v \<and> effective_scope v = demo_scope \<and>
     (\<exists>r. scope_within demo_prims (effective_scope v) (d_scope (r :: receipt)))"
proof -
  obtain env where l: "legit_chain demo_prims demo_verifier [env] [demo_receipt] [to_hex (replicate 32 97)]"
    using demo_root by blast
  then have v: "verify_chain demo_prims demo_verifier [env] = Inr (summary [demo_receipt] [to_hex (replicate 32 97)])"
    using verify_chain_ok by blast
  from delegated_authority_within_every_hop [OF v] v show ?thesis
    by (metis (no_types, lifting) demo_receipt_def last_in_set length_0_conv list.distinct(1)
      receipt.select_convs(6) summary_def last.simps verified_chain.select_convs(1))
qed

text \<open>A receipt that the holder of a verified chain mints extends it. If the signer's key is
  registered, the new receipt is valid now, its own depth limit is not below its depth, and neither
  its id nor its hash occurs in the chain, then the longer chain verifies and its effective scope is
  the delegated one, one level deeper.\<close>

theorem delegated_receipt_verifies:
  assumes "verify_chain P V envs = Inr v" "delegate P (read_receipt V) rnd (last envs) sg a = Inr env"
    and "prims_ok P" "signer_ok P sg" "registry V (key_id sg) = Some (KeyBytes (public_key_bytes sg))"
    and "receipts_read_back P (read_receipt V)" "read_receipt V (payload env) = Some r"
    and "receipt_hash P env = Inr h" "h \<notin> set (ancestor_hashes v)"
    and "\<And>e q. e \<in> set envs \<Longrightarrow> read_receipt V (payload e) = Some q \<Longrightarrow> delegation_id q \<noteq> delegation_id r"
    and "depth r \<le> max_depth r" "d_not_before r \<le> moment V" "moment V \<le> d_expires_at r"
  shows "\<exists>v'. verify_chain P V (envs @ [env]) = Inr v' \<and> effective_scope v' = da_scope a \<and>
    leaf_depth v' = leaf_depth v + 1"
proof -
  obtain rs hs where l: "legit_chain P V envs rs hs" "v = summary rs hs" "envs \<noteq> []"
    using assms(1) verify_chain_ok by blast
  then have len: "length rs = length envs" "length hs = length envs" "rs \<noteq> []" "hs \<noteq> []" by (auto simp: legit_chain_def)
  have ok: "receipt_ok P V (envs ! i) (rs ! i) (hs ! i) \<and> link_ok P V envs rs hs i" if "i < length envs" for i
    using l(1) that by (auto simp: legit_chain_def)
  have "receipt_ok P V (last envs) (last rs) (last hs)" "depth (last rs) = int (length rs - 1)"
    using ok [of "length envs - 1"] l(3) len by (auto simp: last_conv_nth link_ok_def)
  note parent_ok = this
  have "delegation_id r \<notin> set (map delegation_id rs)"
  proof
    assume "delegation_id r \<in> set (map delegation_id rs)"
    then obtain i where "i < length rs" "delegation_id (rs ! i) = delegation_id r" by (auto simp: in_set_conv_nth)
    with ok [of i] len(1) assms(10) [of "envs ! i" "rs ! i"] show False by (auto simp: receipt_ok_def)
  qed
  moreover have "h \<notin> set hs" using assms(9) l(2) by (simp add: summary_def)
  moreover from delegate_ok [OF assms(2,6,7)] obtain parent ph where d:
    "read_receipt V (payload (last envs)) = Some parent" "receipt_hash P (last envs) = Inr ph"
    "sign_payload P sg (payload_dict P r) = Inr env" "key_id sg = delegatee parent"
    "is_scope_narrower_or_equal P (d_scope r) (d_scope parent) = Inr True"
    "d_scope r = da_scope a" "delegator r = delegatee parent"
    "parent_receipt_hash r = Some ph" "depth r = depth parent + 1" "max_depth r \<le> max_depth parent"
    "root_mandate_hash r = root_mandate_hash parent" "d_constitution_hash r = d_constitution_hash parent"
    "d_not_before parent \<le> d_not_before r" "d_expires_at r \<le> d_expires_at parent" by metis
  have "env_key_id env = key_id sg" "verify_envelope P env (public_key_bytes sg) = Inr (payload env)"
    using sign_payload_ok [OF d(3)] verify_signed_payload [OF assms(3,4) d(3)] by auto
  then have "receipt_ok P V env r h"
    using assms(5,7,8,12,13) by (simp add: receipt_ok_def resolve_public_key_def)
  moreover have "parent = last rs" "ph = last hs" using parent_ok(1) d(1,2) by (auto simp: receipt_ok_def)
  then have "follows P (last rs) (last hs) env r \<and> depth r = int (length rs)"
    using d assms(11) parent_ok(2) len(3) \<open>env_key_id env = key_id sg\<close>
    by (auto simp: follows_def Suc_leI)
  ultimately have "legit_chain P V (envs @ [env]) (rs @ [r]) (hs @ [h])"
    using l(1) len(3) by (auto simp: legit_chain_snoc)
  then have "verify_chain P V (envs @ [env]) = Inr (summary (rs @ [r]) (hs @ [h]))"
    using verify_chain_ok by blast
  moreover have "leaf_depth (summary (rs @ [r]) (hs @ [h])) = leaf_depth v + 1"
    using d(9) \<open>parent = last rs\<close> l(2) by (simp add: summary_def)
  ultimately show ?thesis using d(6) by (auto simp: summary_def)
qed

theorem delegated_receipt_verifies_witness:
  "\<exists>env env2 v'. issue_root demo_prims ([], py ''n'') (toy_signer ''a'' 1) demo_root_args = Inr env \<and>
     delegate demo_prims (read_receipt demo_verifier) ([], py ''n'') env (toy_signer ''b'' 2) demo_delegate_args = Inr env2 \<and>
     verify_chain demo_prims demo_verifier [env, env2] = Inr v' \<and> leaf_depth v' = 1"
proof -
  obtain env where root: "issue_root demo_prims ([], py ''n'') (toy_signer ''a'' 1) demo_root_args = Inr env"
    and l: "legit_chain demo_prims demo_verifier [env] [demo_receipt] [to_hex (replicate 32 97)]"
    using demo_root by blast
  let ?v = "summary [demo_receipt] [to_hex (replicate 32 97)]"
  have v: "verify_chain demo_prims demo_verifier [env] = Inr ?v" using l verify_chain_ok by blast
  obtain env2 r2 where d: "delegate demo_prims (read_receipt demo_verifier) ([], py ''n'') (last [env])
      (toy_signer ''b'' 2) demo_delegate_args = Inr env2"
    and r2: "receipt_ok demo_prims demo_verifier env2 r2 (to_hex (replicate 32 98))"
    "delegation_id r2 = py ''r1''" "depth r2 \<le> max_depth r2"
    using demo_delegated [OF l] by (metis last.simps text_ok_to_hex)
  have "replicate 32 98 \<noteq> (replicate 32 97 :: byte list)" by (simp add: replicate_eq_replicate)
  then have fresh: "to_hex (replicate 32 98) \<notin> set (ancestor_hashes ?v)"
    by (simp add: summary_def del: to_hex.simps replicate.simps)
  have ids: "delegation_id q \<noteq> delegation_id r2"
    if "e \<in> set [env]" "read_receipt demo_verifier (payload e) = Some q" for e q
  proof -
    have "q = demo_receipt" using that l by (auto simp: legit_chain_def receipt_ok_def)
    then show ?thesis using r2(2) by (simp add: demo_receipt_def)
  qed
  have rdb: "receipts_read_back demo_prims (read_receipt demo_verifier)"
    by (simp add: receipts_read_back_def demo_verifier_def)
  have reg: "registry demo_verifier (key_id (toy_signer ''b'' 2)) =
      Some (KeyBytes (public_key_bytes (toy_signer ''b'' 2)))" by (simp add: demo_verifier_def)
  have ok2: "read_receipt demo_verifier (payload env2) = Some r2"
    "receipt_hash demo_prims env2 = Inr (to_hex (replicate 32 98))"
    "d_not_before r2 \<le> moment demo_verifier" "moment demo_verifier \<le> d_expires_at r2"
    using r2(1) unfolding receipt_ok_def by blast+
  have "\<exists>v'. verify_chain demo_prims demo_verifier ([env] @ [env2]) = Inr v' \<and>
      effective_scope v' = da_scope demo_delegate_args \<and> leaf_depth v' = leaf_depth ?v + 1"
    by (rule delegated_receipt_verifies [OF v d demo_prims_ok reg rdb ok2(1,2) fresh])
      (use ids r2(3) ok2(3,4) in blast)+
  then show ?thesis using root d by (auto simp: summary_def demo_receipt_def simp del: to_hex.simps)
qed

text \<open>Not every failure is a \<^verbatim>\<open>DelegationError\<close>: a receipt with the caveat NaN,
  which has no canonical form, makes the verification raise \<^verbatim>\<open>ValueError\<close>.\<close>

theorem nan_caveat_escapes:
  "\<exists>env. exn_cls (projl (verify_chain demo_prims demo_verifier [env])) = ValueError \<and>
     isl (verify_chain demo_prims demo_verifier [env])"
proof -
  let ?r = "demo_receipt\<lparr>d_scope := demo_scope\<lparr>s_caveats := [JFloat nan_f64]\<rparr>\<rparr>"
  let ?env = "\<lparr>alg = alg_ed25519, env_key_id = py ''a'', payload = payload_dict demo_prims ?r, signature = []\<rparr>"
  have "isl (json_text demo_prims (scope_json (d_scope ?r)))"
    unfolding scope_json_def
    by (rule json_text_member_error [where k = "py ''caveats''" and v = "JArr [JFloat nan_f64]"])
      (simp_all add: is_finite_def nan_f64_def mk_f64_def f64_exp_def)
  then have "isl (json_text demo_prims (JObj (payload_dict demo_prims ?r)))"
    by (rule json_text_member_error [rotated, where k = "py ''scope''"]) (simp add: payload_dict_def)
  then have "isl (json_text demo_prims (envelope_json ?env))" unfolding envelope_json_def
    by (rule json_text_member_error [rotated, where k = "py ''payload''"]) simp
  then obtain e where "json_text demo_prims (envelope_json ?env) = Inl e" by (auto simp: isl_iff_ex)
  moreover from json_text_error(1) [OF this] have "exn_cls e = ValueError" .
  ultimately have "verify_chain demo_prims demo_verifier [?env] = Inl e" "exn_cls e = ValueError"
    by (simp_all add: verify_chain_def verify_hop_def receipt_hash_def sha256_hex_def canonical_bytes_def
      demo_verifier_def)
  then show ?thesis by (intro exI [of _ ?env]) simp
qed

end
