(* ===== verification/Json_Python.thy ===== *)
theory Json_Python
  imports Canonical
begin

text \<open>
  Python's operators on decoded JSON: numeric comparison across \<^verbatim>\<open>bool\<close>,
  \<^verbatim>\<open>int\<close> and \<^verbatim>\<open>float\<close>, \<^verbatim>\<open>==\<close>,
  \<^verbatim>\<open><\<close>, \<^verbatim>\<open>in\<close>, iteration and \<^verbatim>\<open>set(...)\<close>, with the
  exceptions they raise. A dict is an association list with distinct keys.
\<close>

section \<open>Numbers\<close>

text \<open>Every finite double is an integer multiple of \<open>2 ^ -1074\<close>; this is the multiple.\<close>

definition float_scaled :: "f64 \<Rightarrow> int" where
  "float_scaled x = (if f64_sign x = 0 then 1 else - 1) *
     int (if f64_exp x = 0 then f64_mant x else (2 ^ 52 + f64_mant x) * 2 ^ (f64_exp x - 1))"

text \<open>
  The position of a number on the extended line: infinities have first component \<open>-1\<close> or
  \<open>1\<close>. \<open>None\<close> for a NaN and for what is not a number.
\<close>

fun num_key :: "json \<Rightarrow> (int \<times> int) option" where
  "num_key (JBool b) = Some (0, if b then 2 ^ 1074 else 0)"
| "num_key (JInt i) = Some (0, i * 2 ^ 1074)"
| "num_key (JFloat x) =
     (if is_nan x then None
      else if is_finite x then Some (0, float_scaled x)
      else Some (if f64_sign x = 0 then 1 else - 1, 0))"
| "num_key _ = None"

fun is_number :: "json \<Rightarrow> bool" where
  "is_number (JBool b) = True"
| "is_number (JInt i) = True"
| "is_number (JFloat x) = True"
| "is_number _ = False"

definition num_less :: "json \<Rightarrow> json \<Rightarrow> bool" where
  "num_less a b = (case (num_key a, num_key b) of (Some x, Some y) \<Rightarrow> x < y | _ \<Rightarrow> False)"

definition num_le :: "json \<Rightarrow> json \<Rightarrow> bool" where
  "num_le a b = (case (num_key a, num_key b) of (Some x, Some y) \<Rightarrow> x \<le> y | _ \<Rightarrow> False)"

lemma num_less_int [simp]: "num_less (JInt i) (JInt j) \<longleftrightarrow> i < j"
  by (simp add: num_less_def)

lemma num_le_int [simp]: "num_le (JInt i) (JInt j) \<longleftrightarrow> i \<le> j"
  by (simp add: num_le_def)

lemma num_not_less_trans:
  assumes "num_key b \<noteq> None" "\<not> num_less b a" "\<not> num_less c b"
  shows "\<not> num_less c a"
  using assms by (auto simp: num_less_def split: option.splits)

lemma num_le_less_trans: "num_le a b \<Longrightarrow> num_less b c \<Longrightarrow> num_less a c"
  by (auto simp: num_le_def num_less_def split: option.splits)

section \<open>Equality and order\<close>

fun json_eq :: "json \<Rightarrow> json \<Rightarrow> bool"
  and json_eq_items :: "json list \<Rightarrow> json list \<Rightarrow> bool"
  and json_eq_members :: "(pystr \<times> json) list \<Rightarrow> (pystr \<times> json) list \<Rightarrow> bool" where
  "json_eq JNull w \<longleftrightarrow> w = JNull"
| "json_eq (JStr s) w \<longleftrightarrow> w = JStr s"
| "json_eq (JArr vs) w \<longleftrightarrow> (case w of JArr ws \<Rightarrow> json_eq_items vs ws | _ \<Rightarrow> False)"
| "json_eq (JObj d) w \<longleftrightarrow>
     (case w of JObj e \<Rightarrow> length d = length e \<and> json_eq_members d e | _ \<Rightarrow> False)"
| "json_eq v w \<longleftrightarrow> num_key v \<noteq> None \<and> num_key v = num_key w"
| "json_eq_items [] ws \<longleftrightarrow> ws = []"
| "json_eq_items (v # vs) ws \<longleftrightarrow>
     (case ws of [] \<Rightarrow> False | w # ws' \<Rightarrow> json_eq v w \<and> json_eq_items vs ws')"
| "json_eq_members [] e \<longleftrightarrow> True"
| "json_eq_members ((k, v) # d) e \<longleftrightarrow>
     (case map_of e k of None \<Rightarrow> False | Some w \<Rightarrow> json_eq v w) \<and> json_eq_members d e"

lemma json_eq_JStr [simp]: "json_eq v (JStr s) \<longleftrightarrow> v = JStr s"
  by (cases v) auto

text \<open>\<^verbatim>\<open>v < w\<close>: numbers, strings and lists have an order, everything else and every
  mixture raises.\<close>

fun py_less :: "json \<Rightarrow> json \<Rightarrow> bool res"
  and py_less_items :: "json list \<Rightarrow> json list \<Rightarrow> bool res" where
  "py_less (JStr s) w = (case w of JStr t \<Rightarrow> Inr (s < t)
     | _ \<Rightarrow> raise TypeError ''ordering not supported between these types'')"
| "py_less (JArr vs) w = (case w of JArr ws \<Rightarrow> py_less_items vs ws
     | _ \<Rightarrow> raise TypeError ''ordering not supported between these types'')"
| "py_less v w = (if is_number v \<and> is_number w then Inr (num_less v w)
     else raise TypeError ''ordering not supported between these types'')"
| "py_less_items [] ws = Inr (ws \<noteq> [])"
| "py_less_items (v # vs) ws = (case ws of [] \<Rightarrow> Inr False
     | w # ws' \<Rightarrow> if json_eq v w then py_less_items vs ws' else py_less v w)"

lemma py_less_number [simp]: "is_number v \<Longrightarrow> is_number w \<Longrightarrow> py_less v w = Inr (num_less v w)"
  by (cases v) simp_all

section \<open>Containers\<close>

definition json_get :: "(pystr \<times> json) list \<Rightarrow> pystr \<Rightarrow> json \<Rightarrow> json" where
  "json_get d k v = (case map_of d k of None \<Rightarrow> v | Some w \<Rightarrow> w)"

definition json_item :: "(pystr \<times> json) list \<Rightarrow> pystr \<Rightarrow> json res" where
  "json_item d k = of_option KeyError ''key not found'' (map_of d k)"

text \<open>\<^verbatim>\<open>{**d, **e}\<close>: the keys of \<open>d\<close> keep their places, \<open>e\<close> decides their
  values.\<close>

definition json_merge :: "(pystr \<times> json) list \<Rightarrow> (pystr \<times> json) list \<Rightarrow> (pystr \<times> json) list" where
  "json_merge d e = map (\<lambda>(k, v). (k, json_get e k v)) d @ filter (\<lambda>(k, v). k \<notin> fst ` set d) e"

fun py_iter :: "json \<Rightarrow> json list res" where
  "py_iter (JArr vs) = Inr vs"
| "py_iter (JStr s) = Inr (map (\<lambda>c. JStr [c]) s)"
| "py_iter (JObj d) = Inr (map (\<lambda>kv. JStr (fst kv)) d)"
| "py_iter _ = raise TypeError ''object is not iterable''"

fun is_infix :: "pystr \<Rightarrow> pystr \<Rightarrow> bool" where
  "is_infix s [] \<longleftrightarrow> s = []"
| "is_infix s (c # t) \<longleftrightarrow> startswith (c # t) s \<or> is_infix s t"

text \<open>\<^verbatim>\<open>s in v\<close> for a string \<open>s\<close>.\<close>

fun str_in :: "pystr \<Rightarrow> json \<Rightarrow> bool res" where
  "str_in s (JArr vs) = Inr (JStr s \<in> set vs)"
| "str_in s (JStr t) = Inr (is_infix s t)"
| "str_in s (JObj d) = Inr (s \<in> fst ` set d)"
| "str_in s _ = raise TypeError ''argument is not iterable''"

fun hashable_json :: "json \<Rightarrow> bool" where
  "hashable_json (JArr vs) = False"
| "hashable_json (JObj d) = False"
| "hashable_json _ = True"

definition py_set :: "json \<Rightarrow> json list res" where
  "py_set v = rbind (py_iter v) (\<lambda>vs.
     require (list_all hashable_json vs) TypeError ''unhashable type'' (Inr vs))"

text \<open>\<^verbatim>\<open><=\<close> of two sets.\<close>

definition json_subset :: "json list \<Rightarrow> json list \<Rightarrow> bool" where
  "json_subset vs ws \<longleftrightarrow> list_all (\<lambda>v. list_ex (\<lambda>w. json_eq v w) ws) vs"

lemma json_subset_JStr: "json_subset vs ws \<Longrightarrow> JStr s \<in> set vs \<Longrightarrow> JStr s \<in> set ws"
  by (auto simp: json_subset_def list_all_iff list_ex_iff)

lemma json_merge_get: "map_of (json_merge d e) k = (case map_of e k of None \<Rightarrow> map_of d k | Some v \<Rightarrow> Some v)"
proof -
  have old: "map_of (map (\<lambda>(k, v). (k, json_get e k v)) d) k = map_option (json_get e k) (map_of d k)"
    by (induction d) auto
  show ?thesis
  proof (cases "map_of d k")
    case None
    then have "k \<notin> fst ` set d" by (simp add: map_of_eq_None_iff)
    then have "map_of (filter (\<lambda>(k, v). k \<notin> fst ` set d) e) k = map_of e k"
      by (induction e) (auto intro: rev_image_eqI)
    with old None show ?thesis by (simp add: json_merge_def map_add_def split: option.splits)
  next
    case (Some v)
    with old show ?thesis by (auto simp: json_merge_def map_add_def json_get_def split: option.splits)
  qed
qed

end
