(* ===== verification/Tokens.thy ===== *)
theory Tokens
  imports Json_Python Canonical_Total Narrowing
begin

text \<open>
  \<^verbatim>\<open>attenuated_tokens.py\<close>: attenuated capability tokens. The caveat registry, the
  issue of root tokens, attenuation, the subsumption check and the recursive verification.
  Parameters of caveats, invocation parameters and contexts are JSON values.
\<close>

section \<open>Caveats and payloads\<close>

definition token_version :: int where "token_version = 2"
definition max_chain_depth :: nat where "max_chain_depth = 8"

type_synonym jdict = "(pystr \<times> json) list"

record caveat =
  c_kind :: pystr
  c_params :: jdict

record token =
  t_version :: int
  t_capability_id :: pystr
  t_issuer :: pystr
  subject :: pystr
  audience :: pystr
  action :: pystr
  resource :: pystr
  parameters_hash :: pystr
  caveats :: "caveat list"
  t_not_before :: datetime
  t_expires_at :: datetime
  t_nonce :: pystr
  parent_token_hash :: "pystr option"
  constitution_hash :: pystr

text \<open>
  Pydantic on this model: the text it writes for a time in JSON mode, and
  \<^verbatim>\<open>AttenuatedTokenPayload.model_validate\<close> (\<open>None\<close> is an error).
\<close>

record token_lib =
  dt_text :: "datetime \<Rightarrow> pystr"
  read_token :: "jdict \<Rightarrow> token option"

definition caveat_json :: "caveat \<Rightarrow> json" where
  "caveat_json c = JObj [(py ''kind'', JStr (c_kind c)), (py ''params'', JObj (c_params c))]"

definition token_dump :: "token_lib \<Rightarrow> token \<Rightarrow> jdict" where
  "token_dump L t =
     [(py ''version'', JInt (t_version t)), (py ''capability_id'', JStr (t_capability_id t)),
      (py ''issuer'', JStr (t_issuer t)), (py ''subject'', JStr (subject t)),
      (py ''audience'', JStr (audience t)), (py ''action'', JStr (action t)),
      (py ''resource'', JStr (resource t)), (py ''parameters_hash'', JStr (parameters_hash t)),
      (py ''caveats'', JArr (map caveat_json (caveats t))),
      (py ''not_before'', JStr (dt_text L (t_not_before t))),
      (py ''expires_at'', JStr (dt_text L (t_expires_at t))), (py ''nonce'', JStr (t_nonce t)),
      (py ''parent_token_hash'',
        case parent_token_hash t of None \<Rightarrow> JNull | Some h \<Rightarrow> JStr h),
      (py ''constitution_hash'', JStr (constitution_hash t))]"

text \<open>The \<^verbatim>\<open>min_length=1\<close> constraints, checked by the constructor.\<close>

definition token_fields_ok :: "token \<Rightarrow> bool" where
  "token_fields_ok t \<longleftrightarrow> t_capability_id t \<noteq> [] \<and> t_issuer t \<noteq> [] \<and> subject t \<noteq> [] \<and> audience t \<noteq> []
     \<and> action t \<noteq> [] \<and> resource t \<noteq> [] \<and> parameters_hash t \<noteq> [] \<and> t_nonce t \<noteq> []
     \<and> constitution_hash t \<noteq> []"

section \<open>Helpers\<close>

definition require_aware :: "datetime \<Rightarrow> datetime res" where
  "require_aware d = (case d of
     Naive t \<Rightarrow> raise AuthorizationError ''must be a timezone-aware datetime''
   | Aware t z \<Rightarrow> Inr (Aware t 0))"

definition parse_aware_iso :: "prims \<Rightarrow> json \<Rightarrow> datetime res" where
  "parse_aware_iso P v = (case v of
     JStr s \<Rightarrow> (case fromisoformat P s of
        None \<Rightarrow> raise AuthorizationError ''not a valid ISO-8601 datetime''
      | Some d \<Rightarrow> require_aware d)
   | _ \<Rightarrow> raise AuthorizationError ''not a valid ISO-8601 datetime'')"

definition is_prefix_at_boundary :: "pystr \<Rightarrow> pystr \<Rightarrow> bool" where
  "is_prefix_at_boundary prefix v =
     (if v = prefix then True
      else if \<not> startswith v prefix then False
      else startswith (drop (length prefix) v) (py ''/'') \<or> endswith prefix (py ''/''))"

text \<open>The same on values that pydantic did not check.\<close>

definition prefix_at_boundary_val :: "json \<Rightarrow> json \<Rightarrow> bool res" where
  "prefix_at_boundary_val prefix v =
     (if json_eq v prefix then Inr True
      else (case v of
        JStr s \<Rightarrow> (case prefix of JStr p \<Rightarrow> Inr (is_prefix_at_boundary p s)
          | _ \<Rightarrow> raise TypeError ''startswith first arg must be str'')
      | _ \<Rightarrow> raise AttributeError ''object has no attribute startswith''))"

definition url_prefix_ok :: "pystr \<Rightarrow> pystr \<Rightarrow> bool" where
  "url_prefix_ok allowed url =
     (if url = allowed then True
      else if \<not> startswith url allowed then False
      else take 1 (drop (length allowed) url) \<in> set [[], py ''/'', py ''?'', py ''#''])"

definition token_hash :: "prims \<Rightarrow> signed_envelope \<Rightarrow> pystr res" where
  "token_hash P env = sha256_hex P (JObj (payload env))"

definition resolve_holder_pubkey :: "prims \<Rightarrow> pystr \<Rightarrow> (pystr \<rightharpoonup> pystr) \<Rightarrow> bytes res" where
  "resolve_holder_pubkey P subj holder_keys =
     (let raw = (case b64_strict P subj of None \<Rightarrow> [] | Some b \<Rightarrow> b)
      in if length raw = 32 then Inr raw
         else (case holder_keys subj of
             None \<Rightarrow> raise AuthorizationError ''subject holder key is not resolvable''
           | Some k \<Rightarrow> (case b64_strict P k of
                 None \<Rightarrow> raise AuthorizationError ''holder_keys entry is not valid base64''
               | Some b \<Rightarrow> if length b \<noteq> 32
                   then raise AuthorizationError ''holder_keys entry is not a 32-byte Ed25519 key''
                   else Inr b)))"

definition parse_payload :: "token_lib \<Rightarrow> jdict \<Rightarrow> token res" where
  "parse_payload L raw = of_option AuthorizationError ''malformed token payload'' (read_token L raw)"

section \<open>The caveat registry\<close>

type_synonym validator = "jdict \<Rightarrow> unit res"
type_synonym evaluator = "caveat \<Rightarrow> token \<Rightarrow> jdict \<Rightarrow> datetime \<Rightarrow> pystr list option \<Rightarrow> unit res"

definition v_expiry :: "prims \<Rightarrow> validator" where
  "v_expiry P params = (case json_get params (py ''expires_at'') JNull of
     JStr s \<Rightarrow> rbind (parse_aware_iso P (JStr s)) (\<lambda>_. Inr ())
   | _ \<Rightarrow> raise ValueError ''expiry caveat requires params.expires_at (ISO-8601 string)'')"

definition e_expiry :: "prims \<Rightarrow> evaluator" where
  "e_expiry P c p ctx now used =
     rbind (json_item (c_params c) (py ''expires_at'')) (\<lambda>v.
     rbind (parse_aware_iso P v) (\<lambda>d.
     rbind (dt_less d now) (\<lambda>late.
     require (\<not> late) AuthorizationError ''caveat violated: expiry'' (Inr ()))))"

definition v_uses :: validator where
  "v_uses params = (case json_get params (py ''max_uses'') JNull of
     JInt n \<Rightarrow> require (1 \<le> n) ValueError ''uses caveat requires params.max_uses (int >= 1)'' (Inr ())
   | _ \<Rightarrow> raise ValueError ''uses caveat requires params.max_uses (int >= 1)'')"

definition e_uses :: evaluator where
  "e_uses c p ctx now used =
     rbind (json_item (c_params c) (py ''max_uses'')) (\<lambda>max_uses.
       if json_eq max_uses (JInt 1)
       then require (used \<noteq> None) AuthorizationError
         ''caveat violated: single-use token requires a used-nonce set'' (Inr ())
       else (case json_get ctx (py ''uses_consumed'') (JInt 0) of
           JInt consumed \<Rightarrow>
             if is_number max_uses
             then require (\<not> num_le max_uses (JInt consumed)) AuthorizationError
               ''caveat violated: uses exhausted'' (Inr ())
             else raise TypeError ''ordering not supported between these types''
         | _ \<Rightarrow> raise AuthorizationError ''caveat violated: uses_consumed must be an int''))"

fun nonempty_str :: "json \<Rightarrow> bool" where
  "nonempty_str (JStr s) = (s \<noteq> [])"
| "nonempty_str _ = False"

lemma nonempty_str_iff: "nonempty_str v \<longleftrightarrow> (\<exists>s. v = JStr s \<and> s \<noteq> [])"
  by (cases v) auto

definition v_http_allowlist :: validator where
  "v_http_allowlist params =
     (case (json_get params (py ''hosts'') (JArr []), json_get params (py ''urls'') (JArr [])) of
        (JArr hosts, JArr urls) \<Rightarrow>
          require (hosts \<noteq> [] \<or> urls \<noteq> []) ValueError
            ''http_allowlist requires a non-empty hosts or urls list''
          (require (list_all nonempty_str (hosts @ urls)) ValueError
            ''http_allowlist hosts/urls must be non-empty strings'' (Inr ()))
      | _ \<Rightarrow> raise ValueError ''http_allowlist requires params.hosts/params.urls to be lists'')"

text \<open>\<^verbatim>\<open>any(_url_prefix_ok(a, url) for a in urls)\<close>: stops at the first match; an
  entry that is not a string raises when its turn comes.\<close>

fun any_url_prefix :: "json list \<Rightarrow> pystr \<Rightarrow> bool res" where
  "any_url_prefix [] url = Inr False"
| "any_url_prefix (a # as) url = (case a of
     JStr s \<Rightarrow> if url_prefix_ok s url then Inr True else any_url_prefix as url
   | _ \<Rightarrow> raise TypeError ''startswith first arg must be str'')"

definition e_http_hosts :: "caveat \<Rightarrow> jdict \<Rightarrow> unit res" where
  "e_http_hosts c ctx = (case map_of (c_params c) (py ''hosts'') of
     None \<Rightarrow> Inr ()
   | Some hosts \<Rightarrow> (case json_get ctx (py ''http_host'') JNull of
       JStr host \<Rightarrow> rbind (str_in host hosts) (\<lambda>b.
         require b AuthorizationError ''caveat violated: http host not allowlisted'' (Inr ()))
     | _ \<Rightarrow> raise AuthorizationError ''caveat violated: http host not allowlisted''))"

definition e_http_urls :: "caveat \<Rightarrow> jdict \<Rightarrow> unit res" where
  "e_http_urls c ctx = (case map_of (c_params c) (py ''urls'') of
     None \<Rightarrow> Inr ()
   | Some urls \<Rightarrow> (case json_get ctx (py ''http_url'') JNull of
       JStr url \<Rightarrow> rbind (py_iter urls) (\<lambda>as. rbind (any_url_prefix as url) (\<lambda>b.
         require b AuthorizationError ''caveat violated: http url not allowlisted'' (Inr ())))
     | _ \<Rightarrow> raise AuthorizationError ''caveat violated: http url not allowlisted''))"

definition e_http_allowlist :: evaluator where
  "e_http_allowlist c p ctx now used = rbind (e_http_hosts c ctx) (\<lambda>_. e_http_urls c ctx)"

definition v_resource_prefix :: validator where
  "v_resource_prefix params =
     require (nonempty_str (json_get params (py ''prefix'') JNull))
       ValueError ''resource_prefix caveat requires params.prefix (string)'' (Inr ())"

definition e_resource_prefix :: evaluator where
  "e_resource_prefix c p ctx now used =
     (case json_get ctx (py ''resource'') (JStr (resource p)) of
        JStr target \<Rightarrow> rbind (json_item (c_params c) (py ''prefix'')) (\<lambda>prefix.
          rbind (prefix_at_boundary_val prefix (JStr target)) (\<lambda>b.
          require b AuthorizationError ''caveat violated: resource outside allowed prefix'' (Inr ())))
      | _ \<Rightarrow> raise AuthorizationError ''caveat violated: resource outside allowed prefix'')"

text \<open>\<^verbatim>\<open>isinstance(v, (int, float))\<close> and not a \<^verbatim>\<open>bool\<close>.\<close>

definition is_amount :: "json \<Rightarrow> bool" where
  "is_amount v \<longleftrightarrow> (case v of JInt _ \<Rightarrow> True | JFloat _ \<Rightarrow> True | _ \<Rightarrow> False)"

definition v_spend_limit :: validator where
  "v_spend_limit params =
     (let amount = json_get params (py ''max_amount'') JNull in
      require (is_amount amount) ValueError ''spend_limit caveat requires params.max_amount (number)''
     (require (\<not> num_less amount (JInt 0)) ValueError ''spend_limit max_amount must be >= 0''
     (require (case map_of params (py ''currency'') of None \<Rightarrow> True
         | Some v \<Rightarrow> nonempty_str v)
       ValueError ''spend_limit currency must be a non-empty string'' (Inr ()))))"

definition e_spend_limit :: evaluator where
  "e_spend_limit c p ctx now used =
     (case map_of ctx (py ''spend_amount'') of
        None \<Rightarrow> raise AuthorizationError ''caveat violated: spend_limit requires spend context''
      | Some amount \<Rightarrow>
          require (is_amount amount) AuthorizationError ''caveat violated: spend_amount must be a number''
         (rbind (json_item (c_params c) (py ''max_amount'')) (\<lambda>limit.
          rbind (py_less limit amount) (\<lambda>over.
          require (\<not> over) AuthorizationError ''caveat violated: spend limit exceeded''
         (case map_of (c_params c) (py ''currency'') of
            None \<Rightarrow> Inr ()
          | Some cur \<Rightarrow> require (json_eq (json_get ctx (py ''spend_currency'') JNull) cur)
              AuthorizationError ''caveat violated: spend currency mismatch'' (Inr ()))))))"

definition caveat_registry :: "prims \<Rightarrow> (pystr \<times> validator \<times> evaluator) list" where
  "caveat_registry P =
     [(py ''expiry'', v_expiry P, e_expiry P), (py ''uses'', v_uses, e_uses),
      (py ''http_allowlist'', v_http_allowlist, e_http_allowlist),
      (py ''resource_prefix'', v_resource_prefix, e_resource_prefix),
      (py ''spend_limit'', v_spend_limit, e_spend_limit)]"

definition validate_caveat :: "prims \<Rightarrow> caveat \<Rightarrow> unit res" where
  "validate_caveat P c = (case map_of (caveat_registry P) (c_kind c) of
     None \<Rightarrow> raise ValueError ''unknown caveat kind''
   | Some (validator, _) \<Rightarrow> validator (c_params c))"

definition evaluate_caveat ::
    "prims \<Rightarrow> caveat \<Rightarrow> token \<Rightarrow> jdict \<Rightarrow> datetime \<Rightarrow> pystr list option \<Rightarrow> unit res" where
  "evaluate_caveat P c p ctx now used = (case map_of (caveat_registry P) (c_kind c) of
     None \<Rightarrow> raise AuthorizationError ''unevaluable caveat kind''
   | Some (_, evaluator) \<Rightarrow> evaluator c p ctx now used)"

section \<open>Issue\<close>

record token_args =
  ta_capability_id :: pystr
  ta_subject :: pystr
  ta_audience :: pystr
  ta_action :: pystr
  ta_resource :: pystr
  ta_invocation_params :: jdict
  ta_caveats :: "caveat list"
  ta_not_before :: datetime
  ta_expires_at :: datetime
  ta_constitution_hash :: pystr

definition make_token :: "token \<Rightarrow> token res" where
  "make_token t = require (token_fields_ok t) ValidationError ''String should have at least 1 character'' (Inr t)"

definition issue_token :: "prims \<Rightarrow> token_lib \<Rightarrow> pystr \<Rightarrow> signer \<Rightarrow> token_args \<Rightarrow> signed_envelope res" where
  "issue_token P L nonce issuer a =
     rbind (require_aware (ta_not_before a)) (\<lambda>nb.
     rbind (require_aware (ta_expires_at a)) (\<lambda>ea.
     rbind (dt_less ea nb) (\<lambda>empty.
     require (\<not> empty) ValueError ''not_before must be <= expires_at''
    (rbind (for_each (validate_caveat P) (ta_caveats a)) (\<lambda>_.
     rbind (sha256_hex P (JObj (ta_invocation_params a))) (\<lambda>h.
     rbind (make_token \<lparr>t_version = token_version, t_capability_id = ta_capability_id a,
       t_issuer = key_id issuer, subject = ta_subject a, audience = ta_audience a, action = ta_action a,
       resource = ta_resource a, parameters_hash = h, caveats = ta_caveats a, t_not_before = nb,
       t_expires_at = ea, t_nonce = nonce, parent_token_hash = None,
       constitution_hash = ta_constitution_hash a\<rparr>) (\<lambda>t.
     sign_payload P issuer (token_dump L t))))))))"

section \<open>Subsumption\<close>

definition sub_expiry :: "prims \<Rightarrow> caveat \<Rightarrow> caveat \<Rightarrow> unit res" where
  "sub_expiry P pc cc =
     rbind (json_item (c_params cc) (py ''expires_at'')) (\<lambda>cv. rbind (parse_aware_iso P cv) (\<lambda>cd.
     rbind (json_item (c_params pc) (py ''expires_at'')) (\<lambda>pv. rbind (parse_aware_iso P pv) (\<lambda>pd.
     rbind (dt_less pd cd) (\<lambda>wider.
     require (\<not> wider) AuthorizationError ''subsumption violated: expiry widened'' (Inr ()))))))"

definition sub_item_le :: "pystr \<Rightarrow> string \<Rightarrow> caveat \<Rightarrow> caveat \<Rightarrow> unit res" where
  "sub_item_le k msg pc cc =
     rbind (json_item (c_params cc) k) (\<lambda>cv. rbind (json_item (c_params pc) k) (\<lambda>pv.
     rbind (py_less pv cv) (\<lambda>wider. require (\<not> wider) AuthorizationError msg (Inr ()))))"

definition sub_dimension :: "caveat \<Rightarrow> caveat \<Rightarrow> pystr \<Rightarrow> unit res" where
  "sub_dimension pc cc dim = (case map_of (c_params pc) dim of
     None \<Rightarrow> Inr ()
   | Some pv \<Rightarrow> (case map_of (c_params cc) dim of
       None \<Rightarrow> raise AuthorizationError ''subsumption violated: http_allowlist widened''
     | Some cv \<Rightarrow> rbind (py_set cv) (\<lambda>cs. rbind (py_set pv) (\<lambda>ps.
         require (json_subset cs ps) AuthorizationError
           ''subsumption violated: http_allowlist widened'' (Inr ())))))"

definition sub_prefix :: "caveat \<Rightarrow> caveat \<Rightarrow> unit res" where
  "sub_prefix pc cc =
     rbind (json_item (c_params pc) (py ''prefix'')) (\<lambda>pv.
     rbind (json_item (c_params cc) (py ''prefix'')) (\<lambda>cv.
     rbind (prefix_at_boundary_val pv cv) (\<lambda>b.
     require b AuthorizationError ''subsumption violated: resource_prefix widened'' (Inr ()))))"

definition sub_currency :: "caveat \<Rightarrow> caveat \<Rightarrow> unit res" where
  "sub_currency pc cc = (case map_of (c_params pc) (py ''currency'') of
     None \<Rightarrow> Inr ()
   | Some cur \<Rightarrow> require (json_eq (json_get (c_params cc) (py ''currency'') JNull) cur) AuthorizationError
       ''subsumption violated: spend currency changed'' (Inr ()))"

definition check_caveat_subsumed :: "prims \<Rightarrow> caveat \<Rightarrow> caveat \<Rightarrow> unit res" where
  "check_caveat_subsumed P pc cc =
     (let kind = c_kind pc in
      if kind = py ''expiry'' then sub_expiry P pc cc
      else if kind = py ''uses'' then sub_item_le (py ''max_uses'') ''subsumption violated: uses widened'' pc cc
      else if kind = py ''http_allowlist''
        then for_each (sub_dimension pc cc) [py ''hosts'', py ''urls'']
      else if kind = py ''resource_prefix'' then sub_prefix pc cc
      else if kind = py ''spend_limit'' then
        rbind (sub_currency pc cc) (\<lambda>_.
          sub_item_le (py ''max_amount'') ''subsumption violated: spend_limit widened'' pc cc)
      else require (json_eq (JObj (c_params cc)) (JObj (c_params pc))) AuthorizationError
        ''subsumption violated: unknown caveat kind changed'' (Inr ()))"

definition check_parent_caveat :: "prims \<Rightarrow> caveat list \<Rightarrow> caveat \<Rightarrow> unit res" where
  "check_parent_caveat P child_caveats pc =
     (let matches = filter (\<lambda>c. c_kind c = c_kind pc) child_caveats in
      require (matches \<noteq> []) AuthorizationError ''subsumption violated: parent caveat dropped''
        (for_each (check_caveat_subsumed P pc) matches))"

definition check_subsumption :: "prims \<Rightarrow> token \<Rightarrow> token \<Rightarrow> unit res" where
  "check_subsumption P child parent =
     require (action child = action parent) AuthorizationError ''subsumption violated: action changed''
    (require (resource child = resource parent \<or> is_prefix_at_boundary (resource parent) (resource child))
       AuthorizationError ''subsumption violated: resource widened''
    (require (audience child = audience parent) AuthorizationError ''subsumption violated: audience changed''
    (rbind (dt_less (t_expires_at parent) (t_expires_at child)) (\<lambda>later.
     require (\<not> later) AuthorizationError ''subsumption violated: expires_at widened''
    (rbind (dt_less (t_not_before child) (t_not_before parent)) (\<lambda>earlier.
     require (\<not> earlier) AuthorizationError ''subsumption violated: not_before widened''
    (require (parameters_hash child = parameters_hash parent) AuthorizationError
       ''subsumption violated: parameters_hash changed''
    (require (constitution_hash child = constitution_hash parent) AuthorizationError
       ''subsumption violated: constitution changed''
    (for_each (check_parent_caveat P (caveats child)) (caveats parent))))))))))"

section \<open>Attenuation\<close>

record narrowing_args =
  na_caveats :: "caveat list"
  na_subject :: pystr
  na_capability_id :: "pystr option"
  na_resource :: "pystr option"
  na_not_before :: "datetime option"
  na_expires_at :: "datetime option"

definition or_else :: "'a option \<Rightarrow> 'a \<Rightarrow> 'a" where
  "or_else x y = (case x of None \<Rightarrow> y | Some z \<Rightarrow> z)"

lemma or_else_simps [simp]: "or_else None y = y" "or_else (Some z) y = z"
  by (simp_all add: or_else_def)

text \<open>The parent of an attenuation: signed by this issuer's key, and well formed.\<close>

definition own_parent :: "prims \<Rightarrow> token_lib \<Rightarrow> signed_envelope \<Rightarrow> signer \<Rightarrow> token res" where
  "own_parent P L env issuer =
     rbind (except PyException AuthorizationError ''attenuate: parent signature invalid''
       (verify_envelope P env (public_key_bytes issuer))) (\<lambda>raw.
     require (env_key_id env = key_id issuer) ValueError
       ''attenuate: parent was not issued by this issuer key''
     (parse_payload L raw))"

definition child_window :: "token \<Rightarrow> narrowing_args \<Rightarrow> (datetime \<times> datetime) res" where
  "child_window parent a =
     rbind (require_aware (or_else (na_not_before a) (t_not_before parent))) (\<lambda>nb0.
     rbind (require_aware (or_else (na_expires_at a) (t_expires_at parent))) (\<lambda>ea0.
     rbind (dt_max nb0 (t_not_before parent)) (\<lambda>nb.
     rbind (dt_min ea0 (t_expires_at parent)) (\<lambda>ea.
     rbind (dt_less ea nb) (\<lambda>empty.
     require (\<not> empty) ValueError ''attenuate: resulting window is empty'' (Inr (nb, ea)))))))"

text \<open>\<open>rnd\<close> are the two values of \<^verbatim>\<open>secrets.token_hex\<close>: the suffix of a default
  capability id, and the nonce.\<close>

definition child_fields ::
    "pystr \<times> pystr \<Rightarrow> signer \<Rightarrow> token \<Rightarrow> narrowing_args \<Rightarrow> datetime \<times> datetime \<Rightarrow> pystr \<Rightarrow> token" where
  "child_fields rnd issuer parent a window parent_hash =
     \<lparr>t_version = token_version,
      t_capability_id = (case na_capability_id a of
          Some i \<Rightarrow> if i \<noteq> [] then i else t_capability_id parent @ py ''#child-'' @ fst rnd
        | None \<Rightarrow> t_capability_id parent @ py ''#child-'' @ fst rnd),
      t_issuer = key_id issuer, subject = na_subject a, audience = audience parent,
      action = action parent, resource = or_else (na_resource a) (resource parent),
      parameters_hash = parameters_hash parent, caveats = caveats parent @ na_caveats a,
      t_not_before = fst window, t_expires_at = snd window, t_nonce = snd rnd,
      parent_token_hash = Some parent_hash, constitution_hash = constitution_hash parent\<rparr>"

definition attenuate ::
    "prims \<Rightarrow> token_lib \<Rightarrow> pystr \<times> pystr \<Rightarrow> signed_envelope \<Rightarrow> signer \<Rightarrow> narrowing_args \<Rightarrow> signed_envelope res" where
  "attenuate P L rnd env issuer a =
     rbind (own_parent P L env issuer) (\<lambda>parent.
     rbind (for_each (validate_caveat P) (na_caveats a)) (\<lambda>_.
     let res = or_else (na_resource a) (resource parent) in
     require (res = resource parent \<or> is_prefix_at_boundary (resource parent) res) ValueError
       ''attenuate: resource must narrow the parents resource''
    (rbind (child_window parent a) (\<lambda>window.
     rbind (token_hash P env) (\<lambda>h.
     rbind (make_token (child_fields rnd issuer parent a window h)) (\<lambda>child.
     rbind (check_subsumption P child parent) (\<lambda>_.
     sign_payload P issuer (token_dump L child))))))))"

section \<open>Verification\<close>

definition token_holder_proof :: "prims \<Rightarrow> signer \<Rightarrow> pystr \<Rightarrow> pystr \<Rightarrow> signed_envelope res" where
  "token_holder_proof P holder cap_id nonce =
     sign_payload P holder [(py ''capability_id'', JStr cap_id), (py ''nonce'', JStr nonce)]"

text \<open>The arguments of \<^verbatim>\<open>verify\<close> that every level of a chain shares. A missing dict is
  an empty one.\<close>

record token_request =
  invocation_params :: jdict
  rq_now :: datetime
  trusted_issuers :: "pystr \<rightharpoonup> bytes"
  used_nonces :: "pystr list option"
  token_chain :: "pystr \<rightharpoonup> signed_envelope"
  holder_proofs :: "pystr \<rightharpoonup> signed_envelope"
  holder_keys :: "pystr \<rightharpoonup> pystr"
  rq_context :: jdict
  expected_audience :: "pystr option"

definition check_issuer :: "prims \<Rightarrow> token_lib \<Rightarrow> token_request \<Rightarrow> signed_envelope \<Rightarrow> token res" where
  "check_issuer P L rq env =
     rbind (of_option AuthorizationError ''untrusted issuer'' (trusted_issuers rq (env_key_id env))) (\<lambda>pub.
     rbind (except PyException AuthorizationError ''issuer signature verification failed''
       (verify_envelope P env pub)) (\<lambda>raw.
     rbind (parse_payload L raw) (\<lambda>p.
     require (t_version p = token_version) AuthorizationError ''unsupported token version''
    (require (t_issuer p = env_key_id env) AuthorizationError
       ''payload issuer does not match signing key_id''
    (require (case expected_audience rq of None \<Rightarrow> True | Some a \<Rightarrow> audience p = a)
       AuthorizationError ''audience mismatch'' (Inr p))))))"

definition check_token_window :: "datetime \<Rightarrow> token \<Rightarrow> unit res" where
  "check_token_window now p =
     rbind (require_aware (t_not_before p)) (\<lambda>nb. rbind (require_aware (t_expires_at p)) (\<lambda>ea.
     rbind (dt_less now nb) (\<lambda>early. require (\<not> early) AuthorizationError ''token not yet valid''
    (rbind (dt_less ea now) (\<lambda>late. require (\<not> late) AuthorizationError ''token expired'' (Inr ()))))))"

text \<open>\<^verbatim>\<open>proof_payload != {...}\<close> compares dicts.\<close>

definition check_holder :: "prims \<Rightarrow> token_request \<Rightarrow> signed_envelope \<Rightarrow> token \<Rightarrow> unit res" where
  "check_holder P rq proof p =
     rbind (resolve_holder_pubkey P (subject p) (holder_keys rq)) (\<lambda>pub.
     rbind (except PyException AuthorizationError ''holder proof-of-possession failed''
       (verify_envelope P proof pub)) (\<lambda>pp.
     require (json_eq (JObj pp) (JObj [(py ''capability_id'', JStr (t_capability_id p)),
         (py ''nonce'', JStr (t_nonce p))])) AuthorizationError
       ''holder proof binds the wrong capability/nonce'' (Inr ())))"

text \<open>\<^verbatim>\<open>hmac.compare_digest\<close> of two strings raises if one is not ASCII.\<close>

definition check_invocation :: "prims \<Rightarrow> token_request \<Rightarrow> token \<Rightarrow> unit res" where
  "check_invocation P rq p =
     rbind (sha256_hex P (JObj (invocation_params rq))) (\<lambda>h.
     require (list_all (\<lambda>c. c < 128) (parameters_hash p)) TypeError
       ''comparing strings with non-ASCII characters is not supported''
    (require (h = parameters_hash p) AuthorizationError
       ''invocation parameters do not match token binding'' (Inr ())))"

definition eval_context :: "token_request \<Rightarrow> jdict" where
  "eval_context rq = json_merge (invocation_params rq) (rq_context rq)"

text \<open>Steps (1) to (6): everything but the parent.\<close>

definition verify_level ::
    "prims \<Rightarrow> token_lib \<Rightarrow> token_request \<Rightarrow> signed_envelope \<Rightarrow> signed_envelope \<Rightarrow> token res" where
  "verify_level P L rq env proof =
     rbind (require_aware (rq_now rq)) (\<lambda>now.
     rbind (check_issuer P L rq env) (\<lambda>p.
     rbind (check_token_window now p) (\<lambda>_.
     require (case used_nonces rq of None \<Rightarrow> True | Some ns \<Rightarrow> t_nonce p \<notin> set ns) AuthorizationError
       ''nonce already consumed: replay denied''
    (rbind (check_holder P rq proof p) (\<lambda>_.
     rbind (check_invocation P rq p) (\<lambda>_.
     rbind (for_each (\<lambda>c. evaluate_caveat P c p (eval_context rq) now (used_nonces rq)) (caveats p)) (\<lambda>_.
     Inr p)))))))"

definition find_parent ::
    "prims \<Rightarrow> token_request \<Rightarrow> signed_envelope option \<Rightarrow> pystr \<Rightarrow> signed_envelope res" where
  "find_parent P rq parent h =
     rbind (case parent of None \<Rightarrow> Inr False | Some e \<Rightarrow> rbind (token_hash P e) (\<lambda>k. Inr (k = h))) (\<lambda>given.
     of_option AuthorizationError ''parent token required but not supplied''
       (if given then parent else token_chain rq h))"

text \<open>Looking up a list or a dict among the holder proofs raises.\<close>

definition find_parent_proof :: "token_request \<Rightarrow> signed_envelope \<Rightarrow> signed_envelope res" where
  "find_parent_proof rq parent =
     (let i = json_get (payload parent) (py ''capability_id'') JNull in
      require (hashable_json i) TypeError ''unhashable type''
        (of_option AuthorizationError ''parent holder proof required but not supplied''
          (case i of JStr s \<Rightarrow> holder_proofs rq s | _ \<Rightarrow> None)))"

text \<open>
  The recursion over the parents: the first argument is the number of levels that are left,
  \<^verbatim>\<open>MAX_CHAIN_DEPTH + 1 - _depth\<close>. Only the first level gets a parent envelope.
\<close>

fun verify_depth :: "nat \<Rightarrow> prims \<Rightarrow> token_lib \<Rightarrow> token_request \<Rightarrow> signed_envelope option \<Rightarrow>
    signed_envelope \<Rightarrow> signed_envelope \<Rightarrow> token res" where
  "verify_depth 0 P L rq parent env proof = raise AuthorizationError ''delegation chain too deep''"
| "verify_depth (Suc n) P L rq parent env proof =
     rbind (verify_level P L rq env proof) (\<lambda>p.
       case parent_token_hash p of None \<Rightarrow> Inr p
       | Some h \<Rightarrow>
           rbind (find_parent P rq parent h) (\<lambda>pe.
           rbind (find_parent_proof rq pe) (\<lambda>pp.
           rbind (verify_depth n P L rq None pe pp) (\<lambda>q.
           rbind (check_subsumption P p q) (\<lambda>_. Inr p)))))"

definition verify_token :: "prims \<Rightarrow> token_lib \<Rightarrow> token_request \<Rightarrow> signed_envelope option \<Rightarrow>
    signed_envelope \<Rightarrow> signed_envelope \<Rightarrow> token res" where
  "verify_token P L rq parent env proof = verify_depth (Suc max_chain_depth) P L rq parent env proof"

end
