(* ===== verification/Tokens_Laws.thy ===== *)
theory Tokens_Laws
  imports Tokens
begin

text \<open>
  Laws of attenuated tokens: the order of grants that the subsumption check decides, which is an
  instance of the interface of \<open>Narrowing\<close>, and what a verified level satisfies.
\<close>

section \<open>Prefixes\<close>

lemma is_prefix_at_boundary_refl [simp]: "is_prefix_at_boundary p p"
  by (simp add: is_prefix_at_boundary_def)

lemma is_prefix_at_boundary_iff:
  "is_prefix_at_boundary p v \<longleftrightarrow> (\<exists>r. v = p @ r \<and> (r = [] \<or> hd r = 47 \<or> (\<exists>q. p = q @ [47])))"
proof -
  have slash: "py ''/'' = [47]" by (simp add: py_def)
  have ends: "endswith p [47] \<longleftrightarrow> (\<exists>q. p = q @ [47])"
    by (cases p rule: rev_cases) (auto simp: endswith_def)
  have starts: "startswith r [47] \<longleftrightarrow> r \<noteq> [] \<and> hd r = 47" for r
    by (cases r) (auto simp: startswith_def)
  have "is_prefix_at_boundary p v \<longleftrightarrow> (\<exists>r. v = p @ r \<and> (r = [] \<or> startswith r [47] \<or> endswith p [47]))"
    unfolding is_prefix_at_boundary_def slash by (auto simp: startswith_iff [of v])
  then show ?thesis unfolding ends starts by auto
qed

lemma is_prefix_at_boundary_trans:
  assumes "is_prefix_at_boundary p q" "is_prefix_at_boundary q v"
  shows "is_prefix_at_boundary p v"
proof -
  obtain r where r: "q = p @ r" "r = [] \<or> hd r = 47 \<or> (\<exists>p'. p = p' @ [47])"
    using assms(1) unfolding is_prefix_at_boundary_iff by blast
  obtain s where s: "v = q @ s" "s = [] \<or> hd s = 47 \<or> (\<exists>q'. q = q' @ [47])"
    using assms(2) unfolding is_prefix_at_boundary_iff by blast
  have "r @ s = [] \<or> hd (r @ s) = 47 \<or> (\<exists>p'. p = p' @ [47])"
    using r s by (cases r) auto
  then show ?thesis unfolding is_prefix_at_boundary_iff using r(1) s(1) by auto
qed

section \<open>The order of tokens\<close>

definition resource_within :: "pystr \<Rightarrow> pystr \<Rightarrow> bool" where
  "resource_within r s \<longleftrightarrow> is_prefix_at_boundary s r"

definition token_within :: "token \<Rightarrow> token \<Rightarrow> bool" where
  "token_within child parent \<longleftrightarrow>
     action child = action parent \<and> audience child = audience parent \<and>
     parameters_hash child = parameters_hash parent \<and> constitution_hash child = constitution_hash parent \<and>
     resource_within (resource child) (resource parent) \<and>
     as_utc (t_not_before parent) \<le> as_utc (t_not_before child) \<and>
     as_utc (t_expires_at child) \<le> as_utc (t_expires_at parent) \<and>
     c_kind ` set (caveats parent) \<subseteq> c_kind ` set (caveats child)"

text \<open>A use: the action, the resource, the enforcement point, the digest of the invocation, and the
  time.\<close>

record use =
  u_action :: pystr
  u_resource :: pystr
  u_audience :: pystr
  u_hash :: pystr
  u_time :: int

definition token_permits :: "token \<Rightarrow> use \<Rightarrow> bool" where
  "token_permits p u \<longleftrightarrow>
     action p = u_action u \<and> resource_within (u_resource u) (resource p) \<and> audience p = u_audience u \<and>
     parameters_hash p = u_hash u \<and> as_utc (t_not_before p) \<le> u_time u \<and> u_time u \<le> as_utc (t_expires_at p)"

interpretation tokens: authority token_within token_permits
proof unfold_locales
  fix g show "token_within g g" by (simp add: token_within_def resource_within_def)
next
  fix g h k assume gh: "token_within g h" and hk: "token_within h k"
  have "resource_within (resource g) (resource k)"
    using gh hk is_prefix_at_boundary_trans unfolding token_within_def resource_within_def by blast
  moreover have "c_kind ` set (caveats k) \<subseteq> c_kind ` set (caveats g)"
    using gh hk subset_trans unfolding token_within_def by blast
  ultimately show "token_within g k" using gh hk unfolding token_within_def by simp
next
  fix g h u assume "token_within g h" "token_permits g u"
  then show "token_permits h u"
    by (auto simp: token_within_def token_permits_def resource_within_def intro: is_prefix_at_boundary_trans)
qed

lemma require_aware_eq_Inr [simp, ok_elims]: "require_aware d = Inr e \<longleftrightarrow> (\<exists>t z. d = Aware t z \<and> e = Aware t 0)"
  by (auto simp: require_aware_def split: datetime.splits)

lemma check_parent_caveat_ok:
  "check_parent_caveat P cs pc = Inr () \<longleftrightarrow> c_kind pc \<in> c_kind ` set cs \<and>
     (\<forall>cc \<in> set cs. c_kind cc = c_kind pc \<longrightarrow> check_caveat_subsumed P pc cc = Inr ())"
  by (simp add: check_parent_caveat_def Let_def filter_empty_conv image_iff) metis

lemma check_subsumption_ok:
  assumes "check_subsumption P c p = Inr u"
  shows "token_within c p"
    and "pc \<in> set (caveats p) \<Longrightarrow> cc \<in> set (caveats c) \<Longrightarrow> c_kind cc = c_kind pc \<Longrightarrow>
      check_caveat_subsumed P pc cc = Inr ()"
proof -
  from assms have "action c = action p" "audience c = audience p" "parameters_hash c = parameters_hash p"
    "constitution_hash c = constitution_hash p" "resource_within (resource c) (resource p)"
    "\<not> as_utc (t_expires_at p) < as_utc (t_expires_at c)"
    "\<not> as_utc (t_not_before c) < as_utc (t_not_before p)"
    and cs: "\<forall>pc \<in> set (caveats p). check_parent_caveat P (caveats c) pc = Inr ()"
    unfolding check_subsumption_def require_eq_Inr rbind_eq_Inr resource_within_def
    by (auto dest!: dt_less_eq_Inr)
  then show "token_within c p" unfolding token_within_def check_parent_caveat_ok by auto
  show "pc \<in> set (caveats p) \<Longrightarrow> cc \<in> set (caveats c) \<Longrightarrow> c_kind cc = c_kind pc \<Longrightarrow>
      check_caveat_subsumed P pc cc = Inr ()"
    using cs unfolding check_parent_caveat_ok by blast
qed

section \<open>What a verified level satisfies\<close>

text \<open>The conditions of steps (1) to (6), as the documentation of \<^verbatim>\<open>verify\<close> lists
  them.\<close>

definition level_ok ::
    "prims \<Rightarrow> token_lib \<Rightarrow> token_request \<Rightarrow> signed_envelope \<Rightarrow> signed_envelope \<Rightarrow> token \<Rightarrow> bool" where
  "level_ok P L rq env proof p \<longleftrightarrow>
     (\<exists>pub. trusted_issuers rq (env_key_id env) = Some pub \<and> verify_envelope P env pub = Inr (payload env)) \<and>
     read_token L (payload env) = Some p \<and> t_version p = 2 \<and> t_issuer p = env_key_id env \<and>
     (\<forall>a. expected_audience rq = Some a \<longrightarrow> audience p = a) \<and>
     (\<exists>t z nb zn ea ze. rq_now rq = Aware t z \<and> t_not_before p = Aware nb zn \<and> t_expires_at p = Aware ea ze \<and>
        nb \<le> t \<and> t \<le> ea \<and>
        (\<forall>c \<in> set (caveats p). evaluate_caveat P c p (eval_context rq) (Aware t 0) (used_nonces rq) = Inr ())) \<and>
     (\<forall>ns. used_nonces rq = Some ns \<longrightarrow> t_nonce p \<notin> set ns) \<and>
     (\<exists>pub. resolve_holder_pubkey P (subject p) (holder_keys rq) = Inr pub \<and>
        verify_envelope P proof pub = Inr (payload proof) \<and>
        json_eq (JObj (payload proof)) (JObj [(py ''capability_id'', JStr (t_capability_id p)),
          (py ''nonce'', JStr (t_nonce p))])) \<and>
     sha256_hex P (JObj (invocation_params rq)) = Inr (parameters_hash p) \<and>
     list_all (\<lambda>c. c < 128) (parameters_hash p)"

lemma verify_envelope_payload: "verify_envelope P env pub = Inr raw \<Longrightarrow> raw = payload env"
  by (simp add: verify_envelope_ok)

lemma check_issuer_ok: "check_issuer P L rq env = Inr p \<longleftrightarrow>
    (\<exists>pub. trusted_issuers rq (env_key_id env) = Some pub \<and> verify_envelope P env pub = Inr (payload env)) \<and>
    read_token L (payload env) = Some p \<and> t_version p = 2 \<and> t_issuer p = env_key_id env \<and>
    (\<forall>a. expected_audience rq = Some a \<longrightarrow> audience p = a)"
  by (auto simp: check_issuer_def parse_payload_def token_version_def split: option.splits
      dest: verify_envelope_payload)

lemma check_token_window_ok: "check_token_window (Aware t z) p = Inr u \<longleftrightarrow>
    (\<exists>nb zn ea ze. t_not_before p = Aware nb zn \<and> t_expires_at p = Aware ea ze \<and> nb \<le> t \<and> t \<le> ea)"
  by (auto simp: check_token_window_def dt_less_def)

lemma check_holder_ok: "check_holder P rq proof p = Inr u \<longleftrightarrow>
    (\<exists>pub. resolve_holder_pubkey P (subject p) (holder_keys rq) = Inr pub \<and>
      verify_envelope P proof pub = Inr (payload proof) \<and>
      json_eq (JObj (payload proof)) (JObj [(py ''capability_id'', JStr (t_capability_id p)),
        (py ''nonce'', JStr (t_nonce p))]))"
  unfolding check_holder_def rbind_eq_Inr require_eq_Inr except_eq_Inr
  by (auto dest: verify_envelope_payload)

lemma check_invocation_ok: "check_invocation P rq p = Inr u \<longleftrightarrow>
    sha256_hex P (JObj (invocation_params rq)) = Inr (parameters_hash p) \<and>
    list_all (\<lambda>c. c < 128) (parameters_hash p)"
  by (auto simp: check_invocation_def)

lemma verify_level_ok: "verify_level P L rq env proof = Inr p \<longleftrightarrow> level_ok P L rq env proof p"
proof -
  have "verify_level P L rq env proof = Inr p \<longleftrightarrow>
    (\<exists>t z. rq_now rq = Aware t z \<and> check_issuer P L rq env = Inr p \<and>
       check_token_window (Aware t 0) p = Inr () \<and>
       (\<forall>ns. used_nonces rq = Some ns \<longrightarrow> t_nonce p \<notin> set ns) \<and> check_holder P rq proof p = Inr () \<and>
       check_invocation P rq p = Inr () \<and>
       (\<forall>c \<in> set (caveats p). evaluate_caveat P c p (eval_context rq) (Aware t 0) (used_nonces rq) = Inr ()))"
    unfolding verify_level_def rbind_eq_Inr require_eq_Inr require_aware_eq_Inr for_each_eq_Inr
    by (auto split: option.splits)
  then show ?thesis
    unfolding level_ok_def check_issuer_ok check_token_window_ok check_holder_ok check_invocation_ok by blast
qed

lemma verify_depth_Suc: "verify_depth (Suc n) P L rq parent env pf = Inr p \<longleftrightarrow>
    level_ok P L rq env pf p \<and> (case parent_token_hash p of None \<Rightarrow> True
      | Some h \<Rightarrow> \<exists>pe pp q. find_parent P rq parent h = Inr pe \<and> find_parent_proof rq pe = Inr pp \<and>
          verify_depth n P L rq None pe pp = Inr q \<and> check_subsumption P p q = Inr ())"
  unfolding verify_depth.simps rbind_eq_Inr verify_level_ok by (auto split: option.splits)

section \<open>The chain of a verified token\<close>

text \<open>
  A level is an envelope, the proof of its holder, and its token. \<open>names_parent\<close> says that a token names the
  envelope of the next level by its hash: it is the envelope that was handed over and has that hash, or the entry of
  the chain under that hash; the proof of the next level is the one supplied for its capability id. Only the presented
  token may have its parent handed over.
\<close>

type_synonym token_level = "signed_envelope \<times> signed_envelope \<times> token"

definition names_parent :: "prims \<Rightarrow> token_request \<Rightarrow> signed_envelope option \<Rightarrow> token \<Rightarrow> token_level \<Rightarrow> bool" where
  "names_parent P rq parent c = (\<lambda>(pe, pp, q). \<exists>h i. parent_token_hash c = Some h \<and>
     (parent = Some pe \<and> token_hash P pe = Inr h \<or> token_chain rq h = Some pe) \<and>
     map_of (payload pe) (py ''capability_id'') = Some (JStr i) \<and> holder_proofs rq i = Some pp)"

fun chain_linked :: "prims \<Rightarrow> token_request \<Rightarrow> signed_envelope option \<Rightarrow> token_level list \<Rightarrow> bool" where
  "chain_linked P rq parent [] = False"
| "chain_linked P rq parent [(e, pr, p)] = (parent_token_hash p = None)"
| "chain_linked P rq parent ((e, pr, p) # l # ls) =
     (names_parent P rq parent p l \<and> check_subsumption P p (snd (snd l)) = Inr () \<and> chain_linked P rq None (l # ls))"

lemma found_parent:
  assumes "parent_token_hash c = Some h" "find_parent P rq parent h = Inr pe" "find_parent_proof rq pe = Inr pp"
  shows "names_parent P rq parent c (pe, pp, q)"
proof -
  have "parent = Some pe \<and> token_hash P pe = Inr h \<or> token_chain rq h = Some pe"
    using assms(2) by (auto simp: find_parent_def split: option.splits if_splits)
  moreover have "\<exists>i. map_of (payload pe) (py ''capability_id'') = Some (JStr i) \<and> holder_proofs rq i = Some pp"
    using assms(3) by (auto simp: find_parent_proof_def json_get_def Let_def split: json.splits option.splits)
  ultimately show ?thesis using assms(1) by (auto simp: names_parent_def)
qed

lemma linked_subsumed: "chain_linked P rq parent ls \<Longrightarrow>
    successively (\<lambda>c q. check_subsumption P c q = Inr ()) (map (\<lambda>l. snd (snd l)) ls)"
  by (induction P rq parent ls rule: chain_linked.induct) simp_all

lemma verify_depth_chain:
  assumes "verify_depth n P L rq parent env pf = Inr p"
  shows "\<exists>ls. chain_linked P rq parent ((env, pf, p) # ls) \<and> length ls < n \<and>
    (\<forall>(e, pr, q) \<in> set ((env, pf, p) # ls). level_ok P L rq e pr q)"
  using assms
proof (induction n arbitrary: parent env pf p)
  case (Suc n)
  from Suc.prems have level: "level_ok P L rq env pf p"
    unfolding verify_depth_Suc by blast
  show ?case
  proof (cases "parent_token_hash p")
    case None
    with level show ?thesis by (intro exI [of _ "[]"]) simp
  next
    case (Some h)
    with Suc.prems obtain pe pp q where q: "find_parent P rq parent h = Inr pe" "find_parent_proof rq pe = Inr pp"
      "verify_depth n P L rq None pe pp = Inr q" "check_subsumption P p q = Inr ()" unfolding verify_depth_Suc by auto
    from Suc.IH [OF q(3)] obtain ls where ls: "chain_linked P rq None ((pe, pp, q) # ls)" "length ls < n"
      "\<forall>(e, pr, q) \<in> set ((pe, pp, q) # ls). level_ok P L rq e pr q" by blast
    with level q(4) found_parent [OF Some q(1,2)] show ?thesis by (intro exI [of _ "(pe, pp, q) # ls"]) simp
  qed
qed simp

end
