(* ===== verification/Constitution.thy ===== *)
theory Constitution
  imports Canonical_Total
begin

text \<open>
  \<^verbatim>\<open>multisig_constitution.py\<close>: constitution versions signed by m of n, the
  chain that admits them, and the decisions taken under a version. A model instance is its
  record; the validators of pydantic are the predicates \<open>valid_...\<close>. Points in time are
  UTC instants.
\<close>

section \<open>Models\<close>

record trusted_signer =
  ts_key_id :: pystr
  ts_public_key :: pystr

record trust_config =
  tc_signers :: "trusted_signer list"
  tc_quorum :: int

definition valid_signer :: "prims \<Rightarrow> trusted_signer \<Rightarrow> bool" where
  "valid_signer P s \<longleftrightarrow> ts_key_id s \<noteq> [] \<and>
     (case b64_strict P (ts_public_key s) of None \<Rightarrow> False | Some raw \<Rightarrow> length raw = 32)"

definition valid_trust :: "prims \<Rightarrow> trust_config \<Rightarrow> bool" where
  "valid_trust P t \<longleftrightarrow> tc_signers t \<noteq> [] \<and> list_all (valid_signer P) (tc_signers t) \<and> 1 \<le> tc_quorum t \<and>
     distinct (map ts_key_id (tc_signers t)) \<and> tc_quorum t \<le> int (length (tc_signers t))"

record constitution =
  con_version :: int
  previous_hash :: "pystr option"
  invariants :: "pystr list"
  hard_deny_actions :: "pystr list"
  approval_required_actions :: "pystr list"
  authority_epoch :: int
  con_created_at :: int
  proposed_trust :: "trust_config option"

definition invariant_pattern :: "pystr \<Rightarrow> pystr option" where
  "invariant_pattern i =
     (if startswith i (py ''deny:'') then Some (drop 5 i)
      else if startswith i (py ''require-approval:'') then Some (drop 17 i) else None)"

definition valid_constitution :: "prims \<Rightarrow> constitution \<Rightarrow> bool" where
  "valid_constitution P c \<longleftrightarrow> 1 \<le> con_version c \<and> 0 \<le> authority_epoch c \<and>
     list_all (\<lambda>i. invariant_pattern i \<noteq> None \<and> invariant_pattern i \<noteq> Some []) (invariants c) \<and>
     (case proposed_trust c of None \<Rightarrow> True | Some t \<Rightarrow> valid_trust P t)"

record con_signature =
  cs_key_id :: pystr
  cs_signature :: pystr

record signed_constitution =
  constitution :: constitution
  signatures :: "con_signature list"

record action_receipt =
  r_action :: pystr
  r_resource :: pystr
  r_constitution_hash :: pystr
  r_created_at :: int

section \<open>Hashing and signing\<close>

definition opt_json :: "('a \<Rightarrow> json) \<Rightarrow> 'a option \<Rightarrow> json" where
  "opt_json f x = (case x of None \<Rightarrow> JNull | Some y \<Rightarrow> f y)"

definition trust_json :: "trust_config \<Rightarrow> json" where
  "trust_json t = JObj [(py ''signers'', JArr (map (\<lambda>s. JObj [(py ''key_id'', JStr (ts_key_id s)),
       (py ''public_key'', JStr (ts_public_key s))]) (tc_signers t))), (py ''quorum'', JInt (tc_quorum t))]"

definition constitution_json :: "prims \<Rightarrow> constitution \<Rightarrow> json" where
  "constitution_json P c = JObj
     [(py ''version'', JInt (con_version c)), (py ''previous_hash'', opt_json JStr (previous_hash c)),
      (py ''invariants'', JArr (map JStr (invariants c))),
      (py ''hard_deny_actions'', JArr (map JStr (hard_deny_actions c))),
      (py ''approval_required_actions'', JArr (map JStr (approval_required_actions c))),
      (py ''authority_epoch'', JInt (authority_epoch c)),
      (py ''created_at'', JStr (dt_json P (con_created_at c))),
      (py ''proposed_trust'', opt_json trust_json (proposed_trust c))]"

definition content_hash_of :: "prims \<Rightarrow> constitution \<Rightarrow> pystr res" where
  "content_hash_of P c = Canonical.sha256_hex P (constitution_json P c)"

definition hash_payload :: "pystr \<Rightarrow> (pystr \<times> json) list" where
  "hash_payload h = [(py ''constitution_hash'', JStr h)]"

definition sign_constitution :: "prims \<Rightarrow> signer \<Rightarrow> constitution \<Rightarrow> con_signature res" where
  "sign_constitution P sg c = rbind (content_hash_of P c) (\<lambda>h.
     rbind (sign_payload P sg (hash_payload h)) (\<lambda>env.
     Inr \<lparr>cs_key_id = key_id sg, cs_signature = signature env\<rparr>))"

text \<open>
  Every exception inside the \<^verbatim>\<open>try\<close> is \<^verbatim>\<open>False\<close>, and so is a
  payload that does not carry the hash.
\<close>

definition verify_constitution_signature :: "prims \<Rightarrow> con_signature \<Rightarrow> pystr \<Rightarrow> constitution \<Rightarrow> bool" where
  "verify_constitution_signature P sig public_key c =
     (case rbind (content_hash_of P c) (\<lambda>h.
        rbind (public_key_from_b64 P public_key) (\<lambda>pub.
        verify_envelope P \<lparr>alg = alg_ed25519, env_key_id = cs_key_id sig, payload = hash_payload h,
          signature = cs_signature sig\<rparr> pub)) of
        Inl _ \<Rightarrow> False
      | Inr p \<Rightarrow> (case content_hash_of P c of Inl _ \<Rightarrow> False
          | Inr h \<Rightarrow> map_of p (py ''constitution_hash'') = Some (JStr h)))"

section \<open>The chain\<close>

record chain =
  bootstrap :: trust_config
  versions :: "signed_constitution list"
  by_hash :: "pystr \<rightharpoonup> signed_constitution"

fun trust_after :: "trust_config \<Rightarrow> signed_constitution list \<Rightarrow> trust_config" where
  "trust_after t [] = t"
| "trust_after t (v # vs) =
     trust_after (case proposed_trust (constitution v) of None \<Rightarrow> t | Some t' \<Rightarrow> t') vs"

definition trust_active_for_next :: "chain \<Rightarrow> trust_config" where
  "trust_active_for_next ch = trust_after (bootstrap ch) (versions ch)"

definition keymap :: "trust_config \<Rightarrow> pystr \<rightharpoonup> trusted_signer" where
  "keymap t = map_of (rev (map (\<lambda>s. (ts_key_id s, s)) (tc_signers t)))"

text \<open>The loop over the signatures: the key ids seen and the number of valid signatures.\<close>

fun count_signatures ::
  "prims \<Rightarrow> constitution \<Rightarrow> (pystr \<rightharpoonup> trusted_signer) \<Rightarrow> pystr list \<Rightarrow> int \<Rightarrow> con_signature list \<Rightarrow> int res" where
  "count_signatures P c km seen valid [] = Inr valid"
| "count_signatures P c km seen valid (sig # sigs) =
     (if cs_key_id sig \<in> set seen then raise ConstitutionRejected ''duplicate signature from key_id''
      else (case km (cs_key_id sig) of
          None \<Rightarrow> raise ConstitutionRejected ''signature by key_id not in the active trusted set''
        | Some signer \<Rightarrow>
            require (verify_constitution_signature P sig (ts_public_key signer) c)
              ConstitutionRejected ''invalid signature from key_id''
              (count_signatures P c km (cs_key_id sig # seen) (valid + 1) sigs)))"

definition verify_quorum :: "prims \<Rightarrow> signed_constitution \<Rightarrow> trust_config \<Rightarrow> unit res" where
  "verify_quorum P sc active =
     rbind (count_signatures P (constitution sc) (keymap active) [] 0 (signatures sc)) (\<lambda>valid.
     require (tc_quorum active \<le> valid) ConstitutionRejected ''quorum not met'' (Inr ()))"

definition check_link :: "prims \<Rightarrow> constitution \<Rightarrow> bool \<Rightarrow> chain \<Rightarrow> unit res" where
  "check_link P c is_genesis ch =
     (if is_genesis then
        require (con_version c = 1) ConstitutionRejected ''genesis version must be 1''
        (require (previous_hash c = None) ConstitutionRejected ''genesis previous_hash must be None'' (Inr ()))
      else
        (let head = last (versions ch) in
         require (con_version c = con_version (constitution head) + 1) ConstitutionRejected
           ''version must be sequential''
         (rbind (content_hash_of P (constitution head)) (\<lambda>h.
          require (previous_hash c = Some h) ConstitutionRejected
            ''previous_hash does not match current head content hash'' (Inr ())))))"

definition admit :: "prims \<Rightarrow> signed_constitution \<Rightarrow> trust_config \<Rightarrow> bool \<Rightarrow> chain \<Rightarrow> chain res" where
  "admit P sc active is_genesis ch =
     rbind (content_hash_of P (constitution sc)) (\<lambda>h.
     require (by_hash ch h = None) ConstitutionRejected ''duplicate constitution content hash''
     (rbind (check_link P (constitution sc) is_genesis ch) (\<lambda>_.
      rbind (verify_quorum P sc active) (\<lambda>_.
      Inr (ch\<lparr>versions := versions ch @ [sc], by_hash := (by_hash ch)(h \<mapsto> sc)\<rparr>)))))"

definition new_chain :: "prims \<Rightarrow> signed_constitution \<Rightarrow> trust_config \<Rightarrow> chain res" where
  "new_chain P genesis boot =
     admit P genesis boot True \<lparr>bootstrap = boot, versions = [], by_hash = Map.empty\<rparr>"

definition append_version :: "prims \<Rightarrow> signed_constitution \<Rightarrow> chain \<Rightarrow> chain res" where
  "append_version P sc ch = admit P sc (trust_active_for_next ch) False ch"

fun extend :: "prims \<Rightarrow> signed_constitution list \<Rightarrow> chain \<Rightarrow> chain res" where
  "extend P [] ch = Inr ch"
| "extend P (v # vs) ch = rbind (append_version P v ch) (extend P vs)"

definition governed_version :: "chain \<Rightarrow> pystr \<Rightarrow> signed_constitution option" where
  "governed_version ch h = by_hash ch h"

definition build_chain :: "prims \<Rightarrow> signed_constitution list \<Rightarrow> trust_config \<Rightarrow> chain res" where
  "build_chain P vs boot = rbind (new_chain P (hd vs) boot) (extend P (tl vs))"

definition verify_full_chain :: "prims \<Rightarrow> chain \<Rightarrow> bool res" where
  "verify_full_chain P ch = rbind (build_chain P (versions ch) (bootstrap ch)) (\<lambda>_. Inr True)"

text \<open>Rejections and value errors make the claim illegitimate; other exceptions pass.\<close>

definition resolve_governed_version ::
  "prims \<Rightarrow> signed_constitution list \<Rightarrow> trust_config \<Rightarrow> pystr \<Rightarrow> signed_constitution option res" where
  "resolve_governed_version P vs boot h =
     (if vs = [] then Inr None
      else (case build_chain P vs boot of
          Inl e \<Rightarrow> if is_a (exn_cls e) ValueError then Inr None else Inl e
        | Inr ch \<Rightarrow> Inr (governed_version ch h)))"

section \<open>Decisions\<close>

datatype con_decision = ALLOW | DENY | APPROVAL_REQUIRED

definition pattern_matches :: "pystr list \<Rightarrow> pystr \<Rightarrow> bool" where
  "pattern_matches patterns action = list_ex (fnmatchcase action) patterns"

definition deny_patterns :: "constitution \<Rightarrow> pystr list" where
  "deny_patterns c = map (drop 5) (filter (\<lambda>i. startswith i (py ''deny:'')) (invariants c))"

definition require_patterns :: "constitution \<Rightarrow> pystr list" where
  "require_patterns c = map (drop 17) (filter (\<lambda>i. startswith i (py ''require-approval:'')) (invariants c))"

definition governance_check :: "pystr \<Rightarrow> pystr \<Rightarrow> constitution \<Rightarrow> con_decision" where
  "governance_check action resource c =
     (if pattern_matches (hard_deny_actions c) action \<or> pattern_matches (deny_patterns c) action then DENY
      else if pattern_matches (approval_required_actions c) action \<or> pattern_matches (require_patterns c) action
      then APPROVAL_REQUIRED
      else ALLOW)"

definition adjudicate_receipt :: "chain \<Rightarrow> action_receipt \<Rightarrow> con_decision" where
  "adjudicate_receipt ch r = (case governed_version ch (r_constitution_hash r) of
     None \<Rightarrow> DENY
   | Some v \<Rightarrow> governance_check (r_action r) (r_resource r) (constitution v))"


section \<open>What the chain admits\<close>

text \<open>Enough distinct signers of the active set, every signature valid.\<close>

definition quorum_met :: "prims \<Rightarrow> trust_config \<Rightarrow> signed_constitution \<Rightarrow> bool" where
  "quorum_met P t sc \<longleftrightarrow> distinct (map cs_key_id (signatures sc)) \<and>
     (\<forall>sig \<in> set (signatures sc). \<exists>s. keymap t (cs_key_id sig) = Some s \<and>
        verify_constitution_signature P sig (ts_public_key s) (constitution sc)) \<and>
     tc_quorum t \<le> int (length (signatures sc))"

text \<open>\<open>successor P boot vs v\<close>: the version \<open>v\<close> may follow the versions \<open>vs\<close>;
  the signers that decide are those active after \<open>vs\<close>.\<close>

definition successor :: "prims \<Rightarrow> trust_config \<Rightarrow> signed_constitution list \<Rightarrow> signed_constitution \<Rightarrow> bool" where
  "successor P boot vs v \<longleftrightarrow>
     (\<exists>h. content_hash_of P (constitution v) = Inr h \<and>
        (\<forall>u \<in> set vs. content_hash_of P (constitution u) \<noteq> Inr h)) \<and>
     con_version (constitution v) = int (length vs) + 1 \<and>
     (if vs = [] then previous_hash (constitution v) = None
      else \<exists>h. content_hash_of P (constitution (last vs)) = Inr h \<and> previous_hash (constitution v) = Some h) \<and>
     quorum_met P (trust_after boot vs) v"

definition legitimate :: "prims \<Rightarrow> trust_config \<Rightarrow> signed_constitution list \<Rightarrow> bool" where
  "legitimate P boot vs \<longleftrightarrow> (\<forall>i < length vs. successor P boot (take i vs) (vs ! i))"

lemma legitimate_Nil [simp]: "legitimate P boot []"
  by (simp add: legitimate_def)

lemma legitimate_snoc: "legitimate P boot (vs @ [v]) \<longleftrightarrow> legitimate P boot vs \<and> successor P boot vs v"
  by (auto simp: legitimate_def less_Suc_eq nth_append)

lemma legitimate_version: "legitimate P boot vs \<Longrightarrow> i < length vs \<Longrightarrow>
    con_version (constitution (vs ! i)) = int i + 1"
  by (auto simp: legitimate_def successor_def)

lemma count_signatures_eq:
  "count_signatures P c km seen n sigs = Inr m \<longleftrightarrow> m = n + int (length sigs) \<and>
     distinct (map cs_key_id sigs) \<and> set (map cs_key_id sigs) \<inter> set seen = {} \<and>
     (\<forall>sig \<in> set sigs. \<exists>s. km (cs_key_id sig) = Some s \<and> verify_constitution_signature P sig (ts_public_key s) c)"
proof (induction sigs arbitrary: seen n)
  case (Cons sig sigs)
  show ?case
    by (cases "km (cs_key_id sig)") (auto simp: Cons)
qed auto

lemma verify_quorum_eq: "verify_quorum P sc t = Inr u \<longleftrightarrow> quorum_met P t sc"
  by (auto simp: verify_quorum_def count_signatures_eq quorum_met_def)

text \<open>The chain over a list of versions, and what its index holds.\<close>

definition indexes :: "prims \<Rightarrow> signed_constitution list \<Rightarrow> (pystr \<rightharpoonup> signed_constitution) \<Rightarrow> bool" where
  "indexes P vs m \<longleftrightarrow> (\<forall>h v. m h = Some v \<longleftrightarrow> v \<in> set vs \<and> content_hash_of P (constitution v) = Inr h)"

lemma indexes_None: "indexes P vs m \<Longrightarrow> m h = None \<longleftrightarrow>
    (\<forall>u \<in> set vs. content_hash_of P (constitution u) \<noteq> Inr h)"
  unfolding indexes_def by (metis not_Some_eq)

lemma indexes_snoc:
  assumes "indexes P vs m" "content_hash_of P (constitution v) = Inr h" "m h = None"
  shows "indexes P (vs @ [v]) (m(h \<mapsto> v))"
  using assms indexes_None [OF assms(1), of h] by (auto simp: indexes_def)

definition chain_ok :: "prims \<Rightarrow> chain \<Rightarrow> bool" where
  "chain_ok P ch \<longleftrightarrow> legitimate P (bootstrap ch) (versions ch) \<and> indexes P (versions ch) (by_hash ch)"

lemma check_link_eq:
  assumes "legitimate P boot (versions ch)"
  shows "check_link P c (versions ch = []) ch = Inr u \<longleftrightarrow>
    con_version c = int (length (versions ch)) + 1 \<and>
    (if versions ch = [] then previous_hash c = None
     else \<exists>h. content_hash_of P (constitution (last (versions ch))) = Inr h \<and> previous_hash c = Some h)"
proof (cases "versions ch" rule: rev_cases)
  case (snoc vs v)
  then have "con_version (constitution v) = int (length vs) + 1"
    using legitimate_version [OF assms, of "length vs"] by simp
  with snoc show ?thesis by (auto simp: check_link_def)
qed (simp add: check_link_def)

lemma admit_eq:
  assumes "chain_ok P ch"
  shows "admit P v (trust_active_for_next ch) (versions ch = []) ch = Inr ch' \<longleftrightarrow>
    successor P (bootstrap ch) (versions ch) v \<and>
    (\<exists>h. content_hash_of P (constitution v) = Inr h \<and>
       ch' = ch\<lparr>versions := versions ch @ [v], by_hash := (by_hash ch)(h \<mapsto> v)\<rparr>)"
proof -
  note ok = assms [unfolded chain_ok_def]
  show ?thesis
    unfolding admit_def rbind_eq_Inr require_eq_Inr check_link_eq [OF ok [THEN conjunct1]] verify_quorum_eq
      indexes_None [OF ok [THEN conjunct2]] trust_active_for_next_def successor_def
    by auto
qed

lemma admit_total:
  assumes "chain_ok P ch" "successor P (bootstrap ch) (versions ch) v"
  shows "\<exists>ch'. admit P v (trust_active_for_next ch) (versions ch = []) ch = Inr ch'"
  unfolding admit_eq [OF assms(1)] using assms(2) by (auto simp: successor_def)

lemma admit_ok:
  assumes "chain_ok P ch" "admit P v (trust_active_for_next ch) (versions ch = []) ch = Inr ch'"
  shows "chain_ok P ch'" "versions ch' = versions ch @ [v]" "bootstrap ch' = bootstrap ch"
proof -
  from admit_eq [OF assms(1)] assms(2) obtain h where s: "successor P (bootstrap ch) (versions ch) v"
    and h: "content_hash_of P (constitution v) = Inr h"
    and ch': "ch' = ch\<lparr>versions := versions ch @ [v], by_hash := (by_hash ch)(h \<mapsto> v)\<rparr>" by auto
  have "by_hash ch h = None"
    using s h assms(1) indexes_None [of P "versions ch" "by_hash ch" h]
    by (auto simp: successor_def chain_ok_def)
  with s h assms(1) show "chain_ok P ch'"
    by (auto simp: ch' chain_ok_def legitimate_snoc intro: indexes_snoc)
  show "versions ch' = versions ch @ [v]" "bootstrap ch' = bootstrap ch" by (simp_all add: ch')
qed

lemma extend_eq:
  "chain_ok P ch \<Longrightarrow> versions ch \<noteq> [] \<Longrightarrow>
   (\<exists>ch'. extend P vs ch = Inr ch' \<and> chain_ok P ch' \<and> versions ch' = versions ch @ vs \<and> bootstrap ch' = bootstrap ch)
   \<or> (\<exists>e. extend P vs ch = Inl e \<and> \<not> legitimate P (bootstrap ch) (versions ch @ vs))"
proof (induction vs arbitrary: ch)
  case (Cons v vs)
  have app: "append_version P v ch = admit P v (trust_active_for_next ch) (versions ch = []) ch"
    using Cons.prems(2) by (simp add: append_version_def)
  show ?case
  proof (cases "append_version P v ch")
    case (Inl e)
    have "\<not> successor P (bootstrap ch) (versions ch) v"
      using admit_total [OF Cons.prems(1), of v] app Inl by auto
    moreover have "legitimate P (bootstrap ch) (versions ch @ v # vs) \<Longrightarrow> successor P (bootstrap ch) (versions ch) v"
      by (auto simp: legitimate_def nth_append dest: spec [of _ "length (versions ch)"])
    ultimately show ?thesis using Inl by auto
  next
    case (Inr ch1)
    from admit_ok [OF Cons.prems(1)] app Inr have "chain_ok P ch1" "versions ch1 = versions ch @ [v]"
      "bootstrap ch1 = bootstrap ch" by metis+
    with Cons.IH [of ch1] Inr show ?thesis by simp
  qed
qed (simp add: chain_ok_def)

lemma build_chain_eq:
  assumes "vs \<noteq> []"
  shows "(\<exists>ch. build_chain P vs boot = Inr ch \<and> chain_ok P ch \<and> versions ch = vs \<and> bootstrap ch = boot)
    \<or> (\<exists>e. build_chain P vs boot = Inl e \<and> \<not> legitimate P boot vs)"
proof -
  let ?ch0 = "\<lparr>bootstrap = boot, versions = [], by_hash = Map.empty\<rparr>"
  have ok0: "chain_ok P ?ch0" by (simp add: chain_ok_def indexes_def)
  from assms obtain v ws where vs: "vs = v # ws" by (cases vs) auto
  have new: "new_chain P v boot = admit P v (trust_active_for_next ?ch0) (versions ?ch0 = []) ?ch0"
    by (simp add: new_chain_def trust_active_for_next_def)
  show ?thesis
  proof (cases "new_chain P v boot")
    case (Inl e)
    have "\<not> successor P boot [] v" using admit_total [OF ok0, of v] new Inl by auto
    then have "\<not> legitimate P boot vs" by (auto simp: vs legitimate_def dest: spec [of _ 0])
    with Inl show ?thesis by (simp add: build_chain_def vs)
  next
    case (Inr ch1)
    from admit_ok [OF ok0 new [symmetric, unfolded Inr]] have ch1: "chain_ok P ch1" "versions ch1 = [v]"
      "bootstrap ch1 = boot" by (simp_all only: chain.select_convs append_Nil)
    then have "versions ch1 \<noteq> []" by simp
    from extend_eq [OF ch1(1) this, of ws] ch1(2,3) Inr show ?thesis by (simp add: build_chain_def vs)
  qed
qed


lemma verify_signed_constitution:
  assumes "prims_ok P" "signer_ok P sg" "sign_constitution P sg c = Inr sig"
  shows "cs_key_id sig = key_id sg \<and>
    verify_constitution_signature P sig (b64_encode P (public_key_bytes sg)) c"
proof -
  from assms(3) obtain h env where h: "content_hash_of P c = Inr h"
    and env: "sign_payload P sg (hash_payload h) = Inr env"
    and sig: "sig = \<lparr>cs_key_id = key_id sg, cs_signature = signature env\<rparr>"
    by (auto simp: sign_constitution_def)
  have "verify_envelope P env (public_key_bytes sg) = Inr (hash_payload h)"
    using verify_signed_payload [OF assms(1,2) env] .
  moreover have "env = \<lparr>alg = alg_ed25519, env_key_id = key_id sg, payload = hash_payload h, signature = signature env\<rparr>"
    using sign_payload_ok [OF env] by (cases env) simp
  ultimately show ?thesis
    using h assms(1) by (simp add: verify_constitution_signature_def sig public_key_from_b64_def prims_ok_def
        hash_payload_def)
qed

section \<open>Strictness of decisions\<close>

text \<open>Decisions in the order of the precedence.\<close>

instantiation con_decision :: linorder
begin

fun rank :: "con_decision \<Rightarrow> nat" where
  "rank ALLOW = 0" | "rank APPROVAL_REQUIRED = 1" | "rank DENY = 2"

definition less_eq_con_decision :: "con_decision \<Rightarrow> con_decision \<Rightarrow> bool" where
  "less_eq_con_decision a b \<longleftrightarrow> rank a \<le> rank b"

definition less_con_decision :: "con_decision \<Rightarrow> con_decision \<Rightarrow> bool" where
  "less_con_decision a b \<longleftrightarrow> rank a < rank b"

instance
proof
  fix a b c :: con_decision
  show "a < b \<longleftrightarrow> a \<le> b \<and> \<not> b \<le> a" by (auto simp: less_eq_con_decision_def less_con_decision_def)
  show "a \<le> a" by (simp add: less_eq_con_decision_def)
  show "a \<le> b \<Longrightarrow> b \<le> c \<Longrightarrow> a \<le> c" by (simp add: less_eq_con_decision_def)
  show "a \<le> b \<Longrightarrow> b \<le> a \<Longrightarrow> a = b" by (cases a; cases b) (simp_all add: less_eq_con_decision_def)
  show "a \<le> b \<or> b \<le> a" by (auto simp: less_eq_con_decision_def)
qed

end

lemma pattern_matches_mono: "set ps \<subseteq> set qs \<Longrightarrow> pattern_matches ps a \<Longrightarrow> pattern_matches qs a"
  by (auto simp: pattern_matches_def list_ex_iff)

section \<open>A concrete constitution\<close>

definition demo_boot :: trust_config where
  "demo_boot = \<lparr>tc_signers = [\<lparr>ts_key_id = py ''a'', ts_public_key = to_hex (replicate 32 7)\<rparr>,
     \<lparr>ts_key_id = py ''b'', ts_public_key = to_hex (replicate 32 7)\<rparr>], tc_quorum = 2\<rparr>"

definition demo_con :: constitution where
  "demo_con = \<lparr>con_version = 1, previous_hash = None, invariants = [py ''deny:shell.*''],
     hard_deny_actions = [], approval_required_actions = [py ''pay.*''], authority_epoch = 0,
     con_created_at = 0, proposed_trust = None\<rparr>"

lemma demo_con_hash: "\<exists>b. content_hash_of toy demo_con = Inr (to_hex b)"
  using canonical_total [of toy "constitution_json toy demo_con"]
  by (auto simp: content_hash_of_def Canonical.sha256_hex_def constitution_json_def demo_con_def opt_json_def)

lemma demo_con_signed: "\<exists>sig. sign_constitution toy (toy_signer k 7) demo_con = Inr sig"
proof -
  obtain b where b: "content_hash_of toy demo_con = Inr (to_hex b)" using demo_con_hash by blast
  have "\<exists>c. canonical_bytes toy (JObj (hash_payload (to_hex b))) = Inr c"
    by (rule canonical_total) (simp add: hash_payload_def)
  with b show ?thesis by (auto simp: sign_constitution_def sign_payload_def)
qed

lemma demo_chain: "\<exists>v ch. build_chain toy [v] demo_boot = Inr ch \<and> map cs_key_id (signatures v) = [py ''a'', py ''b''] \<and>
    constitution v = demo_con"
proof -
  obtain sa sb where s: "sign_constitution toy (toy_signer ''a'' 7) demo_con = Inr sa"
    "sign_constitution toy (toy_signer ''b'' 7) demo_con = Inr sb" using demo_con_signed by blast
  let ?v = "\<lparr>constitution = demo_con, signatures = [sa, sb]\<rparr>"
  have "cs_key_id sa = py ''a''" "verify_constitution_signature toy sa (to_hex (replicate 32 7)) demo_con"
    "cs_key_id sb = py ''b''" "verify_constitution_signature toy sb (to_hex (replicate 32 7)) demo_con"
    using verify_signed_constitution [OF toy_ok toy_signer_ok s(1)]
      verify_signed_constitution [OF toy_ok toy_signer_ok s(2)] by (simp_all del: to_hex.simps)
  then have "quorum_met toy demo_boot ?v"
    by (simp add: quorum_met_def demo_boot_def keymap_def del: to_hex.simps)
  then have "legitimate toy demo_boot [?v]"
    using demo_con_hash by (auto simp: legitimate_def successor_def) (simp_all add: demo_con_def)
  with build_chain_eq [of "[?v]" toy demo_boot] obtain ch where "build_chain toy [?v] demo_boot = Inr ch" by auto
  moreover have "map cs_key_id [sa, sb] = [py ''a'', py ''b'']"
    using \<open>cs_key_id sa = py ''a''\<close> \<open>cs_key_id sb = py ''b''\<close> by simp
  ultimately show ?thesis by (intro exI [of _ ?v] exI [of _ ch]) simp
qed

section \<open>Properties\<close>

text \<open>C16: offline resolution is exact. A claimed list of versions resolves a hash to a version exactly
  when the list is legitimate (sequential versions, intact hash links, no repeated content, and at
  each position a quorum of distinct signers of the set that the earlier versions put in force) and
  the version is the one of that hash; nothing else resolves.\<close>

theorem resolution_exact:
  "resolve_governed_version P vs boot h = Inr (Some v) \<longleftrightarrow>
     legitimate P boot vs \<and> v \<in> set vs \<and> content_hash_of P (constitution v) = Inr h"
proof (cases "vs = []")
  case False
  from build_chain_eq [OF this, of P boot] show ?thesis
  proof
    assume "\<exists>ch. build_chain P vs boot = Inr ch \<and> chain_ok P ch \<and> versions ch = vs \<and> bootstrap ch = boot"
    then show ?thesis using False
      by (auto simp: resolve_governed_version_def governed_version_def chain_ok_def indexes_def)
  next
    assume "\<exists>e. build_chain P vs boot = Inl e \<and> \<not> legitimate P boot vs"
    then show ?thesis using False by (auto simp: resolve_governed_version_def)
  qed
qed (simp add: resolve_governed_version_def)

text \<open>Rotation is forward only. In a chain that was built, every version was authorized by the
  signers that the versions before it put in force: a quorum of distinct key ids of that set, each
  with a valid signature over the version's content hash; its own proposal has no say.\<close>

theorem rotation_forward_only:
  assumes "build_chain P (us @ v # ws) boot = Inr ch"
  shows "\<exists>sigs. sigs = signatures v \<and> distinct (map cs_key_id sigs) \<and>
    tc_quorum (trust_after boot us) \<le> int (length sigs) \<and>
    (\<forall>sig \<in> set sigs. \<exists>s \<in> set (tc_signers (trust_after boot us)). ts_key_id s = cs_key_id sig \<and>
       verify_constitution_signature P sig (ts_public_key s) (constitution v))"
proof -
  have "legitimate P boot (us @ v # ws)"
    using build_chain_eq [of "us @ v # ws" P boot] assms by (auto simp: chain_ok_def)
  then have q: "quorum_met P (trust_after boot us) v"
    by (auto simp: legitimate_def successor_def dest: spec [of _ "length us"])
  have k: "keymap t i = Some s \<Longrightarrow> s \<in> set (tc_signers t) \<and> ts_key_id s = i" for t i s
    unfolding keymap_def by (auto dest: map_of_SomeD)
  show ?thesis using q k by (fastforce simp: quorum_met_def)
qed

theorem rotation_forward_only_witness:
  "\<exists>v ch. build_chain toy [v] demo_boot = Inr ch \<and> tc_quorum demo_boot \<le> int (length (signatures v))"
proof -
  obtain v ch where b: "build_chain toy [v] demo_boot = Inr ch" using demo_chain by blast
  then have "build_chain toy ([] @ v # []) demo_boot = Inr ch" by simp
  from rotation_forward_only [OF this] b show ?thesis by auto
qed

text \<open>A chain verifies again. Every chain that was built and extended re-validates from its
  genesis.\<close>

theorem built_chain_reverifies:
  assumes "build_chain P (v # vs) boot = Inr ch0" "extend P ws ch0 = Inr ch"
  shows "verify_full_chain P ch = Inr True \<and> versions ch = v # vs @ ws"
proof -
  from build_chain_eq [of "v # vs" P boot] assms(1) have ch0: "chain_ok P ch0" "versions ch0 = v # vs"
    "bootstrap ch0 = boot" by auto
  from extend_eq [of P ch0 ws] assms(2) ch0 have ch: "chain_ok P ch" "versions ch = v # vs @ ws"
    by auto
  then have "legitimate P (bootstrap ch) (v # vs @ ws)" by (simp add: chain_ok_def)
  with build_chain_eq [of "v # vs @ ws" P "bootstrap ch"] ch(2) show ?thesis
    by (auto simp: verify_full_chain_def)
qed

theorem built_chain_reverifies_witness:
  "\<exists>v ch. build_chain toy [v] demo_boot = Inr ch \<and> verify_full_chain toy ch = Inr True"
proof -
  obtain v ch where b: "build_chain toy [v] demo_boot = Inr ch" using demo_chain by blast
  have "extend toy [] ch = Inr ch" by simp
  from built_chain_reverifies [OF b this] b show ?thesis by blast
qed

text \<open>More rules never weaken a constitution: if another constitution has all the patterns of a
  first one and perhaps more, its decision on any action is at least as strict, in the order allow,
  approval required, deny.\<close>

theorem governance_monotone:
  assumes "set (hard_deny_actions c) \<subseteq> set (hard_deny_actions d)"
    and "set (approval_required_actions c) \<subseteq> set (approval_required_actions d)"
    and "set (invariants c) \<subseteq> set (invariants d)"
  shows "governance_check action resource c \<le> governance_check action resource d"
proof -
  have "set (deny_patterns c) \<subseteq> set (deny_patterns d)" "set (require_patterns c) \<subseteq> set (require_patterns d)"
    using assms(3) by (auto simp: deny_patterns_def require_patterns_def)
  then show ?thesis
    using assms(1,2) pattern_matches_mono
    by (auto simp: governance_check_def less_eq_con_decision_def)
qed

theorem governance_monotone_witness:
  "governance_check (py ''pay.x'') [] demo_con \<le> governance_check (py ''pay.x'') []
     (demo_con\<lparr>hard_deny_actions := [py ''*'']\<rparr>) \<and>
   governance_check (py ''pay.x'') [] (demo_con\<lparr>hard_deny_actions := [py ''*'']\<rparr>) = DENY"
proof
  show "governance_check (py ''pay.x'') [] demo_con \<le> governance_check (py ''pay.x'') []
     (demo_con\<lparr>hard_deny_actions := [py ''*'']\<rparr>)"
    by (rule governance_monotone) (simp_all add: demo_con_def)
  have "fnmatchcase (py ''pay.x'') (py ''*'')" using fnmatchcase_star by (simp add: py_def)
  then show "governance_check (py ''pay.x'') [] (demo_con\<lparr>hard_deny_actions := [py ''*'']\<rparr>) = DENY"
    by (simp add: governance_check_def pattern_matches_def)
qed

text \<open>A quorum counts key ids, not keys: a trust configuration that the model accepts lists one
  public key under two key ids, and with its quorum of 2 a chain is built on the signatures of that
  single key.\<close>

theorem quorum_counts_key_ids:
  "\<exists>v ch. valid_trust toy demo_boot \<and> tc_quorum demo_boot = 2 \<and>
     map ts_public_key (tc_signers demo_boot) = replicate 2 (to_hex (replicate 32 7)) \<and>
     build_chain toy [v] demo_boot = Inr ch \<and> map cs_key_id (signatures v) = [py ''a'', py ''b'']"
proof -
  have "valid_trust toy demo_boot" by (simp add: valid_trust_def demo_boot_def valid_signer_def del: to_hex.simps)
  moreover have "tc_quorum demo_boot = 2"
    "map ts_public_key (tc_signers demo_boot) = replicate 2 (to_hex (replicate 32 7))"
    by (simp_all add: demo_boot_def numeral_2_eq_2)
  moreover obtain v ch where "build_chain toy [v] demo_boot = Inr ch"
    "map cs_key_id (signatures v) = [py ''a'', py ''b'']"
    using demo_chain by (elim exE conjE)
  ultimately show ?thesis by (intro exI [of _ v] exI [of _ ch] conjI)
qed

end
