(* ===== verification/Planes.thy ===== *)
theory Planes
  imports Tokens_Laws Constitution Single_Use
begin

text \<open>
  \<^verbatim>\<open>planes.py\<close>: the registry of planes, the signed decision, and the decision core
  that every plane runs: the constitution and the capability token, one verdict. The governor is a
  state that is returned updated. The reason of a denial is its constant text.
\<close>

section \<open>Decisions\<close>

definition supported_planes :: "pystr list" where
  "supported_planes = [py ''mcp'', py ''a2a'', py ''shell'', py ''http'', py ''github'']"

record decision =
  decision_id :: pystr
  d_plane :: pystr
  d_subject :: pystr
  d_action :: pystr
  d_resource :: pystr
  d_parameters_hash :: pystr
  verdict :: con_decision
  policy_refs :: "(pystr \<times> pystr) list"
  evaluated_at :: int
  d_nonce :: pystr

fun verdict_text :: "con_decision \<Rightarrow> pystr" where
  "verdict_text ALLOW = py ''ALLOW''"
| "verdict_text DENY = py ''DENY''"
| "verdict_text APPROVAL_REQUIRED = py ''APPROVAL_REQUIRED''"

definition decision_dump :: "prims \<Rightarrow> decision \<Rightarrow> jdict" where
  "decision_dump P d =
     [(py ''decision_id'', JStr (decision_id d)), (py ''plane'', JStr (d_plane d)),
      (py ''subject'', JStr (d_subject d)), (py ''action'', JStr (d_action d)),
      (py ''resource'', JStr (d_resource d)), (py ''parameters_hash'', JStr (d_parameters_hash d)),
      (py ''verdict'', JStr (verdict_text (verdict d))),
      (py ''policy_refs'', JObj (map (\<lambda>(k, v). (k, JStr v)) (policy_refs d))),
      (py ''evaluated_at'', JStr (dt_json P (evaluated_at d))), (py ''nonce'', JStr (d_nonce d))]"

definition decision_fields_ok :: "decision \<Rightarrow> bool" where
  "decision_fields_ok d \<longleftrightarrow> decision_id d \<noteq> [] \<and> d_plane d \<noteq> [] \<and> d_subject d \<noteq> [] \<and> d_action d \<noteq> []
     \<and> d_resource d \<noteq> [] \<and> d_parameters_hash d \<noteq> [] \<and> d_nonce d \<noteq> []"

section \<open>The governor\<close>

record governor =
  decision_key :: signer
  token_issuers :: "pystr \<rightharpoonup> bytes"
  g_constitution :: Constitution.constitution
  g_planes :: "pystr list"
  g_used_nonces :: "pystr list"

definition new_governor ::
    "signer \<Rightarrow> (pystr \<rightharpoonup> bytes) \<Rightarrow> Constitution.constitution \<Rightarrow> pystr list \<Rightarrow> governor" where
  "new_governor key issuers c planes = \<lparr>decision_key = key, token_issuers = issuers, g_constitution = c,
     g_planes = planes, g_used_nonces = []\<rparr>"

definition sign_decision :: "prims \<Rightarrow> signer \<Rightarrow> decision \<Rightarrow> signed_envelope res" where
  "sign_decision P key d =
     require (decision_fields_ok d) ValidationError ''String should have at least 1 character''
       (sign_payload P key (decision_dump P d))"

definition verify_decision ::
    "prims \<Rightarrow> (jdict \<Rightarrow> decision option) \<Rightarrow> signed_envelope \<Rightarrow> bytes \<Rightarrow> decision res" where
  "verify_decision P read_decision env pub =
     rbind (except PyException DecisionVerificationError ''decision signature invalid''
       (verify_envelope P env pub)) (\<lambda>p.
     of_option DecisionVerificationError ''decision payload malformed'' (read_decision p))"

section \<open>The decision core\<close>

record invocation =
  iv_plane :: pystr
  iv_subject :: pystr
  iv_action :: pystr
  iv_resource :: pystr
  iv_params :: jdict
  iv_constitution :: Constitution.constitution
  iv_capability :: "signed_envelope option"
  iv_proof :: "signed_envelope option"
  iv_now :: "datetime option"

text \<open>What a call draws: the time of the clock, the suffix of the decision id, and the nonce.\<close>

record draw =
  dr_clock :: int
  dr_id :: pystr
  dr_nonce :: pystr

definition aware_now :: "draw \<Rightarrow> datetime option \<Rightarrow> int res" where
  "aware_now dr now = (case now of
     None \<Rightarrow> Inr (dr_clock dr)
   | Some d \<Rightarrow> (case d of Naive t \<Rightarrow> raise ValueError ''now must be timezone-aware''
       | Aware t z \<Rightarrow> Inr t))"

definition token_request_of :: "governor \<Rightarrow> invocation \<Rightarrow> int \<Rightarrow> token_request" where
  "token_request_of g iv now = \<lparr>invocation_params = iv_params iv, rq_now = Aware now 0,
     trusted_issuers = token_issuers g, used_nonces = Some (g_used_nonces g), token_chain = Map.empty,
     holder_proofs = Map.empty, holder_keys = Map.empty, rq_context = [], expected_audience = None\<rparr>"

text \<open>Steps (2) and (3): the token, or the reason to deny.\<close>

definition check_bindings :: "invocation \<Rightarrow> pystr \<Rightarrow> token \<Rightarrow> string + token" where
  "check_bindings iv ch p =
     (if audience p \<noteq> iv_plane iv then Inl ''token plane binding mismatch''
      else if action p \<noteq> iv_action iv then Inl ''token action binding mismatch''
      else if resource p \<noteq> iv_resource iv then Inl ''token resource binding mismatch''
      else if constitution_hash p \<noteq> ch then Inl ''token constitution binding mismatch''
      else Inr p)"

definition check_token ::
    "prims \<Rightarrow> token_lib \<Rightarrow> governor \<Rightarrow> invocation \<Rightarrow> int \<Rightarrow> pystr \<Rightarrow> string + token" where
  "check_token P L g iv now ch = (case (iv_capability iv, iv_proof iv) of
     (Some cap, Some pf) \<Rightarrow>
       (case verify_token P L (token_request_of g iv now) None cap pf of
          Inl e \<Rightarrow> Inl (if exn_cls e = AuthorizationError then ''token verify failed'' else ''token verify error'')
        | Inr p \<Rightarrow> check_bindings iv ch p)
   | _ \<Rightarrow> Inl ''no capability token presented'')"

definition make_decision ::
    "draw \<Rightarrow> invocation \<Rightarrow> int \<Rightarrow> pystr \<Rightarrow> con_decision \<Rightarrow> (pystr \<times> pystr) list \<Rightarrow> decision" where
  "make_decision dr iv now ph v refs =
     \<lparr>decision_id = py ''dec_'' @ dr_id dr, d_plane = iv_plane iv, d_subject = iv_subject iv,
      d_action = iv_action iv, d_resource = iv_resource iv, d_parameters_hash = ph, verdict = v,
      policy_refs = refs, evaluated_at = now, d_nonce = dr_nonce dr\<rparr>"

definition deny ::
    "prims \<Rightarrow> draw \<Rightarrow> governor \<Rightarrow> invocation \<Rightarrow> int \<Rightarrow> pystr \<Rightarrow> pystr \<Rightarrow> string \<Rightarrow> signed_envelope res \<times> governor" where
  "deny P dr g iv now ch ph reason =
     (sign_decision P (decision_key g) (make_decision dr iv now ph DENY
        [(py ''constitution_hash'', ch), (py ''deny_reason'', py reason)]), g)"

text \<open>The end of the core, with a token that verified: the nonce is spent before the decision is
  signed.\<close>

definition conclude ::
    "prims \<Rightarrow> draw \<Rightarrow> governor \<Rightarrow> invocation \<Rightarrow> int \<Rightarrow> pystr \<Rightarrow> pystr \<Rightarrow> con_decision \<Rightarrow> token \<Rightarrow>
      signed_envelope res \<times> governor" where
  "conclude P dr g iv now ch ph v p =
     (case iv_capability iv of None \<Rightarrow> (raise AttributeError ''no payload'', g) | Some cap \<Rightarrow>
      (case token_hash P cap of Inl e \<Rightarrow> (Inl e, g) | Inr th \<Rightarrow>
       (let refs = [(py ''constitution_hash'', ch), (py ''capability_id'', t_capability_id p), (py ''token_hash'', th)]
        in if v = APPROVAL_REQUIRED
           then (sign_decision P (decision_key g) (make_decision dr iv now ph APPROVAL_REQUIRED
                  (refs @ [(py ''deny_reason'', py ''constitution:APPROVAL_REQUIRED'')])), g)
           else (sign_decision P (decision_key g) (make_decision dr iv now ph ALLOW refs),
                 g\<lparr>g_used_nonces := t_nonce p # g_used_nonces g\<rparr>))))"

definition decide ::
    "prims \<Rightarrow> token_lib \<Rightarrow> draw \<Rightarrow> invocation \<Rightarrow> governor \<Rightarrow> signed_envelope res \<times> governor" where
  "decide P L dr iv g =
     (case rbind (aware_now dr (iv_now iv)) (\<lambda>now. rbind (content_hash_of P (iv_constitution iv)) (\<lambda>ch.
             rbind (sha256_hex P (JObj (iv_params iv))) (\<lambda>ph. Inr (now, ch, ph)))) of
        Inl e \<Rightarrow> (Inl e, g)
      | Inr (now, ch, ph) \<Rightarrow>
          if iv_plane iv \<notin> set supported_planes \<or> iv_plane iv \<notin> set (g_planes g)
          then deny P dr g iv now ch ph ''plane not governed''
          else (let v = governance_check (iv_action iv) (iv_resource iv) (iv_constitution iv) in
            if v = DENY then deny P dr g iv now ch ph ''constitution:DENY''
            else (case check_token P L g iv now ch of
                Inl reason \<Rightarrow> deny P dr g iv now ch ph reason
              | Inr p \<Rightarrow> conclude P dr g iv now ch ph v p)))"

definition evaluate_plane ::
    "prims \<Rightarrow> token_lib \<Rightarrow> draw \<Rightarrow> invocation \<Rightarrow> governor \<Rightarrow> signed_envelope res \<times> governor" where
  "evaluate_plane P L dr iv g = decide P L dr (iv\<lparr>iv_constitution := g_constitution g\<rparr>) g"

section \<open>What a decision says\<close>

text \<open>The verdict that a signed decision carries.\<close>

definition verdict_of :: "signed_envelope \<Rightarrow> con_decision option" where
  "verdict_of env = (case map_of (payload env) (py ''verdict'') of
     Some v \<Rightarrow> if v = JStr (verdict_text ALLOW) then Some ALLOW
       else if v = JStr (verdict_text DENY) then Some DENY
       else if v = JStr (verdict_text APPROVAL_REQUIRED) then Some APPROVAL_REQUIRED else None
   | None \<Rightarrow> None)"

lemma verdict_of_sign: "sign_decision P key d = Inr env \<Longrightarrow> verdict_of env = Some (verdict d)"
  by (cases "verdict d") (auto simp: sign_decision_def verdict_of_def decision_dump_def
    dest!: sign_payload_ok(2))

text \<open>The contract of the core: the verdict is a function of the constitution's decision, the plane and
  the token.\<close>

definition token_grants :: "prims \<Rightarrow> token_lib \<Rightarrow> governor \<Rightarrow> invocation \<Rightarrow> int \<Rightarrow> token \<Rightarrow> bool" where
  "token_grants P L g iv now p \<longleftrightarrow>
     (\<exists>cap pf ch. iv_capability iv = Some cap \<and> iv_proof iv = Some pf \<and>
        verify_token P L (token_request_of g iv now) None cap pf = Inr p \<and>
        content_hash_of P (iv_constitution iv) = Inr ch \<and> audience p = iv_plane iv \<and>
        action p = iv_action iv \<and> resource p = iv_resource iv \<and> constitution_hash p = ch)"

definition expected_verdict :: "prims \<Rightarrow> token_lib \<Rightarrow> governor \<Rightarrow> invocation \<Rightarrow> int \<Rightarrow> con_decision" where
  "expected_verdict P L g iv now =
     (if iv_plane iv \<in> set supported_planes \<inter> set (g_planes g) \<and> (\<exists>p. token_grants P L g iv now p)
      then governance_check (iv_action iv) (iv_resource iv) (iv_constitution iv) else DENY)"

lemma check_token_Inr: "content_hash_of P (iv_constitution iv) = Inr ch \<Longrightarrow>
    check_token P L g iv now ch = Inr p \<longleftrightarrow> token_grants P L g iv now p"
  by (auto simp: check_token_def token_grants_def check_bindings_def split: option.splits sum.splits if_splits)

lemma deny_fst: "deny P dr g iv now ch ph reason = (Inr env, g') \<Longrightarrow> verdict_of env = Some DENY \<and> g' = g"
  by (auto simp: deny_def make_decision_def dest!: verdict_of_sign)

lemma conclude_ok: "conclude P dr g iv now ch ph v p = (Inr env, g') \<Longrightarrow> v \<noteq> DENY \<Longrightarrow> verdict_of env = Some v \<and>
    g' = (if v = ALLOW then g\<lparr>g_used_nonces := t_nonce p # g_used_nonces g\<rparr> else g)"
  by (cases v) (auto simp: conclude_def make_decision_def Let_def split: option.splits sum.splits
      dest!: verdict_of_sign)

lemma decide_cases:
  assumes "decide P L dr iv g = (Inr env, g')"
  obtains now where "aware_now dr (iv_now iv) = Inr now"
    "verdict_of env = Some (expected_verdict P L g iv now)"
    "expected_verdict P L g iv now \<noteq> ALLOW \<Longrightarrow> g' = g"
    "\<And>p. token_grants P L g iv now p \<Longrightarrow> expected_verdict P L g iv now = ALLOW \<Longrightarrow>
      g' = g\<lparr>g_used_nonces := t_nonce p # g_used_nonces g\<rparr>"
proof -
  let ?v = "governance_check (iv_action iv) (iv_resource iv) (iv_constitution iv)"
  obtain now ch ph where h: "aware_now dr (iv_now iv) = Inr now" "content_hash_of P (iv_constitution iv) = Inr ch"
    "sha256_hex P (JObj (iv_params iv)) = Inr ph"
    using assms unfolding decide_def by (cases "aware_now dr (iv_now iv)";
      cases "content_hash_of P (iv_constitution iv)"; cases "sha256_hex P (JObj (iv_params iv))") auto
  note d = assms [unfolded decide_def h rbind_simps sum.case prod.case Let_def]
  have unique: "token_grants P L g iv now p \<Longrightarrow> token_grants P L g iv now q \<Longrightarrow> p = q" for p q
    by (auto simp: token_grants_def)
  show ?thesis
  proof (cases "iv_plane iv \<notin> set supported_planes \<or> iv_plane iv \<notin> set (g_planes g) \<or> ?v = DENY")
    case True
    then have "verdict_of env = Some DENY \<and> g' = g" using d deny_fst by (auto split: if_splits)
    moreover have "expected_verdict P L g iv now = DENY" using True by (auto simp: expected_verdict_def)
    ultimately show ?thesis using that h(1) by simp
  next
    case False
    show ?thesis
    proof (cases "check_token P L g iv now ch")
      case (Inl reason)
      then have "\<not> (\<exists>p. token_grants P L g iv now p)" using check_token_Inr [where L = L, OF h(2)] by (metis sum.distinct(1))
      then have "expected_verdict P L g iv now = DENY" by (simp add: expected_verdict_def)
      moreover have "verdict_of env = Some DENY \<and> g' = g" using d False Inl deny_fst by auto
      ultimately show ?thesis using that h(1) by simp
    next
      case (Inr p)
      then have p: "token_grants P L g iv now p" using check_token_Inr [where L = L, OF h(2)] by metis
      then have e: "expected_verdict P L g iv now = ?v" using False by (auto simp: expected_verdict_def)
      have "verdict_of env = Some ?v \<and> g' = (if ?v = ALLOW then g\<lparr>g_used_nonces := t_nonce p # g_used_nonces g\<rparr> else g)"
        using d False Inr conclude_ok by auto
      with e p unique show ?thesis using that h(1) by metis
    qed
  qed
qed

lemma decide_raises:
  assumes "decide P L dr iv g = (Inl e, g')"
  shows "set (g_used_nonces g) \<subseteq> set (g_used_nonces g')"
  using assms by (auto simp: decide_def deny_def conclude_def Let_def split: sum.splits if_splits option.splits)

section \<open>The nonces\<close>

text \<open>The nonce that an answer spent: the one of the presented token, when the verdict is ALLOW.\<close>

type_synonym evaluation = "draw \<times> invocation"

definition spent_nonce :: "token_lib \<Rightarrow> evaluation \<Rightarrow> signed_envelope \<Rightarrow> pystr option" where
  "spent_nonce L r env = (if verdict_of env = Some ALLOW
     then (case iv_capability (snd r) of None \<Rightarrow> None
       | Some cap \<Rightarrow> map_option t_nonce (read_token L (payload cap))) else None)"

lemma verify_token_level: "verify_token P L rq parent env pf = Inr p \<Longrightarrow> level_ok P L rq env pf p"
  unfolding verify_token_def verify_depth_Suc by blast

lemma token_grants_nonce:
  assumes "token_grants P L g iv now p"
  shows "t_nonce p \<notin> set (g_used_nonces g)"
    "\<exists>cap. iv_capability iv = Some cap \<and> read_token L (payload cap) = Some p"
  using assms verify_token_level by (fastforce simp: token_grants_def level_ok_def token_request_of_def)+

interpretation governor_nonces: single_use "\<lambda>(dr, iv). decide P L dr iv" "spent_nonce L"
  "\<lambda>g. set (g_used_nonces g)"
proof unfold_locales
  fix r :: evaluation and s e s'
  assume "(case r of (dr, iv) \<Rightarrow> decide P L dr iv) s = (Inl e, s')"
  then show "set (g_used_nonces s) \<subseteq> set (g_used_nonces s')"
    by (cases r) (auto dest: decide_raises)
next
  fix r :: evaluation and s x s'
  assume "(case r of (dr, iv) \<Rightarrow> decide P L dr iv) s = (Inr x, s')"
  then have "decide P L (fst r) (snd r) s = (Inr x, s')" by (cases r) simp
  then obtain now where "expected_verdict P L s (snd r) now \<noteq> ALLOW \<Longrightarrow> s' = s"
    "\<And>p. token_grants P L s (snd r) now p \<Longrightarrow> expected_verdict P L s (snd r) now = ALLOW \<Longrightarrow>
      s' = s\<lparr>g_used_nonces := t_nonce p # g_used_nonces s\<rparr>" by (rule decide_cases) blast
  then show "set (g_used_nonces s) \<subseteq> set (g_used_nonces s')"
    by (cases "expected_verdict P L s (snd r) now = ALLOW") (auto simp: expected_verdict_def split: if_splits)
next
  fix r :: evaluation and s x s' i
  assume a: "(case r of (dr, iv) \<Rightarrow> decide P L dr iv) s = (Inr x, s')" "spent_nonce L r x = Some i"
  then have "decide P L (fst r) (snd r) s = (Inr x, s')" by (cases r) simp
  then obtain now where now: "verdict_of x = Some (expected_verdict P L s (snd r) now)"
    "\<And>p. token_grants P L s (snd r) now p \<Longrightarrow> expected_verdict P L s (snd r) now = ALLOW \<Longrightarrow>
      s' = s\<lparr>g_used_nonces := t_nonce p # g_used_nonces s\<rparr>" by (rule decide_cases) blast
  from a(2) have allow: "verdict_of x = Some ALLOW" by (auto simp: spent_nonce_def split: if_splits)
  with now(1) obtain p where p: "token_grants P L s (snd r) now p"
    by (auto simp: expected_verdict_def split: if_splits)
  from token_grants_nonce(2) [OF p] a(2) allow have "i = t_nonce p" by (auto simp: spent_nonce_def)
  with token_grants_nonce(1) [OF p] now(2) [OF p] now(1) allow
  show "i \<notin> set (g_used_nonces s) \<and> i \<in> set (g_used_nonces s')" by simp
qed

end
