(* ===== verification/Tokens_Properties.thy ===== *)
theory Tokens_Properties
  imports Tokens_Laws Instances
begin

text \<open>
  What attenuated tokens guarantee: a verified token carries no more than every token above it, a
  subsumed caveat implies the caveat it narrows, and an issued token verifies.
\<close>

section \<open>Subsumed caveats\<close>

lemma registry_expiry: "c_kind c = py ''expiry'' \<Longrightarrow>
    validate_caveat P c = v_expiry P (c_params c) \<and> evaluate_caveat P c p ctx now u = e_expiry P c p ctx now u"
  by (simp add: validate_caveat_def evaluate_caveat_def caveat_registry_def)

lemma registry_uses: "c_kind c = py ''uses'' \<Longrightarrow>
    validate_caveat P c = v_uses (c_params c) \<and> evaluate_caveat P c p ctx now u = e_uses c p ctx now u"
  by (simp add: validate_caveat_def evaluate_caveat_def caveat_registry_def)

lemma registry_http: "c_kind c = py ''http_allowlist'' \<Longrightarrow>
    validate_caveat P c = v_http_allowlist (c_params c) \<and>
    evaluate_caveat P c p ctx now u = e_http_allowlist c p ctx now u"
  by (simp add: validate_caveat_def evaluate_caveat_def caveat_registry_def)

lemma registry_prefix: "c_kind c = py ''resource_prefix'' \<Longrightarrow>
    validate_caveat P c = v_resource_prefix (c_params c) \<and>
    evaluate_caveat P c p ctx now u = e_resource_prefix c p ctx now u"
  by (simp add: validate_caveat_def evaluate_caveat_def caveat_registry_def)

lemma registry_spend: "c_kind c = py ''spend_limit'' \<Longrightarrow>
    validate_caveat P c = v_spend_limit (c_params c) \<and>
    evaluate_caveat P c p ctx now u = e_spend_limit c p ctx now u"
  by (simp add: validate_caveat_def evaluate_caveat_def caveat_registry_def)

lemmas registry = registry_expiry registry_uses registry_http registry_prefix registry_spend

lemma validated_kind: "validate_caveat P c = Inr () \<Longrightarrow>
    c_kind c \<in> {py ''expiry'', py ''uses'', py ''http_allowlist'', py ''resource_prefix'', py ''spend_limit''}"
  by (auto simp: validate_caveat_def caveat_registry_def split: option.splits if_splits)

lemma json_get_neq: "json_get d k JNull \<noteq> JNull \<Longrightarrow> map_of d k = Some (json_get d k JNull)"
  by (auto simp: json_get_def split: option.splits)

lemma expiry_implies:
  assumes "sub_expiry P pc cc = Inr ()" "e_expiry P cc p ctx now u = Inr ()"
    and "v_expiry P (c_params pc) = Inr ()"
  shows "e_expiry P pc p ctx now u = Inr ()"
proof -
  have trans: "dt_less pd cd = Inr False \<Longrightarrow> dt_less cd now = Inr False \<Longrightarrow> dt_less pd now = Inr False" for pd cd
    by (auto simp: dt_less_def split: datetime.splits)
  from assms(1) obtain cv cd pv pd where sub: "map_of (c_params cc) (py ''expires_at'') = Some cv"
    "parse_aware_iso P cv = Inr cd" "map_of (c_params pc) (py ''expires_at'') = Some pv"
    "parse_aware_iso P pv = Inr pd" "dt_less pd cd = Inr False"
    unfolding sub_expiry_def by (auto simp: json_item_def)
  moreover have "dt_less cd now = Inr False"
    using assms(2) sub(1,2) unfolding e_expiry_def by (auto simp: json_item_def)
  ultimately show ?thesis using trans unfolding e_expiry_def by (simp add: json_item_def)
qed

lemma uses_implies:
  assumes "sub_item_le (py ''max_uses'') msg pc cc = Inr ()" "e_uses cc p ctx now u = Inr ()"
    and "v_uses (c_params pc) = Inr ()" "v_uses (c_params cc) = Inr ()"
    and "map_of (c_params cc) (py ''max_uses'') \<noteq> Some (JInt 1)"
  shows "e_uses pc p ctx now u = Inr ()"
proof -
  obtain m where m: "map_of (c_params pc) (py ''max_uses'') = Some (JInt m)" "1 \<le> m"
    using assms(3) by (auto simp: v_uses_def json_get_def split: json.splits option.splits)
  obtain n where n: "map_of (c_params cc) (py ''max_uses'') = Some (JInt n)" "1 \<le> n"
    using assms(4) by (auto simp: v_uses_def json_get_def split: json.splits option.splits)
  have "n \<noteq> 1" "n \<le> m" using assms(1,5) m n by (auto simp: sub_item_le_def json_item_def)
  with assms(2) m n show ?thesis
    by (auto simp: e_uses_def json_item_def split: json.splits)
qed

lemma py_set_strings [simp]: "list_all nonempty_str vs \<Longrightarrow> py_set (JArr vs) = Inr vs"
  by (auto simp: py_set_def list_all_iff require_def nonempty_str_iff)

text \<open>The two lists of a validated allowlist.\<close>

lemma validated_http:
  assumes "v_http_allowlist d = Inr ()" "k = py ''hosts'' \<or> k = py ''urls''" "map_of d k = Some v"
  obtains vs where "v = JArr vs" "list_all nonempty_str vs"
  using assms by (auto simp: v_http_allowlist_def json_get_def split: json.splits option.splits)

lemma dimension_subset:
  assumes "sub_dimension pc cc k = Inr ()" "k = py ''hosts'' \<or> k = py ''urls''"
    and "v_http_allowlist (c_params pc) = Inr ()" "v_http_allowlist (c_params cc) = Inr ()"
    and "map_of (c_params pc) k = Some pv"
  obtains ps cs where "pv = JArr ps" "map_of (c_params cc) k = Some (JArr cs)" "set cs \<subseteq> set ps"
    "list_all nonempty_str ps"
proof -
  obtain ps where ps: "pv = JArr ps" "list_all nonempty_str ps"
    using validated_http [OF assms(3,2,5)] by blast
  obtain cv where cv: "map_of (c_params cc) k = Some cv"
    using assms(1,5) by (auto simp: sub_dimension_def split: option.splits)
  obtain cs where cs: "cv = JArr cs" "list_all nonempty_str cs"
    using validated_http [OF assms(4,2) cv] by blast
  have "json_subset cs ps" using assms(1,5) cv cs ps by (auto simp: sub_dimension_def)
  then have "set cs \<subseteq> set ps" using cs(2) by (auto simp: list_all_iff nonempty_str_iff dest: json_subset_JStr)
  with ps cs cv show ?thesis using that by blast
qed

lemma any_url_prefix_iff:
  "list_all nonempty_str as \<Longrightarrow>
    any_url_prefix as url = Inr (\<exists>s. JStr s \<in> set as \<and> url_prefix_ok s url)"
  by (induction as) (auto simp: nonempty_str_iff)

lemma http_implies:
  assumes sub: "for_each (sub_dimension pc cc) [py ''hosts'', py ''urls''] = Inr ()"
    and val: "v_http_allowlist (c_params pc) = Inr ()" "v_http_allowlist (c_params cc) = Inr ()"
    and ev: "e_http_allowlist cc p ctx now u = Inr ()"
  shows "e_http_allowlist pc p ctx now u = Inr ()"
proof -
  have hosts: "e_http_hosts pc ctx = Inr ()"
  proof (cases "map_of (c_params pc) (py ''hosts'')")
    case (Some pv)
    obtain ps cs where d: "pv = JArr ps" "map_of (c_params cc) (py ''hosts'') = Some (JArr cs)"
      "set cs \<subseteq> set ps" using dimension_subset [OF _ _ val Some] sub
      by (metis for_each_eq_Inr list.set_intros(1))
    with ev Some show ?thesis
      by (auto simp: e_http_allowlist_def e_http_hosts_def split: json.splits)
  qed (simp add: e_http_hosts_def)
  have urls: "e_http_urls pc ctx = Inr ()"
  proof (cases "map_of (c_params pc) (py ''urls'')")
    case (Some pv)
    obtain ps cs where d: "pv = JArr ps" "map_of (c_params cc) (py ''urls'') = Some (JArr cs)"
      "set cs \<subseteq> set ps" "list_all nonempty_str ps"
      using dimension_subset [OF _ _ val Some] sub by (metis for_each_eq_Inr list.set_intros)
    have "list_all nonempty_str cs" using d(3,4) by (auto simp: list_all_iff)
    with ev Some d show ?thesis
      by (fastforce simp: e_http_allowlist_def e_http_urls_def any_url_prefix_iff split: json.splits)
  qed (simp add: e_http_urls_def)
  show ?thesis by (simp add: e_http_allowlist_def hosts urls)
qed

lemma prefix_implies:
  assumes "sub_prefix pc cc = Inr ()" "v_resource_prefix (c_params pc) = Inr ()"
    "v_resource_prefix (c_params cc) = Inr ()" "e_resource_prefix cc p ctx now u = Inr ()"
  shows "e_resource_prefix pc p ctx now u = Inr ()"
proof -
  have str: "v_resource_prefix d = Inr () \<Longrightarrow> \<exists>s. map_of d (py ''prefix'') = Some (JStr s)" for d
    by (auto simp: v_resource_prefix_def json_get_def nonempty_str_iff split: option.splits)
  obtain s t where s: "map_of (c_params pc) (py ''prefix'') = Some (JStr s)"
    "map_of (c_params cc) (py ''prefix'') = Some (JStr t)" using str assms(2,3) by blast
  have val: "prefix_at_boundary_val (JStr a) (JStr b) = Inr (is_prefix_at_boundary a b)" for a b
    by (simp add: prefix_at_boundary_val_def)
  have "is_prefix_at_boundary s t" using assms(1) s by (simp add: sub_prefix_def json_item_def val)
  with assms(4) s show ?thesis
    by (auto simp: e_resource_prefix_def json_item_def val split: json.splits
        intro: is_prefix_at_boundary_trans)
qed

lemma amount_is_number: "is_amount v \<Longrightarrow> is_number v"
  by (auto simp: is_amount_def split: json.splits)

lemma spend_implies:
  assumes sub: "sub_currency pc cc = Inr ()" "sub_item_le (py ''max_amount'') msg pc cc = Inr ()"
    and val: "v_spend_limit (c_params pc) = Inr ()" "v_spend_limit (c_params cc) = Inr ()"
    and num: "num_key (json_get (c_params cc) (py ''max_amount'') JNull) \<noteq> None"
    and ev: "e_spend_limit cc p ctx now u = Inr ()"
  shows "e_spend_limit pc p ctx now u = Inr ()"
proof -
  have amount: "v_spend_limit d = Inr () \<Longrightarrow> \<exists>v. map_of d (py ''max_amount'') = Some v \<and> is_amount v" for d
    by (auto simp: v_spend_limit_def json_get_def is_amount_def Let_def split: option.splits)
  obtain m n where m: "map_of (c_params pc) (py ''max_amount'') = Some m" "is_amount m"
    and n: "map_of (c_params cc) (py ''max_amount'') = Some n" "is_amount n" using amount val by blast
  have mn: "\<not> num_less m n" "num_key n \<noteq> None"
    using sub(2) num m n by (auto simp: sub_item_le_def json_item_def json_get_def amount_is_number)
  obtain x where x: "map_of ctx (py ''spend_amount'') = Some x" "is_amount x" "\<not> num_less n x"
    and cur: "\<And>c. map_of (c_params cc) (py ''currency'') = Some c \<Longrightarrow>
      json_eq (json_get ctx (py ''spend_currency'') JNull) c"
    using ev n by (auto simp: e_spend_limit_def json_item_def amount_is_number split: option.splits)
  have "json_eq (json_get ctx (py ''spend_currency'') JNull) c"
    if c: "map_of (c_params pc) (py ''currency'') = Some c" for c
  proof -
    obtain s where "c = JStr s" using val(1) c by (auto simp: v_spend_limit_def Let_def nonempty_str_iff)
    with sub(1) c have "map_of (c_params cc) (py ''currency'') = Some c"
      by (auto simp: sub_currency_def json_get_def split: option.splits)
    with cur show ?thesis by blast
  qed
  with x m n mn num_not_less_trans [of n x m] show ?thesis
    by (auto simp: e_spend_limit_def json_item_def amount_is_number split: option.splits)
qed

section \<open>Issued tokens\<close>

text \<open>The round trip of pydantic on this model: a payload with UTC times is read back from its
  dump.\<close>

definition utc_window :: "token \<Rightarrow> bool" where
  "utc_window t \<longleftrightarrow> (\<exists>nb ea. t_not_before t = Aware nb 0 \<and> t_expires_at t = Aware ea 0)"

definition token_lib_ok :: "token_lib \<Rightarrow> bool" where
  "token_lib_ok L \<longleftrightarrow> (\<forall>t. token_fields_ok t \<and> utc_window t \<longrightarrow> read_token L (token_dump L t) = Some t)"

lemma sha256_hex_ascii: "sha256_hex P v = Inr h \<Longrightarrow> list_all (\<lambda>c. c < 128) h"
proof -
  have "list_all (\<lambda>c. c < 128) (to_hex b)" for b
  proof (induction b)
    case (Cons x b)
    have "unat x div 16 < 16" using unat_byte_lt [of x] by linarith
    moreover have "n < 16 \<Longrightarrow> hex_digit n < 128" for n by (simp add: hex_digit_def)
    ultimately show ?case using Cons by simp
  qed simp
  then show "sha256_hex P v = Inr h \<Longrightarrow> list_all (\<lambda>c. c < 128) h" by (auto simp: sha256_hex_def)
qed

lemma issue_token_ok:
  assumes "issue_token P L nonce issuer a = Inr env" "token_lib_ok L"
  obtains p nb zn ea ze where "sign_payload P issuer (token_dump L p) = Inr env"
    "read_token L (token_dump L p) = Some p" "ta_not_before a = Aware nb zn" "ta_expires_at a = Aware ea ze"
    "sha256_hex P (JObj (ta_invocation_params a)) = Inr (parameters_hash p)"
    "p = \<lparr>t_version = 2, t_capability_id = ta_capability_id a, t_issuer = key_id issuer,
       subject = ta_subject a, audience = ta_audience a, action = ta_action a, resource = ta_resource a,
       parameters_hash = parameters_hash p, caveats = ta_caveats a, t_not_before = Aware nb 0,
       t_expires_at = Aware ea 0, t_nonce = nonce, parent_token_hash = None,
       constitution_hash = ta_constitution_hash a\<rparr>"
proof -
  from assms(1) obtain nb zn ea ze h p where i: "ta_not_before a = Aware nb zn" "ta_expires_at a = Aware ea ze"
    "sha256_hex P (JObj (ta_invocation_params a)) = Inr h" "token_fields_ok p"
    "sign_payload P issuer (token_dump L p) = Inr env"
    "p = \<lparr>t_version = token_version, t_capability_id = ta_capability_id a, t_issuer = key_id issuer,
       subject = ta_subject a, audience = ta_audience a, action = ta_action a, resource = ta_resource a,
       parameters_hash = h, caveats = ta_caveats a, t_not_before = Aware nb 0, t_expires_at = Aware ea 0,
       t_nonce = nonce, parent_token_hash = None, constitution_hash = ta_constitution_hash a\<rparr>"
    unfolding issue_token_def make_token_def rbind_eq_Inr require_eq_Inr require_aware_eq_Inr by auto
  then have "read_token L (token_dump L p) = Some p"
    using assms(2) unfolding token_lib_ok_def utc_window_def by auto
  with i show ?thesis using that by (simp add: token_version_def)
qed

text \<open>The circumstances in which a token was issued to be accepted: the holder it names presents it,
  to an enforcement point that trusts the issuer, for the invocation, in the window, with a fresh
  nonce, to the audience, in a context that satisfies the caveats.\<close>

definition presented_for :: "prims \<Rightarrow> token_request \<Rightarrow> signer \<Rightarrow> signer \<Rightarrow> pystr \<Rightarrow> token_args \<Rightarrow> bool" where
  "presented_for P rq issuer holder nonce a \<longleftrightarrow>
     b64_strict P (ta_subject a) = Some (public_key_bytes holder) \<and>
     trusted_issuers rq (key_id issuer) = Some (public_key_bytes issuer) \<and>
     invocation_params rq = ta_invocation_params a \<and>
     (\<exists>t z. rq_now rq = Aware t z \<and> as_utc (ta_not_before a) \<le> t \<and> t \<le> as_utc (ta_expires_at a) \<and>
        (\<forall>c \<in> set (ta_caveats a). \<forall>p. resource p = ta_resource a \<longrightarrow>
           evaluate_caveat P c p (eval_context rq) (Aware t 0) (used_nonces rq) = Inr ())) \<and>
     (\<forall>ns. used_nonces rq = Some ns \<longrightarrow> nonce \<notin> set ns) \<and>
     (\<forall>au. expected_audience rq = Some au \<longrightarrow> au = ta_audience a)"

lemma issued_level_ok:
  assumes "prims_ok P" "signer_ok P issuer" "signer_ok P holder" "token_lib_ok L"
    and issue: "issue_token P L nonce issuer a = Inr env"
    and proof_: "token_holder_proof P holder (ta_capability_id a) nonce = Inr pf"
    and "presented_for P rq issuer holder nonce a"
  shows "\<exists>p. level_ok P L rq env pf p \<and> parent_token_hash p = None \<and> t_capability_id p = ta_capability_id a \<and>
    action p = ta_action a \<and> resource p = ta_resource a \<and> caveats p = ta_caveats a \<and>
    audience p = ta_audience a \<and> constitution_hash p = ta_constitution_hash a"
proof -
  from assms(7) obtain t z where req: "b64_strict P (ta_subject a) = Some (public_key_bytes holder)"
    "trusted_issuers rq (key_id issuer) = Some (public_key_bytes issuer)"
    "invocation_params rq = ta_invocation_params a" "rq_now rq = Aware t z"
    "as_utc (ta_not_before a) \<le> t" "t \<le> as_utc (ta_expires_at a)"
    "\<forall>ns. used_nonces rq = Some ns \<longrightarrow> nonce \<notin> set ns"
    "\<forall>au. expected_audience rq = Some au \<longrightarrow> au = ta_audience a"
    and cavs: "\<And>c p. c \<in> set (ta_caveats a) \<Longrightarrow> resource p = ta_resource a \<Longrightarrow>
      evaluate_caveat P c p (eval_context rq) (Aware t 0) (used_nonces rq) = Inr ()"
    unfolding presented_for_def by blast
  obtain p nb zn ea ze where p: "sign_payload P issuer (token_dump L p) = Inr env"
    "read_token L (token_dump L p) = Some p" "ta_not_before a = Aware nb zn" "ta_expires_at a = Aware ea ze"
    "sha256_hex P (JObj (ta_invocation_params a)) = Inr (parameters_hash p)"
    and f: "p = \<lparr>t_version = 2, t_capability_id = ta_capability_id a, t_issuer = key_id issuer,
       subject = ta_subject a, audience = ta_audience a, action = ta_action a, resource = ta_resource a,
       parameters_hash = parameters_hash p, caveats = ta_caveats a, t_not_before = Aware nb 0,
       t_expires_at = Aware ea 0, t_nonce = nonce, parent_token_hash = None,
       constitution_hash = ta_constitution_hash a\<rparr>" using issue_token_ok [OF issue assms(4)] by metis
  have sel: "t_version p = 2" "t_capability_id p = ta_capability_id a" "t_issuer p = key_id issuer"
    "subject p = ta_subject a" "audience p = ta_audience a" "action p = ta_action a"
    "resource p = ta_resource a" "caveats p = ta_caveats a" "t_not_before p = Aware nb 0"
    "t_expires_at p = Aware ea 0" "t_nonce p = nonce" "parent_token_hash p = None"
    "constitution_hash p = ta_constitution_hash a" by (subst f, simp)+
  have env: "env_key_id env = key_id issuer" "payload env = token_dump L p"
    "verify_envelope P env (public_key_bytes issuer) = Inr (payload env)"
    using sign_payload_ok [OF p(1)] verify_signed_payload [OF assms(1,2) p(1)] by auto
  have pf: "payload pf = [(py ''capability_id'', JStr (ta_capability_id a)), (py ''nonce'', JStr nonce)]"
    "verify_envelope P pf (public_key_bytes holder) = Inr (payload pf)"
    using sign_payload_ok(2) [OF proof_ [unfolded token_holder_proof_def]]
      verify_signed_payload [OF assms(1,3) proof_ [unfolded token_holder_proof_def]] by auto
  have "resolve_holder_pubkey P (subject p) (holder_keys rq) = Inr (public_key_bytes holder)"
    using assms(3) req(1) sel by (simp add: resolve_holder_pubkey_def signer_ok_def)
  moreover have "json_eq (JObj (payload pf)) (JObj [(py ''capability_id'', JStr (t_capability_id p)),
      (py ''nonce'', JStr (t_nonce p))])" by (simp add: pf sel)
  ultimately have "level_ok P L rq env pf p"
    unfolding level_ok_def using req cavs sel env pf p sha256_hex_ascii [OF p(5)] by auto
  with sel show ?thesis by blast
qed

lemma root_verifies:
  "level_ok P L rq env pf p \<Longrightarrow> parent_token_hash p = None \<Longrightarrow> verify_token P L rq parent env pf = Inr p"
  unfolding verify_token_def verify_depth_Suc by simp

section \<open>An instance\<close>

text \<open>A reader of dumped payloads for the concrete primitives.\<close>

definition str_at :: "jdict \<Rightarrow> string \<Rightarrow> pystr" where
  "str_at d k = (case map_of d (py k) of Some v \<Rightarrow> (case v of JStr s \<Rightarrow> s | _ \<Rightarrow> []) | None \<Rightarrow> [])"

fun read_caveat :: "json \<Rightarrow> caveat" where
  "read_caveat (JObj d) = \<lparr>c_kind = str_at d ''kind'',
     c_params = (case map_of d (py ''params'') of Some v \<Rightarrow> (case v of JObj e \<Rightarrow> e | _ \<Rightarrow> []) | None \<Rightarrow> [])\<rparr>"
| "read_caveat _ = \<lparr>c_kind = [], c_params = []\<rparr>"

definition toy_read_token :: "jdict \<Rightarrow> token" where
  "toy_read_token d = \<lparr>
     t_version = (case map_of d (py ''version'') of Some v \<Rightarrow> (case v of JInt n \<Rightarrow> n | _ \<Rightarrow> 0) | None \<Rightarrow> 0),
     t_capability_id = str_at d ''capability_id'', t_issuer = str_at d ''issuer'',
     subject = str_at d ''subject'', audience = str_at d ''audience'', action = str_at d ''action'',
     resource = str_at d ''resource'', parameters_hash = str_at d ''parameters_hash'',
     caveats = (case map_of d (py ''caveats'') of
        Some v \<Rightarrow> (case v of JArr cs \<Rightarrow> map read_caveat cs | _ \<Rightarrow> []) | None \<Rightarrow> []),
     t_not_before = Aware (text_int (str_at d ''not_before'')) 0,
     t_expires_at = Aware (text_int (str_at d ''expires_at'')) 0, t_nonce = str_at d ''nonce'',
     parent_token_hash = (case map_of d (py ''parent_token_hash'') of
        Some v \<Rightarrow> (case v of JStr s \<Rightarrow> Some s | _ \<Rightarrow> None) | None \<Rightarrow> None),
     constitution_hash = str_at d ''constitution_hash''\<rparr>"

definition toy_token_lib :: token_lib where
  "toy_token_lib = \<lparr>dt_text = (\<lambda>d. int_text (as_utc d)), read_token = (\<lambda>d. Some (toy_read_token d))\<rparr>"

lemma read_caveat_json [simp]: "read_caveat (caveat_json c) = c"
  by (simp add: caveat_json_def str_at_def)

lemma toy_token_lib_ok [simp]: "token_lib_ok toy_token_lib"
proof -
  have "toy_read_token (token_dump toy_token_lib t) = t" if "utc_window t" for t
    using that by (cases t) (auto simp: toy_read_token_def token_dump_def toy_token_lib_def str_at_def
      utc_window_def comp_def split: option.splits)
  then show ?thesis by (simp add: token_lib_ok_def toy_token_lib_def)
qed

definition demo_caveat :: "int \<Rightarrow> caveat" where
  "demo_caveat n = \<lparr>c_kind = py ''uses'', c_params = [(py ''max_uses'', JInt n)]\<rparr>"

definition demo_targs :: "pystr \<Rightarrow> caveat list \<Rightarrow> token_args" where
  "demo_targs h cs = \<lparr>ta_capability_id = py ''t1'', ta_subject = to_hex (replicate 32 9), ta_audience = py ''shell'',
     ta_action = py ''run'', ta_resource = py ''ws'', ta_invocation_params = [(py ''n'', JInt 1)],
     ta_caveats = cs, ta_not_before = Aware 0 0, ta_expires_at = Aware 100 0,
     ta_constitution_hash = h\<rparr>"

definition demo_request :: "token_request" where
  "demo_request = \<lparr>invocation_params = [(py ''n'', JInt 1)], rq_now = Aware 50 0,
     trusted_issuers = [py ''i'' \<mapsto> replicate 32 1], used_nonces = Some [], token_chain = Map.empty,
     holder_proofs = Map.empty, holder_keys = Map.empty, rq_context = [],
     expected_audience = Some (py ''shell'')\<rparr>"

lemma demo_caveat_simps [simp]:
  "validate_caveat P (demo_caveat n) = (if 1 \<le> n then Inr ()
     else raise ValueError ''uses caveat requires params.max_uses (int >= 1)'')"
  "1 < n \<Longrightarrow> evaluate_caveat P (demo_caveat n) p [(py ''n'', JInt 1)] now u = Inr ()"
  by (simp_all add: demo_caveat_def registry_uses v_uses_def e_uses_def json_get_def json_item_def require_def)

lemma sign_payload_total: "json_ok P (JObj d) \<Longrightarrow> \<exists>env. sign_payload P sg d = Inr env"
  using canonical_total [of P "JObj d"] by (auto simp: sign_payload_def)

lemma json_ok_caveats: "\<forall>n \<in> set ns. json_ok P (JObj (c_params n)) \<and> text_ok (c_kind n) \<Longrightarrow>
    json_ok_items P (map caveat_json ns)"
  by (induction ns) (auto simp: caveat_json_def)

lemma demo_issued: "\<forall>n \<in> set ns. 1 \<le> n \<Longrightarrow> text_ok h \<Longrightarrow> h \<noteq> [] \<Longrightarrow>
    \<exists>env. issue_token toy toy_token_lib (py ''n1'') (toy_signer ''i'' 1) (demo_targs h (map demo_caveat ns)) = Inr env"
proof -
  assume ns: "\<forall>n \<in> set ns. 1 \<le> n" and h: "text_ok h" "h \<noteq> []"
  obtain b where b: "sha256_hex toy (JObj [(py ''n'', JInt 1)]) = Inr (to_hex b)"
    using canonical_total [of toy "JObj [(py ''n'', JInt 1)]"] by (auto simp: sha256_hex_def)
  have b_ne: "to_hex b \<noteq> []"
    using b by (auto simp: sha256_hex_def simp del: to_hex.simps)
  have "json_ok_items toy (map (caveat_json \<circ> demo_caveat) ns)"
    using json_ok_caveats [of "map demo_caveat ns" toy] by (simp add: demo_caveat_def)
  with ns h b b_ne show ?thesis
    unfolding issue_token_def make_token_def
    by (auto simp: demo_targs_def dt_less_def require_aware_def token_fields_ok_def
        token_dump_def toy_token_lib_def simp del: to_hex.simps intro!: sign_payload_total)
qed

lemma demo_presented:
  "\<forall>n \<in> set ns. 1 < n \<Longrightarrow>
    presented_for toy demo_request (toy_signer ''i'' 1) (toy_signer ''h'' 9) (py ''n1'') (demo_targs h (map demo_caveat ns))"
  by (auto simp: presented_for_def demo_targs_def demo_request_def eval_context_def json_merge_def json_get_def
      simp del: to_hex.simps)

lemma demo_token_proof: "\<exists>pf. token_holder_proof toy (toy_signer ''h'' 9) (py ''t1'') (py ''n1'') = Inr pf"
  unfolding token_holder_proof_def by (rule sign_payload_total) simp

lemma demo_level: "\<exists>env pf p. level_ok toy toy_token_lib demo_request env pf p \<and> parent_token_hash p = None \<and>
    issue_token toy toy_token_lib (py ''n1'') (toy_signer ''i'' 1) (demo_targs (py ''c'') [demo_caveat 3]) = Inr env"
proof -
  obtain env where env: "issue_token toy toy_token_lib (py ''n1'') (toy_signer ''i'' 1)
      (demo_targs (py ''c'') (map demo_caveat [3])) = Inr env" using demo_issued [of "[3]" "py ''c''"] by auto
  have "ta_capability_id (demo_targs (py ''c'') (map demo_caveat [3])) = py ''t1''" by (simp add: demo_targs_def)
  then obtain pf where pf: "token_holder_proof toy (toy_signer ''h'' 9)
      (ta_capability_id (demo_targs (py ''c'') (map demo_caveat [3]))) (py ''n1'') = Inr pf" using demo_token_proof by metis
  have "presented_for toy demo_request (toy_signer ''i'' 1) (toy_signer ''h'' 9) (py ''n1'')
      (demo_targs (py ''c'') (map demo_caveat [3]))" by (rule demo_presented) simp
  from issued_level_ok [OF toy_ok toy_signer_ok toy_signer_ok toy_token_lib_ok env pf this] env
  show ?thesis by auto
qed

section \<open>Properties\<close>

text \<open>C12: a verified token holds no more authority than any token above it. An accepted token heads a
  chain of at most nine tokens, in which every token names the envelope of the next by its hash (the envelope
  handed over with the presented token, if that is its hash, or the entry of the supplied chain under the hash), and the
  last one has no parent; each of them is signed by a trusted issuer, inside its validity window, presented with the
  proof of its holder, bound to the invocation and with every caveat satisfied; and the accepted token has the same
  action, audience, invocation and constitution as each of them, a resource and a window within theirs, and a caveat of
  every kind that one of them has.\<close>

theorem verified_token_authority:
  assumes "verify_token P L rq parent env pf = Inr p"
  shows "\<exists>ls. chain_linked P rq parent ((env, pf, p) # ls) \<and> length ((env, pf, p) # ls) \<le> 9 \<and>
    (\<forall>(e, pr, q) \<in> set ((env, pf, p) # ls). level_ok P L rq e pr q \<and> token_within p q \<and>
       (\<forall>u. token_permits p u \<longrightarrow> token_permits q u))"
proof -
  from assms have "verify_depth 9 P L rq parent env pf = Inr p"
    by (simp add: verify_token_def max_chain_depth_def)
  from verify_depth_chain [OF this] obtain ls where ls: "chain_linked P rq parent ((env, pf, p) # ls)" "length ls < 9"
    "\<forall>(e, pr, q) \<in> set ((env, pf, p) # ls). level_ok P L rq e pr q" by blast
  let ?ls = "(env, pf, p) # ls"
  let ?qs = "map (\<lambda>l. snd (snd l)) ls"
  have "successively token_within (p # ?qs)"
    by (rule successively_mono [OF linked_subsumed [OF ls(1), simplified list.map snd_conv]]) (rule check_subsumption_ok(1))
  then have within: "token_within p q \<and> (\<forall>u. token_permits p u \<longrightarrow> token_permits q u)" if "q \<in> set (p # ?qs)" for q
    using tokens.first_within_all that tokens.first_permits by blast
  have "token_within p q \<and> (\<forall>u. token_permits p u \<longrightarrow> token_permits q u)" if "(e, pr, q) \<in> set ?ls" for e pr q
  proof (rule within)
    from that have "snd (snd (e, pr, q)) \<in> (\<lambda>l. snd (snd l)) ` set ?ls" by (rule imageI)
    then show "q \<in> set (p # ?qs)" by simp
  qed
  with ls(3) have "\<forall>(e, pr, q) \<in> set ?ls. level_ok P L rq e pr q \<and> token_within p q \<and>
      (\<forall>u. token_permits p u \<longrightarrow> token_permits q u)" by blast
  with ls(1,2) show ?thesis by (intro exI [of _ ls] conjI) simp_all
qed

theorem verified_token_authority_witness:
  "\<exists>env pf p ls. verify_token toy toy_token_lib demo_request None env pf = Inr p \<and>
     chain_linked toy demo_request None ((env, pf, p) # ls) \<and> (\<forall>(e, pr, q) \<in> set ls. token_within p q)"
proof -
  obtain env pf p where "level_ok toy toy_token_lib demo_request env pf p" "parent_token_hash p = None"
    using demo_level by blast
  then have v: "verify_token toy toy_token_lib demo_request None env pf = Inr p" by (rule root_verifies)
  from verified_token_authority [OF v] obtain ls where "chain_linked toy demo_request None ((env, pf, p) # ls)"
    "\<forall>(e, pr, q) \<in> set ls. token_within p q" by fastforce
  with v show ?thesis by blast
qed

text \<open>The subsumption check of caveats is sound. A valid caveat that the check finds as tight as
  another valid one of its kind implies it: in every context in which the child's caveat holds the
  parent's holds too. The one exception is a child limited to a single use, which does not count
  uses at all; the limit of a spend caveat has to be a number.\<close>

theorem subsumed_caveat_implies:
  assumes "check_caveat_subsumed P pc cc = Inr ()" "c_kind cc = c_kind pc"
    and "validate_caveat P pc = Inr ()" "validate_caveat P cc = Inr ()"
    and "c_kind pc = py ''uses'' \<Longrightarrow> map_of (c_params cc) (py ''max_uses'') \<noteq> Some (JInt 1)"
    and "c_kind pc = py ''spend_limit'' \<Longrightarrow> num_key (json_get (c_params cc) (py ''max_amount'') JNull) \<noteq> None"
    and "evaluate_caveat P cc p ctx now u = Inr ()"
  shows "evaluate_caveat P pc p ctx now u = Inr ()"
proof -
  note reg = registry [of pc P p ctx now u] registry [of cc P p ctx now u]
  from validated_kind [OF assms(3)] consider (e) "c_kind pc = py ''expiry''" | (u) "c_kind pc = py ''uses''"
    | (h) "c_kind pc = py ''http_allowlist''" | (r) "c_kind pc = py ''resource_prefix''"
    | (s) "c_kind pc = py ''spend_limit''" by blast
  then show ?thesis
  proof cases
    case e
    with assms reg show ?thesis by (auto simp: check_caveat_subsumed_def intro: expiry_implies)
  next
    case u
    with assms reg show ?thesis by (auto simp: check_caveat_subsumed_def intro: uses_implies)
  next
    case h
    with assms reg show ?thesis
      by (auto simp: check_caveat_subsumed_def simp del: for_each.simps for_each_eq_Inr intro: http_implies)
  next
    case r
    with assms reg show ?thesis by (auto simp: check_caveat_subsumed_def intro: prefix_implies)
  next
    case s
    with assms reg show ?thesis by (auto simp: check_caveat_subsumed_def intro: spend_implies)
  qed
qed

theorem subsumed_caveat_implies_witness:
  "\<forall>p. evaluate_caveat toy (demo_caveat 5) p [(py ''n'', JInt 1)] (Aware 0 0) None = Inr ()"
proof (rule allI, rule subsumed_caveat_implies [of toy _ "demo_caveat 3"])
  show "check_caveat_subsumed toy (demo_caveat 5) (demo_caveat 3) = Inr ()"
    by (simp add: demo_caveat_def check_caveat_subsumed_def sub_item_le_def json_item_def)
  show "evaluate_caveat toy (demo_caveat 3) p [(py ''n'', JInt 1)] (Aware 0 0) None = Inr ()" for p
    by simp
qed (simp_all, simp_all add: demo_caveat_def)

text \<open>A token narrowed twice on one kind of caveat cannot be attenuated again: when two caveats of
  one kind differ in strength, every attenuation of the token raises, whatever is asked for.\<close>

theorem narrowed_kind_cannot_delegate:
  assumes "own_parent P L env issuer = Inr parent" "tight \<in> set (caveats parent)" "loose \<in> set (caveats parent)"
    and "c_kind loose = c_kind tight" "check_caveat_subsumed P tight loose = Inl e"
  shows "\<exists>x. attenuate P L rnd env issuer a = Inl x"
proof (rule ccontr)
  assume "\<not> ?thesis"
  then obtain out where "attenuate P L rnd env issuer a = Inr out" by (cases "attenuate P L rnd env issuer a") auto
  then obtain w h where "check_subsumption P (child_fields rnd issuer parent a w h) parent = Inr ()"
    using assms(1) by (auto simp: attenuate_def Let_def make_token_def)
  from check_subsumption_ok(2) [OF this assms(2), of loose] assms show False
    by (simp add: child_fields_def)
qed

theorem narrowed_kind_cannot_delegate_witness:
  "\<exists>env. issue_token toy toy_token_lib (py ''n1'') (toy_signer ''i'' 1)
       (demo_targs (py ''c'') [demo_caveat 5, demo_caveat 3]) = Inr env \<and>
     (\<forall>a. \<exists>x. attenuate toy toy_token_lib ([], py ''n2'') env (toy_signer ''i'' 1) a = Inl x)"
proof -
  obtain env where env: "issue_token toy toy_token_lib (py ''n1'') (toy_signer ''i'' 1)
      (demo_targs (py ''c'') [demo_caveat 5, demo_caveat 3]) = Inr env" using demo_issued [of "[5, 3]" "py ''c''"] by auto
  obtain p where p: "sign_payload toy (toy_signer ''i'' 1) (token_dump toy_token_lib p) = Inr env"
    "read_token toy_token_lib (token_dump toy_token_lib p) = Some p" and c: "caveats p = [demo_caveat 5, demo_caveat 3]"
    using issue_token_ok [OF env toy_token_lib_ok] by (metis (no_types, lifting) demo_targs_def token.select_convs(9) token_args.select_convs(7))
  have "own_parent toy toy_token_lib env (toy_signer ''i'' 1) = Inr p"
    using sign_payload_ok [OF p(1)] verify_signed_payload [OF toy_ok toy_signer_ok p(1)] p(2)
    by (simp add: own_parent_def parse_payload_def)
  moreover have "check_caveat_subsumed toy (demo_caveat 3) (demo_caveat 5) =
      raise AuthorizationError ''subsumption violated: uses widened''"
    by (simp add: demo_caveat_def check_caveat_subsumed_def sub_item_le_def json_item_def)
  ultimately show ?thesis
    using narrowed_kind_cannot_delegate [of toy toy_token_lib env "toy_signer ''i'' 1" p "demo_caveat 3" "demo_caveat 5"]
      env c by (auto simp: demo_caveat_def)
qed

text \<open>A spend limit does not bind an amount that is not a number: whatever the limit, the caveat
  holds for the amount NaN of a context.\<close>

theorem nan_amount_passes_spend_limit:
  "evaluate_caveat P \<lparr>c_kind = py ''spend_limit'', c_params = [(py ''max_amount'', JInt limit)]\<rparr> p
     [(py ''spend_amount'', JFloat nan_f64)] now u = Inr ()"
  by (simp add: registry_spend e_spend_limit_def json_item_def is_amount_def num_less_def)

text \<open>An issued token verifies. Throughout its window, presented with the proof of the holder it
  names, for the invocation it was issued for and in a context that satisfies its caveats, at the
  enforcement point it is for and with a nonce not used before, a root token of a trusted issuer
  is accepted with the authority it was issued with.\<close>

theorem issued_token_verifies:
  assumes "prims_ok P" "signer_ok P issuer" "signer_ok P holder" "token_lib_ok L"
    and "issue_token P L nonce issuer a = Inr env"
    and "token_holder_proof P holder (ta_capability_id a) nonce = Inr pf"
    and "presented_for P rq issuer holder nonce a"
  shows "\<exists>p. verify_token P L rq parent env pf = Inr p \<and> t_capability_id p = ta_capability_id a \<and>
    action p = ta_action a \<and> resource p = ta_resource a \<and> caveats p = ta_caveats a"
  using issued_level_ok [OF assms] root_verifies by blast

theorem issued_token_verifies_witness:
  "\<exists>env pf p. issue_token toy toy_token_lib (py ''n1'') (toy_signer ''i'' 1) (demo_targs (py ''c'') (map demo_caveat [3])) = Inr env \<and>
     verify_token toy toy_token_lib demo_request None env pf = Inr p \<and> action p = py ''run''"
proof -
  obtain env where env: "issue_token toy toy_token_lib (py ''n1'') (toy_signer ''i'' 1)
      (demo_targs (py ''c'') (map demo_caveat [3])) = Inr env" using demo_issued [of "[3]" "py ''c''"] by auto
  have a: "ta_capability_id (demo_targs (py ''c'') (map demo_caveat [3])) = py ''t1''"
    "ta_action (demo_targs (py ''c'') (map demo_caveat [3])) = py ''run''" by (simp_all add: demo_targs_def)
  then obtain pf where pf: "token_holder_proof toy (toy_signer ''h'' 9)
      (ta_capability_id (demo_targs (py ''c'') (map demo_caveat [3]))) (py ''n1'') = Inr pf" using demo_token_proof by metis
  have "presented_for toy demo_request (toy_signer ''i'' 1) (toy_signer ''h'' 9) (py ''n1'')
      (demo_targs (py ''c'') (map demo_caveat [3]))" by (rule demo_presented) simp
  from issued_token_verifies [OF toy_ok toy_signer_ok toy_signer_ok toy_token_lib_ok env pf this, of None] a env
  show ?thesis by (simp del: list.map) blast
qed

end
