(* ===== verification/Planes_Properties.thy ===== *)
theory Planes_Properties
  imports Planes Tokens_Properties
begin

text \<open>
  What the decision core guarantees: the verdict it signs is the one of the policy, and the nonce of
  a token allows at most one invocation, on whatever plane and in whatever order.
\<close>

section \<open>An instance\<close>

definition demo_governor :: governor where
  "demo_governor = new_governor (toy_signer ''g'' 5) [py ''i'' \<mapsto> replicate 32 1] demo_con supported_planes"

definition demo_invocation :: "signed_envelope \<Rightarrow> signed_envelope \<Rightarrow> invocation" where
  "demo_invocation cap pf = \<lparr>iv_plane = py ''shell'', iv_subject = py ''agent'', iv_action = py ''run'',
     iv_resource = py ''ws'', iv_params = [(py ''n'', JInt 1)], iv_constitution = demo_con,
     iv_capability = Some cap, iv_proof = Some pf, iv_now = Some (Aware 50 0)\<rparr>"

definition demo_draw :: draw where
  "demo_draw = \<lparr>dr_clock = 0, dr_id = py ''1'', dr_nonce = py ''d''\<rparr>"

lemma demo_governance: "governance_check (py ''run'') (py ''ws'') demo_con = ALLOW"
  by (simp add: governance_check_def pattern_matches_def deny_patterns_def require_patterns_def
    demo_con_def invariant_pattern_def py_def startswith_def)

lemma demo_allowed:
  obtains env cap pf g' where "decide toy toy_token_lib demo_draw (demo_invocation cap pf) demo_governor = (Inr env, g')"
    "verdict_of env = Some ALLOW"
proof -
  obtain b where b: "content_hash_of toy demo_con = Inr (to_hex b)" using demo_con_hash by blast
  then have b_ne: "to_hex b \<noteq> []"
    by (auto simp: content_hash_of_def sha256_hex_def simp del: to_hex.simps)
  let ?a = "demo_targs (to_hex b) (map demo_caveat [3])"
  obtain cap where cap: "issue_token toy toy_token_lib (py ''n1'') (toy_signer ''i'' 1) ?a = Inr cap"
    using demo_issued [of "[3]", OF _ text_ok_to_hex b_ne] by auto
  have sel: "ta_capability_id ?a = py ''t1''" "ta_audience ?a = py ''shell''" "ta_action ?a = py ''run''"
    "ta_resource ?a = py ''ws''" "ta_constitution_hash ?a = to_hex b" by (simp_all add: demo_targs_def)
  then obtain pf where pf: "token_holder_proof toy (toy_signer ''h'' 9) (ta_capability_id ?a) (py ''n1'') = Inr pf"
    using demo_token_proof by metis
  let ?rq = "token_request_of demo_governor (demo_invocation cap pf) 50"
  have "presented_for toy ?rq (toy_signer ''i'' 1) (toy_signer ''h'' 9) (py ''n1'') ?a"
    by (simp add: presented_for_def demo_targs_def token_request_of_def demo_governor_def new_governor_def
      demo_invocation_def eval_context_def json_merge_def json_get_def del: to_hex.simps replicate.simps)
  note args = toy_ok toy_signer_ok toy_signer_ok toy_token_lib_ok cap pf this
  obtain p where p: "level_ok toy toy_token_lib ?rq cap pf p" "parent_token_hash p = None"
    "audience p = py ''shell''" "action p = py ''run''" "resource p = py ''ws''" "constitution_hash p = to_hex b"
    using issued_level_ok [OF args] sel by auto
  have "verify_token toy toy_token_lib ?rq None cap pf = Inr p" by (rule root_verifies [OF p(1,2)])
  then have grants: "check_token toy toy_token_lib demo_governor (demo_invocation cap pf) 50 (to_hex b) = Inr p"
    using p by (simp add: check_token_def check_bindings_def demo_invocation_def del: to_hex.simps)
  let ?iv = "demo_invocation cap pf"
  obtain c where c: "sha256_hex toy (JObj (iv_params ?iv)) = Inr (to_hex c)" "to_hex c \<noteq> []"
    using canonical_total [of toy "JObj (iv_params ?iv)"]
    by (auto simp: sha256_hex_def demo_invocation_def simp del: to_hex.simps)
  obtain th where th: "token_hash toy cap = Inr (to_hex th)"
    using p(1) by (auto simp: level_ok_def verify_envelope_ok token_hash_def sha256_hex_def)
  have cid: "text_ok (t_capability_id p)"
    using issued_level_ok [OF args] sel p(1) by (auto simp: level_ok_def)
  let ?d = "make_decision demo_draw ?iv 50 (to_hex c) ALLOW [(py ''constitution_hash'', to_hex b),
      (py ''capability_id'', t_capability_id p), (py ''token_hash'', to_hex th)]"
  have "\<exists>env. sign_payload toy (toy_signer ''g'' 5) (decision_dump toy ?d) = Inr env"
    by (rule sign_payload_total) (simp add: decision_dump_def make_decision_def demo_draw_def demo_invocation_def cid
      del: to_hex.simps)
  then obtain env where env: "sign_decision toy (toy_signer ''g'' 5) ?d = Inr env"
    using c(2) by (auto simp: sign_decision_def decision_fields_ok_def make_decision_def demo_draw_def
      demo_invocation_def simp del: to_hex.simps)
  have "decide toy toy_token_lib demo_draw ?iv demo_governor =
      (Inr env, demo_governor\<lparr>g_used_nonces := t_nonce p # g_used_nonces demo_governor\<rparr>)"
  proof -
    have iv: "iv_plane ?iv = py ''shell''" "iv_constitution ?iv = demo_con" "iv_now ?iv = Some (Aware 50 0)"
      "iv_action ?iv = py ''run''" "iv_resource ?iv = py ''ws''" "iv_capability ?iv = Some cap"
      by (simp_all add: demo_invocation_def)
    have g: "g_planes demo_governor = supported_planes" "decision_key demo_governor = toy_signer ''g'' 5"
      by (simp_all add: demo_governor_def new_governor_def)
    have s: "py ''shell'' \<in> set supported_planes" by (simp add: supported_planes_def)
    show ?thesis unfolding decide_def iv b c(1) aware_now_def option.case datetime.case rbind_simps sum.case
        prod.case g demo_governance Let_def grants
      using s env by (simp add: conclude_def iv th g)
  qed
  with verdict_of_sign [OF env] show ?thesis using that by (simp add: make_decision_def)
qed

section \<open>Properties\<close>

text \<open>C26: the decision core signs the verdict of the policy. Whenever it answers, the verdict is DENY
  unless the plane is governed and the presented token verifies and names this plane, action,
  resource and constitution, and then it is the constitution's own decision; only ALLOW changes the
  governor, and it spends exactly the nonce of the token.\<close>

theorem decision_matches_policy:
  assumes "decide P L dr iv g = (Inr env, g')"
  shows "\<exists>now. aware_now dr (iv_now iv) = Inr now \<and> verdict_of env = Some (expected_verdict P L g iv now) \<and>
    (if verdict_of env = Some ALLOW
     then \<exists>p. token_grants P L g iv now p \<and> g' = g\<lparr>g_used_nonces := t_nonce p # g_used_nonces g\<rparr>
     else g' = g)"
proof -
  obtain now where now: "aware_now dr (iv_now iv) = Inr now"
    "verdict_of env = Some (expected_verdict P L g iv now)"
    "expected_verdict P L g iv now \<noteq> ALLOW \<Longrightarrow> g' = g"
    "\<And>p. token_grants P L g iv now p \<Longrightarrow> expected_verdict P L g iv now = ALLOW \<Longrightarrow>
      g' = g\<lparr>g_used_nonces := t_nonce p # g_used_nonces g\<rparr>" using decide_cases [OF assms] by metis
  show ?thesis
  proof (cases "expected_verdict P L g iv now = ALLOW")
    case True
    then obtain p where "token_grants P L g iv now p" by (auto simp: expected_verdict_def split: if_splits)
    with now True show ?thesis by auto
  qed (use now in auto)
qed

theorem decision_matches_policy_witness:
  "\<exists>cap pf env g' now. decide toy toy_token_lib demo_draw (demo_invocation cap pf) demo_governor = (Inr env, g') \<and>
     verdict_of env = Some ALLOW \<and> expected_verdict toy toy_token_lib demo_governor (demo_invocation cap pf) now = ALLOW"
proof -
  obtain env cap pf g' where d: "decide toy toy_token_lib demo_draw (demo_invocation cap pf) demo_governor = (Inr env, g')"
    "verdict_of env = Some ALLOW" by (rule demo_allowed)
  from decision_matches_policy [OF d(1)] d show ?thesis by (metis option.inject)
qed

text \<open>C33: a token allows one invocation. Over any sequence of evaluations by one governor, on any planes
  and in any order, the nonces of the tokens behind the ALLOW decisions are all different, and none
  of them was spent before.\<close>

theorem nonce_allows_once:
  "distinct (granted (spent_nonce L) (fst (run_all (\<lambda>(dr, iv). decide P L dr iv) calls g))) \<and>
   set (granted (spent_nonce L) (fst (run_all (\<lambda>(dr, iv). decide P L dr iv) calls g))) \<inter> set (g_used_nonces g) = {}"
  by (rule governor_nonces.granted_once)

end
