(* ===== verification/Merkle.thy ===== *)
theory Merkle
  imports Prelude
begin

text \<open>
  The interface of hash trees: a leaf and an inner node are encoded and hashed. Nothing is
  assumed of the hash; what a proof of inclusion shows holds unless two different strings among
  those that were hashed collide. The log of the transparency service and the checkpoints over
  evidence provide the interface.
\<close>

section \<open>Trees and paths\<close>

datatype 'a shape = Tip 'a | Fork "'a shape" "'a shape"

fun tips :: "'a shape \<Rightarrow> 'a list" where
  "tips (Tip x) = [x]"
| "tips (Fork s t) = tips s @ tips t"

fun tree_root :: "('i \<Rightarrow> 'd) \<Rightarrow> ('a \<Rightarrow> 'i) \<Rightarrow> ('d \<Rightarrow> 'd \<Rightarrow> 'i) \<Rightarrow> 'a shape \<Rightarrow> 'd" where
  "tree_root h el en (Tip x) = h (el x)"
| "tree_root h el en (Fork s t) = h (en (tree_root h el en s) (tree_root h el en t))"

text \<open>
  \<open>climb d steps\<close> folds a path from a leaf to the root; a step is the sibling and whether
  it stands on the left.
\<close>

fun join_step :: "('d \<Rightarrow> 'd \<Rightarrow> 'i) \<Rightarrow> bool \<times> 'd \<Rightarrow> 'd \<Rightarrow> 'i" where
  "join_step en (left, s) d = (if left then en s d else en d s)"

fun climb :: "('i \<Rightarrow> 'd) \<Rightarrow> ('d \<Rightarrow> 'd \<Rightarrow> 'i) \<Rightarrow> 'd \<Rightarrow> (bool \<times> 'd) list \<Rightarrow> 'd" where
  "climb h en d [] = d"
| "climb h en d (p # ps) = climb h en (h (join_step en p d)) ps"

text \<open>The strings that are hashed on the way.\<close>

fun tree_inputs :: "('i \<Rightarrow> 'd) \<Rightarrow> ('a \<Rightarrow> 'i) \<Rightarrow> ('d \<Rightarrow> 'd \<Rightarrow> 'i) \<Rightarrow> 'a shape \<Rightarrow> 'i set" where
  "tree_inputs h el en (Tip x) = {el x}"
| "tree_inputs h el en (Fork s t) = insert (en (tree_root h el en s) (tree_root h el en t))
     (tree_inputs h el en s \<union> tree_inputs h el en t)"

fun climb_inputs :: "('i \<Rightarrow> 'd) \<Rightarrow> ('d \<Rightarrow> 'd \<Rightarrow> 'i) \<Rightarrow> 'd \<Rightarrow> (bool \<times> 'd) list \<Rightarrow> 'i set" where
  "climb_inputs h en d [] = {}"
| "climb_inputs h en d (p # ps) = insert (join_step en p d) (climb_inputs h en (h (join_step en p d)) ps)"

lemma climb_append [simp]: "climb h en d (ps @ qs) = climb h en (climb h en d ps) qs"
  by (induction ps arbitrary: d) auto

lemma climb_inputs_append [simp]:
  "climb_inputs h en d (ps @ qs) = climb_inputs h en d ps \<union> climb_inputs h en (climb h en d ps) qs"
  by (induction ps arbitrary: d) auto

lemma tips_neq_Nil [simp]: "tips t \<noteq> []"
  by (induction t) auto

text \<open>Two of the strings in a set collide.\<close>

definition collides :: "('i \<Rightarrow> 'd) \<Rightarrow> 'i set \<Rightarrow> bool" where
  "collides h A \<longleftrightarrow> (\<exists>x \<in> A. \<exists>y \<in> A. x \<noteq> y \<and> h x = h y)"

lemma collides_mono: "collides h A \<Longrightarrow> A \<subseteq> B \<Longrightarrow> collides h B"
  by (auto simp: collides_def)

lemma not_collidesD: "\<not> collides h A \<Longrightarrow> x \<in> A \<Longrightarrow> y \<in> A \<Longrightarrow> h x = h y \<Longrightarrow> x = y"
  by (auto simp: collides_def)

section \<open>The interface\<close>

text \<open>
  The encodings: a leaf is never a node, a leaf is read off its encoding, and so are the
  children of a node, provided that the digests on one side have the size of a digest (a
  concatenation has no other delimiter).
\<close>

locale hash_tree =
  fixes el :: "'a \<Rightarrow> 'i" and en :: "'d \<Rightarrow> 'd \<Rightarrow> 'i" and sized :: "'d \<Rightarrow> bool"
  assumes leaf_not_node: "el x \<noteq> en l r"
    and leaf_inject: "el x = el y \<Longrightarrow> x = y"
    and node_inject_left: "en l r = en l' r' \<Longrightarrow> sized l \<Longrightarrow> sized l' \<Longrightarrow> l = l' \<and> r = r'"
    and node_inject_right: "en l r = en l' r' \<Longrightarrow> sized r \<Longrightarrow> sized r' \<Longrightarrow> l = l' \<and> r = r'"
begin

lemma sized_root: "(\<And>i. sized (h i)) \<Longrightarrow> sized (tree_root h el en t)"
  by (cases t) auto

lemma sized_climb: "(\<And>i. sized (h i)) \<Longrightarrow> sized d \<Longrightarrow> sized (climb h en d ps)"
  by (induction ps arbitrary: d) auto

text \<open>
  A path from a leaf to the root of a tree ends at one of the leaves of the tree: whatever the
  path claims about the position of the leaf and the size of the tree.
\<close>

lemma inclusion_sound:
  assumes sized: "\<And>i. sized (h i)"
    and fold: "climb h en (h (el x)) ps = tree_root h el en t"
    and free: "\<not> collides h (insert (el x) (climb_inputs h en (h (el x)) ps \<union> tree_inputs h el en t))"
  shows "x \<in> set (tips t)"
  using fold free
proof (induction t arbitrary: ps)
  case (Tip y)
  show ?case
  proof (cases ps rule: rev_cases)
    case Nil
    with Tip have "el x = el y" by (intro not_collidesD [OF Tip(2)]) auto
    then show ?thesis using leaf_inject by simp
  next
    case (snoc qs p)
    let ?d = "climb h en (h (el x)) qs"
    have "h (join_step en p ?d) = h (el y)" using Tip(1) by (simp add: snoc)
    moreover have "join_step en p ?d \<in> climb_inputs h en (h (el x)) ps" by (simp add: snoc subset_insertI)
    ultimately have "join_step en p ?d = el y" by - (rule not_collidesD [OF Tip(2)], simp_all)
    moreover have "join_step en p ?d \<noteq> el y"
      using leaf_not_node [of y, THEN not_sym] by (cases p) simp
    ultimately show ?thesis by simp
  qed
next
  case (Fork s t)
  let ?l = "tree_root h el en s" and ?r = "tree_root h el en t"
  show ?case
  proof (cases ps rule: rev_cases)
    case Nil
    with Fork.prems have "el x = en ?l ?r" by (intro not_collidesD [OF Fork.prems(2)]) auto
    then show ?thesis using leaf_not_node by simp
  next
    case (snoc qs p)
    let ?d = "climb h en (h (el x)) qs"
    obtain left sib where p: "p = (left, sib)" by (cases p)
    have sd: "sized ?d" "sized ?l" "sized ?r"
      by (simp_all add: sized sized_climb sized_root)
    have "h (join_step en p ?d) = h (en ?l ?r)" using Fork.prems(1) by (simp add: snoc)
    moreover have "join_step en p ?d \<in> climb_inputs h en (h (el x)) ps"
      by (simp add: snoc)
    moreover have "en ?l ?r \<in> tree_inputs h el en (Fork s t)" by simp
    ultimately have eq: "join_step en p ?d = en ?l ?r"
      by - (rule not_collidesD [OF Fork.prems(2)], simp_all)
    have sub: "\<not> collides h (insert (el x) (climb_inputs h en (h (el x)) qs \<union> tree_inputs h el en u))"
      if u: "u \<in> {s, t}" for u
    proof
      assume c: "collides h (insert (el x) (climb_inputs h en (h (el x)) qs \<union> tree_inputs h el en u))"
      have t: "tree_inputs h el en u \<subseteq> tree_inputs h el en (Fork s t)" using u by auto
      have q: "climb_inputs h en (h (el x)) qs \<subseteq> climb_inputs h en (h (el x)) ps" by (simp add: snoc subset_insertI)
      show False
        by (rule notE [OF Fork.prems(2)], rule collides_mono [OF c])
          (rule insert_mono, rule Un_mono [OF q t])
    qed
    show ?thesis
    proof (cases left)
      case True
      with eq have "en sib ?d = en ?l ?r" by (simp add: p)
      from node_inject_right [OF this sd(1,3)] have "?d = ?r" ..
      with Fork.IH(2) [of qs] sub [of t] show ?thesis by simp
    next
      case False
      with eq have "en ?d sib = en ?l ?r" by (simp add: p)
      from node_inject_left [OF this sd(1,2)] have "?d = ?l" ..
      with Fork.IH(1) [of qs] sub [of s] show ?thesis by simp
    qed
  qed
qed

text \<open>The root determines the whole tree.\<close>

lemma root_inject:
  assumes sized: "\<And>i. sized (h i)"
    and root: "tree_root h el en s = tree_root h el en t"
    and free: "\<not> collides h (tree_inputs h el en s \<union> tree_inputs h el en t)"
  shows "s = t"
  using root free
proof (induction s arbitrary: t)
  case (Tip x)
  show ?case
  proof (cases t)
    case (Tip y)
    with Tip.prems have "el x = el y" by - (rule not_collidesD [OF Tip.prems(2)], simp_all)
    with Tip leaf_inject show ?thesis by simp
  next
    case (Fork l r)
    with Tip.prems have "el x = en (tree_root h el en l) (tree_root h el en r)"
      by - (rule not_collidesD [OF Tip.prems(2)], simp_all)
    with leaf_not_node show ?thesis by simp
  qed
next
  case (Fork l r)
  show ?case
  proof (cases t)
    case (Tip y)
    with Fork.prems have "el y = en (tree_root h el en l) (tree_root h el en r)"
      by - (rule not_collidesD [OF Fork.prems(2)], simp_all)
    with leaf_not_node show ?thesis by simp
  next
    case t: (Fork l' r')
    have "en (tree_root h el en l) (tree_root h el en r) = en (tree_root h el en l') (tree_root h el en r')"
      using Fork.prems(1) t by - (rule not_collidesD [OF Fork.prems(2)], simp_all)
    moreover have "sized (tree_root h el en l)" "sized (tree_root h el en l')" by (simp_all add: sized sized_root)
    ultimately have eq: "tree_root h el en l = tree_root h el en l'" "tree_root h el en r = tree_root h el en r'"
      using node_inject_left by blast+
    have "\<not> collides h (tree_inputs h el en l \<union> tree_inputs h el en l')"
      "\<not> collides h (tree_inputs h el en r \<union> tree_inputs h el en r')"
      using Fork.prems(2) by (auto simp: t elim!: contrapos_nn intro: collides_mono)
    with Fork.IH eq t show ?thesis by blast
  qed
qed

end

end
