(* ===== verification/Scitt_Tree.thy ===== *)
theory Scitt_Tree
  imports Merkle Stdlib "HOL-Library.While_Combinator"
begin

text \<open>
  The Merkle tree of \<^verbatim>\<open>scitt.py\<close>: leaves and nodes with their prefixes, the split
  of a tree, its root, the audit path of a leaf and the root a path leads to. The digests are
  byte strings; sizes and indices are Python ints, since a receipt may claim any.
\<close>

section \<open>The code\<close>

definition leaf :: "prims \<Rightarrow> bytes \<Rightarrow> bytes" where
  "leaf P data = sha256 P (0 # data)"

definition node :: "prims \<Rightarrow> bytes \<Rightarrow> bytes \<Rightarrow> bytes" where
  "node P l r = sha256 P (1 # l @ r)"

text \<open>The loop of \<^verbatim>\<open>_split\<close> and the number it ends with.\<close>

definition split_loop :: "int \<Rightarrow> int option" where
  "split_loop n = while_option (\<lambda>k. k * 2 < n) (\<lambda>k. k * 2) 1"

definition split_size :: "int \<Rightarrow> int" where
  "split_size n = while (\<lambda>k. k * 2 < n) (\<lambda>k. k * 2) 1"

text \<open>
  The loop ends, at the largest power of two below \<open>n\<close> (at one if there is none):
  it keeps \<open>k\<close> a power of two below \<open>n\<close>, and \<open>n - k\<close> decreases.
\<close>

definition largest_power_below :: "int \<Rightarrow> int \<Rightarrow> bool" where
  "largest_power_below n k \<longleftrightarrow> (\<exists>m. k = 2 ^ m) \<and> (1 < n \<longrightarrow> k < n) \<and> n \<le> k * 2"

lemma split_loop_some: "split_loop n = Some k \<Longrightarrow> largest_power_below n k"
proof -
  assume k: "split_loop n = Some k"
  have inv: "(\<exists>m. k = 2 ^ m) \<and> (1 < n \<longrightarrow> k < n)"
  proof (rule while_option_rule [OF _ k [unfolded split_loop_def]])
    fix j :: int assume "(\<exists>m. j = 2 ^ m) \<and> (1 < n \<longrightarrow> j < n)" "j * 2 < n"
    then show "(\<exists>m. j * 2 = 2 ^ m) \<and> (1 < n \<longrightarrow> j * 2 < n)" by (metis power_Suc2)
  qed (auto intro: exI [of _ 0])
  moreover have "\<not> k * 2 < n" using while_option_stop [OF k [unfolded split_loop_def]] .
  ultimately show ?thesis by (simp add: largest_power_below_def)
qed

lemma split_loop_ends: "\<exists>k. split_loop n = Some k"
  unfolding split_loop_def
proof (rule measure_while_option_Some [where P = "\<lambda>k. 0 < k" and f = "\<lambda>k. nat (n - k)"])
  fix k :: int assume "0 < k" "k * 2 < n"
  then show "0 < k * 2 \<and> nat (n - k * 2) < nat (n - k)" by auto
qed simp

lemma split_size_eq: "split_loop n = Some (split_size n)"
  using split_loop_ends [of n] by (auto simp: split_size_def while_def split_loop_def)

lemma split_size_ok: "largest_power_below n (split_size n)"
  by (rule split_loop_some [OF split_size_eq])

lemma split_size_bounds:
  "1 \<le> split_size n" "1 < n \<Longrightarrow> split_size n < n" "n \<le> split_size n * 2"
  using split_size_ok [of n] by (auto simp: largest_power_below_def)

lemma split_size_power: "n \<le> 2 ^ Suc m \<Longrightarrow> 1 < n \<Longrightarrow> split_size n \<le> 2 ^ m"
proof -
  assume n: "n \<le> 2 ^ Suc m" "1 < n"
  obtain j where j: "split_size n = 2 ^ j" "(2 :: int) ^ j < n"
    using split_size_ok [of n] n by (auto simp: largest_power_below_def)
  then have "(2 :: int) ^ j < 2 ^ Suc m" using n by linarith
  then have "j < Suc m" by (rule power_less_imp_less_exp [rotated]) simp
  then show ?thesis by (simp add: j(1))
qed

function mth :: "prims \<Rightarrow> bytes list \<Rightarrow> bytes res" where
  "mth P hs =
     (if hs = [] then raise SCITTError ''cannot build a Merkle tree over zero leaves''
      else if length hs = 1 then Inr (hs ! 0)
      else let k = nat (split_size (int (length hs)))
        in rbind (mth P (take k hs)) (\<lambda>l. rbind (mth P (drop k hs)) (\<lambda>r. Inr (node P l r))))"
  by pat_completeness auto

text \<open>Both halves of a tree of two or more leaves are smaller, and neither is empty.\<close>

lemma halves_smaller:
  assumes "hs \<noteq> []" "length hs \<noteq> 1"
  shows "length (take (nat (split_size (int (length hs)))) hs) < length hs"
    and "length (drop (nat (split_size (int (length hs)))) hs) < length hs"
    and "take (nat (split_size (int (length hs)))) hs \<noteq> []"
    and "drop (nat (split_size (int (length hs)))) hs \<noteq> []"
proof -
  have "1 < int (length hs)" using assms by (cases hs) auto
  with split_size_bounds [of "int (length hs)"] assms(1)
  show "length (take (nat (split_size (int (length hs)))) hs) < length hs"
    "length (drop (nat (split_size (int (length hs)))) hs) < length hs"
    "take (nat (split_size (int (length hs)))) hs \<noteq> []"
    "drop (nat (split_size (int (length hs)))) hs \<noteq> []"
    by auto
qed

termination mth
  by (relation "measure (\<lambda>(P, hs). length hs)") (auto dest: halves_smaller)

declare mth.simps [simp del]

function audit_path :: "prims \<Rightarrow> bytes list \<Rightarrow> int \<Rightarrow> bytes list res" where
  "audit_path P hs i =
     (let n = int (length hs) in
      if \<not> (0 \<le> i \<and> i < n) then raise SCITTError ''leaf_index out of range''
      else if n = 1 then Inr []
      else let k = split_size n in
         if i < k
         then rbind (audit_path P (take (nat k) hs) i) (\<lambda>p.
              rbind (mth P (drop (nat k) hs)) (\<lambda>s. Inr (p @ [s])))
         else rbind (mth P (take (nat k) hs)) (\<lambda>s.
              rbind (audit_path P (drop (nat k) hs) (i - k)) (\<lambda>p. Inr ([s] @ p))))"
  by pat_completeness auto
termination
  by (relation "measure (\<lambda>(P, hs, i). length hs)")
    (simp_all del: length_take length_drop, (rule halves_smaller; force)+)

declare audit_path.simps [simp del]

text \<open>
  \<^verbatim>\<open>*inner, right_root = proof\<close> and \<^verbatim>\<open>left_root, *inner = proof\<close> take the
  last and the first element.
\<close>

function root_from_proof :: "prims \<Rightarrow> bytes \<Rightarrow> int \<Rightarrow> bytes list \<Rightarrow> int \<Rightarrow> bytes res" where
  "root_from_proof P lh i path n =
     (if n \<le> 0 then raise SCITTError ''tree_size must be positive''
      else if \<not> (0 \<le> i \<and> i < n) then raise SCITTError ''leaf_index out of range for tree_size''
      else if n = 1 then
        (if path \<noteq> [] then raise SCITTError ''non-empty proof for a single-leaf tree'' else Inr lh)
      else let k = split_size n in
        if i < k then
          (if path = [] then raise SCITTError ''audit path too short''
           else rbind (root_from_proof P lh i (butlast path) k) (\<lambda>l. Inr (node P l (last path))))
        else
          (if path = [] then raise SCITTError ''audit path too short''
           else rbind (root_from_proof P lh (i - k) (tl path) (n - k)) (\<lambda>r. Inr (node P (hd path) r))))"
  by pat_completeness auto
termination
proof (relation "measure (\<lambda>(P, lh, i, path, n). nat n)", goal_cases)
  case (2 P lh i path n k)
  then show ?case using split_size_bounds [of n] by auto
next
  case (3 P lh i path n k)
  then show ?case using split_size_bounds [of n] by auto
qed simp

declare root_from_proof.simps [simp del]

section \<open>The tree the digests describe\<close>

function shape_of :: "'a list \<Rightarrow> 'a shape" where
  "shape_of xs =
     (if length xs \<le> 1 then Tip (hd xs)
      else let k = nat (split_size (int (length xs)))
        in Fork (shape_of (take k xs)) (shape_of (drop k xs)))"
  by pat_completeness auto
termination
  by (relation "measure length") (simp_all del: length_take length_drop, (rule halves_smaller; force)+)

declare shape_of.simps [simp del]

abbreviation leaf_in :: "bytes \<Rightarrow> bytes" where
  "leaf_in d \<equiv> 0 # d"

abbreviation node_in :: "bytes \<Rightarrow> bytes \<Rightarrow> bytes" where
  "node_in l r \<equiv> 1 # l @ r"

lemma split_induct [consumes 1, case_names one split]:
  assumes ne: "xs \<noteq> []"
    and one: "\<And>x. Q [x]"
    and split: "\<And>xs k. 1 < length xs \<Longrightarrow> k = nat (split_size (int (length xs))) \<Longrightarrow> 0 < k \<Longrightarrow>
      k < length xs \<Longrightarrow> Q (take k xs) \<Longrightarrow> Q (drop k xs) \<Longrightarrow> Q xs"
  shows "Q xs"
  using ne
proof (induction xs rule: measure_induct_rule [of length])
  case (less xs)
  show ?case
  proof (cases "length xs = 1")
    case True
    then show ?thesis using one by (cases xs) auto
  next
    case False
    with less.prems have l: "1 < length xs" by (cases xs) auto
    let ?k = "nat (split_size (int (length xs)))"
    have k: "0 < ?k" "?k < length xs" using split_size_bounds [of "int (length xs)"] l by auto
    then have "take ?k xs \<noteq> []" "drop ?k xs \<noteq> []" by auto
    with k show ?thesis by (intro split [OF l refl k] less.IH) simp_all
  qed
qed

lemma tips_shape_of: "xs \<noteq> [] \<Longrightarrow> tips (shape_of xs) = xs"
proof (induction xs rule: split_induct)
  case (split xs k)
  then show ?case by (subst shape_of.simps) (auto simp: Let_def)
qed (simp add: shape_of.simps)

lemma mth_root: "xs \<noteq> [] \<Longrightarrow>
    mth P (map (leaf P) xs) = Inr (tree_root (sha256 P) leaf_in node_in (shape_of xs))"
proof (induction xs rule: split_induct)
  case (split xs k)
  then have "mth P (map (leaf P) (take k xs)) = Inr (tree_root (sha256 P) leaf_in node_in (shape_of (take k xs)))"
    and "mth P (map (leaf P) (drop k xs)) = Inr (tree_root (sha256 P) leaf_in node_in (shape_of (drop k xs)))"
    and "xs \<noteq> []"
    by auto
  with split(1,2) show ?case
    by (subst mth.simps, subst shape_of.simps) (simp add: Let_def take_map drop_map node_def)
qed (simp add: shape_of.simps mth.simps leaf_def)

text \<open>
  The path to a leaf, read as steps from the leaf to the root. \<open>proof_steps\<close> follows
  \<^verbatim>\<open>_root_from_proof\<close>: the side of each sibling comes from the index and the size.
\<close>

function proof_steps :: "int \<Rightarrow> bytes list \<Rightarrow> int \<Rightarrow> (bool \<times> bytes) list" where
  "proof_steps i path n =
     (if n \<le> 1 \<or> path = [] then []
      else let k = split_size n in
        if i < k then proof_steps i (butlast path) k @ [(False, last path)]
        else proof_steps (i - k) (tl path) (n - k) @ [(True, hd path)])"
  by pat_completeness auto
termination
  by (relation "measure (\<lambda>(i, path, n). length path)") auto

declare proof_steps.simps [simp del]

lemma root_from_proof_climb:
  "root_from_proof P lh i path n = Inr r \<Longrightarrow> climb (sha256 P) node_in lh (proof_steps i path n) = r"
proof (induction P lh i path n arbitrary: r rule: root_from_proof.induct)
  case (1 P lh i path n)
  show ?case
  proof (cases "n = 1 \<or> path = [] \<or> n \<le> 0 \<or> \<not> (0 \<le> i \<and> i < n)")
    case True
    with 1(3) show ?thesis
      by (subst (asm) root_from_proof.simps, subst proof_steps.simps)
        (auto simp: Let_def split: if_splits)
  next
    case False
    then have g: "\<not> n \<le> 0" "\<not> \<not> (0 \<le> i \<and> i < n)" "n \<noteq> 1" "path \<noteq> []" "\<not> n \<le> 1" by auto
    note ih = 1(1,2) [OF g(1-3) refl]
    show ?thesis
    proof (cases "i < split_size n")
      case True
      with 1(3) g obtain l where l: "root_from_proof P lh i (butlast path) (split_size n) = Inr l"
        "r = node P l (last path)"
        by (subst (asm) root_from_proof.simps) (auto simp: Let_def)
      from ih(1) [OF True g(4) l(1)] True g l(2) show ?thesis
        by (subst proof_steps.simps) (simp add: Let_def node_def)
    next
      case False
      with 1(3) g obtain l where l: "root_from_proof P lh (i - split_size n) (tl path) (n - split_size n) = Inr l"
        "r = node P (hd path) l"
        by (subst (asm) root_from_proof.simps) (auto simp: Let_def)
      from ih(2) [OF False g(4) l(1)] False g l(2) show ?thesis
        by (subst proof_steps.simps) (simp add: Let_def node_def)
    qed
  qed
qed

section \<open>Paths lead to the root\<close>

lemma root_from_audit_path:
  "xs \<noteq> [] \<Longrightarrow> 0 \<le> i \<Longrightarrow> i < int (length xs) \<Longrightarrow>
   \<exists>r p. mth P xs = Inr r \<and> audit_path P xs i = Inr p \<and>
     root_from_proof P (xs ! nat i) i p (int (length xs)) = Inr r"
proof (induction xs arbitrary: i rule: split_induct)
  case (one x)
  then show ?case by (simp add: mth.simps audit_path.simps root_from_proof.simps)
next
  case (split xs k)
  let ?n = "int (length xs)"
  have k: "split_size ?n = int k" "\<not> ?n \<le> 0" "?n \<noteq> 1" "xs \<noteq> []" "length xs \<noteq> 1" "nat ?n = length xs"
    using split(1-4) by auto
  obtain l where l: "mth P (take k xs) = Inr l" using split(3,4) split(5) [of 0] by force
  obtain r where r: "mth P (drop k xs) = Inr r" using split(4) split(6) [of 0] by force
  have root: "mth P xs = Inr (node P l r)"
    using l r k by (subst mth.simps) (simp add: Let_def)
  show ?case
  proof (cases "i < int k")
    case True
    with split(3,4,7) split(5) [of i] obtain p where
      p: "audit_path P (take k xs) i = Inr p" "root_from_proof P (xs ! nat i) i p (int k) = Inr l"
      by (auto simp: l min_def)
    have "audit_path P xs i = Inr (p @ [r])"
      using True k p r split(7,8) by (subst audit_path.simps) (simp add: Let_def)
    moreover have "root_from_proof P (xs ! nat i) i (p @ [r]) ?n = Inr (node P l r)"
      using True k p split(7,8) by (subst root_from_proof.simps) (simp add: Let_def)
    ultimately show ?thesis using root by blast
  next
    case False
    then have i: "0 \<le> i - int k" "i - int k < int (length (drop k xs))" "drop k xs ! nat (i - int k) = xs ! nat i"
      using split(4,8) by (auto simp: nat_diff_distrib)
    have "int (length (drop k xs)) = ?n - int k" using split(4) by auto
    with split(6) [OF i(1,2)] i(3) obtain p where
      p: "audit_path P (drop k xs) (i - int k) = Inr p" "root_from_proof P (xs ! nat i) (i - int k) p (?n - int k) = Inr r"
      by (auto simp: r)
    have "audit_path P xs i = Inr (l # p)"
      using False k p l split(7,8) by (subst audit_path.simps) (simp add: Let_def)
    moreover have "root_from_proof P (xs ! nat i) i (l # p) ?n = Inr (node P l r)"
      using False k p split(7,8) by (subst root_from_proof.simps) (simp add: Let_def)
    ultimately show ?thesis using root by blast
  qed
qed

text \<open>A path is as long as the tree is deep: at most the logarithm of its size, rounded up.\<close>

lemma audit_path_length:
  "audit_path P xs i = Inr p \<Longrightarrow> int (length xs) \<le> 2 ^ m \<Longrightarrow> length p \<le> m"
proof (induction m arbitrary: xs i p)
  case 0
  then show ?case by (subst (asm) audit_path.simps) (auto simp: Let_def split: if_splits)
next
  case (Suc m)
  let ?n = "int (length xs)" and ?k = "split_size (int (length xs))"
  show ?case
  proof (cases "?n = 1 \<or> \<not> (0 \<le> i \<and> i < ?n)")
    case True
    with Suc.prems(1) show ?thesis by (subst (asm) audit_path.simps) (auto simp: Let_def split: if_splits)
  next
    case False
    then have n: "1 < ?n" by linarith
    have k: "?k \<le> 2 ^ m" "?n - ?k \<le> 2 ^ m" "0 \<le> ?k" "?k < ?n"
      using split_size_power [OF Suc.prems(2) n] split_size_bounds [of ?n] n by auto
    then have sizes: "int (length (take (nat ?k) xs)) \<le> 2 ^ m" "int (length (drop (nat ?k) xs)) \<le> 2 ^ m"
      by auto
    have "\<exists>s q. length p = Suc (length q) \<and> (audit_path P (take (nat ?k) xs) i = Inr q
        \<or> audit_path P (drop (nat ?k) xs) (i - ?k) = Inr q)"
      using Suc.prems(1) False by (subst (asm) audit_path.simps) (auto simp: Let_def split: if_splits)
    with Suc.IH sizes show ?thesis by fastforce
  qed
qed

section \<open>The interface of hash trees\<close>

definition digest_sized :: "bytes \<Rightarrow> bool" where
  "digest_sized d \<longleftrightarrow> length d = 32"

interpretation scitt_tree: hash_tree leaf_in node_in digest_sized
  by unfold_locales (auto simp: digest_sized_def)

lemma log_inclusion_sound:
  assumes "prims_ok P" "ds \<noteq> []" "mth P (map (leaf P) ds) = Inr r"
    and "root_from_proof P (leaf P d) i path n = Inr r"
    and "\<not> collides (sha256 P) (insert (leaf_in d)
        (climb_inputs (sha256 P) node_in (leaf P d) (proof_steps i path n) \<union>
         tree_inputs (sha256 P) leaf_in node_in (shape_of ds)))"
  shows "d \<in> set ds"
proof -
  have "digest_sized (sha256 P x)" for x using assms(1) by (simp add: digest_sized_def prims_ok_def)
  moreover have "r = tree_root (sha256 P) leaf_in node_in (shape_of ds)"
    using mth_root [OF assms(2), of P] assms(3) by simp
  ultimately have "d \<in> set (tips (shape_of ds))"
    using scitt_tree.inclusion_sound [of "sha256 P" d "proof_steps i path n" "shape_of ds"]
      root_from_proof_climb [OF assms(4)] assms(5) by (simp add: leaf_def)
  then show ?thesis by (simp add: tips_shape_of [OF assms(2)])
qed

end
