(* ===== verification/Scitt.thy ===== *)
theory Scitt
  imports Scitt_Tree Cose Cbor_Python
begin

text \<open>
  \<^verbatim>\<open>scitt.py\<close>: signed statements about governance events, the transparency log
  that registers them, its receipts, and the offline verification of a statement with its
  receipts. The log is a record returned updated; the Merkle tree is in
  \<^verbatim>\<open>Scitt_Tree\<close>.
\<close>

section \<open>Constants\<close>

definition known_statement_types :: "pystr list" where
  "known_statement_types = map py [''anchor.v1/decision'', ''anchor.v1/approval'', ''anchor.v1/mint'',
     ''anchor.v1/consume'', ''anchor.v1/execution'', ''anchor.v1/revocation'', ''anchor.v1/freeze'',
     ''anchor.v1/policy_change'', ''anchor.v1/epoch'']"

definition label_cwt_claims :: pyval where "label_cwt_claims = PInt 15"
definition label_receipts :: pyval where "label_receipts = PInt 394"
definition label_vds :: pyval where "label_vds = PInt 395"
definition label_vdp :: pyval where "label_vdp = PInt 396"
definition cwt_iss :: pyval where "cwt_iss = PInt 1"
definition cwt_sub :: pyval where "cwt_sub = PInt 2"
definition vds_rfc9162_sha256 :: int where "vds_rfc9162_sha256 = 1"
definition proof_type_inclusion :: int where "proof_type_inclusion = - 1"

section \<open>The COSE codec\<close>

definition opt_bytes :: "bytes option \<Rightarrow> pyval" where
  "opt_bytes b = (case b of None \<Rightarrow> PNone | Some c \<Rightarrow> PBytes c)"

definition scitt_sign :: "bytes option \<Rightarrow> (pyval \<times> pyval) list \<Rightarrow> (pyval \<times> pyval) list
    \<Rightarrow> (bytes \<Rightarrow> bytes) \<Rightarrow> bytes option \<Rightarrow> bytes res" where
  "scitt_sign pl protected unprotected sign_fn detached =
     require (\<not> (pl \<noteq> None \<and> detached \<noteq> None)) SCITTError
       ''payload and detached_payload are mutually exclusive''
     (rbind (cbor_dumps (PDict protected)) (\<lambda>body.
      let signed = (case detached of Some d \<Rightarrow> d | None \<Rightarrow> (case pl of Some p \<Rightarrow> p | None \<Rightarrow> [])) in
      rbind (sig_structure body [] signed) (\<lambda>ss.
      let sig = sign_fn ss in
      require (length sig = 64) SCITTError ''sign_fn must return a 64-byte Ed25519 signature''
        (cbor_dumps (PList [PBytes body, PDict unprotected, opt_bytes pl, PBytes sig])))))"

record parsed =
  p_protected :: "(pyval \<times> pyval) list"
  p_unprotected :: "(pyval \<times> pyval) list"
  p_payload :: "bytes option"
  p_signature :: bytes
  p_body :: bytes

definition get_opt_bytes :: "exn_class \<Rightarrow> string \<Rightarrow> pyval \<Rightarrow> bytes option res" where
  "get_opt_bytes c msg v = (case v of PNone \<Rightarrow> Inr None | PBytes b \<Rightarrow> Inr (Some b) | _ \<Rightarrow> raise c msg)"

definition scitt_parse :: "bytes \<Rightarrow> parsed res" where
  "scitt_parse message =
     rbind (except CBORError SCITTError ''malformed COSE_Sign1'' (cbor_loads message)) (\<lambda>outer.
     rbind (get_four SCITTError ''COSE_Sign1 must be an array of 4 elements'' outer)
       (\<lambda>(body_v, unprotected_v, payload_v, signature_v).
         rbind (get_bytes SCITTError ''body_protected must be a byte string'' body_v) (\<lambda>body.
         rbind (get_dict SCITTError ''unprotected header must be a map'' unprotected_v) (\<lambda>u.
         rbind (get_opt_bytes SCITTError ''payload must be a byte string or nil'' payload_v) (\<lambda>pl.
         rbind (get_bytes SCITTError ''signature must be a 64-byte string'' signature_v) (\<lambda>sig.
         require (length sig = 64) SCITTError ''signature must be a 64-byte string''
         (rbind (except CBORError SCITTError ''malformed protected header'' (cbor_loads body)) (\<lambda>hdr.
          rbind (get_dict SCITTError ''protected header must be a map'' hdr) (\<lambda>h.
          Inr \<lparr>p_protected = h, p_unprotected = u, p_payload = pl, p_signature = sig, p_body = body\<rparr>)))))))))"

definition nonempty_text :: "exn_class \<Rightarrow> string \<Rightarrow> pyval \<Rightarrow> pystr res" where
  "nonempty_text c msg v = (case v of PStr s \<Rightarrow> if s = [] then raise c msg else Inr s | _ \<Rightarrow> raise c msg)"

definition nonempty_bytes :: "exn_class \<Rightarrow> string \<Rightarrow> pyval \<Rightarrow> bytes res" where
  "nonempty_bytes c msg v = (case v of PBytes b \<Rightarrow> if b = [] then raise c msg else Inr b | _ \<Rightarrow> raise c msg)"

definition check_protected :: "(pyval \<times> pyval) list \<Rightarrow> (bytes \<times> pystr \<times> pystr) res" where
  "check_protected h =
     require (py_eq (dict_get_or label_alg h PNone) (PInt alg_eddsa)) SCITTError ''protected alg must be EdDSA (-8)''
     (rbind (nonempty_bytes SCITTError ''protected kid must be a non-empty bstr'' (dict_get_or label_kid h PNone)) (\<lambda>kid.
      rbind (get_dict SCITTError ''protected header must carry CWT claims (label 15)''
          (dict_get_or label_cwt_claims h PNone)) (\<lambda>cwt.
      rbind (nonempty_text SCITTError ''CWT iss claim must be a non-empty string'' (dict_get_or cwt_iss cwt PNone)) (\<lambda>iss.
      rbind (nonempty_text SCITTError ''CWT sub claim must be a non-empty string'' (dict_get_or cwt_sub cwt PNone)) (\<lambda>sub.
      Inr (kid, iss, sub))))))"

record verified =
  v_message :: parsed
  v_payload :: bytes
  v_iss :: pystr
  v_sub :: pystr

definition content_of :: "bytes option \<Rightarrow> bytes option \<Rightarrow> bytes res" where
  "content_of detached pl = (case detached of
     Some d \<Rightarrow> (case pl of None \<Rightarrow> Inr d | Some _ \<Rightarrow> raise SCITTError ''expected a detached (nil) payload'')
   | None \<Rightarrow> of_option SCITTError ''nil payload without detached content'' pl)"

definition scitt_verify :: "prims \<Rightarrow> bytes \<Rightarrow> trust \<Rightarrow> bytes option \<Rightarrow> verified res" where
  "scitt_verify P message trusted detached =
     rbind (scitt_parse message) (\<lambda>m.
     rbind (check_protected (p_protected m)) (\<lambda>(kid, iss, sub).
     rbind (content_of detached (p_payload m)) (\<lambda>pl.
     rbind (of_option SCITTError ''unknown kid'' (trusted kid)) (\<lambda>key.
     rbind (sig_structure (p_body m) [] pl) (\<lambda>ss.
     require (ed_verify P key (p_signature m) ss) SCITTError ''signature verification failed''
       (Inr \<lparr>v_message = m, v_payload = pl, v_iss = iss, v_sub = sub\<rparr>))))))"

section \<open>Signed statements\<close>

definition statement_payload :: "pystr \<Rightarrow> pystr \<Rightarrow> pystr \<Rightarrow> (pyval \<times> pyval) list \<Rightarrow> pyval" where
  "statement_payload typ subject issued_at claims = PDict
     [(str_key ''statement_type'', PStr typ), (str_key ''subject'', PStr subject),
      (str_key ''issued_at'', PStr issued_at), (str_key ''claims'', PDict claims)]"

definition statement_header :: "pystr \<Rightarrow> bytes \<Rightarrow> pystr \<Rightarrow> (pyval \<times> pyval) list" where
  "statement_header iss kid sub =
     [(label_cwt_claims, PDict [(cwt_iss, PStr iss), (cwt_sub, PStr sub)]),
      (label_alg, PInt alg_eddsa), (label_kid, PBytes kid)]"

definition issue_statement :: "pystr \<Rightarrow> pyval \<Rightarrow> pyval \<Rightarrow> signer \<Rightarrow> pystr option \<Rightarrow> pystr \<Rightarrow> bytes res" where
  "issue_statement typ subject_v claims_v issuer issued_at now_iso =
     require (key_id issuer \<noteq> []) SCITTError ''statement issuer key id must not be empty''
     (rbind (nonempty_text SCITTError ''statement subject must be a non-empty string'' subject_v) (\<lambda>subject.
      require (typ \<in> set known_statement_types) SCITTError ''unknown statement type''
      (rbind (get_dict SCITTError ''statement claims must be a mapping'' claims_v) (\<lambda>claims.
       let at = (case issued_at of Some t \<Rightarrow> if t = [] then now_iso else t | None \<Rightarrow> now_iso) in
       rbind (cbor_dumps (statement_payload typ subject at claims)) (\<lambda>pl.
       rbind (utf8_encode (key_id issuer)) (\<lambda>kid.
       scitt_sign (Some pl) (statement_header (key_id issuer) kid subject) [] (sign_bytes issuer) None))))))"

record view =
  view_issuer :: pystr
  view_subject :: pystr
  view_type :: pyval
  view_issued_at :: pyval
  view_claims :: pyval
  view_raw :: bytes

text \<open>\<^verbatim>\<open>v in\<close> a frozenset of strings: an unhashable value raises.\<close>

definition in_str_set :: "pyval \<Rightarrow> pystr list \<Rightarrow> bool res" where
  "in_str_set v S = require (hashable v) TypeError ''unhashable type''
     (Inr (\<exists>s \<in> set S. v = PStr s))"

definition body_of :: "bytes \<Rightarrow> (pyval \<times> pyval) list res" where
  "body_of pl = rbind (except CBORError SCITTError ''statement payload is not CBOR'' (cbor_loads pl))
     (get_dict SCITTError ''statement payload must be a map'')"

definition view_of :: "pystr \<Rightarrow> pystr \<Rightarrow> (pyval \<times> pyval) list \<Rightarrow> bytes \<Rightarrow> view" where
  "view_of iss sub body raw = \<lparr>view_issuer = iss, view_subject = sub,
     view_type = dict_get_or (str_key ''statement_type'') body PNone,
     view_issued_at = dict_get_or (str_key ''issued_at'') body PNone,
     view_claims = or_empty_dict (dict_get_or (str_key ''claims'') body PNone), view_raw = raw\<rparr>"

definition parse_statement :: "prims \<Rightarrow> bytes \<Rightarrow> trust \<Rightarrow> bool \<Rightarrow> view res" where
  "parse_statement P statement trusted allow_receipts =
     rbind (scitt_verify P statement trusted None) (\<lambda>v.
     require (\<not> (truthy (dict_get_or label_receipts (p_unprotected (v_message v)) PNone) \<and> \<not> allow_receipts))
       SCITTError ''parse_statement refuses statements carrying receipts''
     (rbind (body_of (v_payload v)) (\<lambda>body.
      require (dict_get_or (str_key ''subject'') body PNone = PStr (v_sub v)) SCITTError
        ''statement subject mismatch between header and payload''
      (rbind (in_str_set (dict_get_or (str_key ''statement_type'') body PNone) known_statement_types) (\<lambda>known.
       require known SCITTError ''unknown statement type in payload''
         (Inr (view_of (v_iss v) (v_sub v) body statement)))))))"

section \<open>The transparency log\<close>

record tlog =
  log_signer :: signer
  log_issuers :: "trust option"
  log_types :: "pystr list"
  log_policy :: "(view \<Rightarrow> unit res) option"
  log_statements :: "bytes list"
  log_leaves :: "bytes list"

definition new_log :: "signer \<Rightarrow> trust option \<Rightarrow> pystr list option \<Rightarrow> (view \<Rightarrow> unit res) option \<Rightarrow> tlog res" where
  "new_log sg trusted types policy =
     require (key_id sg \<noteq> []) SCITTError ''transparency log key id must not be empty''
     (Inr \<lparr>log_signer = sg, log_issuers = trusted,
        log_types = (case types of Some ts \<Rightarrow> ts | None \<Rightarrow> known_statement_types), log_policy = policy,
        log_statements = [], log_leaves = []\<rparr>)"

definition tree_size :: "tlog \<Rightarrow> int" where
  "tree_size t = int (length (log_statements t))"

definition log_root :: "prims \<Rightarrow> tlog \<Rightarrow> bytes res" where
  "log_root P t = require (log_leaves t \<noteq> []) SCITTError ''empty transparency log has no root''
     (mth P (log_leaves t))"

definition parse_untrusted :: "bytes \<Rightarrow> view res" where
  "parse_untrusted statement =
     rbind (scitt_parse statement) (\<lambda>m.
     rbind (check_protected (p_protected m)) (\<lambda>(_, iss, sub).
     rbind (body_of (case p_payload m of Some b \<Rightarrow> b | None \<Rightarrow> [])) (\<lambda>body.
     Inr (view_of iss sub body statement))))"

definition admit_statement :: "prims \<Rightarrow> tlog \<Rightarrow> bytes \<Rightarrow> view res" where
  "admit_statement P t statement =
     rbind (case log_issuers t of Some trusted \<Rightarrow> parse_statement P statement trusted False
            | None \<Rightarrow> parse_untrusted statement) (\<lambda>v.
     rbind (in_str_set (view_type v) (log_types t)) (\<lambda>allowed.
     require allowed SCITTError ''registration policy refuses type''
     (rbind (case log_policy t of Some f \<Rightarrow> f v | None \<Rightarrow> Inr ()) (\<lambda>_. Inr v))))"

definition receipt_header :: "pystr \<Rightarrow> bytes \<Rightarrow> pystr \<Rightarrow> (pyval \<times> pyval) list" where
  "receipt_header iss kid sub =
     [(label_cwt_claims, PDict [(cwt_iss, PStr iss), (cwt_sub, PStr sub)]),
      (label_alg, PInt alg_eddsa), (label_kid, PBytes kid), (label_vds, PInt vds_rfc9162_sha256)]"

definition proof_map :: "int \<Rightarrow> int \<Rightarrow> bytes list \<Rightarrow> pyval" where
  "proof_map i n path = PDict
     [(str_key ''proof_type'', PInt proof_type_inclusion), (str_key ''leaf_index'', PInt i),
      (str_key ''tree_size'', PInt n), (str_key ''audit_path'', PList (map (\<lambda>p. PStr (to_hex p)) path))]"

definition receipt_for :: "prims \<Rightarrow> tlog \<Rightarrow> bytes \<Rightarrow> bytes res" where
  "receipt_for P t raw =
     (let n = int (length (log_statements t)); i = n - 1 in
      rbind (mth P (log_leaves t)) (\<lambda>root.
      rbind (audit_path P (log_leaves t) i) (\<lambda>path.
      rbind (utf8_encode (key_id (log_signer t))) (\<lambda>kid.
      scitt_sign None (receipt_header (key_id (log_signer t)) kid (to_hex (sha256 P raw)))
        [(label_vdp, proof_map i n path)] (sign_bytes (log_signer t)) (Some root)))))"

text \<open>
  The statement is appended before the receipt is made: an error after that leaves it in
  the log.
\<close>

definition register :: "prims \<Rightarrow> bytes \<Rightarrow> tlog \<Rightarrow> bytes res \<times> tlog" where
  "register P statement t =
     (case admit_statement P t statement of
        Inl e \<Rightarrow> (Inl e, t)
      | Inr v \<Rightarrow>
          let t' = t\<lparr>log_statements := log_statements t @ [statement],
                     log_leaves := log_leaves t @ [leaf P statement]\<rparr>
          in (receipt_for P t' statement, t'))"

section \<open>Transparent statements\<close>

definition get_list :: "exn_class \<Rightarrow> string \<Rightarrow> pyval \<Rightarrow> pyval list res" where
  "get_list c msg v = (case v of PList vs \<Rightarrow> Inr vs | _ \<Rightarrow> raise c msg)"

definition add_receipt :: "bytes \<Rightarrow> bytes \<Rightarrow> bytes res" where
  "add_receipt statement receipt =
     rbind (scitt_parse statement) (\<lambda>m.
     require (p_payload m \<noteq> None) SCITTError ''cannot attach a receipt to a detached-payload statement''
     (rbind (scitt_parse receipt) (\<lambda>_.
      rbind (get_list SCITTError ''receipts header (394) must be a list''
          (dict_get_or label_receipts (p_unprotected m) (PList []))) (\<lambda>receipts.
      cbor_dumps (PList [PBytes (p_body m),
        PDict (dict_set label_receipts (PList (receipts @ [PBytes receipt])) (p_unprotected m)),
        opt_bytes (p_payload m), PBytes (p_signature m)])))))"

record receipt_info =
  ri_log :: pystr
  ri_index :: int
  ri_size :: int

text \<open>
  The clause \<^verbatim>\<open>except (KeyError, ValueError, TypeError)\<close> around the reading of the
  inclusion proof.
\<close>

definition malformed_proof :: "'a res \<Rightarrow> 'a res" where
  "malformed_proof r = except TypeError SCITTError ''malformed inclusion proof''
     (except ValueError SCITTError ''malformed inclusion proof''
       (except KeyError SCITTError ''malformed inclusion proof'' r))"

definition dict_item :: "pyval \<Rightarrow> (pyval \<times> pyval) list \<Rightarrow> pyval res" where
  "dict_item k d = of_option KeyError ''key not found'' (dict_get k d)"

definition read_proof :: "(pyval \<times> pyval) list \<Rightarrow> (int \<times> int \<times> bytes list) res" where
  "read_proof vdp = malformed_proof
     (rbind (rbind (dict_item (str_key ''leaf_index'') vdp) int_of) (\<lambda>i.
      rbind (rbind (dict_item (str_key ''tree_size'') vdp) int_of) (\<lambda>n.
      rbind (rbind (dict_item (str_key ''audit_path'') vdp) iterate) (\<lambda>vs.
      rbind (rmap hex_of vs) (\<lambda>path. Inr (i, n, path))))))"

definition verify_receipt :: "prims \<Rightarrow> bytes \<Rightarrow> bytes \<Rightarrow> trust \<Rightarrow> receipt_info res" where
  "verify_receipt P receipt statement logs =
     rbind (scitt_parse receipt) (\<lambda>m.
     rbind (check_protected (p_protected m)) (\<lambda>(kid, iss, sub).
     require (sub = to_hex (sha256 P statement)) SCITTError ''receipt subject is not this statement's hash''
     (require (py_eq (dict_get_or label_vds (p_protected m) PNone) (PInt vds_rfc9162_sha256)) SCITTError
        ''receipt vds must be 1 (RFC9162_SHA256)''
     (rbind (get_dict SCITTError ''receipt must carry its inclusion proof (vdp, label 396)''
        (dict_get_or label_vdp (p_unprotected m) PNone)) (\<lambda>vdp.
      require (py_eq (dict_get_or (str_key ''proof_type'') vdp PNone) (PInt proof_type_inclusion)) SCITTError
        ''receipt proof_type must be -1 (inclusion)''
      (rbind (read_proof vdp) (\<lambda>(i, n, path).
       rbind (root_from_proof P (leaf P statement) i path n) (\<lambda>root.
       rbind (scitt_verify P receipt logs (Some root)) (\<lambda>_.
       Inr \<lparr>ri_log = iss, ri_index = i, ri_size = n\<rparr>)))))))))"

definition strip_receipts :: "(pyval \<times> pyval) list \<Rightarrow> (pyval \<times> pyval) list" where
  "strip_receipts u = filter (\<lambda>(k, _). \<not> py_eq k label_receipts) u"

definition receipts_of :: "pyval \<Rightarrow> bytes list res" where
  "receipts_of v =
     rbind (get_list SCITTError ''not a transparent statement: no receipts in unprotected header (394)'' v) (\<lambda>rs.
     require (rs \<noteq> []) SCITTError ''not a transparent statement: no receipts in unprotected header (394)''
     (rmap (get_bytes SCITTError ''receipt entries must be byte strings'') rs))"

definition verify_transparent_statement :: "prims \<Rightarrow> bytes \<Rightarrow> trust \<Rightarrow> trust \<Rightarrow> (view \<times> receipt_info list) res" where
  "verify_transparent_statement P transparent issuers logs =
     rbind (parse_statement P transparent issuers True) (\<lambda>v.
     rbind (scitt_parse transparent) (\<lambda>m.
     rbind (receipts_of (dict_get_or label_receipts (p_unprotected m) PNone)) (\<lambda>receipts.
     rbind (cbor_dumps (PList [PBytes (p_body m), PDict (strip_receipts (p_unprotected m)),
        opt_bytes (p_payload m), PBytes (p_signature m)])) (\<lambda>bare.
     rbind (rmap (\<lambda>r. verify_receipt P r bare logs) receipts) (\<lambda>infos.
     Inr (v, infos))))))"

end
