(* ===== verification/Scitt_Laws.thy ===== *)
theory Scitt_Laws
  imports Scitt
begin

text \<open>
  What the codec of \<^verbatim>\<open>scitt.py\<close> does on the messages the module itself makes, and
  what a verified message, a verified receipt and the log's state establish.
\<close>

section \<open>Lookups in a decoded map\<close>

lemma uniform_key_unique:
  "uniform_keys ks \<Longrightarrow> i \<in> set ks \<Longrightarrow> j \<in> set ks \<Longrightarrow> py_eq i k \<Longrightarrow> py_eq j k \<Longrightarrow> i = j"
  by (cases i; cases j) (auto simp: uniform_keys_def list_all_iff split: option.splits)

lemma dict_get_SomeD: "dict_get k d = Some v \<Longrightarrow> \<exists>k'. (k', v) \<in> set d \<and> py_eq k' k"
  by (induction k d rule: dict_get.induct) (auto split: if_splits)

lemma dict_get_None: "dict_get k d = None \<longleftrightarrow> (\<forall>(k', v) \<in> set d. \<not> py_eq k' k)"
  by (induction k d rule: dict_get.induct) auto

lemma dict_get_eq_Some:
  assumes "uniform_keys (map fst d)" "distinct (map fst d)"
  shows "dict_get k d = Some v \<longleftrightarrow> (\<exists>k'. (k', v) \<in> set d \<and> py_eq k' k)"
proof
  assume "\<exists>k'. (k', v) \<in> set d \<and> py_eq k' k"
  then obtain k' where k': "(k', v) \<in> set d" "py_eq k' k" by blast
  then obtain w where w: "dict_get k d = Some w" by (cases "dict_get k d") (auto simp: dict_get_None)
  then obtain k'' where k'': "(k'', w) \<in> set d" "py_eq k'' k" using dict_get_SomeD by blast
  have "k' \<in> set (map fst d)" "k'' \<in> set (map fst d)" using k'(1) k''(1) by force+
  then have "k'' = k'" using uniform_key_unique [OF assms(1)] k'(2) k''(2) by blast
  then have "w = v" using k'(1) k''(1) assms(2) by (metis eq_key_imp_eq_value)
  with w show "dict_get k d = Some v" by simp
qed (rule dict_get_SomeD)

lemma dict_get_permuted:
  assumes "uniform_keys (map fst d)" "distinct (map fst d)" "mset d = mset e"
  shows "dict_get k e = dict_get k d"
proof -
  have s: "set e = set d" using assms(3) by (metis set_mset_mset)
  have "mset (map fst e) = mset (map fst d)" using assms(3) by simp
  then have "distinct (map fst e)" using assms(2) mset_eq_imp_distinct_iff by blast
  moreover have "uniform_keys (map fst e)"
    using assms(1) s by (auto simp: uniform_keys_def list_all_iff)
  ultimately have "dict_get k e = Some v \<longleftrightarrow> dict_get k d = Some v" for v
    using s assms(1,2) by (simp add: dict_get_eq_Some)
  then show ?thesis by (cases "dict_get k d"; cases "dict_get k e") auto
qed

lemma dict_get_nf_pairs: "dict_get k (nf_pairs d) = map_option nf (dict_get k d)"
  by (induction d) auto

lemma fst_nf_pairs [simp]: "map fst (nf_pairs d) = map fst d"
  by (induction d) auto

lemma dict_get_nf:
  assumes "uniform_keys (map fst d)" "distinct (map fst d)"
  shows "dict_get k (sort_key entry_order (nf_pairs d)) = map_option nf (dict_get k d)"
  using dict_get_permuted [of "nf_pairs d" "sort_key entry_order (nf_pairs d)"] assms
  by (simp add: dict_get_nf_pairs)

lemma dict_get_or_nf:
  assumes "uniform_keys (map fst d)" "distinct (map fst d)" "nf v = v"
  shows "dict_get_or k (sort_key entry_order (nf_pairs d)) v = nf (dict_get_or k d v)"
  using dict_get_nf [OF assms(1,2), of k] assms(3) by (auto simp: dict_get_or_def split: option.splits)

section \<open>Reading back what was signed\<close>

lemma get_opt_bytes_simps [simp]: "get_opt_bytes c msg (opt_bytes b) = Inr b"
  by (cases b) (simp_all add: get_opt_bytes_def opt_bytes_def)

lemma get_opt_bytes_eq_Inr [simp, ok_elims]: "get_opt_bytes c msg v = Inr b \<longleftrightarrow> v = opt_bytes b"
  by (cases v; cases b) (auto simp: get_opt_bytes_def opt_bytes_def)

lemma get_list_eq_Inr [simp, ok_elims]: "get_list c msg v = Inr vs \<longleftrightarrow> v = PList vs"
  by (cases v) (auto simp: get_list_def)

lemma nonempty_text_eq_Inr [simp, ok_elims]: "nonempty_text c msg v = Inr s \<longleftrightarrow> v = PStr s \<and> s \<noteq> []"
  by (cases v) (auto simp: nonempty_text_def)

lemma nonempty_bytes_eq_Inr [simp, ok_elims]: "nonempty_bytes c msg v = Inr b \<longleftrightarrow> v = PBytes b \<and> b \<noteq> []"
  by (cases v) (auto simp: nonempty_bytes_def)

lemma nf_opt_bytes [simp]: "nf (opt_bytes b) = opt_bytes b"
  by (cases b) (simp_all add: opt_bytes_def)

lemma plain_opt_bytes [simp]: "plain (Suc d) (opt_bytes b)"
  by (cases b) (simp_all add: opt_bytes_def)

definition cose_array :: "bytes \<Rightarrow> (pyval \<times> pyval) list \<Rightarrow> bytes option \<Rightarrow> bytes \<Rightarrow> pyval" where
  "cose_array body u pl sig = PList [PBytes body, PDict u, opt_bytes pl, PBytes sig]"

abbreviation plain_map :: "(pyval \<times> pyval) list \<Rightarrow> bool" where
  "plain_map d \<equiv> plain max_recursion_depth (PDict d)"

text \<open>The entries of a map as they come back from the decoder.\<close>

abbreviation nf_map :: "(pyval \<times> pyval) list \<Rightarrow> (pyval \<times> pyval) list" where
  "nf_map d \<equiv> sort_key entry_order (nf_pairs d)"

lemma plain_cose_array: "plain (Suc d) (PDict u) \<Longrightarrow> plain (Suc (Suc d)) (cose_array body u pl sig)"
  by (simp add: cose_array_def)

lemma max_recursion_depth_Suc: "max_recursion_depth = Suc 63"
  by (simp add: max_recursion_depth_def)

lemma loads_cose_array:
  assumes "plain_map u" "cbor_dumps (cose_array body u pl sig) = Inr m"
  shows "cbor_loads m = Inr (cose_array body (nf_map u) pl sig)"
proof -
  have "cbor_plain (cose_array body u pl sig)"
    unfolding max_recursion_depth_Suc
    by (rule plain_cose_array, rule assms(1) [unfolded max_recursion_depth_Suc])
  from cbor_loads_dumps [OF this assms(2)] show ?thesis by (simp add: cose_array_def)
qed

lemma plain_deeper: "plain d v \<Longrightarrow> plain (Suc d) v"
proof (induction d v rule: plain.induct)
  case (4 d vs)
  then show ?case by (auto simp: list_all_iff)
next
  case (5 d kvs)
  then show ?case by (auto simp: list_all_iff)
qed auto

lemma parse_cose_array:
  assumes "plain_map u" "plain_map h" "cbor_dumps (PDict h) = Inr body" "length sig = 64"
    and "cbor_dumps (cose_array body u pl sig) = Inr m"
  shows "scitt_parse m = Inr \<lparr>p_protected = nf_map h, p_unprotected = nf_map u, p_payload = pl,
    p_signature = sig, p_body = body\<rparr>"
proof -
  have "cbor_loads body = Inr (PDict (nf_map h))"
    using cbor_loads_dumps [OF plain_deeper [OF assms(2)] assms(3)] by simp
  then show ?thesis
    using loads_cose_array [OF assms(1,5)] assms(4) by (simp add: scitt_parse_def cose_array_def)
qed

lemma scitt_sign_eq:
  "scitt_sign pl h u sign_fn det = Inr m \<longleftrightarrow> (pl = None \<or> det = None) \<and> (\<exists>body ss.
     cbor_dumps (PDict h) = Inr body \<and>
     sig_structure body [] (case det of Some d \<Rightarrow> d | None \<Rightarrow> case pl of Some p \<Rightarrow> p | None \<Rightarrow> []) = Inr ss \<and>
     length (sign_fn ss) = 64 \<and> cbor_dumps (cose_array body u pl (sign_fn ss)) = Inr m)"
  by (auto simp: scitt_sign_def cose_array_def Let_def)

lemma verify_cose_array:
  assumes "plain_map u" "plain_map h" "cbor_dumps (PDict h) = Inr body"
    and "cbor_dumps (cose_array body u pl (sign_bytes sg ss)) = Inr m"
    and "check_protected (nf_map h) = Inr (kid, iss, sub)" "content_of det pl = Inr content"
    and "sig_structure body [] content = Inr ss"
    and "signer_ok P sg" "trusted kid = Some (public_key_bytes sg)"
  shows "scitt_verify P m trusted det = Inr \<lparr>v_message = \<lparr>p_protected = nf_map h,
    p_unprotected = nf_map u, p_payload = pl, p_signature = sign_bytes sg ss, p_body = body\<rparr>,
    v_payload = content, v_iss = iss, v_sub = sub\<rparr>"
proof -
  have "length (sign_bytes sg ss) = 64" "ed_verify P (public_key_bytes sg) (sign_bytes sg ss) ss"
    using assms(8) by (auto simp: signer_ok_def)
  then show ?thesis
    using parse_cose_array [OF assms(1,2,3) _ assms(4)] assms(5-7,9) by (simp add: scitt_verify_def)
qed

section \<open>The headers of the module\<close>

lemmas label_defs = label_alg_def label_kid_def label_cwt_claims_def label_receipts_def label_vds_def
  label_vdp_def cwt_iss_def cwt_sub_def alg_eddsa_def vds_rfc9162_sha256_def proof_type_inclusion_def

lemma utf8_encode_eq_Nil [simp]: "utf8_encode s = Inr [] \<longleftrightarrow> s = []"
  using utf8_decode_encode by fastforce

lemma uniform_headers:
  "uniform_keys (map fst (statement_header iss kid sub))" "distinct (map fst (statement_header iss kid sub))"
  "uniform_keys (map fst (receipt_header iss kid sub))" "distinct (map fst (receipt_header iss kid sub))"
  "uniform_keys [cwt_iss, cwt_sub]" "distinct [cwt_iss, cwt_sub]"
  by (simp_all add: statement_header_def receipt_header_def uniform_keys_def label_defs)

lemma plain_headers: "plain_map (statement_header iss kid sub)" "plain_map (receipt_header iss kid sub)"
proof -
  have "plain (Suc (Suc (Suc d))) (PDict (statement_header iss kid sub))"
    "plain (Suc (Suc (Suc d))) (PDict (receipt_header iss kid sub))" for d
    by (simp_all add: statement_header_def receipt_header_def uniform_keys_def label_defs)
  from this [of 61] show "plain_map (statement_header iss kid sub)" "plain_map (receipt_header iss kid sub)"
    by (simp_all add: max_recursion_depth_def)
qed

lemma check_cwt:
  assumes "iss \<noteq> []" "sub \<noteq> []"
  shows "nonempty_text c m (dict_get_or cwt_iss (nf_map [(cwt_iss, PStr iss), (cwt_sub, PStr sub)]) PNone) = Inr iss"
    and "nonempty_text c m (dict_get_or cwt_sub (nf_map [(cwt_iss, PStr iss), (cwt_sub, PStr sub)]) PNone) = Inr sub"
  using dict_get_or_nf [of "[(cwt_iss, PStr iss), (cwt_sub, PStr sub)]" PNone] uniform_headers(5,6) assms
  by (simp_all add: dict_get_or_def) (simp_all add: label_defs)

lemma check_headers:
  assumes "iss \<noteq> []" "sub \<noteq> []" "kid \<noteq> []"
  shows "check_protected (nf_map (statement_header iss kid sub)) = Inr (kid, iss, sub)"
    and "check_protected (nf_map (receipt_header iss kid sub)) = Inr (kid, iss, sub)"
proof -
  have nf: "dict_get_or k (nf_map (statement_header iss kid sub)) PNone = nf (dict_get_or k (statement_header iss kid sub) PNone)"
    "dict_get_or k (nf_map (receipt_header iss kid sub)) PNone = nf (dict_get_or k (receipt_header iss kid sub) PNone)" for k
    by (simp_all add: dict_get_or_nf uniform_headers)
  show "check_protected (nf_map (statement_header iss kid sub)) = Inr (kid, iss, sub)"
    using assms check_cwt [OF assms(1,2)]
    by (simp add: check_protected_def nf) (simp add: statement_header_def dict_get_or_def label_defs)
  show "check_protected (nf_map (receipt_header iss kid sub)) = Inr (kid, iss, sub)"
    using assms check_cwt [OF assms(1,2)]
    by (simp add: check_protected_def nf) (simp add: receipt_header_def dict_get_or_def label_defs)
qed

section \<open>Statements\<close>

definition issue_time :: "pystr option \<Rightarrow> pystr \<Rightarrow> pystr" where
  "issue_time issued_at now_iso =
     (case issued_at of Some t \<Rightarrow> if t = [] then now_iso else t | None \<Rightarrow> now_iso)"

lemma issue_statement_eq:
  "issue_statement ty subject_v claims_v issuer issued_at now_iso = Inr st \<longleftrightarrow>
     key_id issuer \<noteq> [] \<and> ty \<in> set known_statement_types \<and> (\<exists>subject claims pl kid body ss.
       subject_v = PStr subject \<and> subject \<noteq> [] \<and> claims_v = PDict claims \<and>
       cbor_dumps (statement_payload ty subject (issue_time issued_at now_iso) claims) = Inr pl \<and>
       utf8_encode (key_id issuer) = Inr kid \<and>
       cbor_dumps (PDict (statement_header (key_id issuer) kid subject)) = Inr body \<and>
       sig_structure body [] pl = Inr ss \<and> length (sign_bytes issuer ss) = 64 \<and>
       cbor_dumps (cose_array body [] (Some pl) (sign_bytes issuer ss)) = Inr st)"
  by (auto simp: issue_statement_def scitt_sign_eq issue_time_def Let_def)

abbreviation body_entries :: "pystr \<Rightarrow> pystr \<Rightarrow> pystr \<Rightarrow> (pyval \<times> pyval) list \<Rightarrow> (pyval \<times> pyval) list" where
  "body_entries ty subject tm claims \<equiv> [(str_key ''statement_type'', PStr ty), (str_key ''subject'', PStr subject),
      (str_key ''issued_at'', PStr tm), (str_key ''claims'', PDict claims)]"

lemma body_of_payload:
  assumes "plain_map claims" "cbor_dumps (statement_payload ty subject tm claims) = Inr pl"
  shows "body_of pl = Inr (nf_map (body_entries ty subject tm claims))"
proof -
  have "plain (Suc (Suc d)) (statement_payload ty subject tm claims)" if "plain (Suc d) (PDict claims)" for d
    using that by (simp add: statement_payload_def uniform_keys_def)
  from this [of 63] have "cbor_plain (statement_payload ty subject tm claims)"
    using assms(1) by (simp only: max_recursion_depth_Suc)
  from cbor_loads_dumps [OF this assms(2)] show ?thesis by (simp add: body_of_def statement_payload_def)
qed

lemma body_lookup:
  "dict_get_or k (nf_map (body_entries ty subject tm claims)) PNone =
   nf (dict_get_or k (body_entries ty subject tm claims) PNone)"
  by (rule dict_get_or_nf) (simp_all add: uniform_keys_def)

lemma or_empty_nf [simp]: "or_empty_dict (nf (PDict d)) = nf (PDict d)"
proof (cases "nf_map d = []")
  case True
  then show ?thesis by (simp add: or_empty_dict_def)
qed (simp add: or_empty_dict_def)

definition statement_view :: "pystr \<Rightarrow> pystr \<Rightarrow> pystr \<Rightarrow> pystr \<Rightarrow> (pyval \<times> pyval) list \<Rightarrow> bytes \<Rightarrow> view" where
  "statement_view iss subject ty tm claims raw = \<lparr>view_issuer = iss, view_subject = subject,
     view_type = PStr ty, view_issued_at = PStr tm, view_claims = nf (PDict claims), view_raw = raw\<rparr>"

lemma parse_issued:
  assumes sg: "signer_ok P sg" "key_id sg \<noteq> []" "utf8_encode (key_id sg) = Inr kid"
      "trusted kid = Some (public_key_bytes sg)"
    and st: "ty \<in> set known_statement_types" "subject \<noteq> []" "plain_map claims"
      "cbor_dumps (statement_payload ty subject tm claims) = Inr pl"
      "cbor_dumps (PDict (statement_header (key_id sg) kid subject)) = Inr body"
      "sig_structure body [] pl = Inr ss"
    and u: "plain_map u" "cbor_dumps (cose_array body u (Some pl) (sign_bytes sg ss)) = Inr m"
      "truthy (dict_get_or label_receipts (nf_map u) PNone) \<longrightarrow> allow"
  shows "parse_statement P m trusted allow = Inr (statement_view (key_id sg) subject ty tm claims m)"
proof -
  have "kid \<noteq> []" using sg(2,3) by auto
  with sg(2) st(2) have "check_protected (nf_map (statement_header (key_id sg) kid subject)) = Inr (kid, key_id sg, subject)"
    by (simp add: check_headers)
  from verify_cose_array [where det = None and trusted = trusted and P = P and
    u = u and h = "statement_header (key_id sg) kid subject" and pl = "Some pl" and sg = sg and ss = ss,
    OF u(1) plain_headers(1) st(5) u(2) this _ st(6) sg(1,4)]
  have "scitt_verify P m trusted None = Inr \<lparr>v_message = \<lparr>p_protected = nf_map (statement_header (key_id sg) kid subject),
    p_unprotected = nf_map u, p_payload = Some pl, p_signature = sign_bytes sg ss, p_body = body\<rparr>,
    v_payload = pl, v_iss = key_id sg, v_sub = subject\<rparr>"
    by (simp add: content_of_def)
  moreover obtain b where b: "body_of pl = Inr b"
    "\<And>k. dict_get_or k b PNone = nf (dict_get_or k (body_entries ty subject tm claims) PNone)"
    using body_of_payload [OF st(3,4)] body_lookup by blast
  moreover have "dict_get_or (str_key ''subject'') b PNone = PStr subject"
    "dict_get_or (str_key ''statement_type'') b PNone = PStr ty"
    "dict_get_or (str_key ''issued_at'') b PNone = PStr tm"
    "dict_get_or (str_key ''claims'') b PNone = nf (PDict claims)"
    by (simp_all only: b(2)) (simp_all add: dict_get_or_def)
  ultimately show ?thesis
    using st(1) u(3)
    by (simp add: parse_statement_def view_of_def statement_view_def in_str_set_def del: nf.simps(2))
qed

section \<open>Receipts\<close>

abbreviation proof_entries :: "int \<Rightarrow> int \<Rightarrow> bytes list \<Rightarrow> (pyval \<times> pyval) list" where
  "proof_entries i n path \<equiv> [(str_key ''proof_type'', PInt proof_type_inclusion), (str_key ''leaf_index'', PInt i),
     (str_key ''tree_size'', PInt n), (str_key ''audit_path'', PList (map (\<lambda>p. PStr (to_hex p)) path))]"

lemma plain_proof: "plain_map [(label_vdp, proof_map i n path)]"
proof -
  have "plain (Suc (Suc (Suc (Suc (Suc d))))) (PDict [(label_vdp, proof_map i n path)])" for d
    by (simp add: proof_map_def uniform_keys_def label_defs list_all_iff)
  from this [of 59] show ?thesis by (simp add: max_recursion_depth_def)
qed

lemma rmap_hex_of: "rmap hex_of (map (\<lambda>p. PStr (to_hex p)) path) = Inr path"
  by (induction path) auto

lemma proof_lookup: "dict_get k (nf_map (proof_entries i n path)) = map_option nf (dict_get k (proof_entries i n path))"
  by (rule dict_get_nf) (simp_all add: uniform_keys_def)

lemma proof_fields:
  "dict_item (str_key ''leaf_index'') (nf_map (proof_entries i n path)) = Inr (PInt i)"
  "dict_item (str_key ''tree_size'') (nf_map (proof_entries i n path)) = Inr (PInt n)"
  "dict_item (str_key ''audit_path'') (nf_map (proof_entries i n path)) = Inr (PList (map (\<lambda>p. PStr (to_hex p)) path))"
  "dict_get_or (str_key ''proof_type'') (nf_map (proof_entries i n path)) v = PInt proof_type_inclusion"
  by (simp_all only: dict_item_def dict_get_or_def proof_lookup) (simp_all only: dict_get.simps, simp_all add: nf_items_map)

lemma read_proof_map: "read_proof (nf_map (proof_entries i n path)) = Inr (i, n, path)"
  by (simp only: read_proof_def proof_fields) (simp add: rmap_hex_of malformed_proof_def)

definition log_ok :: "prims \<Rightarrow> tlog \<Rightarrow> bool" where
  "log_ok P t \<longleftrightarrow> log_leaves t = map (leaf P) (log_statements t)"

lemma register_Inl: "admit_statement P t st = Inl e \<Longrightarrow> register P st t = (Inl e, t)"
  by (simp add: register_def)

lemma register_Inr:
  "admit_statement P t st = Inr v \<Longrightarrow> register P st t =
    (receipt_for P (snd (register P st t)) st, t\<lparr>log_statements := log_statements t @ [st],
      log_leaves := log_leaves t @ [leaf P st]\<rparr>)"
  by (simp add: register_def Let_def)

lemma verify_fresh_receipt:
  assumes ok: "prims_ok P" "log_ok P t" "log_statements t = ds @ [st]"
    and sg: "sg = log_signer t" "signer_ok P sg" "key_id sg \<noteq> []" "utf8_encode (key_id sg) = Inr kid"
      "logs kid = Some (public_key_bytes sg)"
    and r: "receipt_for P t st = Inr r"
  shows "verify_receipt P r st logs = Inr \<lparr>ri_log = key_id sg, ri_index = int (length ds), ri_size = int (length ds) + 1\<rparr>"
proof -
  let ?n = "int (length ds) + 1" and ?i = "int (length ds)" and ?sub = "to_hex (sha256 P st)"
  have leaves: "log_leaves t = map (leaf P) (ds @ [st])" using ok(2,3) by (simp add: log_ok_def)
  have at: "map (leaf P) (ds @ [st]) ! nat ?i = leaf P st" by (simp add: nth_append)
  have bounds: "0 \<le> ?i" "?i < int (length (map (leaf P) (ds @ [st])))" "map (leaf P) (ds @ [st]) \<noteq> []"
    by auto
  obtain root path where path: "mth P (map (leaf P) (ds @ [st])) = Inr root"
      "audit_path P (map (leaf P) (ds @ [st])) ?i = Inr path"
      "root_from_proof P (leaf P st) ?i path ?n = Inr root"
    using root_from_audit_path [OF bounds(3,1,2), of P] unfolding at by (auto simp: add.commute)
  have "scitt_sign None (receipt_header (key_id sg) kid ?sub) [(label_vdp, proof_map ?i ?n path)]
      (sign_bytes sg) (Some root) = Inr r"
    using r path(1,2) sg(1,4) ok(3) leaves by (simp add: receipt_for_def Let_def add.commute)
  then obtain body ss where m: "cbor_dumps (PDict (receipt_header (key_id sg) kid ?sub)) = Inr body"
      "sig_structure body [] root = Inr ss"
      "cbor_dumps (cose_array body [(label_vdp, proof_map ?i ?n path)] None (sign_bytes sg ss)) = Inr r"
      "length (sign_bytes sg ss) = 64"
    by (auto simp: scitt_sign_eq)
  have "length (sha256 P st) = 32" using ok(1) by (simp add: prims_ok_def)
  then have "?sub \<noteq> []" by auto
  moreover have "kid \<noteq> []" using sg(3,4) by auto
  ultimately have cp: "check_protected (nf_map (receipt_header (key_id sg) kid ?sub)) = Inr (kid, key_id sg, ?sub)"
    using sg(3) by (simp add: check_headers)
  note parse = parse_cose_array [OF plain_proof plain_headers(2) m(1,4,3)]
  have cd: "content_of (Some root) None = Inr root" by (simp add: content_of_def)
  note ver = verify_cose_array [where h = "receipt_header (key_id sg) kid ?sub" and pl = None and sg = sg and ss = ss
      and trusted = logs and P = P, OF plain_proof plain_headers(2) m(1,3) cp cd m(2) sg(2,5)]
  have vds: "dict_get_or label_vds (nf_map (receipt_header (key_id sg) kid ?sub)) PNone = PInt vds_rfc9162_sha256"
    by (subst dict_get_or_nf) (simp_all add: uniform_headers, simp add: receipt_header_def dict_get_or_def label_defs)
  have vdp: "dict_get_or label_vdp (nf_map [(label_vdp, proof_map ?i ?n path)]) PNone = PDict (nf_map (proof_entries ?i ?n path))"
    by (simp add: dict_get_or_def proof_map_def label_defs)
  show ?thesis
    by (simp only: verify_receipt_def parse ver rbind_simps parsed.simps cp vds vdp get_dict_simps proof_fields
        read_proof_map path(3) prod.case require_True refl) (simp add: label_defs)
qed

end
