(* ===== verification/Scitt_Properties.thy ===== *)
theory Scitt_Properties
  imports Scitt_Laws Single_Use Instances
begin

text \<open>
  The properties of statements, receipts and the transparency log: what a verified
  transparent statement establishes, that a registered statement becomes one, that the log only
  grows, and the paths of its Merkle tree.
\<close>

section \<open>What a transparent statement establishes\<close>

text \<open>The strings hashed to recompute a root from a path and to build a list's root.\<close>

definition inclusion_inputs :: "prims \<Rightarrow> bytes \<Rightarrow> int \<Rightarrow> bytes list \<Rightarrow> int \<Rightarrow> bytes list \<Rightarrow> bytes set" where
  "inclusion_inputs P d i path n ds = insert (leaf_in d)
     (climb_inputs (sha256 P) node_in (leaf P d) (proof_steps i path n) \<union>
      tree_inputs (sha256 P) leaf_in node_in (shape_of ds))"

text \<open>
  A receipt shows that a trusted log key signed a root that the statement leads to; every list
  of statements with that root holds the statement, unless two of the hashed strings collide.
\<close>

definition receipt_shows :: "prims \<Rightarrow> bytes \<Rightarrow> trust \<Rightarrow> bytes \<Rightarrow> receipt_info \<Rightarrow> bool" where
  "receipt_shows P bare logs r info \<longleftrightarrow> (\<exists>m kid path root key ss.
     scitt_parse r = Inr m \<and> check_protected (p_protected m) = Inr (kid, ri_log info, to_hex (sha256 P bare)) \<and>
     root_from_proof P (leaf P bare) (ri_index info) path (ri_size info) = Inr root \<and>
     logs kid = Some key \<and> sig_structure (p_body m) [] root = Inr ss \<and> ed_verify P key (p_signature m) ss \<and>
     (\<forall>ds. ds \<noteq> [] \<and> mth P (map (leaf P) ds) = Inr root \<longrightarrow>
        collides (sha256 P) (inclusion_inputs P bare (ri_index info) path (ri_size info) ds) \<or> bare \<in> set ds))"

definition issuer_signed :: "prims \<Rightarrow> parsed \<Rightarrow> trust \<Rightarrow> view \<Rightarrow> bool" where
  "issuer_signed P m issuers v \<longleftrightarrow> (\<exists>kid key pl ss body.
     check_protected (p_protected m) = Inr (kid, view_issuer v, view_subject v) \<and> issuers kid = Some key \<and>
     p_payload m = Some pl \<and> sig_structure (p_body m) [] pl = Inr ss \<and> ed_verify P key (p_signature m) ss \<and>
     cbor_loads pl = Inr (PDict body) \<and> dict_get_or (str_key ''subject'') body PNone = PStr (view_subject v) \<and>
     v = view_of (view_issuer v) (view_subject v) body (view_raw v) \<and>
     (\<exists>typ \<in> set known_statement_types. view_type v = PStr typ))"

lemma scitt_verify_eq:
  "scitt_verify P message trusted det = Inr v \<longleftrightarrow> (\<exists>kid key ss. scitt_parse message = Inr (v_message v) \<and>
     check_protected (p_protected (v_message v)) = Inr (kid, v_iss v, v_sub v) \<and>
     content_of det (p_payload (v_message v)) = Inr (v_payload v) \<and> trusted kid = Some key \<and>
     sig_structure (p_body (v_message v)) [] (v_payload v) = Inr ss \<and>
     ed_verify P key (p_signature (v_message v)) ss)"
  by (cases v) (auto simp: scitt_verify_def)

lemma body_of_eq [simp]: "body_of pl = Inr body \<longleftrightarrow> cbor_loads pl = Inr (PDict body)"
  by (simp add: body_of_def)

lemma in_str_set_eq [simp]: "in_str_set v S = Inr b \<longleftrightarrow> hashable v \<and> b = (\<exists>s \<in> set S. v = PStr s)"
  by (auto simp: in_str_set_def)

lemma content_attached [simp]: "content_of None pl = Inr c \<longleftrightarrow> pl = Some c"
  by (cases pl) (auto simp: content_of_def)

lemma content_detached [simp]: "content_of (Some d) pl = Inr c \<longleftrightarrow> pl = None \<and> c = d"
  by (cases pl) (auto simp: content_of_def)

lemma view_of_sel [simp]:
  "view_issuer (view_of iss sub body raw) = iss" "view_subject (view_of iss sub body raw) = sub"
  "view_raw (view_of iss sub body raw) = raw"
  "view_type (view_of iss sub body raw) = dict_get_or (str_key ''statement_type'') body PNone"
  by (simp_all add: view_of_def)

lemma parse_statement_signed:
  assumes "parse_statement P m trusted allow = Inr v"
  shows "\<exists>q. scitt_parse m = Inr q \<and> issuer_signed P q trusted v \<and> view_raw v = m"
proof -
  from assms obtain w body where w: "scitt_verify P m trusted None = Inr w"
    "cbor_loads (v_payload w) = Inr (PDict body)"
    "dict_get_or (str_key ''subject'') body PNone = PStr (v_sub w)"
    "\<exists>s \<in> set known_statement_types. dict_get_or (str_key ''statement_type'') body PNone = PStr s"
    "v = view_of (v_iss w) (v_sub w) body m"
    by (auto simp: parse_statement_def)
  then show ?thesis by (auto simp: scitt_verify_eq issuer_signed_def)
qed

lemma verify_receipt_shows:
  assumes "prims_ok P" "verify_receipt P r bare logs = Inr info"
  shows "receipt_shows P bare logs r info"
proof -
  from assms(2) obtain m kid iss path root where m: "scitt_parse r = Inr m"
    "check_protected (p_protected m) = Inr (kid, iss, to_hex (sha256 P bare))"
    "root_from_proof P (leaf P bare) (ri_index info) path (ri_size info) = Inr root"
    "\<exists>w. scitt_verify P r logs (Some root) = Inr w" "iss = ri_log info"
    by (auto simp: verify_receipt_def)
  from m(4) obtain key ss where s: "logs kid = Some key" "sig_structure (p_body m) [] root = Inr ss"
    "ed_verify P key (p_signature m) ss"
    using m(1,2) by (auto simp: scitt_verify_eq)
  have "collides (sha256 P) (inclusion_inputs P bare (ri_index info) path (ri_size info) ds) \<or> bare \<in> set ds"
    if "ds \<noteq> []" "mth P (map (leaf P) ds) = Inr root" for ds
    using log_inclusion_sound [OF assms(1) that m(3)] by (auto simp: inclusion_inputs_def)
  with m s show ?thesis by (auto simp: receipt_shows_def)
qed

lemma receipts_of_eq: "receipts_of v = Inr rs \<longleftrightarrow> v = PList (map PBytes rs) \<and> rs \<noteq> []"
proof -
  have "rmap (get_bytes c msg) vs = Inr rs \<longleftrightarrow> vs = map PBytes rs" for c msg vs
    by (induction vs arbitrary: rs) auto
  then show ?thesis by (auto simp: receipts_of_def)
qed

text \<open>C18: a verified transparent statement is what its issuer and the logs vouch for: a trusted issuer key
  signed the payload with the reported type, subject and claims, and for every one of its receipts, of
  which there is at least one, a trusted log key signed a Merkle root from which the statement
  cannot be missing: any list of statements with that root contains it, whatever position and
  tree size the receipt claims, unless two explicitly given strings collide under SHA-256.\<close>

theorem transparent_statement_sound:
  assumes "prims_ok P" "verify_transparent_statement P tr issuers logs = Inr (v, infos)"
  shows "\<exists>m bare rs. scitt_parse tr = Inr m \<and> issuer_signed P m issuers v \<and> view_raw v = tr \<and>
    dict_get_or label_receipts (p_unprotected m) PNone = PList (map PBytes rs) \<and> rs \<noteq> [] \<and>
    cbor_dumps (PList [PBytes (p_body m), PDict (strip_receipts (p_unprotected m)),
      opt_bytes (p_payload m), PBytes (p_signature m)]) = Inr bare \<and>
    list_all2 (receipt_shows P bare logs) rs infos"
proof -
  from assms(2) obtain m bare rs where *: "parse_statement P tr issuers True = Inr v" "scitt_parse tr = Inr m"
    "dict_get_or label_receipts (p_unprotected m) PNone = PList (map PBytes rs)" "rs \<noteq> []"
    "cbor_dumps (PList [PBytes (p_body m), PDict (strip_receipts (p_unprotected m)),
      opt_bytes (p_payload m), PBytes (p_signature m)]) = Inr bare"
    "rmap (\<lambda>r. verify_receipt P r bare logs) rs = Inr infos"
    by (auto simp: verify_transparent_statement_def receipts_of_eq)
  have "list_all2 (receipt_shows P bare logs) rs infos"
    using *(6) verify_receipt_shows [OF assms(1)] by (auto simp: rmap_eq_Inr intro: list_all2_mono)
  moreover have "issuer_signed P m issuers v" "view_raw v = tr"
    using parse_statement_signed [OF *(1)] *(2) by auto
  ultimately show ?thesis using * by blast
qed

section \<open>Registration\<close>

lemma receipt_entry: "nf_map [(label_receipts, PList [PBytes r])] = [(label_receipts, PList [PBytes r])]"
  "plain_map [(label_receipts, PList [PBytes r])]"
  "strip_receipts [(label_receipts, PList [PBytes r])] = []"
  "dict_get_or label_receipts [(label_receipts, PList [PBytes r])] PNone = PList [PBytes r]"
proof -
  have "plain (Suc (Suc (Suc d))) (PDict [(label_receipts, PList [PBytes r])])" for d
    by (simp add: uniform_keys_def label_defs)
  from this [of 61] show "plain_map [(label_receipts, PList [PBytes r])]"
    by (simp add: max_recursion_depth_def)
qed (simp_all add: label_defs strip_receipts_def dict_get_or_def)

lemma plain_empty: "plain_map []"
proof -
  have "plain (Suc d) (PDict [])" for d by (simp add: uniform_keys_def)
  from this [of 63] show ?thesis by (simp add: max_recursion_depth_def)
qed

lemma add_receipt_issued:
  assumes "cbor_dumps (PDict (statement_header iss kid sub)) = Inr body"
    and "cbor_dumps (cose_array body [] (Some pl) sig) = Inr st" "length sig = 64"
    and "add_receipt st r = Inr tr"
  shows "cbor_dumps (cose_array body [(label_receipts, PList [PBytes r])] (Some pl) sig) = Inr tr"
  using assms(4) parse_cose_array [OF plain_empty plain_headers(1) assms(1,3,2)]
  by (auto simp: add_receipt_def cose_array_def dict_get_or_def)

lemma registered_verifies:
  assumes P: "prims_ok P" "log_ok P t"
    and issuer: "signer_ok P issuer" "utf8_encode (key_id issuer) = Inr kid" "issuers kid = Some (public_key_bytes issuer)"
    and log: "signer_ok P (log_signer t)" "key_id (log_signer t) \<noteq> []" "utf8_encode (key_id (log_signer t)) = Inr lkid"
      "logs lkid = Some (public_key_bytes (log_signer t))"
    and claims: "plain max_recursion_depth (PDict claims)"
    and run: "issue_statement typ (PStr subject) (PDict claims) issuer at now_iso = Inr st"
      "register P st t = (Inr r, t')" "add_receipt st r = Inr tr"
  shows "verify_transparent_statement P tr issuers logs =
    Inr (statement_view (key_id issuer) subject typ (issue_time at now_iso) claims tr,
         [\<lparr>ri_log = key_id (log_signer t), ri_index = tree_size t, ri_size = tree_size t + 1\<rparr>])"
proof -
  from run(1) issuer(2) obtain pl body ss where st: "key_id issuer \<noteq> []" "typ \<in> set known_statement_types"
      "subject \<noteq> []" "cbor_dumps (statement_payload typ subject (issue_time at now_iso) claims) = Inr pl"
      "cbor_dumps (PDict (statement_header (key_id issuer) kid subject)) = Inr body"
      "sig_structure body [] pl = Inr ss" "length (sign_bytes issuer ss) = 64"
      "cbor_dumps (cose_array body [] (Some pl) (sign_bytes issuer ss)) = Inr st"
    by (auto simp: issue_statement_eq)
  let ?u = "[(label_receipts, PList [PBytes r])]"
  note tr = add_receipt_issued [OF st(5,8,7) run(3)]
  have view: "parse_statement P tr issuers True =
      Inr (statement_view (key_id issuer) subject typ (issue_time at now_iso) claims tr)"
    by (rule parse_issued [where u = ?u and trusted = issuers, OF issuer(1) st(1) issuer(2,3) st(2,3) claims])
      (rule st tr receipt_entry | simp)+
  have parse: "scitt_parse tr = Inr \<lparr>p_protected = nf_map (statement_header (key_id issuer) kid subject),
      p_unprotected = ?u, p_payload = Some pl, p_signature = sign_bytes issuer ss, p_body = body\<rparr>"
    using parse_cose_array [OF receipt_entry(2) plain_headers(1) st(5,7) tr] by (simp only: receipt_entry)
  have t': "log_statements t' = log_statements t @ [st]" "log_signer t' = log_signer t"
      "receipt_for P t' st = Inr r" "log_ok P t'"
    using run(2) P(2) by (auto simp: register_def log_ok_def Let_def split: sum.splits)
  have info: "verify_receipt P r st logs =
      Inr \<lparr>ri_log = key_id (log_signer t), ri_index = tree_size t, ri_size = tree_size t + 1\<rparr>"
    using verify_fresh_receipt [where t = t' and sg = "log_signer t" and logs = logs, OF P(1) t'(4,1) _ log(1-4) t'(3)] t'(2)
    by (simp add: tree_size_def)
  have bare: "cbor_dumps (PList [PBytes body, PDict [], opt_bytes (Some pl), PBytes (sign_bytes issuer ss)]) = Inr st"
    using st(8) by (simp add: cose_array_def)
  show ?thesis
    using view parse info bare
    by (simp add: verify_transparent_statement_def receipt_entry receipts_of_eq [where rs = "[r]", simplified, THEN iffD2])
qed

text \<open>C28: registration makes a statement transparent: the receipt of a registered statement, embedded into
  it, gives a transparent statement that verifies under the keys of the issuer and of the log, and
  the verification reports the statement as issued and its position, the last of the log.\<close>

theorem registered_statement_transparent:
  assumes P: "prims_ok P" "log_ok P t"
    and issuer: "signer_ok P issuer" "utf8_encode (key_id issuer) = Inr kid" "issuers kid = Some (public_key_bytes issuer)"
    and log: "signer_ok P (log_signer t)" "key_id (log_signer t) \<noteq> []" "utf8_encode (key_id (log_signer t)) = Inr lkid"
      "logs lkid = Some (public_key_bytes (log_signer t))"
    and claims: "plain max_recursion_depth (PDict claims)"
    and run: "issue_statement typ (PStr subject) (PDict claims) issuer at now_iso = Inr st"
      "register P st t = (Inr r, t')" "add_receipt st r = Inr tr"
  shows "verify_transparent_statement P tr issuers logs =
    Inr (statement_view (key_id issuer) subject typ (issue_time at now_iso) claims tr,
         [\<lparr>ri_log = key_id (log_signer t), ri_index = tree_size t, ri_size = tree_size t + 1\<rparr>])"
  using assms by (rule registered_verifies)

section \<open>Signing succeeds\<close>

lemma encodable_opt_bytes [simp]: "encodable (opt_bytes b)"
  by (cases b) (simp_all add: opt_bytes_def)

lemma cose_array_total:
  assumes "encodable (PDict u)" "enc_size (PDict u) + length body + length (case pl of Some p \<Rightarrow> p | None \<Rightarrow> []) + length sig < 2 ^ 63"
  shows "\<exists>m. cbor_dumps (cose_array body u pl sig) = Inr m \<and>
    length m \<le> 45 + enc_size (PDict u) + length body + length (case pl of Some p \<Rightarrow> p | None \<Rightarrow> []) + length sig"
proof -
  let ?v = "cose_array body u pl sig"
  have size: "enc_size ?v \<le> 45 + enc_size (PDict u) + length body + length (case pl of Some p \<Rightarrow> p | None \<Rightarrow> []) + length sig"
    by (cases pl) (simp_all add: cose_array_def opt_bytes_def del: enc_size.simps(5))
  moreover have "encodable ?v" using assms(1) by (simp add: cose_array_def del: encodable.simps(5))
  moreover have "enc_size ?v < 0x10000000000000000" using size assms(2) by simp
  ultimately show ?thesis using cbor_dumps_total [of ?v] by (meson order_trans)
qed

lemma scitt_sign_total:
  assumes "encodable (PDict h)" "encodable (PDict u)" "enc_size (PDict h) + enc_size (PDict u) + length content < 2 ^ 60"
    and "\<And>m. length (sign_fn m) = 64" "pl = Some content \<and> det = None \<or> pl = None \<and> det = Some content"
  shows "\<exists>m. scitt_sign pl h u sign_fn det = Inr m \<and>
    length m \<le> 109 + enc_size (PDict h) + enc_size (PDict u) + length content"
proof -
  have "enc_size (PDict h) < 0x10000000000000000" using assms(3) by simp
  then obtain body where body: "cbor_dumps (PDict h) = Inr body" "length body \<le> enc_size (PDict h)"
    using cbor_dumps_total [OF assms(1)] by blast
  obtain ss where ss: "sig_structure body [] content = Inr ss"
    using sig_structure_total [of body "[]" content] body(2) assms(3) by auto
  let ?c = "case pl of Some p \<Rightarrow> p | None \<Rightarrow> []"
  have c: "length ?c \<le> length content" using assms(5) by auto
  have "enc_size (PDict u) + length body + length ?c + length (sign_fn ss) < 2 ^ 63"
    using body(2) c assms(3,4) by simp
  from cose_array_total [OF assms(2) this] obtain m where
    m: "cbor_dumps (cose_array body u pl (sign_fn ss)) = Inr m"
      "length m \<le> 45 + enc_size (PDict u) + length body + length ?c + 64"
    using assms(4) by auto
  have "scitt_sign pl h u sign_fn det = Inr m"
    using body(1) ss m(1) assms(4,5) by (auto simp: scitt_sign_eq)
  moreover have "length m \<le> 109 + enc_size (PDict h) + enc_size (PDict u) + length content"
    using m(2) body(2) c by linarith
  ultimately show ?thesis by blast
qed

section \<open>A run of the whole flow\<close>

abbreviation demo_issuer :: signer where "demo_issuer \<equiv> toy_signer ''issuer'' 1"
abbreviation demo_logger :: signer where "demo_logger \<equiv> toy_signer ''log'' 2"

definition demo_log :: tlog where
  "demo_log = \<lparr>log_signer = demo_logger, log_issuers = Some (toy_trust demo_issuer),
     log_types = known_statement_types, log_policy = None, log_statements = [], log_leaves = []\<rparr>"

definition demo_issue :: "bytes res" where
  "demo_issue = issue_statement (py ''anchor.v1/decision'') (PStr (py ''s'')) (PDict []) demo_issuer None (py ''now'')"

lemma demo_kids: "utf8_encode (py ''issuer'') = Inr [105, 115, 115, 117, 101, 114]"
  "utf8_encode (py ''log'') = Inr [108, 111, 103]"
  by (simp_all add: py_def utf8_char_def b8_def)

lemma demo_known: "py ''anchor.v1/decision'' \<in> set known_statement_types"
  by (simp add: known_statement_types_def)

lemma demo_run: "\<exists>st r t' tr. demo_issue = Inr st \<and> register toy st demo_log = (Inr r, t') \<and> add_receipt st r = Inr tr"
proof -
  let ?pl = "statement_payload (py ''anchor.v1/decision'') (py ''s'') (py ''now'') []"
  have "encodable ?pl" "enc_size ?pl \<le> 400" by (simp_all add: statement_payload_def)
  then obtain pl where pl: "cbor_dumps ?pl = Inr pl" "length pl \<le> 400"
    using cbor_dumps_total [of ?pl] by fastforce
  let ?h = "statement_header (py ''issuer'') [105, 115, 115, 117, 101, 114] (py ''s'')"
  have h: "encodable (PDict ?h)" "enc_size (PDict ?h) \<le> 400"
    by (simp_all add: statement_header_def label_defs)
  have sigs: "\<And>m. length (sign_bytes demo_issuer m) = 64" "\<And>m. length (sign_bytes demo_logger m) = 64"
    by simp_all
  obtain st where st: "scitt_sign (Some pl) ?h [] (sign_bytes demo_issuer) None = Inr st" "length st \<le> 2000"
    using scitt_sign_total [OF h(1), of "[]" pl "sign_bytes demo_issuer" "Some pl" None] h(2) pl(2) sigs(1) by auto
  have issue: "demo_issue = Inr st"
    using st(1) pl(1) demo_known by (simp add: demo_issue_def issue_statement_def demo_kids)
  from st(1) obtain body ss where m: "cbor_dumps (PDict ?h) = Inr body" "sig_structure body [] pl = Inr ss"
    "cbor_dumps (cose_array body [] (Some pl) (sign_bytes demo_issuer ss)) = Inr st"
    by (auto simp: scitt_sign_eq)
  have body: "length body \<le> 400"
    using cbor_dumps_total [OF h(1)] h(2) m(1) by fastforce
  have "parse_statement toy st (toy_trust demo_issuer) False =
      Inr (statement_view (py ''issuer'') (py ''s'') (py ''anchor.v1/decision'') (py ''now'') [] st)"
    using parse_issued [where sg = demo_issuer and kid = "[105, 115, 115, 117, 101, 114]" and u = "[]" and P = toy
        and trusted = "toy_trust demo_issuer" and claims = "[]" and allow = False and ss = ss and body = body and pl = pl
        and m = st and subject = "py ''s''" and tm = "py ''now''" and ty = "py ''anchor.v1/decision''"]
      m pl(1) plain_empty demo_known
    by (simp add: toy_trust_def demo_kids dict_get_or_def)
  then have admit: "\<exists>v. admit_statement toy demo_log st = Inr v"
    using demo_known by (auto simp: admit_statement_def demo_log_def statement_view_def)
  let ?t = "demo_log\<lparr>log_statements := [st], log_leaves := [leaf toy st]\<rparr>"
  let ?g = "receipt_header (py ''log'') [108, 111, 103] (to_hex (toy_digest st))" and ?u = "[(label_vdp, proof_map 0 1 [])]"
  have g: "encodable (PDict ?g)" "enc_size (PDict ?g) \<le> 600"
    by (simp_all add: receipt_header_def label_defs toy_digest_def del: to_hex.simps)
  have u: "encodable (PDict ?u)" "enc_size (PDict ?u) \<le> 600"
    by (simp_all add: proof_map_def label_defs)
  have root: "length (leaf toy st) = 32" by (simp add: leaf_def toy_digest_def)
  obtain r where r: "scitt_sign None ?g ?u (sign_bytes demo_logger) (Some (leaf toy st)) = Inr r" "length r \<le> 2000"
    using scitt_sign_total [OF g(1) u(1), of "leaf toy st" "sign_bytes demo_logger" None "Some (leaf toy st)"]
      g(2) u(2) root sigs(2) by auto
  have "receipt_for toy ?t st = Inr r"
    using r(1) by (simp add: receipt_for_def demo_log_def demo_kids mth.simps [of _ "[leaf toy st]"]
        audit_path.simps [of _ "[leaf toy st]"])
  with admit have register: "register toy st demo_log = (Inr r, ?t)"
    by (auto simp: register_def demo_log_def)
  have parse_r: "\<exists>q. scitt_parse r = Inr q"
  proof -
    from r(1) obtain hb hs where "cbor_dumps (PDict ?g) = Inr hb" "length (sign_bytes demo_logger hs) = 64"
      "cbor_dumps (cose_array hb ?u None (sign_bytes demo_logger hs)) = Inr r"
      by (auto simp: scitt_sign_eq)
    from parse_cose_array [OF plain_proof plain_headers(2) this] show ?thesis by blast
  qed
  have "encodable (PDict [(label_receipts, PList [PBytes r])])" "enc_size (PDict [(label_receipts, PList [PBytes r])]) \<le> 2100"
    using r(2) by (simp_all add: label_defs)
  then obtain tr where "cbor_dumps (cose_array body [(label_receipts, PList [PBytes r])] (Some pl) (sign_bytes demo_issuer ss)) = Inr tr"
    using cose_array_total [of "[(label_receipts, PList [PBytes r])]" body "Some pl" "sign_bytes demo_issuer ss"] body pl(2)
    by (auto simp del: encodable.simps(5) enc_size.simps(5))
  then have "add_receipt st r = Inr tr"
    using parse_cose_array [OF plain_empty plain_headers(1) m(1) _ m(3)] parse_r
    by (auto simp: add_receipt_def cose_array_def dict_get_or_def)
  with issue register show ?thesis by blast
qed

lemma demo_log_ok [simp]: "log_ok toy demo_log" "log_signer demo_log = demo_logger" "tree_size demo_log = 0"
  by (simp_all add: log_ok_def demo_log_def tree_size_def)

theorem registered_statement_transparent_witness:
  "\<exists>st r t' tr. demo_issue = Inr st \<and> register toy st demo_log = (Inr r, t') \<and> add_receipt st r = Inr tr \<and>
     verify_transparent_statement toy tr (toy_trust demo_issuer) (toy_trust demo_logger) =
       Inr (statement_view (py ''issuer'') (py ''s'') (py ''anchor.v1/decision'') (py ''now'') [] tr,
            [\<lparr>ri_log = py ''log'', ri_index = 0, ri_size = 1\<rparr>])"
proof -
  from demo_run obtain st r t' tr where
    run: "demo_issue = Inr st" "register toy st demo_log = (Inr r, t')" "add_receipt st r = Inr tr" by blast
  have "verify_transparent_statement toy tr (toy_trust demo_issuer) (toy_trust demo_logger) =
     Inr (statement_view (key_id demo_issuer) (py ''s'') (py ''anchor.v1/decision'') (issue_time None (py ''now'')) [] tr,
          [\<lparr>ri_log = key_id (log_signer demo_log), ri_index = tree_size demo_log, ri_size = tree_size demo_log + 1\<rparr>])"
    by (rule registered_statement_transparent [OF toy_ok _ toy_signer_ok _ _ _ _ _ _ _ run(1) [unfolded demo_issue_def] run(2,3)])
      (simp_all add: demo_kids toy_trust_def plain_empty)
  with run show ?thesis by (auto simp: issue_time_def)
qed

theorem transparent_statement_sound_witness:
  "\<exists>tr m bare r info. scitt_parse tr = Inr m \<and> receipt_shows toy bare (toy_trust demo_logger) r info \<and>
     (\<exists>v. issuer_signed toy m (toy_trust demo_issuer) v \<and> view_subject v = py ''s'')"
proof -
  from demo_run obtain st r t' tr where
    run: "demo_issue = Inr st" "register toy st demo_log = (Inr r, t')" "add_receipt st r = Inr tr" by blast
  obtain v info where v: "verify_transparent_statement toy tr (toy_trust demo_issuer) (toy_trust demo_logger) = Inr (v, [info])"
    "view_subject v = py ''s''"
    using registered_verifies [OF toy_ok _ toy_signer_ok _ _ _ _ _ _ _ run(1) [unfolded demo_issue_def] run(2,3),
        of _ "toy_trust demo_issuer" _ "toy_trust demo_logger"]
    by (force simp: demo_kids toy_trust_def plain_empty statement_view_def)
  from transparent_statement_sound [OF toy_ok v(1)] obtain m bare rs where
    "scitt_parse tr = Inr m" "issuer_signed toy m (toy_trust demo_issuer) v"
    "list_all2 (receipt_shows toy bare (toy_trust demo_logger)) rs [info]" by blast
  moreover from this(3) obtain z where "receipt_shows toy bare (toy_trust demo_logger) z info"
    by (auto simp: list_all2_Cons2)
  ultimately show ?thesis using v(2) by blast
qed

section \<open>The log\<close>

lemma register_log:
  assumes "log_ok P t" "register P st t = (a, t')"
  shows "log_ok P t' \<and> log_signer t' = log_signer t \<and> log_statements t' = log_statements t @
    (case admit_statement P t st of Inl e \<Rightarrow> [] | Inr v \<Rightarrow> [st])"
  using assms by (auto simp: register_def log_ok_def Let_def split: sum.splits)

lemma register_receipt:
  assumes "register P st t = (Inr r, t')"
  shows "st \<in> set (log_statements t')"
  using assms by (auto simp: register_def Let_def split: sum.splits)

text \<open>The log only grows: over any sequence of registrations, refused, failed or successful, the
  statements registered before stay in their places, the leaves remain the hashes of the
  statements, and every statement that got a receipt is in the log.\<close>

theorem log_append_only:
  assumes "log_ok P t" "run_all (register P) sts t = (trace, t')"
  shows "log_ok P t' \<and> (\<exists>more. log_statements t' = log_statements t @ more \<and> set more \<subseteq> set sts) \<and>
    (\<forall>st r. (st, Inr r) \<in> set trace \<longrightarrow> st \<in> set (log_statements t'))"
  using assms
proof (induction sts arbitrary: t trace)
  case (Cons st sts)
  obtain a t1 where reg: "register P st t = (a, t1)" by (cases "register P st t")
  obtain trace1 where run: "run_all (register P) sts t1 = (trace1, t')" "trace = (st, a) # trace1"
    using Cons.prems(2) reg by (auto simp: Let_def split: prod.splits)
  note step = register_log [OF Cons.prems(1) reg]
  from Cons.IH [OF _ run(1)] step obtain more where
    more: "log_statements t' = log_statements t1 @ more" "set more \<subseteq> set sts" and ok: "log_ok P t'"
    and rest: "\<forall>st r. (st, Inr r) \<in> set trace1 \<longrightarrow> st \<in> set (log_statements t')"
    by blast
  have "st \<in> set (log_statements t')" if "a = Inr r" for r
    using register_receipt reg that more(1) by auto
  moreover have "\<exists>more. log_statements t' = log_statements t @ more \<and> set more \<subseteq> set (st # sts)"
    using step more by (cases "admit_statement P t st") auto
  ultimately show ?case using ok rest run(2) by auto
qed simp

section \<open>The tree\<close>

theorem log_append_only_witness:
  "\<exists>trace t'. run_all (register toy) [[]] demo_log = (trace, t') \<and> log_ok toy t' \<and> set (log_statements t') \<subseteq> {[]}"
proof -
  obtain trace t' where run: "run_all (register toy) [[]] demo_log = (trace, t')" by fastforce
  from log_append_only [OF demo_log_ok(1) run] run show ?thesis by (auto simp: demo_log_def)
qed

text \<open>C39: the loop that splits a tree ends for every size, and with the largest power of two strictly below
  the size (one, if the size is at most one).\<close>

theorem split_loop_terminates: "\<exists>k. split_loop n = Some k \<and> largest_power_below n k"
  using split_size_eq split_size_ok by blast

text \<open>The audit path of a leaf of a tree of at most two to the power m leaves has at most m
  elements: a receipt is logarithmic in the size of the log.\<close>

theorem audit_path_bound:
  assumes "audit_path P xs i = Inr path" "int (length xs) \<le> 2 ^ m"
  shows "length path \<le> m"
  by (rule audit_path_length [OF assms])

lemma split_size_small [simp]: "split_size 2 = 1" "split_size 4 = 2"
  by (simp_all add: split_size_def while_unfold)

lemma audit_path_last_of_four: "audit_path P [a, b, c, d] 3 = Inr [node P a b, c]"
  by (simp add: audit_path.simps [of P "[a, b, c, d]"] audit_path.simps [of P "[c, d]"]
      audit_path.simps [of P "[d]"] mth.simps [of P "[a, b]"] mth.simps [of P "[a]"]
      mth.simps [of P "[b]"] mth.simps [of P "[c]"] Let_def)

theorem audit_path_bound_witness: "length [node toy [0] [1], [2 :: byte]] \<le> 2"
  by (rule audit_path_bound [OF audit_path_last_of_four [of toy "[0]" "[1]" "[2]" "[3]"]]) simp

text \<open>The path is not ordered from the leaf to the root, as its comment and RFC 6962 have it: the path
  of the last of four leaves starts with the root of the other half.\<close>

theorem audit_path_order:
  "audit_path P [a, b, c, d] 3 = Inr [node P a b, c] \<and>
   climb (sha256 P) node_in d [(True, c), (True, node P a b)] = node P (node P a b) (node P c d) \<and>
   mth P [a, b, c, d] = Inr (node P (node P a b) (node P c d))"
proof -
  have "mth P [a, b, c, d] = Inr (node P (node P a b) (node P c d))"
    by (simp add: mth.simps [of P "[a, b, c, d]"] mth.simps [of P "[a, b]"] mth.simps [of P "[c, d]"]
        mth.simps [of P "[a]"] mth.simps [of P "[b]"] mth.simps [of P "[c]"] mth.simps [of P "[d]"] Let_def)
  then show ?thesis by (simp add: audit_path_last_of_four node_def)
qed

text \<open>Paths are complete: every leaf of a tree has an audit path, and from the leaf, its
  index and the size of the tree the path leads to the root.\<close>

theorem audit_path_complete:
  assumes "0 \<le> i" "i < int (length xs)"
  shows "\<exists>r path. mth P xs = Inr r \<and> audit_path P xs i = Inr path \<and>
    root_from_proof P (xs ! nat i) i path (int (length xs)) = Inr r"
  using root_from_audit_path [of xs i P] assms by fastforce

theorem audit_path_complete_witness:
  "\<exists>r path. mth toy [[1], [2]] = Inr r \<and> audit_path toy [[1], [2]] 1 = Inr path \<and>
     root_from_proof toy [2] 1 path 2 = Inr r"
  using audit_path_complete [of 1 "[[1], [2]]" toy] by simp

end
