(* ===== verification/Scitt_Events.thy ===== *)
theory Scitt_Events
  imports Scitt_Laws State_Binding Constitution
begin

text \<open>
  The evidence mapping of \<^verbatim>\<open>scitt.py\<close>: which statement each governance event
  becomes. \<open>now_iso\<close> is the clock's text, for the time the statement itself is issued at.
\<close>

section \<open>Events as statements\<close>

definition action_subject :: "pystr \<Rightarrow> pystr" where
  "action_subject digest = py ''action:'' @ digest"

definition event_statement :: "string \<Rightarrow> pystr \<Rightarrow> (string \<times> pyval) list \<Rightarrow> signer \<Rightarrow> pystr \<Rightarrow> bytes res" where
  "event_statement ty subject claims issuer now_iso =
     issue_statement (py ty) (PStr subject) (PDict (map (\<lambda>(k, v). (str_key k, v)) claims)) issuer None now_iso"

definition decision_statement :: "prims \<Rightarrow> effect_preview \<Rightarrow> signer \<Rightarrow> pystr \<Rightarrow> bytes res" where
  "decision_statement P pv issuer now_iso =
     event_statement ''anchor.v1/decision'' (action_subject (envelope_digest pv))
       [(''preview_id'', PStr (preview_id pv)), (''allowed'', PBool (pv_allowed pv)),
        (''outcome'', to_cbor (JObj (pv_outcome pv))), (''state_version'', PInt (pv_version pv)),
        (''state_digest'', PStr (pv_digest pv)), (''read_keys'', PList (map PStr (read_keys pv))),
        (''preview_expires_at'', PStr (isoformat P (pv_expires_at pv)))] issuer now_iso"

definition approval_statement :: "prims \<Rightarrow> action_receipt \<Rightarrow> signer \<Rightarrow> pystr \<Rightarrow> bytes res" where
  "approval_statement P r issuer now_iso =
     event_statement ''anchor.v1/approval'' (py ''action:'' @ r_action r @ py ''@'' @ r_resource r)
       [(''action'', PStr (r_action r)), (''resource'', PStr (r_resource r)),
        (''constitution_hash'', PStr (r_constitution_hash r)),
        (''created_at'', PStr (isoformat P (r_created_at r)))] issuer now_iso"

definition mint_claims :: "cap_payload \<Rightarrow> (string \<times> pyval) list" where
  "mint_claims p =
     [(''capability_id'', PStr (capability_id p)), (''kind'', PStr (kind p)),
      (''holder_pubkey_hex'', PStr (to_hex (holder_pubkey p))),
      (''spend_limit'', opt_val PInt (spend_limit p)), (''spend_asset'', opt_val PStr (spend_asset p)),
      (''issued_at'', PStr (cap_issued_at p)), (''expires_at'', PStr (expires_at p)),
      (''parent_capability_id'', opt_val PStr (parent_capability_id p))]"

definition mint_statement :: "cap_payload \<Rightarrow> signer \<Rightarrow> pystr \<Rightarrow> bytes res" where
  "mint_statement p issuer now_iso =
     event_statement ''anchor.v1/mint'' (action_subject (cap_digest p)) (mint_claims p) issuer now_iso"

definition consume_statement :: "cap_payload \<Rightarrow> signer \<Rightarrow> int option \<Rightarrow> pystr \<Rightarrow> bytes res" where
  "consume_statement p issuer ver now_iso =
     event_statement ''anchor.v1/consume'' (action_subject (cap_digest p))
       ([(''capability_id'', PStr (capability_id p)), (''kind'', PStr (kind p))] @
        (case ver of None \<Rightarrow> [] | Some n \<Rightarrow> [(''state_version'', PInt n)])) issuer now_iso"

definition revocation_statement :: "pystr \<Rightarrow> pystr \<Rightarrow> int \<Rightarrow> signer \<Rightarrow> pystr \<Rightarrow> bytes res" where
  "revocation_statement cid revoked_at epoch issuer now_iso =
     event_statement ''anchor.v1/revocation'' (py ''capability:'' @ cid)
       [(''capability_id'', PStr cid), (''revoked_at'', PStr revoked_at), (''epoch'', PInt epoch)] issuer now_iso"

definition freeze_statement :: "pystr \<Rightarrow> pystr \<Rightarrow> pystr \<Rightarrow> int \<Rightarrow> signer \<Rightarrow> pystr \<Rightarrow> bytes res" where
  "freeze_statement digest reason frozen_at epoch issuer now_iso =
     event_statement ''anchor.v1/freeze'' (action_subject digest)
       [(''action_digest'', PStr digest), (''reason'', PStr reason), (''frozen_at'', PStr frozen_at),
        (''epoch'', PInt epoch)] issuer now_iso"

definition policy_change_statement :: "pystr \<Rightarrow> pystr option \<Rightarrow> pystr \<Rightarrow> int \<Rightarrow> signer \<Rightarrow> pystr \<Rightarrow> bytes res" where
  "policy_change_statement con_hash previous changed_at epoch issuer now_iso =
     event_statement ''anchor.v1/policy_change'' (py ''policy:constitution'')
       [(''constitution_hash'', PStr con_hash), (''previous_hash'', opt_val PStr previous),
        (''changed_at'', PStr changed_at), (''epoch'', PInt epoch)] issuer now_iso"

definition epoch_statement :: "int \<Rightarrow> pystr \<Rightarrow> signer \<Rightarrow> pystr \<Rightarrow> bytes res" where
  "epoch_statement epoch started_at issuer now_iso =
     event_statement ''anchor.v1/epoch'' (py ''epoch:'' @ int_text epoch)
       [(''epoch'', PInt epoch), (''started_at'', PStr started_at)] issuer now_iso"

section \<open>Statements are read back\<close>

lemma event_statement_parses:
  assumes "signer_ok P issuer" "utf8_encode (key_id issuer) = Inr kid" "trusted kid = Some (public_key_bytes issuer)"
    and "plain_map (map (\<lambda>(k, v). (str_key k, v)) claims)"
    and "event_statement ty subject claims issuer now_iso = Inr st"
  shows "parse_statement P st trusted False =
    Inr (statement_view (key_id issuer) subject (py ty) now_iso (map (\<lambda>(k, v). (str_key k, v)) claims) st)"
proof -
  from assms(5) [unfolded event_statement_def issue_statement_eq] assms(2) obtain pl body ss where
    m: "key_id issuer \<noteq> []" "py ty \<in> set known_statement_types" "subject \<noteq> []"
      "cbor_dumps (statement_payload (py ty) subject now_iso (map (\<lambda>(k, v). (str_key k, v)) claims)) = Inr pl"
      "cbor_dumps (PDict (statement_header (key_id issuer) kid subject)) = Inr body"
      "sig_structure body [] pl = Inr ss"
      "cbor_dumps (cose_array body [] (Some pl) (sign_bytes issuer ss)) = Inr st"
    by (auto simp: issue_time_def)
  have e: "plain_map []"
  proof -
    have "plain (Suc d) (PDict [])" for d by (simp add: uniform_keys_def)
    from this [of 63] show ?thesis by (simp add: max_recursion_depth_def)
  qed
  show ?thesis
    by (rule parse_issued [where u = "[]" and trusted = trusted, OF assms(1) m(1) assms(2,3) m(2,3) assms(4)])
      (rule m e | simp add: dict_get_or_def)+
qed

text \<open>The claims of a minted capability: the holder and the limits as they were signed.\<close>

lemma plain_mint_claims: "plain_map (map (\<lambda>(k, v). (str_key k, v)) (mint_claims p))"
proof -
  have o: "plain (Suc d) (opt_val PStr s)" for d s by (cases s) auto
  have i: "plain (Suc (Suc d)) (opt_val PInt n)" for d n by (cases n) auto
  have "plain (Suc (Suc (Suc d))) (PDict (map (\<lambda>(k, v). (str_key k, v)) (mint_claims p)))" for d
    using o i by (simp add: mint_claims_def uniform_keys_def)
  from this [of 61] show ?thesis by (simp add: max_recursion_depth_def)
qed

lemma mint_statement_parses:
  assumes "signer_ok P issuer" "utf8_encode (key_id issuer) = Inr kid" "trusted kid = Some (public_key_bytes issuer)"
    and "mint_statement p issuer now_iso = Inr st"
  shows "parse_statement P st trusted False =
    Inr (statement_view (key_id issuer) (action_subject (cap_digest p)) (py ''anchor.v1/mint'') now_iso
      (map (\<lambda>(k, v). (str_key k, v)) (mint_claims p)) st)"
  using event_statement_parses [where claims = "mint_claims p" and trusted = trusted, OF assms(1-3) plain_mint_claims] assms(4)
  by (simp add: mint_statement_def)

end
