(* ===== verification/Provenance.thy ===== *)
theory Provenance
  imports Store
begin

text \<open>
  \<^verbatim>\<open>provenance.py\<close>: the document store whose values carry the signature of their
  writer, and the reads that a read capability gates. The tables are the maps of one record; the
  capability store is a second state that a read only consults. \<open>moment_iso\<close> is the text of
  the time of the operation.
\<close>

section \<open>State\<close>

record document =
  doc_value :: bytes
  doc_hash :: pystr
  doc_writer :: pystr
  doc_signature :: pystr
  doc_version :: int
  doc_statement :: "pystr option"
  doc_written_at :: pystr

record read_entry =
  re_key :: pystr
  re_capability :: pystr
  re_reader :: pystr
  re_read_at :: pystr

record pstore =
  documents :: "pystr \<rightharpoonup> document"
  current_version :: int
  read_audit :: "read_entry list"

definition new_pstore :: pstore where
  "new_pstore = \<lparr>documents = Map.empty, current_version = 0, read_audit = []\<rparr>"

record provenance_record =
  pr_key :: pystr
  pr_value_hash :: pystr
  pr_writer :: pystr
  pr_signature :: pystr
  pr_version :: int
  pr_statement :: "pystr option"
  pr_written_at :: pystr

definition valid_record :: "provenance_record \<Rightarrow> bool" where
  "valid_record r \<longleftrightarrow> pr_key r \<noteq> [] \<and> length (pr_value_hash r) = 64 \<and> pr_writer r \<noteq> [] \<and>
     length (pr_signature r) = 128 \<and> 1 \<le> pr_version r \<and>
     (case pr_statement r of None \<Rightarrow> True | Some h \<Rightarrow> length h = 64) \<and> pr_written_at r \<noteq> []"

definition record_of :: "pystr \<Rightarrow> document \<Rightarrow> provenance_record" where
  "record_of key d = \<lparr>pr_key = key, pr_value_hash = doc_hash d, pr_writer = doc_writer d,
     pr_signature = doc_signature d, pr_version = doc_version d, pr_statement = doc_statement d,
     pr_written_at = doc_written_at d\<rparr>"

record read_result =
  rr_key :: pystr
  rr_value :: bytes
  rr_provenance :: provenance_record
  rr_capability :: pystr

section \<open>Writes\<close>

definition provenance_domain :: bytes where
  "provenance_domain = map of_char ''anchor-v1-provenance'' @ [0]"

text \<open>\<^verbatim>\<open>n.to_bytes(8, "big")\<close>.\<close>

definition to_bytes_8 :: "int \<Rightarrow> bytes res" where
  "to_bytes_8 n = (if n < 0 then raise OverflowError ''can't convert negative int to unsigned''
     else if 0x10000000000000000 \<le> n then raise OverflowError ''int too big to convert''
     else Inr (to_be 8 (nat n)))"

definition provenance_signature_bytes :: "pystr \<Rightarrow> int \<Rightarrow> pystr \<Rightarrow> bytes res" where
  "provenance_signature_bytes key ver value_hash =
     rbind (utf8_encode key) (\<lambda>k. rbind (to_bytes_8 ver) (\<lambda>n.
     rbind (of_option ValueError ''non-hexadecimal number found in fromhex() arg'' (from_hex value_hash)) (\<lambda>h.
     Inr (provenance_domain @ k @ [0] @ n @ h))))"

definition statement_hex :: "pyval \<Rightarrow> pystr option res" where
  "statement_hex v = (case v of PNone \<Rightarrow> Inr None
     | PBytes b \<Rightarrow> if length b = 32 then Inr (Some (to_hex b))
         else raise ProvenanceError ''statement_hash must be 32 bytes''
     | _ \<Rightarrow> raise ProvenanceError ''statement_hash must be 32 bytes'')"

text \<open>The upsert and the new version, in one transaction; binding the texts encodes them.\<close>

definition store_document :: "prims \<Rightarrow> pystr \<Rightarrow> bytes \<Rightarrow> signer \<Rightarrow> pystr option \<Rightarrow> pystr \<Rightarrow> pstore
    \<Rightarrow> (document \<times> pstore) res" where
  "store_document P key v writer stmt moment_iso s =
     (let h = to_hex (sha256 P v); ver = current_version s + 1 in
      rbind (provenance_signature_bytes key ver h) (\<lambda>b.
      rbind (utf8_encode (key_id writer)) (\<lambda>_.
      rbind (sql_int ver) (\<lambda>_.
      let d = \<lparr>doc_value = v, doc_hash = h, doc_writer = key_id writer,
        doc_signature = to_hex (sign_bytes writer b), doc_version = ver, doc_statement = stmt,
        doc_written_at = moment_iso\<rparr> in
      Inr (d, s\<lparr>documents := (documents s)(key \<mapsto> d), current_version := ver\<rparr>)))))"

text \<open>
  The returned record is validated after the commit: a signature of an unexpected length
  raises although the document is stored.
\<close>

definition write_document :: "prims \<Rightarrow> pystr \<Rightarrow> pyval \<Rightarrow> signer \<Rightarrow> pyval \<Rightarrow> pystr \<Rightarrow> pstore
    \<Rightarrow> provenance_record res \<times> pstore" where
  "write_document P key value_v writer stmt_v moment_iso s =
     (case require (key \<noteq> []) ProvenanceError ''key must be a non-empty string''
        (rbind (get_bytes ProvenanceError ''value must be bytes'' value_v) (\<lambda>v.
         rbind (statement_hex stmt_v) (\<lambda>stmt.
         require (key_id writer \<noteq> []) ProvenanceError ''writer key id must not be empty'' (Inr (v, stmt))))) of
        Inl e \<Rightarrow> (Inl e, s)
      | Inr (v, stmt) \<Rightarrow>
          (case immediate (store_document P key v writer stmt moment_iso) s of
             (Inl e, s') \<Rightarrow> (Inl e, s')
           | (Inr d, s') \<Rightarrow> (require (valid_record (record_of key d)) ValidationError ''ProvenanceRecord''
               (Inr (record_of key d)), s')))"

section \<open>Reads\<close>

record read_args =
  ra_cose :: pyval
  ra_proof :: pyval
  ra_challenge :: bytes
  ra_issuers :: trust
  ra_writers :: "(pystr \<rightharpoonup> bytes) option"
  ra_now :: "datetime option"

definition read_capability :: "prims \<Rightarrow> (pyval \<Rightarrow> cap_payload option) \<Rightarrow> int \<Rightarrow> read_args \<Rightarrow> store \<Rightarrow> cap_payload res" where
  "read_capability P validate tick a caps =
     rbind (except AuthorizationDenied ProvenanceError ''read refused: capability invalid''
       (check_capability P validate tick \<lparr>a_cose = ra_cose a, a_proof = ra_proof a, a_challenge = ra_challenge a,
          a_issuers = ra_issuers a, a_env = None\<rparr>
          (Some (Aware (case ra_now a of Some t \<Rightarrow> as_utc t | None \<Rightarrow> tick) 0)) caps)) (\<lambda>p.
     require (kind p = kind_read) ProvenanceError ''read refused: capability kind is not read'' (Inr p))"

definition check_writer_signature :: "prims \<Rightarrow> (pystr \<rightharpoonup> bytes) option \<Rightarrow> provenance_record \<Rightarrow> bytes \<Rightarrow> unit res" where
  "check_writer_signature P writers r v =
     rbind (of_option ProvenanceError ''read refused: no trusted writer registry provided'' writers) (\<lambda>reg.
     rbind (of_option ProvenanceError ''read refused: writer not in registry'' (reg (pr_writer r))) (\<lambda>key.
     require (to_hex (sha256 P v) = pr_value_hash r) ProvenanceError ''read refused: stored value hash mismatch''
     (rbind (of_option ProvenanceError ''read refused: malformed writer signature'' (from_hex (pr_signature r))) (\<lambda>sig.
      rbind (provenance_signature_bytes (pr_key r) (pr_version r) (pr_value_hash r)) (\<lambda>b.
      require (ed_verify P key sig b) ProvenanceError ''read refused: writer signature invalid'' (Inr ()))))))"

definition check_caveats :: "cap_payload \<Rightarrow> provenance_record \<Rightarrow> unit res" where
  "check_caveats p r =
     require (case read_trusted_writers p of None \<Rightarrow> True | Some ws \<Rightarrow> pr_writer r \<in> set ws) ProvenanceError
       ''read refused: writer not in the trusted-writer allowlist''
     (require (case read_min_version p of None \<Rightarrow> True | Some n \<Rightarrow> n \<le> pr_version r) ProvenanceError
       ''read refused: record version is older than capability minimum''
     (require (read_require_statement p \<longrightarrow> (case pr_statement r of None \<Rightarrow> False | Some h \<Rightarrow> h \<noteq> [])) ProvenanceError
       ''read refused: capability requires a registered SCITT statement'' (Inr ())))"

definition load_document :: "prims \<Rightarrow> read_args \<Rightarrow> pystr \<Rightarrow> cap_payload \<Rightarrow> pstore \<Rightarrow> read_result res" where
  "load_document P a key p s =
     rbind (utf8_encode key) (\<lambda>_.
     rbind (of_option ProvenanceError ''read refused: unknown key'' (documents s key)) (\<lambda>d.
     let r = record_of key d in
     require (valid_record r) ValidationError ''ProvenanceRecord''
     (require (startswith key (case read_key_prefix p of Some s \<Rightarrow> s | None \<Rightarrow> [])) ProvenanceError
       ''read refused: key outside capability prefix''
     (rbind (check_writer_signature P (ra_writers a) r (doc_value d)) (\<lambda>_.
      rbind (check_caveats p r) (\<lambda>_.
      Inr \<lparr>rr_key = key, rr_value = doc_value d, rr_provenance = r, rr_capability = capability_id p\<rparr>))))))"

definition read_document :: "prims \<Rightarrow> (pyval \<Rightarrow> cap_payload option) \<Rightarrow> int \<Rightarrow> pystr \<Rightarrow> pystr \<Rightarrow> read_args \<Rightarrow> store
    \<Rightarrow> pstore \<Rightarrow> read_result res \<times> pstore" where
  "read_document P validate tick moment_iso key a caps s =
     (case rbind (read_capability P validate tick a caps) (\<lambda>p.
           rbind (load_document P a key p s) (\<lambda>r. Inr (p, r))) of
        Inl e \<Rightarrow> (Inl e, s)
      | Inr (p, r) \<Rightarrow> (Inr r, s\<lparr>read_audit := read_audit s @ [\<lparr>re_key = key, re_capability = capability_id p,
          re_reader = to_hex (holder_pubkey p), re_read_at = moment_iso\<rparr>]\<rparr>))"

definition audit_log :: "pystr option \<Rightarrow> pstore \<Rightarrow> read_entry list" where
  "audit_log key s = (case key of None \<Rightarrow> read_audit s
     | Some k \<Rightarrow> filter (\<lambda>e. re_key e = k) (read_audit s))"

end
