(* ===== verification/Provenance_Properties.thy ===== *)
theory Provenance_Properties
  imports Provenance Store_Properties
begin

text \<open>
  The properties of the document store: what a successful read establishes, that a written value
  can be read, and that versions order the writes. The versions provide the interface of
  resources that are used once.
\<close>

section \<open>What a writer signs\<close>

lemma from_hex_digest: "length a = 32 \<Longrightarrow> length (to_hex a) = 64"
  by simp

lemma to_bytes_8_eq: "to_bytes_8 n = Inr b \<longleftrightarrow> 0 \<le> n \<and> n < 0x10000000000000000 \<and> b = to_be 8 (nat n)"
  by (auto simp: to_bytes_8_def)

lemma psb_eq: "provenance_signature_bytes key ver h = Inr b \<longleftrightarrow> (\<exists>k d. utf8_encode key = Inr k \<and>
    0 \<le> ver \<and> ver < 0x10000000000000000 \<and> from_hex h = Some d \<and>
    b = provenance_domain @ k @ [0] @ to_be 8 (nat ver) @ d)"
  by (auto simp: provenance_signature_bytes_def to_bytes_8_eq)

text \<open>The signed bytes determine the key, the version and the digest of the value: a signature made
  for one record is over other bytes than any other record's, even for keys with a zero byte.\<close>

theorem provenance_binding:
  assumes "length a = 32" "length a' = 32"
    and "provenance_signature_bytes key ver (to_hex a) = Inr b"
    and "provenance_signature_bytes key' ver' (to_hex a') = Inr b"
  shows "key = key' \<and> ver = ver' \<and> a = a'"
proof -
  from assms(3) obtain k where k: "utf8_encode key = Inr k" "0 \<le> ver" "ver < 0x10000000000000000"
    "b = provenance_domain @ (k @ [0]) @ (to_be 8 (nat ver) @ a)" by (auto simp: psb_eq)
  from assms(4) obtain k' where k': "utf8_encode key' = Inr k'" "0 \<le> ver'" "ver' < 0x10000000000000000"
    "b = provenance_domain @ (k' @ [0]) @ (to_be 8 (nat ver') @ a')" by (auto simp: psb_eq)
  have "(k @ [0]) @ (to_be 8 (nat ver) @ a) = (k' @ [0]) @ (to_be 8 (nat ver') @ a')"
    using k(4) k'(4) by simp
  then have "k @ [0] = k' @ [0] \<and> to_be 8 (nat ver) @ a = to_be 8 (nat ver') @ a'"
    using assms(1,2) by (subst (asm) append_eq_append_conv) auto
  then have "k = k'" "to_be 8 (nat ver) = to_be 8 (nat ver')" "a = a'" by auto
  moreover have "nat ver = nat ver'"
    using to_be_inject [of "nat ver" 8 "nat ver'"] k(2,3) k'(2,3) \<open>to_be 8 (nat ver) = to_be 8 (nat ver')\<close>
    by simp
  ultimately show ?thesis using utf8_encode_inject k(1,2) k'(1,2) by auto
qed

theorem provenance_binding_witness:
  "\<forall>b. provenance_signature_bytes (py ''k'') 1 (to_hex (replicate 32 7)) = Inr b \<longrightarrow>
     provenance_signature_bytes (py ''k'') 2 (to_hex (replicate 32 7)) \<noteq> Inr b"
  using provenance_binding [of "replicate 32 7" "replicate 32 7" "py ''k''" 1 _ "py ''k''" 2]
  by (auto simp del: replicate.simps)

section \<open>Reads\<close>

definition writer_signed :: "prims \<Rightarrow> (pystr \<rightharpoonup> bytes) option \<Rightarrow> provenance_record \<Rightarrow> bytes \<Rightarrow> bool" where
  "writer_signed P writers r v \<longleftrightarrow> (\<exists>reg key sig b. writers = Some reg \<and> reg (pr_writer r) = Some key \<and>
     pr_value_hash r = to_hex (sha256 P v) \<and> from_hex (pr_signature r) = Some sig \<and>
     provenance_signature_bytes (pr_key r) (pr_version r) (to_hex (sha256 P v)) = Inr b \<and> ed_verify P key sig b)"

definition satisfies_caveats :: "cap_payload \<Rightarrow> provenance_record \<Rightarrow> bool" where
  "satisfies_caveats p r \<longleftrightarrow> startswith (pr_key r) (case read_key_prefix p of Some s \<Rightarrow> s | None \<Rightarrow> []) \<and>
     (\<forall>ws. read_trusted_writers p = Some ws \<longrightarrow> pr_writer r \<in> set ws) \<and>
     (\<forall>n. read_min_version p = Some n \<longrightarrow> n \<le> pr_version r) \<and>
     (read_require_statement p \<longrightarrow> (\<exists>h. pr_statement r = Some h \<and> h \<noteq> []))"

lemma check_writer_signature_eq: "check_writer_signature P writers r v = Inr u \<longleftrightarrow> writer_signed P writers r v"
  by (auto simp: check_writer_signature_def writer_signed_def)

lemma check_caveats_eq: "startswith key (case read_key_prefix p of Some s \<Rightarrow> s | None \<Rightarrow> []) \<and>
    check_caveats p (record_of key d) = Inr u \<longleftrightarrow> satisfies_caveats p (record_of key d)"
proof -
  have k: "pr_key (record_of key d) = key" by (simp add: record_of_def)
  show ?thesis unfolding satisfies_caveats_def check_caveats_def k by (simp split: option.splits)
qed

lemma load_document_eq:
  "load_document P a key p s = Inr r \<longleftrightarrow> (\<exists>k d. utf8_encode key = Inr k \<and> documents s key = Some d \<and>
     valid_record (record_of key d) \<and> satisfies_caveats p (record_of key d) \<and>
     writer_signed P (ra_writers a) (record_of key d) (doc_value d) \<and>
     r = \<lparr>rr_key = key, rr_value = doc_value d, rr_provenance = record_of key d, rr_capability = capability_id p\<rparr>)"
  unfolding load_document_def Let_def check_caveats_eq [symmetric, where u = "()"]
  by (simp add: check_writer_signature_eq) blast

text \<open>A read needs everything a consumption of amount zero needs, and the kind of a read.\<close>

definition read_moment :: "int \<Rightarrow> read_args \<Rightarrow> int" where
  "read_moment tick a = (case ra_now a of Some t \<Rightarrow> as_utc t | None \<Rightarrow> tick)"

definition read_consume_args :: "read_args \<Rightarrow> consume_args" where
  "read_consume_args a = \<lparr>a_cose = ra_cose a, a_proof = ra_proof a, a_challenge = ra_challenge a,
     a_issuers = ra_issuers a, a_env = None\<rparr>"

lemma read_capability_eq:
  "read_capability P V tick a caps = Inr p \<longleftrightarrow> kind p = kind_read \<and>
     (\<exists>row. authorized P V (read_consume_args a) 0 (read_moment tick a) caps p row)"
  by (auto simp: read_capability_def check_capability_def consume_inner_eq read_consume_args_def read_moment_def)

definition audit_entry :: "pystr \<Rightarrow> cap_payload \<Rightarrow> pystr \<Rightarrow> read_entry" where
  "audit_entry key p moment_iso = \<lparr>re_key = key, re_capability = capability_id p,
     re_reader = to_hex (holder_pubkey p), re_read_at = moment_iso\<rparr>"

lemma read_document_eq:
  "read_document P V tick stamp key a caps s = (Inr r, s') \<longleftrightarrow> (\<exists>p. read_capability P V tick a caps = Inr p \<and>
     load_document P a key p s = Inr r \<and> s' = s\<lparr>read_audit := read_audit s @ [audit_entry key p stamp]\<rparr>)"
  by (auto simp: read_document_def audit_entry_def rbind_def split: sum.splits)

text \<open>C25: a read returns a value only under a verified read capability whose caveats the recorded
  provenance meets, and only if a registered writer signed exactly this key, this version and the
  digest of this value: tampering with the stored value, its version or its place is refused. Every
  read, and nothing else, is appended to the audit log.\<close>

theorem read_requires_provenance:
  assumes "read_document P V tick stamp key a caps s = (Inr r, s')"
  shows "\<exists>p row. authorized P V (read_consume_args a) 0 (read_moment tick a) caps p row \<and> kind p = kind_read \<and>
    rr_key r = key \<and> pr_key (rr_provenance r) = key \<and> rr_capability r = capability_id p \<and>
    satisfies_caveats p (rr_provenance r) \<and> writer_signed P (ra_writers a) (rr_provenance r) (rr_value r) \<and>
    documents s' = documents s \<and> current_version s' = current_version s \<and>
    read_audit s' = read_audit s @ [audit_entry key p stamp]"
proof -
  from assms obtain p where p: "read_capability P V tick a caps = Inr p" "load_document P a key p s = Inr r"
    "s' = s\<lparr>read_audit := read_audit s @ [audit_entry key p stamp]\<rparr>" by (auto simp: read_document_eq)
  from p(1) obtain row where "authorized P V (read_consume_args a) 0 (read_moment tick a) caps p row" "kind p = kind_read"
    by (auto simp: read_capability_eq)
  with p(2,3) show ?thesis by (auto simp: load_document_eq record_of_def)
qed

lemma read_refused: "read_document P V tick stamp key a caps s = (Inl e, s') \<Longrightarrow> s' = s"
  by (auto simp: read_document_def split: sum.splits)

section \<open>Writes\<close>

lemma store_document_eq:
  "store_document P key v writer stmt stamp s = Inr (d, s') \<longleftrightarrow> (\<exists>b kid.
     provenance_signature_bytes key (current_version s + 1) (to_hex (sha256 P v)) = Inr b \<and>
     utf8_encode (key_id writer) = Inr kid \<and> sql_int (current_version s + 1) = Inr (current_version s + 1) \<and>
     d = \<lparr>doc_value = v, doc_hash = to_hex (sha256 P v), doc_writer = key_id writer,
        doc_signature = to_hex (sign_bytes writer b), doc_version = current_version s + 1, doc_statement = stmt,
        doc_written_at = stamp\<rparr> \<and>
     s' = s\<lparr>documents := (documents s)(key \<mapsto> d), current_version := current_version s + 1\<rparr>)"
  by (auto simp: store_document_def Let_def sql_int_def int64_def split: if_splits)

lemma write_cases:
  assumes "write_document P key v w st stamp s = (a, s')"
  obtains (refused) e where "a = Inl e" "s' = s"
  | (stored) b stmt d where "v = PBytes b" "store_document P key b w stmt stamp s = Inr (d, s')"
      "a = require (valid_record (record_of key d)) ValidationError ''ProvenanceRecord'' (Inr (record_of key d))"
proof -
  let ?check = "require (key \<noteq> []) ProvenanceError ''key must be a non-empty string''
        (rbind (get_bytes ProvenanceError ''value must be bytes'' v) (\<lambda>v.
         rbind (statement_hex st) (\<lambda>stmt.
         require (key_id w \<noteq> []) ProvenanceError ''writer key id must not be empty'' (Inr (v, stmt)))))"
  show ?thesis
  proof (cases ?check)
    case (Inl e)
    with assms show ?thesis by (intro refused [of e]) (auto simp: write_document_def)
  next
    case (Inr q)
    obtain b stmt where q: "q = (b, stmt)" by (cases q)
    show ?thesis
    proof (cases "store_document P key b w stmt stamp s")
      case (Inl e)
      with assms Inr q show ?thesis
        by (intro refused [of e]) (auto simp: write_document_def immediate_def)
    next
      case stored': (Inr z)
      obtain d t where z: "z = (d, t)" by (cases z)
      have "v = PBytes b" using Inr q by auto
      with assms Inr q stored' z show ?thesis
        by (intro stored [of b stmt d]) (auto simp: write_document_def immediate_def)
    qed
  qed
qed

lemma written_readable:
  assumes "prims_ok P" "signer_ok P w" "reg (key_id w) = Some (public_key_bytes w)"
    and "write_document P key (PBytes v) w st stamp s = (Inr rec, s1)"
    and "documents s2 key = documents s1 key"
    and "ra_writers a = Some reg" "read_capability P V tick a caps = Inr p" "satisfies_caveats p rec"
  shows "\<exists>s3. read_document P V tick stamp2 key a caps s2 =
    (Inr \<lparr>rr_key = key, rr_value = v, rr_provenance = rec, rr_capability = capability_id p\<rparr>, s3)"
  using assms(4)
proof (cases rule: write_cases)
  case (stored b stmt d)
  from stored(2) obtain bs kid where d: "provenance_signature_bytes key (current_version s + 1) (to_hex (sha256 P b)) = Inr bs"
    "d = \<lparr>doc_value = b, doc_hash = to_hex (sha256 P b), doc_writer = key_id w, doc_signature = to_hex (sign_bytes w bs),
       doc_version = current_version s + 1, doc_statement = stmt, doc_written_at = stamp\<rparr>"
    "documents s1 key = Some d"
    by (auto simp: store_document_eq)
  have rec: "valid_record (record_of key d)" "rec = record_of key d" "b = v"
    using stored(1,3) by (auto simp: require_def split: if_splits)
  have "ed_verify P (public_key_bytes w) (sign_bytes w bs) bs" using assms(2) by (simp add: signer_ok_def)
  then have "writer_signed P (ra_writers a) rec (doc_value d)"
    using d(1) assms(3,6) by (simp add: rec writer_signed_def record_of_def d(2))
  moreover obtain k where "utf8_encode key = Inr k" using d(1) by (auto simp: psb_eq)
  ultimately have "load_document P a key p s2 =
      Inr \<lparr>rr_key = key, rr_value = v, rr_provenance = rec, rr_capability = capability_id p\<rparr>"
    using assms(5,8) d(2,3) rec by (simp add: load_document_eq)
  then show ?thesis using assms(7) by (simp add: read_document_eq)
qed simp

text \<open>What was written can be read: as long as no later write replaces the document, a read under
  a capability whose caveats admit the record returns the value and the record of the write, if the
  registry holds the writer's key.\<close>

theorem written_value_readable:
  assumes "prims_ok P" "signer_ok P w" "reg (key_id w) = Some (public_key_bytes w)"
    and "write_document P key (PBytes v) w st stamp s = (Inr rec, s1)"
    and "documents s2 key = documents s1 key"
    and "ra_writers a = Some reg" "read_capability P V tick a caps = Inr p" "satisfies_caveats p rec"
  shows "\<exists>s3. read_document P V tick stamp2 key a caps s2 =
    (Inr \<lparr>rr_key = key, rr_value = v, rr_provenance = rec, rr_capability = capability_id p\<rparr>, s3)"
  by (rule written_readable [OF assms])

section \<open>Versions\<close>

type_synonym write_request = "pystr \<times> pyval \<times> signer \<times> pyval \<times> pystr"

definition serve_write :: "prims \<Rightarrow> write_request \<Rightarrow> pstore \<Rightarrow> provenance_record res \<times> pstore" where
  "serve_write P q s = (case q of (key, v, w, st, stamp) \<Rightarrow> write_document P key v w st stamp s)"

definition versions_upto :: "pstore \<Rightarrow> int set" where
  "versions_upto s = {v. v \<le> current_version s}"

lemma serve_write_step:
  assumes "serve_write P q s = (a, s')"
  shows "(current_version s' = current_version s \<and> documents s' = documents s \<and> (\<exists>e. a = Inl e)) \<or>
    (current_version s' = current_version s + 1 \<and> (\<exists>key d. documents s' = (documents s)(key \<mapsto> d) \<and>
       doc_version d = current_version s' \<and>
       a = require (valid_record (record_of key d)) ValidationError ''ProvenanceRecord'' (Inr (record_of key d))))"
proof -
  obtain key v w st stamp where q: "q = (key, v, w, st, stamp)" by (cases q) auto
  have "write_document P key v w st stamp s = (a, s')" using assms by (simp add: serve_write_def q)
  then show ?thesis
  proof (cases rule: write_cases)
    case (stored b stmt d)
    from stored(2) have "documents s' = (documents s)(key \<mapsto> d)" "current_version s' = current_version s + 1"
      "doc_version d = current_version s'"
      by (auto simp: store_document_eq)
    with stored(3) show ?thesis by blast
  qed simp
qed

interpretation document_versions: single_use "serve_write P" "\<lambda>q r. Some (pr_version r)" versions_upto for P
proof
  fix r s s' e assume "serve_write P r s = (Inl e, s')"
  from serve_write_step [OF this] show "versions_upto s \<subseteq> versions_upto s'"
    by (auto simp: versions_upto_def)
next
  fix r s s' x assume "serve_write P r s = (Inr x, s')"
  from serve_write_step [OF this] show "versions_upto s \<subseteq> versions_upto s'"
    by (auto simp: versions_upto_def)
next
  fix r s s' x i assume w: "serve_write P r s = (Inr x, s')" "Some (pr_version x) = Some i"
  from serve_write_step [OF w(1)] w(2) show "i \<notin> versions_upto s \<and> i \<in> versions_upto s'"
    by (auto simp: versions_upto_def record_of_def require_def split: if_splits)
qed

lemma granted_versions:
  fixes t :: "('q \<times> provenance_record res) list"
  shows "granted (\<lambda>q r. Some (pr_version r)) t = map pr_version [r. (q, Inr r) \<leftarrow> t]"
  by (induction t) (auto split: sum.splits)

lemma granted_version:
  fixes t :: "('q \<times> provenance_record res) list"
  assumes "(q, Inr r) \<in> set t"
  shows "pr_version r \<in> set (granted (\<lambda>q r. Some (pr_version r)) t)"
  using assms
proof (induction t)
  case (Cons e t)
  obtain q' a where "e = (q', a)" by (cases e)
  with Cons show ?case by (cases a) auto
qed simp

text \<open>Over any sequence of writes no version is given twice, and none that the store had reached
  before.\<close>

theorem versions_never_reused:
  "distinct (map pr_version [r. (q, Inr r) \<leftarrow> fst (run_all (serve_write P) qs s)]) \<and>
   (\<forall>q r. (q, Inr r) \<in> set (fst (run_all (serve_write P) qs s)) \<longrightarrow> current_version s < pr_version r)"
proof -
  note g = granted_versions and m = granted_version
  let ?t = "fst (run_all (serve_write P) qs s)"
  note once = document_versions.granted_once [of P qs s]
  show ?thesis
  proof (intro conjI allI impI)
    show "distinct (map pr_version [r. (q, Inr r) \<leftarrow> ?t])"
      using once unfolding g [symmetric] by (rule conjunct1)
    fix q r assume "(q, Inr r) \<in> set ?t"
    then have "pr_version r \<in> set (granted (\<lambda>q r. Some (pr_version r)) ?t)" by (rule m)
    with once have "pr_version r \<notin> versions_upto s" by blast
    then show "current_version s < pr_version r" by (simp add: versions_upto_def)
  qed
qed

text \<open>Every document of the store has a version that was reached.\<close>

definition pstore_ok :: "pstore \<Rightarrow> bool" where
  "pstore_ok s \<longleftrightarrow> (\<forall>k d. documents s k = Some d \<longrightarrow> doc_version d \<le> current_version s)"

lemma run_writes:
  assumes "run_all (serve_write P) qs s = (trace, s')" "documents s' k = Some d"
  shows "documents s k = Some d \<or> (valid_record (record_of k d) \<longrightarrow> (\<exists>q. (q, Inr (record_of k d)) \<in> set trace))"
  using assms
proof (induction qs arbitrary: s trace)
  case (Cons q qs)
  obtain a s1 where step: "serve_write P q s = (a, s1)" by (cases "serve_write P q s")
  obtain t1 where run: "run_all (serve_write P) qs s1 = (t1, s')" "trace = (q, a) # t1"
    using Cons.prems(1) step by (auto simp: Let_def split: prod.splits)
  from Cons.IH [OF run(1) Cons.prems(2)] show ?case
  proof
    assume "documents s1 k = Some d"
    show ?thesis
    proof (cases "documents s k = Some d")
      case False
      with serve_write_step [OF step] \<open>documents s1 k = Some d\<close>
      have "a = require (valid_record (record_of k d)) ValidationError ''ProvenanceRecord'' (Inr (record_of k d))"
        by (auto split: if_splits)
      then have "valid_record (record_of k d) \<longrightarrow> (q, Inr (record_of k d)) \<in> set trace" using run(2) by simp
      then show ?thesis by blast
    qed simp
  qed (use run(2) in auto)
qed simp

text \<open>Freshness: a read under a capability that asks for a version above the one the store had reached
  at some time returns a record that a write after that time returned, never a value that was in
  the store then.\<close>

theorem fresh_read_sees_later_write:
  assumes "pstore_ok s0" "run_all (serve_write P) qs s0 = (trace, s1)"
    and "read_document P V tick stamp key a caps s1 = (Inr r, s2)" "read_capability P V tick a caps = Inr p"
    and "read_min_version p = Some n" "current_version s0 < n"
  shows "\<exists>q. (q, Inr (rr_provenance r)) \<in> set trace"
proof -
  from assms(3,4) obtain d where d: "documents s1 key = Some d" "rr_provenance r = record_of key d"
    "valid_record (record_of key d)" "satisfies_caveats p (record_of key d)"
    by (auto simp: read_document_eq load_document_eq)
  have "n \<le> doc_version d" using d(4) assms(5) by (simp add: satisfies_caveats_def record_of_def)
  moreover have "documents s0 key = Some d \<longrightarrow> doc_version d \<le> current_version s0"
    using assms(1) by (simp add: pstore_ok_def)
  ultimately have "documents s0 key \<noteq> Some d" using assms(6) by auto
  with run_writes [OF assms(2) d(1)] d(2,3) show ?thesis by auto
qed

section \<open>A concrete read\<close>

definition demo_read :: cap_payload where
  "demo_read = (demo_payload kind_read)\<lparr>spend_limit := None, spend_asset := None, read_key_prefix := Some (py ''d''),
     read_trusted_writers := Some [py ''w''], read_min_version := Some 1\<rparr>"

definition demo_read_row :: cap_row where
  "demo_read_row = demo_row\<lparr>row_kind := kind_read, row_spend_limit := None, row_spend_asset := None, row_mandate := None\<rparr>"

definition demo_caps :: store where
  "demo_caps = (new_store (py ''t'') 0)\<lparr>capabilities := [py ''cap-1'' \<mapsto> demo_read_row]\<rparr>"

definition demo_read_args :: "bytes \<Rightarrow> read_args" where
  "demo_read_args m = \<lparr>ra_cose = PBytes m, ra_proof = PBytes (toy_signature (replicate 32 9) demo_message),
     ra_challenge = [1, 2], ra_issuers = toy_trust demo_issuer,
     ra_writers = Some [py ''w'' \<mapsto> public_key_bytes (toy_signer ''w'' 3)], ra_now = Some (Aware 60000000 0)\<rparr>"

lemma demo_read_signed: "\<exists>m. sign_capability demo_read demo_issuer = Inr m"
  using length_int_text [of 0] length_int_text [of 3600000000]
  by (intro demo_signed) (simp add: cap_small_def demo_read_def demo_payload_def payload_dump_def
      kind_read_def del: to_hex.simps)

lemma demo_read_capability:
  assumes "sign_capability demo_read demo_issuer = Inr m"
  shows "read_capability toy read_cap 0 (demo_read_args m) demo_caps = Inr demo_read"
proof -
  have "well_formed demo_read" "in_window toy 60000000 demo_read"
    using demo_window(1) [of 60000000 kind_read]
    by (simp_all add: demo_read_def well_formed_def in_window_def demo_payload_def capability_version_def kinds_def
        del: to_hex.simps)
  then have "verify_capability toy read_cap (PBytes m) (toy_trust demo_issuer) 60000000 = Inr demo_read"
    using assms by (simp add: demo_verify)
  then have "authorized toy read_cap (read_consume_args (demo_read_args m)) 0 60000000 demo_caps demo_read demo_read_row"
    using demo_proof
    by (simp add: authorized_def read_consume_args_def demo_read_args_def demo_read_def demo_caps_def demo_read_row_def
        demo_payload_def demo_row_def new_store_def revoke_targets_def is_revoked_def within_def del: to_hex.simps)
  then show ?thesis
    by (auto simp: read_capability_eq read_moment_def demo_read_args_def demo_read_def demo_payload_def)
qed

lemma demo_write: "\<exists>rec s1. write_document toy (py ''doc'') (PBytes [5]) (toy_signer ''w'' 3) PNone (py ''t'') new_pstore
    = (Inr rec, s1) \<and> satisfies_caveats demo_read rec"
proof -
  have d: "length (toy_digest [5]) = 32" by (simp add: toy_digest_def)
  have "utf8_encode (py ''doc'') = Inr [100, 111, 99]" "utf8_encode (py ''w'') = Inr [119]"
    by (simp_all add: py_def utf8_char_def b8_def)
  then obtain b where b: "provenance_signature_bytes (py ''doc'') 1 (to_hex (toy_digest [5])) = Inr b"
    "utf8_encode (py ''w'') = Inr [119]"
    by (simp add: psb_eq)
  let ?d = "\<lparr>doc_value = [5], doc_hash = to_hex (toy_digest [5]), doc_writer = py ''w'',
    doc_signature = to_hex (toy_signature (replicate 32 3) b), doc_version = 1, doc_statement = None, doc_written_at = py ''t''\<rparr>"
  let ?s = "\<lparr>documents = [py ''doc'' \<mapsto> ?d], current_version = 1, read_audit = []\<rparr>"
  have "store_document toy (py ''doc'') [5] (toy_signer ''w'' 3) None (py ''t'') new_pstore = Inr (?d, ?s)"
    using b by (simp add: store_document_eq sql_int_def int64_def new_pstore_def del: utf8_encode.simps to_hex.simps)
  then have "write_document toy (py ''doc'') (PBytes [5]) (toy_signer ''w'' 3) PNone (py ''t'') new_pstore =
      (require (valid_record (record_of (py ''doc'') ?d)) ValidationError ''ProvenanceRecord'' (Inr (record_of (py ''doc'') ?d)), ?s)"
    by (simp add: write_document_def statement_hex_def immediate_def del: to_hex.simps)
  moreover have "valid_record (record_of (py ''doc'') ?d)"
    by (simp add: valid_record_def record_of_def d del: to_hex.simps)
  moreover have "satisfies_caveats demo_read (record_of (py ''doc'') ?d)"
    by (simp add: satisfies_caveats_def demo_read_def demo_payload_def record_of_def)
      (simp add: startswith_def py_def)
  ultimately show ?thesis by simp
qed

abbreviation demo_write_request :: write_request where
  "demo_write_request \<equiv> (py ''doc'', PBytes [5], toy_signer ''w'' 3, PNone, py ''t'')"

lemma demo_read_run: "\<exists>m rec s1 s3. sign_capability demo_read demo_issuer = Inr m \<and>
    serve_write toy demo_write_request new_pstore = (Inr rec, s1) \<and>
    read_document toy read_cap 0 (py ''t'') (py ''doc'') (demo_read_args m) demo_caps s1 =
     (Inr \<lparr>rr_key = py ''doc'', rr_value = [5], rr_provenance = rec, rr_capability = py ''cap-1''\<rparr>, s3)"
proof -
  obtain m where m: "sign_capability demo_read demo_issuer = Inr m" using demo_read_signed by blast
  obtain rec s1 where w: "write_document toy (py ''doc'') (PBytes [5]) (toy_signer ''w'' 3) PNone (py ''t'') new_pstore
    = (Inr rec, s1)" "satisfies_caveats demo_read rec" using demo_write by blast
  have "ra_writers (demo_read_args m) = Some [py ''w'' \<mapsto> public_key_bytes (toy_signer ''w'' 3)]"
    by (simp add: demo_read_args_def)
  from written_readable [OF toy_ok toy_signer_ok _ w(1) refl this demo_read_capability [OF m] w(2), of "py ''t''"]
  show ?thesis using m w(1) by (auto simp: demo_read_def demo_payload_def serve_write_def)
qed

theorem written_value_readable_witness:
  "\<exists>m rec s1 s3. read_document toy read_cap 0 (py ''t'') (py ''doc'') (demo_read_args m) demo_caps s1 =
     (Inr \<lparr>rr_key = py ''doc'', rr_value = [5], rr_provenance = rec, rr_capability = py ''cap-1''\<rparr>, s3)"
proof -
  obtain m where m: "sign_capability demo_read demo_issuer = Inr m" using demo_read_signed by blast
  obtain rec s1 where w: "write_document toy (py ''doc'') (PBytes [5]) (toy_signer ''w'' 3) PNone (py ''t'') new_pstore
    = (Inr rec, s1)" "satisfies_caveats demo_read rec" using demo_write by blast
  have "ra_writers (demo_read_args m) = Some [py ''w'' \<mapsto> public_key_bytes (toy_signer ''w'' 3)]"
    by (simp add: demo_read_args_def)
  from written_value_readable [OF toy_ok toy_signer_ok _ w(1) refl this demo_read_capability [OF m] w(2), of "py ''t''"]
  show ?thesis by (auto simp: demo_read_def demo_payload_def)
qed

theorem read_requires_provenance_witness:
  "\<exists>m r. writer_signed toy (ra_writers (demo_read_args m)) r [5] \<and> pr_key r = py ''doc''"
proof -
  obtain m rec s1 s3 where run: "read_document toy read_cap 0 (py ''t'') (py ''doc'') (demo_read_args m) demo_caps s1 =
     (Inr \<lparr>rr_key = py ''doc'', rr_value = [5], rr_provenance = rec, rr_capability = py ''cap-1''\<rparr>, s3)"
    using demo_read_run by blast
  from read_requires_provenance [OF run] show ?thesis by auto
qed

theorem fresh_read_sees_later_write_witness:
  "\<exists>m r s1 s3. read_document toy read_cap 0 (py ''t'') (py ''doc'') (demo_read_args m) demo_caps s1 = (Inr r, s3) \<and>
     (demo_write_request, Inr (rr_provenance r)) \<in> set (fst (run_all (serve_write toy) [demo_write_request] new_pstore))"
proof -
  obtain m rec s1 s3 where run: "sign_capability demo_read demo_issuer = Inr m"
    "serve_write toy demo_write_request new_pstore = (Inr rec, s1)"
    "read_document toy read_cap 0 (py ''t'') (py ''doc'') (demo_read_args m) demo_caps s1 =
     (Inr \<lparr>rr_key = py ''doc'', rr_value = [5], rr_provenance = rec, rr_capability = py ''cap-1''\<rparr>, s3)"
    using demo_read_run by blast
  have "run_all (serve_write toy) [demo_write_request] new_pstore = ([(demo_write_request, Inr rec)], s1)"
    using run(2) by simp
  note trace = this
  have "pstore_ok new_pstore" "read_min_version demo_read = Some 1" "current_version new_pstore < 1"
    by (simp_all add: pstore_ok_def new_pstore_def demo_read_def)
  from fresh_read_sees_later_write [OF this(1) trace run(3) demo_read_capability [OF run(1)] this(2,3)]
  have "(demo_write_request, Inr rec) \<in> set (fst (run_all (serve_write toy) [demo_write_request] new_pstore))"
    unfolding trace by simp
  with run(3) show ?thesis by (intro exI conjI) (assumption, simp)
qed

theorem versions_never_reused_witness:
  "\<exists>rec s1. run_all (serve_write toy) [demo_write_request] new_pstore = ([(demo_write_request, Inr rec)], s1) \<and>
     0 < pr_version rec"
proof -
  obtain rec s1 where "serve_write toy demo_write_request new_pstore = (Inr rec, s1)" using demo_read_run by blast
  then have run: "run_all (serve_write toy) [demo_write_request] new_pstore = ([(demo_write_request, Inr rec)], s1)"
    by simp
  from versions_never_reused [of toy "[demo_write_request]" new_pstore] run show ?thesis
    by (auto simp: new_pstore_def)
qed

end
