(* ===== verification/Hash_Chain.thy ===== *)
theory Hash_Chain
  imports Merkle
begin

text \<open>
  Chains of records in which each record holds the hash of the one before it: two chains of one length
  that end in the same hash hold the same records, or two different records have the same digest.
\<close>

text \<open>\<open>prev e\<close> is what a record says of its predecessor, \<open>link e\<close> what its successor must say of it.\<close>

fun linked :: "('e \<Rightarrow> 'p) \<Rightarrow> ('e \<Rightarrow> 'p) \<Rightarrow> 'p \<Rightarrow> 'e list \<Rightarrow> bool" where
  "linked prev link g [] \<longleftrightarrow> True"
| "linked prev link g (e # es) \<longleftrightarrow> prev e = g \<and> linked prev link (link e) es"

lemma linked_snoc: "linked prev link g (es @ [e]) \<longleftrightarrow>
    linked prev link g es \<and> prev e = (if es = [] then g else link (last es))"
  by (induction es arbitrary: g) auto

locale hash_chain =
  fixes body :: "'e \<Rightarrow> 'b" and prev :: "'e \<Rightarrow> 'p" and digest :: "'b \<Rightarrow> 'h" and mark :: "'h \<Rightarrow> 'p"
  assumes body_prev: "body e = body e' \<Longrightarrow> prev e = prev e'"
    and mark_inject: "mark h = mark h' \<Longrightarrow> h = h'"
begin

lemma chains_agree:
  assumes "length es = length es'" "linked prev (\<lambda>e. mark (digest (body e))) g es"
    and "linked prev (\<lambda>e. mark (digest (body e))) g es'" "es \<noteq> []"
    and "digest (body (last es)) = digest (body (last es'))" "\<not> collides digest (body ` set (es @ es'))"
  shows "map body es = map body es'"
  using assms
proof (induction es arbitrary: es' rule: rev_induct)
  case (snoc e es)
  from snoc.prems(1) obtain fs f where es': "es' = fs @ [f]" and len: "length es = length fs"
    by (cases es' rule: rev_cases) auto
  have free: "\<not> collides digest (body ` set ((es @ [e]) @ fs @ [f]))" using snoc.prems(6) by (simp add: es')
  have "digest (body e) = digest (body f)" using snoc.prems(5) by (simp add: es')
  then have e: "body e = body f" by - (rule not_collidesD [OF free], simp_all)
  then have prev: "prev e = prev f" by (rule body_prev)
  note chains = snoc.prems(2,3) [unfolded es' linked_snoc]
  have "map body es = map body fs"
  proof (cases "es = []")
    case False
    with len have ne: "fs \<noteq> []" by auto
    have "digest (body (last es)) = digest (body (last fs))"
      using chains prev False ne by (auto intro: mark_inject)
    moreover have "\<not> collides digest (body ` set (es @ fs))"
      using free by (auto simp: collides_def)
    ultimately show ?thesis using snoc.IH [OF len _ _ False] chains by simp
  qed (use len in simp)
  with e show ?case by (simp add: es')
qed simp

end

end
