(* ===== verification/Evidence.thy ===== *)
theory Evidence
  imports Canonical_Total Merkle
begin

text \<open>
  The evidence ledger of \<^verbatim>\<open>anchored_checkpoints.py\<close>: hash-chained events, the
  Merkle tree over their hashes and the proofs of inclusion. A hash is the hexadecimal text of the
  SHA-256 of canonical JSON; hashing raises where the JSON has no canonical form.
\<close>

section \<open>Events\<close>

record event =
  sequence :: int
  event_type :: pystr
  ev_data :: "(pystr \<times> json) list"
  ev_timestamp :: int
  ev_previous :: "pystr option"

text \<open>The dumped fields of an event, with the text of its time, and their JSON object.\<close>

type_synonym event_fields = "int \<times> pystr \<times> (pystr \<times> json) list \<times> pystr \<times> pystr option"

definition opt_str :: "pystr option \<Rightarrow> json" where
  "opt_str s = (case s of None \<Rightarrow> JNull | Some t \<Rightarrow> JStr t)"

fun fields_json :: "event_fields \<Rightarrow> json" where
  "fields_json (n, ty, d, t, prev) = JObj [(py ''sequence'', JInt n), (py ''event_type'', JStr ty),
     (py ''data'', JObj d), (py ''timestamp'', JStr t), (py ''previous_hash'', opt_str prev)]"

definition event_fields :: "prims \<Rightarrow> event \<Rightarrow> event_fields" where
  "event_fields P e = (sequence e, event_type e, ev_data e, dt_json P (ev_timestamp e), ev_previous e)"

definition event_hash :: "prims \<Rightarrow> event \<Rightarrow> pystr res" where
  "event_hash P e = Canonical.sha256_hex P (fields_json (event_fields P e))"

section \<open>The ledger\<close>

text \<open>The time of an event is the given one, which must be aware, or the clock's.\<close>

definition event_time :: "int \<Rightarrow> datetime option \<Rightarrow> int res" where
  "event_time tick t = (case t of None \<Rightarrow> Inr tick | Some (Aware u z) \<Rightarrow> Inr u
     | Some (Naive u) \<Rightarrow> raise ValidationError ''timestamp must be timezone-aware'')"

definition last_hash :: "prims \<Rightarrow> event list \<Rightarrow> pystr option res" where
  "last_hash P evs = (if evs = [] then Inr None else rbind (event_hash P (last evs)) (\<lambda>h. Inr (Some h)))"

definition append_event :: "prims \<Rightarrow> int \<Rightarrow> pystr \<Rightarrow> (pystr \<times> json) list \<Rightarrow> datetime option
    \<Rightarrow> event list \<Rightarrow> event res \<times> event list" where
  "append_event P tick ty d t evs =
     (case rbind (last_hash P evs) (\<lambda>prev. rbind (event_time tick t) (\<lambda>u.
        require (ty \<noteq> []) ValidationError ''EvidenceEvent''
          (Inr \<lparr>sequence = int (length evs), event_type = ty, ev_data = d, ev_timestamp = u, ev_previous = prev\<rparr>))) of
        Inl e \<Rightarrow> (Inl e, evs)
      | Inr ev \<Rightarrow> (Inr ev, evs @ [ev]))"

fun check_sequences :: "int \<Rightarrow> event list \<Rightarrow> unit res" where
  "check_sequences n [] = Inr ()"
| "check_sequences n (e # es) =
     require (sequence e = n) CheckpointError ''sequence tampering'' (check_sequences (n + 1) es)"

definition events_in_range :: "int \<Rightarrow> int \<Rightarrow> event list \<Rightarrow> event list res" where
  "events_in_range start_seq end_seq evs =
     (if start_seq < 0 \<or> end_seq < start_seq then raise CheckpointError ''invalid checkpoint range''
      else if int (length evs) \<le> end_seq then raise CheckpointError ''range end beyond ledger length''
      else let window = take (nat (end_seq + 1 - start_seq)) (drop (nat start_seq) evs) in
        rbind (check_sequences start_seq window) (\<lambda>_. Inr window))"

text \<open>\<open>no_error r\<close> is a check wrapped in \<^verbatim>\<open>except Exception: return False\<close>.\<close>

definition no_error :: "bool res \<Rightarrow> bool" where
  "no_error r = (case r of Inl e \<Rightarrow> False | Inr b \<Rightarrow> b)"

lemma no_error_iff: "no_error r \<longleftrightarrow> r = Inr True"
  by (cases r) (auto simp: no_error_def)

fun check_links :: "prims \<Rightarrow> int \<Rightarrow> event option \<Rightarrow> event list \<Rightarrow> bool res" where
  "check_links P i prev [] = Inr True"
| "check_links P i prev (e # es) =
     rbind (case prev of None \<Rightarrow> Inr None | Some p \<Rightarrow> rbind (event_hash P p) (\<lambda>h. Inr (Some h))) (\<lambda>expected.
     if sequence e \<noteq> i \<or> ev_previous e \<noteq> expected then Inr False else check_links P (i + 1) (Some e) es)"

definition verify_hash_chain :: "prims \<Rightarrow> event list \<Rightarrow> bool" where
  "verify_hash_chain P evs = no_error (check_links P 0 None evs)"

section \<open>The Merkle tree\<close>

definition node_json :: "pystr \<Rightarrow> pystr \<Rightarrow> json" where
  "node_json l r = JObj [(py ''left'', JStr l), (py ''right'', JStr r)]"

definition parent_hash :: "prims \<Rightarrow> pystr \<Rightarrow> pystr \<Rightarrow> pystr res" where
  "parent_hash P l r = Canonical.sha256_hex P (node_json l r)"

text \<open>One pass: the last hash of an odd level is doubled, then neighbours are joined.\<close>

definition pad :: "'a list \<Rightarrow> 'a list" where
  "pad level = (if odd (length level) then level @ [last level] else level)"

fun join_pairs :: "prims \<Rightarrow> pystr list \<Rightarrow> pystr list res" where
  "join_pairs P (l # r # hs) = rbind (parent_hash P l r) (\<lambda>h. rbind (join_pairs P hs) (\<lambda>hs'. Inr (h # hs')))"
| "join_pairs P hs = Inr []"

lemma length_join_pairs: "join_pairs P hs = Inr hs' \<Longrightarrow> length hs' = length hs div 2"
  by (induction P hs arbitrary: hs' rule: join_pairs.induct) auto

lemma length_pad: "length (pad hs) = 2 * ((length hs + 1) div 2)"
  by (auto simp: pad_def elim!: oddE evenE)

lemma join_pad_shorter: "join_pairs P (pad hs) = Inr hs' \<Longrightarrow> 1 < length hs \<Longrightarrow> length hs' < length hs"
  by (drule length_join_pairs) (simp add: length_pad)

lemma join_pad_nonempty: "join_pairs P (pad hs) = Inr hs' \<Longrightarrow> hs \<noteq> [] \<Longrightarrow> hs' \<noteq> []"
  by (drule length_join_pairs) (cases hs, auto simp: length_pad)

lemma rbind_cong [fundef_cong]:
  "r = r' \<Longrightarrow> (\<And>x. r' = Inr x \<Longrightarrow> k x = k' x) \<Longrightarrow> rbind r k = rbind r' k'"
  by (cases r') auto

function merkle_levels :: "prims \<Rightarrow> pystr list \<Rightarrow> pystr res" where
  "merkle_levels P level =
     (if 1 < length level then rbind (join_pairs P (pad level)) (\<lambda>level'. merkle_levels P level')
      else Inr (level ! 0))"
  by pat_completeness auto
termination
  by (relation "measure (\<lambda>(P, level). length level)") (auto dest: join_pad_shorter)

declare merkle_levels.simps [simp del]

definition build_merkle_root :: "prims \<Rightarrow> pystr list \<Rightarrow> pystr res" where
  "build_merkle_root P leaves =
     require (leaves \<noteq> []) CheckpointError ''cannot build a Merkle tree over zero leaves''
       (merkle_levels P leaves)"

section \<open>Proofs of inclusion\<close>

text \<open>A step is the sibling's hash and whether the sibling is the left child.\<close>

record inclusion_proof =
  ip_leaf_hash :: pystr
  ip_leaf_index :: int
  ip_total_leaves :: int
  ip_steps :: "(bool \<times> pystr) list"

definition step_at :: "nat \<Rightarrow> pystr list \<Rightarrow> bool \<times> pystr" where
  "step_at i level = (if even i then (False, level ! (i + 1)) else (True, level ! (i - 1)))"

function prove_path :: "prims \<Rightarrow> pystr list \<Rightarrow> nat \<Rightarrow> (bool \<times> pystr) list res" where
  "prove_path P level i =
     (if 1 < length level
      then rbind (join_pairs P (pad level)) (\<lambda>level'.
           rbind (prove_path P level' (i div 2)) (\<lambda>steps. Inr (step_at i (pad level) # steps)))
      else Inr [])"
  by pat_completeness auto
termination
  by (relation "measure (\<lambda>(P, level, i). length level)") (auto dest: join_pad_shorter)

declare prove_path.simps [simp del]

fun fold_steps :: "prims \<Rightarrow> pystr \<Rightarrow> (bool \<times> pystr) list \<Rightarrow> pystr res" where
  "fold_steps P d [] = Inr d"
| "fold_steps P d ((left, s) # steps) =
     rbind (if left then parent_hash P s d else parent_hash P d s) (\<lambda>d'. fold_steps P d' steps)"

text \<open>
  \<open>prove_event\<close> and \<open>verify_inclusion\<close> use of the checkpoint its first sequence
  number, its event count and its root.
\<close>

definition prove_event :: "prims \<Rightarrow> int \<Rightarrow> int \<Rightarrow> pystr \<Rightarrow> event list \<Rightarrow> int \<Rightarrow> inclusion_proof res" where
  "prove_event P start_seq event_count root evs seq =
     rbind (rmap (event_hash P) evs) (\<lambda>leaves.
     require (event_count = int (length leaves)) CheckpointError ''event count does not match checkpoint''
     (rbind (build_merkle_root P leaves) (\<lambda>r.
      require (r = root) CheckpointError ''events do not rebuild this checkpoint's Merkle root''
      (let i = seq - start_seq in
       require (0 \<le> i \<and> i < int (length leaves)) CheckpointError ''sequence outside checkpoint range''
       (rbind (prove_path P leaves (nat i)) (\<lambda>steps.
        Inr \<lparr>ip_leaf_hash = leaves ! nat i, ip_leaf_index = i, ip_total_leaves = int (length leaves),
             ip_steps = steps\<rparr>))))))"

definition verify_inclusion :: "prims \<Rightarrow> int \<Rightarrow> pystr \<Rightarrow> event \<Rightarrow> inclusion_proof \<Rightarrow> bool" where
  "verify_inclusion P event_count root e ip = no_error
     (rbind (event_hash P e) (\<lambda>leaf.
      if leaf \<noteq> ip_leaf_hash ip then Inr False
      else if ip_total_leaves ip \<noteq> event_count then Inr False
      else rbind (fold_steps P leaf (ip_steps ip)) (\<lambda>d. Inr (d = root))))"

section \<open>The tree the hashes describe\<close>

fun pair_shapes :: "'a shape list \<Rightarrow> 'a shape list" where
  "pair_shapes (s # t # ts) = Fork s t # pair_shapes ts"
| "pair_shapes ts = []"

lemma length_pair_shapes: "length (pair_shapes ts) = length ts div 2"
  by (induction ts rule: pair_shapes.induct) auto

function shape_levels :: "'a shape list \<Rightarrow> 'a shape" where
  "shape_levels ts = (if 1 < length ts then shape_levels (pair_shapes (pad ts)) else hd ts)"
  by pat_completeness auto
termination
  by (relation "measure length") (auto simp: length_pair_shapes length_pad)

declare shape_levels.simps [simp del]

text \<open>The hash as a total function, for values that have a canonical form.\<close>

definition json_digest :: "prims \<Rightarrow> json \<Rightarrow> pystr" where
  "json_digest P j = (case Canonical.sha256_hex P j of Inr h \<Rightarrow> h | Inl _ \<Rightarrow> [])"

abbreviation event_root :: "prims \<Rightarrow> event_fields shape \<Rightarrow> pystr" where
  "event_root P \<equiv> tree_root (json_digest P) fields_json node_json"

lemma json_digest_ok: "Canonical.sha256_hex P j = Inr h \<Longrightarrow> json_digest P j = h"
  by (simp add: json_digest_def)

lemma join_pairs_roots: "join_pairs P (map (event_root P) ts) = Inr hs \<Longrightarrow> hs = map (event_root P) (pair_shapes ts)"
proof (induction ts arbitrary: hs rule: pair_shapes.induct)
  case (1 s t ts)
  then show ?case by (auto simp: parent_hash_def json_digest_ok)
qed auto

lemma pad_map: "pad (map f ts) = map f (pad ts)"
  by (cases ts rule: rev_cases) (auto simp: pad_def)

lemma merkle_levels_root:
  "merkle_levels P (map (event_root P) ts) = Inr r \<Longrightarrow> ts \<noteq> [] \<Longrightarrow> r = event_root P (shape_levels ts)"
proof (induction ts rule: shape_levels.induct)
  case (1 ts)
  show ?case
  proof (cases "1 < length ts")
    case True
    with "1.prems"(1) obtain hs where hs: "join_pairs P (pad (map (event_root P) ts)) = Inr hs"
      "merkle_levels P hs = Inr r"
      by (subst (asm) merkle_levels.simps) auto
    from hs(1) have "hs = map (event_root P) (pair_shapes (pad ts))"
      by (simp only: pad_map join_pairs_roots)
    moreover have "pair_shapes (pad ts) \<noteq> []"
    proof -
      have "0 < length (pair_shapes (pad ts))" using True by (simp add: length_pair_shapes length_pad)
      then show ?thesis by auto
    qed
    ultimately show ?thesis
      using "1.IH" [OF True] hs(2) True by (subst shape_levels.simps) simp
  next
    case False
    with "1.prems" show ?thesis
      by (subst (asm) merkle_levels.simps, subst shape_levels.simps) (cases ts, auto)
  qed
qed

lemma tips_pair_shapes: "even (length ts) \<Longrightarrow> concat (map tips (pair_shapes ts)) = concat (map tips ts)"
  by (induction ts rule: pair_shapes.induct) auto

lemma even_pad [simp]: "even (length (pad ts))"
  by (simp add: length_pad)

lemma set_pad [simp]: "set (pad ts) = set ts"
  by (cases ts) (auto simp: pad_def)

lemma tips_shape_levels: "ts \<noteq> [] \<Longrightarrow> set (tips (shape_levels ts)) = set (concat (map tips ts))"
proof (induction ts rule: shape_levels.induct)
  case (1 ts)
  show ?case
  proof (cases "1 < length ts")
    case True
    have "0 < length (pair_shapes (pad ts))" using True by (simp add: length_pair_shapes length_pad)
    then have "pair_shapes (pad ts) \<noteq> []" by auto
    with "1.IH" [OF True] have "set (tips (shape_levels ts)) = set (concat (map tips (pair_shapes (pad ts))))"
      using True by (subst shape_levels.simps) simp
    also have "\<dots> = set (concat (map tips ts))" by (simp add: tips_pair_shapes)
    finally show ?thesis .
  next
    case False
    with 1(2) show ?thesis by (subst shape_levels.simps) (cases ts, auto)
  qed
qed

lemma fold_steps_climb: "fold_steps P d steps = Inr r \<Longrightarrow> climb (json_digest P) node_json d steps = r"
  by (induction P d steps rule: fold_steps.induct) (auto simp: parent_hash_def json_digest_ok split: if_splits)

interpretation event_tree: hash_tree fields_json node_json "\<lambda>_. True"
proof
  show "fields_json x \<noteq> node_json l r" for x l r by (cases x) (auto simp: node_json_def)
  show "fields_json x = fields_json y \<Longrightarrow> x = y" for x y
    by (cases x; cases y) (auto simp: opt_str_def split: option.splits)
qed (auto simp: node_json_def)

end
