(* ===== verification/Evidence_Properties.thy ===== *)
theory Evidence_Properties
  imports Hash_Chain Evidence Instances
begin

text \<open>
  The properties of the evidence ledger and of proofs of inclusion.
\<close>

section \<open>The ledger\<close>

text \<open>What the re-validation checks of one event.\<close>

definition follows :: "prims \<Rightarrow> event option \<Rightarrow> event \<Rightarrow> bool" where
  "follows P prev e \<longleftrightarrow> (case prev of None \<Rightarrow> ev_previous e = None
     | Some p \<Rightarrow> \<exists>h. event_hash P p = Inr h \<and> ev_previous e = Some h)"

lemma check_links_Cons: "check_links P i prev (e # es) = Inr True \<longleftrightarrow>
    sequence e = i \<and> follows P prev e \<and> check_links P (i + 1) (Some e) es = Inr True"
  by (cases prev) (auto simp: follows_def)

lemma check_links_snoc: "check_links P i prev (es @ [e]) = Inr True \<longleftrightarrow>
    check_links P i prev es = Inr True \<and> sequence e = i + int (length es) \<and>
    follows P (if es = [] then prev else Some (last es)) e"
  by (induction es arbitrary: i prev) (auto simp: check_links_Cons simp del: check_links.simps(2))

lemma verify_hash_chain_Nil [simp]: "verify_hash_chain P []"
  by (simp add: verify_hash_chain_def no_error_def)

lemma verify_hash_chain_snoc: "verify_hash_chain P (es @ [e]) \<longleftrightarrow>
    verify_hash_chain P es \<and> sequence e = int (length es) \<and> follows P (if es = [] then None else Some (last es)) e"
  by (auto simp: verify_hash_chain_def no_error_iff check_links_snoc)

lemma append_event_cases:
  obtains e where "append_event P tick ty d t evs = (Inl e, evs)"
  | ev where "append_event P tick ty d t evs = (Inr ev, evs @ [ev])"
    "sequence ev = int (length evs)" "last_hash P evs = Inr (ev_previous ev)"
proof (cases "fst (append_event P tick ty d t evs)")
  case (Inl e)
  then have "append_event P tick ty d t evs = (Inl e, evs)"
    by (auto simp: append_event_def split: sum.splits)
  then show ?thesis by (rule that(1))
next
  case (Inr ev)
  then have "append_event P tick ty d t evs = (Inr ev, evs @ [ev])"
    by (auto simp: append_event_def split: sum.splits)
  moreover from Inr have "sequence ev = int (length evs)" "last_hash P evs = Inr (ev_previous ev)"
    by (cases "last_hash P evs"; cases "event_time tick t"; cases "ty = []"; auto simp: append_event_def)+
  ultimately show ?thesis by (rule that(2))
qed

lemma append_event_verified:
  assumes "verify_hash_chain P evs" "append_event P tick ty d t evs = (a, evs')"
  shows "verify_hash_chain P evs'" and "\<exists>more. evs' = evs @ more"
proof -
  have "verify_hash_chain P evs' \<and> (\<exists>more. evs' = evs @ more)"
  proof (cases rule: append_event_cases [of P tick ty d t evs])
    case (2 ev)
    then have "follows P (if evs = [] then None else Some (last evs)) ev"
      by (cases "evs = []"; cases "event_hash P (last evs)") (auto simp: follows_def last_hash_def)
    with 2 assms show ?thesis by (simp add: verify_hash_chain_snoc)
  qed (use assms in simp)
  then show "verify_hash_chain P evs'" "\<exists>more. evs' = evs @ more" by auto
qed

text \<open>Any sequence of appends, each with its clock and arguments.\<close>

type_synonym append_request = "int \<times> pystr \<times> (pystr \<times> json) list \<times> datetime option"

fun append_all :: "prims \<Rightarrow> append_request list \<Rightarrow> event list \<Rightarrow> event list" where
  "append_all P [] evs = evs"
| "append_all P ((tick, ty, d, t) # qs) evs = append_all P qs (snd (append_event P tick ty d t evs))"

text \<open>The ledger only grows, and after any sequence of appends, accepted or refused, its hash chain
  verifies from the first event on.\<close>

theorem ledger_verifies:
  "verify_hash_chain P (append_all P qs []) \<and>
   (\<exists>more. append_all P (qs @ rs) [] = append_all P qs [] @ more)"
proof -
  have run: "verify_hash_chain P evs \<Longrightarrow> verify_hash_chain P (append_all P qs evs) \<and> (\<exists>more. append_all P qs evs = evs @ more)"
    for qs evs
  proof (induction qs arbitrary: evs)
    case (Cons q qs)
    obtain tick ty d t where q: "q = (tick, ty, d, t)" by (cases q) auto
    obtain a evs' where step: "append_event P tick ty d t evs = (a, evs')" by (cases "append_event P tick ty d t evs")
    with append_event_verified [OF Cons.prems step] obtain more where "verify_hash_chain P evs'" "evs' = evs @ more" by blast
    with Cons.IH [of evs'] q step show ?case by auto
  qed simp
  have "append_all P (qs @ rs) evs = append_all P rs (append_all P qs evs)" for evs
    by (induction qs arbitrary: evs) auto
  with run [of "[]" qs] run [of "append_all P qs []" rs] show ?thesis by simp
qed

text \<open>The ledger as a chain of hashes; the event's fields are in its body, its predecessor's hash among them.\<close>

interpretation ledger: hash_chain "\<lambda>e. fields_json (event_fields P e)" ev_previous "json_digest P" Some for P
proof
  fix e e' :: event
  assume "fields_json (event_fields P e) = fields_json (event_fields P e')"
  then have "event_fields P e = event_fields P e'" by (rule event_tree.leaf_inject)
  then show "ev_previous e = ev_previous e'" by (simp add: event_fields_def)
qed simp

lemma verified_linked:
  "verify_hash_chain P evs \<Longrightarrow> linked ev_previous (\<lambda>e. Some (json_digest P (fields_json (event_fields P e)))) None evs"
proof (induction evs rule: rev_induct)
  case (snoc e es)
  then show ?case
    by (auto simp: verify_hash_chain_snoc linked_snoc follows_def event_hash_def json_digest_ok split: if_splits)
qed simp

text \<open>The hash of the last event binds the whole ledger: two verified ledgers of one length whose
  last events have the same hash hold the same events, unless two different event objects among
  them have the same digest.\<close>

theorem hash_chain_binds:
  assumes "verify_hash_chain P evs" "verify_hash_chain P evs'" "length evs = length evs'" "evs \<noteq> []"
    and "event_hash P (last evs) = Inr h" "event_hash P (last evs') = Inr h"
    and "\<not> collides (json_digest P) (fields_json ` event_fields P ` set (evs @ evs'))"
  shows "map (event_fields P) evs = map (event_fields P) evs'"
proof -
  have "map (\<lambda>e. fields_json (event_fields P e)) evs = map (\<lambda>e. fields_json (event_fields P e)) evs'"
    using assms(5,6,7)
    by (intro ledger.chains_agree [OF assms(3) verified_linked [OF assms(1)] verified_linked [OF assms(2)] assms(4)])
      (simp_all add: event_hash_def json_digest_ok image_image)
  then show ?thesis
  proof (rule map_injective [of fields_json "map (event_fields P) evs" "map (event_fields P) evs'", simplified, unfolded o_def])
    show "inj fields_json" by (rule injI) (rule event_tree.leaf_inject)
  qed
qed

section \<open>Proofs of inclusion\<close>

lemma join_pairs_nth:
  "join_pairs P hs = Inr hs' \<Longrightarrow> 2 * j + 1 < length hs \<Longrightarrow> parent_hash P (hs ! (2 * j)) (hs ! (2 * j + 1)) = Inr (hs' ! j)"
proof (induction P hs arbitrary: hs' j rule: join_pairs.induct)
  case (1 P l r hs)
  then show ?case by (cases j) auto
qed auto

lemma nth_pad: "i < length level \<Longrightarrow> pad level ! i = level ! i"
  by (simp add: pad_def nth_append)

lemma fold_step_at:
  assumes "join_pairs P (pad level) = Inr level'" "i < length level"
  shows "fold_steps P (level ! i) (step_at i (pad level) # steps) = fold_steps P (level' ! (i div 2)) steps"
proof -
  have "2 * (i div 2) + 1 < 2 * ((length level + 1) div 2)" using assms(2) by presburger
  then have "2 * (i div 2) + 1 < length (pad level)" by (simp only: length_pad)
  from join_pairs_nth [OF assms(1) this]
  have up: "parent_hash P (pad level ! (2 * (i div 2))) (pad level ! (2 * (i div 2) + 1)) = Inr (level' ! (i div 2))" .
  show ?thesis
  proof (cases "even i")
    case True
    then have "2 * (i div 2) = i" by simp
    with up True assms(2) show ?thesis by (simp add: step_at_def nth_pad)
  next
    case False
    then have "2 * (i div 2) + 1 = i" "2 * (i div 2) = i - 1" by presburger+
    with up False assms(2) show ?thesis by (simp add: step_at_def nth_pad)
  qed
qed

lemma prove_path_fold:
  "merkle_levels P level = Inr r \<Longrightarrow> i < length level \<Longrightarrow>
     \<exists>steps. prove_path P level i = Inr steps \<and> fold_steps P (level ! i) steps = Inr r"
proof (induction P level arbitrary: i rule: merkle_levels.induct)
  case (1 P level)
  show ?case
  proof (cases "1 < length level")
    case True
    with "1.prems"(1) obtain level' where up: "join_pairs P (pad level) = Inr level'" "merkle_levels P level' = Inr r"
      by (subst (asm) merkle_levels.simps) auto
    have "length level' = (length level + 1) div 2"
      using length_join_pairs [OF up(1)] by (simp add: length_pad)
    with "1.prems"(2) have "i div 2 < length level'" by (simp add: div_less_iff_less_mult)
    from "1.IH" [OF True up(1) up(2) this] obtain steps where
      "prove_path P level' (i div 2) = Inr steps" "fold_steps P (level' ! (i div 2)) steps = Inr r" by blast
    with True up(1) fold_step_at [OF up(1) "1.prems"(2)] show ?thesis
      by (subst prove_path.simps) simp
  next
    case False
    with "1.prems"(2) have "i = 0" by simp
    with False "1.prems" show ?thesis
      by (subst prove_path.simps, subst (asm) merkle_levels.simps) auto
  qed
qed

lemma rmap_nth: "rmap f xs = Inr ys \<Longrightarrow> length ys = length xs \<and> (\<forall>i < length xs. f (xs ! i) = Inr (ys ! i))"
proof (induction xs arbitrary: ys)
  case (Cons x xs)
  then obtain y ys' where "ys = y # ys'" "f x = Inr y" "rmap f xs = Inr ys'" by auto
  with Cons.IH [of ys'] show ?case by (simp add: nth_Cons split: nat.splits)
qed simp

lemma inclusion_works:
  assumes "rmap (event_hash P) evs = Inr leaves" "build_merkle_root P leaves = Inr root" "k < length evs"
  shows "\<exists>ip. prove_event P start_seq (int (length evs)) root evs (start_seq + int k) = Inr ip \<and>
    ip_leaf_index ip = int k \<and> verify_inclusion P (int (length evs)) root (evs ! k) ip"
proof -
  have leaves: "length leaves = length evs" "event_hash P (evs ! k) = Inr (leaves ! k)"
    using rmap_nth [OF assms(1)] assms(3) by auto
  have "merkle_levels P leaves = Inr root" using assms(2) by (simp add: build_merkle_root_def)
  with prove_path_fold [of P leaves root k] leaves(1) assms(3) obtain steps where
    "prove_path P leaves k = Inr steps" "fold_steps P (leaves ! k) steps = Inr root" by auto
  with assms leaves show ?thesis
    by (simp add: prove_event_def verify_inclusion_def no_error_def)
qed

text \<open>For every event of a range whose hashes build the checkpoint's root the code makes a proof of
  inclusion, and the proof verifies.\<close>

theorem inclusion_complete:
  assumes "rmap (event_hash P) evs = Inr leaves" "build_merkle_root P leaves = Inr root" "k < length evs"
  shows "\<exists>ip. prove_event P start_seq (int (length evs)) root evs (start_seq + int k) = Inr ip \<and>
    ip_leaf_index ip = int k \<and> verify_inclusion P (int (length evs)) root (evs ! k) ip"
  by (rule inclusion_works [OF assms])

text \<open>The tree that a list of events describes.\<close>

definition event_shape :: "prims \<Rightarrow> event list \<Rightarrow> event_fields shape" where
  "event_shape P evs = shape_levels (map (\<lambda>e. Tip (event_fields P e)) evs)"

lemma event_root_shape:
  assumes "rmap (event_hash P) evs = Inr leaves" "build_merkle_root P leaves = Inr root"
  shows "event_root P (event_shape P evs) = root"
proof -
  let ?ts = "map (\<lambda>e. Tip (event_fields P e)) evs"
  have "leaves = map (event_root P) ?ts"
    by (rule nth_equalityI) (use rmap_nth [OF assms(1)] in \<open>auto simp: event_hash_def json_digest_ok\<close>)
  moreover have "merkle_levels P leaves = Inr root" "?ts \<noteq> []"
    using assms by (auto simp: build_merkle_root_def)
  ultimately show ?thesis unfolding event_shape_def by (metis merkle_levels_root)
qed

text \<open>C20: whatever index and path a proof of inclusion claims, if it verifies against the root that a range of
  events builds, its event is one of the range, or two of the objects hashed for the root and the path
  have the same digest.\<close>

theorem inclusion_binds_event:
  assumes "rmap (event_hash P) evs = Inr leaves" "build_merkle_root P leaves = Inr root"
    and "verify_inclusion P n root e ip"
    and "\<not> collides (json_digest P) (insert (fields_json (event_fields P e))
      (climb_inputs (json_digest P) node_json (json_digest P (fields_json (event_fields P e))) (ip_steps ip) \<union>
       tree_inputs (json_digest P) fields_json node_json (event_shape P evs)))"
  shows "event_fields P e \<in> event_fields P ` set evs"
proof -
  from assms(3) obtain leaf where leaf: "event_hash P e = Inr leaf" "fold_steps P leaf (ip_steps ip) = Inr root"
    by (auto simp: verify_inclusion_def no_error_iff split: if_splits)
  then have "leaf = json_digest P (fields_json (event_fields P e))" by (simp add: event_hash_def json_digest_ok)
  with fold_steps_climb [OF leaf(2)] event_root_shape [OF assms(1,2)]
  have "climb (json_digest P) node_json (json_digest P (fields_json (event_fields P e))) (ip_steps ip)
      = event_root P (event_shape P evs)" by simp
  then have "event_fields P e \<in> set (tips (event_shape P evs))"
    by (rule event_tree.inclusion_sound [OF TrueI _ assms(4)])
  moreover have "evs \<noteq> []" using assms(1,2) by (auto simp: build_merkle_root_def)
  ultimately show ?thesis by (auto simp: event_shape_def tips_shape_levels comp_def)
qed

text \<open>The root and the number of the events determine them.\<close>

lemma pad_inject: "length xs = length ys \<Longrightarrow> pad xs = pad ys \<Longrightarrow> xs = ys"
  by (auto simp: pad_def split: if_splits)

lemma pair_shapes_inject:
  "pair_shapes ts = pair_shapes us \<Longrightarrow> even (length ts) \<Longrightarrow> length ts = length us \<Longrightarrow> ts = us"
proof (induction ts arbitrary: us rule: pair_shapes.induct)
  case (1 s t ts)
  then obtain s' t' us' where "us = s' # t' # us'" by (cases us rule: pair_shapes.cases) auto
  with 1 show ?case by auto
qed auto

lemma shape_levels_inject:
  "shape_levels ts = shape_levels us \<Longrightarrow> length ts = length us \<Longrightarrow> ts \<noteq> [] \<Longrightarrow> ts = us"
proof (induction ts arbitrary: us rule: shape_levels.induct)
  case (1 ts)
  show ?case
  proof (cases "1 < length ts")
    case True
    let ?up = "\<lambda>ts. pair_shapes (pad ts)"
    have len: "length (?up ts) = length (?up us)" using "1.prems"(2) by (simp add: length_pair_shapes length_pad)
    moreover have "?up ts \<noteq> []"
    proof -
      have "0 < length (?up ts)" using True by (simp add: length_pair_shapes length_pad)
      then show ?thesis by auto
    qed
    moreover have "shape_levels (?up ts) = shape_levels (?up us)"
      using "1.prems"(1,2) True by (simp add: shape_levels.simps [of ts] shape_levels.simps [of us])
    ultimately have up: "?up ts = ?up us" using "1.IH" [OF True] by blast
    have "pad ts = pad us" by (rule pair_shapes_inject [OF up]) (simp_all add: length_pad "1.prems"(2))
    then show ?thesis by (rule pad_inject [OF "1.prems"(2)])
  next
    case False
    with "1.prems" show ?thesis
      by (cases ts; cases us) (auto simp: shape_levels.simps [of "[x]" for x])
  qed
qed

lemma events_root_inject:
  assumes "rmap (event_hash P) evs = Inr leaves" "build_merkle_root P leaves = Inr root"
    and "rmap (event_hash P) evs' = Inr leaves'" "build_merkle_root P leaves' = Inr root"
    and "length evs = length evs'"
    and "\<not> collides (json_digest P) (tree_inputs (json_digest P) fields_json node_json (event_shape P evs) \<union>
      tree_inputs (json_digest P) fields_json node_json (event_shape P evs'))"
  shows "map (event_fields P) evs = map (event_fields P) evs'"
proof -
  have "event_shape P evs = event_shape P evs'"
    by (rule event_tree.root_inject [OF TrueI _ assms(6)])
      (simp add: event_root_shape [OF assms(1,2)] event_root_shape [OF assms(3,4)])
  moreover have "evs \<noteq> []" using assms(1,2) by (auto simp: build_merkle_root_def)
  ultimately have "map (\<lambda>e. Tip (event_fields P e)) evs = map (\<lambda>e. Tip (event_fields P e)) evs'"
    using assms(5) by (intro shape_levels_inject) (simp_all add: event_shape_def)
  then have "map Tip (map (event_fields P) evs) = map Tip (map (event_fields P) evs')" by (simp add: comp_def)
  then show ?thesis by (rule map_injective) (simp add: inj_def)
qed

section \<open>Witnesses\<close>

definition demo_event :: "int \<Rightarrow> event" where
  "demo_event i = \<lparr>sequence = i, event_type = py ''decision'', ev_data = [(py ''n'', JInt i)], ev_timestamp = 5,
     ev_previous = None\<rparr>"

lemma demo_event_hash: "\<exists>h. event_hash toy (demo_event i) = Inr h \<and> text_ok h"
proof -
  have "json_ok toy (fields_json (event_fields toy (demo_event i)))"
    by (simp add: event_fields_def demo_event_def opt_str_def)
  from canonical_total [OF this] show ?thesis by (auto simp: event_hash_def sha256_hex_def)
qed

lemma demo_parent: "text_ok l \<Longrightarrow> text_ok r \<Longrightarrow> \<exists>h. parent_hash toy l r = Inr h"
  using canonical_total [of toy "node_json l r"] by (auto simp: node_json_def parent_hash_def sha256_hex_def)

lemma demo_event_root: "\<exists>l r root. rmap (event_hash toy) [demo_event 0, demo_event 1] = Inr [l, r] \<and>
    build_merkle_root toy [l, r] = Inr root"
proof -
  obtain l r where h: "event_hash toy (demo_event 0) = Inr l" "text_ok l" "event_hash toy (demo_event 1) = Inr r" "text_ok r"
    using demo_event_hash by blast
  moreover from demo_parent [OF h(2,4)] obtain root where "parent_hash toy l r = Inr root" by blast
  ultimately show ?thesis
    by (auto simp: build_merkle_root_def merkle_levels.simps [of toy "[l, r]"] merkle_levels.simps [of toy "[h]" for h] pad_def)
qed

theorem inclusion_complete_witness:
  "\<exists>root ip. prove_event toy 7 2 root [demo_event 0, demo_event 1] 8 = Inr ip \<and>
     verify_inclusion toy 2 root (demo_event 1) ip"
proof -
  obtain l r root where "rmap (event_hash toy) [demo_event 0, demo_event 1] = Inr [l, r]"
    "build_merkle_root toy [l, r] = Inr root" using demo_event_root by blast
  from inclusion_complete [OF this, of 1 7] show ?thesis by auto
qed

lemma demo_event_chain: "verify_hash_chain toy [demo_event 0]"
  by (simp add: verify_hash_chain_def no_error_def demo_event_def)

lemma demo_event_append: "append_event toy 5 (py ''decision'') [(py ''n'', JInt 0)] None [] = (Inr (demo_event 0), [demo_event 0])"
  by (simp add: append_event_def last_hash_def event_time_def demo_event_def)

theorem hash_chain_binds_witness:
  "map (event_fields toy) (snd (append_event toy 5 (py ''decision'') [(py ''n'', JInt 0)] None [])) =
   map (event_fields toy) [demo_event 0]"
proof -
  obtain h where "event_hash toy (demo_event 0) = Inr h" using demo_event_hash by blast
  with demo_event_chain show ?thesis
    by (intro hash_chain_binds [OF _ demo_event_chain]) (simp_all add: collides_def demo_event_append)
qed

text \<open>Primitives whose digest is the beginning of the message: the strings hashed for two events differ there.\<close>

definition prefix_prims :: prims where
  "prefix_prims = toy\<lparr>sha256 := take 14\<rparr>"

definition prefix_leaf :: "byte \<Rightarrow> pystr" where
  "prefix_leaf d = to_hex [123, 34, 100, 97, 116, 97, 34, 58, 123, 34, 110, 34, 58, d]"

definition prefix_root :: pystr where
  "prefix_root = to_hex [123, 34, 108, 101, 102, 116, 34, 58, 34, 55, 98, 50, 50, 54]"

definition prefix_proof :: inclusion_proof where
  "prefix_proof = \<lparr>ip_leaf_hash = prefix_leaf 49, ip_leaf_index = 1, ip_total_leaves = 2, ip_steps = [(True, prefix_leaf 48)]\<rparr>"

lemmas demo_texts = event_fields_def demo_event_def opt_str_def prefix_prims_def py_def json_string_def json_escape_def
  int_text_def canonical_bytes_def utf8_char_def sha256_hex_def b8_def

lemma prefix_hashes:
  "sha256_hex prefix_prims (fields_json (event_fields prefix_prims (demo_event 0))) = Inr (prefix_leaf 48)"
  "sha256_hex prefix_prims (fields_json (event_fields prefix_prims (demo_event 1))) = Inr (prefix_leaf 49)"
  by (simp_all add: demo_texts nat_text.simps [of 0] nat_text.simps [of "Suc 0"] nat_text.simps [of 5] prefix_leaf_def
      del: to_hex.simps)

lemma prefix_node: "sha256_hex prefix_prims (node_json (prefix_leaf 48) (prefix_leaf 49)) = Inr prefix_root"
  by (simp add: demo_texts node_json_def prefix_root_def prefix_leaf_def hex_digit_def)

lemma prefix_distinct: "prefix_leaf 48 \<noteq> prefix_leaf 49" "prefix_leaf d \<noteq> prefix_root"
  by (simp_all add: prefix_leaf_def prefix_root_def hex_digit_def)

lemma prefix_tree:
  "rmap (event_hash prefix_prims) [demo_event 0, demo_event 1] = Inr [prefix_leaf 48, prefix_leaf 49]"
  "build_merkle_root prefix_prims [prefix_leaf 48, prefix_leaf 49] = Inr prefix_root"
  "verify_inclusion prefix_prims 2 prefix_root (demo_event 1) prefix_proof"
  by (simp_all add: event_hash_def prefix_hashes build_merkle_root_def merkle_levels.simps [of prefix_prims "[h]" for h]
      merkle_levels.simps [of prefix_prims "[h, k]" for h k] pad_def parent_hash_def prefix_node verify_inclusion_def
      prefix_proof_def no_error_def)

text \<open>The event at place 1 of two, with its path: the hypotheses hold there.\<close>

theorem inclusion_binds_event_witness:
  "rmap (event_hash prefix_prims) [demo_event 0, demo_event 1] = Inr [prefix_leaf 48, prefix_leaf 49] \<and>
   build_merkle_root prefix_prims [prefix_leaf 48, prefix_leaf 49] = Inr prefix_root \<and>
   verify_inclusion prefix_prims 2 prefix_root (demo_event 1) prefix_proof \<and>
   \<not> collides (json_digest prefix_prims) (insert (fields_json (event_fields prefix_prims (demo_event 1)))
     (climb_inputs (json_digest prefix_prims) node_json
        (json_digest prefix_prims (fields_json (event_fields prefix_prims (demo_event 1)))) (ip_steps prefix_proof) \<union>
      tree_inputs (json_digest prefix_prims) fields_json node_json (event_shape prefix_prims [demo_event 0, demo_event 1]))) \<and>
   event_fields prefix_prims (demo_event 1) \<in> event_fields prefix_prims ` set [demo_event 0, demo_event 1]"
proof -
  let ?P = prefix_prims and ?e0 = "event_fields prefix_prims (demo_event 0)" and ?e1 = "event_fields prefix_prims (demo_event 1)"
  let ?n = "node_json (prefix_leaf 48) (prefix_leaf 49)"
  have d: "json_digest ?P (fields_json ?e0) = prefix_leaf 48" "json_digest ?P (fields_json ?e1) = prefix_leaf 49"
    "json_digest ?P ?n = prefix_root"
    by (simp_all add: json_digest_ok prefix_hashes prefix_node del: fields_json.simps)
  have s: "event_shape ?P [demo_event 0, demo_event 1] = Fork (Tip ?e0) (Tip ?e1)"
    by (simp add: event_shape_def shape_levels.simps [of "[x]" for x] shape_levels.simps [of "[x, y]" for x y] pad_def)
  have free: "\<not> collides (json_digest ?P) (insert (fields_json ?e1) (climb_inputs (json_digest ?P) node_json
      (json_digest ?P (fields_json ?e1)) (ip_steps prefix_proof) \<union>
      tree_inputs (json_digest ?P) fields_json node_json (event_shape ?P [demo_event 0, demo_event 1])))"
    using prefix_distinct prefix_distinct(2) [THEN not_sym] by (auto simp: s d collides_def prefix_proof_def simp del: fields_json.simps)
  from inclusion_binds_event [OF prefix_tree free] prefix_tree free show ?thesis by blast
qed

end
