(* ===== verification/Ots_Codec.thy ===== *)
theory Ots_Codec
  imports Evidence
begin

text \<open>
  The OpenTimestamps wire codec of \<^verbatim>\<open>anchored_checkpoints.py\<close>: varuints, byte
  strings, attestations, the operations, timestamp nodes and detached files. A reader takes the
  input that is left and returns a value with the rest; a node is a tree of messages in which
  an edge carries an operation.
\<close>

section \<open>Integers and byte strings\<close>

text \<open>Seven bits a byte, the low ones first; the top bit announces another byte.\<close>

function varuint_bytes :: "nat \<Rightarrow> bytes" where
  "varuint_bytes n =
     (if n div 128 = 0 then [b8 (n mod 128)] else b8 (n mod 128 + 128) # varuint_bytes (n div 128))"
  by pat_completeness auto
termination
  by (relation "measure id") (auto simp: div_greater_zero_iff intro: div_less_dividend)

declare varuint_bytes.simps [simp del]

definition varuint_encode :: "int \<Rightarrow> bytes res" where
  "varuint_encode n = (if n < 0 then raise OTSCodecError ''negative varuint'' else Inr (varuint_bytes (nat n)))"

text \<open>The bits of the bytes read so far are below \<open>shift\<close>, so adding is setting.\<close>

fun varuint_from :: "nat \<Rightarrow> nat \<Rightarrow> bytes \<Rightarrow> (nat \<times> bytes) res" where
  "varuint_from v shift [] = raise OTSCodecError ''truncated varuint''"
| "varuint_from v shift (b # bs) =
     (let v' = v + (unat b mod 128) * 2 ^ shift in
      if unat b < 128 then Inr (v', bs)
      else if 63 < shift + 7 then raise OTSCodecError ''varuint overflow''
      else varuint_from v' (shift + 7) bs)"

definition varuint_decode :: "bytes \<Rightarrow> (nat \<times> bytes) res" where
  "varuint_decode data = varuint_from 0 0 data"

definition varbytes_encode :: "bytes \<Rightarrow> bytes" where
  "varbytes_encode raw = varuint_bytes (length raw) @ raw"

definition varbytes_decode :: "bytes \<Rightarrow> (bytes \<times> bytes) res" where
  "varbytes_decode data = rbind (varuint_decode data) (\<lambda>(n, r).
     if length r < n then raise OTSCodecError ''truncated varbytes'' else Inr (take n r, drop n r))"

section \<open>Nodes\<close>

datatype attestation = PendingAt pystr | BitcoinAt int | UnknownAt bytes bytes

text \<open>An operation with its operand.\<close>

datatype ots_op = AppendOp bytes | PrependOp bytes | Sha256Op

datatype ots_node = OtsNode (node_msg: bytes) (node_attestations: "attestation list") (node_ops: "(ots_op \<times> ots_node) list")

definition pending_tag :: bytes where
  "pending_tag = [0x83, 0xdf, 0xe3, 0x0d, 0x2e, 0xf9, 0x0c, 0x8e]"

definition bitcoin_tag :: bytes where
  "bitcoin_tag = [0x05, 0x88, 0x96, 0x0d, 0x73, 0xd7, 0x19, 0x01]"

definition ots_sep :: byte where "ots_sep = 0xff"
definition attestation_tag :: byte where "attestation_tag = 0x00"

fun attestation_sort_key :: "attestation \<Rightarrow> bytes" where
  "attestation_sort_key (PendingAt uri) = pending_tag"
| "attestation_sort_key (BitcoinAt height) = bitcoin_tag"
| "attestation_sort_key (UnknownAt tag body) = tag"

fun encode_attestation :: "attestation \<Rightarrow> bytes res" where
  "encode_attestation (PendingAt uri) =
     rbind (utf8_encode uri) (\<lambda>u. Inr (pending_tag @ varbytes_encode (varbytes_encode u)))"
| "encode_attestation (BitcoinAt height) =
     rbind (varuint_encode height) (\<lambda>h. Inr (bitcoin_tag @ varbytes_encode h))"
| "encode_attestation (UnknownAt tag body) = Inr (tag @ varbytes_encode body)"

definition decode_attestation :: "bytes \<Rightarrow> (attestation \<times> bytes) res" where
  "decode_attestation data =
     (if length data < 8 then raise OTSCodecError ''truncated attestation tag''
      else let tag = take 8 data in rbind (varbytes_decode (drop 8 data)) (\<lambda>(body, r).
        if tag = pending_tag then rbind (varbytes_decode body) (\<lambda>(uri_bytes, tail).
          if tail \<noteq> [] then raise OTSCodecError ''trailing bytes in pending attestation''
          else case utf8_decode uri_bytes of
              None \<Rightarrow> raise OTSCodecError ''pending attestation URI is not UTF-8''
            | Some uri \<Rightarrow> Inr (PendingAt uri, r))
        else if tag = bitcoin_tag then rbind (varuint_decode body) (\<lambda>(height, tail).
          if tail \<noteq> [] then raise OTSCodecError ''trailing bytes in bitcoin attestation''
          else Inr (BitcoinAt (int height), r))
        else Inr (UnknownAt tag body, r)))"

fun op_tag :: "ots_op \<Rightarrow> byte" where
  "op_tag (AppendOp x) = 0xf0"
| "op_tag (PrependOp x) = 0xf1"
| "op_tag Sha256Op = 0xf7"

fun operand :: "ots_op \<Rightarrow> bytes" where
  "operand (AppendOp x) = x"
| "operand (PrependOp x) = x"
| "operand Sha256Op = []"

definition encode_op :: "ots_op \<Rightarrow> bytes" where
  "encode_op f = op_tag f # (case f of Sha256Op \<Rightarrow> [] | _ \<Rightarrow> varbytes_encode (operand f))"

definition decode_op :: "byte \<Rightarrow> bytes \<Rightarrow> (ots_op \<times> bytes) res" where
  "decode_op tag data =
     (if tag = 0xf0 then rbind (varbytes_decode data) (\<lambda>(x, r). Inr (AppendOp x, r))
      else if tag = 0xf1 then rbind (varbytes_decode data) (\<lambda>(x, r). Inr (PrependOp x, r))
      else if tag = 0xf7 then Inr (Sha256Op, data)
      else raise OTSCodecError ''unsupported OTS op tag'')"

definition max_msg :: nat where "max_msg = 4194304"
definition max_nesting :: nat where "max_nesting = 64"

definition apply_op :: "prims \<Rightarrow> ots_op \<Rightarrow> bytes \<Rightarrow> bytes res" where
  "apply_op P f msg =
     (if max_msg < length msg then raise OTSCodecError ''OTS message exceeds size limit''
      else Inr (case f of AppendOp x \<Rightarrow> msg @ x | PrependOp x \<Rightarrow> x @ msg | Sha256Op \<Rightarrow> sha256 P msg))"

section \<open>Encoding\<close>

text \<open>Every item of a node but the last one follows a separator.\<close>

fun with_separators :: "bytes list \<Rightarrow> bytes" where
  "with_separators [] = []"
| "with_separators [w] = w"
| "with_separators (w # ws) = ots_sep # w @ with_separators ws"

definition op_sort_key :: "ots_op \<times> 'n \<Rightarrow> byte \<times> bytes" where
  "op_sort_key e = (op_tag (fst e), operand (fst e))"

lemma rmap_cong [fundef_cong]:
  "xs = ys \<Longrightarrow> (\<And>x. x \<in> set ys \<Longrightarrow> f x = g x) \<Longrightarrow> rmap f xs = rmap g ys"
  by (induction ys arbitrary: xs) (auto intro!: rbind_cong)

function encode_node :: "ots_node \<Rightarrow> bytes res" where
  "encode_node (OtsNode m as ops) =
     (if as = [] \<and> ops = [] then raise OTSCodecError ''cannot encode an empty OTS timestamp node''
      else rbind (rmap encode_attestation (sort_key attestation_sort_key as)) (\<lambda>ws.
           rbind (rmap (\<lambda>(f, c). rbind (encode_node c) (\<lambda>w. Inr (encode_op f @ w))) (sort_key op_sort_key ops)) (\<lambda>vs.
           Inr (with_separators (map (\<lambda>w. attestation_tag # w) ws @ vs)))))"
  by pat_completeness auto
termination
proof (relation "measure size")
  fix m as ops f c ws
  fix e :: "ots_op \<times> ots_node"
  assume "e \<in> set (sort_key op_sort_key ops)" "(f, c) = e"
  then have "(f, c) \<in> set ops" by simp
  then show "(c, OtsNode m as ops) \<in> measure size"
    by (induction ops) auto
qed simp

section \<open>Decoding\<close>

text \<open>
  An item is an attestation or an edge; \<open>dec\<close> reads the child. The loop reads items while the
  tag is the separator. Its counter is the length of the input: every round takes at least
  one byte, so at zero the input is empty and the tag is the last one.
\<close>

type_synonym ots_item = "attestation + ots_op \<times> ots_node"

definition decode_item :: "prims \<Rightarrow> (bytes \<Rightarrow> bytes \<Rightarrow> (ots_node \<times> bytes) res) \<Rightarrow> bytes \<Rightarrow> byte \<Rightarrow> bytes
    \<Rightarrow> (ots_item \<times> bytes) res" where
  "decode_item P dec msg tag data =
     (if tag = attestation_tag then rbind (decode_attestation data) (\<lambda>(a, r). Inr (Inl a, r))
      else rbind (decode_op tag data) (\<lambda>(f, r). rbind (apply_op P f msg) (\<lambda>child_msg.
           rbind (dec child_msg r) (\<lambda>(c, r'). Inr (Inr (f, c), r')))))"

fun node_loop :: "(byte \<Rightarrow> bytes \<Rightarrow> (ots_item \<times> bytes) res) \<Rightarrow> nat \<Rightarrow> byte \<Rightarrow> bytes \<Rightarrow> (ots_item list \<times> bytes) res" where
  "node_loop item n tag data =
     (if tag = ots_sep then (case (n, data) of
          (Suc k, tag' # r) \<Rightarrow> rbind (item tag' r) (\<lambda>(x, r'). case r' of
              [] \<Rightarrow> raise OTSCodecError ''truncated OTS timestamp node''
            | tag'' # r'' \<Rightarrow> rbind (node_loop item k tag'' r'') (\<lambda>(xs, rest). Inr (x # xs, rest)))
        | _ \<Rightarrow> raise OTSCodecError ''truncated OTS timestamp node after separator'')
      else rbind (item tag data) (\<lambda>(x, rest). Inr ([x], rest)))"

declare node_loop.simps [simp del]

definition items_node :: "bytes \<Rightarrow> ots_item list \<Rightarrow> ots_node" where
  "items_node msg xs = OtsNode msg [a. Inl a \<leftarrow> xs] [e. Inr e \<leftarrow> xs]"

text \<open>The first argument is the number of levels that are left.\<close>

primrec decode_node :: "nat \<Rightarrow> prims \<Rightarrow> bytes \<Rightarrow> bytes \<Rightarrow> (ots_node \<times> bytes) res" where
  "decode_node 0 P msg data = raise OTSCodecError ''OTS timestamp nesting too deep''"
| "decode_node (Suc n) P msg data = (case data of
     [] \<Rightarrow> raise OTSCodecError ''truncated OTS timestamp node''
   | tag # r \<Rightarrow> rbind (node_loop (decode_item P (decode_node n P) msg) (length r) tag r) (\<lambda>(xs, rest).
       require (xs \<noteq> []) OTSCodecError ''empty OTS timestamp node'' (Inr (items_node msg xs, rest))))"

definition ots_levels :: nat where "ots_levels = Suc max_nesting"

section \<open>Detached files\<close>

definition ots_magic :: bytes where
  "ots_magic = [0x00, 0x4f, 0x70, 0x65, 0x6e, 0x54, 0x69, 0x6d, 0x65, 0x73, 0x74, 0x61, 0x6d, 0x70, 0x73, 0x00,
     0x00, 0x50, 0x72, 0x6f, 0x6f, 0x66, 0x00, 0xbf, 0x89, 0xe2, 0xe8, 0x84, 0xe8, 0x92, 0x94]"

definition sha256_file_tag :: byte where "sha256_file_tag = 0x08"

definition encode_file :: "bytes \<Rightarrow> ots_node \<Rightarrow> bytes res" where
  "encode_file dig node =
     require (length dig = 32) OTSCodecError ''OTS file digest must be 32 bytes (SHA-256)''
       (rbind (encode_node node) (\<lambda>w. Inr (ots_magic @ varuint_bytes 1 @ [sha256_file_tag] @ dig @ w)))"

definition decode_file :: "prims \<Rightarrow> bytes \<Rightarrow> (bytes \<times> ots_node) res" where
  "decode_file P data =
     require (take (length ots_magic) data = ots_magic) OTSCodecError ''bad OpenTimestamps magic''
     (rbind (varuint_decode (drop (length ots_magic) data)) (\<lambda>(v, r).
      require (v = 1) OTSCodecError ''unsupported OTS version''
      (case r of [] \<Rightarrow> raise OTSCodecError ''OTS file must use the SHA-256 crypto op''
       | c # r \<Rightarrow> require (c = sha256_file_tag) OTSCodecError ''OTS file must use the SHA-256 crypto op''
        (require (32 \<le> length r) OTSCodecError ''truncated OTS file digest''
         (rbind (decode_node ots_levels P (take 32 r) (drop 32 r)) (\<lambda>(node, rest).
          require (rest = []) OTSCodecError ''trailing bytes after OTS timestamp'' (Inr (take 32 r, node))))))))"

fun walk_attestations :: "ots_node \<Rightarrow> attestation list" where
  "walk_attestations (OtsNode m as ops) = as @ concat (map (\<lambda>(f, c). walk_attestations c) ops)"

end
