(* ===== verification/Ots_Laws.thy ===== *)
theory Ots_Laws
  imports Ots_Codec
begin

text \<open>
  The laws of the OpenTimestamps codec: each reader undoes its writer and leaves the rest of the
  input, and what the readers return is well formed. A node is determined up to the order of
  its items, which the encoder sorts.
\<close>

section \<open>Integers and byte strings\<close>

lemma varuint_from_bytes:
  "shift \<le> 63 \<Longrightarrow> 7 dvd shift \<Longrightarrow> n < 2 ^ (70 - shift) \<Longrightarrow>
     varuint_from v shift (varuint_bytes n @ r) = Inr (v + n * 2 ^ shift, r)"
proof (induction n arbitrary: v shift rule: varuint_bytes.induct)
  case (1 n)
  show ?case
  proof (cases "n div 128 = 0")
    case True
    then have "n < 128" by (simp add: div_eq_0_iff)
    then show ?thesis by (subst varuint_bytes.simps) (simp add: Let_def)
  next
    case False
    then have big: "128 \<le> n" by (simp add: div_eq_0_iff)
    have "shift \<noteq> 63"
    proof
      assume "shift = 63"
      with "1.prems"(3) have "n < 128" by simp
      with big show False by simp
    qed
    with "1.prems"(1,2) have next_shift: "shift + 7 \<le> 63" "7 dvd shift + 7" by presburger+
    have "(2::nat) ^ (70 - shift) = 2 ^ (70 - (shift + 7)) * 128"
    proof -
      have "(2::nat) ^ (70 - shift) = 2 ^ ((70 - (shift + 7)) + 7)"
        using next_shift(1) by (intro arg_cong [of _ _ "power 2"]) arith
      also have "\<dots> = 2 ^ (70 - (shift + 7)) * 128" by (simp add: power_add)
      finally show ?thesis .
    qed
    with "1.prems"(3) have small: "n div 128 < 2 ^ (70 - (shift + 7))" by (simp add: less_mult_imp_div_less)
    have "n * 2 ^ shift = (n mod 128 + n div 128 * 128) * 2 ^ shift" by (simp only: mod_div_mult_eq)
    also have "\<dots> = n mod 128 * 2 ^ shift + n div 128 * (2 ^ shift * 128)" by (simp only: distrib_left ac_simps)
    finally have sum: "n mod 128 * 2 ^ shift + n div 128 * (2 ^ shift * 128) = n * 2 ^ shift" ..
    show ?thesis
      using False "1.IH" [OF False next_shift small] next_shift
      by (subst varuint_bytes.simps) (simp add: Let_def add.assoc power_add sum)
  qed
qed

text \<open>Ten groups of seven bits.\<close>

definition varuint_limit :: nat where
  "varuint_limit = 2 ^ 70"

lemma varuint_round_trip: "n < varuint_limit \<Longrightarrow> varuint_decode (varuint_bytes n @ r) = Inr (n, r)"
  using varuint_from_bytes [of 0 n 0 r] by (simp add: varuint_decode_def varuint_limit_def)

lemma varuint_round_trip_all: "n < varuint_limit \<Longrightarrow> varuint_decode (varuint_bytes n) = Inr (n, [])"
  using varuint_round_trip [of n "[]"] by simp

lemma varuint_from_bound:
  "varuint_from v shift data = Inr (n, r) \<Longrightarrow> v < 2 ^ shift \<Longrightarrow> shift \<le> 63 \<Longrightarrow> n < 2 ^ 70 \<and> length r < length data"
proof (induction v shift data rule: varuint_from.induct)
  case (2 v shift b bs)
  let ?v = "v + unat b mod 128 * 2 ^ shift"
  have "unat b mod 128 * 2 ^ shift \<le> 127 * 2 ^ shift" by (rule mult_right_mono) (simp_all add: less_Suc_eq_le [symmetric])
  with 2(3) have "?v < 2 ^ shift + 127 * 2 ^ shift" by linarith
  then have v: "?v < 2 ^ (shift + 7)" by (simp add: power_add)
  show ?case
  proof (cases "unat b < 128")
    case True
    have "(2::nat) ^ (shift + 7) \<le> 2 ^ 70" using 2(4) by (intro power_increasing) auto
    with v True 2(2) show ?thesis by (auto simp: Let_def)
  next
    case False
    with 2(2) have "\<not> 63 < shift + 7" "varuint_from ?v (shift + 7) bs = Inr (n, r)"
      by (auto simp: Let_def split: if_splits)
    with 2(1) [OF refl False] v show ?thesis by (auto simp: Let_def)
  qed
qed simp

lemma varuint_decode_bound: "varuint_decode data = Inr (n, r) \<Longrightarrow> n < varuint_limit \<and> length r < length data"
  using varuint_from_bound [of 0 0 data n r] by (simp add: varuint_decode_def varuint_limit_def)

lemma length_varuint_bytes: "length (varuint_bytes n) \<le> n + 1"
proof (induction n rule: varuint_bytes.induct)
  case (1 n)
  show ?case
  proof (cases "n div 128 = 0")
    case False
    then have "n div 128 < n" by (simp add: div_eq_0_iff)
    with 1 False show ?thesis by (subst varuint_bytes.simps) simp
  qed (subst varuint_bytes.simps, simp)
qed

lemma varbytes_round_trip: "length raw < varuint_limit \<Longrightarrow> varbytes_decode (varbytes_encode raw @ r) = Inr (raw, r)"
  by (simp add: varbytes_decode_def varbytes_encode_def varuint_round_trip)

lemma varbytes_round_trip_all: "length raw < varuint_limit \<Longrightarrow> varbytes_decode (varbytes_encode raw) = Inr (raw, [])"
  using varbytes_round_trip [of raw "[]"] by simp

lemma varbytes_decode_bound: "varbytes_decode data = Inr (x, r) \<Longrightarrow> length x + length r < length data"
  by (auto simp: varbytes_decode_def split: if_splits dest!: varuint_decode_bound)

lemma length_varbytes_encode: "length (varbytes_encode raw) \<le> 2 * length raw + 1"
  using length_varuint_bytes [of "length raw"] by (simp add: varbytes_encode_def)

section \<open>Attestations and operations\<close>

text \<open>Byte strings stay below a size that no memory reaches, so that their length is a varuint.\<close>

definition sized_bytes :: "bytes \<Rightarrow> bool" where
  "sized_bytes x \<longleftrightarrow> length x < 2 ^ 64"

fun attestation_ok :: "attestation \<Rightarrow> bool" where
  "attestation_ok (PendingAt uri) = (case utf8_encode uri of Inl e \<Rightarrow> False | Inr u \<Rightarrow> sized_bytes u)"
| "attestation_ok (BitcoinAt h) = (0 \<le> h \<and> nat h < varuint_limit)"
| "attestation_ok (UnknownAt tag body) = (length tag = 8 \<and> tag \<notin> {pending_tag, bitcoin_tag} \<and> sized_bytes body)"

definition op_ok :: "ots_op \<Rightarrow> bool" where
  "op_ok f \<longleftrightarrow> sized_bytes (operand f)"

lemma sized_bytes_varuint: "sized_bytes x \<Longrightarrow> length x < varuint_limit"
  by (simp add: sized_bytes_def varuint_limit_def)

lemma tag_lengths [simp]: "length pending_tag = 8" "length bitcoin_tag = 8" "pending_tag \<noteq> bitcoin_tag" "bitcoin_tag \<noteq> pending_tag"
  by (simp_all add: pending_tag_def bitcoin_tag_def)

lemma take_tag: "length tag = 8 \<Longrightarrow> take 8 (tag @ r) = tag \<and> drop 8 (tag @ r) = r \<and> \<not> length (tag @ r) < 8"
  by simp

lemma attestation_round_trip:
  assumes "attestation_ok a"
  shows "\<exists>w. encode_attestation a = Inr w \<and> (\<forall>r. decode_attestation (w @ r) = Inr (a, r))"
proof (cases a)
  case (PendingAt uri)
  with assms obtain u where u: "utf8_encode uri = Inr u" "sized_bytes u" by (auto split: sum.splits)
  have "length (varbytes_encode u) < varuint_limit"
    using u(2) length_varbytes_encode [of u] by (simp add: sized_bytes_def varuint_limit_def)
  with u PendingAt show ?thesis
    by (simp add: decode_attestation_def varbytes_round_trip varbytes_round_trip_all
        sized_bytes_varuint utf8_decode_encode)
next
  case (BitcoinAt h)
  with assms have h: "nat h < varuint_limit" "0 \<le> h" by auto
  have "length (varuint_bytes (nat h)) < varuint_limit"
  proof -
    have "length (varuint_bytes n) \<le> Suc k" if "n < 128 ^ Suc k" for n k
      using that
    proof (induction k arbitrary: n)
      case (Suc k)
      then have "n div 128 < 128 ^ Suc k" by (simp add: less_mult_imp_div_less mult.commute)
      with Suc.IH show ?case by (subst varuint_bytes.simps) auto
    qed (subst varuint_bytes.simps, simp)
    from this [of "nat h" 9] h show ?thesis by (simp add: varuint_limit_def)
  qed
  with h BitcoinAt show ?thesis
    by (simp add: decode_attestation_def varuint_encode_def varbytes_round_trip varuint_round_trip_all)
next
  case (UnknownAt tag body)
  with assms show ?thesis by (simp add: decode_attestation_def varbytes_round_trip sized_bytes_varuint)
qed

lemma decode_attestation_ok:
  assumes "decode_attestation data = Inr (a, r)" "sized_bytes data"
  shows "attestation_ok a \<and> length r < length data"
proof -
  from assms(1) obtain body where b: "8 \<le> length data" "varbytes_decode (drop 8 data) = Inr (body, r)"
    by (cases "length data < 8"; cases "varbytes_decode (drop 8 data)")
      (auto simp: decode_attestation_def Let_def split: if_splits option.splits)
  then have len: "length body + length r < length data - 8" using varbytes_decode_bound by fastforce
  consider (pend) u uri where "varbytes_decode body = Inr (u, [])" "utf8_decode u = Some uri" "a = PendingAt uri"
    | (bit) h where "varuint_decode body = Inr (h, [])" "a = BitcoinAt (int h)"
    | (other) "take 8 data \<notin> {pending_tag, bitcoin_tag}" "a = UnknownAt (take 8 data) body"
    using assms(1) b by (auto simp: decode_attestation_def Let_def split: if_splits option.splits)
  then show ?thesis
  proof cases
    case pend
    with varbytes_decode_bound [OF pend(1)] len assms(2) show ?thesis
      by (auto simp: utf8_encode_decode sized_bytes_def)
  next
    case bit
    have "h < varuint_limit" using varuint_decode_bound [OF bit(1)] by simp
    with bit len show ?thesis by simp
  next
    case other
    with len b assms(2) show ?thesis by (auto simp: sized_bytes_def)
  qed
qed

lemma op_round_trip: "op_ok f \<Longrightarrow> \<exists>w. encode_op f = op_tag f # w \<and> (\<forall>r. decode_op (op_tag f) (w @ r) = Inr (f, r))"
  by (cases f) (auto simp: encode_op_def decode_op_def op_ok_def varbytes_round_trip sized_bytes_varuint)

lemma decode_op_ok: "decode_op tag data = Inr (f, r) \<Longrightarrow> sized_bytes data \<Longrightarrow> op_ok f \<and> length r \<le> length data"
  by (auto simp: decode_op_def op_ok_def sized_bytes_def split: if_splits dest!: varbytes_decode_bound)

lemma op_tags [simp]: "op_tag f \<noteq> ots_sep" "op_tag f \<noteq> attestation_tag" "attestation_tag \<noteq> ots_sep"
  by (cases f; simp add: ots_sep_def attestation_tag_def)+

section \<open>Nodes\<close>

text \<open>
  A node over a message: its items are well formed, an edge's child is a node over the message
  that the operation makes, and no more than \<open>n\<close> nodes lie on a path.
\<close>

fun node_ok :: "nat \<Rightarrow> prims \<Rightarrow> bytes \<Rightarrow> ots_node \<Rightarrow> bool" where
  "node_ok 0 P msg node = False"
| "node_ok (Suc n) P msg (OtsNode m as ops) = (m = msg \<and> (as \<noteq> [] \<or> ops \<noteq> []) \<and> (\<forall>a \<in> set as. attestation_ok a) \<and>
     (\<forall>(f, c) \<in> set ops. op_ok f \<and> (case apply_op P f msg of Inl e \<Rightarrow> False | Inr cm \<Rightarrow> node_ok n P cm c)))"

text \<open>The order of the items that the encoder writes.\<close>

lemma node_size_child [termination_simp]: "(f, c) \<in> set ops \<Longrightarrow> size c < Suc (size_list (\<lambda>p. Suc (size (snd p))) ops)"
  by (induction ops) auto

fun sort_node :: "ots_node \<Rightarrow> ots_node" where
  "sort_node (OtsNode m as ops) = OtsNode m (sort_key attestation_sort_key as)
     (sort_key op_sort_key (map (\<lambda>(f, c). (f, sort_node c)) ops))"

lemma sort_key_map_keys: "(\<And>x. k (g x) = k' x) \<Longrightarrow> sort_key k (map g xs) = map g (sort_key k' xs)"
  by (simp add: sort_key_map comp_def)

text \<open>An item is read off its encoding, whatever follows.\<close>

definition reads :: "(byte \<Rightarrow> bytes \<Rightarrow> ('x \<times> bytes) res) \<Rightarrow> 'x \<Rightarrow> bytes \<Rightarrow> bool" where
  "reads item x w \<longleftrightarrow> (\<exists>tag w'. w = tag # w' \<and> tag \<noteq> ots_sep \<and> (\<forall>r. item tag (w' @ r) = Inr (x, r)))"

lemma node_loop_reads:
  assumes "list_all2 (reads item) xs ws" "xs \<noteq> []"
  shows "\<exists>tag data. with_separators ws @ r = tag # data \<and> (\<forall>n \<ge> length data. node_loop item n tag data = Inr (xs, r))"
  using assms
proof (induction xs ws rule: list_all2_induct)
  case (Cons x xs w ws)
  from Cons.hyps(1) obtain tag w' where w: "w = tag # w'" "tag \<noteq> ots_sep" "\<And>r. item tag (w' @ r) = Inr (x, r)"
    by (auto simp: reads_def)
  show ?case
  proof (cases "xs = []")
    case True
    with Cons.hyps(2) have "ws = []" by simp
    with True w show ?thesis by (auto simp: node_loop.simps)
  next
    case False
    from Cons.IH [OF False] obtain tag' data where
      rest: "with_separators ws @ r = tag' # data" "\<And>n. length data \<le> n \<Longrightarrow> node_loop item n tag' data = Inr (xs, r)" by blast
    from False Cons.hyps(2) obtain v vs where ws: "ws = v # vs" by (cases ws) auto
    have "with_separators (w # ws) @ r = ots_sep # tag # w' @ tag' # data"
      using rest(1) by (simp add: ws w(1))
    moreover have "node_loop item n ots_sep (tag # w' @ tag' # data) = Inr (x # xs, r)"
      if "length (tag # w' @ tag' # data) \<le> n" for n
    proof -
      from that obtain k where "n = Suc k" "length data \<le> k" by (cases n) auto
      then show ?thesis by (subst node_loop.simps) (simp add: w(3) rest(2))
    qed
    ultimately show ?thesis by blast
  qed
qed simp

lemma rmap_reads:
  assumes "\<forall>x \<in> set xs. \<exists>w. f x = Inr w \<and> reads item (g x) (h w)"
  shows "\<exists>ws. rmap f xs = Inr ws \<and> list_all2 (reads item) (map g xs) (map h ws)"
  using assms
proof (induction xs)
  case (Cons x xs)
  then obtain w ws where "f x = Inr w" "reads item (g x) (h w)" "rmap f xs = Inr ws"
    "list_all2 (reads item) (map g xs) (map h ws)" by auto
  then show ?case by (intro exI [of _ "w # ws"]) simp
qed simp

lemma items_node_append: "items_node msg (map Inl as @ map Inr es) = OtsNode msg as es"
proof -
  have "[a. Inl a \<leftarrow> map Inl as @ map Inr es] = as"
    by (induction as) (induction es, auto)
  moreover have "[e. Inr e \<leftarrow> map Inl as @ map Inr es] = es"
    by (induction as) (induction es, auto)
  ultimately show ?thesis by (simp add: items_node_def)
qed

lemma reads_attestation:
  "attestation_ok a \<Longrightarrow> \<exists>w. encode_attestation a = Inr w \<and> reads (decode_item P dec msg) (Inl a) (attestation_tag # w)"
  using attestation_round_trip [of a] by (fastforce simp: reads_def decode_item_def)

lemma reads_edge:
  assumes "op_ok f" "apply_op P f msg = Inr cm" "\<And>r. dec cm (w @ r) = Inr (c, r)"
  shows "reads (decode_item P dec msg) (Inr (f, c)) (encode_op f @ w)"
proof -
  obtain v where "encode_op f = op_tag f # v" "\<And>r. decode_op (op_tag f) (v @ r) = Inr (f, r)"
    using op_round_trip [OF assms(1)] by blast
  with assms(2,3) show ?thesis by (simp add: reads_def decode_item_def)
qed

lemma node_round_trip:
  "node_ok n P msg node \<Longrightarrow> \<exists>w. encode_node node = Inr w \<and> (\<forall>r. decode_node n P msg (w @ r) = Inr (sort_node node, r))"
proof (induction n arbitrary: msg node)
  case (Suc n)
  obtain m as ops where node: "node = OtsNode m as ops" by (cases node)
  let ?item = "decode_item P (decode_node n P) msg"
  let ?as = "sort_key attestation_sort_key as" and ?ops = "sort_key op_sort_key ops"
  from Suc.prems have ok: "m = msg" "as \<noteq> [] \<or> ops \<noteq> []" "\<And>a. a \<in> set as \<Longrightarrow> attestation_ok a"
    "\<And>f c. (f, c) \<in> set ops \<Longrightarrow> op_ok f \<and> (\<exists>cm. apply_op P f msg = Inr cm \<and> node_ok n P cm c)"
    by (simp_all add: node) (fastforce split: sum.splits)
  have "\<forall>a \<in> set ?as. \<exists>w. encode_attestation a = Inr w \<and> reads ?item (Inl a) (attestation_tag # w)"
    using ok(3) reads_attestation by simp
  from rmap_reads [of ?as encode_attestation ?item Inl "\<lambda>w. attestation_tag # w", OF this] obtain ws where
    ws: "rmap encode_attestation ?as = Inr ws" "list_all2 (reads ?item) (map Inl ?as) (map (\<lambda>w. attestation_tag # w) ws)"
    by blast
  let ?edge = "\<lambda>(f, c). rbind (encode_node c) (\<lambda>w. Inr (encode_op f @ w))"
  have "\<forall>e \<in> set ?ops. \<exists>w. ?edge e = Inr w \<and> reads ?item (Inr (fst e, sort_node (snd e))) (id w)"
  proof
    fix e assume "e \<in> set ?ops"
    then have "e \<in> set ops" by simp
    moreover obtain f c where fc: "e = (f, c)" by (rule prod.exhaust)
    ultimately have e: "e = (f, c)" "(f, c) \<in> set ops" by simp_all
    from ok(4) [OF e(2)] obtain cm where cm: "op_ok f" "apply_op P f msg = Inr cm" "node_ok n P cm c" by blast
    from Suc.IH [OF cm(3)] obtain w where
      "encode_node c = Inr w" "\<And>r. decode_node n P cm (w @ r) = Inr (sort_node c, r)" by blast
    with reads_edge [where dec = "decode_node n P", OF cm(1,2)] e(1)
    show "\<exists>w. ?edge e = Inr w \<and> reads ?item (Inr (fst e, sort_node (snd e))) (id w)" by simp
  qed
  from rmap_reads [of ?ops ?edge ?item "\<lambda>e. Inr (fst e, sort_node (snd e))" id, OF this] obtain vs where
    vs: "rmap ?edge ?ops = Inr vs" "list_all2 (reads ?item) (map (\<lambda>e. Inr (fst e, sort_node (snd e))) ?ops) vs"
    by auto
  let ?w = "with_separators (map (\<lambda>w. attestation_tag # w) ws @ vs)"
  let ?xs = "map Inl ?as @ map Inr (map (\<lambda>e. (fst e, sort_node (snd e))) ?ops)"
  have enc: "encode_node node = Inr ?w"
    using ok(2) ws(1) vs(1) by (simp add: node)
  have all: "list_all2 (reads ?item) ?xs (map (\<lambda>w. attestation_tag # w) ws @ vs)" and ne: "?xs \<noteq> []"
    using ws(2) vs(2) ok(2) by (auto intro!: list_all2_appendI simp: comp_def)
  have sorted: "items_node msg ?xs = sort_node node"
    by (simp only: items_node_append) (simp add: node ok(1) sort_key_map_keys [where k' = op_sort_key]
        op_sort_key_def case_prod_unfold)
  have "decode_node (Suc n) P msg (?w @ r) = Inr (sort_node node, r)" for r
  proof -
    from node_loop_reads [OF all ne, of r] obtain tag data where
      data: "?w @ r = tag # data" and loop: "node_loop ?item (length data) tag data = Inr (?xs, r)" by blast
    have "decode_node (Suc n) P msg (tag # data) = Inr (items_node msg ?xs, r)"
      using loop ne by simp
    then show ?thesis by (simp only: data sorted)
  qed
  with enc show ?case by blast
qed simp

text \<open>What is decoded is well formed, and reading takes at least one byte.\<close>

lemma node_loop_ok:
  assumes "\<And>tag data x r. length data \<le> L \<Longrightarrow> item tag data = Inr (x, r) \<Longrightarrow> Q x \<and> length r \<le> length data"
  shows "node_loop item n tag data = Inr (xs, r) \<Longrightarrow> length data \<le> L \<Longrightarrow>
    xs \<noteq> [] \<and> (\<forall>x \<in> set xs. Q x) \<and> length r \<le> length data"
proof (induction n arbitrary: tag data xs)
  case 0
  then show ?case using assms [of data] by (subst (asm) node_loop.simps) (auto split: if_splits)
next
  case (Suc n)
  show ?case
  proof (cases "tag = ots_sep")
    case True
    with Suc.prems(1) obtain tag' d x tag'' r'' xs' where
      data: "data = tag' # d" "item tag' d = Inr (x, tag'' # r'')" "node_loop item n tag'' r'' = Inr (xs', r)" "xs = x # xs'"
      by (fastforce simp: node_loop.simps [of item "Suc n" ots_sep data] neq_Nil_conv split: list.splits)
    with Suc.prems(2) assms [of d tag' x "tag'' # r''"] have "Q x" "length r'' < length d" by auto
    with Suc.IH [OF data(3)] Suc.prems(2) data show ?thesis by auto
  next
    case False
    with Suc.prems show ?thesis using assms [of data] by (subst (asm) node_loop.simps) auto
  qed
qed

text \<open>The items that make a node over a message.\<close>

fun item_ok :: "nat \<Rightarrow> prims \<Rightarrow> bytes \<Rightarrow> ots_item \<Rightarrow> bool" where
  "item_ok n P msg (Inl a) = attestation_ok a"
| "item_ok n P msg (Inr (f, c)) = (op_ok f \<and> (case apply_op P f msg of Inl e \<Rightarrow> False | Inr cm \<Rightarrow> node_ok n P cm c))"

lemma items_node_ok:
  assumes "xs \<noteq> []" "\<forall>x \<in> set xs. item_ok n P msg x"
  shows "node_ok (Suc n) P msg (items_node msg xs)"
proof -
  obtain x where x: "x \<in> set xs" using assms(1) by (cases xs) auto
  then have "[a. Inl a \<leftarrow> xs] \<noteq> [] \<or> [e. Inr e \<leftarrow> xs] \<noteq> []"
    by (cases x) (force split: sum.splits)+
  moreover have "attestation_ok a" if "a \<in> set [a. Inl a \<leftarrow> xs]" for a
    using that assms(2) by (fastforce split: sum.splits)
  moreover have "item_ok n P msg (Inr (f, c))" if "(f, c) \<in> set [e. Inr e \<leftarrow> xs]" for f c
    using that assms(2) by (fastforce split: sum.splits)
  ultimately show ?thesis by (auto simp: items_node_def)
qed

lemma decode_item_ok:
  assumes dec: "\<And>m d c r. sized_bytes d \<Longrightarrow> decode_node n P m d = Inr (c, r) \<Longrightarrow> node_ok n P m c \<and> length r < length d"
    and item: "decode_item P (decode_node n P) msg tag data = Inr (x, r)" and sized: "sized_bytes data"
  shows "item_ok n P msg x \<and> length r \<le> length data"
proof (cases "tag = attestation_tag")
  case True
  with item obtain a where "decode_attestation data = Inr (a, r)" "x = Inl a" by (auto simp: decode_item_def)
  with decode_attestation_ok [of data a r] sized show ?thesis by auto
next
  case False
  with item obtain f d cm c where f: "decode_op tag data = Inr (f, d)" "apply_op P f msg = Inr cm"
    "decode_node n P cm d = Inr (c, r)" "x = Inr (f, c)" by (auto simp: decode_item_def)
  from decode_op_ok [OF f(1) sized] have "op_ok f" "length d \<le> length data" by auto
  moreover from this sized have "sized_bytes d" by (simp add: sized_bytes_def)
  ultimately show ?thesis using dec [OF _ f(3)] f(2,4) by auto
qed

lemma decode_node_ok:
  "sized_bytes data \<Longrightarrow> decode_node n P msg data = Inr (node, r) \<Longrightarrow> node_ok n P msg node \<and> length r < length data"
proof (induction n arbitrary: msg data node r)
  case (Suc n)
  let ?item = "decode_item P (decode_node n P) msg"
  from Suc.prems(2) obtain tag d xs where d: "data = tag # d" "node_loop ?item (length d) tag d = Inr (xs, r)"
    "node = items_node msg xs" by (auto split: list.splits)
  have item: "item_ok n P msg x \<and> length r' \<le> length data'"
    if "length data' \<le> length d" "?item tag' data' = Inr (x, r')" for tag' data' x r'
    by (rule decode_item_ok [OF Suc.IH that(2)]) (use that(1) Suc.prems(1) d(1) in \<open>auto simp: sized_bytes_def\<close>)
  have "xs \<noteq> [] \<and> (\<forall>x \<in> set xs. item_ok n P msg x) \<and> length r \<le> length d"
    by (rule node_loop_ok [where L = "length d" and Q = "item_ok n P msg", OF _ d(2) order_refl]) (rule item)
  with d(1,3) items_node_ok [of xs n P msg] show ?case by simp
qed simp

end
