(* ===== verification/Ots_Properties.thy ===== *)
theory Ots_Properties
  imports Ots_Laws Instances
begin

text \<open>
  What the OpenTimestamps codec promises of files: they are read back, what is read is well
  formed, and re-encoding a file that was read keeps its attestations.
\<close>

section \<open>Files\<close>

lemma file_round_trip:
  assumes "length dig = 32" "node_ok ots_levels P dig node"
  shows "\<exists>w. encode_file dig node = Inr w \<and> decode_file P w = Inr (dig, sort_node node)"
proof -
  obtain w where w: "encode_node node = Inr w" "\<And>r. decode_node ots_levels P dig (w @ r) = Inr (sort_node node, r)"
    using node_round_trip [OF assms(2)] by blast
  from w(2) [of "[]"] have "decode_node ots_levels P dig w = Inr (sort_node node, [])" by simp
  with w(1) assms(1) show ?thesis
    by (simp add: encode_file_def decode_file_def varuint_round_trip varuint_limit_def)
qed

text \<open>A file over a digest of 32 bytes and a well formed node is written, and read back as the digest and
  the node with its items in the order of the encoder.\<close>

theorem ots_file_round_trip:
  assumes "length dig = 32" "node_ok ots_levels P dig node"
  shows "\<exists>w. encode_file dig node = Inr w \<and> decode_file P w = Inr (dig, sort_node node)"
  by (rule file_round_trip [OF assms])

lemma file_decoded_ok:
  assumes "decode_file P data = Inr (dig, node)" "sized_bytes data"
  shows "length dig = 32 \<and> node_ok ots_levels P dig node"
proof -
  from assms(1) obtain v c r d where r: "varuint_decode (drop (length ots_magic) data) = Inr (v, c # r)"
    "32 \<le> length r" "dig = take 32 r" "decode_node ots_levels P dig d = Inr (node, [])" "d = drop 32 r"
    by (fastforce simp: decode_file_def neq_Nil_conv split: list.splits)
  from varuint_decode_bound [OF r(1)] assms(2) r(2,5) have "sized_bytes d" by (auto simp: sized_bytes_def)
  from decode_node_ok [OF this r(4)] r(2,3) show ?thesis by simp
qed

text \<open>C31: what the decoder returns is well typed: the digest has 32 bytes, the node is over the digest,
  every edge leads to a node over the message that its operation makes, no path has more than 65
  nodes, no node is empty, heights and lengths are varuints and tags have eight bytes.\<close>

theorem ots_decoded_well_formed:
  assumes "decode_file P data = Inr (dig, node)" "sized_bytes data"
  shows "length dig = 32 \<and> node_ok ots_levels P dig node"
  by (rule file_decoded_ok [OF assms])

section \<open>The normal form\<close>

lemma sort_key_idem: "sort_key k (sort_key k xs) = sort_key k xs"
  by (rule sort_key_id_if_sorted) simp

lemma encode_sort_node: "encode_node (sort_node node) = encode_node node"
proof (induction node rule: sort_node.induct)
  case (1 m as ops)
  let ?g = "\<lambda>(f, c). (f, sort_node c)"
  have keys: "op_sort_key (?g e) = op_sort_key e" for e by (cases e) (simp add: op_sort_key_def)
  have ops: "sort_key op_sort_key (map ?g es) = map ?g (sort_key op_sort_key es)" for es
    by (rule sort_key_map_keys [where g = ?g and k = op_sort_key and k' = op_sort_key, OF keys])
  have "rmap (\<lambda>(f, c). rbind (encode_node c) (\<lambda>w. Inr (encode_op f @ w))) (map ?g (sort_key op_sort_key ops)) =
      rmap (\<lambda>(f, c). rbind (encode_node c) (\<lambda>w. Inr (encode_op f @ w))) (sort_key op_sort_key ops)"
  proof -
    have "rmap h (map ?g es) = rmap h es" if "\<And>e. e \<in> set es \<Longrightarrow> h (?g e) = h e" for h :: "ots_op \<times> ots_node \<Rightarrow> bytes res" and es
      using that by (induction es) auto
    moreover have "(case ?g e of (f, c) \<Rightarrow> rbind (encode_node c) (\<lambda>w. Inr (encode_op f @ w))) =
        (case e of (f, c) \<Rightarrow> rbind (encode_node c) (\<lambda>w. Inr (encode_op f @ w)))" if "e \<in> set (sort_key op_sort_key ops)" for e
    proof -
      obtain f c where e: "e = (f, c)" by (rule prod.exhaust)
      with that have "(f, c) \<in> set ops" by simp
      from 1 [OF this refl] e show ?thesis by simp
    qed
    ultimately show ?thesis by blast
  qed
  then show ?case by (simp add: ops sort_key_idem del: sort_key_simps)
qed

lemma mset_walk_sort_node: "mset (walk_attestations (sort_node node)) = mset (walk_attestations node)"
proof (induction node rule: sort_node.induct)
  case (1 m as ops)
  have sum: "mset (concat (map h es)) = (\<Sum>e \<in># mset es. mset (h e))" for h :: "ots_op \<times> ots_node \<Rightarrow> attestation list" and es
    by (induction es) auto
  have "(\<Sum>e \<in># mset ops. mset (walk_attestations (sort_node (snd e)))) = (\<Sum>e \<in># mset ops. mset (walk_attestations (snd e)))"
    by (rule arg_cong [of _ _ sum_mset], rule image_mset_cong) (use 1 in fastforce)
  then show ?case by (simp add: sum case_prod_unfold image_mset.compositionality comp_def)
qed

text \<open>A file that was read is written again, in a normal form: reading it gives the same digest, the same
  tree up to the order of items and the same attestations, and writing it once more the same bytes.\<close>

theorem ots_reencoding:
  assumes "decode_file P data = Inr (dig, node)" "sized_bytes data"
  shows "\<exists>w. encode_file dig node = Inr w \<and> decode_file P w = Inr (dig, sort_node node) \<and>
    encode_file dig (sort_node node) = Inr w \<and>
    mset (walk_attestations (sort_node node)) = mset (walk_attestations node)"
proof -
  from file_decoded_ok [OF assms] file_round_trip obtain w where
    "encode_file dig node = Inr w" "decode_file P w = Inr (dig, sort_node node)" by blast
  moreover have "encode_file dig (sort_node node) = encode_file dig node"
    by (simp add: encode_file_def encode_sort_node)
  ultimately show ?thesis using mset_walk_sort_node by auto
qed

section \<open>Witnesses\<close>

definition demo_node :: ots_node where
  "demo_node = OtsNode (replicate 32 7) [BitcoinAt 7]
     [(Sha256Op, OtsNode (toy_digest (replicate 32 7)) [UnknownAt [1, 1, 1, 1, 1, 1, 1, 1] [2, 3]] [])]"

lemma demo_node_ok: "node_ok ots_levels toy (replicate 32 7) demo_node"
proof -
  have "node_ok (Suc (Suc n)) toy (replicate 32 7) demo_node" for n
    by (simp add: demo_node_def varuint_limit_def op_ok_def sized_bytes_def apply_op_def max_msg_def
        pending_tag_def bitcoin_tag_def del: replicate.simps)
  from this [of 63] show ?thesis by (simp add: ots_levels_def max_nesting_def)
qed

lemma demo_file: "\<exists>w. encode_file (replicate 32 7) demo_node = Inr w \<and> length w = 90"
proof -
  have "varuint_bytes 7 = [7]" "varuint_bytes (Suc 0) = [1]" "varuint_bytes (Suc (Suc 0)) = [2]"
    by (simp_all add: varuint_bytes.simps [of 7] varuint_bytes.simps [of "Suc 0"] varuint_bytes.simps [of "Suc (Suc 0)"] b8_def)
  then show ?thesis
    by (simp add: encode_file_def demo_node_def varuint_encode_def varbytes_encode_def encode_op_def ots_magic_def
        del: replicate.simps)
qed

theorem ots_file_round_trip_witness:
  "\<exists>w. encode_file (replicate 32 7) demo_node = Inr w \<and> decode_file toy w = Inr (replicate 32 7, sort_node demo_node)"
  by (rule ots_file_round_trip [OF _ demo_node_ok]) simp

lemma demo_decoded: "\<exists>w. decode_file toy w = Inr (replicate 32 7, sort_node demo_node) \<and> sized_bytes w"
  using file_round_trip [OF _ demo_node_ok] demo_file by (auto simp: sized_bytes_def)

theorem ots_decoded_well_formed_witness: "node_ok ots_levels toy (replicate 32 7) (sort_node demo_node)"
  using demo_decoded ots_decoded_well_formed by blast

theorem ots_reencoding_witness:
  "\<exists>w. encode_file (replicate 32 7) (sort_node demo_node) = Inr w \<and>
     decode_file toy w = Inr (replicate 32 7, sort_node (sort_node demo_node))"
  using demo_decoded ots_reencoding by blast

end
