(* ===== verification/Anchors.thy ===== *)
theory Anchors
  imports Ots_Codec
begin

text \<open>
  The timestamp anchors of \<^verbatim>\<open>anchored_checkpoints.py\<close>: the anchor proof, the
  emulated log and OpenTimestamps. The calendar is reached over the network and is a parameter:
  the function from a digest to its answer at that call.
\<close>

section \<open>Shared checks\<close>

definition require_aware_utc :: "datetime \<Rightarrow> int res" where
  "require_aware_utc d = (case d of Aware t z \<Rightarrow> Inr t | Naive t \<Rightarrow> raise ValueError ''must be timezone-aware'')"

definition valid_pubkey_b64 :: "prims \<Rightarrow> pystr \<Rightarrow> bool" where
  "valid_pubkey_b64 P v \<longleftrightarrow> (case b64_strict P v of None \<Rightarrow> False | Some raw \<Rightarrow> length raw = 32)"

section \<open>Anchor proofs\<close>

record anchor_proof =
  ap_scheme :: pystr
  ap_root_hash :: pystr
  ap_timestamp :: int
  ap_key_id :: pystr
  ap_signature :: pystr
  ap_emulated :: bool
  ap_receipt :: "pystr option"

definition valid_anchor_proof :: "anchor_proof \<Rightarrow> bool" where
  "valid_anchor_proof p \<longleftrightarrow> ap_root_hash p \<noteq> [] \<and> ap_key_id p \<noteq> []"

definition scheme_local_emulated :: pystr where "scheme_local_emulated = py ''local-emulated''"
definition scheme_opentimestamps :: pystr where "scheme_opentimestamps = py ''opentimestamps''"

definition anchor_leaf :: "prims \<Rightarrow> pystr \<Rightarrow> pystr \<Rightarrow> int \<Rightarrow> bytes res" where
  "anchor_leaf P scheme root t = canonical_bytes P (JObj [(py ''scheme'', JStr scheme), (py ''root_hash'', JStr root),
     (py ''timestamp'', JStr (isoformat P t))])"

text \<open>
  The part of \<^verbatim>\<open>verify_anchor\<close> that both anchors share: the checkpoint's
  dict has this root and this instant. A text that is no time raises, which is caught.
\<close>

definition bound_to :: "prims \<Rightarrow> (pystr \<times> json) list \<Rightarrow> anchor_proof \<Rightarrow> bool" where
  "bound_to P cp p \<longleftrightarrow> map_of cp (py ''merkle_root'') = Some (JStr (ap_root_hash p)) \<and>
     (case map_of cp (py ''timestamp'') of
        Some (JStr s) \<Rightarrow> (case fromisoformat P s of Some (Aware t z) \<Rightarrow> t = ap_timestamp p | _ \<Rightarrow> False)
      | _ \<Rightarrow> False)"

section \<open>The emulated log\<close>

text \<open>Its state is the log of the proofs it issued.\<close>

definition local_anchor :: "prims \<Rightarrow> signer \<Rightarrow> pystr \<Rightarrow> int \<Rightarrow> anchor_proof list \<Rightarrow> anchor_proof res \<times> anchor_proof list" where
  "local_anchor P sg root t log =
     (case rbind (anchor_leaf P scheme_local_emulated root t) (\<lambda>body.
        let p = \<lparr>ap_scheme = scheme_local_emulated, ap_root_hash = root, ap_timestamp = t, ap_key_id = key_id sg,
                 ap_signature = b64_encode P (sign_bytes sg body), ap_emulated = True, ap_receipt = None\<rparr>
        in require (valid_anchor_proof p) ValidationError ''AnchorProof'' (Inr p)) of
        Inl e \<Rightarrow> (Inl e, log)
      | Inr p \<Rightarrow> (Inr p, log @ [p]))"

definition local_verify_anchor :: "prims \<Rightarrow> signer \<Rightarrow> anchor_proof list \<Rightarrow> (pystr \<times> json) list \<Rightarrow> anchor_proof \<Rightarrow> bool" where
  "local_verify_anchor P sg log cp p \<longleftrightarrow>
     ap_scheme p = scheme_local_emulated \<and> ap_emulated p \<and> ap_key_id p = key_id sg \<and> bound_to P cp p \<and>
     (case (b64_decode P (ap_signature p), anchor_leaf P (ap_scheme p) (ap_root_hash p) (ap_timestamp p)) of
        (Some sig, Inr m) \<Rightarrow> ed_verify P (public_key_bytes sg) sig m
      | _ \<Rightarrow> False) \<and>
     (\<exists>q \<in> set log. ap_signature q = ap_signature p \<and> ap_root_hash q = ap_root_hash p)"

section \<open>OpenTimestamps\<close>

definition digest_for :: "pystr \<Rightarrow> bytes res" where
  "digest_for root = rbind (of_option OTSAnchorError ''root_hash is not hex'' (from_hex root)) (\<lambda>d.
     require (length d = 32) OTSAnchorError ''root_hash must be 32 bytes (64 hex chars)'' (Inr d))"

definition parse_timestamp :: "prims \<Rightarrow> bytes \<Rightarrow> bytes \<Rightarrow> ots_node res" where
  "parse_timestamp P raw d =
     rbind (except OTSCodecError OTSAnchorError ''calendar returned malformed timestamp'' (decode_node ots_levels P d raw))
       (\<lambda>(node, rest).
        require (rest = []) OTSAnchorError ''calendar returned timestamp with trailing bytes''
       (require (walk_attestations node \<noteq> []) OTSAnchorError ''calendar returned a timestamp with no attestations''
         (Inr node)))"

definition receipt_for_node :: "prims \<Rightarrow> bytes \<Rightarrow> ots_node \<Rightarrow> pystr res" where
  "receipt_for_node P d node = rbind (encode_file d node) (\<lambda>w. Inr (b64_encode P w))"

definition ots_anchor :: "prims \<Rightarrow> pystr \<Rightarrow> (bytes \<Rightarrow> bytes res) \<Rightarrow> pystr \<Rightarrow> int \<Rightarrow> anchor_proof res" where
  "ots_anchor P url submit root t =
     rbind (digest_for root) (\<lambda>d. rbind (submit d) (\<lambda>raw. rbind (parse_timestamp P raw d) (\<lambda>node.
     rbind (receipt_for_node P d node) (\<lambda>receipt.
       let p = \<lparr>ap_scheme = scheme_opentimestamps, ap_root_hash = root, ap_timestamp = t, ap_key_id = url,
                ap_signature = [], ap_emulated = False, ap_receipt = Some receipt\<rparr>
       in require (valid_anchor_proof p) ValidationError ''AnchorProof'' (Inr p)))))"

fun is_bitcoin :: "attestation \<Rightarrow> bool" where
  "is_bitcoin (BitcoinAt h) = True"
| "is_bitcoin a = False"

definition ots_upgrade :: "prims \<Rightarrow> (bytes \<Rightarrow> bytes res) \<Rightarrow> anchor_proof \<Rightarrow> anchor_proof res" where
  "ots_upgrade P get_timestamp p =
     require (ap_scheme p = scheme_opentimestamps \<and> \<not> ap_emulated p) OTSAnchorError ''upgrade() requires an opentimestamps proof''
     (rbind (digest_for (ap_root_hash p)) (\<lambda>d. rbind (get_timestamp d) (\<lambda>raw. rbind (parse_timestamp P raw d) (\<lambda>node.
      if \<not> list_ex is_bitcoin (walk_attestations node) then Inr p
      else rbind (receipt_for_node P d node) (\<lambda>receipt. Inr (p\<lparr>ap_receipt := Some receipt\<rparr>))))))"

text \<open>A receipt that carries a file.\<close>

definition receipt_file :: "prims \<Rightarrow> anchor_proof \<Rightarrow> (bytes \<times> ots_node) option" where
  "receipt_file P p = (case ap_receipt p of None \<Rightarrow> None | Some s \<Rightarrow>
     if s = [] then None
     else (case b64_strict P s of None \<Rightarrow> None | Some raw \<Rightarrow>
       (case decode_file P raw of Inl e \<Rightarrow> None | Inr f \<Rightarrow> Some f)))"

definition bitcoin_heights :: "ots_node \<Rightarrow> int list" where
  "bitcoin_heights node = [h. BitcoinAt h \<leftarrow> walk_attestations node]"

definition bitcoin_height :: "prims \<Rightarrow> anchor_proof \<Rightarrow> int option" where
  "bitcoin_height P p =
     (if ap_scheme p \<noteq> scheme_opentimestamps \<or> ap_emulated p then None
      else (case receipt_file P p of None \<Rightarrow> None
        | Some (d, node) \<Rightarrow> (case bitcoin_heights node of [] \<Rightarrow> None | hs \<Rightarrow> Some (Max (set hs)))))"

definition ots_verify_anchor :: "prims \<Rightarrow> (pystr \<times> json) list \<Rightarrow> anchor_proof \<Rightarrow> bool" where
  "ots_verify_anchor P cp p \<longleftrightarrow> ap_scheme p = scheme_opentimestamps \<and> \<not> ap_emulated p \<and> bound_to P cp p \<and>
     (case receipt_file P p of None \<Rightarrow> False | Some (d, node) \<Rightarrow> digest_for (ap_root_hash p) = Inr d)"

section \<open>The interface\<close>

text \<open>
  What a checkpoint chain relies on: a proof that was issued verifies for the checkpoints that
  it is bound to, and goes on verifying while more proofs are issued. \<open>ok\<close> is what the
  provider needs of its state, kept by issuing.
\<close>

locale timestamp_anchor =
  fixes issue :: "pystr \<Rightarrow> int \<Rightarrow> 's \<Rightarrow> anchor_proof res \<times> 's"
    and check :: "'s \<Rightarrow> (pystr \<times> json) list \<Rightarrow> anchor_proof \<Rightarrow> bool"
    and bound :: "(pystr \<times> json) list \<Rightarrow> anchor_proof \<Rightarrow> bool"
    and ok :: "'s \<Rightarrow> bool"
  assumes issued_checks: "ok s \<Longrightarrow> issue root t s = (Inr p, s') \<Longrightarrow> bound cp p \<Longrightarrow> check s' cp p"
    and issued_for: "issue root t s = (Inr p, s') \<Longrightarrow> ap_root_hash p = root \<and> ap_timestamp p = t \<and> valid_anchor_proof p"
    and ok_kept: "issue root t s = (a, s') \<Longrightarrow> ok s \<Longrightarrow> ok s'"
    and check_kept: "issue root t s = (a, s') \<Longrightarrow> check s cp p \<Longrightarrow> check s' cp p"
    and check_bound: "check s cp p \<Longrightarrow> bound cp p"

text \<open>
  The calendar as the list of its answers, call by call; a call beyond the list fails.
\<close>

fun ots_issue :: "prims \<Rightarrow> pystr \<Rightarrow> pystr \<Rightarrow> int \<Rightarrow> (bytes \<Rightarrow> bytes res) list \<Rightarrow> anchor_proof res \<times> (bytes \<Rightarrow> bytes res) list" where
  "ots_issue P url root t [] = (ots_anchor P url (\<lambda>_. raise OTSAnchorError ''calendar request failed'') root t, [])"
| "ots_issue P url root t (answer # calls) = (ots_anchor P url answer root t, calls)"

end
