(* ===== verification/Checkpoints.thy ===== *)
theory Checkpoints
  imports Anchors
begin

text \<open>
  Sealed checkpoints of \<^verbatim>\<open>anchored_checkpoints.py\<close>: the signed payload, sealing,
  the re-validation of a checkpoint against its events and of a chain, and the chain object of
  the operator. An anchor is its two operations, \<open>issue\<close> and \<open>check\<close>, over a state.
  \<^verbatim>\<open>Checkpoint.model_validate\<close> is pydantic's and a parameter.
\<close>

section \<open>Checkpoints\<close>

record checkpoint_key =
  ck_key_id :: pystr
  ck_public_key :: pystr

definition valid_checkpoint_key :: "prims \<Rightarrow> checkpoint_key \<Rightarrow> bool" where
  "valid_checkpoint_key P k \<longleftrightarrow> ck_key_id k \<noteq> [] \<and> valid_pubkey_b64 P (ck_public_key k)"

record checkpoint =
  cp_id :: pystr
  cp_start :: int
  cp_end :: int
  cp_count :: int
  cp_root :: pystr
  cp_previous :: "pystr option"
  cp_timestamp :: int
  cp_anchor :: anchor_proof
  cp_next :: "checkpoint_key option"

definition valid_checkpoint :: "prims \<Rightarrow> checkpoint \<Rightarrow> bool" where
  "valid_checkpoint P c \<longleftrightarrow> cp_id c \<noteq> [] \<and> 0 \<le> cp_start c \<and> 0 \<le> cp_end c \<and> cp_start c \<le> cp_end c \<and>
     1 \<le> cp_count c \<and> cp_count c = cp_end c - cp_start c + 1 \<and> cp_root c \<noteq> [] \<and>
     valid_anchor_proof (cp_anchor c) \<and> (\<forall>k. cp_next c = Some k \<longrightarrow> valid_checkpoint_key P k)"

definition anchor_proof_json :: "prims \<Rightarrow> anchor_proof \<Rightarrow> json" where
  "anchor_proof_json P p = JObj [(py ''scheme'', JStr (ap_scheme p)), (py ''root_hash'', JStr (ap_root_hash p)),
     (py ''timestamp'', JStr (dt_json P (ap_timestamp p))), (py ''key_id'', JStr (ap_key_id p)),
     (py ''signature'', JStr (ap_signature p)), (py ''emulated'', JBool (ap_emulated p)),
     (py ''ots_receipt_b64'', opt_str (ap_receipt p))]"

definition checkpoint_key_json :: "checkpoint_key \<Rightarrow> json" where
  "checkpoint_key_json k = JObj [(py ''key_id'', JStr (ck_key_id k)), (py ''public_key'', JStr (ck_public_key k))]"

definition checkpoint_payload_dict :: "prims \<Rightarrow> checkpoint \<Rightarrow> (pystr \<times> json) list" where
  "checkpoint_payload_dict P c = [(py ''checkpoint_id'', JStr (cp_id c)), (py ''start_seq'', JInt (cp_start c)),
     (py ''end_seq'', JInt (cp_end c)), (py ''event_count'', JInt (cp_count c)), (py ''merkle_root'', JStr (cp_root c)),
     (py ''previous_checkpoint_root'', opt_str (cp_previous c)), (py ''timestamp'', JStr (dt_json P (cp_timestamp c))),
     (py ''anchor_proof'', anchor_proof_json P (cp_anchor c)),
     (py ''next_signer'', case cp_next c of None \<Rightarrow> JNull | Some k \<Rightarrow> checkpoint_key_json k)]"

type_synonym checkpoint_reader = "(pystr \<times> json) list \<Rightarrow> checkpoint option"

definition parse_checkpoint :: "checkpoint_reader \<Rightarrow> signed_envelope \<Rightarrow> checkpoint res" where
  "parse_checkpoint validate env = of_option ValidationError ''Checkpoint'' (validate (payload env))"

section \<open>Sealing\<close>

fun contiguous :: "int \<Rightarrow> event list \<Rightarrow> bool" where
  "contiguous n [] = True"
| "contiguous n (e # es) = (sequence e = n \<and> contiguous (n + 1) es)"

text \<open>The links inside a slice; hashing may raise.\<close>

fun slice_linked :: "prims \<Rightarrow> event list \<Rightarrow> bool res" where
  "slice_linked P (a # b # es) = rbind (event_hash P a) (\<lambda>h.
     if ev_previous b \<noteq> Some h then Inr False else slice_linked P (b # es))"
| "slice_linked P es = Inr True"

definition events_root :: "prims \<Rightarrow> event list \<Rightarrow> pystr res" where
  "events_root P evs = rbind (rmap (event_hash P) evs) (build_merkle_root P)"

definition checkpoint_id_of :: "prims \<Rightarrow> int \<Rightarrow> int \<Rightarrow> pystr \<Rightarrow> pystr res" where
  "checkpoint_id_of P s e root = rbind (Canonical.sha256_hex P (JObj [(py ''start_seq'', JInt s), (py ''end_seq'', JInt e),
     (py ''merkle_root'', JStr root)])) (\<lambda>h. Inr (py ''ckpt-'' @ take 32 h))"

text \<open>The admission of the events: the time of the seal and their root.\<close>

definition admit_events :: "prims \<Rightarrow> int \<Rightarrow> event list \<Rightarrow> datetime option \<Rightarrow> (int \<times> pystr) res" where
  "admit_events P tick evs ts =
     require (evs \<noteq> []) CheckpointError ''cannot seal a checkpoint over zero events''
     (rbind (case ts of None \<Rightarrow> Inr tick | Some d \<Rightarrow> require_aware_utc d) (\<lambda>t.
      require (contiguous (sequence (hd evs)) evs) CheckpointError ''events not contiguous''
     (rbind (slice_linked P evs) (\<lambda>linked.
      require linked CheckpointError ''ledger hash chain broken''
     (rbind (events_root P evs) (\<lambda>root. Inr (t, root)))))))"

definition sign_checkpoint :: "prims \<Rightarrow> event list \<Rightarrow> signer \<Rightarrow> pystr option \<Rightarrow> checkpoint_key option \<Rightarrow> int
    \<Rightarrow> pystr \<Rightarrow> anchor_proof \<Rightarrow> signed_envelope res" where
  "sign_checkpoint P evs sg prev nxt t root p =
     rbind (checkpoint_id_of P (sequence (hd evs)) (sequence (last evs)) root) (\<lambda>cid.
       let c = \<lparr>cp_id = cid, cp_start = sequence (hd evs), cp_end = sequence (last evs), cp_count = int (length evs),
                cp_root = root, cp_previous = prev, cp_timestamp = t, cp_anchor = p, cp_next = nxt\<rparr>
       in require (valid_checkpoint P c) ValidationError ''Checkpoint'' (sign_payload P sg (checkpoint_payload_dict P c)))"

definition seal_checkpoint :: "prims \<Rightarrow> (pystr \<Rightarrow> int \<Rightarrow> 's \<Rightarrow> anchor_proof res \<times> 's) \<Rightarrow> int \<Rightarrow> event list \<Rightarrow> signer
    \<Rightarrow> pystr option \<Rightarrow> checkpoint_key option \<Rightarrow> datetime option \<Rightarrow> 's \<Rightarrow> signed_envelope res \<times> 's" where
  "seal_checkpoint P issue tick evs sg prev nxt ts s =
     (case admit_events P tick evs ts of
        Inl e \<Rightarrow> (Inl e, s)
      | Inr (t, root) \<Rightarrow> (case issue root t s of
          (Inl e, s') \<Rightarrow> (Inl e, s')
        | (Inr p, s') \<Rightarrow> (sign_checkpoint P evs sg prev nxt t root p, s')))"

section \<open>Re-validation\<close>

definition verify_checkpoint_events :: "prims \<Rightarrow> checkpoint_reader \<Rightarrow> signed_envelope \<Rightarrow> event list \<Rightarrow> bool" where
  "verify_checkpoint_events P validate env evs = no_error
     (rbind (parse_checkpoint validate env) (\<lambda>c.
      if cp_count c \<noteq> int (length evs) \<or> evs = [] \<or> sequence (hd evs) \<noteq> cp_start c \<or> sequence (last evs) \<noteq> cp_end c
      then Inr False
      else if \<not> contiguous (cp_start c) evs then Inr False
      else rbind (slice_linked P evs) (\<lambda>linked. if \<not> linked then Inr False
        else rbind (events_root P evs) (\<lambda>root. Inr (root = cp_root c)))))"

text \<open>
  The walk over a chain keeps the registered keys, the active key id and the checkpoint
  before. A link continues the checkpoint before in root, time and range.
\<close>

definition continues :: "checkpoint option \<Rightarrow> checkpoint \<Rightarrow> bool" where
  "continues prev c \<longleftrightarrow> (case prev of None \<Rightarrow> cp_previous c = None
     | Some b \<Rightarrow> cp_previous c = Some (cp_root b) \<and> cp_timestamp b \<le> cp_timestamp c \<and> cp_start c = cp_end b + 1)"

definition signed_by :: "prims \<Rightarrow> signed_envelope \<Rightarrow> pystr \<Rightarrow> bool" where
  "signed_by P env public_key \<longleftrightarrow> (case b64_decode P public_key of None \<Rightarrow> False
     | Some raw \<Rightarrow> (case verify_envelope P env raw of Inl e \<Rightarrow> False | Inr pl \<Rightarrow> True))"

fun check_chain :: "prims \<Rightarrow> checkpoint_reader \<Rightarrow> ((pystr \<times> json) list \<Rightarrow> anchor_proof \<Rightarrow> bool) \<Rightarrow> (pystr \<rightharpoonup> pystr)
    \<Rightarrow> pystr \<Rightarrow> checkpoint option \<Rightarrow> signed_envelope list \<Rightarrow> bool res" where
  "check_chain P validate check reg active prev [] = Inr True"
| "check_chain P validate check reg active prev (env # envs) =
     (if alg env \<noteq> alg_ed25519 \<or> env_key_id env \<noteq> active then Inr False
      else case reg (env_key_id env) of None \<Rightarrow> Inr False | Some public_key \<Rightarrow>
        if \<not> signed_by P env public_key then Inr False
        else rbind (parse_checkpoint validate env) (\<lambda>c.
          if \<not> continues prev c then Inr False
          else if \<not> check (payload env) (cp_anchor c) then Inr False
          else (case cp_next c of
              None \<Rightarrow> check_chain P validate check reg active (Some c) envs
            | Some k \<Rightarrow> check_chain P validate check (reg(ck_key_id k \<mapsto> ck_public_key k)) (ck_key_id k) (Some c) envs)))"

definition verify_checkpoint_chain :: "prims \<Rightarrow> checkpoint_reader \<Rightarrow> ((pystr \<times> json) list \<Rightarrow> anchor_proof \<Rightarrow> bool)
    \<Rightarrow> signed_envelope list \<Rightarrow> checkpoint_key \<Rightarrow> bool" where
  "verify_checkpoint_chain P validate check envs boot \<longleftrightarrow> envs \<noteq> [] \<and>
     no_error (check_chain P validate check [ck_key_id boot \<mapsto> ck_public_key boot] (ck_key_id boot) None envs)"

section \<open>The chain of the operator\<close>

record 's cp_chain =
  ch_bootstrap :: checkpoint_key
  ch_anchor :: 's
  ch_sealed :: "signed_envelope list"
  ch_signers :: "pystr \<rightharpoonup> signer"
  ch_active :: pystr

definition new_cp_chain :: "checkpoint_key \<Rightarrow> 's \<Rightarrow> 's cp_chain" where
  "new_cp_chain boot s = \<lparr>ch_bootstrap = boot, ch_anchor = s, ch_sealed = [], ch_signers = Map.empty, ch_active = ck_key_id boot\<rparr>"

definition register_signer :: "signer \<Rightarrow> 's cp_chain \<Rightarrow> 's cp_chain" where
  "register_signer sg ch = ch\<lparr>ch_signers := (ch_signers ch)(key_id sg \<mapsto> sg)\<rparr>"

text \<open>The root that the next checkpoint continues; its events must tile.\<close>

definition previous_root :: "checkpoint_reader \<Rightarrow> event list \<Rightarrow> signed_envelope list \<Rightarrow> pystr option res" where
  "previous_root validate evs sealed =
     (if sealed = [] then
        require (evs = [] \<or> sequence (hd evs) = 0) CheckpointError ''genesis checkpoint must start at sequence 0'' (Inr None)
      else rbind (parse_checkpoint validate (last sealed)) (\<lambda>c.
        require (evs = [] \<or> sequence (hd evs) = cp_end c + 1) CheckpointError ''checkpoint range must tile''
          (Inr (Some (cp_root c)))))"

definition chain_seal :: "prims \<Rightarrow> checkpoint_reader \<Rightarrow> (pystr \<Rightarrow> int \<Rightarrow> 's \<Rightarrow> anchor_proof res \<times> 's)
    \<Rightarrow> ('s \<Rightarrow> (pystr \<times> json) list \<Rightarrow> anchor_proof \<Rightarrow> bool) \<Rightarrow> int \<Rightarrow> event list \<Rightarrow> checkpoint_key option \<Rightarrow> datetime option
    \<Rightarrow> 's cp_chain \<Rightarrow> signed_envelope res \<times> 's cp_chain" where
  "chain_seal P validate issue check tick evs nxt ts ch =
     (case ch_signers ch (ch_active ch) of
        None \<Rightarrow> (raise CheckpointError ''no registered signer for active key_id'', ch)
      | Some sg \<Rightarrow> (case previous_root validate evs (ch_sealed ch) of
          Inl e \<Rightarrow> (Inl e, ch)
        | Inr prev \<Rightarrow> (case seal_checkpoint P issue tick evs sg prev nxt ts (ch_anchor ch) of
            (Inl e, s) \<Rightarrow> (Inl e, ch\<lparr>ch_anchor := s\<rparr>)
          | (Inr env, s) \<Rightarrow>
              if verify_checkpoint_chain P validate (check s) (ch_sealed ch @ [env]) (ch_bootstrap ch)
              then (Inr env, ch\<lparr>ch_anchor := s, ch_sealed := ch_sealed ch @ [env],
                     ch_active := (case nxt of None \<Rightarrow> ch_active ch | Some k \<Rightarrow> ck_key_id k)\<rparr>)
              else (raise CheckpointError ''freshly sealed checkpoint failed chain admission'', ch\<lparr>ch_anchor := s\<rparr>))))"

definition chain_verify :: "prims \<Rightarrow> checkpoint_reader \<Rightarrow> ('s \<Rightarrow> (pystr \<times> json) list \<Rightarrow> anchor_proof \<Rightarrow> bool)
    \<Rightarrow> 's cp_chain \<Rightarrow> bool" where
  "chain_verify P validate check ch = verify_checkpoint_chain P validate (check (ch_anchor ch)) (ch_sealed ch) (ch_bootstrap ch)"

end
