(* ===== verification/Anchors_Laws.thy ===== *)
theory Anchors_Laws
  imports Anchors Ots_Properties
begin

text \<open>
  Both anchors provide the interface of checkpoint chains: the emulated log under the contract
  of signatures, OpenTimestamps for calendars whose answers fit in memory.
\<close>

section \<open>The emulated log\<close>

lemma local_anchor_cases:
  obtains e where "local_anchor P sg root t log = (Inl e, log)"
  | body p where "local_anchor P sg root t log = (Inr p, log @ [p])"
    "anchor_leaf P scheme_local_emulated root t = Inr body" "valid_anchor_proof p"
    "p = \<lparr>ap_scheme = scheme_local_emulated, ap_root_hash = root, ap_timestamp = t, ap_key_id = key_id sg,
       ap_signature = b64_encode P (sign_bytes sg body), ap_emulated = True, ap_receipt = None\<rparr>"
proof (cases "anchor_leaf P scheme_local_emulated root t")
  case (Inl e)
  then show ?thesis by (intro that(1)) (simp add: local_anchor_def)
next
  case (Inr body)
  let ?p = "\<lparr>ap_scheme = scheme_local_emulated, ap_root_hash = root, ap_timestamp = t, ap_key_id = key_id sg,
    ap_signature = b64_encode P (sign_bytes sg body), ap_emulated = True, ap_receipt = None\<rparr>"
  show ?thesis
  proof (cases "valid_anchor_proof ?p")
    case True
    with Inr show ?thesis by (intro that(2) [of ?p body]) (simp_all add: local_anchor_def)
  next
    case False
    with Inr show ?thesis by (intro that(1)) (simp add: local_anchor_def)
  qed
qed

lemma local_verify_anchor_mono:
  "local_verify_anchor P sg log cp p \<Longrightarrow> set log \<subseteq> set log' \<Longrightarrow> local_verify_anchor P sg log' cp p"
  unfolding local_verify_anchor_def by blast

interpretation local_log: timestamp_anchor "local_anchor P sg" "local_verify_anchor P sg" "bound_to P"
  "\<lambda>log. prims_ok P \<and> signer_ok P sg"
proof
  fix s root t p s' cp
  assume "prims_ok P \<and> signer_ok P sg" "local_anchor P sg root t s = (Inr p, s')" "bound_to P cp p"
  then show "local_verify_anchor P sg s' cp p"
    by (cases rule: local_anchor_cases [of P sg root t s])
      (auto simp: local_verify_anchor_def prims_ok_def signer_ok_def)
next
  fix s root t p s'
  assume "local_anchor P sg root t s = (Inr p, s')"
  then show "ap_root_hash p = root \<and> ap_timestamp p = t \<and> valid_anchor_proof p"
    by (cases rule: local_anchor_cases [of P sg root t s]) auto
next
  fix s root t a s' cp p
  assume "local_anchor P sg root t s = (a, s')" "local_verify_anchor P sg s cp p"
  then show "local_verify_anchor P sg s' cp p"
    by (cases rule: local_anchor_cases [of P sg root t s]) (auto elim: local_verify_anchor_mono)
qed (auto simp: local_verify_anchor_def)

section \<open>OpenTimestamps\<close>

text \<open>The documented behaviour of base64: encoding, then strict decoding; nothing decodes to nothing.\<close>

definition base64_ok :: "prims \<Rightarrow> bool" where
  "base64_ok P \<longleftrightarrow> (\<forall>b. b64_strict P (b64_encode P b) = Some b) \<and> b64_strict P [] = Some []"

definition answers_sized :: "(bytes \<Rightarrow> bytes res) \<Rightarrow> bool" where
  "answers_sized answer \<longleftrightarrow> (\<forall>d raw. answer d = Inr raw \<longrightarrow> sized_bytes raw)"

lemma parse_timestamp_ok:
  assumes "parse_timestamp P raw d = Inr node" "sized_bytes raw"
  shows "node_ok ots_levels P d node \<and> walk_attestations node \<noteq> []"
proof -
  from assms(1) have "decode_node ots_levels P d raw = Inr (node, [])" "walk_attestations node \<noteq> []"
    by (auto simp: parse_timestamp_def)
  with decode_node_ok [OF assms(2)] show ?thesis by blast
qed

lemma digest_for_length: "digest_for root = Inr d \<Longrightarrow> length d = 32"
  by (auto simp: digest_for_def)

text \<open>The receipt that is made of a parsed answer carries a file with the answer's attestations.\<close>

lemma receipt_file_of_node:
  assumes "base64_ok P" "length d = 32" "node_ok ots_levels P d node" "receipt_for_node P d node = Inr receipt"
    and "ap_receipt p = Some receipt"
  shows "receipt_file P p = Some (d, sort_node node)"
proof -
  from assms(4) obtain w where w: "encode_file d node = Inr w" "receipt = b64_encode P w"
    by (auto simp: receipt_for_node_def)
  from file_round_trip [OF assms(2,3)] w(1) have dec: "decode_file P w = Inr (d, sort_node node)" by simp
  have "w \<noteq> []"
  proof
    assume "w = []"
    with w(1) show False by (auto simp: encode_file_def ots_magic_def)
  qed
  with assms(1) w(2) have "receipt \<noteq> []" unfolding base64_ok_def by (metis option.inject)
  with assms(1,5) w(2) dec show ?thesis by (simp add: receipt_file_def base64_ok_def)
qed

lemma ots_anchor_ok:
  assumes "ots_anchor P url answer root t = Inr p"
  shows "ap_scheme p = scheme_opentimestamps \<and> \<not> ap_emulated p \<and> ap_root_hash p = root \<and> ap_timestamp p = t \<and>
    valid_anchor_proof p \<and> ap_key_id p = url"
  using assms by (auto simp: ots_anchor_def Let_def)

lemma ots_anchor_file:
  assumes "base64_ok P" "answers_sized answer" "ots_anchor P url answer root t = Inr p"
  shows "\<exists>d node. digest_for root = Inr d \<and> receipt_file P p = Some (d, node)"
proof -
  from assms(3) obtain d raw node receipt where a: "digest_for root = Inr d" "answer d = Inr raw"
    "parse_timestamp P raw d = Inr node" "receipt_for_node P d node = Inr receipt" "ap_receipt p = Some receipt"
    by (auto simp: ots_anchor_def Let_def)
  from assms(2) a(2) have "sized_bytes raw" by (auto simp: answers_sized_def)
  from parse_timestamp_ok [OF a(3) this] receipt_file_of_node [OF assms(1) digest_for_length [OF a(1)] _ a(4,5)] a(1)
  show ?thesis by blast
qed

lemma ots_issue_cases:
  obtains "ots_issue P url root t calls = (raise OTSAnchorError ''calendar request failed'', [])" "calls = []"
  | e where "ots_issue P url root t calls = (Inl e, [])" "calls = []"
  | answer rest where "calls = answer # rest" "ots_issue P url root t calls = (ots_anchor P url answer root t, rest)"
proof (cases calls)
  case Nil
  have "\<exists>e. ots_anchor P url (\<lambda>_. raise OTSAnchorError ''calendar request failed'') root t = Inl e"
    by (cases "digest_for root") (simp_all add: ots_anchor_def)
  with Nil show ?thesis using that(2) by auto
next
  case (Cons answer rest)
  then show ?thesis by (intro that(3) [of answer rest]) simp_all
qed

interpretation calendar: timestamp_anchor "ots_issue P url" "\<lambda>_. ots_verify_anchor P" "bound_to P"
  "\<lambda>calls. base64_ok P \<and> (\<forall>answer \<in> set calls. answers_sized answer)"
proof
  fix s root t p s' cp
  assume ok: "base64_ok P \<and> (\<forall>answer \<in> set s. answers_sized answer)" and issue: "ots_issue P url root t s = (Inr p, s')"
    and bound: "bound_to P cp p"
  from issue obtain answer where a: "answer \<in> set s" "ots_anchor P url answer root t = Inr p"
    by (cases rule: ots_issue_cases [of P url root t s]) auto
  from ots_anchor_file [OF _ _ a(2)] ok a(1) obtain d node where
    "digest_for root = Inr d" "receipt_file P p = Some (d, node)" by blast
  with ots_anchor_ok [OF a(2)] bound show "ots_verify_anchor P cp p" by (simp add: ots_verify_anchor_def)
next
  fix s root t p s'
  assume "ots_issue P url root t s = (Inr p, s')"
  then show "ap_root_hash p = root \<and> ap_timestamp p = t \<and> valid_anchor_proof p"
    by (cases rule: ots_issue_cases [of P url root t s]) (auto dest: ots_anchor_ok)
next
  fix s root t a s'
  assume "ots_issue P url root t s = (a, s')" "base64_ok P \<and> (\<forall>answer \<in> set s. answers_sized answer)"
  then show "base64_ok P \<and> (\<forall>answer \<in> set s'. answers_sized answer)"
    by (cases rule: ots_issue_cases [of P url root t s]) auto
qed (auto simp: ots_verify_anchor_def)

end
