(* ===== verification/Checkpoints_Laws.thy ===== *)
theory Checkpoints_Laws
  imports Checkpoints Anchors_Laws Evidence_Properties
begin

text \<open>
  The laws of checkpoint chains: the walk of the verifier position by position, the seals
  that re-validate, and, for any anchor that provides the interface, the chain that the
  operator keeps.
\<close>

section \<open>The walk, position by position\<close>

text \<open>The key that is active after some checkpoints: the last one they declare, or the bootstrap key.\<close>

definition active_key :: "checkpoint_key \<Rightarrow> checkpoint list \<Rightarrow> checkpoint_key" where
  "active_key boot cs = foldl (\<lambda>k c. case cp_next c of None \<Rightarrow> k | Some k' \<Rightarrow> k') boot cs"

definition accepts :: "prims \<Rightarrow> checkpoint_reader \<Rightarrow> ((pystr \<times> json) list \<Rightarrow> anchor_proof \<Rightarrow> bool) \<Rightarrow> checkpoint_key
    \<Rightarrow> checkpoint option \<Rightarrow> signed_envelope \<Rightarrow> checkpoint \<Rightarrow> bool" where
  "accepts P validate check k prev env c \<longleftrightarrow> alg env = alg_ed25519 \<and> env_key_id env = ck_key_id k \<and>
     signed_by P env (ck_public_key k) \<and> validate (payload env) = Some c \<and> continues prev c \<and>
     check (payload env) (cp_anchor c)"

text \<open>The checkpoint before position \<open>i\<close>, and a chain that is accepted at every position.\<close>

definition before :: "checkpoint option \<Rightarrow> checkpoint list \<Rightarrow> nat \<Rightarrow> checkpoint option" where
  "before prev cs i = (if i = 0 then prev else Some (cs ! (i - 1)))"

definition accepted :: "prims \<Rightarrow> checkpoint_reader \<Rightarrow> ((pystr \<times> json) list \<Rightarrow> anchor_proof \<Rightarrow> bool) \<Rightarrow> checkpoint_key
    \<Rightarrow> checkpoint option \<Rightarrow> signed_envelope list \<Rightarrow> checkpoint list \<Rightarrow> bool" where
  "accepted P validate check k prev envs cs \<longleftrightarrow> length cs = length envs \<and>
     (\<forall>i < length envs. accepts P validate check (active_key k (take i cs)) (before prev cs i) (envs ! i) (cs ! i))"

lemma active_key_Cons [simp]: "active_key k (c # cs) = active_key (case cp_next c of None \<Rightarrow> k | Some k' \<Rightarrow> k') cs"
  by (simp add: active_key_def)

lemma active_key_snoc [simp]: "active_key k (cs @ [c]) = (case cp_next c of None \<Rightarrow> active_key k cs | Some k' \<Rightarrow> k')"
  by (simp add: active_key_def split: option.split)

lemma active_key_Nil [simp]: "active_key k [] = k"
  by (simp add: active_key_def)

lemma accepted_Nil [simp]: "accepted P validate check k prev [] cs \<longleftrightarrow> cs = []"
  by (auto simp: accepted_def)

lemma accepted_Cons: "accepted P validate check k prev (env # envs) cs \<longleftrightarrow>
    (\<exists>c cs'. cs = c # cs' \<and> accepts P validate check k prev env c \<and>
      accepted P validate check (case cp_next c of None \<Rightarrow> k | Some k' \<Rightarrow> k') (Some c) envs cs')"
proof (cases cs)
  case (Cons c cs')
  have "before prev (c # cs') (Suc i) = before (Some c) cs' i" for i
    by (cases i) (simp_all add: before_def)
  then have "accepted P validate check k prev (env # envs) (c # cs') \<longleftrightarrow>
      accepts P validate check k prev env c \<and>
      accepted P validate check (case cp_next c of None \<Rightarrow> k | Some k' \<Rightarrow> k') (Some c) envs cs'"
    by (auto simp: accepted_def All_less_Suc2 before_def)
  with Cons show ?thesis by simp
qed (simp add: accepted_def)

lemma accepted_snoc: "accepted P validate check k prev (envs @ [env]) (cs @ [c]) \<longleftrightarrow>
    accepted P validate check k prev envs cs \<and>
    accepts P validate check (active_key k cs) (if cs = [] then prev else Some (last cs)) env c"
proof (cases "length cs = length envs")
  case True
  let ?acc = "\<lambda>envs cs i. accepts P validate check (active_key k (take i cs)) (before prev cs i) (envs ! i) (cs ! i)"
  have "?acc (envs @ [env]) (cs @ [c]) i = ?acc envs cs i" if "i < length envs" for i
  proof -
    have "i - 1 < length envs" using that by simp
    with that True show ?thesis by (simp add: before_def nth_append del: One_nat_def)
  qed
  moreover have "?acc (envs @ [env]) (cs @ [c]) (length envs) =
      accepts P validate check (active_key k cs) (if cs = [] then prev else Some (last cs)) env c"
  proof -
    have "before prev (cs @ [c]) (length cs) = (if cs = [] then prev else Some (last cs))"
      by (cases cs rule: rev_cases) (simp_all add: before_def nth_append)
    then have "before prev (cs @ [c]) (length envs) = (if cs = [] then prev else Some (last cs))" by (simp add: True)
    moreover have "(cs @ [c]) ! length envs = c" "take (length envs) (cs @ [c]) = cs" using True [symmetric] by simp_all
    ultimately show ?thesis by (simp only: nth_append_length)
  qed
  ultimately show ?thesis
    using True by (simp add: accepted_def All_less_Suc) blast
qed (simp add: accepted_def)

lemma check_chain_accepted:
  assumes "reg (ck_key_id k) = Some (ck_public_key k)"
  shows "check_chain P validate check reg (ck_key_id k) prev envs = Inr True \<longleftrightarrow>
    (\<exists>cs. accepted P validate check k prev envs cs)"
  using assms
proof (induction envs arbitrary: reg k prev)
  case (Cons env envs)
  have rest: "(case cp_next c of
        None \<Rightarrow> check_chain P validate check reg (ck_key_id k) (Some c) envs
      | Some k' \<Rightarrow> check_chain P validate check (reg(ck_key_id k' \<mapsto> ck_public_key k')) (ck_key_id k') (Some c) envs) = Inr True
    \<longleftrightarrow> (\<exists>cs. accepted P validate check (case cp_next c of None \<Rightarrow> k | Some k' \<Rightarrow> k') (Some c) envs cs)" for c
  proof (cases "cp_next c")
    case None
    with Cons.IH [where reg = reg and k = k and prev = "Some c", OF Cons.prems] show ?thesis by simp
  next
    case (Some a)
    have "(reg(ck_key_id a \<mapsto> ck_public_key a)) (ck_key_id a) = Some (ck_public_key a)" by simp
    from Cons.IH [where k = a and prev = "Some c" and reg = "reg(ck_key_id a \<mapsto> ck_public_key a)", OF this] Some show ?thesis by (simp only: option.case)
  qed
  have "check_chain P validate check reg (ck_key_id k) prev (env # envs) = Inr True \<longleftrightarrow>
      (\<exists>c. accepts P validate check k prev env c \<and>
        (case cp_next c of
          None \<Rightarrow> check_chain P validate check reg (ck_key_id k) (Some c) envs
        | Some k' \<Rightarrow> check_chain P validate check (reg(ck_key_id k' \<mapsto> ck_public_key k')) (ck_key_id k') (Some c) envs) = Inr True)"
    using Cons.prems by (auto simp: accepts_def parse_checkpoint_def)
  also have "\<dots> \<longleftrightarrow> (\<exists>cs. accepted P validate check k prev (env # envs) cs)"
    unfolding rest accepted_Cons by blast
  finally show ?case .
qed (auto intro: exI [of _ "[]"])

lemma verify_chain_accepted: "verify_checkpoint_chain P validate check envs boot \<longleftrightarrow>
    envs \<noteq> [] \<and> (\<exists>cs. accepted P validate check boot None envs cs)"
  by (simp add: verify_checkpoint_chain_def no_error_iff check_chain_accepted)

lemma accepted_mono:
  "accepted P validate check k prev envs cs \<Longrightarrow> (\<And>cp p. check cp p \<Longrightarrow> check' cp p) \<Longrightarrow> accepted P validate check' k prev envs cs"
  by (auto simp: accepted_def accepts_def)

lemma accepted_parse: "accepted P validate check k prev envs cs \<Longrightarrow> map (\<lambda>env. validate (payload env)) envs = map Some cs"
  by (rule nth_equalityI) (auto simp: accepted_def accepts_def)

lemma accepted_unique: "accepted P validate check k prev envs cs \<Longrightarrow> accepted P validate check' k' prev' envs cs' \<Longrightarrow> cs = cs'"
proof -
  assume "accepted P validate check k prev envs cs" "accepted P validate check' k' prev' envs cs'"
  then have "map Some cs = map Some cs'" by (metis accepted_parse)
  then show "cs = cs'" by (rule map_injective) (simp add: inj_def)
qed

section \<open>Seals re-validate\<close>

text \<open>The reader of payloads, on what the code writes.\<close>

definition reads_dumped :: "prims \<Rightarrow> checkpoint_reader \<Rightarrow> bool" where
  "reads_dumped P validate \<longleftrightarrow> (\<forall>c. valid_checkpoint P c \<longrightarrow> validate (checkpoint_payload_dict P c) = Some c)"

text \<open>The checkpoint that a seal signs.\<close>

definition sealed_checkpoint :: "event list \<Rightarrow> pystr option \<Rightarrow> checkpoint_key option \<Rightarrow> int \<Rightarrow> pystr \<Rightarrow> anchor_proof \<Rightarrow> pystr \<Rightarrow> checkpoint" where
  "sealed_checkpoint evs prev nxt t root p cid =
     \<lparr>cp_id = cid, cp_start = sequence (hd evs), cp_end = sequence (last evs), cp_count = int (length evs),
      cp_root = root, cp_previous = prev, cp_timestamp = t, cp_anchor = p, cp_next = nxt\<rparr>"

lemma sealed_checkpoint_simps [simp]:
  "cp_start (sealed_checkpoint evs prev nxt t root p cid) = sequence (hd evs)"
  "cp_end (sealed_checkpoint evs prev nxt t root p cid) = sequence (last evs)"
  "cp_count (sealed_checkpoint evs prev nxt t root p cid) = int (length evs)"
  "cp_root (sealed_checkpoint evs prev nxt t root p cid) = root"
  "cp_previous (sealed_checkpoint evs prev nxt t root p cid) = prev"
  "cp_timestamp (sealed_checkpoint evs prev nxt t root p cid) = t"
  "cp_anchor (sealed_checkpoint evs prev nxt t root p cid) = p"
  "cp_next (sealed_checkpoint evs prev nxt t root p cid) = nxt"
  by (simp_all add: sealed_checkpoint_def)

lemma seal_checkpoint_ok:
  assumes "seal_checkpoint P issue tick evs sg prev nxt ts s = (Inr env, s')"
  shows "\<exists>t root p cid. admit_events P tick evs ts = Inr (t, root) \<and> issue root t s = (Inr p, s') \<and>
    valid_checkpoint P (sealed_checkpoint evs prev nxt t root p cid) \<and>
    sign_payload P sg (checkpoint_payload_dict P (sealed_checkpoint evs prev nxt t root p cid)) = Inr env"
proof -
  from assms obtain t root where a: "admit_events P tick evs ts = Inr (t, root)"
    by (auto simp: seal_checkpoint_def split: sum.splits)
  with assms obtain p where p: "issue root t s = (Inr p, s')" "sign_checkpoint P evs sg prev nxt t root p = Inr env"
    by (auto simp: seal_checkpoint_def split: sum.splits prod.splits)
  from p(2) obtain cid where "valid_checkpoint P (sealed_checkpoint evs prev nxt t root p cid)"
    "sign_payload P sg (checkpoint_payload_dict P (sealed_checkpoint evs prev nxt t root p cid)) = Inr env"
    by (auto simp: sign_checkpoint_def sealed_checkpoint_def Let_def)
  with a p(1) show ?thesis by blast
qed

lemma admit_events_ok:
  "admit_events P tick evs ts = Inr (t, root) \<longleftrightarrow> evs \<noteq> [] \<and>
     (case ts of None \<Rightarrow> Inr tick | Some d \<Rightarrow> require_aware_utc d) = Inr t \<and>
     contiguous (sequence (hd evs)) evs \<and> slice_linked P evs = Inr True \<and> events_root P evs = Inr root"
  by (auto simp: admit_events_def)

lemma sealed_events_verify:
  assumes "reads_dumped P validate" "seal_checkpoint P issue tick evs sg prev nxt ts s = (Inr env, s')"
  shows "verify_checkpoint_events P validate env evs"
proof -
  obtain t root p cid where a: "admit_events P tick evs ts = Inr (t, root)"
    "valid_checkpoint P (sealed_checkpoint evs prev nxt t root p cid)"
    "sign_payload P sg (checkpoint_payload_dict P (sealed_checkpoint evs prev nxt t root p cid)) = Inr env"
    using seal_checkpoint_ok [OF assms(2)] by blast
  have "parse_checkpoint validate env = Inr (sealed_checkpoint evs prev nxt t root p cid)"
    using assms(1) a(2) sign_payload_ok(2) [OF a(3)] by (simp add: parse_checkpoint_def reads_dumped_def)
  with a(1) show ?thesis by (simp add: verify_checkpoint_events_def admit_events_ok no_error_def)
qed

section \<open>The chain of the operator, for any anchor\<close>

datatype chain_op = RegisterOp signer | SealOp int "event list" "checkpoint_key option" "datetime option"

fun chain_step :: "prims \<Rightarrow> checkpoint_reader \<Rightarrow> (pystr \<Rightarrow> int \<Rightarrow> 's \<Rightarrow> anchor_proof res \<times> 's)
    \<Rightarrow> ('s \<Rightarrow> (pystr \<times> json) list \<Rightarrow> anchor_proof \<Rightarrow> bool) \<Rightarrow> chain_op \<Rightarrow> 's cp_chain \<Rightarrow> 's cp_chain" where
  "chain_step P validate issue check (RegisterOp sg) ch = register_signer sg ch"
| "chain_step P validate issue check (SealOp tick evs nxt ts) ch = snd (chain_seal P validate issue check tick evs nxt ts ch)"

lemma seal_checkpoint_state:
  "seal_checkpoint P issue tick evs sg prev nxt ts s = (a, s') \<Longrightarrow> s' = s \<or> (\<exists>root t b. issue root t s = (b, s'))"
  by (auto simp: seal_checkpoint_def split: sum.splits prod.splits)

text \<open>What a seal does: nothing to the chain, or one more checkpoint that the verifier admits.\<close>

lemma chain_seal_cases:
  assumes "chain_seal P validate issue check tick evs nxt ts ch = (a, ch')"
  shows "ch_bootstrap ch' = ch_bootstrap ch \<and> ch_signers ch' = ch_signers ch \<and>
    (ch_anchor ch' = ch_anchor ch \<or> (\<exists>root t b. issue root t (ch_anchor ch) = (b, ch_anchor ch'))) \<and>
    (case a of Inl e \<Rightarrow> ch_sealed ch' = ch_sealed ch \<and> ch_active ch' = ch_active ch
     | Inr env \<Rightarrow> ch_sealed ch' = ch_sealed ch @ [env] \<and> chain_verify P validate check ch' \<and>
         ch_active ch' = (case nxt of None \<Rightarrow> ch_active ch | Some k \<Rightarrow> ck_key_id k) \<and>
         (\<exists>sg prev s'. ch_signers ch (ch_active ch) = Some sg \<and> previous_root validate evs (ch_sealed ch) = Inr prev \<and>
            seal_checkpoint P issue tick evs sg prev nxt ts (ch_anchor ch) = (Inr env, s')))"
proof (cases "ch_signers ch (ch_active ch)")
  case (Some sg)
  show ?thesis
  proof (cases "previous_root validate evs (ch_sealed ch)")
    case (Inr prev)
    obtain b s where seal: "seal_checkpoint P issue tick evs sg prev nxt ts (ch_anchor ch) = (b, s)" by fastforce
    from seal_checkpoint_state [OF seal] assms Some Inr seal show ?thesis
      by (cases b) (auto simp: chain_seal_def chain_verify_def split: if_splits)
  qed (use assms Some in \<open>auto simp: chain_seal_def\<close>)
qed (use assms in \<open>auto simp: chain_seal_def\<close>)

context timestamp_anchor
begin

text \<open>An issue keeps a verified chain verified.\<close>

lemma issue_keeps_chain:
  assumes "issue root t s = (a, s')" "verify_checkpoint_chain P validate (check s) envs boot"
  shows "verify_checkpoint_chain P validate (check s') envs boot"
  using assms(2) accepted_mono [of P validate "check s" boot None envs] check_kept [OF assms(1)]
  unfolding verify_chain_accepted by blast

lemma step_keeps_chain:
  assumes "ch_sealed ch = [] \<or> chain_verify P validate check ch"
  shows "ch_sealed (chain_step P validate issue check q ch) = [] \<or> chain_verify P validate check (chain_step P validate issue check q ch)"
proof (cases q)
  case (RegisterOp sg)
  with assms show ?thesis by (simp add: register_signer_def chain_verify_def)
next
  case (SealOp tick evs nxt ts)
  obtain a ch' where run: "chain_seal P validate issue check tick evs nxt ts ch = (a, ch')" by fastforce
  note c = chain_seal_cases [OF run]
  have "ch_sealed ch' = [] \<or> chain_verify P validate check ch'"
  proof (cases a)
    case (Inl e)
    with c assms issue_keeps_chain show ?thesis by (fastforce simp: chain_verify_def)
  qed (use c in simp)
  with SealOp run show ?thesis by simp
qed

lemma steps_keep_chain:
  "ch_sealed ch = [] \<or> chain_verify P validate check ch \<Longrightarrow>
   ch_sealed (fold (chain_step P validate issue check) qs ch) = [] \<or>
   chain_verify P validate check (fold (chain_step P validate issue check) qs ch)"
  by (induction qs arbitrary: ch) (simp_all add: step_keeps_chain del: chain_step.simps)

lemma step_extends: "\<exists>more. ch_sealed (chain_step P validate issue check q ch) = ch_sealed ch @ more"
proof (cases q)
  case (SealOp tick evs nxt ts)
  obtain a ch' where run: "chain_seal P validate issue check tick evs nxt ts ch = (a, ch')" by fastforce
  from chain_seal_cases [OF run] run SealOp show ?thesis by (cases a) auto
qed (simp add: register_signer_def)

lemma steps_extend: "\<exists>more. ch_sealed (fold (chain_step P validate issue check) qs ch) = ch_sealed ch @ more"
proof (induction qs arbitrary: ch)
  case (Cons q qs)
  from Cons [of "chain_step P validate issue check q ch"] step_extends [of P validate q ch] show ?case
    by (auto simp del: chain_step.simps)
qed simp

text \<open>An honest seal is admitted.\<close>

lemma seal_admitted:
  assumes ok: "ok (ch_anchor ch)" "prims_ok P" "signer_ok P sg" "reads_dumped P validate"
    and bound: "\<And>c. cp_root c = ap_root_hash (cp_anchor c) \<Longrightarrow> cp_timestamp c = ap_timestamp (cp_anchor c) \<Longrightarrow>
      bound (checkpoint_payload_dict P c) (cp_anchor c)"
    and chain: "accepted P validate (check (ch_anchor ch)) (ch_bootstrap ch) None (ch_sealed ch) cs"
    and active: "active_key (ch_bootstrap ch) cs = \<lparr>ck_key_id = key_id sg, ck_public_key = b64_encode P (public_key_bytes sg)\<rparr>"
      "ch_active ch = key_id sg" "ch_signers ch (key_id sg) = Some sg"
    and events: "admit_events P tick evs ts = Inr (t, root)"
      "sequence (hd evs) = (if cs = [] then 0 else cp_end (last cs) + 1)"
      "cs = [] \<or> cp_timestamp (last cs) \<le> t"
    and seal: "seal_checkpoint P issue tick evs sg (if cs = [] then None else Some (cp_root (last cs))) nxt ts (ch_anchor ch) = (Inr env, s')"
  shows "\<exists>ch'. chain_seal P validate issue check tick evs nxt ts ch = (Inr env, ch') \<and> ch_sealed ch' = ch_sealed ch @ [env]"
proof -
  let ?prev = "if cs = [] then None else Some (cp_root (last cs))"
  obtain p cid where s: "issue root t (ch_anchor ch) = (Inr p, s')"
    "valid_checkpoint P (sealed_checkpoint evs ?prev nxt t root p cid)"
    "sign_payload P sg (checkpoint_payload_dict P (sealed_checkpoint evs ?prev nxt t root p cid)) = Inr env"
    using seal_checkpoint_ok [OF seal] events(1) by auto
  let ?c = "sealed_checkpoint evs ?prev nxt t root p cid"
  have pl: "payload env = checkpoint_payload_dict P ?c" "alg env = alg_ed25519" "env_key_id env = key_id sg"
    using sign_payload_ok [OF s(3)] by simp_all
  have "bound (payload env) p"
    using bound [of ?c] issued_for [OF s(1)] by (simp add: pl(1))
  then have anchored: "check s' (payload env) p" by (rule issued_checks [OF ok(1) s(1)])
  have "verify_envelope P env (public_key_bytes sg) = Inr (payload env)"
    using verify_signed_payload [OF ok(2,3) s(3)] by (simp add: pl(1))
  then have "signed_by P env (b64_encode P (public_key_bytes sg))"
    using ok(2) by (simp add: signed_by_def prims_ok_def)
  moreover have "validate (payload env) = Some ?c" using ok(4) s(2) by (simp add: pl(1) reads_dumped_def)
  moreover have "continues (if cs = [] then None else Some (last cs)) ?c"
    using events(2,3) by (cases "cs = []") (simp_all add: continues_def)
  ultimately have "accepts P validate (check s') (active_key (ch_bootstrap ch) cs) (if cs = [] then None else Some (last cs)) env ?c"
    using anchored by (simp add: accepts_def pl(2,3) active(1))
  moreover have "accepted P validate (check s') (ch_bootstrap ch) None (ch_sealed ch) cs"
    using chain by (rule accepted_mono) (rule check_kept [OF s(1)])
  ultimately have "accepted P validate (check s') (ch_bootstrap ch) None (ch_sealed ch @ [env]) (cs @ [?c])"
    by (simp add: accepted_snoc)
  then have verified: "verify_checkpoint_chain P validate (check s') (ch_sealed ch @ [env]) (ch_bootstrap ch)"
    unfolding verify_chain_accepted by blast
  have sealed: "length cs = length (ch_sealed ch)" using chain by (simp add: accepted_def)
  have "previous_root validate evs (ch_sealed ch) = Inr ?prev"
  proof (cases "cs = []")
    case True
    with sealed events(2) show ?thesis by (simp add: previous_root_def)
  next
    case False
    with sealed have ne: "ch_sealed ch \<noteq> []" by auto
    have "map (\<lambda>env. validate (payload env)) (ch_sealed ch) = map Some cs" by (rule accepted_parse [OF chain])
    then have "last (map (\<lambda>env. validate (payload env)) (ch_sealed ch)) = last (map Some cs)" by simp
    with ne False have "validate (payload (last (ch_sealed ch))) = Some (last cs)" by (simp add: last_map)
    with ne False events(2) show ?thesis by (simp add: previous_root_def parse_checkpoint_def)
  qed
  with active(2,3) seal verified show ?thesis by (simp add: chain_seal_def)
qed

end

end
