(* ===== verification/Checkpoints_Properties.thy ===== *)
theory Checkpoints_Properties
  imports Checkpoints_Laws
begin

text \<open>
  The properties of checkpoint chains and of their anchors.
\<close>

section \<open>Chains\<close>

text \<open>C17: the verifier accepts exactly the chains that are accepted position by position: each checkpoint is
  signed under the key that the checkpoints before it declare last (the bootstrap key before any
  declaration, so a rotation never acts on itself or backwards), parses, continues its predecessor
  in root, time and range, and carries an anchor that checks.\<close>

theorem checkpoint_chain_exact:
  "verify_checkpoint_chain P validate check envs boot \<longleftrightarrow>
     envs \<noteq> [] \<and> (\<exists>cs. accepted P validate check boot None envs cs)"
  by (rule verify_chain_accepted)

text \<open>The chain after some operations, on each of the anchors.\<close>

definition run_local :: "prims \<Rightarrow> checkpoint_reader \<Rightarrow> signer \<Rightarrow> checkpoint_key \<Rightarrow> chain_op list \<Rightarrow> anchor_proof list cp_chain" where
  "run_local P validate asg boot qs =
     fold (chain_step P validate (local_anchor P asg) (local_verify_anchor P asg)) qs (new_cp_chain boot [])"

definition run_ots :: "prims \<Rightarrow> checkpoint_reader \<Rightarrow> pystr \<Rightarrow> (bytes \<Rightarrow> bytes res) list \<Rightarrow> checkpoint_key \<Rightarrow> chain_op list
    \<Rightarrow> (bytes \<Rightarrow> bytes res) list cp_chain" where
  "run_ots P validate url calls boot qs =
     fold (chain_step P validate (ots_issue P url) (\<lambda>_. ots_verify_anchor P)) qs (new_cp_chain boot calls)"

text \<open>C4: whatever sequence of registrations and seals the operator runs, on the emulated log as on
  OpenTimestamps, the chain is empty or verifies, and no checkpoint is ever removed or replaced.\<close>

theorem checkpoint_chain_verifies:
  "(ch_sealed (run_local P validate asg boot qs) = [] \<or>
      chain_verify P validate (local_verify_anchor P asg) (run_local P validate asg boot qs)) \<and>
   (\<exists>more. ch_sealed (run_local P validate asg boot (qs @ rs)) = ch_sealed (run_local P validate asg boot qs) @ more) \<and>
   (ch_sealed (run_ots P validate url calls boot qs) = [] \<or>
      chain_verify P validate (\<lambda>_. ots_verify_anchor P) (run_ots P validate url calls boot qs)) \<and>
   (\<exists>more. ch_sealed (run_ots P validate url calls boot (qs @ rs)) = ch_sealed (run_ots P validate url calls boot qs) @ more)"
proof (intro conjI)
  show "ch_sealed (run_local P validate asg boot qs) = [] \<or>
      chain_verify P validate (local_verify_anchor P asg) (run_local P validate asg boot qs)"
    unfolding run_local_def by (rule local_log.steps_keep_chain) (simp add: new_cp_chain_def)
  show "ch_sealed (run_ots P validate url calls boot qs) = [] \<or>
      chain_verify P validate (\<lambda>_. ots_verify_anchor P) (run_ots P validate url calls boot qs)"
    unfolding run_ots_def by (rule calendar.steps_keep_chain) (simp add: new_cp_chain_def)
qed (unfold run_local_def run_ots_def fold_append comp_apply, (rule local_log.steps_extend calendar.steps_extend)+)

text \<open>The ranges of an accepted chain, and events that verify against its checkpoints.\<close>

lemma contiguous_append:
  "contiguous n (xs @ ys) \<longleftrightarrow> contiguous n xs \<and> contiguous (n + int (length xs)) ys"
  by (induction xs arbitrary: n) (auto simp: algebra_simps)

lemma verify_events_ok:
  assumes "verify_checkpoint_events P validate env evs"
  shows "\<exists>c leaves. validate (payload env) = Some c \<and> evs \<noteq> [] \<and> cp_count c = int (length evs) \<and>
    sequence (last evs) = cp_end c \<and> contiguous (cp_start c) evs \<and> slice_linked P evs = Inr True \<and>
    rmap (event_hash P) evs = Inr leaves \<and> build_merkle_root P leaves = Inr (cp_root c)"
  using assms by (auto simp: verify_checkpoint_events_def no_error_iff parse_checkpoint_def events_root_def split: if_splits)

lemma contiguous_last: "contiguous n evs \<Longrightarrow> evs \<noteq> [] \<Longrightarrow> sequence (last evs) = n + int (length evs) - 1"
  by (cases evs rule: rev_cases) (auto simp: contiguous_append)

lemma events_tile:
  "accepted P validate check k prev envs cs \<Longrightarrow> list_all2 (verify_checkpoint_events P validate) envs evss \<Longrightarrow>
   (case prev of None \<Rightarrow> cs \<noteq> [] \<and> n = cp_start (hd cs) | Some b \<Rightarrow> n = cp_end b + 1) \<Longrightarrow> contiguous n (concat evss)"
proof (induction envs arbitrary: k prev cs evss n)
  case (Cons env envs)
  obtain c cs' where cs: "cs = c # cs'" "accepts P validate check k prev env c"
    "accepted P validate check (case cp_next c of None \<Rightarrow> k | Some k' \<Rightarrow> k') (Some c) envs cs'"
    using Cons.prems(1) by (auto simp: accepted_Cons)
  obtain evs evss' where evss: "evss = evs # evss'" "verify_checkpoint_events P validate env evs"
    "list_all2 (verify_checkpoint_events P validate) envs evss'"
    using Cons.prems(2) by (auto simp: list_all2_Cons1)
  from verify_events_ok [OF evss(2)] cs(2) have c: "evs \<noteq> []" "sequence (last evs) = cp_end c" "contiguous (cp_start c) evs"
    by (auto simp: accepts_def)
  have n: "n = cp_start c" using Cons.prems(3) cs(1,2) by (auto simp: accepts_def continues_def split: option.splits)
  have "contiguous (cp_end c + 1) (concat evss')" by (rule Cons.IH [OF cs(3) evss(3)]) simp
  moreover have "cp_end c + 1 = cp_start c + int (length evs)" using contiguous_last [OF c(3,1)] c(2) by simp
  ultimately show ?case using c(3) n by (simp add: evss(1) contiguous_append)
qed auto

text \<open>If a chain is accepted and each of its checkpoints is verified against some events, these events taken
  together are one range of the ledger without gap, overlap or reordering.\<close>

theorem checkpointed_events_tile:
  assumes "accepted P validate check boot None envs cs" "list_all2 (verify_checkpoint_events P validate) envs evss"
    and "envs \<noteq> []"
  shows "contiguous (cp_start (hd cs)) (concat evss)"
proof (rule events_tile [OF assms(1,2)])
  show "case None of None \<Rightarrow> cs \<noteq> [] \<and> cp_start (hd cs) = cp_start (hd cs) | Some b \<Rightarrow> cp_start (hd cs) = cp_end b + 1"
    using assms(1,3) by (auto simp: accepted_def)
qed

text \<open>C19: a signed checkpoint determines its events: two lists of events that both verify against it have the
  same fields, event by event, or two of the objects hashed for their trees have the same digest.\<close>

theorem sealed_events_determined:
  assumes "verify_checkpoint_events P validate env evs" "verify_checkpoint_events P validate env evs'"
    and "\<not> collides (json_digest P) (tree_inputs (json_digest P) fields_json node_json (event_shape P evs) \<union>
      tree_inputs (json_digest P) fields_json node_json (event_shape P evs'))"
  shows "map (event_fields P) evs = map (event_fields P) evs'"
proof -
  obtain c leaves where c: "validate (payload env) = Some c" "cp_count c = int (length evs)"
    "rmap (event_hash P) evs = Inr leaves" "build_merkle_root P leaves = Inr (cp_root c)"
    using verify_events_ok [OF assms(1)] by blast
  obtain c' leaves' where c': "validate (payload env) = Some c'" "cp_count c' = int (length evs')"
    "rmap (event_hash P) evs' = Inr leaves'" "build_merkle_root P leaves' = Inr (cp_root c')"
    using verify_events_ok [OF assms(2)] by blast
  from c(1) c'(1) have same: "c' = c" by simp
  have len: "length evs = length evs'" using c(2) c'(2) same by simp
  from c'(4) same have "build_merkle_root P leaves' = Inr (cp_root c)" by simp
  from events_root_inject [OF c(3,4) c'(3) this len assms(3)] show ?thesis .
qed

section \<open>Seals\<close>

lemma bound_to_payload:
  assumes "fromisoformat P (dt_json P (cp_timestamp c)) = Some (Aware (cp_timestamp c) 0)"
    and "cp_root c = ap_root_hash (cp_anchor c)" "cp_timestamp c = ap_timestamp (cp_anchor c)"
  shows "bound_to P (checkpoint_payload_dict P c) (cp_anchor c)"
  using assms by (simp add: bound_to_def checkpoint_payload_dict_def)

lemma local_seal_admitted:
  assumes "prims_ok P" "signer_ok P asg" "signer_ok P sg" "reads_dumped P validate"
    and "\<And>t. fromisoformat P (dt_json P t) = Some (Aware t 0)"
    and "accepted P validate (local_verify_anchor P asg (ch_anchor ch)) (ch_bootstrap ch) None (ch_sealed ch) cs"
    and "active_key (ch_bootstrap ch) cs = \<lparr>ck_key_id = key_id sg, ck_public_key = b64_encode P (public_key_bytes sg)\<rparr>"
      "ch_active ch = key_id sg" "ch_signers ch (key_id sg) = Some sg"
    and "admit_events P tick evs ts = Inr (t, root)"
      "sequence (hd evs) = (if cs = [] then 0 else cp_end (last cs) + 1)"
      "cs = [] \<or> cp_timestamp (last cs) \<le> t"
    and "seal_checkpoint P (local_anchor P asg) tick evs sg (if cs = [] then None else Some (cp_root (last cs))) nxt ts
      (ch_anchor ch) = (Inr env, s')"
  shows "\<exists>ch'. chain_seal P validate (local_anchor P asg) (local_verify_anchor P asg) tick evs nxt ts ch = (Inr env, ch') \<and>
    ch_sealed ch' = ch_sealed ch @ [env] \<and> verify_checkpoint_events P validate env evs"
  using local_log.seal_admitted [where P = P and Pa = P and sga = asg and sg = sg, OF conjI [OF assms(1,2)] assms(1,3,4) bound_to_payload [OF assms(5)] assms(6-13)]
    sealed_events_verify [OF assms(4,13)] by blast

text \<open>A seal by the active signer over events that continue the chain, not earlier than its head, passes the
  admission check: the chain grows by the envelope, which verifies against the events.\<close>

theorem honest_seal_admitted:
  assumes "prims_ok P" "signer_ok P asg" "signer_ok P sg" "reads_dumped P validate"
    and "\<And>t. fromisoformat P (dt_json P t) = Some (Aware t 0)"
    and "accepted P validate (local_verify_anchor P asg (ch_anchor ch)) (ch_bootstrap ch) None (ch_sealed ch) cs"
    and "active_key (ch_bootstrap ch) cs = \<lparr>ck_key_id = key_id sg, ck_public_key = b64_encode P (public_key_bytes sg)\<rparr>"
      "ch_active ch = key_id sg" "ch_signers ch (key_id sg) = Some sg"
    and "admit_events P tick evs ts = Inr (t, root)"
      "sequence (hd evs) = (if cs = [] then 0 else cp_end (last cs) + 1)"
      "cs = [] \<or> cp_timestamp (last cs) \<le> t"
    and "seal_checkpoint P (local_anchor P asg) tick evs sg (if cs = [] then None else Some (cp_root (last cs))) nxt ts
      (ch_anchor ch) = (Inr env, s')"
  shows "\<exists>ch'. chain_seal P validate (local_anchor P asg) (local_verify_anchor P asg) tick evs nxt ts ch = (Inr env, ch') \<and>
    ch_sealed ch' = ch_sealed ch @ [env] \<and> verify_checkpoint_events P validate env evs"
  by (rule local_seal_admitted [OF assms])

section \<open>OpenTimestamps receipts\<close>

lemma set_walk_sort_node: "set (walk_attestations (sort_node node)) = set (walk_attestations node)"
  by (metis mset_walk_sort_node set_mset_mset)

lemma is_bitcoin_iff: "is_bitcoin a \<longleftrightarrow> (\<exists>h. a = BitcoinAt h)"
  by (cases a) simp_all

lemma bound_to_receipt [simp]: "bound_to P cp (p\<lparr>ap_receipt := r\<rparr>) = bound_to P cp p"
  by (simp add: bound_to_def split: option.split json.split datetime.split)

lemma upgraded_verifies:
  assumes "base64_ok P" "answers_sized answer" "ots_upgrade P answer p = Inr p'" "bound_to P cp p" "p' \<noteq> p"
  shows "ots_verify_anchor P cp p' \<and> (\<exists>h. bitcoin_height P p' = Some h)"
proof -
  from assms(3,5) obtain d raw node receipt where u: "ap_scheme p = scheme_opentimestamps" "\<not> ap_emulated p"
    "digest_for (ap_root_hash p) = Inr d" "answer d = Inr raw" "parse_timestamp P raw d = Inr node"
    "list_ex is_bitcoin (walk_attestations node)" "receipt_for_node P d node = Inr receipt" "p' = p\<lparr>ap_receipt := Some receipt\<rparr>"
    by (auto simp: ots_upgrade_def split: if_splits)
  from assms(2) u(4) have "sized_bytes raw" by (auto simp: answers_sized_def)
  with parse_timestamp_ok [OF u(5)] have node: "node_ok ots_levels P d node" by blast
  have carried: "receipt_file P p' = Some (d, sort_node node)"
    by (rule receipt_file_of_node [OF assms(1) digest_for_length [OF u(3)] node u(7)]) (simp add: u(8))
  from u(6) obtain h where "BitcoinAt h \<in> set (walk_attestations node)" by (auto simp: list_ex_iff is_bitcoin_iff)
  then have "BitcoinAt h \<in> set (walk_attestations (sort_node node))" by (simp add: set_walk_sort_node)
  then have "h \<in> set (bitcoin_heights (sort_node node))" by (force simp: bitcoin_heights_def)
  then have "bitcoin_heights (sort_node node) \<noteq> []" by auto
  then obtain h hs where "bitcoin_heights (sort_node node) = h # hs" by (cases "bitcoin_heights (sort_node node)") auto
  then have "bitcoin_height P p' = Some (Max (set (h # hs)))"
    using carried u(1,2,8) by (simp add: bitcoin_height_def)
  moreover have "ots_verify_anchor P cp p'"
    using carried u assms(4) by (simp add: ots_verify_anchor_def)
  ultimately show ?thesis by blast
qed

text \<open>Upgrading a proof either returns it unchanged or one for the same root and time whose receipt attests a
  Bitcoin block, and which verifies for every checkpoint that the proof is bound to.\<close>

theorem upgrade_attests:
  assumes "base64_ok P" "answers_sized answer" "ots_upgrade P answer p = Inr p'" "bound_to P cp p" "p' \<noteq> p"
  shows "ots_verify_anchor P cp p' \<and> (\<exists>h. bitcoin_height P p' = Some h)"
  by (rule upgraded_verifies [OF assms])

section \<open>Witnesses\<close>

text \<open>A reader of what the code writes, for the concrete primitives.\<close>

fun read_text :: "json \<Rightarrow> pystr" where
  "read_text (JStr s) = s"
| "read_text j = []"

fun read_opt_text :: "json \<Rightarrow> pystr option" where
  "read_opt_text (JStr s) = Some s"
| "read_opt_text j = None"

fun read_int :: "json \<Rightarrow> int" where
  "read_int (JInt i) = i"
| "read_int j = 0"

fun read_anchor :: "json \<Rightarrow> anchor_proof" where
  "read_anchor (JObj [(_, s), (_, r), (_, t), (_, k), (_, g), (_, e), (_, o')]) =
     \<lparr>ap_scheme = read_text s, ap_root_hash = read_text r, ap_timestamp = text_int (read_text t), ap_key_id = read_text k,
      ap_signature = read_text g, ap_emulated = (e = JBool True), ap_receipt = read_opt_text o'\<rparr>"
| "read_anchor j = \<lparr>ap_scheme = [], ap_root_hash = [], ap_timestamp = 0, ap_key_id = [], ap_signature = [], ap_emulated = False, ap_receipt = None\<rparr>"

fun read_key :: "json \<Rightarrow> checkpoint_key option" where
  "read_key (JObj [(_, k), (_, p)]) = Some \<lparr>ck_key_id = read_text k, ck_public_key = read_text p\<rparr>"
| "read_key j = None"

fun read_checkpoint :: checkpoint_reader where
  "read_checkpoint [(_, i), (_, s), (_, e), (_, n), (_, r), (_, b), (_, t), (_, a), (_, k)] = Some
     \<lparr>cp_id = read_text i, cp_start = read_int s, cp_end = read_int e, cp_count = read_int n, cp_root = read_text r,
      cp_previous = read_opt_text b, cp_timestamp = text_int (read_text t), cp_anchor = read_anchor a, cp_next = read_key k\<rparr>"
| "read_checkpoint d = None"

lemma read_opt_text_opt_str [simp]: "read_opt_text (opt_str s) = s"
  by (cases s) (simp_all add: opt_str_def)

lemma reads_dumped_toy: "reads_dumped toy read_checkpoint"
proof -
  have key: "read_key (case k of None \<Rightarrow> JNull | Some k \<Rightarrow> checkpoint_key_json k) = k" for k :: "checkpoint_key option"
    by (cases k) (simp_all add: checkpoint_key_json_def)
  have anchor: "read_anchor (anchor_proof_json toy p) = p" for p
    by (simp add: anchor_proof_json_def)
  show ?thesis by (simp add: reads_dumped_def checkpoint_payload_dict_def key anchor)
qed

definition demo_operator :: signer where "demo_operator = toy_signer ''op'' 3"
definition demo_anchor :: signer where "demo_anchor = toy_signer ''anchor'' 9"

definition demo_boot :: checkpoint_key where
  "demo_boot = \<lparr>ck_key_id = py ''op'', ck_public_key = to_hex (replicate 32 3)\<rparr>"

definition demo_new :: "anchor_proof list cp_chain" where
  "demo_new = register_signer demo_operator (new_cp_chain demo_boot [])"

lemma demo_admitted: "\<exists>root. admit_events toy 20 [demo_event 0] None = Inr (20, root) \<and> text_ok root \<and> root \<noteq> [] \<and>
    rmap (event_hash toy) [demo_event 0] = Inr [root] \<and> build_merkle_root toy [root] = Inr root"
proof -
  obtain h where h: "event_hash toy (demo_event 0) = Inr h" "text_ok h" using demo_event_hash by blast
  moreover from h(1) have "h \<noteq> []" by (auto simp: event_hash_def sha256_hex_def simp del: to_hex.simps)
  moreover have "build_merkle_root toy [h] = Inr h"
    by (simp add: build_merkle_root_def merkle_levels.simps [of toy "[h]"])
  ultimately show ?thesis by (simp add: admit_events_ok events_root_def demo_event_def)
qed

lemma demo_proof_issued: "text_ok root \<Longrightarrow> root \<noteq> [] \<Longrightarrow>
    \<exists>p. local_anchor toy demo_anchor root 20 [] = (Inr p, [p]) \<and> valid_anchor_proof p \<and> json_ok toy (anchor_proof_json toy p)"
proof -
  assume root: "text_ok root" "root \<noteq> []"
  have "json_ok toy (JObj [(py ''scheme'', JStr scheme_local_emulated), (py ''root_hash'', JStr root),
     (py ''timestamp'', JStr (isoformat toy 20))])" using root(1) by (simp add: scheme_local_emulated_def)
  from canonical_total [OF this] obtain body where "anchor_leaf toy scheme_local_emulated root 20 = Inr body"
    by (auto simp: anchor_leaf_def)
  with root show ?thesis
    by (simp add: local_anchor_def valid_anchor_proof_def demo_anchor_def anchor_proof_json_def scheme_local_emulated_def
        opt_str_def del: to_hex.simps)
qed

lemma text_ok_append: "text_ok (s @ t) \<longleftrightarrow> text_ok s \<and> text_ok t"
  by (auto simp: text_ok_def)

lemma text_ok_take: "text_ok s \<Longrightarrow> text_ok (take n s)"
  by (auto simp: text_ok_def dest: in_set_takeD)

lemma demo_seal: "\<exists>root env p. admit_events toy 20 [demo_event 0] None = Inr (20, root) \<and>
    seal_checkpoint toy (local_anchor toy demo_anchor) 20 [demo_event 0] demo_operator None None None [] = (Inr env, [p])"
proof -
  obtain root where root: "admit_events toy 20 [demo_event 0] None = Inr (20, root)" "text_ok root" "root \<noteq> []"
    using demo_admitted by blast
  obtain p where p: "local_anchor toy demo_anchor root 20 [] = (Inr p, [p])" "valid_anchor_proof p"
    "json_ok toy (anchor_proof_json toy p)" using demo_proof_issued [OF root(2,3)] by blast
  have "json_ok toy (JObj [(py ''start_seq'', JInt 0), (py ''end_seq'', JInt 0), (py ''merkle_root'', JStr root)])"
    using root(2) by simp
  from canonical_total [OF this] obtain cid where cid: "checkpoint_id_of toy 0 0 root = Inr cid" "text_ok cid" "cid \<noteq> []"
    by (auto simp: checkpoint_id_of_def sha256_hex_def text_ok_append text_ok_take simp del: to_hex.simps)
  let ?c = "\<lparr>cp_id = cid, cp_start = 0, cp_end = 0, cp_count = 1, cp_root = root, cp_previous = None,
    cp_timestamp = 20, cp_anchor = p, cp_next = None\<rparr>"
  have "valid_checkpoint toy ?c" using p(2) cid(3) root(3) by (simp add: valid_checkpoint_def)
  moreover have "json_ok toy (JObj (checkpoint_payload_dict toy ?c))"
    using p(3) cid(2) root(2) by (simp add: checkpoint_payload_dict_def opt_str_def)
  then obtain env where "sign_payload toy demo_operator (checkpoint_payload_dict toy ?c) = Inr env"
    using canonical_total by (force simp: sign_payload_def)
  ultimately have "sign_checkpoint toy [demo_event 0] demo_operator None None 20 root p = Inr env"
    using cid(1) by (simp add: sign_checkpoint_def demo_event_def)
  with root(1) p(1) show ?thesis by (auto simp: seal_checkpoint_def)
qed

lemma toy_times: "fromisoformat toy (dt_json toy t) = Some (Aware t 0)"
  by simp

lemma demo_active: "active_key (ch_bootstrap demo_new) [] =
    \<lparr>ck_key_id = key_id demo_operator, ck_public_key = b64_encode toy (public_key_bytes demo_operator)\<rparr>"
  by (simp add: demo_new_def new_cp_chain_def register_signer_def demo_boot_def demo_operator_def)

theorem honest_seal_admitted_witness:
  "\<exists>env ch'. chain_seal toy read_checkpoint (local_anchor toy demo_anchor) (local_verify_anchor toy demo_anchor) 20 [demo_event 0]
     None None demo_new = (Inr env, ch') \<and> ch_sealed ch' = [env]"
proof -
  obtain root env p where seal: "admit_events toy 20 [demo_event 0] None = Inr (20, root)"
    "seal_checkpoint toy (local_anchor toy demo_anchor) 20 [demo_event 0] demo_operator None None None [] = (Inr env, [p])"
    using demo_seal by blast
  have new: "ch_anchor demo_new = []" "ch_sealed demo_new = []" "ch_active demo_new = key_id demo_operator"
    "ch_signers demo_new (key_id demo_operator) = Some demo_operator"
    by (simp_all add: demo_new_def new_cp_chain_def register_signer_def demo_boot_def demo_operator_def)
  have ok: "signer_ok toy demo_anchor" "signer_ok toy demo_operator" by (simp_all add: demo_anchor_def demo_operator_def)
  have first: "sequence (hd [demo_event 0]) = (if ([] :: checkpoint list) = [] then 0 else cp_end (last []) + 1)"
    by (simp add: demo_event_def)
  have "\<exists>ch'. chain_seal toy read_checkpoint (local_anchor toy demo_anchor) (local_verify_anchor toy demo_anchor) 20 [demo_event 0]
     None None demo_new = (Inr env, ch') \<and> ch_sealed ch' = ch_sealed demo_new @ [env] \<and>
     verify_checkpoint_events toy read_checkpoint env [demo_event 0]"
    by (rule honest_seal_admitted [OF toy_ok ok reads_dumped_toy toy_times _ demo_active new(3,4) seal(1) first])
      (simp_all add: new seal(2))
  then show ?thesis by (auto simp: new)
qed

lemma demo_chain_sealed: "\<exists>env cs. accepted toy read_checkpoint (\<lambda>cp p. True) demo_boot None [env] cs \<and>
    verify_checkpoint_events toy read_checkpoint env [demo_event 0]"
proof -
  obtain root env p where seal: "admit_events toy 20 [demo_event 0] None = Inr (20, root)"
    "seal_checkpoint toy (local_anchor toy demo_anchor) 20 [demo_event 0] demo_operator None None None [] = (Inr env, [p])"
    using demo_seal by blast
  have new: "ch_anchor demo_new = []" "ch_sealed demo_new = []" "ch_active demo_new = key_id demo_operator"
    "ch_signers demo_new (key_id demo_operator) = Some demo_operator"
    by (simp_all add: demo_new_def new_cp_chain_def register_signer_def demo_boot_def demo_operator_def)
  have ok: "signer_ok toy demo_anchor" "signer_ok toy demo_operator" by (simp_all add: demo_anchor_def demo_operator_def)
  have first: "sequence (hd [demo_event 0]) = (if ([] :: checkpoint list) = [] then 0 else cp_end (last []) + 1)"
    by (simp add: demo_event_def)
  have "\<exists>ch'. chain_seal toy read_checkpoint (local_anchor toy demo_anchor) (local_verify_anchor toy demo_anchor) 20 [demo_event 0]
     None None demo_new = (Inr env, ch') \<and> ch_sealed ch' = ch_sealed demo_new @ [env] \<and>
     verify_checkpoint_events toy read_checkpoint env [demo_event 0]"
    by (rule local_seal_admitted [OF toy_ok ok reads_dumped_toy toy_times _ demo_active new(3,4) seal(1) first])
      (simp_all add: new seal(2))
  then obtain ch' where ch: "chain_seal toy read_checkpoint (local_anchor toy demo_anchor) (local_verify_anchor toy demo_anchor)
      20 [demo_event 0] None None demo_new = (Inr env, ch')" "ch_sealed ch' = [env]"
    "verify_checkpoint_events toy read_checkpoint env [demo_event 0]" by (auto simp: new)
  from chain_seal_cases [OF ch(1)] ch(2) have "verify_checkpoint_chain toy read_checkpoint
      (local_verify_anchor toy demo_anchor (ch_anchor ch')) [env] demo_boot"
    by (auto simp: chain_verify_def demo_new_def new_cp_chain_def register_signer_def)
  then obtain cs where "accepted toy read_checkpoint (local_verify_anchor toy demo_anchor (ch_anchor ch')) demo_boot None [env] cs"
    by (auto simp: verify_chain_accepted)
  then have "accepted toy read_checkpoint (\<lambda>cp p. True) demo_boot None [env] cs" by (rule accepted_mono) simp
  with ch(3) show ?thesis by blast
qed

theorem checkpointed_events_tile_witness: "\<exists>n. contiguous n (concat [[demo_event 0]])"
proof -
  obtain env cs where "accepted toy read_checkpoint (\<lambda>cp p. True) demo_boot None [env] cs"
    "verify_checkpoint_events toy read_checkpoint env [demo_event 0]" using demo_chain_sealed by blast
  from checkpointed_events_tile [OF this(1), of "[[demo_event 0]]"] this(2) show ?thesis by auto
qed

theorem sealed_events_determined_witness: "\<exists>env. verify_checkpoint_events toy read_checkpoint env [demo_event 0] \<and>
    map (event_fields toy) [demo_event 0] = map (event_fields toy) [demo_event 0]"
proof -
  obtain env where "verify_checkpoint_events toy read_checkpoint env [demo_event 0]" using demo_chain_sealed by blast
  with sealed_events_determined [OF this this] show ?thesis
    by (auto simp: collides_def event_shape_def shape_levels.simps [of "[Tip x]" for x])
qed

definition demo_pending :: anchor_proof where
  "demo_pending = \<lparr>ap_scheme = scheme_opentimestamps, ap_root_hash = to_hex (replicate 32 7), ap_timestamp = 20,
     ap_key_id = py ''calendar'', ap_signature = [], ap_emulated = False, ap_receipt = None\<rparr>"

lemma demo_upgrade: "\<exists>p'. ots_upgrade toy (\<lambda>d. encode_node demo_node) demo_pending = Inr p' \<and> p' \<noteq> demo_pending \<and>
    answers_sized (\<lambda>d. encode_node demo_node)"
proof -
  obtain w where w: "encode_node demo_node = Inr w" "\<And>r. decode_node ots_levels toy (replicate 32 7) (w @ r) = Inr (sort_node demo_node, r)"
    using node_round_trip [OF demo_node_ok] by blast
  from demo_file w(1) have "length w < 2 ^ 64" by (auto simp: encode_file_def simp del: replicate.simps)
  then have sized: "answers_sized (\<lambda>d. encode_node demo_node)" by (simp add: answers_sized_def w(1) sized_bytes_def)
  have "decode_node ots_levels toy (replicate 32 7) w = Inr (sort_node demo_node, [])" using w(2) [of "[]"] by simp
  moreover have atts: "set (walk_attestations (sort_node demo_node)) = {BitcoinAt 7, UnknownAt [1, 1, 1, 1, 1, 1, 1, 1] [2, 3]}"
    unfolding set_walk_sort_node by (simp add: demo_node_def del: replicate.simps)
  moreover from atts have "walk_attestations (sort_node demo_node) \<noteq> []" by (metis empty_set insert_not_empty)
  moreover obtain f where "encode_file (replicate 32 7) (sort_node demo_node) = Inr f"
    using w(1) by (simp add: encode_file_def encode_sort_node del: replicate.simps)
  moreover have "digest_for (to_hex (replicate 32 7)) = Inr (replicate 32 7)"
    by (simp add: digest_for_def del: replicate.simps to_hex.simps)
  ultimately have "ots_upgrade toy (\<lambda>d. encode_node demo_node) demo_pending = Inr (demo_pending\<lparr>ap_receipt := Some (to_hex f)\<rparr>)"
    by (simp add: ots_upgrade_def demo_pending_def parse_timestamp_def receipt_for_node_def w(1) list_ex_iff
        del: replicate.simps to_hex.simps)
  moreover have "demo_pending\<lparr>ap_receipt := Some (to_hex f)\<rparr> \<noteq> demo_pending" by (simp add: demo_pending_def)
  ultimately show ?thesis using sized by blast
qed

theorem upgrade_attests_witness: "\<exists>p' h. ots_upgrade toy (\<lambda>d. encode_node demo_node) demo_pending = Inr p' \<and>
    bitcoin_height toy p' = Some h \<and>
    ots_verify_anchor toy [(py ''merkle_root'', JStr (to_hex (replicate 32 7))), (py ''timestamp'', JStr (int_text 20))] p'"
proof -
  obtain p' where "answers_sized (\<lambda>d. encode_node demo_node)" and up: "ots_upgrade toy (\<lambda>d. encode_node demo_node) demo_pending = Inr p'"
    "p' \<noteq> demo_pending" using demo_upgrade by blast
  moreover have "base64_ok toy" by (simp add: base64_ok_def)
  moreover have "bound_to toy [(py ''merkle_root'', JStr (to_hex (replicate 32 7))), (py ''timestamp'', JStr (int_text 20))] demo_pending"
    by (simp add: bound_to_def demo_pending_def del: replicate.simps to_hex.simps)
  ultimately show ?thesis using upgrade_attests by blast
qed

end
