(* ===== verification/Webauthn.thy ===== *)
theory Webauthn
  imports Canonical
begin

text \<open>
  The WebAuthn assertions of \<^verbatim>\<open>stepup.py\<close>: the checks on an assertion, and the
  software and the hardware authenticator with their signature counters. The JSON parser, the
  P-256 operations of \<^verbatim>\<open>cryptography\<close> and the URL-safe base64 without padding are
  parameters.
\<close>

section \<open>Parameters and records\<close>

text \<open>\<open>json_loads\<close> gives \<open>None\<close> where \<^verbatim>\<open>json.loads\<close> raises
  \<^verbatim>\<open>JSONDecodeError\<close>; the members of an object have distinct names.\<close>

record webauthn_prims =
  json_loads :: "pystr \<Rightarrow> json option"
  p256_point :: "bytes \<Rightarrow> bool"
  p256_verify :: "bytes \<Rightarrow> bytes \<Rightarrow> bytes \<Rightarrow> bool"
  b64url_nopad :: "bytes \<Rightarrow> pystr"

record assertion =
  as_auth_data :: bytes
  as_client_json :: bytes
  as_signature :: bytes
  as_key_id :: pystr

record stepup_context =
  sc_rp_id :: pystr
  sc_origin :: pystr

datatype key_type = ES256 | EdDSA

record credential =
  cr_type :: key_type
  cr_public_key :: bytes

text \<open>\<^verbatim>\<open>hmac.compare_digest\<close> of two strings.\<close>

definition compare_text :: "pystr \<Rightarrow> pystr \<Rightarrow> bool res" where
  "compare_text s t = require (list_all (\<lambda>c. c < 128) s \<and> list_all (\<lambda>c. c < 128) t) TypeError
     ''comparing strings with non-ASCII characters is not supported'' (Inr (s = t))"

section \<open>The checks on an assertion\<close>

definition client_data :: "webauthn_prims \<Rightarrow> assertion \<Rightarrow> (pystr \<times> json) list res" where
  "client_data W a =
     rbind (of_option StepUpError ''client_data_json is not valid UTF-8'' (utf8_decode (as_client_json a))) (\<lambda>s.
     rbind (of_option StepUpError ''client_data_json is not valid JSON'' (json_loads W s)) (\<lambda>j.
     case j of JObj d \<Rightarrow> Inr d | _ \<Rightarrow> raise StepUpError ''client_data_json must be a JSON object''))"

definition check_credential_key :: "webauthn_prims \<Rightarrow> credential \<Rightarrow> unit res" where
  "check_credential_key W cr = (case cr_type cr of
     EdDSA \<Rightarrow> require (length (cr_public_key cr) = 32) StepUpError ''EdDSA credential public key must be 32 bytes'' (Inr ())
   | ES256 \<Rightarrow> require (length (cr_public_key cr) = 65 \<and> cr_public_key cr ! 0 = 4) StepUpError
       ''ES256 credential public key must be a 65-byte uncompressed point''
       (require (p256_point W (cr_public_key cr)) StepUpError ''invalid ES256 credential public key'' (Inr ())))"

definition verify_signature :: "prims \<Rightarrow> webauthn_prims \<Rightarrow> credential \<Rightarrow> bytes \<Rightarrow> bytes \<Rightarrow> unit res" where
  "verify_signature P W cr sig m = (case cr_type cr of
     EdDSA \<Rightarrow> require (length sig = 64) StepUpError ''EdDSA assertion signature must be 64 bytes''
       (require (ed_verify P (cr_public_key cr) sig m) StepUpError ''assertion signature verification failed'' (Inr ()))
   | ES256 \<Rightarrow> require (p256_verify W (cr_public_key cr) sig m) StepUpError ''assertion signature verification failed'' (Inr ()))"

definition sign_count_of :: "assertion \<Rightarrow> nat" where
  "sign_count_of a = from_be (take 4 (drop 33 (as_auth_data a)))"

definition signed_data :: "prims \<Rightarrow> assertion \<Rightarrow> bytes" where
  "signed_data P a = as_auth_data a @ sha256 P (as_client_json a)"

definition verify_assertion_core :: "prims \<Rightarrow> webauthn_prims \<Rightarrow> bytes \<Rightarrow> assertion \<Rightarrow> stepup_context \<Rightarrow> credential \<Rightarrow> nat
    \<Rightarrow> nat res" where
  "verify_assertion_core P W challenge a ctx cr last_count =
     require (37 \<le> length (as_auth_data a)) StepUpError ''authenticator_data too short''
     (rbind (utf8_encode (sc_rp_id ctx)) (\<lambda>rp.
      require (take 32 (as_auth_data a) = sha256 P rp) StepUpError ''rpIdHash does not match this relying party''
     (require (odd (unat (as_auth_data a ! 32))) StepUpError ''user presence (UP) flag not set''
     (rbind (client_data W a) (\<lambda>d.
      require (map_of d (py ''type'') = Some (JStr (py ''webauthn.get''))) StepUpError ''client_data type must be webauthn.get''
     (rbind (case map_of d (py ''challenge'') of Some (JStr c) \<Rightarrow> compare_text c (b64url_nopad W challenge) | _ \<Rightarrow> Inr False) (\<lambda>same.
      require same StepUpError ''assertion challenge does not match''
     (require (map_of d (py ''origin'') = Some (JStr (sc_origin ctx))) StepUpError ''assertion origin does not match''
     (rbind (check_credential_key W cr) (\<lambda>_.
      rbind (verify_signature P W cr (as_signature a) (signed_data P a)) (\<lambda>_.
      require (last_count < sign_count_of a) StepUpError ''signCount rollback'' (Inr (sign_count_of a)))))))))))))"

text \<open>The presented digest, read without any check.\<close>

definition assertion_action_digest :: "webauthn_prims \<Rightarrow> assertion \<Rightarrow> pystr option" where
  "assertion_action_digest W a = (case client_data W a of Inl e \<Rightarrow> None
     | Inr d \<Rightarrow> (case map_of d (py ''action_digest'') of Some (JStr s) \<Rightarrow> Some s | _ \<Rightarrow> None))"

section \<open>Authenticators\<close>

record software_auth =
  sw_key_id :: pystr
  sw_context :: stepup_context
  sw_signer :: signer
  sw_device_count :: nat
  sw_last_seen :: nat

record hardware_auth =
  hw_context :: stepup_context
  hw_registry :: "pystr \<rightharpoonup> credential"
  hw_counts :: "pystr \<Rightarrow> nat"

datatype authenticator = Software software_auth | Hardware hardware_auth

definition new_software :: "pystr \<Rightarrow> stepup_context \<Rightarrow> signer \<Rightarrow> software_auth" where
  "new_software k ctx sg = \<lparr>sw_key_id = k, sw_context = ctx, sw_signer = sg, sw_device_count = 0, sw_last_seen = 0\<rparr>"

definition new_hardware :: "stepup_context \<Rightarrow> (pystr \<rightharpoonup> credential) \<Rightarrow> hardware_auth res" where
  "new_hardware ctx reg =
     require (sc_rp_id ctx \<noteq> []) StepUpError ''rp_id must be non-empty''
    (require (sc_origin ctx \<noteq> []) StepUpError ''origin must be non-empty''
    (require (reg \<noteq> Map.empty) StepUpError ''registration registry must not be empty''
      (Inr \<lparr>hw_context = ctx, hw_registry = reg, hw_counts = (\<lambda>_. 0)\<rparr>)))"

fun binds_action_digest :: "authenticator \<Rightarrow> bool" where
  "binds_action_digest (Software s) = True"
| "binds_action_digest (Hardware h) = False"

fun verify_assertion :: "prims \<Rightarrow> webauthn_prims \<Rightarrow> bytes \<Rightarrow> assertion \<Rightarrow> stepup_context \<Rightarrow> authenticator
    \<Rightarrow> (pystr \<times> authenticator) res" where
  "verify_assertion P W challenge a ctx (Software s) =
     require (as_key_id a = sw_key_id s) StepUpError ''unknown credential for this authenticator''
    (require (ctx = sw_context s) StepUpError ''verification context does not match this authenticator''
    (rbind (verify_assertion_core P W challenge a ctx
        \<lparr>cr_type = EdDSA, cr_public_key = public_key_bytes (sw_signer s)\<rparr> (sw_last_seen s)) (\<lambda>n.
     Inr (sw_key_id s, Software (s\<lparr>sw_last_seen := n\<rparr>)))))"
| "verify_assertion P W challenge a ctx (Hardware h) =
     rbind (of_option StepUpError ''credential is not registered'' (hw_registry h (as_key_id a))) (\<lambda>cr.
     require (ctx = hw_context h) StepUpError ''verification context does not match this verifier''
    (rbind (verify_assertion_core P W challenge a ctx cr (hw_counts h (as_key_id a))) (\<lambda>n.
     Inr (as_key_id a, Hardware (h\<lparr>hw_counts := (hw_counts h)(as_key_id a := n)\<rparr>)))))"

section \<open>The software device\<close>

text \<open>\<^verbatim>\<open>json.dumps\<close> of a dict of strings, with \<^verbatim>\<open>ensure_ascii\<close>.\<close>

definition u_escape :: "nat \<Rightarrow> pystr" where
  "u_escape c = [92, 117, hex_digit (c div 4096 mod 16), hex_digit (c div 256 mod 16), hex_digit (c div 16 mod 16),
     hex_digit (c mod 16)]"

definition ascii_escape :: "nat \<Rightarrow> pystr" where
  "ascii_escape c =
     (if c = 34 \<or> c = 92 then [92, c] else if 32 \<le> c \<and> c \<le> 126 then [c]
      else if c = 10 then [92, 110] else if c = 13 then [92, 114] else if c = 9 then [92, 116]
      else if c = 12 then [92, 102] else if c = 8 then [92, 98]
      else if c < 0x10000 then u_escape c
      else u_escape (0xD800 + (c - 0x10000) div 1024) @ u_escape (0xDC00 + (c - 0x10000) mod 1024))"

definition ascii_string :: "pystr \<Rightarrow> pystr" where
  "ascii_string s = [34] @ concat (map ascii_escape s) @ [34]"

definition dumps_strings :: "(pystr \<times> pystr) list \<Rightarrow> pystr" where
  "dumps_strings kvs = [123] @ comma_join (map (\<lambda>(k, v). ascii_string k @ [58] @ ascii_string v) kvs) @ [125]"

definition client_fields :: "webauthn_prims \<Rightarrow> bytes \<Rightarrow> pystr \<Rightarrow> pystr option \<Rightarrow> (pystr \<times> pystr) list" where
  "client_fields W challenge origin dig = [(py ''type'', py ''webauthn.get''), (py ''challenge'', b64url_nopad W challenge),
     (py ''origin'', origin)] @ (case dig of None \<Rightarrow> [] | Some d \<Rightarrow> [(py ''action_digest'', d)])"

definition mint_assertion :: "prims \<Rightarrow> webauthn_prims \<Rightarrow> bytes \<Rightarrow> pystr option \<Rightarrow> nat \<Rightarrow> software_auth \<Rightarrow> assertion res" where
  "mint_assertion P W challenge dig n s =
     rbind (utf8_encode (sc_rp_id (sw_context s))) (\<lambda>rp.
     require (n < 2 ^ 32) OverflowError ''int too big to convert''
     (let ad = sha256 P rp @ [1] @ to_be 4 n in
      rbind (utf8_encode (dumps_strings (client_fields W challenge (sc_origin (sw_context s)) dig))) (\<lambda>cd.
      Inr \<lparr>as_auth_data = ad, as_client_json = cd, as_signature = sign_bytes (sw_signer s) (ad @ sha256 P cd),
           as_key_id = sw_key_id s\<rparr>)))"

definition create_assertion :: "prims \<Rightarrow> webauthn_prims \<Rightarrow> bytes \<Rightarrow> pystr option \<Rightarrow> software_auth
    \<Rightarrow> assertion res \<times> software_auth" where
  "create_assertion P W challenge dig s =
     (if length challenge \<noteq> 32 then (raise StepUpError ''challenge must be 32 bytes'', s)
      else if dig = Some [] then (raise StepUpError ''action_digest must be a non-empty string'', s)
      else let n = Suc (sw_device_count s) in (mint_assertion P W challenge dig n s, s\<lparr>sw_device_count := n\<rparr>))"

end
