(* ===== verification/Stepup.thy ===== *)
theory Stepup
  imports Webauthn Cose Single_Use
begin

text \<open>
  The quorum approvals of \<^verbatim>\<open>stepup.py\<close>: the process-wide registries of burned and
  of in-flight challenges, the quorum object with its approvals, and the signed approval record.
  Objects are named by numbers; an operation is one step of the process.
\<close>

section \<open>State\<close>

record quorum =
  q_m :: int
  q_n :: int
  q_approvals :: "(pystr \<times> pystr \<times> bytes) list"
  q_digest :: "pystr option"
  q_challenge :: "bytes option"
  q_finalized :: bool
  q_abandoned :: bool

record stepup_state =
  burned :: "bytes set"
  in_flight :: "bytes \<rightharpoonup> nat"
  quorums :: "nat \<rightharpoonup> quorum"
  next_quorum :: nat
  authenticators :: "nat \<rightharpoonup> authenticator"

definition new_quorum :: "int \<Rightarrow> int \<Rightarrow> stepup_state \<Rightarrow> nat res \<times> stepup_state" where
  "new_quorum m n s =
     (if m < 1 then (raise QuorumError ''quorum m must be >= 1'', s)
      else if n < 1 then (raise QuorumError ''quorum n must be >= 1'', s)
      else if n < m then (raise QuorumError ''quorum m must be <= n'', s)
      else (Inr (next_quorum s), s\<lparr>next_quorum := Suc (next_quorum s), quorums := (quorums s)(next_quorum s \<mapsto>
        \<lparr>q_m = m, q_n = n, q_approvals = [], q_digest = None, q_challenge = None, q_finalized = False, q_abandoned = False\<rparr>)\<rparr>))"

definition get_quorum :: "nat \<Rightarrow> stepup_state \<Rightarrow> quorum res" where
  "get_quorum q s = of_option KeyError ''no such quorum'' (quorums s q)"

section \<open>Approving\<close>

text \<open>The guards of \<^verbatim>\<open>approve\<close> before the assertion is verified.\<close>

definition approve_guards :: "nat \<Rightarrow> bytes \<Rightarrow> pystr \<Rightarrow> stepup_state \<Rightarrow> unit res" where
  "approve_guards q challenge dig s =
     rbind (get_quorum q s) (\<lambda>Q.
     require (length challenge = 32) QuorumError ''challenge must be 32 bytes''
    (require (dig \<noteq> []) QuorumError ''action_digest must be a non-empty string''
    (require (\<not> q_finalized Q) QuorumError ''quorum is sealed: already finalized''
    (require (\<not> q_abandoned Q) QuorumError ''quorum was abandoned''
    (require (challenge \<notin> burned s) QuorumError ''challenge was already finalized by another quorum'' (Inr ()))))))"

text \<open>The verification, which moves the signature counter, and the binding of the action.\<close>

definition approve_verify :: "prims \<Rightarrow> webauthn_prims \<Rightarrow> nat \<Rightarrow> bytes \<Rightarrow> assertion \<Rightarrow> pystr \<Rightarrow> stepup_context \<Rightarrow> stepup_state
    \<Rightarrow> pystr res \<times> stepup_state" where
  "approve_verify P W a challenge assn dig ctx s =
     (case authenticators s a of
        None \<Rightarrow> (raise KeyError ''no such authenticator'', s)
      | Some auth \<Rightarrow> (case verify_assertion P W challenge assn ctx auth of
          Inl e \<Rightarrow> (Inl e, s)
        | Inr (k, auth') \<Rightarrow>
            (if binds_action_digest auth then
               rbind (case assertion_action_digest W assn of None \<Rightarrow> Inr False | Some b \<Rightarrow> compare_text b dig) (\<lambda>same.
               require same QuorumError ''assertion's signed clientDataJSON does not bind this quorum's action_digest'' (Inr k))
             else Inr k,
             s\<lparr>authenticators := (authenticators s)(a \<mapsto> auth')\<rparr>)))"

text \<open>
  Recording: the first approval claims the challenge for the quorum and binds both; the later
  ones must agree. The registry is written before the last guard.
\<close>

definition claim_in_flight :: "nat \<Rightarrow> bytes \<Rightarrow> stepup_state \<Rightarrow> stepup_state res" where
  "claim_in_flight q challenge s =
     require (in_flight s challenge = None \<or> in_flight s challenge = Some q) QuorumError
       ''challenge is already in-flight in another live quorum'' (Inr (s\<lparr>in_flight := (in_flight s)(challenge \<mapsto> q)\<rparr>))"

definition put_quorum :: "nat \<Rightarrow> quorum \<Rightarrow> stepup_state \<Rightarrow> stepup_state" where
  "put_quorum q Q s = s\<lparr>quorums := (quorums s)(q \<mapsto> Q)\<rparr>"

definition bind_quorum :: "nat \<Rightarrow> bytes \<Rightarrow> pystr \<Rightarrow> quorum \<Rightarrow> stepup_state \<Rightarrow> (quorum \<times> stepup_state) res" where
  "bind_quorum q challenge dig Q s =
     (case q_digest Q of
        None \<Rightarrow> rbind (claim_in_flight q challenge s) (\<lambda>s'.
          let Q' = Q\<lparr>q_digest := Some dig, q_challenge := Some challenge\<rparr> in Inr (Q', put_quorum q Q' s'))
      | Some d \<Rightarrow> require (dig = d \<and> q_challenge Q = Some challenge) QuorumError
          ''approval binds a different action_digest/challenge than this quorum'' (Inr (Q, s)))"

definition approve_record :: "nat \<Rightarrow> pystr \<Rightarrow> bytes \<Rightarrow> pystr \<Rightarrow> stepup_state \<Rightarrow> pystr res \<times> stepup_state" where
  "approve_record q k challenge dig s =
     (case get_quorum q s of
        Inl e \<Rightarrow> (Inl e, s)
      | Inr Q \<Rightarrow>
          if k \<in> fst ` set (q_approvals Q) then (raise QuorumError ''duplicate approval: already counted'', s)
          else (case bind_quorum q challenge dig Q s of
              Inl e \<Rightarrow> (Inl e, s)
            | Inr (Q', s') \<Rightarrow>
                if q_n Q' \<le> int (length (q_approvals Q')) then (raise QuorumError ''quorum already holds n approvals'', s')
                else (Inr k, put_quorum q (Q'\<lparr>q_approvals := q_approvals Q' @ [(k, dig, challenge)]\<rparr>) s')))"

definition approve :: "prims \<Rightarrow> webauthn_prims \<Rightarrow> nat \<Rightarrow> nat \<Rightarrow> bytes \<Rightarrow> assertion \<Rightarrow> pystr \<Rightarrow> stepup_context \<Rightarrow> stepup_state
    \<Rightarrow> pystr res \<times> stepup_state" where
  "approve P W q a challenge assn dig ctx s =
     (case approve_guards q challenge dig s of
        Inl e \<Rightarrow> (Inl e, s)
      | Inr _ \<Rightarrow> (case approve_verify P W a challenge assn dig ctx s of
          (Inl e, s') \<Rightarrow> (Inl e, s')
        | (Inr k, s') \<Rightarrow> approve_record q k challenge dig s'))"

section \<open>Abandoning and finalizing\<close>

definition is_satisfied :: "quorum \<Rightarrow> bool" where
  "is_satisfied Q \<longleftrightarrow> \<not> q_abandoned Q \<and> q_m Q \<le> int (length (q_approvals Q)) \<and>
     length (remdups (map (\<lambda>(k, d, c). d) (q_approvals Q))) = 1 \<and>
     length (remdups (map (\<lambda>(k, d, c). c) (q_approvals Q))) = 1"

definition release_in_flight :: "nat \<Rightarrow> stepup_state \<Rightarrow> stepup_state" where
  "release_in_flight q s = s\<lparr>in_flight := (\<lambda>c. if in_flight s c = Some q then None else in_flight s c)\<rparr>"

definition abandon :: "nat \<Rightarrow> stepup_state \<Rightarrow> unit res \<times> stepup_state" where
  "abandon q s =
     (case get_quorum q s of
        Inl e \<Rightarrow> (Inl e, s)
      | Inr Q \<Rightarrow> if q_finalized Q then (raise QuorumError ''quorum is sealed: already finalized; cannot abandon'', s)
          else if q_abandoned Q then (Inr (), s)
          else (Inr (), release_in_flight q (put_quorum q (Q\<lparr>q_abandoned := True\<rparr>) s)))"

text \<open>The time of the decision; a naive time counts as UTC.\<close>

definition decision_moment :: "int \<Rightarrow> datetime option \<Rightarrow> int" where
  "decision_moment tick d = (case d of None \<Rightarrow> tick | Some t \<Rightarrow> as_utc t)"

definition record_payload :: "prims \<Rightarrow> quorum \<Rightarrow> pystr \<Rightarrow> bytes \<Rightarrow> int \<Rightarrow> pyval" where
  "record_payload P Q dig challenge t = PDict
     [(PStr (py ''action_digest''), PStr dig), (PStr (py ''challenge''), PBytes challenge), (PStr (py ''m''), PInt (q_m Q)),
      (PStr (py ''n''), PInt (q_n Q)), (PStr (py ''approver_key_ids''), PList (map PStr (sort (map fst (q_approvals Q))))),
      (PStr (py ''decided_at''), PStr (isoformat P t))]"

definition sign_record :: "prims \<Rightarrow> signer \<Rightarrow> pyval \<Rightarrow> bytes res" where
  "sign_record P issuer v = rbind (cbor_dumps v) (\<lambda>b. rbind (utf8_encode (key_id issuer)) (\<lambda>kid.
     cose_sign_bytes b (sign_bytes issuer) kid []))"

text \<open>The answer names what the record is over.\<close>

definition finalize :: "prims \<Rightarrow> int \<Rightarrow> nat \<Rightarrow> signer \<Rightarrow> datetime option \<Rightarrow> stepup_state
    \<Rightarrow> (pystr \<times> bytes \<times> bytes) res \<times> stepup_state" where
  "finalize P tick q issuer decided s =
     (case get_quorum q s of
        Inl e \<Rightarrow> (Inl e, s)
      | Inr Q \<Rightarrow> if q_finalized Q then (raise QuorumError ''quorum is sealed: already finalized'', s)
          else if q_abandoned Q then (raise QuorumError ''quorum was abandoned: cannot finalize'', s)
          else if \<not> is_satisfied Q then (raise QuorumError ''cannot finalize'', s)
          else (case (q_digest Q, q_challenge Q) of
              (Some dig, Some challenge) \<Rightarrow>
                (case sign_record P issuer (record_payload P Q dig challenge (decision_moment tick decided)) of
                   Inl e \<Rightarrow> (Inl e, s)
                 | Inr rec \<Rightarrow> (Inr (dig, challenge, rec), put_quorum q (Q\<lparr>q_finalized := True\<rparr>)
                     (release_in_flight q (s\<lparr>burned := insert challenge (burned s)\<rparr>))))
            | _ \<Rightarrow> (raise TypeError ''unbound quorum'', s)))"

section \<open>Approval records\<close>

record approval_record =
  ar_action_digest :: pystr
  ar_challenge :: bytes
  ar_m :: int
  ar_n :: int
  ar_approvers :: "pystr list"
  ar_decided_at :: datetime

text \<open>
  \<^verbatim>\<open>model_validate\<close> reads the fields with pydantic's conversions, a parameter that is
  given the validator \<^verbatim>\<open>_coerce_datetime\<close> for texts; the shape is checked after it.
\<close>

definition coerce_datetime :: "prims \<Rightarrow> pystr \<Rightarrow> datetime option" where
  "coerce_datetime P v = (case fromisoformat P v of Some (Naive t) \<Rightarrow> Some (Aware t 0) | r \<Rightarrow> r)"

definition quorum_shape :: "approval_record \<Rightarrow> bool" where
  "quorum_shape r \<longleftrightarrow> 1 \<le> ar_m r \<and> ar_m r \<le> ar_n r \<and> distinct (ar_approvers r) \<and> ar_approvers r = sort (ar_approvers r) \<and>
     ar_m r \<le> int (length (ar_approvers r)) \<and> ar_action_digest r \<noteq> [] \<and> length (ar_challenge r) = 32"

type_synonym record_reader = "(pystr \<Rightarrow> datetime option) \<Rightarrow> pyval \<Rightarrow> approval_record option"

definition issuer_keys :: "(pystr \<times> bytes) list \<Rightarrow> trust res" where
  "issuer_keys issuers =
     except ValueError QuorumError ''bad trusted issuer key material''
       (rbind (rmap (\<lambda>(kid, raw). rbind (utf8_encode kid) (\<lambda>k.
          require (length raw = 32) ValueError ''An Ed25519 public key is 32 bytes long'' (Inr (k, raw)))) issuers)
        (\<lambda>ks. Inr (map_of (rev ks))))"

definition verify_approval_record :: "prims \<Rightarrow> record_reader \<Rightarrow> bytes \<Rightarrow> (pystr \<times> bytes) list \<Rightarrow> approval_record res" where
  "verify_approval_record P read_fields data issuers =
     rbind (issuer_keys issuers) (\<lambda>keys.
     rbind (except COSEError QuorumError ''approval record COSE verification failed'' (cose_verify P (PBytes data) keys [])) (\<lambda>(pl, _).
     rbind (except CBORError QuorumError ''approval record payload is not valid CBOR'' (cbor_loads pl)) (\<lambda>v.
     rbind (of_option QuorumError ''approval record schema invalid'' (read_fields (coerce_datetime P) v)) (\<lambda>r.
     require (quorum_shape r) QuorumError ''approval record schema invalid'' (Inr r)))))"

definition check_approval_binding :: "approval_record \<Rightarrow> pystr \<Rightarrow> unit res" where
  "check_approval_binding r expected =
     require (expected \<noteq> []) QuorumError ''expected_action_digest must be a non-empty string''
     (rbind (compare_text (ar_action_digest r) expected) (\<lambda>same.
      require same QuorumError ''approval record action_digest does not match the action being authorized'' (Inr ())))"

section \<open>The process\<close>

datatype stepup_op =
    NewQuorum int int
  | Approve nat nat bytes assertion pystr stepup_context
  | Abandon nat
  | Finalize int nat signer "datetime option"

datatype stepup_answer = Created nat | Approved pystr | Abandoned | Finalized pystr bytes bytes

definition answer :: "('a \<Rightarrow> stepup_answer) \<Rightarrow> 'a res \<times> stepup_state \<Rightarrow> stepup_answer res \<times> stepup_state" where
  "answer f r = (case r of (Inl e, s) \<Rightarrow> (Inl e, s) | (Inr x, s) \<Rightarrow> (Inr (f x), s))"

fun serve_stepup :: "prims \<Rightarrow> webauthn_prims \<Rightarrow> stepup_op \<Rightarrow> stepup_state \<Rightarrow> stepup_answer res \<times> stepup_state" where
  "serve_stepup P W (NewQuorum m n) s = answer Created (new_quorum m n s)"
| "serve_stepup P W (Approve q a challenge assn dig ctx) s = answer Approved (approve P W q a challenge assn dig ctx s)"
| "serve_stepup P W (Abandon q) s = answer (\<lambda>_. Abandoned) (abandon q s)"
| "serve_stepup P W (Finalize tick q issuer decided) s =
     answer (\<lambda>(d, c, r). Finalized d c r) (finalize P tick q issuer decided s)"

definition new_process :: "(nat \<rightharpoonup> authenticator) \<Rightarrow> stepup_state" where
  "new_process auths = \<lparr>burned = {}, in_flight = Map.empty, quorums = Map.empty, next_quorum = 0, authenticators = auths\<rparr>"

end
