(* ===== verification/Stepup_Laws.thy ===== *)
theory Stepup_Laws
  imports Stepup
begin

text \<open>
  What an accepted assertion guarantees, what the operations of the approval process do to its
  registries, and the two things the process lets be used once: the pair of a credential and its
  signature count, and the challenge of a finalized quorum.
\<close>

section \<open>Assertions\<close>

text \<open>What an assertion must be, whatever the counter says.\<close>

definition assertion_valid :: "prims \<Rightarrow> webauthn_prims \<Rightarrow> bytes \<Rightarrow> assertion \<Rightarrow> stepup_context \<Rightarrow> credential \<Rightarrow> bool" where
  "assertion_valid P W challenge a ctx cr \<longleftrightarrow>
     37 \<le> length (as_auth_data a) \<and>
     (\<exists>rp. utf8_encode (sc_rp_id ctx) = Inr rp \<and> take 32 (as_auth_data a) = sha256 P rp) \<and>
     odd (unat (as_auth_data a ! 32)) \<and>
     (\<exists>d. client_data W a = Inr d \<and> map_of d (py ''type'') = Some (JStr (py ''webauthn.get'')) \<and>
        map_of d (py ''origin'') = Some (JStr (sc_origin ctx)) \<and>
        map_of d (py ''challenge'') = Some (JStr (b64url_nopad W challenge)) \<and>
        list_all (\<lambda>c. c < 128) (b64url_nopad W challenge)) \<and>
     check_credential_key W cr = Inr () \<and> verify_signature P W cr (as_signature a) (signed_data P a) = Inr ()"

lemma compare_text_ok [simp, ok_elims]:
  "compare_text s t = Inr b \<longleftrightarrow> list_all (\<lambda>c. c < 128) s \<and> list_all (\<lambda>c. c < 128) t \<and> b = (s = t)"
  by (auto simp: compare_text_def)

lemma challenge_matches: "(case x of Some (JStr c) \<Rightarrow> compare_text c t | _ \<Rightarrow> Inr False) = Inr True \<longleftrightarrow>
    x = Some (JStr t) \<and> list_all (\<lambda>c. c < 128) t"
  by (auto split: option.splits json.splits)

lemma core_eq:
  "verify_assertion_core P W challenge a ctx cr last_count = Inr n \<longleftrightarrow>
   assertion_valid P W challenge a ctx cr \<and> last_count < sign_count_of a \<and> n = sign_count_of a"
  unfolding verify_assertion_core_def assertion_valid_def
  by (auto simp: challenge_matches [symmetric])

lemma core_rollback:
  "assertion_valid P W challenge a ctx cr \<Longrightarrow> sign_count_of a \<le> last_count \<Longrightarrow>
   verify_assertion_core P W challenge a ctx cr last_count = raise StepUpError ''signCount rollback''"
  unfolding verify_assertion_core_def assertion_valid_def by (auto simp: compare_text_def)

text \<open>The credential an authenticator holds for a key id, and the last count it accepted from it.\<close>

fun credential_of :: "authenticator \<Rightarrow> pystr \<Rightarrow> credential option" where
  "credential_of (Software s) k = (if k = sw_key_id s
     then Some \<lparr>cr_type = EdDSA, cr_public_key = public_key_bytes (sw_signer s)\<rparr> else None)"
| "credential_of (Hardware h) k = hw_registry h k"

fun context_of :: "authenticator \<Rightarrow> stepup_context" where
  "context_of (Software s) = sw_context s"
| "context_of (Hardware h) = hw_context h"

fun last_count :: "authenticator \<Rightarrow> pystr \<Rightarrow> nat" where
  "last_count (Software s) k = (if k = sw_key_id s then sw_last_seen s else 0)"
| "last_count (Hardware h) k = hw_counts h k"

lemma verify_assertion_ok:
  assumes "verify_assertion P W challenge a ctx auth = Inr (k, auth')"
  shows "k = as_key_id a \<and> ctx = context_of auth \<and>
    (\<exists>cr. credential_of auth k = Some cr \<and> assertion_valid P W challenge a ctx cr) \<and>
    last_count auth k < sign_count_of a \<and> last_count auth' = (last_count auth)(k := sign_count_of a) \<and>
    credential_of auth' = credential_of auth \<and> context_of auth' = context_of auth \<and>
    binds_action_digest auth' = binds_action_digest auth"
  using assms by (cases auth) (auto simp: core_eq fun_eq_iff)

section \<open>Signature counts\<close>

lemma bind_quorum_frame:
  "bind_quorum q challenge dig Q s = Inr (Q', s') \<Longrightarrow> authenticators s' = authenticators s \<and> burned s' = burned s"
  by (auto simp: bind_quorum_def claim_in_flight_def put_quorum_def Let_def split: option.splits)

lemma authenticators_frame [simp]:
  "authenticators (snd (new_quorum m n s)) = authenticators s"
  "authenticators (snd (abandon q s)) = authenticators s"
  "authenticators (snd (finalize P tick q issuer decided s)) = authenticators s"
  "authenticators (snd (approve_record q k challenge dig s)) = authenticators s"
  by (auto simp: new_quorum_def abandon_def finalize_def approve_record_def put_quorum_def release_in_flight_def
      dest: bind_quorum_frame split: sum.splits option.splits prod.splits)

lemma snd_answer [simp]: "snd (answer f r) = snd r"
  by (auto simp: answer_def split: prod.splits sum.splits)

lemma answer_eq: "answer f r = (Inr x, s) \<longleftrightarrow> (\<exists>y. r = (Inr y, s) \<and> x = f y)"
  by (auto simp: answer_def split: prod.splits sum.splits)

lemma approve_verify_cases:
  obtains (nothing) e where "approve_verify P W a challenge assn dig ctx s = (Inl e, s)"
  | (counted) auth k auth' r where "approve_verify P W a challenge assn dig ctx s =
        (r, s\<lparr>authenticators := (authenticators s)(a \<mapsto> auth')\<rparr>)"
      "authenticators s a = Some auth" "verify_assertion P W challenge assn ctx auth = Inr (k, auth')"
      "\<And>k'. r = Inr k' \<Longrightarrow> k' = k \<and> (binds_action_digest auth \<longrightarrow> assertion_action_digest W assn = Some dig)"
proof (cases "\<exists>auth k auth'. authenticators s a = Some auth \<and> verify_assertion P W challenge assn ctx auth = Inr (k, auth')")
  case True
  then obtain auth k auth' where a: "authenticators s a = Some auth"
    and v: "verify_assertion P W challenge assn ctx auth = Inr (k, auth')" by blast
  show ?thesis
  proof (rule counted [OF _ a v])
    show "approve_verify P W a challenge assn dig ctx s =
      (fst (approve_verify P W a challenge assn dig ctx s), s\<lparr>authenticators := (authenticators s)(a \<mapsto> auth')\<rparr>)"
      by (simp add: approve_verify_def a v)
    show "k' = k \<and> (binds_action_digest auth \<longrightarrow> assertion_action_digest W assn = Some dig)"
      if "fst (approve_verify P W a challenge assn dig ctx s) = Inr k'" for k'
      using that by (auto simp: approve_verify_def a v split: if_splits option.splits)
  qed
next
  case False
  show ?thesis
  proof (cases "authenticators s a")
    case None
    show ?thesis by (rule nothing) (simp add: approve_verify_def None)
  next
    case (Some auth)
    with False obtain e where "verify_assertion P W challenge assn ctx auth = Inl e"
      by (cases "verify_assertion P W challenge assn ctx auth") auto
    with Some have "approve_verify P W a challenge assn dig ctx s = (Inl e, s)" by (simp add: approve_verify_def)
    then show ?thesis by (rule nothing)
  qed
qed

text \<open>The state an approval leaves: its counter may have moved, and it may have been recorded.\<close>

lemma approve_cases:
  obtains (refused) e where "approve P W q a challenge assn dig ctx s = (Inl e, s)"
  | (counted) auth k auth' r s1 where "authenticators s a = Some auth"
      "verify_assertion P W challenge assn ctx auth = Inr (k, auth')"
      "s1 = s\<lparr>authenticators := (authenticators s)(a \<mapsto> auth')\<rparr>"
      "approve_guards q challenge dig s = Inr ()"
      "approve P W q a challenge assn dig ctx s = (r, snd (approve P W q a challenge assn dig ctx s))"
      "(isl r \<and> snd (approve P W q a challenge assn dig ctx s) = s1) \<or>
       ((binds_action_digest auth \<longrightarrow> assertion_action_digest W assn = Some dig) \<and>
        approve P W q a challenge assn dig ctx s = approve_record q k challenge dig s1)"
proof (cases "approve_guards q challenge dig s")
  case (Inl e)
  then show ?thesis by (intro refused [of e]) (simp add: approve_def)
next
  case (Inr u)
  show ?thesis
  proof (cases rule: approve_verify_cases [of P W a challenge assn dig ctx s])
    case (nothing e)
    with Inr show ?thesis by (intro refused [of e]) (simp add: approve_def)
  next
    case (counted auth k auth' r)
    show ?thesis
      by (rule that(2) [OF counted(2,3) refl, of "fst (approve P W q a challenge assn dig ctx s)"])
        (use counted Inr in \<open>auto simp: approve_def split: sum.splits\<close>)
  qed
qed

fun counted_use :: "stepup_op \<Rightarrow> stepup_answer \<Rightarrow> (nat \<times> pystr \<times> nat) option" where
  "counted_use (Approve q a challenge assn dig ctx) (Approved k) = Some (a, k, sign_count_of assn)"
| "counted_use _ _ = None"

definition counts_upto :: "stepup_state \<Rightarrow> (nat \<times> pystr \<times> nat) set" where
  "counts_upto s = {(a, k, n). \<exists>auth. authenticators s a = Some auth \<and> n \<le> last_count auth k}"

lemma counts_upto_step:
  "authenticators s a = Some auth \<Longrightarrow> verify_assertion P W challenge assn ctx auth = Inr (k, auth') \<Longrightarrow>
   authenticators s' = (authenticators s)(a \<mapsto> auth') \<Longrightarrow>
   counts_upto s \<subseteq> counts_upto s' \<and> (a, k, sign_count_of assn) \<notin> counts_upto s \<and> (a, k, sign_count_of assn) \<in> counts_upto s'"
  by (auto simp: counts_upto_def dest!: verify_assertion_ok split: if_splits)

lemma counts_upto_frame [simp]:
  "counts_upto (snd (new_quorum m n s)) = counts_upto s"
  "counts_upto (snd (abandon q s)) = counts_upto s"
  "counts_upto (snd (finalize P tick q issuer decided s)) = counts_upto s"
  by (simp_all add: counts_upto_def)

lemma approve_counts:
  "counts_upto s \<subseteq> counts_upto (snd (approve P W q a challenge assn dig ctx s)) \<and>
   (approve P W q a challenge assn dig ctx s = (Inr k, s') \<longrightarrow>
      (a, k, sign_count_of assn) \<notin> counts_upto s \<and> (a, k, sign_count_of assn) \<in> counts_upto s')"
proof (cases rule: approve_cases [of P W q a challenge assn dig ctx s])
  case (refused e)
  then show ?thesis by simp
next
  case (counted auth k0 auth' r s1)
  let ?s = "snd (approve P W q a challenge assn dig ctx s)"
  have auths: "authenticators ?s = (authenticators s)(a \<mapsto> auth')"
    using counted(3,6) authenticators_frame(4) [of q k challenge dig s1] by auto
  have "k = k0" if "approve P W q a challenge assn dig ctx s = (Inr k, s')"
    using counted(5,6) that by (auto simp: approve_record_def split: sum.splits if_splits)
  with counts_upto_step [OF counted(1,2) auths] show ?thesis by auto
qed

interpretation sign_counts: single_use "serve_stepup P W" counted_use counts_upto for P W
proof -
  have mono: "counts_upto s \<subseteq> counts_upto (snd (serve_stepup P W r s))" for r s
  proof (cases r)
    case (Approve q a challenge assn dig ctx)
    then show ?thesis using approve_counts by simp
  qed simp_all
  show "single_use (serve_stepup P W) counted_use counts_upto"
  proof
    fix r s e s' assume "serve_stepup P W r s = (Inl e, s')"
    with mono [of s r] show "counts_upto s \<subseteq> counts_upto s'" by simp
  next
    fix r s x s' assume "serve_stepup P W r s = (Inr x, s')"
    with mono [of s r] show "counts_upto s \<subseteq> counts_upto s'" by simp
  next
    fix r s x s' i assume "serve_stepup P W r s = (Inr x, s')" "counted_use r x = Some i"
    then show "i \<notin> counts_upto s \<and> i \<in> counts_upto s'"
      by (cases "(r, x)" rule: counted_use.cases) (use approve_counts in \<open>auto simp: answer_eq\<close>)
  qed
qed

section \<open>The invariant of the process\<close>

definition quorum_ok :: "quorum \<Rightarrow> bool" where
  "quorum_ok Q \<longleftrightarrow> 1 \<le> q_m Q \<and> q_m Q \<le> q_n Q \<and> int (length (q_approvals Q)) \<le> q_n Q \<and>
     distinct (map fst (q_approvals Q)) \<and>
     (\<forall>(k, d, c) \<in> set (q_approvals Q). q_digest Q = Some d \<and> q_challenge Q = Some c) \<and>
     (q_digest Q = None \<longleftrightarrow> q_challenge Q = None) \<and> (\<forall>d. q_digest Q = Some d \<longrightarrow> d \<noteq> []) \<and>
     (\<forall>c. q_challenge Q = Some c \<longrightarrow> length c = 32)"

lemma quorum_ok_flags [simp]:
  "quorum_ok (Q\<lparr>q_finalized := b\<rparr>) = quorum_ok Q" "quorum_ok (Q\<lparr>q_abandoned := b\<rparr>) = quorum_ok Q"
  by (simp_all add: quorum_ok_def)

definition live :: "quorum \<Rightarrow> bool" where
  "live Q \<longleftrightarrow> \<not> q_finalized Q \<and> \<not> q_abandoned Q"

text \<open>The in-flight registry holds exactly the challenges of the live bound quorums; none is burned.\<close>

definition process_ok :: "stepup_state \<Rightarrow> bool" where
  "process_ok s \<longleftrightarrow>
     (\<forall>q Q. quorums s q = Some Q \<longrightarrow> q < next_quorum s \<and> quorum_ok Q \<and>
        (\<forall>c. q_challenge Q = Some c \<longrightarrow> live Q \<longrightarrow> in_flight s c = Some q) \<and>
        (q_finalized Q \<longrightarrow> (\<exists>c. q_challenge Q = Some c \<and> c \<in> burned s))) \<and>
     (\<forall>c q. in_flight s c = Some q \<longrightarrow> c \<notin> burned s \<and> (\<exists>Q. quorums s q = Some Q \<and> live Q \<and> q_challenge Q = Some c))"

lemma process_okD:
  assumes "process_ok s" "quorums s q = Some Q"
  shows "q < next_quorum s" "quorum_ok Q" "q_challenge Q = Some c \<Longrightarrow> live Q \<Longrightarrow> in_flight s c = Some q"
    "q_finalized Q \<Longrightarrow> \<exists>c. q_challenge Q = Some c \<and> c \<in> burned s"
  using assms unfolding process_ok_def by blast+

lemma in_flightD:
  assumes "process_ok s" "in_flight s c = Some q"
  shows "c \<notin> burned s" "\<exists>Q. quorums s q = Some Q \<and> live Q \<and> q_challenge Q = Some c"
  using assms unfolding process_ok_def by blast+

lemma process_ok_auths [simp]: "process_ok (s\<lparr>authenticators := as\<rparr>) = process_ok s"
  by (simp add: process_ok_def)

lemma process_ok_new: "process_ok (new_process auths)"
  by (simp add: process_ok_def new_process_def)

lemma new_quorum_ok:
  assumes "process_ok s" shows "process_ok (snd (new_quorum m n s))"
proof -
  have "q \<noteq> next_quorum s" if "quorums s q = Some Q" for q Q using process_okD(1) [OF assms that] by simp
  then have fresh: "quorums s (next_quorum s) = None" by (cases "quorums s (next_quorum s)") auto
  moreover have "in_flight s c \<noteq> Some (next_quorum s)" for c using in_flightD(2) [OF assms, of c] fresh by auto
  moreover have "quorum_ok \<lparr>q_m = m, q_n = n, q_approvals = [], q_digest = None, q_challenge = None,
      q_finalized = False, q_abandoned = False\<rparr>" if "1 \<le> m" "m \<le> n"
    using that by (simp add: quorum_ok_def)
  ultimately show ?thesis
    using assms unfolding process_ok_def new_quorum_def by (auto simp: less_Suc_eq)
qed

text \<open>Changing one quorum, with the entries it holds in the registries.\<close>

lemma process_ok_update:
  assumes ok: "process_ok s" and q: "quorums s q = Some Q" and Q': "quorum_ok Q'"
    and s': "quorums s' = (quorums s)(q \<mapsto> Q')" "next_quorum s' = next_quorum s"
    and others: "\<And>c q'. q' \<noteq> q \<Longrightarrow> in_flight s' c = Some q' \<longleftrightarrow> in_flight s c = Some q'"
    and own: "\<And>c. in_flight s' c = Some q \<longleftrightarrow> live Q' \<and> q_challenge Q' = Some c"
    and burns: "\<And>c. c \<in> burned s' \<longleftrightarrow> c \<in> burned s \<or> q_finalized Q' \<and> q_challenge Q' = Some c"
    and free: "\<And>c q'. q_challenge Q' = Some c \<Longrightarrow> in_flight s c = Some q' \<Longrightarrow> q' = q"
    and unburned: "\<And>c. q_challenge Q' = Some c \<Longrightarrow> live Q' \<Longrightarrow> c \<notin> burned s"
    and bound: "q_finalized Q' \<Longrightarrow> q_challenge Q' \<noteq> None"
  shows "process_ok s'"
  unfolding process_ok_def
proof (intro conjI allI impI)
  fix p R assume p: "quorums s' p = Some R"
  have "p < next_quorum s' \<and> quorum_ok R \<and> (\<forall>c. q_challenge R = Some c \<longrightarrow> live R \<longrightarrow> in_flight s' c = Some p) \<and>
    (q_finalized R \<longrightarrow> (\<exists>c. q_challenge R = Some c \<and> c \<in> burned s'))"
  proof (cases "p = q")
    case True
    with p s' have "R = Q'" by simp
    with True show ?thesis using process_okD(1) [OF ok q] Q' own burns bound by (auto simp: s'(2))
  next
    case False
    with p s' have R: "quorums s p = Some R" by simp
    from process_okD [OF ok R] show ?thesis using others [OF False] burns by (auto simp: s'(2))
  qed
  then show "p < next_quorum s'" "quorum_ok R" "\<And>c. q_challenge R = Some c \<Longrightarrow> live R \<Longrightarrow> in_flight s' c = Some p"
    "q_finalized R \<Longrightarrow> \<exists>c. q_challenge R = Some c \<and> c \<in> burned s'" by blast+
next
  fix c p assume p: "in_flight s' c = Some p"
  have "c \<notin> burned s' \<and> (\<exists>R. quorums s' p = Some R \<and> live R \<and> q_challenge R = Some c)"
  proof (cases "p = q")
    case True
    with p own unburned burns show ?thesis by (auto simp: s'(1) live_def)
  next
    case False
    with p others have f: "in_flight s c = Some p" by simp
    from in_flightD [OF ok f] False free [OF _ f] burns show ?thesis by (auto simp: s'(1))
  qed
  then show "c \<notin> burned s'" "\<exists>R. quorums s' p = Some R \<and> live R \<and> q_challenge R = Some c" by blast+
qed

text \<open>The entries of a quorum in the registry of challenges in flight.\<close>

lemma in_flight_own:
  assumes "process_ok s" "quorums s q = Some Q"
  shows "in_flight s c = Some q \<longleftrightarrow> live Q \<and> q_challenge Q = Some c"
  using process_okD(3) [OF assms] in_flightD(2) [OF assms(1)] assms(2) by fastforce

lemma in_flight_unique:
  "process_ok s \<Longrightarrow> quorums s q = Some Q \<Longrightarrow> live Q \<Longrightarrow> q_challenge Q = Some c \<Longrightarrow> in_flight s c = Some q' \<Longrightarrow> q' = q"
  using process_okD(3) [of s q Q c] by simp

lemma bind_quorum_ok:
  assumes "process_ok s" "quorums s q = Some Q" "live Q" "challenge \<notin> burned s" "length challenge = 32" "dig \<noteq> []"
    and "bind_quorum q challenge dig Q s = Inr (Q', s')"
  shows "process_ok s' \<and> quorums s' q = Some Q' \<and> live Q' \<and> q_digest Q' = Some dig \<and> q_challenge Q' = Some challenge \<and>
    q_approvals Q' = q_approvals Q \<and> burned s' = burned s"
proof (cases "q_digest Q")
  case None
  have Q: "quorum_ok Q" by (rule process_okD(2) [OF assms(1,2)])
  with None have c: "q_challenge Q = None" by (auto simp: quorum_ok_def)
  have empty: "q_approvals Q = []" using Q None by (cases "q_approvals Q") (auto simp: quorum_ok_def)
  from assms(7) None have claim: "in_flight s challenge = None \<or> in_flight s challenge = Some q"
    and Q': "Q' = Q\<lparr>q_digest := Some dig, q_challenge := Some challenge\<rparr>"
    and s': "s' = put_quorum q Q' (s\<lparr>in_flight := (in_flight s)(challenge \<mapsto> q)\<rparr>)"
    by (auto simp: bind_quorum_def claim_in_flight_def Let_def)
  have free: "in_flight s challenge = None"
    using claim in_flightD(2) [OF assms(1), of challenge q] assms(2) c by auto
  have "process_ok s'"
    by (rule process_ok_update [OF assms(1,2), of Q'])
      (use Q empty assms(3-6) free in_flight_own [OF assms(1,2)] c in
        \<open>auto simp: s' Q' put_quorum_def live_def quorum_ok_def\<close>)
  then show ?thesis using assms(3) by (simp add: s' Q' put_quorum_def live_def)
next
  case (Some d)
  with assms show ?thesis by (auto simp: bind_quorum_def)
qed

lemma get_quorum_eq [simp]: "get_quorum q s = Inr Q \<longleftrightarrow> quorums s q = Some Q"
  by (simp add: get_quorum_def)

lemma put_quorum_ok:
  assumes "process_ok s" "quorums s q = Some Q" "live Q" "quorum_ok Q'" "live Q'" "q_challenge Q' = q_challenge Q"
  shows "process_ok (put_quorum q Q' s)"
  by (rule process_ok_update [OF assms(1,2,4)])
    (use assms in_flight_own [OF assms(1,2)] in_flightD(1) [OF assms(1)] in_flight_unique [OF assms(1,2)] in
      \<open>auto simp: put_quorum_def live_def\<close>)

lemma approve_record_ok:
  assumes "process_ok s" "challenge \<notin> burned s" "length challenge = 32" "dig \<noteq> []"
    and "\<And>Q. quorums s q = Some Q \<Longrightarrow> live Q"
  shows "process_ok (snd (approve_record q k challenge dig s))"
proof (cases "quorums s q")
  case (Some Q)
  note live = assms(5) [OF Some]
  have Q: "quorum_ok Q" by (rule process_okD(2) [OF assms(1) Some])
  show ?thesis
  proof (cases "k \<in> fst ` set (q_approvals Q)")
    case new: False
    show ?thesis
    proof (cases "bind_quorum q challenge dig Q s")
      case (Inr b)
      obtain Q' s' where b: "b = (Q', s')" by (cases b)
      note bound = bind_quorum_ok [OF assms(1) Some live assms(2-4) Inr [unfolded b]]
      have Q': "quorum_ok Q'" using process_okD(2) [of s' q Q'] bound by simp
      let ?Q = "Q'\<lparr>q_approvals := q_approvals Q' @ [(k, dig, challenge)]\<rparr>"
      have "process_ok (put_quorum q ?Q s')" if "int (length (q_approvals Q')) < q_n Q'"
        using Q' that bound new assms(3,4)
        by (intro put_quorum_ok [of s' q Q']) (auto simp: quorum_ok_def live_def)
      with bound show ?thesis by (simp add: approve_record_def get_quorum_def Some new Inr b)
    qed (simp add: approve_record_def get_quorum_def Some new assms(1))
  qed (simp add: approve_record_def get_quorum_def Some assms(1))
qed (simp add: approve_record_def get_quorum_def assms(1))

lemma approve_guards_ok:
  assumes "approve_guards q challenge dig s = Inr ()"
  shows "challenge \<notin> burned s \<and> length challenge = 32 \<and> dig \<noteq> [] \<and> (\<exists>Q. quorums s q = Some Q \<and> live Q)"
  using assms by (auto simp: approve_guards_def live_def)

lemma approve_ok:
  assumes "process_ok s" shows "process_ok (snd (approve P W q a challenge assn dig ctx s))"
proof (cases rule: approve_cases [of P W q a challenge assn dig ctx s])
  case (refused e)
  then show ?thesis using assms by simp
next
  case (counted auth k auth' r s1)
  have "process_ok s1" using assms by (simp add: counted(3))
  moreover have "process_ok (snd (approve_record q k challenge dig s1))"
    using approve_guards_ok [OF counted(4)] \<open>process_ok s1\<close>
    by (intro approve_record_ok) (auto simp: counted(3))
  ultimately show ?thesis using counted(6) by auto
qed

lemma abandon_ok:
  assumes "process_ok s" shows "process_ok (snd (abandon q s))"
proof -
  have "process_ok (release_in_flight q (put_quorum q (Q\<lparr>q_abandoned := True\<rparr>) s))"
    if q: "quorums s q = Some Q" and Q: "\<not> q_finalized Q" "\<not> q_abandoned Q" for Q
    by (rule process_ok_update [OF assms q, of "Q\<lparr>q_abandoned := True\<rparr>"])
      (use process_okD(2) [OF assms q] in_flight_unique [OF assms q] in_flight_own [OF assms q] Q in
        \<open>auto simp: put_quorum_def release_in_flight_def live_def quorum_ok_def\<close>)
  with assms show ?thesis by (cases "quorums s q") (auto simp: abandon_def get_quorum_def)
qed

lemma finalize_cases:
  assumes "finalize P tick q issuer decided s = (Inr (dig, c, rec), s')"
  obtains Q where "quorums s q = Some Q" "live Q" "is_satisfied Q" "q_digest Q = Some dig" "q_challenge Q = Some c"
    "sign_record P issuer (record_payload P Q dig c (decision_moment tick decided)) = Inr rec"
    "s' = put_quorum q (Q\<lparr>q_finalized := True\<rparr>) (release_in_flight q (s\<lparr>burned := insert c (burned s)\<rparr>))"
  using assms by (auto simp: finalize_def live_def split: sum.splits if_splits option.splits)

lemma finalize_refused: "finalize P tick q issuer decided s = (Inl e, s') \<Longrightarrow> s' = s"
  by (auto simp: finalize_def split: sum.splits if_splits option.splits)

lemma finalize_ok:
  assumes "process_ok s" "finalize P tick q issuer decided s = (Inr (dig, c, rec), s')"
  shows "process_ok s' \<and> c \<notin> burned s \<and> burned s' = insert c (burned s)"
proof (cases rule: finalize_cases [OF assms(2)])
  case (1 Q)
  have fl: "in_flight s c = Some q" using process_okD(3) [OF assms(1) 1(1)] 1 by blast
  have own: "in_flight s c' = Some q \<longleftrightarrow> c' = c" for c' using in_flight_own [OF assms(1) 1(1)] 1(2,5) by auto
  have "process_ok s'"
    by (rule process_ok_update [OF assms(1) 1(1), of "Q\<lparr>q_finalized := True\<rparr>"])
      (simp_all add: 1(5,7) put_quorum_def release_in_flight_def live_def own process_okD(2) [OF assms(1) 1(1)],
        use fl in auto)
  with in_flightD(1) [OF assms(1) fl] 1 show ?thesis by (simp add: put_quorum_def release_in_flight_def)
qed

section \<open>Challenges are used once\<close>

fun finalized_challenge :: "stepup_op \<Rightarrow> stepup_answer \<Rightarrow> bytes option" where
  "finalized_challenge _ (Finalized d c r) = Some c"
| "finalized_challenge _ _ = None"

lemma burned_frame [simp]:
  "burned (snd (new_quorum m n s)) = burned s" "burned (snd (abandon q s)) = burned s"
  "burned (snd (approve_record q k challenge dig s)) = burned s"
  by (auto simp: new_quorum_def abandon_def approve_record_def put_quorum_def release_in_flight_def
      dest: bind_quorum_frame split: sum.splits option.splits prod.splits)

lemma approve_burned [simp]: "burned (snd (approve P W q a challenge assn dig ctx s)) = burned s"
proof (cases rule: approve_cases [of P W q a challenge assn dig ctx s])
  case (counted auth k auth' r s1)
  then show ?thesis by (metis burned_frame(3) stepup_state.select_convs(1) stepup_state.update_convs(5) stepup_state.surjective)
qed simp

lemma serve_ok: "process_ok s \<Longrightarrow> process_ok (snd (serve_stepup P W r s))"
proof (cases r)
  case (Finalize tick q issuer decided)
  assume ok: "process_ok s"
  obtain a s' where f: "finalize P tick q issuer decided s = (a, s')" by fastforce
  with ok Finalize show ?thesis
    by (cases a) (auto dest: finalize_refused finalize_ok [OF ok])
qed (simp_all add: new_quorum_ok approve_ok abandon_ok)

interpretation challenges: guarded_use "serve_stepup P W" finalized_challenge burned process_ok for P W
proof
  fix s r assume ok: "process_ok s"
  then show "process_ok (snd (serve_stepup P W r s))" by (rule serve_ok)
  show "burned s \<subseteq> burned (snd (serve_stepup P W r s))"
  proof (cases r)
    case (Finalize tick q issuer decided)
    obtain a s' where f: "finalize P tick q issuer decided s = (a, s')" by fastforce
    with ok Finalize show ?thesis by (cases a) (auto dest: finalize_refused finalize_ok [OF ok])
  qed simp_all
next
  fix s r x s' i
  assume ok: "process_ok s" and "serve_stepup P W r s = (Inr x, s')" "finalized_challenge r x = Some i"
  then show "i \<notin> burned s \<and> i \<in> burned s'"
    by (cases r; cases x) (auto simp: answer_eq dest: finalize_ok [OF ok])
qed

section \<open>What stands behind an approval\<close>

text \<open>The approvals recorded in a quorum; none where there is no such quorum.\<close>

definition approvals_of :: "stepup_state \<Rightarrow> nat \<Rightarrow> (pystr \<times> pystr \<times> bytes) set" where
  "approvals_of s q = (case quorums s q of None \<Rightarrow> {} | Some Q \<Rightarrow> set (q_approvals Q))"

lemma approvals_of_put [simp]: "approvals_of (put_quorum q Q s) p = (if p = q then set (q_approvals Q) else approvals_of s p)"
  by (simp add: approvals_of_def put_quorum_def)

lemma approvals_of_Some [simp]: "quorums s q = Some Q \<Longrightarrow> approvals_of s q = set (q_approvals Q)"
  by (simp add: approvals_of_def)

lemma approvals_of_update [simp]:
  "approvals_of (s\<lparr>in_flight := f\<rparr>) = approvals_of s" "approvals_of (s\<lparr>burned := b\<rparr>) = approvals_of s"
  "approvals_of (s\<lparr>authenticators := m\<rparr>) = approvals_of s" "approvals_of (release_in_flight q s) = approvals_of s"
  by (simp_all add: approvals_of_def release_in_flight_def fun_eq_iff)

lemma approvals_frame:
  "approvals_of (snd (new_quorum m n s)) q \<subseteq> approvals_of s q"
  "approvals_of (snd (abandon q' s)) q \<subseteq> approvals_of s q"
  "approvals_of (snd (finalize P tick q' issuer decided s)) q \<subseteq> approvals_of s q"
  by (auto simp: abandon_def finalize_def split: sum.splits if_splits option.splits)
    (simp add: new_quorum_def approvals_of_def split: if_splits)

lemma bind_quorum_approvals:
  assumes "bind_quorum q challenge dig Q s = Inr (Q', s')" "quorums s q = Some Q"
  shows "q_approvals Q' = q_approvals Q \<and> approvals_of s' p = approvals_of s p"
  using assms by (auto simp: bind_quorum_def claim_in_flight_def Let_def split: option.splits if_splits)

lemma approve_record_approvals:
  assumes "approve_record q k challenge dig s = (a, s')" "x \<in> approvals_of s' p" "x \<notin> approvals_of s p"
  shows "a = Inr k \<and> p = q \<and> x = (k, dig, challenge)"
proof (cases "quorums s q")
  case (Some Q)
  show ?thesis
  proof (cases "bind_quorum q challenge dig Q s")
    case (Inl e)
    with assms Some show ?thesis by (auto simp: approve_record_def get_quorum_def split: if_splits)
  next
    case (Inr b)
    obtain Q' s1 where b: "b = (Q', s1)" by (cases b)
    with assms Some bind_quorum_approvals [OF Inr [unfolded b] Some] show ?thesis
      by (auto simp: approve_record_def get_quorum_def Inr split: if_splits)
  qed
qed (use assms in \<open>auto simp: approve_record_def get_quorum_def\<close>)

text \<open>What never changes in an authenticator.\<close>

definition enrolled :: "authenticator \<Rightarrow> (pystr \<Rightarrow> credential option) \<times> stepup_context \<times> bool" where
  "enrolled auth = (credential_of auth, context_of auth, binds_action_digest auth)"

text \<open>The key approved the digest over the challenge, by an assertion that its credential verifies.\<close>

definition approved_by :: "prims \<Rightarrow> webauthn_prims \<Rightarrow> (nat \<rightharpoonup> authenticator) \<Rightarrow> nat \<Rightarrow> pystr \<times> pystr \<times> bytes
    \<Rightarrow> stepup_op \<Rightarrow> stepup_answer res \<Rightarrow> bool" where
  "approved_by P W auths q = (\<lambda>(k, dig, challenge) r a. \<exists>i assn ctx auth cr.
     r = Approve q i challenge assn dig ctx \<and> a = Inr (Approved k) \<and> auths i = Some auth \<and>
     credential_of auth k = Some cr \<and> assertion_valid P W challenge assn ctx cr \<and> ctx = context_of auth \<and>
     (binds_action_digest auth \<longrightarrow> assertion_action_digest W assn = Some dig))"

definition same_enrolment :: "(nat \<rightharpoonup> authenticator) \<Rightarrow> (nat \<rightharpoonup> authenticator) \<Rightarrow> bool" where
  "same_enrolment auths auths' \<longleftrightarrow> (\<forall>i. map_option enrolled (auths i) = map_option enrolled (auths' i))"

lemma verify_enrolled: "verify_assertion P W challenge a ctx auth = Inr (k, auth') \<Longrightarrow> enrolled auth' = enrolled auth"
  by (auto simp: enrolled_def dest!: verify_assertion_ok)

lemma approve_enrolment:
  "same_enrolment (authenticators (snd (approve P W q a challenge assn dig ctx s))) (authenticators s)"
proof (cases rule: approve_cases [of P W q a challenge assn dig ctx s])
  case (counted auth k auth' r s1)
  then have "authenticators (snd (approve P W q a challenge assn dig ctx s)) = (authenticators s)(a \<mapsto> auth')"
    using authenticators_frame(4) [of q k challenge dig s1] by auto
  with counted(1) verify_enrolled [OF counted(2)] show ?thesis by (simp add: same_enrolment_def)
qed (simp add: same_enrolment_def)

lemma serve_enrolment: "same_enrolment (authenticators (snd (serve_stepup P W r s))) (authenticators s)"
  by (cases r) (simp_all add: approve_enrolment, simp_all add: same_enrolment_def)

lemma approve_approved:
  assumes "approve P W q i challenge assn dig ctx s = (a, s')" "x \<in> approvals_of s' p" "x \<notin> approvals_of s p"
    and "same_enrolment (authenticators s) auths"
  shows "p = q \<and> approved_by P W auths q x (Approve q i challenge assn dig ctx) (fst (answer Approved (a, s')))"
proof (cases rule: approve_cases [of P W q i challenge assn dig ctx s])
  case (refused e)
  with assms show ?thesis by simp
next
  case (counted auth k auth' r s1)
  have same: "approvals_of s1 = approvals_of s" by (simp add: counted(3) approvals_of_def fun_eq_iff)
  with counted(6) assms have rec: "approve_record q k challenge dig s1 = (a, s')"
    and binds: "binds_action_digest auth \<longrightarrow> assertion_action_digest W assn = Some dig" by auto
  from approve_record_approvals [OF rec] assms(2,3) same
  have a: "a = Inr k" "p = q" "x = (k, dig, challenge)" by auto
  from assms(4) counted(1) obtain auth0 where "auths i = Some auth0" "enrolled auth0 = enrolled auth"
    unfolding same_enrolment_def by (metis map_option_eq_Some option.simps(9))
  with verify_assertion_ok [OF counted(2)] binds a show ?thesis
    by (auto simp: approved_by_def answer_def enrolled_def)
qed

end
