(* ===== verification/Stepup_Properties.thy ===== *)
theory Stepup_Properties
  imports Stepup_Laws Capability
begin

text \<open>
  The properties of step-up approvals: one use of every challenge and of every signature count,
  what a finalized record rests on, and the round trips of assertions and of records.
\<close>

section \<open>One-time use\<close>

abbreviation run_process where
  "run_process P W auths ops \<equiv> run_all (serve_stepup P W) ops (new_process auths)"

text \<open>C5: over any sequence of operations of the process, on any number of quorums, no challenge is
  finalized twice.\<close>

theorem challenge_finalized_once:
  "distinct (granted finalized_challenge (fst (run_process P W auths ops)))"
  using challenges.granted_distinct [OF process_ok_new] by blast

text \<open>An authenticator never has two approvals with the same key and signature count accepted,
  whatever quorums they were for: the copy of an assertion is refused.\<close>

theorem sign_count_used_once:
  "distinct (granted counted_use (fst (run_all (serve_stepup P W) ops s)))"
  using sign_counts.granted_once by blast

section \<open>Evidence for a finalized record\<close>

definition evidence :: "prims \<Rightarrow> webauthn_prims \<Rightarrow> (nat \<rightharpoonup> authenticator) \<Rightarrow> (stepup_op \<times> stepup_answer res) list
    \<Rightarrow> stepup_state \<Rightarrow> bool" where
  "evidence P W auths t s \<longleftrightarrow> process_ok s \<and> same_enrolment (authenticators s) auths \<and>
     (\<forall>q. \<forall>x \<in> approvals_of s q. \<exists>e \<in> set t. approved_by P W auths q x (fst e) (snd e))"

lemma serve_approved:
  assumes "serve_stepup P W r s = (a, s')" "x \<in> approvals_of s' q" "x \<notin> approvals_of s q"
    and "same_enrolment (authenticators s) auths"
  shows "approved_by P W auths q x r a"
proof (cases r)
  case (Approve q' i challenge assn dig ctx)
  obtain b s1 where b: "approve P W q' i challenge assn dig ctx s = (b, s1)" by fastforce
  with assms(1) Approve have "s1 = s'" "a = fst (answer Approved (b, s'))"
    by (auto simp: answer_def split: sum.splits)
  with approve_approved [OF b _ _ assms(4)] assms(2,3) Approve show ?thesis by blast
next
  case (NewQuorum m n)
  then have "s' = snd (new_quorum m n s)" using assms(1) by (metis serve_stepup.simps(1) snd_answer snd_conv)
  with assms(2,3) approvals_frame(1) show ?thesis by blast
next
  case (Abandon q')
  then have "s' = snd (abandon q' s)" using assms(1) by (metis serve_stepup.simps(3) snd_answer snd_conv)
  with assms(2,3) approvals_frame(2) show ?thesis by blast
next
  case (Finalize tick q' issuer decided)
  then have "s' = snd (finalize P tick q' issuer decided s)" using assms(1) by (metis serve_stepup.simps(4) snd_answer snd_conv)
  with assms(2,3) approvals_frame(3) show ?thesis by blast
qed

lemma evidence_step:
  assumes "evidence P W auths t s" "serve_stepup P W r s = (a, s')"
  shows "evidence P W auths (t @ [(r, a)]) s'"
  unfolding evidence_def
proof (intro conjI allI ballI)
  have s': "s' = snd (serve_stepup P W r s)" using assms(2) by simp
  show "process_ok s'" using assms(1) serve_ok by (simp add: evidence_def s')
  show "same_enrolment (authenticators s') auths"
    using assms(1) serve_enrolment [of P W r s] by (simp add: evidence_def s' same_enrolment_def)
  fix q x assume x: "x \<in> approvals_of s' q"
  show "\<exists>e \<in> set (t @ [(r, a)]). approved_by P W auths q x (fst e) (snd e)"
  proof (cases "x \<in> approvals_of s q")
    case True
    with assms(1) show ?thesis by (auto simp: evidence_def)
  next
    case False
    with serve_approved [OF assms(2) x] assms(1) show ?thesis by (simp add: evidence_def)
  qed
qed

lemma run_evidence: "run_process P W auths ops = (t, s) \<Longrightarrow> evidence P W auths t s"
  using run_all_invariant [where I = "evidence P W auths" and f = "serve_stepup P W" and rs = ops and ?t0.0 = "[]"
      and ?s0.0 = "new_process auths" and t = t and s = s, OF evidence_step]
  by (simp add: evidence_def process_ok_new) (simp add: same_enrolment_def approvals_of_def new_process_def)

text \<open>C13: a finalized record rests on at least m distinct keys, each of which approved, earlier in this
  process and for this quorum, exactly the digest and the challenge of the record by an assertion
  that verifies under the key's enrolled credential, in the context its authenticator is pinned to, and,
  for an authenticator that binds actions, over a client data field with that digest.\<close>

theorem finalized_record_backed:
  assumes "run_process P W auths ops = (t, s)"
    and "serve_stepup P W (Finalize tick q issuer decided) s = (Inr (Finalized dig challenge rec), s')"
  shows "\<exists>Q. quorums s q = Some Q \<and> 1 \<le> q_m Q \<and> q_m Q \<le> int (length (q_approvals Q)) \<and>
    int (length (q_approvals Q)) \<le> q_n Q \<and> distinct (map fst (q_approvals Q)) \<and>
    sign_record P issuer (record_payload P Q dig challenge (decision_moment tick decided)) = Inr rec \<and>
    list_all (\<lambda>(k, d, c). d = dig \<and> c = challenge \<and>
      (\<exists>e \<in> set t. approved_by P W auths q (k, dig, challenge) (fst e) (snd e))) (q_approvals Q)"
proof -
  have ev: "evidence P W auths t s" by (rule run_evidence [OF assms(1)])
  from assms(2) have f: "finalize P tick q issuer decided s = (Inr (dig, challenge, rec), s')" by (auto simp: answer_eq)
  show ?thesis
  proof (cases rule: finalize_cases [OF f])
    case (1 Q)
    from ev have "process_ok s" by (simp add: evidence_def)
    from process_okD(2) [OF this 1(1)] have Q: "quorum_ok Q" .
    from ev 1(1) have "\<forall>x \<in> set (q_approvals Q). \<exists>e \<in> set t. approved_by P W auths q x (fst e) (snd e)"
      unfolding evidence_def by (metis approvals_of_Some)
    with Q 1 show ?thesis by (intro exI [of _ Q]) (fastforce simp: quorum_ok_def is_satisfied_def list_all_iff)
  qed
qed

section \<open>Records\<close>

text \<open>What pydantic reads from the payload of a record: its fields, the time through the validator.\<close>

definition record_of :: "quorum \<Rightarrow> pystr \<Rightarrow> bytes \<Rightarrow> int \<Rightarrow> approval_record" where
  "record_of Q dig challenge t = \<lparr>ar_action_digest = dig, ar_challenge = challenge, ar_m = q_m Q, ar_n = q_n Q,
     ar_approvers = sort (map fst (q_approvals Q)), ar_decided_at = Aware t 0\<rparr>"

definition reads_records :: "prims \<Rightarrow> record_reader \<Rightarrow> bool" where
  "reads_records P rd \<longleftrightarrow>
     (\<forall>Q dig challenge t. rd (coerce_datetime P) (nf (record_payload P Q dig challenge t)) = Some (record_of Q dig challenge t))"

fun read_record :: record_reader where
  "read_record f (PDict d) =
     field d ''action_digest'' val_str (\<lambda>dig.
     field d ''challenge'' val_bytes (\<lambda>c.
     field d ''m'' val_int (\<lambda>m.
     field d ''n'' val_int (\<lambda>n.
     field d ''approver_key_ids'' val_strs (\<lambda>ks.
     field d ''decided_at'' val_str (\<lambda>ts. map_option (\<lambda>t.
       \<lparr>ar_action_digest = dig, ar_challenge = c, ar_m = m, ar_n = n, ar_approvers = ks, ar_decided_at = t\<rparr>) (f ts)))))))"
| "read_record f _ = None"

lemma read_record_reads: "prims_ok P \<Longrightarrow> reads_records P read_record"
  unfolding reads_records_def
proof (intro allI)
  fix Q dig challenge t assume P: "prims_ok P"
  let ?e = "THE e. record_payload P Q dig challenge t = PDict e"
  have e: "record_payload P Q dig challenge t = PDict ?e" by (simp add: record_payload_def)
  have "distinct (map fst ?e)" by (simp add: record_payload_def)
  from nf_map [OF this] obtain d where d: "nf (PDict ?e) = PDict d" "map_of d = map_of (nf_pairs ?e)" by blast
  have "those (map (val_str \<circ> (nf \<circ> PStr)) ws) = Some ws" for ws by (induction ws) auto
  then have "read_record (coerce_datetime P) (PDict d) = Some (record_of Q dig challenge t)"
    using P by (simp add: field_def d(2)) (simp add: record_payload_def record_of_def coerce_datetime_def prims_ok_def nf_items_map)
  then show "read_record (coerce_datetime P) (nf (record_payload P Q dig challenge t)) = Some (record_of Q dig challenge t)"
    using e d(1) by simp
qed

lemma plain_record: "cbor_plain (record_payload P Q dig challenge t)"
  by (simp add: record_payload_def uniform_keys_def max_recursion_depth_def numeral_eq_Suc list_all_iff)

lemma record_shape:
  "quorum_ok Q \<Longrightarrow> is_satisfied Q \<Longrightarrow> q_digest Q = Some dig \<Longrightarrow> q_challenge Q = Some challenge \<Longrightarrow>
   quorum_shape (record_of Q dig challenge t)"
  by (auto simp: quorum_shape_def record_of_def quorum_ok_def is_satisfied_def sorted_sort_id)

lemma verify_signed_record:
  assumes "prims_ok P" "signer_ok P issuer" "reads_records P rd"
    and "sign_record P issuer (record_payload P Q dig challenge t) = Inr rec"
    and "issuer_keys issuers = Inr keys" "utf8_encode (key_id issuer) = Inr kid" "keys kid = Some (public_key_bytes issuer)"
    and "quorum_shape (record_of Q dig challenge t)"
  shows "verify_approval_record P rd rec issuers = Inr (record_of Q dig challenge t)"
proof -
  from assms(4,6) obtain b where b: "cbor_dumps (record_payload P Q dig challenge t) = Inr b"
    and sign: "cose_sign_bytes b (sign_bytes issuer) kid [] = Inr rec" by (auto simp: sign_record_def)
  have "cose_verify P (PBytes rec) keys [] = Inr (b, kid)"
    using assms(2,7) sign by (intro cose_verify_sign) (auto simp: signer_ok_def)
  moreover have "cbor_loads b = Inr (nf (record_payload P Q dig challenge t))"
    by (rule cbor_loads_dumps [OF plain_record b])
  ultimately show ?thesis using assms(3,5,8) by (simp add: verify_approval_record_def reads_records_def)
qed

lemma binding_eq:
  "check_approval_binding r expected = Inr () \<longleftrightarrow> expected \<noteq> [] \<and> expected = ar_action_digest r \<and> list_all (\<lambda>c. c < 128) expected"
  by (auto simp: check_approval_binding_def)

text \<open>What a quorum finalizes, a party that trusts the issuer's key verifies and reads back exactly, at
  the time of the decision, and the record then binds the digest of the quorum (in ASCII, as a SHA-256
  digest is) and no other.\<close>

theorem finalized_record_verifies:
  assumes "prims_ok P" "signer_ok P issuer" "reads_records P rd" "process_ok s"
    and "finalize P tick q issuer decided s = (Inr (dig, challenge, rec), s')"
    and "issuer_keys issuers = Inr keys" "utf8_encode (key_id issuer) = Inr kid" "keys kid = Some (public_key_bytes issuer)"
  shows "\<exists>Q r. quorums s q = Some Q \<and> verify_approval_record P rd rec issuers = Inr r \<and>
    r = record_of Q dig challenge (decision_moment tick decided) \<and>
    (\<forall>expected. check_approval_binding r expected = Inr () \<longleftrightarrow> expected = dig \<and> list_all (\<lambda>c. c < 128) dig)"
proof (cases rule: finalize_cases [OF assms(5)])
  case (1 Q)
  have Q: "quorum_ok Q" by (rule process_okD(2) [OF assms(4) 1(1)])
  then have "dig \<noteq> []" using 1 by (auto simp: quorum_ok_def)
  with verify_signed_record [OF assms(1-3) 1(6) assms(6-8) record_shape [OF Q 1(3-5)]] 1(1)
  show ?thesis by (auto simp: binding_eq record_of_def)
qed

section \<open>Assertions of the software device\<close>

text \<open>An assertion that a software authenticator mints, it accepts, and its signed client data
  presents the digest it was minted for; the same assertion presented again is a sign count
  rollback.\<close>

theorem software_assertion_verifies:
  assumes "prims_ok P" "signer_ok P (sw_signer sw)"
    and "\<And>b. list_all (\<lambda>c. c < 128) (b64url_nopad W b)"
    and "json_loads W (dumps_strings (client_fields W challenge (sc_origin (sw_context sw)) dig)) =
      Some (JObj (map (\<lambda>(k, v). (k, JStr v)) (client_fields W challenge (sc_origin (sw_context sw)) dig)))"
    and "create_assertion P W challenge dig sw = (Inr a, sw')" "sw_last_seen sw \<le> sw_device_count sw"
  shows "\<exists>auth'. verify_assertion P W challenge a (sw_context sw) (Software sw') = Inr (sw_key_id sw, auth') \<and>
    assertion_action_digest W a = dig \<and>
    verify_assertion P W challenge a (sw_context sw) auth' = raise StepUpError ''signCount rollback''"
proof -
  let ?fields = "client_fields W challenge (sc_origin (sw_context sw)) dig"
  let ?n = "Suc (sw_device_count sw)"
  from assms(5) obtain rp cd where rp: "utf8_encode (sc_rp_id (sw_context sw)) = Inr rp" and n: "?n < 2 ^ 32"
    and cd: "utf8_encode (dumps_strings ?fields) = Inr cd" and dig: "dig \<noteq> Some []"
    and a: "a = \<lparr>as_auth_data = sha256 P rp @ [1] @ to_be 4 ?n, as_client_json = cd,
      as_signature = sign_bytes (sw_signer sw) ((sha256 P rp @ [1] @ to_be 4 ?n) @ sha256 P cd), as_key_id = sw_key_id sw\<rparr>"
    and sw': "sw' = sw\<lparr>sw_device_count := ?n\<rparr>"
    by (auto simp: create_assertion_def mint_assertion_def Let_def split: if_splits)
  have sha: "length (sha256 P x) = 32" for x using assms(1) by (simp add: prims_ok_def)
  have count: "sign_count_of a = ?n" using n by (simp add: sign_count_of_def a sha from_be_to_be del: of_nat_Suc)
  have data: "client_data W a = Inr (map (\<lambda>(k, v). (k, JStr v)) ?fields)"
    using utf8_decode_encode [OF cd] assms(4) by (simp add: client_data_def a)
  let ?cr = "\<lparr>cr_type = EdDSA, cr_public_key = public_key_bytes (sw_signer sw)\<rparr>"
  have valid: "assertion_valid P W challenge a (sw_context sw) ?cr"
    unfolding assertion_valid_def data
    using rp assms(2,3) sha
    by (auto simp: a client_fields_def check_credential_key_def verify_signature_def signed_data_def signer_ok_def nth_append)
  have "assertion_action_digest W a = dig"
    unfolding assertion_action_digest_def data by (cases dig) (simp_all add: client_fields_def)
  moreover have "verify_assertion_core P W challenge a (sw_context sw) ?cr (sw_last_seen sw) = Inr ?n"
    using valid assms(6) by (simp add: core_eq count)
  moreover have "verify_assertion_core P W challenge a (sw_context sw) ?cr ?n = raise StepUpError ''signCount rollback''"
    using valid by (rule core_rollback) (simp add: count)
  ultimately show ?thesis by (simp add: sw' a)
qed

section \<open>Concrete approvals\<close>

definition demo_ctx :: stepup_context where "demo_ctx = \<lparr>sc_rp_id = py ''rp'', sc_origin = py ''o''\<rparr>"
definition demo_challenge :: bytes where "demo_challenge = replicate 32 5"
definition demo_device :: signer where "demo_device = toy_signer ''key'' 7"
definition demo_issuer :: signer where "demo_issuer = toy_signer ''iss'' 9"

definition demo_web :: webauthn_prims where
  "demo_web = \<lparr>json_loads = (\<lambda>_. Some (JObj [(py ''type'', JStr (py ''webauthn.get'')), (py ''challenge'', JStr (py ''BQ'')),
     (py ''origin'', JStr (py ''o'')), (py ''action_digest'', JStr (py ''d''))])),
   p256_point = (\<lambda>_. False), p256_verify = (\<lambda>_ _ _. False), b64url_nopad = (\<lambda>_. py ''BQ'')\<rparr>"

text \<open>The assertion with signature count \<open>n\<close>.\<close>

definition demo_assertion :: "nat \<Rightarrow> assertion" where
  "demo_assertion n = (let ad = toy_digest [114, 112] @ [1] @ to_be 4 n in
     \<lparr>as_auth_data = ad, as_client_json = [], as_signature = sign_bytes demo_device (ad @ toy_digest []), as_key_id = py ''key''\<rparr>)"

definition demo_credential :: credential where
  "demo_credential = \<lparr>cr_type = EdDSA, cr_public_key = replicate 32 7\<rparr>"

definition demo_hardware :: "nat \<Rightarrow> hardware_auth" where
  "demo_hardware n = \<lparr>hw_context = demo_ctx, hw_registry = [py ''key'' \<mapsto> demo_credential], hw_counts = (\<lambda>_. 0)(py ''key'' := n)\<rparr>"

lemma length_toy_digest [simp]: "length (toy_digest b) = 32"
  by (simp add: toy_digest_def)

lemma demo_text: "utf8_encode (py ''rp'') = Inr [114, 112]" "list_all (\<lambda>c. c < 128) (py ''BQ'')"
  by (simp_all add: py_def utf8_char_def b8_def)

lemma demo_valid: "assertion_valid toy demo_web c (demo_assertion n) demo_ctx demo_credential"
  by (simp add: assertion_valid_def demo_assertion_def demo_ctx_def demo_credential_def client_data_def demo_web_def Let_def
      check_credential_key_def verify_signature_def signed_data_def nth_append demo_device_def demo_text)

lemma demo_count: "n < 2 ^ 32 \<Longrightarrow> sign_count_of (demo_assertion n) = n"
  by (simp add: sign_count_of_def demo_assertion_def Let_def from_be_to_be)

lemma demo_assertion_verify:
  assumes "i < n" "n < 2 ^ 32"
  shows "verify_assertion toy demo_web c (demo_assertion n) demo_ctx (Hardware (demo_hardware i)) =
    Inr (py ''key'', Hardware (demo_hardware n))"
proof -
  have "verify_assertion_core toy demo_web c (demo_assertion n) demo_ctx demo_credential i = Inr n"
    using assms demo_valid by (simp add: core_eq demo_count)
  then show ?thesis by (simp add: demo_hardware_def demo_assertion_def Let_def)
qed

definition demo_quorum :: "string \<Rightarrow> bool \<Rightarrow> quorum" where
  "demo_quorum d fin = \<lparr>q_m = 1, q_n = 1, q_approvals = [(py ''key'', py d, demo_challenge)], q_digest = Some (py d),
     q_challenge = Some demo_challenge, q_finalized = fin, q_abandoned = False\<rparr>"

definition demo_empty :: quorum where
  "demo_empty = \<lparr>q_m = 1, q_n = 1, q_approvals = [], q_digest = None, q_challenge = None, q_finalized = False, q_abandoned = False\<rparr>"

definition demo_state :: "nat \<Rightarrow> (bytes \<rightharpoonup> nat) \<Rightarrow> bytes set \<Rightarrow> quorum \<Rightarrow> quorum \<Rightarrow> stepup_state" where
  "demo_state n fl b Q0 Q1 = \<lparr>burned = b, in_flight = fl, quorums = [0 \<mapsto> Q0, Suc 0 \<mapsto> Q1], next_quorum = 2,
     authenticators = [0 \<mapsto> Hardware (demo_hardware n)]\<rparr>"

definition demo_ops :: "stepup_op list" where
  "demo_ops = [NewQuorum 1 1, NewQuorum 1 1, Approve 0 0 demo_challenge (demo_assertion 1) (py ''a'') demo_ctx]"

definition demo_auths :: "nat \<rightharpoonup> authenticator" where
  "demo_auths = [0 \<mapsto> Hardware (demo_hardware 0)]"

lemma demo_approve_verify:
  "i < n \<Longrightarrow> n < 2 ^ 32 \<Longrightarrow> approve_verify toy demo_web 0 c (demo_assertion n) d demo_ctx (demo_state i fl b Q0 Q1) =
    (Inr (py ''key''), demo_state n fl b Q0 Q1)"
  by (simp add: approve_verify_def demo_state_def demo_assertion_verify del: verify_assertion.simps)

lemma demo_process_run: "\<exists>t. run_process toy demo_web demo_auths demo_ops =
    (t, demo_state 1 [demo_challenge \<mapsto> 0] {} (demo_quorum ''a'' False) demo_empty)"
proof -
  let ?s = "demo_state 0 Map.empty {} demo_empty demo_empty"
  have "approve_guards 0 demo_challenge (py ''a'') ?s = Inr ()"
    by (simp add: approve_guards_def get_quorum_def demo_state_def demo_empty_def demo_challenge_def py_def)
  moreover have "approve_record 0 (py ''key'') demo_challenge (py ''a'') (demo_state 1 Map.empty {} demo_empty demo_empty) =
      (Inr (py ''key''), demo_state 1 [demo_challenge \<mapsto> 0] {} (demo_quorum ''a'' False) demo_empty)"
    by (simp add: approve_record_def get_quorum_def demo_state_def demo_empty_def bind_quorum_def claim_in_flight_def
        put_quorum_def Let_def demo_quorum_def fun_upd_twist)
  ultimately have "approve toy demo_web 0 0 demo_challenge (demo_assertion 1) (py ''a'') demo_ctx ?s =
      (Inr (py ''key''), demo_state 1 [demo_challenge \<mapsto> 0] {} (demo_quorum ''a'' False) demo_empty)"
    by (simp add: approve_def demo_approve_verify)
  moreover have "?s = snd (new_quorum 1 1 (snd (new_quorum 1 1 (new_process demo_auths))))"
    by (simp add: new_quorum_def new_process_def demo_auths_def demo_state_def demo_empty_def)
  ultimately show ?thesis by (simp add: demo_ops_def case_prod_unfold Let_def)
qed

lemma demo_record_sign:
  assumes "length (int_text t) < 1000" "length d < 100" "text_ok (py d)"
  shows "\<exists>r. sign_record toy demo_issuer (record_payload toy (demo_quorum d fin) (py d) demo_challenge t) = Inr r"
proof -
  have "\<exists>b. cbor_dumps (record_payload toy (demo_quorum d fin) (py d) demo_challenge t) = Inr b \<and> length b < 2 ^ 60"
    using cbor_dumps_total [of "record_payload toy (demo_quorum d fin) (py d) demo_challenge t"] assms
    by (auto simp: record_payload_def demo_quorum_def demo_challenge_def py_def)
  then obtain b where b: "cbor_dumps (record_payload toy (demo_quorum d fin) (py d) demo_challenge t) = Inr b" "length b < 2 ^ 60"
    by blast
  have "utf8_encode (py ''iss'') = Inr [105, 115, 115]" by (simp add: py_def utf8_char_def b8_def)
  then show ?thesis using cose_sign_total [of "sign_bytes demo_issuer" "[105, 115, 115]" "[]" b] b
    by (simp add: sign_record_def demo_issuer_def)
qed

lemma demo_finalize:
  assumes "length (int_text t) < 1000" "length d < 100" "text_ok (py d)" "i = 0 \<or> i = Suc 0"
    and "Q = (if i = 0 then Q0 else Q1)" "Q = demo_quorum d False"
  shows "\<exists>r s'. serve_stepup toy demo_web (Finalize t i demo_issuer None) (demo_state n [demo_challenge \<mapsto> i] b Q0 Q1) =
    (Inr (Finalized (py d) demo_challenge r), s') \<and>
    s' = demo_state n Map.empty (insert demo_challenge b) (if i = 0 then demo_quorum d True else Q0)
      (if i = 0 then Q1 else demo_quorum d True)"
proof -
  obtain r where r: "sign_record toy demo_issuer (record_payload toy (demo_quorum d False) (py d) demo_challenge t) = Inr r"
    using demo_record_sign [OF assms(1-3)] by blast
  have "is_satisfied (demo_quorum d False)" by (simp add: is_satisfied_def demo_quorum_def)
  moreover have "demo_quorum d False\<lparr>q_finalized := True\<rparr> = demo_quorum d True" by (simp add: demo_quorum_def)
  moreover have "\<not> q_finalized (demo_quorum d False)" "\<not> q_abandoned (demo_quorum d False)"
    "q_digest (demo_quorum d False) = Some (py d)" "q_challenge (demo_quorum d False) = Some demo_challenge"
    by (simp_all add: demo_quorum_def)
  ultimately show ?thesis using r assms(4-6)
    by (auto simp: finalize_def get_quorum_def demo_state_def decision_moment_def put_quorum_def release_in_flight_def
        answer_def fun_eq_iff)
qed

lemma demo_texts [simp]: "text_ok (py ''a'')" "text_ok (py ''b'')" "py ''a'' \<noteq> []" "length (int_text 0) < 1000"
  by (simp_all add: py_def int_text_def nat_text.simps [of 0])

theorem finalized_record_backed_witness:
  "\<exists>t s r s'. run_process toy demo_web demo_auths demo_ops = (t, s) \<and>
     serve_stepup toy demo_web (Finalize 0 0 demo_issuer None) s = (Inr (Finalized (py ''a'') demo_challenge r), s') \<and>
     (\<exists>Q. quorums s 0 = Some Q \<and> 1 \<le> int (length (q_approvals Q)))"
proof -
  obtain t where t: "run_process toy demo_web demo_auths demo_ops =
      (t, demo_state 1 [demo_challenge \<mapsto> 0] {} (demo_quorum ''a'' False) demo_empty)" using demo_process_run by blast
  moreover obtain r s' where f: "serve_stepup toy demo_web (Finalize 0 0 demo_issuer None)
      (demo_state 1 [demo_challenge \<mapsto> 0] {} (demo_quorum ''a'' False) demo_empty) =
      (Inr (Finalized (py ''a'') demo_challenge r), s')"
    using demo_finalize [of 0 "''a''" 0 "demo_quorum ''a'' False" "demo_quorum ''a'' False" demo_empty 1 "{}"] by auto
  ultimately show ?thesis using finalized_record_backed [OF t f] by force
qed

theorem finalized_record_verifies_witness:
  "\<exists>s r s' ar. finalize toy 0 0 demo_issuer None s = (Inr (py ''a'', demo_challenge, r), s') \<and>
     verify_approval_record toy read_record r [(py ''iss'', replicate 32 9)] = Inr ar \<and>
     check_approval_binding ar (py ''a'') = Inr ()"
proof -
  let ?s = "demo_state 1 [demo_challenge \<mapsto> 0] {} (demo_quorum ''a'' False) demo_empty"
  obtain r s' where "serve_stepup toy demo_web (Finalize 0 0 demo_issuer None) ?s =
      (Inr (Finalized (py ''a'') demo_challenge r), s')"
    using demo_finalize [of 0 "''a''" 0 "demo_quorum ''a'' False" "demo_quorum ''a'' False" demo_empty 1 "{}"] by auto
  then have f: "finalize toy 0 0 demo_issuer None ?s = (Inr (py ''a'', demo_challenge, r), s')" by (auto simp: answer_eq)
  have ok: "process_ok ?s" using demo_process_run run_evidence by (metis evidence_def)
  have kid: "utf8_encode (py ''iss'') = Inr [105, 115, 115]" by (simp add: py_def utf8_char_def b8_def)
  then have keys: "issuer_keys [(py ''iss'', replicate 32 9)] = Inr [[105, 115, 115] \<mapsto> replicate 32 9]"
    by (simp add: issuer_keys_def)
  show ?thesis
    using finalized_record_verifies [OF toy_ok _ read_record_reads [OF toy_ok] ok f keys, of "[105, 115, 115]"] kid f
    by (auto simp: demo_issuer_def py_def)
qed

definition demo_software :: software_auth where
  "demo_software = new_software (py ''key'') demo_ctx demo_device"

definition demo_parser :: "pystr option \<Rightarrow> webauthn_prims" where
  "demo_parser dig = demo_web\<lparr>json_loads := (\<lambda>_. Some (JObj (map (\<lambda>(k, v). (k, JStr v))
     (client_fields demo_web demo_challenge (py ''o'') dig))))\<rparr>"

theorem software_assertion_verifies_witness:
  "\<exists>a sw' auth'. create_assertion toy (demo_parser (Some (py ''a''))) demo_challenge (Some (py ''a'')) demo_software = (Inr a, sw') \<and>
     verify_assertion toy (demo_parser (Some (py ''a''))) demo_challenge a demo_ctx (Software sw') = Inr (py ''key'', auth')"
proof -
  let ?W = "demo_parser (Some (py ''a''))"
  have fields: "client_fields ?W c o' d = client_fields demo_web c o' d" for c o' d by (simp add: client_fields_def demo_parser_def)
  obtain cd where "utf8_encode (dumps_strings (client_fields demo_web (replicate 32 5) (py ''o'') (Some (py ''a'')))) = Inr cd"
    by (simp add: client_fields_def dumps_strings_def demo_web_def py_def ascii_string_def ascii_escape_def utf8_char_def)
  then obtain a sw' where c: "create_assertion toy ?W demo_challenge (Some (py ''a'')) demo_software = (Inr a, sw')"
    by (simp add: create_assertion_def mint_assertion_def demo_software_def new_software_def demo_ctx_def demo_text Let_def
        fields demo_challenge_def)
  have ascii: "list_all (\<lambda>c. c < 128) (b64url_nopad ?W b)" for b by (simp add: demo_parser_def demo_web_def py_def)
  have sel: "sw_context demo_software = demo_ctx" "sw_key_id demo_software = py ''key''" "signer_ok toy (sw_signer demo_software)"
    "sw_last_seen demo_software \<le> sw_device_count demo_software" "sc_origin demo_ctx = py ''o''"
    by (simp_all add: demo_software_def new_software_def demo_device_def demo_ctx_def)
  have "json_loads ?W (dumps_strings (client_fields ?W demo_challenge (sc_origin (sw_context demo_software)) (Some (py ''a'')))) =
      Some (JObj (map (\<lambda>(k, v). (k, JStr v)) (client_fields ?W demo_challenge (sc_origin (sw_context demo_software)) (Some (py ''a'')))))"
    by (simp only: fields sel) (simp add: demo_parser_def)
  from software_assertion_verifies [OF toy_ok sel(3) ascii this c sel(4)] show ?thesis
    using c by (simp only: sel(1,2)) blast
qed

section \<open>Interleaved operations\<close>

text \<open>
  The guard on burned challenges is not repeated when the challenge is claimed. When another
  quorum is finalized between the guard and the claim of an approval, as the calls of two threads may
  be, one challenge approves two digests.
\<close>

theorem interleaved_approval_reuses_challenge:
  "\<exists>t s r s1 s2 s3 r' s4. run_process toy demo_web demo_auths demo_ops = (t, s) \<and>
     approve_guards 1 demo_challenge (py ''b'') s = Inr () \<and>
     serve_stepup toy demo_web (Finalize 0 0 demo_issuer None) s = (Inr (Finalized (py ''a'') demo_challenge r), s1) \<and>
     approve_verify toy demo_web 0 demo_challenge (demo_assertion 2) (py ''b'') demo_ctx s1 = (Inr (py ''key''), s2) \<and>
     approve_record 1 (py ''key'') demo_challenge (py ''b'') s2 = (Inr (py ''key''), s3) \<and>
     serve_stepup toy demo_web (Finalize 0 1 demo_issuer None) s3 = (Inr (Finalized (py ''b'') demo_challenge r'), s4)"
proof -
  let ?s = "demo_state 1 [demo_challenge \<mapsto> 0] {} (demo_quorum ''a'' False) demo_empty"
  let ?s1 = "demo_state 1 Map.empty {demo_challenge} (demo_quorum ''a'' True) demo_empty"
  let ?s3 = "demo_state 2 [demo_challenge \<mapsto> Suc 0] {demo_challenge} (demo_quorum ''a'' True) (demo_quorum ''b'' False)"
  obtain t where t: "run_process toy demo_web demo_auths demo_ops = (t, ?s)" using demo_process_run by blast
  have g: "approve_guards 1 demo_challenge (py ''b'') ?s = Inr ()"
    by (simp add: approve_guards_def get_quorum_def demo_state_def demo_empty_def demo_challenge_def py_def)
  obtain r where f0: "serve_stepup toy demo_web (Finalize 0 0 demo_issuer None) ?s = (Inr (Finalized (py ''a'') demo_challenge r), ?s1)"
    using demo_finalize [of 0 "''a''" 0 "demo_quorum ''a'' False" "demo_quorum ''a'' False" demo_empty 1 "{}"] by auto
  have v: "approve_verify toy demo_web 0 demo_challenge (demo_assertion 2) (py ''b'') demo_ctx ?s1 =
      (Inr (py ''key''), demo_state 2 Map.empty {demo_challenge} (demo_quorum ''a'' True) demo_empty)"
    by (rule demo_approve_verify) simp_all
  have c: "approve_record 1 (py ''key'') demo_challenge (py ''b'')
      (demo_state 2 Map.empty {demo_challenge} (demo_quorum ''a'' True) demo_empty) = (Inr (py ''key''), ?s3)"
    by (simp add: approve_record_def get_quorum_def demo_state_def demo_empty_def bind_quorum_def claim_in_flight_def
        put_quorum_def Let_def demo_quorum_def)
  obtain r' s4 where "serve_stepup toy demo_web (Finalize 0 1 demo_issuer None) ?s3 = (Inr (Finalized (py ''b'') demo_challenge r'), s4)"
    using demo_finalize [of 0 "''b''" "Suc 0" "demo_quorum ''b'' False" "demo_quorum ''a'' True" "demo_quorum ''b'' False" 2
        "{demo_challenge}"] by auto
  with t g f0 v c show ?thesis by blast
qed

end
