(* ===== verification/Policy_Values.thy ===== *)
theory Policy_Values
  imports Complex_Main Json_Python
begin

text \<open>
  The condition machinery of \<^verbatim>\<open>policy_providers.py\<close>: attribute values with
  Python's numeric types, finiteness, type-strict comparison and the conditions of a policy over
  the input document. A \<^verbatim>\<open>Decimal\<close> and a \<^verbatim>\<open>Fraction\<close> are
  their values; the keys of a dict are texts and distinct, the elements of a set distinct.
\<close>

section \<open>Attribute values\<close>

datatype decimal_number = DecFin rat | DecInf bool | DecNan | DecSnan

datatype attr =
    ANone | ABool bool | AInt int | AFloat f64 | ADec decimal_number | AFrac rat | AStr pystr | ABytes bytes
  | AList "attr list" | ATuple "attr list" | ASet bool "attr list" | ADict "(pystr \<times> attr) list"

text \<open>The exact type of a value: \<^verbatim>\<open>ASet True\<close> is a \<^verbatim>\<open>frozenset\<close>.\<close>

fun type_tag :: "attr \<Rightarrow> nat" where
  "type_tag ANone = 0"
| "type_tag (ABool b) = 1"
| "type_tag (AInt i) = 2"
| "type_tag (AFloat x) = 3"
| "type_tag (ADec q) = 4"
| "type_tag (AFrac q) = 5"
| "type_tag (AStr s) = 6"
| "type_tag (ABytes b) = 7"
| "type_tag (AList vs) = 8"
| "type_tag (ATuple vs) = 9"
| "type_tag (ASet fr vs) = (if fr then 11 else 10)"
| "type_tag (ADict d) = 12"

fun is_numeric :: "attr \<Rightarrow> bool" where
  "is_numeric (AInt i) = True"
| "is_numeric (AFloat x) = True"
| "is_numeric (ADec q) = True"
| "is_numeric (AFrac q) = True"
| "is_numeric _ = False"

text \<open>
  \<^verbatim>\<open>math.isfinite\<close> converts to a float first: an int or a fraction that rounds
  beyond the largest double raises, a decimal becomes an infinity, a signaling NaN raises.
\<close>

definition float_limit :: rat where
  "float_limit = 2 ^ 1024 - 2 ^ 970"

fun isfinite :: "attr \<Rightarrow> bool res" where
  "isfinite (AInt i) = require (\<bar>of_int i\<bar> < float_limit) OverflowError ''int too large to convert to float'' (Inr True)"
| "isfinite (AFloat x) = Inr (is_finite x)"
| "isfinite (AFrac q) = require (\<bar>q\<bar> < float_limit) OverflowError ''integer division result too large for a float'' (Inr True)"
| "isfinite (ADec (DecFin q)) = Inr (\<bar>q\<bar> < float_limit)"
| "isfinite (ADec DecSnan) = raise ValueError ''cannot convert signaling NaN to float''"
| "isfinite (ADec _) = Inr False"
| "isfinite _ = Inr True"

definition is_nonfinite_number :: "attr \<Rightarrow> bool res" where
  "is_nonfinite_number v = rbind (isfinite v) (\<lambda>b. Inr (\<not> b))"

fun tree_has_nonfinite :: "attr \<Rightarrow> bool res"
  and any_nonfinite :: "attr list \<Rightarrow> bool res"
  and any_member_nonfinite :: "(pystr \<times> attr) list \<Rightarrow> bool res" where
  "tree_has_nonfinite (ADict d) = any_member_nonfinite d"
| "tree_has_nonfinite (AList vs) = any_nonfinite vs"
| "tree_has_nonfinite (ATuple vs) = any_nonfinite vs"
| "tree_has_nonfinite (ASet fr vs) = any_nonfinite vs"
| "tree_has_nonfinite v = is_nonfinite_number v"
| "any_nonfinite [] = Inr False"
| "any_nonfinite (v # vs) = rbind (tree_has_nonfinite v) (\<lambda>b. if b then Inr True else any_nonfinite vs)"
| "any_member_nonfinite [] = Inr False"
| "any_member_nonfinite ((k, v) # d) = rbind (tree_has_nonfinite v) (\<lambda>b. if b then Inr True else any_member_nonfinite d)"

section \<open>Decimals\<close>

text \<open>
  Dividing two decimals rounds to 28 significant digits, half to even (the default context; its
  exponent bounds are out of reach of the values that are compared).
\<close>

definition half_even :: "rat \<Rightarrow> int" where
  "half_even q = (let f = \<lfloor>q\<rfloor>; r = q - of_int f in
     if r < 1 / 2 \<or> r = 1 / 2 \<and> even f then f else f + 1)"

definition pow10 :: "int \<Rightarrow> rat" where
  "pow10 e = (if 0 \<le> e then 10 ^ nat e else 1 / 10 ^ nat (- e))"

definition round28 :: "rat \<Rightarrow> rat" where
  "round28 q = (if q = 0 then 0 else
     (let (n, d) = quotient_of \<bar>q\<bar>;
          e0 = int (length (nat_text (nat n))) - int (length (nat_text (nat d))) - 28;
          e = (if \<bar>q\<bar> < pow10 (e0 + 28) then e0 else e0 + 1);
          s = (if q < 0 then - 1 else 1)
      in s * of_int (half_even (\<bar>q\<bar> / pow10 e)) * pow10 e))"

section \<open>Comparison\<close>

text \<open>The exact value of a finite number, on the extended line as in \<open>num_key\<close>.\<close>

fun value_key :: "attr \<Rightarrow> (int \<times> rat) option" where
  "value_key (ABool b) = Some (0, if b then 1 else 0)"
| "value_key (AInt i) = Some (0, of_int i)"
| "value_key (AFloat x) =
     (if is_nan x then None
      else if is_finite x then Some (0, of_int (float_scaled x) / 2 ^ 1074)
      else Some (if f64_sign x = 0 then 1 else - 1, 0))"
| "value_key (AFrac q) = Some (0, q)"
| "value_key (ADec (DecFin q)) = Some (0, q)"
| "value_key (ADec (DecInf neg)) = Some (if neg then - 1 else 1, 0)"
| "value_key _ = None"

fun is_dec :: "attr \<Rightarrow> bool" where
  "is_dec (ADec q) = True" | "is_dec _ = False"

fun is_frac :: "attr \<Rightarrow> bool" where
  "is_frac (AFrac q) = True" | "is_frac _ = False"

text \<open>\<^verbatim>\<open>_to_decimal\<close>: exact except for a fraction.\<close>

fun decimal_key :: "attr \<Rightarrow> (int \<times> rat) option" where
  "decimal_key (AFrac q) = Some (0, round28 q)"
| "decimal_key v = value_key v"

definition number_key :: "attr \<Rightarrow> attr \<Rightarrow> attr \<Rightarrow> (int \<times> rat) option" where
  "number_key a b v = (if is_dec a \<or> is_dec b then decimal_key v else value_key v)"

text \<open>
  Python's own \<^verbatim>\<open>==\<close>, which the type-strict comparison uses below the top level: a
  bool is a number there, a fraction never equals a decimal, a set equals a frozenset.
\<close>

definition native_number_eq :: "attr \<Rightarrow> attr \<Rightarrow> bool" where
  "native_number_eq v w \<longleftrightarrow> value_key v \<noteq> None \<and> value_key v = value_key w \<and>
     \<not> (is_frac v \<and> is_dec w) \<and> \<not> (is_dec v \<and> is_frac w)"

lemma size_element: "x \<in> set xs \<Longrightarrow> f x < Suc (size_list f xs)"
  by (induction xs) auto

lemma size_member: "(k, v) \<in> set d \<Longrightarrow> f v < Suc (size_list (size_prod (\<lambda>x. 0) f) d)"
  by (induction d) auto

function attr_eq :: "attr \<Rightarrow> attr \<Rightarrow> bool" where
  "attr_eq (AList vs) w = (case w of AList ws \<Rightarrow> list_all2 attr_eq vs ws | _ \<Rightarrow> False)"
| "attr_eq (ATuple vs) w = (case w of ATuple ws \<Rightarrow> list_all2 attr_eq vs ws | _ \<Rightarrow> False)"
| "attr_eq (ASet fr vs) w = (case w of
     ASet fr' ws \<Rightarrow> length vs = length ws \<and> list_all (\<lambda>x. list_ex (\<lambda>y. attr_eq x y) ws) vs | _ \<Rightarrow> False)"
| "attr_eq (ADict d) w = (case w of
     ADict e \<Rightarrow> length d = length e \<and> list_all (\<lambda>kv. case map_of e (fst kv) of None \<Rightarrow> False | Some y \<Rightarrow> attr_eq (snd kv) y) d
   | _ \<Rightarrow> False)"
| "attr_eq ANone w = (w = ANone)"
| "attr_eq (AStr s) w = (w = AStr s)"
| "attr_eq (ABytes b) w = (w = ABytes b)"
| "attr_eq (ABool b) w = native_number_eq (ABool b) w"
| "attr_eq (AInt i) w = native_number_eq (AInt i) w"
| "attr_eq (AFloat x) w = native_number_eq (AFloat x) w"
| "attr_eq (ADec q) w = native_number_eq (ADec q) w"
| "attr_eq (AFrac q) w = native_number_eq (AFrac q) w"
  by pat_completeness auto
termination
  by (relation "measure (size \<circ> fst)") (auto intro: size_element size_member)

text \<open>\<^verbatim>\<open>_values_equal\<close> and \<^verbatim>\<open>_type_compatible\<close>.\<close>

definition values_equal :: "attr \<Rightarrow> attr \<Rightarrow> bool res" where
  "values_equal a b =
     (if is_numeric a \<and> is_numeric b then
        rbind (is_nonfinite_number a) (\<lambda>na. if na then Inr False else
        rbind (is_nonfinite_number b) (\<lambda>nb. if nb then Inr False else
        Inr (number_key a b a \<noteq> None \<and> number_key a b a = number_key a b b)))
      else Inr (type_tag a = type_tag b \<and> attr_eq a b))"

definition type_compatible :: "attr \<Rightarrow> attr \<Rightarrow> bool" where
  "type_compatible a b \<longleftrightarrow> is_numeric a \<and> is_numeric b \<or> type_tag a = type_tag b"

datatype cmp_op = OpEq | OpNeq | OpLt | OpLte | OpGt | OpGte | OpIn | OpContains

definition numeric_ordering :: "cmp_op \<Rightarrow> attr \<Rightarrow> attr \<Rightarrow> bool" where
  "numeric_ordering op a b = (case (number_key a b a, number_key a b b) of
     (Some x, Some y) \<Rightarrow>
       (if op = OpLt then x < y else if op = OpLte then x \<le> y else if op = OpGt then y < x else y \<le> x)
   | _ \<Rightarrow> False)"

definition text_ordering :: "cmp_op \<Rightarrow> pystr \<Rightarrow> pystr \<Rightarrow> bool" where
  "text_ordering op s t =
     (if op = OpLt then s < t else if op = OpLte then s \<le> t else if op = OpGt then t < s else t \<le> s)"

fun any_equal :: "(attr \<Rightarrow> bool res) \<Rightarrow> attr list \<Rightarrow> bool res" where
  "any_equal f [] = Inr False"
| "any_equal f (v # vs) = rbind (f v) (\<lambda>b. if b then Inr True else any_equal f vs)"

text \<open>One operator on values that are free of non-finite numbers.\<close>

fun apply_cmp :: "cmp_op \<Rightarrow> attr \<Rightarrow> attr \<Rightarrow> bool res" where
  "apply_cmp OpEq a b = values_equal a b"
| "apply_cmp OpNeq a b = (if \<not> type_compatible a b then Inr False else rbind (values_equal a b) (\<lambda>e. Inr (\<not> e)))"
| "apply_cmp OpIn a b = (case b of AList vs \<Rightarrow> any_equal (values_equal a) vs | _ \<Rightarrow> Inr False)"
| "apply_cmp OpContains a b = (case a of
     AList vs \<Rightarrow> any_equal (\<lambda>v. values_equal v b) vs
   | AStr s \<Rightarrow> (case b of AStr t \<Rightarrow> Inr (is_infix t s) | _ \<Rightarrow> Inr False)
   | _ \<Rightarrow> Inr False)"
| "apply_cmp op a b =
     (if is_numeric a \<and> is_numeric b then Inr (numeric_ordering op a b)
      else (case (a, b) of (AStr s, AStr t) \<Rightarrow> Inr (text_ordering op s t) | _ \<Rightarrow> Inr False))"

definition compare_attr :: "cmp_op \<Rightarrow> attr option \<Rightarrow> attr \<Rightarrow> bool res" where
  "compare_attr op actual expected = (case actual of None \<Rightarrow> Inr False | Some a \<Rightarrow>
     rbind (tree_has_nonfinite a) (\<lambda>na. if na then Inr False else
     rbind (tree_has_nonfinite expected) (\<lambda>ne. if ne then Inr False else apply_cmp op a expected)))"

section \<open>Conditions\<close>

fun resolve_parts :: "attr \<Rightarrow> pystr list \<Rightarrow> attr option" where
  "resolve_parts v [] = Some v"
| "resolve_parts v (p # ps) = (case v of
     ADict d \<Rightarrow> (case map_of d p of None \<Rightarrow> None | Some w \<Rightarrow> resolve_parts w ps) | _ \<Rightarrow> None)"

definition resolve_path :: "(pystr \<times> attr) list \<Rightarrow> pystr \<Rightarrow> attr option" where
  "resolve_path document path = resolve_parts (ADict document) (split_on 46 path)"

record condition =
  cd_attr :: pystr
  cd_op :: cmp_op
  cd_value :: attr

definition holds :: "condition \<Rightarrow> (pystr \<times> attr) list \<Rightarrow> bool res" where
  "holds c document = compare_attr (cd_op c) (resolve_path document (cd_attr c)) (cd_value c)"

section \<open>No grant on confusion\<close>

text \<open>Where a condition may hold: two numbers or two values of one type; for an ordering two numbers or two texts;
  for \<^verbatim>\<open>in\<close> and \<^verbatim>\<open>contains\<close> a list with an element that is equal and of a fitting type, or one
  text inside another. A bool is no number.\<close>

definition ordered_alike :: "attr \<Rightarrow> attr \<Rightarrow> bool" where
  "ordered_alike a b \<longleftrightarrow> is_numeric a \<and> is_numeric b \<or> (\<exists>s t. a = AStr s \<and> b = AStr t)"

definition strictly_equal :: "attr \<Rightarrow> attr \<Rightarrow> bool" where
  "strictly_equal a b \<longleftrightarrow> type_compatible a b \<and> values_equal a b = Inr True"

definition fitting :: "cmp_op \<Rightarrow> attr \<Rightarrow> attr \<Rightarrow> bool" where
  "fitting op a b \<longleftrightarrow> (case op of
     OpEq \<Rightarrow> strictly_equal a b
   | OpNeq \<Rightarrow> type_compatible a b
   | OpIn \<Rightarrow> (\<exists>vs. b = AList vs \<and> (\<exists>v \<in> set vs. strictly_equal a v))
   | OpContains \<Rightarrow> (\<exists>vs. a = AList vs \<and> (\<exists>v \<in> set vs. strictly_equal v b)) \<or>
       (\<exists>s t. a = AStr s \<and> b = AStr t \<and> is_infix t s)
   | _ \<Rightarrow> ordered_alike a b)"

lemma values_equal_strict: "values_equal a b = Inr True \<Longrightarrow> strictly_equal a b"
  by (auto simp: strictly_equal_def values_equal_def type_compatible_def split: if_splits)

lemma any_equal_ex: "any_equal f vs = Inr True \<Longrightarrow> \<exists>v \<in> set vs. f v = Inr True"
  by (induction vs) (auto split: if_splits)

lemma apply_cmp_fitting: "apply_cmp op a b = Inr True \<Longrightarrow> fitting op a b"
proof (cases op)
  case OpIn
  then show "apply_cmp op a b = Inr True \<Longrightarrow> fitting op a b"
    by (cases b) (auto simp: fitting_def dest!: any_equal_ex dest: values_equal_strict)
next
  case OpContains
  then show "apply_cmp op a b = Inr True \<Longrightarrow> fitting op a b"
    by (cases a; cases b) (auto simp: fitting_def dest!: any_equal_ex dest: values_equal_strict)
qed (auto simp: fitting_def ordered_alike_def values_equal_strict split: if_splits attr.splits)

lemma compare_holds:
  assumes "compare_attr op actual expected = Inr True"
  shows "\<exists>a. actual = Some a \<and> tree_has_nonfinite a = Inr False \<and> tree_has_nonfinite expected = Inr False \<and>
    fitting op a expected \<and> apply_cmp op a expected = Inr True"
  using assms by (auto simp: compare_attr_def apply_cmp_fitting split: option.splits if_splits)

end
