(* ===== verification/Policies.thy ===== *)
theory Policies
  imports Policy_Values Envelope
begin

text \<open>
  The policy providers of \<^verbatim>\<open>policy_providers.py\<close>: the fail-closed entry point, the
  native rule list from a signed document, the Cedar and the Rego subset, and the signed decision
  records. \<^verbatim>\<open>re.compile\<close> and the models that pydantic reads from a payload are
  parameters; the reason of a decision is its constant text.
\<close>

section \<open>Decisions\<close>

definition out_allow :: pystr where "out_allow = py ''ALLOW''"
definition out_deny :: pystr where "out_deny = py ''DENY''"
definition out_abstain :: pystr where "out_abstain = py ''ABSTAIN''"

record provider_decision =
  pd_outcome :: pystr
  pd_reason :: pystr
  pd_obligations :: "pystr list"

definition deny_with :: "string \<Rightarrow> provider_decision" where
  "deny_with reason = \<lparr>pd_outcome = out_deny, pd_reason = py reason, pd_obligations = []\<rparr>"

text \<open>What \<^verbatim>\<open>evaluate\<close> of a provider returns: a decision, or any other object.\<close>

datatype returned = Verdict provider_decision | NotADecision

definition policy_decide :: "returned res \<Rightarrow> provider_decision" where
  "policy_decide r = (case r of
     Inl e \<Rightarrow> deny_with ''provider raised''
   | Inr NotADecision \<Rightarrow> deny_with ''provider returned non-decision''
   | Inr (Verdict d) \<Rightarrow> if pd_outcome d \<in> {out_allow, out_deny, out_abstain} then d
       else deny_with ''provider returned invalid outcome'')"

section \<open>The interface of a provider\<close>

text \<open>
  \<open>grants st e c\<close> is what the policy in force says of an envelope and a context; a provider may
  only return ALLOW where it holds.
\<close>

locale policy_provider =
  fixes evaluate :: "'st \<Rightarrow> action_envelope \<Rightarrow> (pystr \<times> attr) list \<Rightarrow> returned res"
    and grants :: "'st \<Rightarrow> action_envelope \<Rightarrow> (pystr \<times> attr) list \<Rightarrow> bool"
  assumes allow_sound: "evaluate st e c = Inr (Verdict d) \<Longrightarrow> pd_outcome d = out_allow \<Longrightarrow> grants st e c"
    and allow_complete: "grants st e c \<Longrightarrow> \<exists>d. evaluate st e c = Inr (Verdict d) \<and> pd_outcome d = out_allow"
begin

text \<open>The entry point allows exactly what the policy grants: no failure becomes an ALLOW.\<close>

lemma decide_exact: "pd_outcome (policy_decide (evaluate st e c)) = out_allow \<longleftrightarrow> grants st e c"
proof
  assume "pd_outcome (policy_decide (evaluate st e c)) = out_allow"
  then obtain d where "evaluate st e c = Inr (Verdict d)" "pd_outcome d = out_allow"
    by (auto simp: policy_decide_def deny_with_def out_allow_def out_deny_def py_def split: sum.splits returned.splits if_splits)
  then show "grants st e c" by (rule allow_sound)
next
  assume "grants st e c"
  with allow_complete show "pd_outcome (policy_decide (evaluate st e c)) = out_allow" by (fastforce simp: policy_decide_def)
qed

end

text \<open>A provider that never abstains: whatever it does not grant is denied, failures included.\<close>

locale deciding_provider = policy_provider +
  assumes allow_or_deny: "evaluate st e c = Inr (Verdict d) \<Longrightarrow> pd_outcome d \<in> {out_allow, out_deny}"
begin

lemma decide_complete:
  "pd_outcome (policy_decide (evaluate st e c)) = (if grants st e c then out_allow else out_deny)"
proof -
  have "pd_outcome (policy_decide (evaluate st e c)) \<in> {out_allow, out_deny}"
    using allow_or_deny [of st e c] by (auto simp: policy_decide_def deny_with_def split: sum.splits returned.splits)
  with decide_exact show ?thesis by auto
qed

end

section \<open>Native rules\<close>

datatype match_field = MPrincipal | MPlane | MVerb | MTarget

definition field_of :: "action_envelope \<Rightarrow> match_field \<Rightarrow> pystr" where
  "field_of e f = (case f of MPrincipal \<Rightarrow> principal e | MPlane \<Rightarrow> plane (effect e) | MVerb \<Rightarrow> verb (effect e)
     | MTarget \<Rightarrow> target (effect e))"

record native_rule =
  nr_id :: pystr
  nr_match :: "(match_field \<times> pystr) list"
  nr_allow :: bool
  nr_obligations :: "pystr list"

record native_doc =
  nd_version :: int
  nd_rules :: "native_rule list"

definition valid_native_doc :: "native_doc \<Rightarrow> bool" where
  "valid_native_doc d \<longleftrightarrow> 1 \<le> nd_version d \<and> list_all (\<lambda>r. nr_match r \<noteq> []) (nd_rules d)"

text \<open>A compiled pattern answers \<^verbatim>\<open>fullmatch\<close>; \<open>None\<close> is \<^verbatim>\<open>re.error\<close>.\<close>

type_synonym regex = "pystr \<Rightarrow> (pystr \<Rightarrow> bool) option"
type_synonym compiled_rule = "native_rule \<times> (match_field \<times> (pystr \<Rightarrow> bool)) list"

definition compile_rule :: "regex \<Rightarrow> native_rule \<Rightarrow> compiled_rule res" where
  "compile_rule R r = rbind (rmap (\<lambda>(f, p). rbind (of_option PolicyError ''invalid regex in rule'' (R p)) (\<lambda>m. Inr (f, m)))
     (nr_match r)) (\<lambda>ps. Inr (r, ps))"

record native_provider =
  np_keys :: "(pystr \<times> bytes) list"
  np_min_version :: int
  np_doc :: "native_doc option"
  np_compiled :: "compiled_rule list"
  np_version :: pystr

definition new_native :: "(pystr \<times> bytes) list \<Rightarrow> int \<Rightarrow> native_provider" where
  "new_native keys min_version = \<lparr>np_keys = keys, np_min_version = min_version, np_doc = None, np_compiled = [],
     np_version = py ''0''\<rparr>"

definition policy_keys :: "(pystr \<times> bytes) list \<Rightarrow> trust res" where
  "policy_keys keys = except PyException PolicyError ''bad trusted key'' (load_keys keys)"

definition cose_payload :: "prims \<Rightarrow> bytes \<Rightarrow> (pystr \<times> bytes) list \<Rightarrow> bytes res" where
  "cose_payload P raw keys = rbind (policy_keys keys) (\<lambda>trusted.
     rbind (except COSEError PolicyError ''signature verification failed'' (cose_verify P (PBytes raw) trusted [])) (\<lambda>(pl, _). Inr pl))"

text \<open>The document: pydantic's reading of it is \<open>read_doc\<close>.\<close>

definition parse_native :: "prims \<Rightarrow> regex \<Rightarrow> (pyval \<Rightarrow> native_doc option) \<Rightarrow> bytes \<Rightarrow> native_provider
    \<Rightarrow> (native_doc \<times> compiled_rule list) res" where
  "parse_native P R read_doc raw np =
     rbind (cose_payload P raw (np_keys np)) (\<lambda>pl.
     rbind (except PyException PolicyError ''payload is not valid CBOR'' (cbor_loads pl)) (\<lambda>v.
     rbind (of_option PolicyError ''malformed document'' (read_doc v)) (\<lambda>d.
     require (valid_native_doc d) PolicyError ''malformed document''
     (require (np_min_version np \<le> nd_version d) PolicyError ''version below pinned minimum (rollback refused)''
     (rbind (rmap (compile_rule R) (nd_rules d)) (\<lambda>cs. Inr (d, cs)))))))"

definition load_signed_policy :: "prims \<Rightarrow> regex \<Rightarrow> (pyval \<Rightarrow> native_doc option) \<Rightarrow> bytes \<Rightarrow> native_provider
    \<Rightarrow> unit res \<times> native_provider" where
  "load_signed_policy P R read_doc raw np = (case parse_native P R read_doc raw np of
     Inl e \<Rightarrow> (Inl e, np)
   | Inr (d, cs) \<Rightarrow> (Inr (), np\<lparr>np_doc := Some d, np_compiled := cs, np_version := int_text (nd_version d)\<rparr>))"

definition rule_matches :: "action_envelope \<Rightarrow> compiled_rule \<Rightarrow> bool" where
  "rule_matches e = (\<lambda>(r, ps). list_all (\<lambda>(f, m). m (field_of e f)) ps)"

definition rule_verdict :: "native_rule \<Rightarrow> provider_decision" where
  "rule_verdict r = \<lparr>pd_outcome = (if nr_allow r then out_allow else out_deny), pd_reason = py ''native rule matched'',
     pd_obligations = nr_obligations r\<rparr>"

fun first_match :: "action_envelope \<Rightarrow> compiled_rule list \<Rightarrow> provider_decision" where
  "first_match e [] = deny_with ''no native rule matched (default deny)''"
| "first_match e (c # cs) = (if rule_matches e c then rule_verdict (fst c) else first_match e cs)"

definition native_evaluate :: "native_provider \<Rightarrow> action_envelope \<Rightarrow> (pystr \<times> attr) list \<Rightarrow> returned res" where
  "native_evaluate np e ctx = Inr (Verdict (if np_doc np = None then deny_with ''no valid native policy loaded''
     else first_match e (np_compiled np)))"

section \<open>The Cedar subset\<close>

definition input_document :: "action_envelope \<Rightarrow> (pystr \<times> attr) list \<Rightarrow> (pystr \<times> attr) list" where
  "input_document e ctx = [(py ''principal'', AStr (principal e)), (py ''plane'', AStr (plane (effect e))),
     (py ''verb'', AStr (verb (effect e))), (py ''target'', AStr (target (effect e))), (py ''context'', ADict ctx)]"

record cedar_policy =
  cp_permit :: bool
  cp_principal :: "pystr option"
  cp_action :: "pystr option"
  cp_resource :: "pystr option"
  cp_when :: "condition list"
  cp_unless :: "condition list"

fun all_hold :: "condition list \<Rightarrow> (pystr \<times> attr) list \<Rightarrow> bool res" where
  "all_hold [] doc = Inr True"
| "all_hold (c # cs) doc = rbind (holds c doc) (\<lambda>b. if b then all_hold cs doc else Inr False)"

fun any_holds :: "condition list \<Rightarrow> (pystr \<times> attr) list \<Rightarrow> bool res" where
  "any_holds [] doc = Inr False"
| "any_holds (c # cs) doc = rbind (holds c doc) (\<lambda>b. if b then Inr True else any_holds cs doc)"

definition in_scope :: "cedar_policy \<Rightarrow> action_envelope \<Rightarrow> bool" where
  "in_scope p e \<longleftrightarrow> cp_principal p \<in> {None, Some (principal e)} \<and>
     cp_action p \<in> {None, Some (plane (effect e) @ [58] @ verb (effect e))} \<and> cp_resource p \<in> {None, Some (target (effect e))}"

definition cedar_applies :: "cedar_policy \<Rightarrow> action_envelope \<Rightarrow> (pystr \<times> attr) list \<Rightarrow> bool res" where
  "cedar_applies p e doc =
     (if \<not> in_scope p e then Inr False
      else rbind (all_hold (cp_when p) doc) (\<lambda>w. if \<not> w then Inr False
      else rbind (any_holds (cp_unless p) doc) (\<lambda>u. Inr (\<not> u))))"

text \<open>The loop: the number of applicable permits, or the end at the first applicable forbid.\<close>

fun count_permits :: "cedar_policy list \<Rightarrow> action_envelope \<Rightarrow> (pystr \<times> attr) list \<Rightarrow> nat \<Rightarrow> nat option res" where
  "count_permits [] e doc n = Inr (Some n)"
| "count_permits (p # ps) e doc n = rbind (cedar_applies p e doc) (\<lambda>a.
     if \<not> a then count_permits ps e doc n
     else if \<not> cp_permit p then Inr None
     else count_permits ps e doc (Suc n))"

definition cedar_evaluate :: "cedar_policy list \<Rightarrow> action_envelope \<Rightarrow> (pystr \<times> attr) list \<Rightarrow> returned res" where
  "cedar_evaluate ps e ctx = rbind (count_permits ps e (input_document e ctx) 0) (\<lambda>r. Inr (Verdict (case r of
     None \<Rightarrow> deny_with ''cedar forbid policy applied (forbid overrides permit)''
   | Some n \<Rightarrow> if 0 < n then \<lparr>pd_outcome = out_allow, pd_reason = py ''cedar permit applied'', pd_obligations = []\<rparr>
       else deny_with ''no applicable cedar permit (default deny)'')))"

section \<open>The Rego subset\<close>

record rego_rule =
  rr_name :: pystr
  rr_conditions :: "condition list"

fun rego_loop :: "rego_rule list \<Rightarrow> (pystr \<times> attr) list \<Rightarrow> provider_decision res" where
  "rego_loop [] doc = Inr (deny_with ''no rego rule satisfied (default deny)'')"
| "rego_loop (r # rs) doc =
     (if rr_conditions r = [] then rego_loop rs doc
      else rbind (all_hold (rr_conditions r) doc) (\<lambda>b.
        if b then Inr \<lparr>pd_outcome = out_allow, pd_reason = py ''rego rule satisfied'', pd_obligations = []\<rparr>
        else rego_loop rs doc))"

definition rego_evaluate :: "rego_rule list \<Rightarrow> action_envelope \<Rightarrow> (pystr \<times> attr) list \<Rightarrow> returned res" where
  "rego_evaluate rs e ctx = rbind (rego_loop rs (input_document e ctx)) (\<lambda>d. Inr (Verdict d))"

section \<open>Decision records\<close>

record decision_record =
  rec_digest :: pystr
  rec_provider :: pystr
  rec_version :: pystr
  rec_outcome :: pystr
  rec_reason :: pystr
  rec_evaluated_at :: int

text \<open>The validators of the model, after pydantic's reading of the fields.\<close>

definition valid_decision_record :: "decision_record \<Rightarrow> bool" where
  "valid_decision_record r \<longleftrightarrow> length (rec_digest r) = 64 \<and> list_all (\<lambda>c. 48 \<le> c \<and> c \<le> 57 \<or> 97 \<le> c \<and> c \<le> 102) (rec_digest r) \<and>
     rec_outcome r \<in> {out_allow, out_deny, out_abstain}"

definition decision_record_dump :: "prims \<Rightarrow> decision_record \<Rightarrow> pyval" where
  "decision_record_dump P r = PDict [(PStr (py ''action_digest''), PStr (rec_digest r)), (PStr (py ''provider_id''), PStr (rec_provider r)),
     (PStr (py ''policy_version''), PStr (rec_version r)), (PStr (py ''outcome''), PStr (rec_outcome r)),
     (PStr (py ''reason''), PStr (rec_reason r)), (PStr (py ''evaluated_at''), PStr (dt_json P (rec_evaluated_at r)))]"

definition sign_decision_record :: "prims \<Rightarrow> decision_record \<Rightarrow> signer \<Rightarrow> bytes res" where
  "sign_decision_record P r sg = rbind (cbor_dumps (decision_record_dump P r)) (\<lambda>b. rbind (utf8_encode (key_id sg)) (\<lambda>kid.
     cose_sign_bytes b (sign_bytes sg) kid []))"

definition issue_decision_record :: "prims \<Rightarrow> pystr \<Rightarrow> pystr \<Rightarrow> int \<Rightarrow> provider_decision \<Rightarrow> action_envelope \<Rightarrow> signer \<Rightarrow> bytes res" where
  "issue_decision_record P provider ver clock d e sg =
     rbind (action_digest P e) (\<lambda>dig.
     let r = \<lparr>rec_digest = dig, rec_provider = provider, rec_version = ver, rec_outcome = pd_outcome d,
       rec_reason = pd_reason d, rec_evaluated_at = clock\<rparr>
     in require (valid_decision_record r) ValidationError ''PolicyDecisionRecord'' (sign_decision_record P r sg))"

definition verify_decision_record :: "prims \<Rightarrow> (pyval \<Rightarrow> decision_record option) \<Rightarrow> bytes \<Rightarrow> (pystr \<times> bytes) list
    \<Rightarrow> decision_record res" where
  "verify_decision_record P read_rec raw keys =
     rbind (cose_payload P raw keys) (\<lambda>pl.
     rbind (except PyException PolicyError ''payload is not valid CBOR'' (cbor_loads pl)) (\<lambda>v.
     rbind (of_option PolicyError ''malformed'' (read_rec v)) (\<lambda>r.
     require (valid_decision_record r) PolicyError ''malformed'' (Inr r))))"

definition check_decision_binding :: "prims \<Rightarrow> decision_record \<Rightarrow> action_envelope \<Rightarrow> unit res" where
  "check_decision_binding P r e = rbind (action_digest P e) (\<lambda>d.
     require (rec_digest r = d) PolicyError ''decision record action_digest does not match envelope'' (Inr ()))"

section \<open>Signing and loading policies\<close>

definition match_key :: "match_field \<Rightarrow> pystr" where
  "match_key f = (case f of MPrincipal \<Rightarrow> py ''principal'' | MPlane \<Rightarrow> py ''plane'' | MVerb \<Rightarrow> py ''verb'' | MTarget \<Rightarrow> py ''target'')"

definition native_dump :: "native_doc \<Rightarrow> pyval" where
  "native_dump d = PDict [(PStr (py ''version''), PInt (nd_version d)), (PStr (py ''rules''), PList (map (\<lambda>r. PDict
     [(PStr (py ''id''), PStr (nr_id r)),
      (PStr (py ''match''), PDict (map (\<lambda>(f, p). (PStr (match_key f), PStr p)) (nr_match r))),
      (PStr (py ''effect''), PStr (if nr_allow r then py ''allow'' else py ''deny'')),
      (PStr (py ''obligations''), PList (map PStr (nr_obligations r)))]) (nd_rules d)))]"

definition sign_native_policy :: "native_doc \<Rightarrow> signer \<Rightarrow> bytes res" where
  "sign_native_policy d sg = rbind (cbor_dumps (native_dump d)) (\<lambda>b. rbind (utf8_encode (key_id sg)) (\<lambda>kid.
     cose_sign_bytes b (sign_bytes sg) kid []))"

text \<open>The adapters hold what pydantic read from the policy, or are not constructed.\<close>

definition new_cedar :: "('p \<Rightarrow> (pystr \<times> cedar_policy list) option) \<Rightarrow> 'p \<Rightarrow> (pystr \<times> cedar_policy list) res" where
  "new_cedar read_policies policy = of_option PolicyError ''cedar policy: malformed'' (read_policies policy)"

definition new_opa :: "('p \<Rightarrow> (pystr \<times> rego_rule list) option) \<Rightarrow> 'p \<Rightarrow> (pystr \<times> rego_rule list) res" where
  "new_opa read_policy policy = of_option PolicyError ''rego policy: malformed'' (read_policy policy)"

end
