(* ===== verification/Policies_Properties.thy ===== *)
theory Policies_Properties
  imports Policies Capability Envelope_Properties
begin

text \<open>
  What the policy providers guarantee: each of them provides the fail-closed interface for the
  meaning of its policy language, and the signed documents are read back as they were signed.
\<close>

section \<open>The meaning of the policies\<close>

lemma all_hold_True: "all_hold cs doc = Inr True \<longleftrightarrow> list_all (\<lambda>c. holds c doc = Inr True) cs"
  by (induction cs) (auto split: if_splits)

lemma any_holds_False: "any_holds cs doc = Inr False \<longleftrightarrow> list_all (\<lambda>c. holds c doc = Inr False) cs"
  by (induction cs) (auto split: if_splits)

lemma cedar_applies_True:
  "cedar_applies p e doc = Inr True \<longleftrightarrow> in_scope p e \<and> list_all (\<lambda>c. holds c doc = Inr True) (cp_when p) \<and>
     list_all (\<lambda>c. holds c doc = Inr False) (cp_unless p)"
  by (auto simp: cedar_applies_def all_hold_True [symmetric] any_holds_False [symmetric] split: if_splits)

text \<open>Cedar: every policy is evaluated without an error, no forbid applies and some permit does.\<close>

definition cedar_grants :: "cedar_policy list \<Rightarrow> action_envelope \<Rightarrow> (pystr \<times> attr) list \<Rightarrow> bool" where
  "cedar_grants ps e ctx \<longleftrightarrow> (\<forall>p \<in> set ps. \<not> isl (cedar_applies p e (input_document e ctx))) \<and>
     (\<exists>p \<in> set ps. cp_permit p \<and> cedar_applies p e (input_document e ctx) = Inr True) \<and>
     (\<forall>p \<in> set ps. cp_permit p \<or> cedar_applies p e (input_document e ctx) = Inr False)"

lemma count_permits_Some:
  "count_permits ps e doc n = Inr (Some m) \<longleftrightarrow>
     (\<forall>p \<in> set ps. \<not> isl (cedar_applies p e doc) \<and> (cp_permit p \<or> cedar_applies p e doc = Inr False)) \<and>
     m = n + length (filter (\<lambda>p. cedar_applies p e doc = Inr True) ps)"
proof (induction ps arbitrary: n)
  case (Cons p ps)
  then show ?case by (cases "cedar_applies p e doc") auto
qed auto

lemma cedar_evaluate_allow:
  "(\<exists>d. cedar_evaluate ps e ctx = Inr (Verdict d) \<and> pd_outcome d = out_allow) \<longleftrightarrow> cedar_grants ps e ctx"
proof -
  let ?doc = "input_document e ctx"
  have outcomes: "pd_outcome (deny_with r) \<noteq> out_allow" for r by (simp add: deny_with_def out_deny_def out_allow_def py_def)
  have "(\<exists>d. cedar_evaluate ps e ctx = Inr (Verdict d) \<and> pd_outcome d = out_allow) \<longleftrightarrow>
      (\<exists>m. count_permits ps e ?doc 0 = Inr (Some m) \<and> 0 < m)"
    by (cases "count_permits ps e ?doc 0") (auto simp: cedar_evaluate_def outcomes split: option.splits)
  also have "\<dots> \<longleftrightarrow> cedar_grants ps e ctx"
    unfolding count_permits_Some cedar_grants_def
    by (auto simp: filter_empty_conv)
  finally show ?thesis .
qed

text \<open>Rego: some rule with a body holds, and no rule before it raised.\<close>

definition rego_grants :: "rego_rule list \<Rightarrow> action_envelope \<Rightarrow> (pystr \<times> attr) list \<Rightarrow> bool" where
  "rego_grants rs e ctx \<longleftrightarrow> (\<exists>before r after. rs = before @ r # after \<and> rr_conditions r \<noteq> [] \<and>
     list_all (\<lambda>c. holds c (input_document e ctx) = Inr True) (rr_conditions r) \<and>
     (\<forall>r' \<in> set before. rr_conditions r' = [] \<or> all_hold (rr_conditions r') (input_document e ctx) = Inr False))"

lemma first_Cons:
  "(\<exists>before q after. r # rs = before @ q # after \<and> A q \<and> (\<forall>q' \<in> set before. B q')) \<longleftrightarrow>
     A r \<or> B r \<and> (\<exists>before q after. rs = before @ q # after \<and> A q \<and> (\<forall>q' \<in> set before. B q'))"
    (is "?l \<longleftrightarrow> _ \<or> B r \<and> ?t")
proof
  assume ?l
  then obtain before q after where *: "r # rs = before @ q # after" "A q" "\<forall>q' \<in> set before. B q'" by blast
  then show "A r \<or> B r \<and> ?t" by (cases before) auto
next
  assume "A r \<or> B r \<and> ?t"
  then show ?l
  proof
    assume "A r"
    then show ?l by (intro exI [of _ "[]"]) simp
  next
    assume "B r \<and> ?t"
    then obtain before q after where "B r" "rs = before @ q # after" "A q" "\<forall>q' \<in> set before. B q'" by blast
    then show ?l by (intro exI [of _ "r # before"] exI [of _ q] exI [of _ after]) simp
  qed
qed

lemma rego_loop_allow:
  "(\<exists>d. rego_loop rs doc = Inr d \<and> pd_outcome d = out_allow) \<longleftrightarrow>
     (\<exists>before r after. rs = before @ r # after \<and> (rr_conditions r \<noteq> [] \<and> all_hold (rr_conditions r) doc = Inr True) \<and>
        (\<forall>r' \<in> set before. rr_conditions r' = [] \<or> all_hold (rr_conditions r') doc = Inr False))"
proof (induction rs)
  case Nil
  then show ?case by (simp add: deny_with_def out_deny_def out_allow_def py_def)
next
  case (Cons r rs)
  show ?case
    unfolding first_Cons Cons.IH [symmetric]
    by (cases "all_hold (rr_conditions r) doc") auto
qed

lemma rego_evaluate_allow:
  "(\<exists>d. rego_evaluate rs e ctx = Inr (Verdict d) \<and> pd_outcome d = out_allow) \<longleftrightarrow> rego_grants rs e ctx"
  using rego_loop_allow [of rs "input_document e ctx"] by (simp add: rego_evaluate_def rego_grants_def all_hold_True)

text \<open>Native: a policy is loaded, and its first matching rule allows.\<close>

definition native_grants :: "native_provider \<Rightarrow> action_envelope \<Rightarrow> (pystr \<times> attr) list \<Rightarrow> bool" where
  "native_grants np e ctx \<longleftrightarrow> np_doc np \<noteq> None \<and>
     (\<exists>c. find (rule_matches e) (np_compiled np) = Some c \<and> nr_allow (fst c))"

lemma first_match_find: "first_match e cs = (case find (rule_matches e) cs of
    None \<Rightarrow> deny_with ''no native rule matched (default deny)'' | Some c \<Rightarrow> rule_verdict (fst c))"
  by (induction cs) auto

lemma native_evaluate_allow:
  "(\<exists>d. native_evaluate np e ctx = Inr (Verdict d) \<and> pd_outcome d = out_allow) \<longleftrightarrow> native_grants np e ctx"
  by (auto simp: native_evaluate_def native_grants_def first_match_find deny_with_def rule_verdict_def out_allow_def
      out_deny_def py_def split: option.splits)

lemma native_evaluate_outcome: "native_evaluate np e ctx = Inr (Verdict d) \<Longrightarrow> pd_outcome d \<in> {out_allow, out_deny}"
  by (auto simp: native_evaluate_def first_match_find deny_with_def rule_verdict_def split: option.splits)

lemma cedar_evaluate_outcome: "cedar_evaluate ps e ctx = Inr (Verdict d) \<Longrightarrow> pd_outcome d \<in> {out_allow, out_deny}"
  by (auto simp: cedar_evaluate_def deny_with_def split: option.splits)

lemma rego_loop_outcome: "rego_loop rs doc = Inr d \<Longrightarrow> pd_outcome d \<in> {out_allow, out_deny}"
  by (induction rs) (auto simp: deny_with_def split: if_splits)

interpretation cedar: deciding_provider cedar_evaluate cedar_grants
  using cedar_evaluate_allow cedar_evaluate_outcome by unfold_locales blast+

interpretation opa: deciding_provider rego_evaluate rego_grants
  using rego_evaluate_allow rego_loop_outcome by unfold_locales (blast | fastforce simp: rego_evaluate_def)+

interpretation native: deciding_provider native_evaluate native_grants
  using native_evaluate_allow native_evaluate_outcome by unfold_locales blast+

section \<open>Decisions\<close>

text \<open>C10: the fail-closed entry point of every provider answers ALLOW exactly where its policy grants and DENY everywhere
  else, also where a condition raises: Cedar grants where some permit and no forbid applies, Rego where some rule with
  a body holds, a native policy where one is loaded and its first matching rule allows. And whatever a provider does (an
  exception, an object that is no decision, a decision with another outcome), an answer that is not a DENY is the
  ALLOW or ABSTAIN that the provider itself returned.\<close>

theorem providers_decide_exactly:
  "pd_outcome (policy_decide (cedar_evaluate ps e ctx)) = (if cedar_grants ps e ctx then out_allow else out_deny) \<and>
   pd_outcome (policy_decide (rego_evaluate rs e ctx)) = (if rego_grants rs e ctx then out_allow else out_deny) \<and>
   pd_outcome (policy_decide (native_evaluate np e ctx)) = (if native_grants np e ctx then out_allow else out_deny) \<and>
   (pd_outcome (policy_decide r) = out_deny \<or>
    r = Inr (Verdict (policy_decide r)) \<and> pd_outcome (policy_decide r) \<in> {out_allow, out_abstain})"
proof (intro conjI)
  show "pd_outcome (policy_decide r) = out_deny \<or>
    r = Inr (Verdict (policy_decide r)) \<and> pd_outcome (policy_decide r) \<in> {out_allow, out_abstain}"
    by (auto simp: policy_decide_def deny_with_def split: sum.splits returned.splits)
qed (rule cedar.decide_complete opa.decide_complete native.decide_complete)+

text \<open>C21: a condition holds only for an attribute that exists and is finite all through, as is the literal, and on types
  that fit: equality and inequality relate two numbers or two values of one exact type, an ordering two numbers or two
  texts, and \<^verbatim>\<open>in\<close> and \<^verbatim>\<open>contains\<close> need a list with an element of a fitting type that is equal,
  or a text inside a text. A bool is no number, so \<^verbatim>\<open>True\<close> is not in a list with a 1: confusion of the types of the
  two values compared and non-finite numbers make a condition false, for every operator.\<close>

theorem condition_never_confused:
  assumes "holds c document = Inr True"
  shows "\<exists>a. resolve_path document (cd_attr c) = Some a \<and> tree_has_nonfinite a = Inr False \<and>
    tree_has_nonfinite (cd_value c) = Inr False \<and> fitting (cd_op c) a (cd_value c)"
  using compare_holds [OF assms [unfolded holds_def]] by blast

definition demo_condition :: "cmp_op \<Rightarrow> attr \<Rightarrow> condition" where
  "demo_condition op v = \<lparr>cd_attr = py ''context.risk'', cd_op = op, cd_value = v\<rparr>"

definition demo_context :: "attr \<Rightarrow> (pystr \<times> attr) list" where
  "demo_context v = [(py ''risk'', v)]"

lemma demo_resolve:
  "resolve_path (input_document e (demo_context v)) (py ''context.risk'') = Some v"
  "resolve_path (input_document e []) (py ''context.risk'') = None"
  by (simp_all add: resolve_path_def input_document_def demo_context_def py_def)

theorem condition_never_confused_witness:
  "holds (demo_condition OpNeq (AInt 5)) (input_document (demo_envelope ''alice'') (demo_context (AInt 7))) = Inr True \<and>
   (\<exists>a. resolve_path (input_document (demo_envelope ''alice'') (demo_context (AInt 7))) (py ''context.risk'') = Some a \<and>
      type_compatible a (AInt 5))"
proof -
  have "holds (demo_condition OpNeq (AInt 5)) (input_document (demo_envelope ''alice'') (demo_context (AInt 7))) = Inr True"
    by (simp add: holds_def demo_condition_def demo_resolve compare_attr_def is_nonfinite_number_def float_limit_def
        type_compatible_def values_equal_def number_key_def)
  from this condition_never_confused [OF this] show ?thesis
    by (auto simp: demo_condition_def fitting_def)
qed

text \<open>
  The guarantee is about single conditions. A permit with an \<^verbatim>\<open>unless\<close> clause, or a
  forbid with a \<^verbatim>\<open>when\<close> clause, is switched by a condition that is false, so there the
  missing attribute, the number in a text and the NaN grant.
\<close>

definition unless_risky :: cedar_policy where
  "unless_risky = \<lparr>cp_permit = True, cp_principal = None, cp_action = None, cp_resource = None, cp_when = [],
     cp_unless = [demo_condition OpGt (AInt 5)]\<rparr>"

definition forbid_risky :: cedar_policy where
  "forbid_risky = \<lparr>cp_permit = False, cp_principal = None, cp_action = None, cp_resource = None,
     cp_when = [demo_condition OpGt (AInt 5)], cp_unless = []\<rparr>"

text \<open>C38: under a permit unless the risk exceeds five, and under a permit with a forbid on that condition, a risk of nine is
  denied, while no risk at all, the text 9 and the float NaN are allowed.\<close>

theorem confusion_grants_through_unless:
  "list_all (\<lambda>ps. pd_outcome (policy_decide (cedar_evaluate ps e (demo_context (AInt 9)))) = out_deny \<and>
     pd_outcome (policy_decide (cedar_evaluate ps e [])) = out_allow \<and>
     pd_outcome (policy_decide (cedar_evaluate ps e (demo_context (AStr (py ''9''))))) = out_allow \<and>
     pd_outcome (policy_decide (cedar_evaluate ps e (demo_context (AFloat nan_f64)))) = out_allow)
   [[unless_risky], [unless_risky\<lparr>cp_unless := []\<rparr>, forbid_risky]]"
proof -
  have nan: "\<not> is_finite nan_f64" using nan_f64_is_nan by (simp add: is_nan_def is_finite_def)
  have c: "holds (demo_condition OpGt (AInt 5)) (input_document e (demo_context (AInt 9))) = Inr True"
    "holds (demo_condition OpGt (AInt 5)) (input_document e []) = Inr False"
    "holds (demo_condition OpGt (AInt 5)) (input_document e (demo_context (AStr (py ''9'')))) = Inr False"
    "holds (demo_condition OpGt (AInt 5)) (input_document e (demo_context (AFloat nan_f64))) = Inr False"
    by (simp_all add: holds_def demo_condition_def demo_resolve compare_attr_def is_nonfinite_number_def float_limit_def
        numeric_ordering_def number_key_def nan)
  have o: "out_deny \<noteq> out_allow" by (simp add: out_deny_def out_allow_def py_def)
  show ?thesis
    by (simp add: cedar_evaluate_def cedar_applies_def in_scope_def unless_risky_def forbid_risky_def c policy_decide_def
        deny_with_def o)
qed

section \<open>Signed documents\<close>

text \<open>A document that a trusted key signed is read back as it was written.\<close>

lemma cose_payload_signed:
  assumes "signer_ok P sg" "cbor_dumps v = Inr b" "cose_sign_bytes b (sign_bytes sg) kid [] = Inr raw"
    and "load_keys keys = Inr trusted" "trusted kid = Some (public_key_bytes sg)" "cbor_plain v"
  shows "cose_payload P raw keys = Inr b \<and> cbor_loads b = Inr (nf v)"
proof -
  have "cose_verify P (PBytes raw) trusted [] = Inr (b, kid)"
    using assms(1,3,5) by (intro cose_verify_sign) (auto simp: signer_ok_def)
  with assms(4) cbor_loads_dumps [OF assms(6,2)] show ?thesis by (simp add: cose_payload_def policy_keys_def)
qed

lemma plain_decision: "cbor_plain (decision_record_dump P r)"
  by (simp add: decision_record_dump_def uniform_keys_def max_recursion_depth_def numeral_eq_Suc)

text \<open>What pydantic reads from a record that \<^verbatim>\<open>model_dump\<close> wrote, up to its validators.\<close>

definition reads_decisions :: "prims \<Rightarrow> (pyval \<Rightarrow> decision_record option) \<Rightarrow> bool" where
  "reads_decisions P rd \<longleftrightarrow> (\<forall>r. rd (nf (decision_record_dump P r)) = Some r)"

lemma issue_record_ok:
  assumes "issue_decision_record P provider ver tick d e sg = Inr raw"
  obtains dig r b kid where "action_digest P e = Inr dig" "utf8_encode (key_id sg) = Inr kid"
    "r = \<lparr>rec_digest = dig, rec_provider = provider, rec_version = ver, rec_outcome = pd_outcome d,
       rec_reason = pd_reason d, rec_evaluated_at = tick\<rparr>"
    "valid_decision_record r" "cbor_dumps (decision_record_dump P r) = Inr b" "cose_sign_bytes b (sign_bytes sg) kid [] = Inr raw"
  using assms by (auto simp: issue_decision_record_def sign_decision_record_def Let_def)

text \<open>An issued decision record verifies under the key of its signer and reads back the provider, the version,
  the outcome and the digest of the envelope it was issued for; it binds that envelope, and another
  envelope only if its canonical bytes collide with it under SHA-256.\<close>

theorem decision_record_binds:
  assumes "signer_ok P sg" "reads_decisions P rd" "inj (dt_json P)"
    and "issue_decision_record P provider ver tick d e sg = Inr raw"
    and "load_keys keys = Inr trusted" "utf8_encode (key_id sg) = Inr kid" "trusted kid = Some (public_key_bytes sg)"
  shows "\<exists>r. verify_decision_record P rd raw keys = Inr r \<and> rec_outcome r = pd_outcome d \<and> rec_provider r = provider \<and>
    rec_version r = ver \<and> rec_evaluated_at r = tick \<and> check_decision_binding P r e = Inr () \<and>
    (check_decision_binding P r e' \<noteq> Inr () \<or> e' = e \<or>
      (\<exists>b b'. envelope_bytes P e = Inr b \<and> envelope_bytes P e' = Inr b' \<and> b \<noteq> b' \<and> sha256 P b = sha256 P b'))"
proof (rule issue_record_ok [OF assms(4)])
  fix dig r b kid'
  assume dig: "action_digest P e = Inr dig" and kid': "utf8_encode (key_id sg) = Inr kid'"
    and r: "r = \<lparr>rec_digest = dig, rec_provider = provider, rec_version = ver, rec_outcome = pd_outcome d,
       rec_reason = pd_reason d, rec_evaluated_at = tick\<rparr>"
    and valid: "valid_decision_record r" and b: "cbor_dumps (decision_record_dump P r) = Inr b"
    and sig: "cose_sign_bytes b (sign_bytes sg) kid' [] = Inr raw"
  from kid' assms(6) have "kid' = kid" by simp
  with cose_payload_signed [OF assms(1) b sig assms(5)] assms(7) plain_decision
  have "cose_payload P raw keys = Inr b" "cbor_loads b = Inr (nf (decision_record_dump P r))" by auto
  with assms(2) valid have v: "verify_decision_record P rd raw keys = Inr r"
    by (simp add: verify_decision_record_def reads_decisions_def)
  have "rec_digest r = dig" by (simp add: r)
  then have "check_decision_binding P r e' = Inr () \<Longrightarrow> action_digest P e' = Inr dig" by (auto simp: check_decision_binding_def)
  from action_digest_binds [OF assms(3) dig this]
  have "check_decision_binding P r e' \<noteq> Inr () \<or> e' = e \<or> (\<exists>b b'. envelope_bytes P e = Inr b \<and> envelope_bytes P e' = Inr b' \<and> b \<noteq> b' \<and> sha256 P b = sha256 P b')"
    by blast
  with v dig show ?thesis by (intro exI [of _ r]) (simp add: r check_decision_binding_def)
qed

text \<open>
  Loading a policy is all or nothing. In the encoded document the entries of every
  \<^verbatim>\<open>match\<close> are in the order of their keys; pydantic reads them in that order.
\<close>

definition match_entry :: "match_field \<times> pystr \<Rightarrow> pyval \<times> pyval" where
  "match_entry = (\<lambda>(f, p). (PStr (match_key f), PStr p))"

definition sorted_rule :: "native_rule \<Rightarrow> native_rule" where
  "sorted_rule r = r\<lparr>nr_match := sort_key (entry_order \<circ> match_entry) (nr_match r)\<rparr>"

definition sorted_doc :: "native_doc \<Rightarrow> native_doc" where
  "sorted_doc d = d\<lparr>nd_rules := map sorted_rule (nd_rules d)\<rparr>"

definition reads_policies :: "(pyval \<Rightarrow> native_doc option) \<Rightarrow> bool" where
  "reads_policies rd \<longleftrightarrow> (\<forall>d. rd (nf (native_dump d)) = Some (sorted_doc d))"

lemma valid_sorted [simp]: "valid_native_doc (sorted_doc d) = valid_native_doc d"
  by (simp add: valid_native_doc_def sorted_doc_def sorted_rule_def list_all_iff)

lemma version_sorted [simp]: "nd_version (sorted_doc d) = nd_version d"
  by (simp add: sorted_doc_def)

lemma match_key_inject [simp]: "match_key f = match_key g \<longleftrightarrow> f = g"
  by (cases f; cases g) (simp_all add: match_key_def py_def)

lemma distinct_match_keys: "distinct (map (\<lambda>x. PStr (match_key (fst x))) xs) = distinct (map fst xs)"
proof -
  have "PStr (match_key f) \<in> (\<lambda>x. PStr (match_key (fst x))) ` A \<longleftrightarrow> f \<in> fst ` A" for f A
    by (simp add: image_iff)
  then show ?thesis by (induction xs) auto
qed

lemma plain_native: "list_all (\<lambda>r. distinct (map fst (nr_match r))) (nd_rules d) \<Longrightarrow> cbor_plain (native_dump d)"
  by (simp add: native_dump_def uniform_keys_def max_recursion_depth_def numeral_eq_Suc list_all_iff case_prod_unfold comp_def
      distinct_match_keys)

text \<open>A policy document signed by a trusted key, of a version that is not below the pinned minimum and whose
  patterns compile, is installed as it was signed; whatever is loaded, the answer is either an error and
  the provider is unchanged, or a document that is valid and not below the minimum.\<close>

theorem native_policy_installed:
  assumes "signer_ok P sg" "reads_policies rd" "valid_native_doc d" "np_min_version np \<le> nd_version d"
    and "list_all (\<lambda>r. distinct (map fst (nr_match r))) (nd_rules d)" "rmap (compile_rule R) (nd_rules (sorted_doc d)) = Inr cs"
    and "load_keys (np_keys np) = Inr trusted" "utf8_encode (key_id sg) = Inr kid" "trusted kid = Some (public_key_bytes sg)"
    and "sign_native_policy d sg = Inr raw"
  shows "load_signed_policy P R rd raw np = (Inr (), np\<lparr>np_doc := Some (sorted_doc d), np_compiled := cs, np_version := int_text (nd_version d)\<rparr>) \<and>
    (case load_signed_policy P R rd raw' np of
       (Inl e, np') \<Rightarrow> np' = np
     | (Inr _, np') \<Rightarrow> \<exists>d'. np_doc np' = Some d' \<and> valid_native_doc d' \<and> np_min_version np \<le> nd_version d' \<and>
         rmap (compile_rule R) (nd_rules d') = Inr (np_compiled np') \<and> np_min_version np' = np_min_version np)"
proof
  from assms(8,10) obtain b where b: "cbor_dumps (native_dump d) = Inr b" "cose_sign_bytes b (sign_bytes sg) kid [] = Inr raw"
    by (auto simp: sign_native_policy_def)
  from cose_payload_signed [OF assms(1) this assms(7,9) plain_native [OF assms(5)]] assms(2-4,6)
  show "load_signed_policy P R rd raw np = (Inr (), np\<lparr>np_doc := Some (sorted_doc d), np_compiled := cs, np_version := int_text (nd_version d)\<rparr>)"
    by (simp add: load_signed_policy_def parse_native_def reads_policies_def)
  show "case load_signed_policy P R rd raw' np of
       (Inl e, np') \<Rightarrow> np' = np
     | (Inr _, np') \<Rightarrow> \<exists>d'. np_doc np' = Some d' \<and> valid_native_doc d' \<and> np_min_version np \<le> nd_version d' \<and>
         rmap (compile_rule R) (nd_rules d') = Inr (np_compiled np') \<and> np_min_version np' = np_min_version np"
  proof (cases "parse_native P R rd raw' np")
    case (Inr q)
    then show ?thesis by (cases q) (auto simp: load_signed_policy_def parse_native_def)
  qed (simp add: load_signed_policy_def)
qed

section \<open>Concrete documents\<close>

fun read_decision :: "pyval \<Rightarrow> decision_record option" where
  "read_decision (PDict d) =
     field d ''action_digest'' val_str (\<lambda>dig.
     field d ''provider_id'' val_str (\<lambda>prov.
     field d ''policy_version'' val_str (\<lambda>ver.
     field d ''outcome'' val_str (\<lambda>out.
     field d ''reason'' val_str (\<lambda>why.
     field d ''evaluated_at'' val_str (\<lambda>ts.
       Some \<lparr>rec_digest = dig, rec_provider = prov, rec_version = ver, rec_outcome = out, rec_reason = why,
         rec_evaluated_at = text_int ts\<rparr>))))))"
| "read_decision _ = None"

lemma read_decision_reads: "reads_decisions toy read_decision"
  unfolding reads_decisions_def
proof
  fix r
  let ?e = "THE e. decision_record_dump toy r = PDict e"
  have e: "decision_record_dump toy r = PDict ?e" by (simp add: decision_record_dump_def)
  have "distinct (map fst ?e)" by (simp add: decision_record_dump_def)
  from nf_map [OF this] obtain d where d: "nf (PDict ?e) = PDict d" "map_of d = map_of (nf_pairs ?e)" by blast
  have "read_decision (PDict d) = Some r" by (simp add: field_def d(2)) (simp add: decision_record_dump_def)
  then show "read_decision (nf (decision_record_dump toy r)) = Some r" using e d(1) by simp
qed

definition field_named :: "pyval \<Rightarrow> match_field option" where
  "field_named k = find (\<lambda>f. k = PStr (match_key f)) [MPrincipal, MPlane, MVerb, MTarget]"

definition read_entry :: "pyval \<times> pyval \<Rightarrow> (match_field \<times> pystr) option" where
  "read_entry = (\<lambda>(k, v). Option.bind (field_named k) (\<lambda>f. map_option (Pair f) (val_str v)))"

fun read_match :: "pyval \<Rightarrow> (match_field \<times> pystr) list option" where
  "read_match (PDict d) = those (map read_entry d)" | "read_match _ = None"

fun read_rule :: "pyval \<Rightarrow> native_rule option" where
  "read_rule (PDict d) =
     field d ''id'' val_str (\<lambda>i.
     field d ''match'' read_match (\<lambda>m.
     field d ''effect'' val_str (\<lambda>ef.
     field d ''obligations'' val_strs (\<lambda>obs.
       if ef = py ''allow'' \<or> ef = py ''deny''
       then Some \<lparr>nr_id = i, nr_match = m, nr_allow = (ef = py ''allow''), nr_obligations = obs\<rparr> else None))))"
| "read_rule _ = None"

fun read_rules :: "pyval \<Rightarrow> native_rule list option" where
  "read_rules (PList vs) = those (map read_rule vs)" | "read_rules _ = None"

fun read_native :: "pyval \<Rightarrow> native_doc option" where
  "read_native (PDict d) =
     field d ''version'' val_int (\<lambda>ver. field d ''rules'' read_rules (\<lambda>rs. Some \<lparr>nd_version = ver, nd_rules = rs\<rparr>))"
| "read_native _ = None"

lemma those_map_Some: "(\<And>x. f (g x) = Some (h x)) \<Longrightarrow> those (map f (map g xs)) = Some (map h xs)"
  by (induction xs) auto

lemma field_named_key [simp]: "field_named (PStr (match_key f)) = Some f"
  by (cases f) (simp_all add: field_named_def)

lemma read_match_nf: "read_match (nf (PDict (map match_entry m))) = Some (sort_key (entry_order \<circ> match_entry) m)"
proof -
  have "nf_pairs (map match_entry m) = map match_entry m" by (induction m) (auto simp: match_entry_def)
  then have "nf (PDict (map match_entry m)) = PDict (map match_entry (sort_key (entry_order \<circ> match_entry) m))"
    by (simp add: sort_key_map)
  moreover have "read_entry (match_entry x) = Some x" for x by (cases x) (simp add: match_entry_def read_entry_def)
  ultimately show ?thesis using those_map_Some [of read_entry match_entry "\<lambda>x. x"] by simp
qed

definition rule_dump :: "native_rule \<Rightarrow> (pyval \<times> pyval) list" where
  "rule_dump r = [(PStr (py ''id''), PStr (nr_id r)), (PStr (py ''match''), PDict (map match_entry (nr_match r))),
     (PStr (py ''effect''), PStr (if nr_allow r then py ''allow'' else py ''deny'')),
     (PStr (py ''obligations''), PList (map PStr (nr_obligations r)))]"

lemma read_rule_nf: "read_rule (nf (PDict (rule_dump r))) = Some (sorted_rule r)"
proof -
  have "distinct (map fst (rule_dump r))" by (simp add: rule_dump_def py_def)
  from nf_map [OF this] obtain d where d: "nf (PDict (rule_dump r)) = PDict d" "map_of d = map_of (nf_pairs (rule_dump r))"
    by blast
  have strs: "val_strs (nf (PList (map PStr ws))) = Some ws" for ws
    using those_map_Some [of val_str PStr "\<lambda>x. x" ws] by (simp add: nf_items_map comp_def)
  have pairs: "nf_pairs (rule_dump r) = [(PStr (py ''id''), PStr (nr_id r)), (PStr (py ''match''), nf (PDict (map match_entry (nr_match r)))),
     (PStr (py ''effect''), PStr (if nr_allow r then py ''allow'' else py ''deny'')),
     (PStr (py ''obligations''), nf (PList (map PStr (nr_obligations r))))]"
    by (simp add: rule_dump_def)
  show ?thesis unfolding d(1)
    by (simp add: field_def d(2) pairs py_def strs [unfolded py_def] read_match_nf sorted_rule_def del: nf.simps)
qed

lemma read_native_reads: "reads_policies read_native"
  unfolding reads_policies_def
proof
  fix d :: native_doc
  let ?e = "[(PStr (py ''version''), PInt (nd_version d)), (PStr (py ''rules''), PList (map (PDict \<circ> rule_dump) (nd_rules d)))]"
  have e: "native_dump d = PDict ?e" by (simp add: native_dump_def rule_dump_def match_entry_def comp_def)
  have "distinct (map fst ?e)" by (simp add: py_def)
  from nf_map [OF this] obtain d' where d': "nf (PDict ?e) = PDict d'" "map_of d' = map_of (nf_pairs ?e)" by blast
  have "read_rules (nf (PList (map (PDict \<circ> rule_dump) (nd_rules d)))) = Some (map sorted_rule (nd_rules d))"
    using those_map_Some [of "\<lambda>r. read_rule (nf (PDict (rule_dump r)))" "\<lambda>x. x" sorted_rule "nd_rules d"] read_rule_nf
    by (simp add: nf_items_map comp_def del: nf.simps) (simp add: nf_items_map comp_def)
  then have "read_native (PDict d') = Some (sorted_doc d)"
    by (simp add: field_def d'(2) py_def sorted_doc_def)
  then show "read_native (nf (native_dump d)) = Some (sorted_doc d)" using e d'(1) by simp
qed

lemma toy_signs:
  assumes "encodable v" "enc_size v < 2 ^ 60" "length kid < 2 ^ 60"
  shows "\<exists>b raw. cbor_dumps v = Inr b \<and> cose_sign_bytes b (sign_bytes (toy_signer k n)) kid [] = Inr raw"
proof -
  obtain b where b: "cbor_dumps v = Inr b" "length b \<le> enc_size v" using cbor_dumps_total [OF assms(1)] assms(2) by auto
  have "\<exists>raw. cose_sign_bytes b (sign_bytes (toy_signer k n)) kid [] = Inr raw"
    by (rule cose_sign_total) (use assms(2,3) b in auto)
  with b show ?thesis by blast
qed

definition demo_policy_signer :: signer where
  "demo_policy_signer = toy_signer ''pol'' 5"

lemma demo_policy_key: "utf8_encode (py ''pol'') = Inr [112, 111, 108]" "utf8_encode (key_id demo_policy_signer) = Inr [112, 111, 108]"
  by (simp_all add: demo_policy_signer_def py_def utf8_char_def b8_def)

lemma demo_policy_keys: "load_keys [(py ''pol'', replicate 32 5)] = Inr [[112, 111, 108] \<mapsto> replicate 32 5]"
  by (simp add: demo_policy_key)

definition demo_policy :: native_doc where
  "demo_policy = \<lparr>nd_version = 3, nd_rules = [\<lparr>nr_id = py ''r'', nr_match = [(MVerb, py ''run'')], nr_allow = True,
     nr_obligations = []\<rparr>]\<rparr>"

definition literal_regex :: regex where
  "literal_regex p = Some (\<lambda>s. s = p)"

theorem native_policy_installed_witness:
  "\<exists>raw np'. sign_native_policy demo_policy demo_policy_signer = Inr raw \<and>
     load_signed_policy toy literal_regex read_native raw (new_native [(py ''pol'', replicate 32 5)] 2) = (Inr (), np') \<and>
     pd_outcome (policy_decide (native_evaluate np' (demo_envelope ''alice'') [])) = out_allow"
proof -
  let ?np = "new_native [(py ''pol'', replicate 32 5)] 2"
  have "encodable (native_dump demo_policy)" "enc_size (native_dump demo_policy) < 2 ^ 60"
    by (simp_all add: native_dump_def demo_policy_def match_key_def py_def)
  then obtain raw where raw: "sign_native_policy demo_policy demo_policy_signer = Inr raw"
    using toy_signs [of "native_dump demo_policy" "[112, 111, 108]" "''pol''" 5]
    by (auto simp: sign_native_policy_def demo_policy_key) (auto simp: demo_policy_signer_def)
  obtain cs where cs: "rmap (compile_rule literal_regex) (nd_rules (sorted_doc demo_policy)) = Inr cs"
    "cs = [(hd (nd_rules demo_policy), [(MVerb, \<lambda>s. s = py ''run'')])]"
    by (simp add: sorted_doc_def sorted_rule_def demo_policy_def compile_rule_def literal_regex_def)
  have sg: "signer_ok toy demo_policy_signer" "public_key_bytes demo_policy_signer = replicate 32 5"
    by (simp_all add: demo_policy_signer_def)
  have hyps: "valid_native_doc demo_policy" "np_min_version ?np \<le> nd_version demo_policy"
    "list_all (\<lambda>r. distinct (map fst (nr_match r))) (nd_rules demo_policy)"
    by (simp_all add: valid_native_doc_def demo_policy_def new_native_def)
  have keys: "load_keys (np_keys ?np) = Inr [[112, 111, 108] \<mapsto> replicate 32 5]" by (simp add: new_native_def demo_policy_key)
  from native_policy_installed [OF sg(1) read_native_reads hyps cs(1) keys demo_policy_key(2) _ raw, of raw]
  have "load_signed_policy toy literal_regex read_native raw ?np = (Inr (), ?np\<lparr>np_doc := Some (sorted_doc demo_policy),
      np_compiled := cs, np_version := int_text (nd_version demo_policy)\<rparr>)" by (simp add: sg)
  with raw show ?thesis
    by (simp add: native_evaluate_def cs(2) rule_matches_def field_of_def demo_envelope_def demo_policy_def rule_verdict_def
        policy_decide_def)
qed

theorem decision_record_binds_witness:
  "\<exists>raw r. issue_decision_record toy (py ''native'') (py ''3'') 0 (rule_verdict (hd (nd_rules demo_policy)))
      (demo_envelope ''alice'') demo_policy_signer = Inr raw \<and>
     verify_decision_record toy read_decision raw [(py ''pol'', replicate 32 5)] = Inr r \<and> rec_outcome r = out_allow"
proof -
  obtain dig b where dig: "action_digest toy (demo_envelope ''alice'') = Inr dig" "dig = to_hex (toy_digest b)"
    using demo_envelope_bytes [of "''alice''"] by (auto simp: action_digest_def)
  let ?v = "rule_verdict (hd (nd_rules demo_policy))"
  let ?r = "\<lparr>rec_digest = dig, rec_provider = py ''native'', rec_version = py ''3'', rec_outcome = pd_outcome ?v,
    rec_reason = pd_reason ?v, rec_evaluated_at = 0\<rparr>"
  have hex: "list_all (\<lambda>c. 48 \<le> c \<and> c \<le> 57 \<or> 97 \<le> c \<and> c \<le> 102) (to_hex bs) \<and> length (to_hex bs) = 2 * length bs" for bs
  proof (induction bs)
    case (Cons a bs)
    have "unat a div 16 \<le> 15" using unat_byte_lt [of a] by linarith
    with Cons show ?case by (auto simp: hex_digit_def)
  qed simp
  have v: "pd_outcome ?v = out_allow" "pd_reason ?v = py ''native rule matched''" by (simp_all add: rule_verdict_def demo_policy_def)
  have valid: "valid_decision_record ?r" using hex [of "toy_digest b"] by (simp add: valid_decision_record_def dig(2) v toy_digest_def)
  have digits: "text_ok (to_hex bs)" for bs
    unfolding text_ok_def by (rule ballI) (use hex [of bs] in \<open>auto simp: list_all_iff\<close>)
  have "encodable (decision_record_dump toy ?r)" "enc_size (decision_record_dump toy ?r) < 2 ^ 60"
    using hex [of "toy_digest b"] length_int_text [of 0]
    by (simp_all add: decision_record_dump_def v out_allow_def dig(2) digits) (simp_all add: toy_digest_def py_def)
  then obtain raw where raw: "issue_decision_record toy (py ''native'') (py ''3'') 0 ?v (demo_envelope ''alice'') demo_policy_signer = Inr raw"
    using toy_signs [of "decision_record_dump toy ?r" "[112, 111, 108]" "''pol''" 5] valid
    by (auto simp: issue_decision_record_def sign_decision_record_def dig(1) Let_def demo_policy_key) (auto simp: demo_policy_signer_def)
  have sg: "signer_ok toy demo_policy_signer" "public_key_bytes demo_policy_signer = replicate 32 5"
    by (simp_all add: demo_policy_signer_def)
  have keys: "load_keys [(py ''pol'', replicate 32 5)] = Inr [[112, 111, 108] \<mapsto> replicate 32 5]" by (simp add: demo_policy_key)
  have "[[112, 111, 108] \<mapsto> replicate 32 5] [112, 111, 108] = Some (public_key_bytes demo_policy_signer)" by (simp add: sg)
  from decision_record_binds [OF sg(1) read_decision_reads inj_dt_json_toy raw keys demo_policy_key(2) this]
  show ?thesis using raw v(1) by auto
qed

end
