(* ===== verification/Mcp.thy ===== *)
theory Mcp
  imports Pep Planes Scitt_Events
begin

text \<open>
  \<^verbatim>\<open>mcp_gateway.py\<close>: the gateway of protocol v0 over the decision core, and the native
  gateway, which lists its tools in pages and runs a tool only for a capability that it consumed.
  The backend of a tool is an object with a state: what it answers depends on the calls made before. The state of the
  gateway is the store and the list of the calls that were made to backends; the step that calls a backend extends it. pydantic's reading of envelopes and receipts, the URL-safe base64, the
  text of an exception and \<^verbatim>\<open>json.dumps\<close> are parameters.
\<close>

section \<open>The v0 gateway\<close>

record tool_spec =
  ts_server :: pystr
  ts_tool :: pystr
  ts_scope :: pystr
  ts_description :: pystr

type_synonym v0_registry = "pystr \<rightharpoonup> tool_spec"

definition tool_key :: "pystr \<Rightarrow> pystr \<Rightarrow> pystr" where
  "tool_key server tool = server @ [47] @ tool"

definition register_v0 :: "pystr \<Rightarrow> pystr \<Rightarrow> pystr \<Rightarrow> pystr \<Rightarrow> v0_registry \<Rightarrow> v0_registry res" where
  "register_v0 server tool scope description reg =
     require (server \<noteq> [] \<and> tool \<noteq> [] \<and> scope \<noteq> []) ValueError ''server_name, tool_name and resource_scope are required''
       (Inr (reg(tool_key server tool \<mapsto> \<lparr>ts_server = server, ts_tool = tool, ts_scope = scope, ts_description = description\<rparr>)))"

definition tool_action :: "pystr \<Rightarrow> pystr \<Rightarrow> pystr" where
  "tool_action server tool = py ''mcp.tool.'' @ server @ [46] @ tool"

record v0_call =
  vc_server :: pystr
  vc_tool :: pystr
  vc_arguments :: jdict
  vc_capability :: "signed_envelope option"
  vc_proof :: "signed_envelope option"
  vc_now :: "datetime option"

definition v0_invocation :: "v0_call \<Rightarrow> pystr \<Rightarrow> pystr \<Rightarrow> Constitution.constitution \<Rightarrow> bool \<Rightarrow> invocation" where
  "v0_invocation vc subj scope con tokens =
     \<lparr>iv_plane = py ''mcp'', iv_subject = subj, iv_action = tool_action (vc_server vc) (vc_tool vc),
      iv_resource = scope, iv_params = vc_arguments vc, iv_constitution = con,
      iv_capability = (if tokens then vc_capability vc else None), iv_proof = (if tokens then vc_proof vc else None),
      iv_now = vc_now vc\<rparr>"

text \<open>The answer, or a \<^verbatim>\<open>DecisionDeniedError\<close> with the signed decision it carries.\<close>

datatype gate_answer = Permitted signed_envelope | Refused signed_envelope decision

definition handle_tool_call :: "prims \<Rightarrow> token_lib \<Rightarrow> (jdict \<Rightarrow> decision option) \<Rightarrow> v0_registry \<Rightarrow> draw \<Rightarrow> v0_call \<Rightarrow> governor
    \<Rightarrow> gate_answer res \<times> governor" where
  "handle_tool_call P L read_decision reg dr vc g =
     (case reg (tool_key (vc_server vc) (vc_tool vc)) of
        None \<Rightarrow> (case decide P L dr (v0_invocation vc (py ''unknown'') (py ''unregistered'') (g_constitution g) False) g of
            (Inl e, g') \<Rightarrow> (Inl e, g')
          | (Inr env, g') \<Rightarrow> (rbind (verify_decision P read_decision env (public_key_bytes (decision_key g))) (\<lambda>d.
              Inr (Refused env d)), g'))
      | Some spec \<Rightarrow>
          (case evaluate_plane P L dr (v0_invocation vc (py ''mcp-holder'') (ts_scope spec) (g_constitution g) True) g of
            (Inl e, g') \<Rightarrow> (Inl e, g')
          | (Inr env, g') \<Rightarrow> (rbind (verify_decision P read_decision env (public_key_bytes (decision_key g))) (\<lambda>d.
              Inr (if verdict d = ALLOW then Permitted env else Refused env d)), g')))"

section \<open>Execution receipts\<close>

record execution_receipt =
  er_receipt_id :: pystr
  er_tool_name :: pystr
  er_server_id :: pystr
  er_args_digest :: pystr
  er_result_digest :: pystr
  er_capability_id :: pystr
  er_executed_at :: int
  er_gateway_key_id :: pystr
  er_is_error :: bool

definition valid_receipt :: "execution_receipt \<Rightarrow> bool" where
  "valid_receipt r \<longleftrightarrow> er_receipt_id r \<noteq> [] \<and> er_tool_name r \<noteq> [] \<and> er_server_id r \<noteq> [] \<and> length (er_args_digest r) = 64 \<and>
     length (er_result_digest r) = 64 \<and> er_capability_id r \<noteq> [] \<and> er_gateway_key_id r \<noteq> []"

definition receipt_dump :: "prims \<Rightarrow> execution_receipt \<Rightarrow> jdict" where
  "receipt_dump P r =
     [(py ''receipt_id'', JStr (er_receipt_id r)), (py ''tool_name'', JStr (er_tool_name r)),
      (py ''server_id'', JStr (er_server_id r)), (py ''args_digest'', JStr (er_args_digest r)),
      (py ''result_digest'', JStr (er_result_digest r)), (py ''capability_id'', JStr (er_capability_id r)),
      (py ''executed_at'', JStr (dt_json P (er_executed_at r))), (py ''gateway_key_id'', JStr (er_gateway_key_id r)),
      (py ''is_error'', JBool (er_is_error r))]"

definition sign_receipt :: "prims \<Rightarrow> signer \<Rightarrow> execution_receipt \<Rightarrow> jdict res" where
  "sign_receipt P sg r = rbind (Canonical.canonical_bytes P (JObj (receipt_dump P r))) (\<lambda>b.
     Inr (receipt_dump P r @ [(py ''signature'', JStr (b64_encode P (sign_bytes sg b)))]))"

text \<open>\<^verbatim>\<open>raw.pop("signature")\<close>, and the rest of the mapping.\<close>

definition verify_execution_receipt :: "prims \<Rightarrow> (jdict \<Rightarrow> execution_receipt option) \<Rightarrow> json \<Rightarrow> bytes \<Rightarrow> execution_receipt res" where
  "verify_execution_receipt P read_receipt doc pub = (case doc of
     JObj raw \<Rightarrow>
       (case map_of raw (py ''signature'') of
          Some (JStr sig_text) \<Rightarrow>
            require (sig_text \<noteq> []) MCPGatewayError ''receipt has no signature''
           (rbind (of_option MCPGatewayError ''receipt body malformed'' (read_receipt (filter (\<lambda>kv. fst kv \<noteq> py ''signature'') raw))) (\<lambda>r.
            require (valid_receipt r) MCPGatewayError ''receipt body malformed''
           (rbind (of_option MCPGatewayError ''receipt signature is not valid base64'' (b64_strict P sig_text)) (\<lambda>sig.
            require (length pub = 32) MCPGatewayError ''gateway_pubkey must be 32 raw Ed25519 bytes''
           (rbind (Canonical.canonical_bytes P (JObj (receipt_dump P r))) (\<lambda>b.
            require (ed_verify P pub sig b) MCPGatewayError ''execution receipt signature invalid'' (Inr r)))))))
        | _ \<Rightarrow> raise MCPGatewayError ''receipt has no signature'')
   | _ \<Rightarrow> raise MCPGatewayError ''receipt must be a mapping'')"

text \<open>The statement that \<^verbatim>\<open>scitt.py\<close> issues about a receipt.\<close>

definition execution_statement :: "prims \<Rightarrow> execution_receipt \<Rightarrow> signer \<Rightarrow> pystr option \<Rightarrow> pystr \<Rightarrow> bytes res" where
  "execution_statement P r issuer digest now_iso =
     event_statement ''anchor.v1/execution''
       (case digest of None \<Rightarrow> py ''execution:'' @ er_receipt_id r
        | Some d \<Rightarrow> if d = [] then py ''execution:'' @ er_receipt_id r else action_subject d)
       [(''receipt_id'', PStr (er_receipt_id r)), (''tool_name'', PStr (er_tool_name r)),
        (''server_id'', PStr (er_server_id r)), (''args_digest'', PStr (er_args_digest r)),
        (''result_digest'', PStr (er_result_digest r)), (''capability_id'', PStr (er_capability_id r)),
        (''executed_at'', PStr (isoformat P (er_executed_at r))), (''gateway_key_id'', PStr (er_gateway_key_id r)),
        (''is_error'', PBool (er_is_error r))] issuer now_iso"

section \<open>Tools\<close>

record annotations =
  an_title :: "pystr option"
  an_read_only :: bool
  an_destructive :: bool
  an_idempotent :: bool
  an_open_world :: bool

definition default_annotations :: annotations where
  "default_annotations = \<lparr>an_title = None, an_read_only = False, an_destructive = False,
     an_idempotent = False, an_open_world = True\<rparr>"

text \<open>\<^verbatim>\<open>model_dump(exclude_none=True)\<close>.\<close>

definition annotations_dump :: "annotations \<Rightarrow> jdict" where
  "annotations_dump a =
     (case an_title a of None \<Rightarrow> [] | Some t \<Rightarrow> [(py ''title'', JStr t)]) @
     [(py ''readOnlyHint'', JBool (an_read_only a)), (py ''destructiveHint'', JBool (an_destructive a)),
      (py ''idempotentHint'', JBool (an_idempotent a)), (py ''openWorldHint'', JBool (an_open_world a))]"

text \<open>A backend is its method \<^verbatim>\<open>call_tool\<close>, a function of the calls that were made before (from which it may compute
  any state it keeps), the name and the arguments. The one in memory copies the arguments, adds the call to its audit
  trail, runs the handler of the tool, and echoes the arguments where there is none.\<close>

type_synonym backend = "(pystr \<times> jdict) list \<Rightarrow> pystr \<Rightarrow> jdict \<Rightarrow> json res"

definition in_memory_call :: "(pystr \<rightharpoonup> (jdict \<Rightarrow> json res)) \<Rightarrow> pystr \<Rightarrow> jdict \<Rightarrow> (pystr \<times> jdict) list
    \<Rightarrow> json res \<times> (pystr \<times> jdict) list" where
  "in_memory_call handlers name args calls =
     ((case handlers name of None \<Rightarrow> Inr (JObj [(py ''echo'', JObj args)]) | Some h \<Rightarrow> h args),
      calls @ [(name, args)])"

definition in_memory_backend :: "(pystr \<rightharpoonup> (jdict \<Rightarrow> json res)) \<Rightarrow> backend" where
  "in_memory_backend handlers = (\<lambda>calls name args. fst (in_memory_call handlers name args calls))"

record registration =
  rg_server :: pystr
  rg_description :: pystr
  rg_schema :: jdict
  rg_annotations :: annotations
  rg_backend :: backend

record gateway =
  gw_signer :: signer
  gw_issuers :: trust
  gw_policy_ref :: pystr
  gw_principal :: pystr
  gw_tools :: "(pystr \<times> registration) list"

text \<open>The trust set of a new gateway is a dict: \<open>issuers\<close> are its items.\<close>

definition new_gateway :: "signer \<Rightarrow> (bytes \<times> bytes) list \<Rightarrow> pystr \<Rightarrow> pystr \<Rightarrow> gateway res" where
  "new_gateway sg issuers policy who =
     require (policy \<noteq> []) ValueError ''policy_ref is required''
    (require (who \<noteq> []) ValueError ''principal is required''
    (require (issuers \<noteq> []) ValueError ''trusted_issuers must be non-empty''
    (Inr \<lparr>gw_signer = sg, gw_issuers = map_of issuers, gw_policy_ref = policy, gw_principal = who, gw_tools = []\<rparr>)))"

definition tool_name_ok :: "pystr \<Rightarrow> bool" where
  "tool_name_ok s \<longleftrightarrow> s \<noteq> [] \<and> length s \<le> 128 \<and>
     list_all (\<lambda>c. 65 \<le> c \<and> c \<le> 90 \<or> 97 \<le> c \<and> c \<le> 122 \<or> 48 \<le> c \<and> c \<le> 57 \<or> c = 95 \<or> c = 46 \<or> c = 45) s"

record tool_args =
  ta_server :: pystr
  ta_name :: pystr
  ta_description :: pystr
  ta_schema :: json
  ta_annotations :: "annotations option"
  ta_backend :: "backend option"

text \<open>The annotations come as the model \<open>ToolAnnotations\<close> or as what pydantic makes of a dict:
  \<open>None\<close> is a validation error.\<close>

definition register_tool :: "tool_args \<Rightarrow> gateway \<Rightarrow> gateway res" where
  "register_tool a gw =
     require (ta_server a \<noteq> []) ValueError ''server_id is required''
    (require (tool_name_ok (ta_name a)) ValueError ''invalid tool name''
    (require (map_of (gw_tools gw) (ta_name a) = None) ValueError ''tool is already registered''
    (case (if ta_schema a = JNull then JObj [(py ''type'', JStr (py ''object''))] else ta_schema a) of
       JObj schema \<Rightarrow> rbind (of_option ValueError ''invalid tool annotations'' (ta_annotations a)) (\<lambda>ann.
         Inr (gw\<lparr>gw_tools := gw_tools gw @ [(ta_name a, \<lparr>rg_server = ta_server a, rg_description = ta_description a,
           rg_schema = schema, rg_annotations = ann,
           rg_backend = (case ta_backend a of None \<Rightarrow> in_memory_backend Map.empty | Some b \<Rightarrow> b)\<rparr>)]\<rparr>))
     | _ \<Rightarrow> raise ValueError ''input_schema must be a JSON Schema object (dict)'')))"

definition registered_tool_names :: "gateway \<Rightarrow> pystr list" where
  "registered_tool_names gw = sort (map fst (gw_tools gw))"

section \<open>\<^verbatim>\<open>tools/list\<close>\<close>

definition protocol_version :: pystr where
  "protocol_version = py ''2026-07-28''"

definition anchor_tool_meta :: "pystr \<Rightarrow> pystr \<Rightarrow> json" where
  "anchor_tool_meta policy kid = JObj [(py ''anchor'', JObj
     [(py ''enforced'', JBool True), (py ''policy_ref'', JStr policy), (py ''gateway_key_id'', JStr kid),
      (py ''capability'', JStr (py ''holder-of-key-one-use'')), (py ''mcp_protocol'', JStr protocol_version)])]"

text \<open>The URL-safe base64 alphabet, a parameter.\<close>

record url64 =
  url_encode :: "bytes \<Rightarrow> pystr"
  url_decode :: "pystr \<Rightarrow> bytes option"

definition cursor_prefix :: pystr where
  "cursor_prefix = py ''offset:''"

definition encode_cursor :: "url64 \<Rightarrow> nat \<Rightarrow> pystr" where
  "encode_cursor U n = url_encode U (map b8 (cursor_prefix @ int_text (int n)))"

definition decode_cursor :: "url64 \<Rightarrow> json \<Rightarrow> nat res" where
  "decode_cursor U cursor = (case cursor of
     JStr s \<Rightarrow>
       require (s \<noteq> []) MCPGatewayError ''invalid tools/list cursor''
      (rbind (except PyException MCPGatewayError ''invalid tools/list cursor''
         (require (list_all (\<lambda>c. c < 128) s) UnicodeError ''ascii codec''
         (rbind (of_option ValueError ''Incorrect padding'' (url_decode U s)) (\<lambda>b.
          rbind (of_option UnicodeError ''utf-8 codec'' (utf8_decode b)) (\<lambda>raw.
          require (startswith raw cursor_prefix) ValueError ''bad cursor prefix''
         (int_of (PStr (drop (length cursor_prefix) raw)))))))) (\<lambda>n.
       require (0 \<le> n) MCPGatewayError ''negative offset'' (Inr (nat n))))
   | _ \<Rightarrow> raise MCPGatewayError ''invalid tools/list cursor'')"

definition tool_entry :: "gateway \<Rightarrow> pystr \<Rightarrow> json" where
  "tool_entry gw name = (case map_of (gw_tools gw) name of None \<Rightarrow> JNull | Some rg \<Rightarrow> JObj
     [(py ''name'', JStr name),
      (py ''title'', JStr (case an_title (rg_annotations rg) of None \<Rightarrow> name | Some t \<Rightarrow> if t = [] then name else t)),
      (py ''description'', JStr (rg_description rg)), (py ''inputSchema'', JObj (rg_schema rg)),
      (py ''annotations'', JObj (annotations_dump (rg_annotations rg))),
      (py ''_meta'', anchor_tool_meta (gw_policy_ref gw) (key_id (gw_signer gw)))])"

definition page_size_max :: int where
  "page_size_max = 1000"

text \<open>The tools of the page, and its \<^verbatim>\<open>nextCursor\<close> where there is one.\<close>

definition list_page :: "url64 \<Rightarrow> json \<Rightarrow> json \<Rightarrow> gateway \<Rightarrow> (json list \<times> pystr option) res" where
  "list_page U cursor page_size gw = (case page_size of
     JInt n \<Rightarrow>
       require (1 \<le> n \<and> n \<le> page_size_max) MCPGatewayError ''page_size must be between 1 and 1000''
      (let names = registered_tool_names gw in
       rbind (if cursor = JNull then Inr 0 else decode_cursor U cursor) (\<lambda>start.
       require (start \<le> length names) MCPGatewayError ''tools/list cursor is past the end of the inventory''
      (Inr (map (tool_entry gw) (take (nat n) (drop start names)),
         if start + nat n < length names then Some (encode_cursor U (start + nat n)) else None))))
   | _ \<Rightarrow> raise MCPGatewayError ''page_size must be an integer'')"

definition tools_list :: "url64 \<Rightarrow> json \<Rightarrow> json \<Rightarrow> json \<Rightarrow> gateway \<Rightarrow> json res" where
  "tools_list U request_id cursor page_size gw = rbind (list_page U cursor page_size gw) (\<lambda>(tools, nxt). Inr (JObj
     [(py ''jsonrpc'', JStr (py ''2.0'')), (py ''id'', request_id),
      (py ''result'', JObj ([(py ''tools'', JArr tools)] @
         (case nxt of None \<Rightarrow> [] | Some c \<Rightarrow> [(py ''nextCursor'', JStr c)])))]))"

section \<open>The envelope of a call\<close>

text \<open>Adding to a \<^verbatim>\<open>datetime\<close> works on its local time; the model then stores the UTC instant.\<close>

definition utc_after :: "datetime \<Rightarrow> int \<Rightarrow> int res" where
  "utc_after moment d = (case moment of
     Naive t \<Rightarrow> dt_add t d
   | Aware t z \<Rightarrow> rbind (dt_add (t + z) d) (\<lambda>l. dt_add l (- z)))"

definition server_of :: "gateway \<Rightarrow> pystr \<Rightarrow> pystr" where
  "server_of gw name = (case map_of (gw_tools gw) name of None \<Rightarrow> py ''unknown'' | Some rg \<Rightarrow> rg_server rg)"

text \<open>\<open>uuid\<close> and \<open>rnd\<close> are drawn.\<close>

definition build_envelope :: "prims \<Rightarrow> gateway \<Rightarrow> pystr \<Rightarrow> json \<Rightarrow> datetime option \<Rightarrow> int \<Rightarrow> pystr \<Rightarrow> pystr \<Rightarrow> action_envelope res" where
  "build_envelope P gw name arguments now tick uuid rnd = (case arguments of
     JObj args \<Rightarrow>
       (let moment = (case now of None \<Rightarrow> Aware tick 0 | Some (Naive t) \<Rightarrow> Aware t 0 | Some (Aware t z) \<Rightarrow> Aware t z) in
        rbind (sha256_hex P (JObj args)) (\<lambda>d.
        rbind (utc_after moment (seconds 300)) (\<lambda>na.
        rbind (utc_after moment 0) (\<lambda>t.
        Inr \<lparr>action_id = uuid, principal = gw_principal gw,
             effect = \<lparr>plane = py ''mcp'', verb = name, target = server_of gw name, args_digest = d\<rparr>,
             policy_ref = gw_policy_ref gw, issued_at = t, not_before = t, not_after = na, nonce = rnd\<rparr>))))
   | _ \<Rightarrow> raise MCPGatewayError ''tools/call arguments must be an object'')"

text \<open>What the caller presents: nothing, a dict, the model, or something else.\<close>

datatype presented = Nothing | RawEnvelope jdict | Presented action_envelope | Foreign

definition envelope_open :: "action_envelope \<Rightarrow> datetime \<Rightarrow> bool res" where
  "envelope_open e now =
     rbind (dt_less now (Aware (not_before e) 0)) (\<lambda>early. if early then Inr False
     else rbind (dt_less (Aware (not_after e) 0) now) (\<lambda>late. Inr (\<not> late)))"

definition check_call_envelope :: "prims \<Rightarrow> gateway \<Rightarrow> pystr \<Rightarrow> registration \<Rightarrow> jdict \<Rightarrow> action_envelope \<Rightarrow> datetime
    \<Rightarrow> action_envelope res" where
  "check_call_envelope P gw name rg args e now =
     require (plane (effect e) = py ''mcp'') MCPDeniedError ''envelope plane is not mcp''
    (require (verb (effect e) = name) MCPDeniedError ''envelope verb does not match called tool''
    (require (target (effect e) = rg_server rg) MCPDeniedError ''envelope target does not match registered server''
    (rbind (sha256_hex P (JObj args)) (\<lambda>d.
     require (args_digest (effect e) = d) MCPDeniedError ''envelope args_digest does not match the call arguments''
    (require (principal e = gw_principal gw) MCPDeniedError ''envelope principal does not match this gateway''
    (require (policy_ref e = gw_policy_ref gw) MCPDeniedError ''envelope policy_ref does not match this gateway''
    (rbind (envelope_open e now) (\<lambda>ok.
     require ok MCPDeniedError ''envelope is outside its validity window'' (Inr e)))))))))"

definition resolve_call_envelope :: "prims \<Rightarrow> (jdict \<Rightarrow> action_envelope option) \<Rightarrow> gateway \<Rightarrow> pystr \<Rightarrow> registration \<Rightarrow> jdict
    \<Rightarrow> presented \<Rightarrow> datetime \<Rightarrow> action_envelope res" where
  "resolve_call_envelope P E gw name rg args shown now =
     rbind (case shown of
         Nothing \<Rightarrow> raise MCPDeniedError ''no envelope presented''
       | RawEnvelope d \<Rightarrow> of_option MCPDeniedError ''envelope is not a valid ActionEnvelope'' (E d)
       | Presented e \<Rightarrow> Inr e
       | Foreign \<Rightarrow> raise MCPDeniedError ''envelope must be an ActionEnvelope'') (\<lambda>e.
     check_call_envelope P gw name rg args e now)"

section \<open>\<^verbatim>\<open>tools/call\<close>\<close>

text \<open>What is not this source: pydantic's readers of a capability and of an envelope, the text of an
  exception, and \<^verbatim>\<open>json.dumps\<close> with sorted keys and no spaces.\<close>

record mcp_lib =
  read_payload :: "pyval \<Rightarrow> cap_payload option"
  read_envelope :: "jdict \<Rightarrow> action_envelope option"
  exn_text :: "exn \<Rightarrow> pystr"
  compact_dumps :: "json \<Rightarrow> pystr"

record mcp_call =
  mc_tool :: pystr
  mc_arguments :: json
  mc_cose :: "bytes option"
  mc_proof :: "bytes option"
  mc_challenge :: "bytes option"
  mc_envelope :: presented
  mc_request_id :: json
  mc_now :: "datetime option"

record mcp_draw =
  md_clock :: int
  md_iso :: pystr
  md_receipt :: pystr

record dispatched =
  dp_capability :: pystr
  dp_tool :: pystr
  dp_arguments :: jdict

record mcp_state =
  mcp_store :: store
  mcp_log :: "dispatched list"

definition moment_of :: "mcp_draw \<Rightarrow> mcp_call \<Rightarrow> datetime" where
  "moment_of md mc = (case mc_now mc of None \<Rightarrow> Aware (md_clock md) 0 | Some d \<Rightarrow> d)"

text \<open>Steps (1) to (4): the checks before the store is asked. The bytes of the capability, of the proof and of the
  challenge are then known to be there.\<close>

definition nonempty :: "string \<Rightarrow> bytes option \<Rightarrow> bytes res" where
  "nonempty msg v = (case v of None \<Rightarrow> raise MCPDeniedError msg
     | Some b \<Rightarrow> require (b \<noteq> []) MCPDeniedError msg (Inr b))"

definition admit_call :: "prims \<Rightarrow> mcp_lib \<Rightarrow> gateway \<Rightarrow> mcp_draw \<Rightarrow> mcp_call
    \<Rightarrow> (registration \<times> jdict \<times> action_envelope \<times> consume_args) res" where
  "admit_call P M gw md mc =
     (let moment = moment_of md mc in
      rbind (of_option MCPDeniedError ''unknown MCP tool'' (map_of (gw_tools gw) (mc_tool mc))) (\<lambda>rg.
      case mc_arguments mc of
        JObj args \<Rightarrow>
          rbind (resolve_call_envelope P (read_envelope M) gw (mc_tool mc) rg args (mc_envelope mc) moment) (\<lambda>e.
          rbind (nonempty ''no capability presented'' (mc_cose mc)) (\<lambda>cose.
          rbind (except CapabilityError MCPDeniedError ''capability verification failed''
            (verify_capability P (read_payload M) (PBytes cose) (gw_issuers gw) (as_utc moment))) (\<lambda>p.
          rbind (nonempty ''holder proof and challenge are required'' (mc_proof mc)) (\<lambda>pf.
          rbind (nonempty ''holder proof and challenge are required'' (mc_challenge mc)) (\<lambda>ch.
          rbind (except CapabilityError MCPDeniedError ''holder proof failed''
            (verify_holder_proof P (holder_pubkey p) (capability_id p) ch (PBytes pf))) (\<lambda>_.
          Inr (rg, args, e, \<lparr>a_cose = PBytes cose, a_proof = PBytes pf, a_challenge = ch, a_issuers = gw_issuers gw,
            a_env = Some e\<rparr>)))))))
      | _ \<Rightarrow> raise MCPDeniedError ''tools/call arguments must be an object''))"

text \<open>The call of the backend, and the one place that extends the list of calls. \<open>c\<close> is the id of the capability that was
  consumed for the call.\<close>

definition calls_of :: "dispatched list \<Rightarrow> (pystr \<times> jdict) list" where
  "calls_of ds = map (\<lambda>d. (dp_tool d, dp_arguments d)) ds"

definition run_backend :: "(exn \<Rightarrow> pystr) \<Rightarrow> registration \<Rightarrow> pystr \<Rightarrow> pystr \<Rightarrow> jdict \<Rightarrow> dispatched list
    \<Rightarrow> (bool \<times> json) \<times> dispatched list" where
  "run_backend text rg c name args calls =
     ((case rg_backend rg (calls_of calls) name args of
        Inl e \<Rightarrow> (True, JObj [(py ''error'', JStr (text e))])
      | Inr r \<Rightarrow> (False, r)),
      calls @ [\<lparr>dp_capability = c, dp_tool = name, dp_arguments = args\<rparr>])"

definition execution_of :: "prims \<Rightarrow> gateway \<Rightarrow> mcp_draw \<Rightarrow> mcp_call \<Rightarrow> registration \<Rightarrow> action_envelope \<Rightarrow> cap_payload
    \<Rightarrow> bool \<Rightarrow> pystr \<Rightarrow> execution_receipt" where
  "execution_of P gw md mc rg e p failed digest =
     \<lparr>er_receipt_id = py ''rcpt_'' @ md_receipt md, er_tool_name = mc_tool mc, er_server_id = rg_server rg,
      er_args_digest = args_digest (effect e), er_result_digest = digest, er_capability_id = capability_id p,
      er_executed_at = as_utc (moment_of md mc), er_gateway_key_id = key_id (gw_signer gw), er_is_error = failed\<rparr>"

definition call_response :: "mcp_lib \<Rightarrow> gateway \<Rightarrow> json \<Rightarrow> bool \<Rightarrow> jdict \<Rightarrow> jdict \<Rightarrow> json" where
  "call_response M gw rid failed outcome receipt = JObj
     [(py ''jsonrpc'', JStr (py ''2.0'')), (py ''id'', rid),
      (py ''result'', JObj
        [(py ''content'', JArr [JObj [(py ''type'', JStr (py ''text'')), (py ''text'', JStr (compact_dumps M (JObj outcome)))]]),
         (py ''structuredContent'', JObj outcome), (py ''isError'', JBool failed),
         (py ''_meta'', JObj [(py ''anchor'', JObj
            [(py ''enforced'', JBool True), (py ''policy_ref'', JStr (gw_policy_ref gw)), (py ''receipt'', JObj receipt)])])])]"

text \<open>Steps (6) and (7), after the consumption.\<close>

definition finish_call :: "prims \<Rightarrow> mcp_lib \<Rightarrow> gateway \<Rightarrow> mcp_draw \<Rightarrow> mcp_call \<Rightarrow> registration \<Rightarrow> jdict \<Rightarrow> action_envelope
    \<Rightarrow> cap_payload \<Rightarrow> dispatched list \<Rightarrow> json res \<times> dispatched list" where
  "finish_call P M gw md mc rg args e p calls =
     (let ((failed, result), calls') = run_backend (exn_text M) rg (capability_id p) (mc_tool mc) args calls in
      ((case result of
        JObj outcome \<Rightarrow>
          rbind (sha256_hex P (JObj outcome)) (\<lambda>d.
          let r = execution_of P gw md mc rg e p failed d in
          require (valid_receipt r) ValidationError ''ExecutionReceipt''
         (rbind (sign_receipt P (gw_signer gw) r) (\<lambda>signed_receipt.
          Inr (call_response M gw (mc_request_id mc) failed outcome signed_receipt))))
      | _ \<Rightarrow> raise MCPGatewayError ''backend must return a result dict''), calls'))"

definition mcp_consume :: "prims \<Rightarrow> mcp_lib \<Rightarrow> mcp_draw \<Rightarrow> mcp_call \<Rightarrow> consume_args \<Rightarrow> store \<Rightarrow> cap_payload res \<times> store" where
  "mcp_consume P M md mc a s =
     (let (r, s') = consume_capability P (read_payload M) (md_clock md) (md_iso md) a (PInt 0) (Some (moment_of md mc)) s
      in (except StoreError MCPDeniedError ''capability consumption failed''
            (except CapabilityError MCPDeniedError ''capability consumption failed'' r), s'))"

definition tools_call :: "prims \<Rightarrow> mcp_lib \<Rightarrow> gateway \<Rightarrow> mcp_draw \<Rightarrow> mcp_call \<Rightarrow> mcp_state \<Rightarrow> json res \<times> mcp_state" where
  "tools_call P M gw md mc st =
     (case admit_call P M gw md mc of
        Inl e \<Rightarrow> (Inl e, st)
      | Inr (rg, args, e, a) \<Rightarrow>
         (case mcp_consume P M md mc a (mcp_store st) of
            (Inl x, s') \<Rightarrow> (Inl x, st\<lparr>mcp_store := s'\<rparr>)
          | (Inr p, s') \<Rightarrow>
             (let (r, calls') = finish_call P M gw md mc rg args e p (mcp_log st)
              in (r, \<lparr>mcp_store = s', mcp_log = calls'\<rparr>))))"

end
