(* ===== verification/Mcp_Laws.thy ===== *)
theory Mcp_Laws
  imports Mcp Instances
begin

text \<open>
  The cursor of \<^verbatim>\<open>tools/list\<close> is read back, and following the cursors from the first page
  visits the whole inventory.
\<close>

section \<open>Decimal text\<close>

lemma nat_text_digits: "list_all (\<lambda>c. 48 \<le> c \<and> c \<le> 57) (nat_text n)"
proof (induction n rule: nat_text.induct)
  case (1 n)
  then show ?case by (cases "n < 10") (auto simp: nat_text.simps [of n])
qed

lemma length_nat_text: "0 < k \<Longrightarrow> n < 10 ^ k \<Longrightarrow> length (nat_text n) \<le> k"
proof (induction k arbitrary: n)
  case (Suc k)
  show ?case
  proof (cases "n < 10")
    case False
    then have "0 < k" using Suc.prems(2) by (cases k) auto
    moreover have "n div 10 < 10 ^ k" using Suc.prems(2) by (simp add: less_mult_imp_div_less mult.commute)
    ultimately show ?thesis using Suc.IH False by (simp add: nat_text.simps [of n])
  qed (simp add: nat_text.simps [of n])
qed simp

lemma digits_of_digits:
  "list_all (\<lambda>c. 48 \<le> c \<and> c \<le> 57) s \<Longrightarrow> s \<noteq> [] \<Longrightarrow> digits_of s = Some (map (\<lambda>c. c - 48) s)"
  by (induction s rule: digits_of.induct) (auto split: if_splits)

lemma foldl_digits: "foldl (\<lambda>a d. 10 * a + d) a (map (\<lambda>c. c - 48) s) = foldl (\<lambda>a c. a * 10 + (c - 48)) a s"
  for a :: nat
  by (induction s arbitrary: a) (auto simp: mult.commute)

lemma digit_plain: "48 \<le> c \<Longrightarrow> c \<le> 57 \<Longrightarrow> ascii_digit c = c \<and> \<not> is_ascii_space c" for c :: nat
  by (auto simp: ascii_digit_def is_space_def is_ascii_space_def)

lemma strip_digits: "list_all (\<lambda>c. 48 \<le> c \<and> c \<le> 57) s \<Longrightarrow> strip_spaces s = s"
proof -
  have d: "list_all (\<lambda>c. 48 \<le> c \<and> c \<le> 57) t \<Longrightarrow> dropWhile is_ascii_space t = t" for t
    by (cases t) (auto simp: digit_plain)
  assume "list_all (\<lambda>c. 48 \<le> c \<and> c \<le> 57) s"
  then show ?thesis by (simp add: strip_spaces_def d list_all_rev)
qed

lemma int_of_nat_text:
  assumes "length (nat_text n) \<le> 4300" shows "int_of (PStr (nat_text n)) = Inr (int n)"
proof -
  have m: "map ascii_digit (nat_text n) = nat_text n"
    using nat_text_digits [of n] by (intro map_idI) (auto simp: list_all_iff digit_plain)
  obtain c r where c: "nat_text n = c # r" "48 \<le> c" using nat_text_head by blast
  have "foldl (\<lambda>a d. 10 * a + d) 0 (map (\<lambda>c. c - 48) (nat_text n)) = n"
    using digits_value_nat_text [of n] by (simp add: foldl_digits digits_value_def)
  moreover have "decimal (nat_text n) = Some (int (foldl (\<lambda>a d. 10 * a + d) 0 (map (\<lambda>c. c - 48) (nat_text n))))"
    using assms digits_of_digits [OF nat_text_digits, of n] c by (simp add: decimal_def)
  ultimately have "decimal (c # r) = Some (int n)" using c by simp
  moreover have "strip_spaces (nat_text n) = c # r" using strip_digits [OF nat_text_digits, of n] c by simp
  ultimately have "ascii_int (nat_text n) = Some (int n)" using c(2) by (simp add: ascii_int_def)
  then show ?thesis by (simp add: m)
qed

section \<open>Cursors\<close>

lemma utf8_ascii_bytes: "list_all (\<lambda>c. c < 128) s \<Longrightarrow> utf8_encode s = Inr (map b8 s)"
  by (induction s) (auto simp: utf8_char_def)

text \<open>The documented behaviour of the URL-safe alphabet.\<close>

definition url64_ok :: "url64 \<Rightarrow> bool" where
  "url64_ok U \<longleftrightarrow> (\<forall>b. url_decode U (url_encode U b) = Some b \<and> list_all (\<lambda>c. c < 128) (url_encode U b) \<and>
     (b \<noteq> [] \<longrightarrow> url_encode U b \<noteq> []))"

definition inventory_limit :: nat where
  "inventory_limit = 2 ^ 64"

lemma decode_encode_cursor:
  assumes "url64_ok U" "n < inventory_limit"
  shows "decode_cursor U (JStr (encode_cursor U n)) = Inr n"
proof -
  have "length (nat_text n) \<le> 20"
    using assms(2) by (intro length_nat_text) (simp_all add: inventory_limit_def)
  then have i: "int_of (PStr (nat_text n)) = Inr (int n)" by (intro int_of_nat_text) simp
  have p: "list_all (\<lambda>c. c < 128) cursor_prefix" by (simp add: cursor_prefix_def py_def)
  have "list_all (\<lambda>c. c < 128) (nat_text n)"
    using nat_text_digits [of n] by (auto simp: list_all_iff)
  with p have "utf8_decode (map b8 (cursor_prefix @ nat_text n)) = Some (cursor_prefix @ nat_text n)"
    by (intro utf8_decode_encode utf8_ascii_bytes) simp
  moreover have "startswith (cursor_prefix @ nat_text n) cursor_prefix" by (simp add: startswith_def)
  moreover have "cursor_prefix \<noteq> []" by (simp add: cursor_prefix_def py_def)
  ultimately show ?thesis
    using assms(1) i
    by (simp add: decode_cursor_def encode_cursor_def int_text_def url64_ok_def)
qed

section \<open>Following the cursors\<close>

text \<open>A client that asks for pages of \<open>n\<close> tools until there is no next cursor.\<close>

fun walk_pages :: "nat \<Rightarrow> url64 \<Rightarrow> int \<Rightarrow> gateway \<Rightarrow> json \<Rightarrow> json list res" where
  "walk_pages 0 U n gw cursor = raise PyException ''more pages''"
| "walk_pages (Suc k) U n gw cursor =
     rbind (list_page U cursor (JInt n) gw) (\<lambda>(tools, nxt). case nxt of
       None \<Rightarrow> Inr tools
     | Some c \<Rightarrow> rbind (walk_pages k U n gw (JStr c)) (\<lambda>rest. Inr (tools @ rest)))"

definition starts_at :: "url64 \<Rightarrow> json \<Rightarrow> nat \<Rightarrow> bool" where
  "starts_at U cursor start \<longleftrightarrow> (if cursor = JNull then start = 0 else decode_cursor U cursor = Inr start)"

lemma list_page_eq:
  assumes "1 \<le> n" "n \<le> page_size_max" "starts_at U cursor start" "start \<le> length (registered_tool_names gw)"
  shows "list_page U cursor (JInt n) gw =
    Inr (map (tool_entry gw) (take (nat n) (drop start (registered_tool_names gw))),
      if start + nat n < length (registered_tool_names gw) then Some (encode_cursor U (start + nat n)) else None)"
  using assms by (auto simp: list_page_def starts_at_def Let_def)

lemma walk_pages_eq:
  assumes "url64_ok U" "1 \<le> n" "n \<le> page_size_max" "length (registered_tool_names gw) < inventory_limit"
  shows "starts_at U cursor start \<Longrightarrow> start \<le> length (registered_tool_names gw) \<Longrightarrow>
    length (registered_tool_names gw) - start < k \<Longrightarrow>
    walk_pages k U n gw cursor = Inr (map (tool_entry gw) (drop start (registered_tool_names gw)))"
proof (induction k arbitrary: cursor start)
  case (Suc k)
  let ?names = "registered_tool_names gw"
  note page = list_page_eq [OF assms(2,3) Suc.prems(1,2)]
  show ?case
  proof (cases "start + nat n < length ?names")
    case True
    let ?c = "JStr (encode_cursor U (start + nat n))"
    have "starts_at U ?c (start + nat n)"
      using decode_encode_cursor [OF assms(1), of "start + nat n"] True assms(4) by (simp add: starts_at_def)
    moreover have "length ?names - (start + nat n) < k" using Suc.prems(2,3) assms(2) True by linarith
    ultimately have "walk_pages k U n gw ?c = Inr (map (tool_entry gw) (drop (start + nat n) ?names))"
      using Suc.IH True by simp
    moreover have "take (nat n) (drop start ?names) @ drop (start + nat n) ?names = drop start ?names"
      by (metis add.commute append_take_drop_id drop_drop)
    ultimately show ?thesis using page True by (simp flip: map_append)
  qed (simp add: page)
qed simp

lemma registered_tool_names_mset: "mset (registered_tool_names gw) = mset (map fst (gw_tools gw))"
  by (simp add: registered_tool_names_def)

lemma register_tool_names:
  "register_tool a gw = Inr gw' \<Longrightarrow> distinct (map fst (gw_tools gw)) \<Longrightarrow> distinct (map fst (gw_tools gw'))"
  by (auto simp: register_tool_def map_of_eq_None_iff split: json.splits if_splits)

end
