(* ===== verification/Mcp_Properties.thy ===== *)
theory Mcp_Properties
  imports Mcp_Laws Planes_Properties
begin

text \<open>
  What the gateways promise: a tool runs only for a capability of its own that was minted for an envelope
  describing this very call, the receipt of a run verifies offline, and the pages of the list are the inventory.
\<close>

section \<open>Admission and consumption\<close>

lemma envelope_open_eq: "envelope_open e now = Inr ok \<Longrightarrow> ok = (not_before e \<le> as_utc now \<and> as_utc now \<le> not_after e)"
  by (auto simp: envelope_open_def dt_less_def split: datetime.splits if_splits)

definition describes_call :: "prims \<Rightarrow> gateway \<Rightarrow> pystr \<Rightarrow> registration \<Rightarrow> jdict \<Rightarrow> datetime \<Rightarrow> action_envelope \<Rightarrow> bool" where
  "describes_call P gw name rg args now e \<longleftrightarrow>
     plane (effect e) = py ''mcp'' \<and> verb (effect e) = name \<and> target (effect e) = rg_server rg \<and>
     sha256_hex P (JObj args) = Inr (args_digest (effect e)) \<and> principal e = gw_principal gw \<and>
     policy_ref e = gw_policy_ref gw \<and> not_before e \<le> as_utc now \<and> as_utc now \<le> not_after e"

lemma check_call_envelope_ok:
  "check_call_envelope P gw name rg args e now = Inr e' \<Longrightarrow> e' = e \<and> describes_call P gw name rg args now e"
  by (auto simp: check_call_envelope_def describes_call_def dest!: envelope_open_eq)

text \<open>The envelope that a caller presents, as the model or as the dict that reads as it.\<close>

definition presents :: "(jdict \<Rightarrow> action_envelope option) \<Rightarrow> presented \<Rightarrow> action_envelope \<Rightarrow> bool" where
  "presents E shown e \<longleftrightarrow> shown = Presented e \<or> (\<exists>d. shown = RawEnvelope d \<and> E d = Some e)"

lemma resolve_call_envelope_ok:
  "resolve_call_envelope P E gw name rg args shown now = Inr e \<Longrightarrow>
     presents E shown e \<and> describes_call P gw name rg args now e"
  by (cases shown) (auto simp: resolve_call_envelope_def presents_def dest: check_call_envelope_ok)

lemma admit_call_ok:
  assumes "admit_call P M gw md mc = Inr (rg, args, e, a)"
  shows "map_of (gw_tools gw) (mc_tool mc) = Some rg" "mc_arguments mc = JObj args" "a_env a = Some e"
    "describes_call P gw (mc_tool mc) rg args (moment_of md mc) e" "a_issuers a = gw_issuers gw"
    "presents (read_envelope M) (mc_envelope mc) e"
    "\<exists>cose pf. mc_cose mc = Some cose \<and> a_cose a = PBytes cose \<and> mc_proof mc = Some pf \<and> a_proof a = PBytes pf \<and>
      mc_challenge mc = Some (a_challenge a)"
  using assms
  by (cases "mc_arguments mc"; auto simp: admit_call_def nonempty_def Let_def dest: resolve_call_envelope_ok
      split: option.splits)+

lemma mcp_consume_eq:
  "mcp_consume P M md mc a s = (Inr p, s') \<longleftrightarrow>
     consume_capability P (read_payload M) (md_clock md) (md_iso md) a (PInt 0) (Some (moment_of md mc)) s = (Inr p, s')"
  by (auto simp: mcp_consume_def case_prod_unfold Let_def prod_eq_iff)

lemma mcp_consume_failed: "mcp_consume P M md mc a s = (Inl x, s') \<Longrightarrow> s' = s"
  by (cases "consume_capability P (read_payload M) (md_clock md) (md_iso md) a (PInt 0) (Some (moment_of md mc)) s")
    (auto simp: mcp_consume_def consume_capability_def except_def split: sum.splits if_splits)

lemma mcp_consume_facts:
  assumes "mcp_consume P M md mc a s = (Inr p, s')" "a_env a = Some e"
  shows "action_digest P e = Inr (cap_digest p)" "capability_id p \<notin> consumed_ids s"
    "consumed_ids s' = insert (capability_id p) (consumed_ids s)"
    "verify_holder_proof P (holder_pubkey p) (capability_id p) (a_challenge a) (a_proof a) = Inr ()"
    "verify_capability P (read_payload M) (a_cose a) (a_issuers a) (as_utc (moment_of md mc)) = Inr p"
  using assms
  by (auto simp: mcp_consume_eq consume_capability_eq authorized_def consumed_ids_def consumed_store_def)

text \<open>Exactly one call reaches a backend.\<close>

lemma finish_call_calls: "snd (finish_call P M gw md mc rg args e p calls) =
    calls @ [\<lparr>dp_capability = capability_id p, dp_tool = mc_tool mc, dp_arguments = args\<rparr>]"
  by (simp add: finish_call_def run_backend_def case_prod_unfold Let_def)

lemma tools_call_cases:
  obtains (refused) x where "tools_call P M gw md mc st = (Inl x, st)"
  | (dispatched) rg args e a p s' where
      "admit_call P M gw md mc = Inr (rg, args, e, a)" "mcp_consume P M md mc a (mcp_store st) = (Inr p, s')"
      "tools_call P M gw md mc st = (fst (finish_call P M gw md mc rg args e p (mcp_log st)),
         \<lparr>mcp_store = s', mcp_log = mcp_log st @
            [\<lparr>dp_capability = capability_id p, dp_tool = mc_tool mc, dp_arguments = args\<rparr>]\<rparr>)"
proof (cases "admit_call P M gw md mc")
  case (Inl x)
  show ?thesis by (rule refused [of x]) (simp add: tools_call_def Inl)
next
  case (Inr q)
  obtain rg args e a where q: "q = (rg, args, e, a)" by (cases q) auto
  obtain r s' where c: "mcp_consume P M md mc a (mcp_store st) = (r, s')"
    by (cases "mcp_consume P M md mc a (mcp_store st)")
  show ?thesis
  proof (cases r)
    case x: (Inl x)
    with c mcp_consume_failed have "s' = mcp_store st" by metis
    with x c Inr q show ?thesis by - (rule refused [of x], simp add: tools_call_def)
  next
    case p: (Inr p)
    show ?thesis using c p Inr q by - (rule dispatched [of rg args e a p s'],
        auto simp: tools_call_def finish_call_calls case_prod_unfold Let_def)
  qed
qed

section \<open>The gateway as an enforcement point\<close>

text \<open>Calls of the gateway, and any operation on the store it shares.\<close>

inductive mcp_step :: "prims \<Rightarrow> mcp_lib \<Rightarrow> gateway \<Rightarrow> mcp_state \<Rightarrow> mcp_state \<Rightarrow> bool" for P M gw where
  called: "mcp_step P M gw st (snd (tools_call P M gw md mc st))"
| stored: "exec P V op (mcp_store st) = (a, s') \<Longrightarrow> mcp_step P M gw st (st\<lparr>mcp_store := s'\<rparr>)"

interpretation mcp: enforcement "mcp_step P M gw" "\<lambda>st. map dp_capability (mcp_log st)"
    "\<lambda>st. consumed_ids (mcp_store st)" for P M gw
proof unfold_locales
  fix st st'
  assume step: "mcp_step P M gw st st'"
  have called: "consumed_ids (mcp_store st) \<subseteq> consumed_ids (mcp_store (snd (tools_call P M gw md mc st))) \<and>
      (let st' = snd (tools_call P M gw md mc st) in
        map dp_capability (mcp_log st') = map dp_capability (mcp_log st) \<or>
        (\<exists>c. map dp_capability (mcp_log st') = map dp_capability (mcp_log st) @ [c] \<and>
          c \<notin> consumed_ids (mcp_store st) \<and> c \<in> consumed_ids (mcp_store st')))" for md mc
  proof (cases rule: tools_call_cases [of P M gw md mc st])
    case (dispatched rg args e a p s')
    with mcp_consume_facts(2,3) [OF dispatched(2) admit_call_ok(3) [OF dispatched(1)]]
    show ?thesis by (auto simp: Let_def)
  qed simp
  from step show "consumed_ids (mcp_store st) \<subseteq> consumed_ids (mcp_store st')"
    by (cases rule: mcp_step.cases) (use called in \<open>auto dest: evolves_consumed [OF exec_evolves]\<close>)
  from step show "map dp_capability (mcp_log st') = map dp_capability (mcp_log st) \<or>
      (\<exists>c. map dp_capability (mcp_log st') = map dp_capability (mcp_log st) @ [c] \<and>
        c \<notin> consumed_ids (mcp_store st) \<and> c \<in> consumed_ids (mcp_store st'))"
    by (cases rule: mcp_step.cases) (use called in \<open>auto simp: Let_def\<close>)
qed

section \<open>Receipts\<close>

text \<open>The readers the verification relies on: strict base64, and pydantic on the dump of a valid receipt.\<close>

definition receipt_reader_ok :: "prims \<Rightarrow> (jdict \<Rightarrow> execution_receipt option) \<Rightarrow> bool" where
  "receipt_reader_ok P R \<longleftrightarrow> (\<forall>b. b64_strict P (b64_encode P b) = Some b \<and> (b \<noteq> [] \<longrightarrow> b64_encode P b \<noteq> [])) \<and>
     (\<forall>r. valid_receipt r \<longrightarrow> R (receipt_dump P r) = Some r)"

lemma signed_receipt_verifies:
  assumes "receipt_reader_ok P R" "signer_ok P sg" "valid_receipt r" "sign_receipt P sg r = Inr doc"
  shows "verify_execution_receipt P R (JObj doc) (public_key_bytes sg) = Inr r"
proof -
  obtain b where b: "Canonical.canonical_bytes P (JObj (receipt_dump P r)) = Inr b"
    and doc: "doc = receipt_dump P r @ [(py ''signature'', JStr (b64_encode P (sign_bytes sg b)))]"
    using assms(4) by (auto simp: sign_receipt_def)
  have "filter (\<lambda>kv. fst kv \<noteq> py ''signature'') doc = receipt_dump P r" "map_of (receipt_dump P r) (py ''signature'') = None"
    by (simp_all add: doc receipt_dump_def)
  moreover have "length (sign_bytes sg b) = 64" using assms(2) by (simp add: signer_ok_def)
  then have "sign_bytes sg b \<noteq> []" by auto
  ultimately show ?thesis
    using assms b by (simp add: verify_execution_receipt_def doc map_add_def receipt_reader_ok_def signer_ok_def)
qed

text \<open>An answered call: which receipt it carries.\<close>

lemma finish_call_ok:
  assumes "fst (finish_call P M gw md mc rg args e p calls) = Inr resp"
  obtains failed outcome d r doc where
    "resp = call_response M gw (mc_request_id mc) failed outcome doc" "sha256_hex P (JObj outcome) = Inr d"
    "r = execution_of P gw md mc rg e p failed d" "valid_receipt r" "sign_receipt P (gw_signer gw) r = Inr doc"
    "case rg_backend rg (calls_of calls) (mc_tool mc) args of
       Inl x \<Rightarrow> failed \<and> outcome = [(py ''error'', JStr (exn_text M x))] | Inr v \<Rightarrow> \<not> failed \<and> v = JObj outcome"
proof -
  obtain failed result calls' where b: "run_backend (exn_text M) rg (capability_id p) (mc_tool mc) args calls = ((failed, result), calls')"
    by (metis surj_pair)
  with assms obtain outcome where o: "result = JObj outcome" by (cases result) (auto simp: finish_call_def)
  have "case rg_backend rg (calls_of calls) (mc_tool mc) args of
      Inl x \<Rightarrow> failed \<and> outcome = [(py ''error'', JStr (exn_text M x))] | Inr v \<Rightarrow> \<not> failed \<and> v = JObj outcome"
    using b o by (auto simp: run_backend_def split: sum.splits)
  with assms b o that show ?thesis by (auto simp: finish_call_def Let_def)
qed

section \<open>A concrete gateway\<close>

definition demo_tool :: registration where
  "demo_tool = \<lparr>rg_server = py ''s'', rg_description = [], rg_schema = [], rg_annotations = default_annotations,
     rg_backend = in_memory_backend Map.empty\<rparr>"

definition demo_gateway :: gateway where
  "demo_gateway = \<lparr>gw_signer = toy_signer ''g'' 5, gw_issuers = toy_trust demo_issuer, gw_policy_ref = py ''p'',
     gw_principal = py ''agent'', gw_tools = [(py ''t'', demo_tool)]\<rparr>"

definition demo_call_envelope :: action_envelope where
  "demo_call_envelope = \<lparr>action_id = py ''id'', principal = py ''agent'',
     effect = \<lparr>plane = py ''mcp'', verb = py ''t'', target = py ''s'', args_digest = projr (sha256_hex toy (JObj []))\<rparr>,
     policy_ref = py ''p'', issued_at = 0, not_before = 0, not_after = seconds 60, nonce = py ''n''\<rparr>"

definition demo_call_payload :: cap_payload where
  "demo_call_payload = (demo_payload kind_execution)\<lparr>cap_digest := projr (action_digest toy demo_call_envelope)\<rparr>"

definition demo_call_row :: cap_row where
  "demo_call_row = demo_row\<lparr>row_digest := cap_digest demo_call_payload\<rparr>"

definition demo_call_state :: mcp_state where
  "demo_call_state = \<lparr>mcp_store = demo_store\<lparr>capabilities := [py ''cap-1'' \<mapsto> demo_call_row]\<rparr>, mcp_log = []\<rparr>"

definition demo_lib :: mcp_lib where
  "demo_lib = \<lparr>read_payload = read_cap, read_envelope = (\<lambda>_. None), exn_text = (\<lambda>_. []), compact_dumps = (\<lambda>_. [])\<rparr>"

definition demo_mcp_draw :: mcp_draw where
  "demo_mcp_draw = \<lparr>md_clock = 60000000, md_iso = py ''u'', md_receipt = py ''r''\<rparr>"

definition demo_call :: "bytes \<Rightarrow> mcp_call" where
  "demo_call m = \<lparr>mc_tool = py ''t'', mc_arguments = JObj [], mc_cose = Some m,
     mc_proof = Some (toy_signature (replicate 32 9) demo_message), mc_challenge = Some [1, 2],
     mc_envelope = Presented demo_call_envelope, mc_request_id = JInt 2, mc_now = None\<rparr>"

lemma demo_args_digest: "sha256_hex toy (JObj []) = Inr (to_hex (toy_digest [123, 125]))"
  by (simp add: sha256_hex_def canonical_bytes_def utf8_char_def b8_def)

lemma demo_call_digest: "\<exists>b. length b = 32 \<and> cap_digest demo_call_payload = to_hex b \<and>
    action_digest toy demo_call_envelope = Inr (to_hex b)"
proof -
  have "\<exists>b. envelope_bytes toy demo_call_envelope = Inr b \<and> length b < 2 ^ 60"
    using cbor_dumps_total [of "envelope_dump toy demo_call_envelope"]
      length_int_text [of 0] length_int_text [of "60000000"]
    by (auto simp: envelope_bytes_def envelope_dump_def effect_dump_def demo_call_envelope_def demo_args_digest
      toy_digest_def simp del: to_hex.simps to_be.simps)
  then show ?thesis by (auto simp: demo_call_payload_def action_digest_def toy_digest_def)
qed

lemma demo_call_signed: "\<exists>m. sign_capability demo_call_payload demo_issuer = Inr m"
proof (rule demo_signed)
  obtain b where "length b = 32" "cap_digest demo_call_payload = to_hex b" using demo_call_digest by blast
  then show "cap_small demo_call_payload"
    using length_int_text [of 0] length_int_text [of 3600000000]
    by (simp add: cap_small_def demo_call_payload_def demo_payload_def payload_dump_def kind_execution_def
        del: to_hex.simps)
qed

lemma demo_call_verifies:
  assumes "sign_capability demo_call_payload demo_issuer = Inr m"
  shows "verify_capability toy read_cap (PBytes m) (toy_trust demo_issuer) 60000000 = Inr demo_call_payload"
proof -
  obtain b where b: "length b = 32" "cap_digest demo_call_payload = to_hex b" using demo_call_digest by blast
  have "well_formed demo_call_payload" "in_window toy 60000000 demo_call_payload"
    using b demo_well_formed(2) demo_window(1) [of 60000000 kind_execution]
    by (simp_all add: demo_call_payload_def well_formed_def in_window_def del: to_hex.simps)
  then show ?thesis using assms by (simp add: demo_verify)
qed

definition demo_consumption :: "bytes \<Rightarrow> consume_args" where
  "demo_consumption m = \<lparr>a_cose = PBytes m, a_proof = PBytes (toy_signature (replicate 32 9) demo_message),
     a_challenge = [1, 2], a_issuers = toy_trust demo_issuer, a_env = Some demo_call_envelope\<rparr>"

lemma demo_call_admitted:
  assumes "sign_capability demo_call_payload demo_issuer = Inr m"
  shows "admit_call toy demo_lib demo_gateway demo_mcp_draw (demo_call m) =
    Inr (demo_tool, [], demo_call_envelope, demo_consumption m)"
proof -
  have "m \<noteq> []"
  proof
    assume "m = []"
    with demo_call_verifies [OF assms] show False by (simp add: verify_capability_def cose_verify_def cbor_loads_def read_head_def read_def)
  qed
  moreover have "length (toy_signature (replicate 32 9) demo_message) = 64" by (simp add: toy_signature_def)
  then have "toy_signature (replicate 32 9) demo_message \<noteq> []" by (metis length_0_conv zero_neq_numeral)
  moreover have "holder_pubkey demo_call_payload = replicate 32 9" "capability_id demo_call_payload = py ''cap-1''"
    by (simp_all add: demo_call_payload_def demo_payload_def)
  ultimately show ?thesis
    using demo_call_verifies [OF assms] demo_proof
    by (simp add: admit_call_def demo_gateway_def demo_call_def moment_of_def demo_mcp_draw_def demo_lib_def
      resolve_call_envelope_def check_call_envelope_def demo_tool_def demo_args_digest nonempty_def demo_consumption_def
      envelope_open_def dt_less_def demo_call_envelope_def Let_def del: to_hex.simps replicate.simps)
qed

lemma demo_consumed:
  assumes "sign_capability demo_call_payload demo_issuer = Inr m"
  shows "\<exists>s'. mcp_consume toy demo_lib demo_mcp_draw (demo_call m) (demo_consumption m) (mcp_store demo_call_state) =
    (Inr demo_call_payload, s')"
proof -
  obtain b where b: "length b = 32" "cap_digest demo_call_payload = to_hex b"
    "action_digest toy demo_call_envelope = Inr (to_hex b)" using demo_call_digest by blast
  have "authorized toy read_cap (demo_consumption m) 0 60000000 (mcp_store demo_call_state) demo_call_payload demo_call_row"
    using demo_call_verifies [OF assms] demo_proof b
    by (simp add: authorized_def demo_consumption_def demo_call_state_def demo_call_payload_def demo_store_eq
        demo_payload_def demo_call_row_def demo_row_def new_store_def revoke_targets_def is_revoked_def demo_mandate_def
        within_def del: to_hex.simps)
  then show ?thesis
    by (auto simp: mcp_consume_eq consume_capability_eq demo_lib_def moment_of_def demo_call_def demo_mcp_draw_def int64_def)
qed

lemma demo_called:
  assumes "sign_capability demo_call_payload demo_issuer = Inr m"
  obtains s' where "tools_call toy demo_lib demo_gateway demo_mcp_draw (demo_call m) demo_call_state =
    (fst (finish_call toy demo_lib demo_gateway demo_mcp_draw (demo_call m) demo_tool [] demo_call_envelope demo_call_payload []),
     \<lparr>mcp_store = s', mcp_log = [\<lparr>dp_capability = py ''cap-1'', dp_tool = py ''t'', dp_arguments = []\<rparr>]\<rparr>)"
proof -
  obtain s' where "mcp_consume toy demo_lib demo_mcp_draw (demo_call m) (demo_consumption m) (mcp_store demo_call_state) =
    (Inr demo_call_payload, s')" using demo_consumed [OF assms] by blast
  moreover have "mcp_log demo_call_state = []" "mc_tool (demo_call m) = py ''t''" "capability_id demo_call_payload = py ''cap-1''"
    by (simp_all add: demo_call_state_def demo_call_def demo_call_payload_def demo_payload_def)
  ultimately show ?thesis
    using demo_call_admitted [OF assms]
    by - (rule that [of s'], simp add: tools_call_def finish_call_calls case_prod_unfold Let_def)
qed

section \<open>Properties\<close>

text \<open>C7: every tool run has a capability of its own. From a state with no dispatched call, after any sequence of
  tool calls and of other operations on the shared store, every call that reached a backend stands for a consumed
  capability, and no capability stands for two calls.\<close>

theorem calls_backed_by_capabilities:
  assumes "(mcp_step P M gw)\<^sup>*\<^sup>* st st'" "mcp_log st = []"
  shows "distinct (map dp_capability (mcp_log st')) \<and>
    set (map dp_capability (mcp_log st')) \<subseteq> consumed_ids (mcp_store st')"
  using mcp.effects_backed [OF assms(1)] assms(2) by simp

theorem calls_backed_by_capabilities_witness:
  "\<exists>m st'. (mcp_step toy demo_lib demo_gateway)\<^sup>*\<^sup>* demo_call_state st' \<and>
     sign_capability demo_call_payload demo_issuer = Inr m \<and> map dp_capability (mcp_log st') = [py ''cap-1''] \<and>
     py ''cap-1'' \<in> consumed_ids (mcp_store st')"
proof -
  obtain m where m: "sign_capability demo_call_payload demo_issuer = Inr m" using demo_call_signed by blast
  let ?st = "snd (tools_call toy demo_lib demo_gateway demo_mcp_draw (demo_call m) demo_call_state)"
  have steps: "(mcp_step toy demo_lib demo_gateway)\<^sup>*\<^sup>* demo_call_state ?st"
    by (rule r_into_rtranclp) (rule mcp_step.called)
  have log: "map dp_capability (mcp_log ?st) = [py ''cap-1'']" by (rule demo_called [OF m]) simp
  have "mcp_log demo_call_state = []" by (simp add: demo_call_state_def)
  from calls_backed_by_capabilities [OF steps this] log have "py ''cap-1'' \<in> consumed_ids (mcp_store ?st)" by simp
  with steps m log show ?thesis by (intro exI [of _ m] exI [of _ ?st]) simp
qed

text \<open>C6: one tool call. It either raises and neither consumes a capability nor reaches a backend, or exactly one call reaches
  a backend: that of the called tool, with its name and exactly the given arguments. Then the presented capability verified
  at the time of the call, the presented proof answers the presented challenge under its holder key, it was not
  consumed before and is now, its digest is that of the presented envelope, and this envelope names the plane, this
  tool, its server, the digest of these arguments, and the principal and the policy of the gateway, with the time of
  the call in its window; and what is answered, if the call does not raise after the run, is what the backend made of the
  tool and the arguments, or its exception.\<close>

theorem tool_call_is_authorized:
  "(\<exists>x. tools_call P M gw md mc st = (Inl x, st)) \<or>
   (\<exists>rg args e cose pf ch (p :: cap_payload) r s'. tools_call P M gw md mc st = (r, \<lparr>mcp_store = s', mcp_log = mcp_log st @
        [\<lparr>dp_capability = capability_id p, dp_tool = mc_tool mc, dp_arguments = args\<rparr>]\<rparr>) \<and>
      map_of (gw_tools gw) (mc_tool mc) = Some rg \<and> mc_arguments mc = JObj args \<and>
      mc_cose mc = Some cose \<and> mc_proof mc = Some pf \<and> mc_challenge mc = Some ch \<and>
      verify_capability P (read_payload M) (PBytes cose) (gw_issuers gw) (as_utc (moment_of md mc)) = Inr p \<and>
      verify_holder_proof P (holder_pubkey p) (capability_id p) ch (PBytes pf) = Inr () \<and>
      capability_id p \<notin> consumed_ids (mcp_store st) \<and>
      consumed_ids s' = insert (capability_id p) (consumed_ids (mcp_store st)) \<and>
      presents (read_envelope M) (mc_envelope mc) e \<and> action_digest P e = Inr (cap_digest p) \<and>
      describes_call P gw (mc_tool mc) rg args (moment_of md mc) e \<and>
      ((\<exists>x. r = Inl x) \<or> (\<exists>failed outcome doc. r = Inr (call_response M gw (mc_request_id mc) failed outcome doc) \<and>
        (case rg_backend rg (calls_of (mcp_log st)) (mc_tool mc) args of
           Inl x \<Rightarrow> failed \<and> outcome = [(py ''error'', JStr (exn_text M x))]
         | Inr v \<Rightarrow> \<not> failed \<and> v = JObj outcome))))"
proof (cases rule: tools_call_cases [of P M gw md mc st])
  case (refused x)
  then show ?thesis by blast
next
  case (dispatched rg args e a p s')
  note ok = admit_call_ok [OF dispatched(1)]
  note spent = mcp_consume_facts [OF dispatched(2) ok(3)]
  let ?r = "fst (finish_call P M gw md mc rg args e p (mcp_log st))"
  obtain cose pf where shown: "mc_cose mc = Some cose" "a_cose a = PBytes cose" "mc_proof mc = Some pf" "a_proof a = PBytes pf"
    "mc_challenge mc = Some (a_challenge a)" using ok(7) by blast
  have "(\<exists>x. ?r = Inl x) \<or> (\<exists>failed outcome doc. ?r = Inr (call_response M gw (mc_request_id mc) failed outcome doc) \<and>
      (case rg_backend rg (calls_of (mcp_log st)) (mc_tool mc) args of
         Inl x \<Rightarrow> failed \<and> outcome = [(py ''error'', JStr (exn_text M x))] | Inr v \<Rightarrow> \<not> failed \<and> v = JObj outcome))"
  proof (cases ?r)
    case (Inr resp)
    then show ?thesis by (rule finish_call_ok) (use Inr in blast)
  qed blast
  with dispatched(3) ok(1,2,4-6) spent shown show ?thesis by - (rule disjI2, intro exI conjI, assumption+, simp_all)
qed

text \<open>C24: the receipt of an answered call verifies. Under the gateway's key, the receipt in the response verifies offline to
  a receipt that names the called tool and its server, the digest of the arguments and of the result in the response, and
  the capability that was consumed for the call.\<close>

theorem answered_call_has_receipt:
  assumes "receipt_reader_ok P R" "signer_ok P (gw_signer gw)" "tools_call P M gw md mc st = (Inr resp, st')"
  shows "\<exists>failed outcome args doc r. resp = call_response M gw (mc_request_id mc) failed outcome doc \<and>
    verify_execution_receipt P R (JObj doc) (public_key_bytes (gw_signer gw)) = Inr r \<and>
    er_tool_name r = mc_tool mc \<and> er_server_id r = server_of gw (mc_tool mc) \<and> er_is_error r = failed \<and>
    mc_arguments mc = JObj args \<and> sha256_hex P (JObj args) = Inr (er_args_digest r) \<and>
    sha256_hex P (JObj outcome) = Inr (er_result_digest r) \<and>
    mcp_log st' = mcp_log st @ [\<lparr>dp_capability = er_capability_id r, dp_tool = er_tool_name r, dp_arguments = args\<rparr>]"
proof (cases rule: tools_call_cases [of P M gw md mc st])
  case (refused x)
  with assms(3) show ?thesis by simp
next
  case (dispatched rg args e a p s')
  note ok = admit_call_ok [OF dispatched(1)]
  have "fst (finish_call P M gw md mc rg args e p (mcp_log st)) = Inr resp" using dispatched(3) assms(3) by simp
  then obtain failed outcome d r doc where resp: "resp = call_response M gw (mc_request_id mc) failed outcome doc"
    and d: "sha256_hex P (JObj outcome) = Inr d" and r: "r = execution_of P gw md mc rg e p failed d" "valid_receipt r"
    and doc: "sign_receipt P (gw_signer gw) r = Inr doc" by (rule finish_call_ok)
  have "verify_execution_receipt P R (JObj doc) (public_key_bytes (gw_signer gw)) = Inr r"
    by (rule signed_receipt_verifies [OF assms(1,2) r(2) doc])
  moreover have "sha256_hex P (JObj args) = Inr (args_digest (effect e))" using ok(4) by (simp add: describes_call_def)
  ultimately show ?thesis
    using resp d ok(1,2) dispatched(3) assms(3)
    by (intro exI [of _ failed] exI [of _ outcome] exI [of _ args] exI [of _ doc] exI [of _ r])
      (simp add: r(1) execution_of_def server_of_def)
qed

text \<open>A reader of receipts on the toy primitives.\<close>

definition text_at :: "jdict \<Rightarrow> string \<Rightarrow> pystr" where
  "text_at d k = (case map_of d (py k) of Some (JStr s) \<Rightarrow> s | _ \<Rightarrow> [])"

definition read_receipt :: "jdict \<Rightarrow> execution_receipt option" where
  "read_receipt d = Some \<lparr>er_receipt_id = text_at d ''receipt_id'', er_tool_name = text_at d ''tool_name'',
     er_server_id = text_at d ''server_id'', er_args_digest = text_at d ''args_digest'',
     er_result_digest = text_at d ''result_digest'', er_capability_id = text_at d ''capability_id'',
     er_executed_at = text_int (text_at d ''executed_at''), er_gateway_key_id = text_at d ''gateway_key_id'',
     er_is_error = (map_of d (py ''is_error'') = Some (JBool True))\<rparr>"

lemma to_hex_neq_Nil: "b \<noteq> [] \<Longrightarrow> to_hex b \<noteq> []"
  by (cases b) auto

lemma read_receipt_ok: "receipt_reader_ok toy read_receipt"
  by (auto simp: receipt_reader_ok_def receipt_dump_def to_hex_neq_Nil read_receipt_def text_at_def)

lemma demo_finished:
  "\<exists>resp. fst (finish_call toy demo_lib demo_gateway demo_mcp_draw (demo_call m) demo_tool [] demo_call_envelope
    demo_call_payload []) = Inr resp"
proof -
  let ?o = "JObj [(py ''echo'', JObj [])]"
  obtain b where b: "canonical_bytes toy ?o = Inr b" using canonical_total [of toy ?o] by auto
  let ?r = "execution_of toy demo_gateway demo_mcp_draw (demo_call m) demo_tool demo_call_envelope demo_call_payload False
    (to_hex (toy_digest b))"
  have len: "length (toy_digest c) = 32" for c by (simp add: toy_digest_def)
  have r: "valid_receipt ?r" "er_args_digest ?r = to_hex (toy_digest [123, 125])"
    by (simp_all add: valid_receipt_def execution_of_def demo_call_envelope_def demo_args_digest len demo_call_def
        demo_tool_def demo_call_payload_def demo_payload_def demo_gateway_def del: to_hex.simps)
  have "json_ok toy (JObj (receipt_dump toy ?r))"
    by (simp add: receipt_dump_def r(2), simp add: execution_of_def demo_call_def demo_tool_def demo_call_payload_def
        demo_payload_def demo_gateway_def demo_mcp_draw_def del: to_hex.simps)
  from canonical_total [OF this] have "\<exists>doc. sign_receipt toy (gw_signer demo_gateway) ?r = Inr doc"
    by (auto simp: sign_receipt_def)
  moreover have "fst (run_backend (exn_text demo_lib) demo_tool c (mc_tool (demo_call m)) [] []) = (False, ?o)" for c
    by (simp add: run_backend_def demo_tool_def in_memory_backend_def in_memory_call_def)
  ultimately show ?thesis
    using b r(1) by (auto simp: finish_call_def sha256_hex_def Let_def case_prod_unfold simp del: to_hex.simps)
qed

theorem answered_call_has_receipt_witness:
  "\<exists>m resp st' doc r. tools_call toy demo_lib demo_gateway demo_mcp_draw (demo_call m) demo_call_state = (Inr resp, st') \<and>
     verify_execution_receipt toy read_receipt (JObj doc) (replicate 32 5) = Inr r \<and> er_tool_name r = py ''t'' \<and>
     er_server_id r = py ''s'' \<and> er_capability_id r = py ''cap-1''"
proof -
  obtain m where m: "sign_capability demo_call_payload demo_issuer = Inr m" using demo_call_signed by blast
  obtain resp where resp: "fst (finish_call toy demo_lib demo_gateway demo_mcp_draw (demo_call m) demo_tool [] demo_call_envelope
    demo_call_payload []) = Inr resp" using demo_finished by blast
  obtain st' where c: "tools_call toy demo_lib demo_gateway demo_mcp_draw (demo_call m) demo_call_state = (Inr resp, st')"
    and log: "mcp_log st' = [\<lparr>dp_capability = py ''cap-1'', dp_tool = py ''t'', dp_arguments = []\<rparr>]"
    by (rule demo_called [OF m]) (simp add: resp)
  have "signer_ok toy (gw_signer demo_gateway)" by (simp add: demo_gateway_def)
  from answered_call_has_receipt [OF read_receipt_ok this c] obtain doc r where
    v: "verify_execution_receipt toy read_receipt (JObj doc) (public_key_bytes (gw_signer demo_gateway)) = Inr r"
    "er_tool_name r = mc_tool (demo_call m)" "er_server_id r = server_of demo_gateway (mc_tool (demo_call m))"
    "\<exists>args. mcp_log st' = mcp_log demo_call_state @
      [\<lparr>dp_capability = er_capability_id r, dp_tool = er_tool_name r, dp_arguments = args\<rparr>]" by blast
  have g: "public_key_bytes (gw_signer demo_gateway) = replicate 32 5" "mc_tool (demo_call m) = py ''t''"
    "server_of demo_gateway (py ''t'') = py ''s''" "mcp_log demo_call_state = []"
    by (simp_all add: demo_gateway_def demo_call_def server_of_def demo_tool_def demo_call_state_def)
  from v(4) log have "er_capability_id r = py ''cap-1''" by (auto simp: g)
  with c v(1-3) show ?thesis unfolding g by blast
qed

text \<open>C40: the pages of \<^verbatim>\<open>tools/list\<close> are the inventory. With any page size the gateway accepts, a client
  that follows the cursors from the first page receives every registered tool exactly once, in sorted order, after at
  most one page more than there are tools; no page is longer than its size.\<close>

theorem pages_enumerate_inventory:
  assumes "url64_ok U" "1 \<le> n" "n \<le> page_size_max" "length (gw_tools gw) < inventory_limit"
  shows "walk_pages (Suc (length (gw_tools gw))) U n gw JNull = Inr (map (tool_entry gw) (registered_tool_names gw)) \<and>
    sorted (registered_tool_names gw) \<and> mset (registered_tool_names gw) = mset (map fst (gw_tools gw)) \<and>
    (\<forall>cursor tools nxt. list_page U cursor (JInt n) gw = Inr (tools, nxt) \<longrightarrow> length tools \<le> nat n)"
proof (intro conjI allI impI)
  have "length (registered_tool_names gw) = length (gw_tools gw)" by (simp add: registered_tool_names_def)
  then show "walk_pages (Suc (length (gw_tools gw))) U n gw JNull = Inr (map (tool_entry gw) (registered_tool_names gw))"
    using walk_pages_eq [OF assms(1-3), of gw JNull 0] assms(4) by (simp add: starts_at_def del: walk_pages.simps)
qed (auto simp: registered_tool_names_def list_page_def Let_def)

theorem pages_enumerate_inventory_witness:
  "walk_pages 2 \<lparr>url_encode = to_hex, url_decode = from_hex\<rparr> 1 demo_gateway JNull =
     Inr [tool_entry demo_gateway (py ''t'')]"
proof -
  have "list_all (\<lambda>c. c < 128) (to_hex b)" for b
  proof (induction b)
    case (Cons c cs)
    have "unat c div 16 < 16" using unat_byte_lt [of c] by linarith
    then show ?case using Cons by (auto simp: hex_digit_def)
  qed simp
  then have "url64_ok \<lparr>url_encode = to_hex, url_decode = from_hex\<rparr>" by (simp add: url64_ok_def to_hex_neq_Nil)
  moreover have "length (gw_tools demo_gateway) < inventory_limit" "length (gw_tools demo_gateway) = 1"
    by (simp_all add: demo_gateway_def inventory_limit_def)
  ultimately show ?thesis
    using pages_enumerate_inventory [of "\<lparr>url_encode = to_hex, url_decode = from_hex\<rparr>" 1 demo_gateway]
    by (simp add: page_size_max_def registered_tool_names_def demo_gateway_def numeral_2_eq_2 del: walk_pages.simps)
qed

text \<open>The v0 gateway: a permission is only given for a registered tool, and is the ALLOW of the decision core on the
  \<^verbatim>\<open>mcp\<close> plane, with the action named after the tool and its declared scope as the resource.\<close>

theorem v0_permission_needs_token:
  assumes "\<And>p d. R p = Some d \<Longrightarrow> map_of p (py ''verdict'') = Some (JStr (verdict_text (verdict d)))"
    and "handle_tool_call P L R reg dr vc g = (Inr (Permitted env), g')"
  shows "\<exists>spec now p. reg (tool_key (vc_server vc) (vc_tool vc)) = Some spec \<and>
    token_grants P L g (v0_invocation vc (py ''mcp-holder'') (ts_scope spec) (g_constitution g) True) now p \<and>
    governance_check (tool_action (vc_server vc) (vc_tool vc)) (ts_scope spec) (g_constitution g) = ALLOW \<and>
    g' = g\<lparr>g_used_nonces := t_nonce p # g_used_nonces g\<rparr>"
proof (cases "reg (tool_key (vc_server vc) (vc_tool vc))")
  case None
  with assms(2) show ?thesis by (auto simp: handle_tool_call_def split: sum.splits prod.splits)
next
  case (Some spec)
  let ?iv = "v0_invocation vc (py ''mcp-holder'') (ts_scope spec) (g_constitution g) True"
  obtain d where d: "evaluate_plane P L dr ?iv g = (Inr env, g')" "verdict d = ALLOW"
    "verify_decision P R env (public_key_bytes (decision_key g)) = Inr d"
    using assms(2) Some by (auto simp: handle_tool_call_def split: sum.splits prod.splits if_splits)
  then have "map_of (payload env) (py ''verdict'') = Some (JStr (verdict_text ALLOW))"
    using assms(1) by (auto simp: verify_decision_def verify_envelope_ok)
  then have v: "verdict_of env = Some ALLOW" by (simp add: verdict_of_def)
  have iv: "?iv\<lparr>iv_constitution := g_constitution g\<rparr> = ?iv" by (simp add: v0_invocation_def)
  from d(1) have "decide P L dr ?iv g = (Inr env, g')" by (simp add: evaluate_plane_def iv)
  then show ?thesis
  proof (rule decide_cases)
    fix now
    assume e: "verdict_of env = Some (expected_verdict P L g ?iv now)"
      and g: "\<And>p. token_grants P L g ?iv now p \<Longrightarrow> expected_verdict P L g ?iv now = ALLOW \<Longrightarrow>
        g' = g\<lparr>g_used_nonces := t_nonce p # g_used_nonces g\<rparr>"
    from e v have x: "expected_verdict P L g ?iv now = ALLOW" by simp
    then obtain p where p: "token_grants P L g ?iv now p"
      and a: "governance_check (iv_action ?iv) (iv_resource ?iv) (iv_constitution ?iv) = ALLOW"
      by (auto simp: expected_verdict_def split: if_splits)
    from a have "governance_check (tool_action (vc_server vc) (vc_tool vc)) (ts_scope spec) (g_constitution g) = ALLOW"
      by (simp add: v0_invocation_def)
    with Some p g [OF p x] show ?thesis by blast
  qed
qed

end
