(* ===== verification/Shadow.thy ===== *)
theory Shadow
  imports Planes
begin

text \<open>
  \<^verbatim>\<open>shadow_mode.py\<close>: the governor that evaluates every request by the constitution and the token but,
  in shadow mode, denies nothing and records what it would have done in a hash-chained log; the signed
  commands that change its mode; the report over the log and the dry run of a new constitution. Each
  reading of the clock is an argument; pydantic's readers of a request and of a command are parameters.
\<close>

section \<open>Requests and records\<close>

datatype mode = Enforce | Shadow

record token_evaluation =
  te_envelope :: signed_envelope
  te_proof :: signed_envelope
  te_params :: jdict
  te_issuers :: "pystr \<rightharpoonup> bytes"
  te_context :: jdict

record evaluation_request =
  ask_action :: pystr
  ask_resource :: pystr
  ask_subject :: pystr
  ask_token :: "token_evaluation option"
  ask_baseline :: "con_decision option"

definition request_ok :: "evaluation_request \<Rightarrow> bool" where
  "request_ok q \<longleftrightarrow> ask_action q \<noteq> [] \<and> ask_resource q \<noteq> [] \<and> ask_subject q \<noteq> []"

text \<open>A request is the model, or a dict that the model validates.\<close>

datatype raw_request = Validated evaluation_request | Raw jdict

definition read_request :: "(jdict \<Rightarrow> evaluation_request option) \<Rightarrow> raw_request \<Rightarrow> evaluation_request res" where
  "read_request R raw = (case raw of Validated q \<Rightarrow> Inr q
     | Raw d \<Rightarrow> rbind (of_option ValidationError ''EvaluationRequest'' (R d)) (\<lambda>q.
         require (request_ok q) ValidationError ''EvaluationRequest'' (Inr q)))"

record shadow_record =
  lg_id :: pystr
  lg_timestamp :: int
  lg_action :: pystr
  lg_resource :: pystr
  lg_subject :: pystr
  lg_evaluated :: con_decision
  lg_enforced :: con_decision
  lg_would_deny :: bool
  lg_would_require :: bool
  lg_source :: pystr
  lg_diff :: "pystr option"
  lg_previous :: pystr
  lg_hash :: pystr

record shadow =
  sd_constitution :: Constitution.constitution
  sd_mode :: mode
  sd_never :: "pystr list"
  sd_controllers :: "(pystr \<times> bytes) list"
  sd_records :: "shadow_record list"
  sd_nonces :: "pystr list"
  sd_sequence :: int

definition new_shadow :: "Constitution.constitution \<Rightarrow> mode \<Rightarrow> pystr list option \<Rightarrow> (pystr \<times> bytes) list \<Rightarrow> shadow" where
  "new_shadow c m never controllers = \<lparr>sd_constitution = c, sd_mode = m,
     sd_never = (case never of None \<Rightarrow> hard_deny_actions c | Some ps \<Rightarrow> ps),
     sd_controllers = controllers, sd_records = [], sd_nonces = [], sd_sequence = - 1\<rparr>"

text \<open>\<^verbatim>\<open>_require_aware_utc\<close>.\<close>

definition aware_instant :: "exn_class \<Rightarrow> datetime \<Rightarrow> int res" where
  "aware_instant c t = (case t of Naive u \<Rightarrow> raise c ''must be timezone-aware'' | Aware u z \<Rightarrow> Inr u)"

section \<open>The pipeline\<close>

text \<open>DENY over APPROVAL_REQUIRED over ALLOW; \<open>rank\<close> is the dict \<^verbatim>\<open>order\<close>.\<close>

definition combine :: "con_decision \<Rightarrow> con_decision \<Rightarrow> con_decision" where
  "combine c t = (if rank t \<le> rank c then c else t)"

definition shadow_token_request :: "shadow \<Rightarrow> token_evaluation \<Rightarrow> int \<Rightarrow> token_request" where
  "shadow_token_request s t now = \<lparr>invocation_params = te_params t, rq_now = Aware now 0,
     trusted_issuers = te_issuers t, used_nonces = Some (sd_nonces s), token_chain = Map.empty,
     holder_proofs = Map.empty, holder_keys = Map.empty, rq_context = te_context t, expected_audience = None\<rparr>"

definition evaluate_token :: "prims \<Rightarrow> token_lib \<Rightarrow> datetime \<Rightarrow> evaluation_request \<Rightarrow> token_evaluation \<Rightarrow> shadow
    \<Rightarrow> con_decision res \<times> shadow" where
  "evaluate_token P L now q t s =
     (case rbind (aware_instant ValueError now) (\<lambda>u.
         verify_token P L (shadow_token_request s t u) None (te_envelope t) (te_proof t)) of
        Inl e \<Rightarrow> (if is_a (exn_cls e) AuthorizationError then Inr DENY else Inl e, s)
      | Inr p \<Rightarrow>
          if action p \<noteq> ask_action q \<or> resource p \<noteq> ask_resource q \<or> subject p \<noteq> ask_subject q
          then (Inr DENY, s)
          else (Inr ALLOW, s\<lparr>sd_nonces := t_nonce p # sd_nonces s\<rparr>))"

text \<open>Any exception inside the pipeline is a DENY whose source says so; the hash of the constitution is then
  computed again, outside of the \<^verbatim>\<open>try\<close>.\<close>

definition pipeline_error :: "pystr \<Rightarrow> con_decision \<times> pystr" where
  "pipeline_error h = (DENY, h @ py ''+pipeline-error'')"

definition run_pipeline :: "prims \<Rightarrow> token_lib \<Rightarrow> datetime \<Rightarrow> evaluation_request \<Rightarrow> shadow
    \<Rightarrow> (con_decision \<times> pystr) res \<times> shadow" where
  "run_pipeline P L now q s =
     (let d = governance_check (ask_action q) (ask_resource q) (sd_constitution s) in
      case content_hash_of P (sd_constitution s) of
        Inl e \<Rightarrow> (Inl e, s)
      | Inr h \<Rightarrow>
          (case ask_token q of
             None \<Rightarrow> (Inr (d, h), s)
           | Some t \<Rightarrow>
               (case evaluate_token P L now q t s of
                  (Inl e, s') \<Rightarrow> (Inr (pipeline_error h), s')
                | (Inr td, s') \<Rightarrow>
                    (case token_hash P (te_envelope t) of
                       Inl e \<Rightarrow> (Inr (pipeline_error h), s')
                     | Inr th \<Rightarrow> (Inr (combine d td, h @ py ''+token:'' @ th), s')))))"

section \<open>The log\<close>

definition genesis_prev_hash :: pystr where
  "genesis_prev_hash = py ''GENESIS:'' @ replicate 64 48"

definition arrow :: pystr where
  "arrow = py ''->''"

definition diff_text :: "con_decision option \<Rightarrow> con_decision \<Rightarrow> pystr option" where
  "diff_text baseline evaluated = (case baseline of None \<Rightarrow> None
     | Some b \<Rightarrow> if b = evaluated then None else Some (verdict_text b @ arrow @ verdict_text evaluated))"

text \<open>\<^verbatim>\<open>_record_body\<close>: a dict whose values are texts, truth values and one optional text.\<close>

definition record_body :: "prims \<Rightarrow> shadow_record \<Rightarrow> json" where
  "record_body P r = JObj
     [(py ''timestamp'', JStr (isoformat P (lg_timestamp r))), (py ''action'', JStr (lg_action r)),
      (py ''resource'', JStr (lg_resource r)), (py ''subject'', JStr (lg_subject r)),
      (py ''evaluated_decision'', JStr (verdict_text (lg_evaluated r))),
      (py ''enforced_decision'', JStr (verdict_text (lg_enforced r))),
      (py ''would_have_denied'', JBool (lg_would_deny r)),
      (py ''would_have_required_approval'', JBool (lg_would_require r)),
      (py ''decision_source'', JStr (lg_source r)),
      (py ''diff_vs_baseline'', (case lg_diff r of None \<Rightarrow> JNull | Some d \<Rightarrow> JStr d)),
      (py ''previous_record_hash'', JStr (lg_previous r))]"

definition record_id_of :: "pystr \<Rightarrow> pystr" where
  "record_id_of h = py ''rec-'' @ take 16 h"

definition last_record_hash :: "shadow_record list \<Rightarrow> pystr" where
  "last_record_hash rs = (if rs = [] then genesis_prev_hash else lg_hash (last rs))"

text \<open>The record of an evaluation, before its id and hash are known.\<close>

definition draft_record :: "shadow \<Rightarrow> int \<Rightarrow> evaluation_request \<Rightarrow> con_decision \<Rightarrow> con_decision \<Rightarrow> pystr \<Rightarrow> shadow_record" where
  "draft_record s t q evaluated enforced source =
     \<lparr>lg_id = [], lg_timestamp = t, lg_action = ask_action q, lg_resource = ask_resource q, lg_subject = ask_subject q,
      lg_evaluated = evaluated, lg_enforced = enforced,
      lg_would_deny = (evaluated = DENY \<and> enforced = ALLOW),
      lg_would_require = (evaluated = APPROVAL_REQUIRED \<and> enforced = ALLOW),
      lg_source = source, lg_diff = diff_text (ask_baseline q) evaluated,
      lg_previous = last_record_hash (sd_records s), lg_hash = []\<rparr>"

definition append_record :: "prims \<Rightarrow> datetime \<Rightarrow> evaluation_request \<Rightarrow> con_decision \<Rightarrow> con_decision \<Rightarrow> pystr \<Rightarrow> shadow
    \<Rightarrow> shadow_record res \<times> shadow" where
  "append_record P now q evaluated enforced source s =
     (case rbind (aware_instant ValueError now) (\<lambda>t. let r = draft_record s t q evaluated enforced source in
         rbind (sha256_hex P (record_body P r)) (\<lambda>h. Inr (r\<lparr>lg_id := record_id_of h, lg_hash := h\<rparr>))) of
        Inl e \<Rightarrow> (Inl e, s)
      | Inr r \<Rightarrow> (Inr r, s\<lparr>sd_records := sd_records s @ [r]\<rparr>))"

section \<open>Evaluation\<close>

definition never_shadow_match :: "shadow \<Rightarrow> pystr \<Rightarrow> bool" where
  "never_shadow_match s a = list_ex (fnmatchcase a) (sd_never s)"

definition enforced_of :: "shadow \<Rightarrow> pystr \<Rightarrow> con_decision \<Rightarrow> con_decision" where
  "enforced_of s a evaluated = (if sd_mode s = Enforce \<or> never_shadow_match s a then evaluated else ALLOW)"

text \<open>The record is returned, or carried by \<^verbatim>\<open>ShadowDenied\<close>.\<close>

datatype eval_answer = Returned shadow_record | Blocked shadow_record

text \<open>\<open>t1\<close> and \<open>t2\<close> are the clock when the token is verified and when the record is made.\<close>

definition evaluate :: "prims \<Rightarrow> token_lib \<Rightarrow> (jdict \<Rightarrow> evaluation_request option) \<Rightarrow> datetime \<Rightarrow> datetime \<Rightarrow> raw_request
    \<Rightarrow> shadow \<Rightarrow> eval_answer res \<times> shadow" where
  "evaluate P L R t1 t2 raw s =
     (case read_request R raw of
        Inl e \<Rightarrow> (Inl e, s)
      | Inr q \<Rightarrow>
          (case run_pipeline P L t1 q s of
             (Inl e, s1) \<Rightarrow> (Inl e, s1)
           | (Inr (evaluated, source), s1) \<Rightarrow>
               (let enforced = enforced_of s1 (ask_action q) evaluated in
                case append_record P t2 q evaluated enforced source s1 of
                  (Inl e, s2) \<Rightarrow> (Inl e, s2)
                | (Inr r, s2) \<Rightarrow> (Inr (if enforced = DENY then Blocked r else Returned r), s2))))"

definition proceed :: "shadow_record \<Rightarrow> bool" where
  "proceed r \<longleftrightarrow> lg_enforced r = ALLOW"

record evaluation_outcome =
  oc_record :: shadow_record
  oc_allowed :: bool
  oc_mode :: mode

definition evaluate_with_outcome :: "prims \<Rightarrow> token_lib \<Rightarrow> (jdict \<Rightarrow> evaluation_request option) \<Rightarrow> datetime \<Rightarrow> datetime
    \<Rightarrow> raw_request \<Rightarrow> shadow \<Rightarrow> evaluation_outcome res \<times> shadow" where
  "evaluate_with_outcome P L R t1 t2 raw s =
     (let (a, s') = evaluate P L R t1 t2 raw s in
      (rbind a (\<lambda>x. Inr (case x of
          Blocked r \<Rightarrow> \<lparr>oc_record = r, oc_allowed = False, oc_mode = sd_mode s'\<rparr>
        | Returned r \<Rightarrow> \<lparr>oc_record = r, oc_allowed = proceed r, oc_mode = sd_mode s'\<rparr>)), s'))"

section \<open>Verification of the log\<close>

record log_integrity =
  li_ok :: bool
  li_checked :: nat
  li_bad :: "nat option"

text \<open>\<^verbatim>\<open>s.split("->")[0]\<close>.\<close>

fun before_arrow :: "pystr \<Rightarrow> pystr" where
  "before_arrow [] = []"
| "before_arrow (c # s) = (if startswith (c # s) arrow then [] else c # before_arrow s)"

definition decision_of_text :: "pystr \<Rightarrow> con_decision option" where
  "decision_of_text w = List.find (\<lambda>d. verdict_text d = w) [ALLOW, DENY, APPROVAL_REQUIRED]"

text \<open>The baseline that the diff of a record names; an empty text is no diff.\<close>

definition baseline_of :: "pystr option \<Rightarrow> con_decision option res" where
  "baseline_of d = (case d of None \<Rightarrow> Inr None
     | Some w \<Rightarrow> if w = [] then Inr None
         else rbind (of_option ValidationError ''EvaluationRequest'' (decision_of_text (before_arrow w))) (\<lambda>b. Inr (Some b)))"

definition check_record :: "prims \<Rightarrow> pystr \<Rightarrow> shadow_record \<Rightarrow> bool res" where
  "check_record P prev r =
     (if lg_previous r \<noteq> prev then Inr False
      else rbind (baseline_of (lg_diff r)) (\<lambda>b.
        require (lg_action r \<noteq> [] \<and> lg_resource r \<noteq> [] \<and> lg_subject r \<noteq> []) ValidationError ''EvaluationRequest''
       (if diff_text b (lg_evaluated r) \<noteq> lg_diff r then Inr False
        else rbind (sha256_hex P (record_body P r)) (\<lambda>h. Inr (h = lg_hash r \<and> lg_id r = record_id_of h)))))"

fun first_bad :: "prims \<Rightarrow> nat \<Rightarrow> pystr \<Rightarrow> shadow_record list \<Rightarrow> nat option res" where
  "first_bad P i prev [] = Inr None"
| "first_bad P i prev (r # rs) = rbind (check_record P prev r) (\<lambda>ok.
     if ok then first_bad P (Suc i) (lg_hash r) rs else Inr (Some i))"

definition verify_log :: "prims \<Rightarrow> shadow_record list \<Rightarrow> log_integrity res" where
  "verify_log P rs = rbind (first_bad P 0 genesis_prev_hash rs) (\<lambda>bad.
     Inr \<lparr>li_ok = (bad = None), li_checked = length rs, li_bad = bad\<rparr>)"

section \<open>Mode changes\<close>

record mode_change =
  cg_mode :: mode
  cg_sequence :: int
  cg_issued :: int
  cg_expires :: int

fun mode_text :: "mode \<Rightarrow> pystr" where
  "mode_text Enforce = py ''ENFORCE''"
| "mode_text Shadow = py ''SHADOW''"

definition mode_change_ok :: "mode_change \<Rightarrow> bool" where
  "mode_change_ok c \<longleftrightarrow> 0 \<le> cg_sequence c \<and> cg_issued c < cg_expires c"

definition mode_change_dump :: "prims \<Rightarrow> mode_change \<Rightarrow> jdict" where
  "mode_change_dump P c = [(py ''mode'', JStr (mode_text (cg_mode c))), (py ''sequence'', JInt (cg_sequence c)),
     (py ''issued_at'', JStr (dt_json P (cg_issued c))), (py ''expires_at'', JStr (dt_json P (cg_expires c)))]"

definition sign_mode_change :: "prims \<Rightarrow> signer \<Rightarrow> mode \<Rightarrow> int \<Rightarrow> datetime \<Rightarrow> datetime \<Rightarrow> signed_envelope res" where
  "sign_mode_change P sg m n issued expires =
     rbind (aware_instant ValidationError issued) (\<lambda>i. rbind (aware_instant ValidationError expires) (\<lambda>e.
     let c = \<lparr>cg_mode = m, cg_sequence = n, cg_issued = i, cg_expires = e\<rparr> in
     require (mode_change_ok c) ValidationError ''ModeChangeCommand'' (sign_payload P sg (mode_change_dump P c))))"

text \<open>The checks in their order; \<open>C\<close> reads the fields of a command.\<close>

definition admit_mode_change :: "prims \<Rightarrow> (jdict \<Rightarrow> mode_change option) \<Rightarrow> signed_envelope \<Rightarrow> datetime \<Rightarrow> shadow
    \<Rightarrow> mode_change res" where
  "admit_mode_change P C env now s =
     require (sd_controllers s \<noteq> []) ModeChangeRejected ''no controller keys configured''
    (rbind (of_option ModeChangeRejected ''unknown controller key_id'' (map_of (sd_controllers s) (env_key_id env))) (\<lambda>pub.
     rbind (except PyException ModeChangeRejected ''invalid mode-change signature'' (verify_envelope P env pub)) (\<lambda>p.
     rbind (of_option ModeChangeRejected ''malformed mode-change payload'' (C p)) (\<lambda>c.
     require (mode_change_ok c) ModeChangeRejected ''malformed mode-change payload''
    (rbind (aware_instant ValueError now) (\<lambda>t.
     require (sd_sequence s < cg_sequence c) ModeChangeRejected ''stale or replayed sequence''
    (require (t < cg_expires c) ModeChangeRejected ''mode-change envelope expired''
    (require (cg_issued c \<le> t) ModeChangeRejected ''mode-change issued_at is in the future'' (Inr c)))))))))"

definition apply_mode_change :: "prims \<Rightarrow> (jdict \<Rightarrow> mode_change option) \<Rightarrow> signed_envelope \<Rightarrow> datetime \<Rightarrow> shadow
    \<Rightarrow> mode_change res \<times> shadow" where
  "apply_mode_change P C env now s = (case admit_mode_change P C env now s of
       Inl e \<Rightarrow> (Inl e, s)
     | Inr c \<Rightarrow> (Inr c, s\<lparr>sd_mode := cg_mode c, sd_sequence := cg_sequence c\<rparr>))"

section \<open>The divergence report\<close>

text \<open>The most frequent values with their counts, ties in the order of the values.\<close>

definition top_values :: "nat \<Rightarrow> pystr list \<Rightarrow> (pystr \<times> nat) list" where
  "top_values k vs = take k (sort_key (\<lambda>vn. - int (snd vn)) (sort_key fst (map (\<lambda>v. (v, count_list vs v)) (remdups vs))))"

record divergence_summary =
  dv_total :: nat
  dv_would_deny :: nat
  dv_enforced_denied :: nat
  dv_approval :: nat
  dv_would_require :: nat
  dv_allowed :: nat
  dv_top_actions :: "(pystr \<times> nat) list"
  dv_top_resources :: "(pystr \<times> nat) list"

definition count_of :: "('a \<Rightarrow> bool) \<Rightarrow> 'a list \<Rightarrow> nat" where
  "count_of p xs = length (filter p xs)"

definition summarize :: "shadow_record list \<Rightarrow> divergence_summary" where
  "summarize rs = (let denied = filter (\<lambda>r. lg_evaluated r = DENY) rs in
     \<lparr>dv_total = length rs, dv_would_deny = count_of lg_would_deny rs,
      dv_enforced_denied = count_of (\<lambda>r. lg_enforced r = DENY) rs,
      dv_approval = count_of (\<lambda>r. lg_evaluated r = APPROVAL_REQUIRED) rs,
      dv_would_require = count_of lg_would_require rs, dv_allowed = count_of (\<lambda>r. lg_enforced r = ALLOW) rs,
      dv_top_actions = top_values 5 (map lg_action denied), dv_top_resources = top_values 5 (map lg_resource denied)\<rparr>)"

section \<open>The dry run of a new constitution\<close>

datatype risk = TightenToDeny | Tighten | Loosen | NoRisk

definition classify_risk :: "con_decision \<Rightarrow> con_decision \<Rightarrow> risk" where
  "classify_risk old new =
     (if old = new then NoRisk else if new = DENY then TightenToDeny else if old = DENY then Loosen
      else if new = APPROVAL_REQUIRED then Tighten else Loosen)"

record decision_diff =
  df_action :: pystr
  df_resource :: pystr
  df_subject :: pystr
  df_old :: con_decision
  df_new :: con_decision
  df_changed :: bool
  df_risk :: risk
  df_token :: bool

record compare_report =
  cm_old_hash :: pystr
  cm_new_hash :: pystr
  cm_total :: nat
  cm_changed :: nat
  cm_unchanged :: nat
  cm_risky :: "decision_diff list"
  cm_diffs :: "decision_diff list"

datatype con_input = Plain Constitution.constitution | Signed signed_constitution

fun plain_constitution :: "con_input \<Rightarrow> Constitution.constitution" where
  "plain_constitution (Plain c) = c"
| "plain_constitution (Signed sc) = constitution sc"

definition diff_of :: "Constitution.constitution \<Rightarrow> Constitution.constitution \<Rightarrow> evaluation_request \<Rightarrow> decision_diff" where
  "diff_of old new q = (let a = governance_check (ask_action q) (ask_resource q) old;
       b = governance_check (ask_action q) (ask_resource q) new in
     \<lparr>df_action = ask_action q, df_resource = ask_resource q, df_subject = ask_subject q, df_old = a, df_new = b,
      df_changed = (a \<noteq> b), df_risk = classify_risk a b, df_token = (ask_token q \<noteq> None)\<rparr>)"

text \<open>\<open>None\<close> for the requests is a value that is not a list.\<close>

definition compare :: "prims \<Rightarrow> (jdict \<Rightarrow> evaluation_request option) \<Rightarrow> con_input \<Rightarrow> con_input \<Rightarrow> raw_request list option
    \<Rightarrow> compare_report res" where
  "compare P R old_input new_input requests =
     (let old = plain_constitution old_input; new = plain_constitution new_input in
      rbind (of_option CompareInputRejected ''historical_requests must be a list'' requests) (\<lambda>raws.
      rbind (rmap (\<lambda>raw. except ValidationError CompareInputRejected ''historical request failed validation''
        (read_request R raw)) raws) (\<lambda>qs.
      let diffs = map (diff_of old new) qs in
      rbind (content_hash_of P old) (\<lambda>oh. rbind (content_hash_of P new) (\<lambda>nh.
      Inr \<lparr>cm_old_hash = oh, cm_new_hash = nh, cm_total = length diffs, cm_changed = count_of df_changed diffs,
        cm_unchanged = count_of (\<lambda>d. \<not> df_changed d) diffs,
        cm_risky = filter (\<lambda>d. df_risk d = TightenToDeny) diffs, cm_diffs = diffs\<rparr>)))))"

end
