(* ===== verification/Shadow_Properties.thy ===== *)
theory Shadow_Properties
  imports Shadow Hash_Chain Evidence Planes_Properties
begin

text \<open>
  What shadow mode guarantees: a record of every evaluation that states the verdict of the policy, a log that
  always verifies and binds its records, one use of every token, and a mode that only signed commands in
  increasing order change.
\<close>

section \<open>One evaluation\<close>

definition shadow_grants :: "prims \<Rightarrow> token_lib \<Rightarrow> shadow \<Rightarrow> datetime \<Rightarrow> evaluation_request \<Rightarrow> token_evaluation \<Rightarrow> token \<Rightarrow> bool" where
  "shadow_grants P L s now q t p \<longleftrightarrow>
     (\<exists>u z. now = Aware u z \<and> verify_token P L (shadow_token_request s t u) None (te_envelope t) (te_proof t) = Inr p) \<and>
     action p = ask_action q \<and> resource p = ask_resource q \<and> subject p = ask_subject q"

definition shadow_verdict :: "prims \<Rightarrow> token_lib \<Rightarrow> shadow \<Rightarrow> datetime \<Rightarrow> evaluation_request \<Rightarrow> con_decision" where
  "shadow_verdict P L s now q =
     (if \<forall>t. ask_token q = Some t \<longrightarrow> (\<exists>p. shadow_grants P L s now q t p)
      then governance_check (ask_action q) (ask_resource q) (sd_constitution s) else DENY)"

lemma combine_simps [simp]: "combine d ALLOW = d" "combine d DENY = DENY"
  by (cases d; simp add: combine_def)+

lemma shadow_grants_unique: "shadow_grants P L s now q t p \<Longrightarrow> shadow_grants P L s now q t p' \<Longrightarrow> p' = p"
  by (auto simp: shadow_grants_def)

lemma shadow_grants_facts:
  assumes "shadow_grants P L s now q t p"
  shows "t_nonce p \<notin> set (sd_nonces s)" "read_token L (payload (te_envelope t)) = Some p"
    "\<exists>h. token_hash P (te_envelope t) = Inr h"
  using assms verify_token_level
  by (fastforce simp: shadow_grants_def level_ok_def shadow_token_request_def verify_envelope_ok token_hash_def
      sha256_hex_def)+

lemma aware_instant_eq [simp]: "aware_instant c t = Inr u \<longleftrightarrow> (\<exists>z. t = Aware u z)"
  by (cases t) (auto simp: aware_instant_def)

lemma evaluate_token_cases:
  obtains (denied) "\<nexists>p. shadow_grants P L s now q t p"
      "evaluate_token P L now q t s = (Inr DENY, s) \<or> (\<exists>e. evaluate_token P L now q t s = (Inl e, s))"
  | (granted) p where "shadow_grants P L s now q t p"
      "evaluate_token P L now q t s = (Inr ALLOW, s\<lparr>sd_nonces := t_nonce p # sd_nonces s\<rparr>)"
proof (cases "rbind (aware_instant ValueError now) (\<lambda>u.
    verify_token P L (shadow_token_request s t u) None (te_envelope t) (te_proof t))")
  case (Inl e)
  then have "\<nexists>p. shadow_grants P L s now q t p" by (auto simp: shadow_grants_def aware_instant_def)
  then show ?thesis by (rule denied) (simp add: evaluate_token_def Inl)
next
  case (Inr p)
  show ?thesis
  proof (cases "action p = ask_action q \<and> resource p = ask_resource q \<and> subject p = ask_subject q")
    case True
    with Inr have "shadow_grants P L s now q t p" by (auto simp: shadow_grants_def)
    then show ?thesis by (rule granted) (simp add: evaluate_token_def Inr True)
  next
    case False
    with Inr have "\<nexists>p. shadow_grants P L s now q t p" by (auto simp: shadow_grants_def)
    then show ?thesis by (rule denied) (use False in \<open>auto simp: evaluate_token_def Inr\<close>)
  qed
qed

text \<open>The nonces after the pipeline, whatever it answers.\<close>

definition spent_after :: "prims \<Rightarrow> token_lib \<Rightarrow> shadow \<Rightarrow> datetime \<Rightarrow> evaluation_request \<Rightarrow> shadow \<Rightarrow> bool" where
  "spent_after P L s now q s' \<longleftrightarrow>
     (s' = s \<and> \<not> (\<exists>t p. ask_token q = Some t \<and> shadow_grants P L s now q t p)) \<or>
     (\<exists>t p. ask_token q = Some t \<and> shadow_grants P L s now q t p \<and> s' = s\<lparr>sd_nonces := t_nonce p # sd_nonces s\<rparr>)"

lemma run_pipeline_eq:
  assumes "content_hash_of P (sd_constitution s) = Inr h"
  shows "\<exists>src s'. run_pipeline P L now q s = (Inr (shadow_verdict P L s now q, src), s') \<and> spent_after P L s now q s'"
proof (cases "ask_token q")
  case None
  then show ?thesis using assms by (auto simp: run_pipeline_def shadow_verdict_def spent_after_def)
next
  case t: (Some t)
  show ?thesis
  proof (cases rule: evaluate_token_cases [of P L s now q t])
    case denied
    then have "shadow_verdict P L s now q = DENY" "spent_after P L s now q s"
      using t by (auto simp: shadow_verdict_def spent_after_def)
    then show ?thesis using denied(2) t assms
      by (cases "token_hash P (te_envelope t)") (auto simp: run_pipeline_def pipeline_error_def)
  next
    case (granted p)
    obtain th where "token_hash P (te_envelope t) = Inr th" using shadow_grants_facts(3) [OF granted(1)] by blast
    moreover have "shadow_verdict P L s now q = governance_check (ask_action q) (ask_resource q) (sd_constitution s)"
      "spent_after P L s now q (s\<lparr>sd_nonces := t_nonce p # sd_nonces s\<rparr>)"
      using granted(1) t by (auto simp: shadow_verdict_def spent_after_def)
    ultimately show ?thesis using granted(2) t assms by (auto simp: run_pipeline_def)
  qed
qed

lemma run_pipeline_raises: "content_hash_of P (sd_constitution s) = Inl e \<Longrightarrow> run_pipeline P L now q s = (Inl e, s)"
  by (simp add: run_pipeline_def Let_def)

lemma spent_after_same: "spent_after P L s now q s' \<Longrightarrow> sd_records s' = sd_records s \<and> sd_mode s' = sd_mode s \<and>
    sd_never s' = sd_never s \<and> sd_constitution s' = sd_constitution s \<and> sd_sequence s' = sd_sequence s \<and>
    sd_controllers s' = sd_controllers s \<and> set (sd_nonces s) \<subseteq> set (sd_nonces s')"
  by (auto simp: spent_after_def)

lemma spent_after_nonces:
  assumes "spent_after P L s now q s'"
  shows "set (sd_nonces s') = set (sd_nonces s) \<union> {t_nonce p |p. \<exists>t. ask_token q = Some t \<and> shadow_grants P L s now q t p}"
proof (cases "\<exists>t p. ask_token q = Some t \<and> shadow_grants P L s now q t p")
  case True
  then obtain t p where t: "ask_token q = Some t" and p: "shadow_grants P L s now q t p" by blast
  with assms obtain p' where p': "shadow_grants P L s now q t p'" "s' = s\<lparr>sd_nonces := t_nonce p' # sd_nonces s\<rparr>"
    by (auto simp: spent_after_def)
  from shadow_grants_unique [OF p p'(1)] p'(2) have "s' = s\<lparr>sd_nonces := t_nonce p # sd_nonces s\<rparr>" by simp
  moreover have "(\<exists>t. ask_token q = Some t \<and> shadow_grants P L s now q t x) \<longleftrightarrow> x = p" for x
    using p shadow_grants_unique [OF p, of x] by (auto simp: t)
  ultimately show ?thesis by simp
qed (use assms in \<open>auto simp: spent_after_def\<close>)

text \<open>A sealed record carries the hash of its body.\<close>

definition sealed :: "prims \<Rightarrow> shadow_record \<Rightarrow> bool" where
  "sealed P r \<longleftrightarrow> sha256_hex P (record_body P r) = Inr (lg_hash r) \<and> lg_id r = record_id_of (lg_hash r)"

lemma append_record_cases:
  obtains (raised) e where "append_record P now q v en src s = (Inl e, s)"
  | (appended) u z r where "now = Aware u z" "sealed P r" "r\<lparr>lg_id := [], lg_hash := []\<rparr> = draft_record s u q v en src"
      "append_record P now q v en src s = (Inr r, s\<lparr>sd_records := sd_records s @ [r]\<rparr>)"
proof (cases "append_record P now q v en src s")
  case (Pair a s')
  have body: "record_body P (r\<lparr>lg_id := i, lg_hash := h\<rparr>) = record_body P r" for r i h by (simp add: record_body_def)
  show ?thesis
  proof (cases a)
    case (Inl e)
    with Pair have "append_record P now q v en src s = (Inl e, s)" by (auto simp: append_record_def split: sum.splits)
    then show ?thesis by (rule raised)
  next
    case (Inr r)
    with Pair obtain u z h where n: "now = Aware u z" and h: "sha256_hex P (record_body P (draft_record s u q v en src)) = Inr h"
      and r: "r = (draft_record s u q v en src)\<lparr>lg_id := record_id_of h, lg_hash := h\<rparr>"
      and s': "s' = s\<lparr>sd_records := sd_records s @ [r]\<rparr>"
      by (auto simp: append_record_def Let_def split: sum.splits)
    have "sealed P r" using h by (simp add: sealed_def r body)
    moreover have "r\<lparr>lg_id := [], lg_hash := []\<rparr> = draft_record s u q v en src" by (simp add: r draft_record_def)
    ultimately show ?thesis using Pair Inr s' n by - (rule appended, simp_all)
  qed
qed

text \<open>The outcome of one evaluation.\<close>

lemma evaluate_cases:
  obtains (refused) e where "evaluate P L R t1 t2 raw s = (Inl e, s)"
  | (lost) q e s1 where "read_request R raw = Inr q" "spent_after P L s t1 q s1" "evaluate P L R t1 t2 raw s = (Inl e, s1)"
  | (recorded) q src u z s1 r where "read_request R raw = Inr q" "spent_after P L s t1 q s1" "t2 = Aware u z" "sealed P r"
      "r\<lparr>lg_id := [], lg_hash := []\<rparr> = draft_record s1 u q (shadow_verdict P L s t1 q)
         (enforced_of s (ask_action q) (shadow_verdict P L s t1 q)) src"
      "evaluate P L R t1 t2 raw s = (Inr (if lg_enforced r = DENY then Blocked r else Returned r),
         s1\<lparr>sd_records := sd_records s @ [r]\<rparr>)"
proof (cases "read_request R raw")
  case (Inl e)
  show ?thesis by (rule refused [of e]) (simp add: evaluate_def Inl)
next
  case q: (Inr q)
  show ?thesis
  proof (cases "content_hash_of P (sd_constitution s)")
    case (Inl e)
    show ?thesis by (rule refused [of e]) (simp add: evaluate_def q run_pipeline_raises [OF Inl])
  next
    case (Inr h)
    obtain src s1 where pipe: "run_pipeline P L t1 q s = (Inr (shadow_verdict P L s t1 q, src), s1)"
      and s1: "spent_after P L s t1 q s1" using run_pipeline_eq [OF Inr] by blast
    note same = spent_after_same [OF s1]
    then have en: "enforced_of s1 = enforced_of s" by (auto simp: enforced_of_def never_shadow_match_def fun_eq_iff)
    let ?v = "shadow_verdict P L s t1 q"
    let ?e = "enforced_of s (ask_action q) ?v"
    show ?thesis
    proof (cases rule: append_record_cases [of P t2 q ?v ?e src s1])
      case (raised e)
      show ?thesis by (rule lost [OF q s1, of e]) (simp add: evaluate_def q pipe en raised)
    next
      case (appended u z r)
      have "lg_enforced r = lg_enforced (r\<lparr>lg_id := [], lg_hash := []\<rparr>)" by simp
      also have "\<dots> = ?e" unfolding appended(3) by (simp add: draft_record_def)
      finally show ?thesis
        by - (rule recorded [OF q s1 appended(1-3)], simp add: evaluate_def q pipe en appended(4) same)
    qed
  qed
qed

section \<open>The log\<close>

lemma draft_fields:
  assumes "r\<lparr>lg_id := [], lg_hash := []\<rparr> = draft_record s u q v en src"
  shows "lg_action r = ask_action q" "lg_resource r = ask_resource q" "lg_subject r = ask_subject q"
    "lg_evaluated r = v" "lg_enforced r = en" "lg_diff r = diff_text (ask_baseline q) v"
    "lg_previous r = last_record_hash (sd_records s)" "lg_would_deny r = (v = DENY \<and> en = ALLOW)"
    "lg_would_require r = (v = APPROVAL_REQUIRED \<and> en = ALLOW)" "lg_timestamp r = u"
  using arg_cong [OF assms, of lg_action] arg_cong [OF assms, of lg_resource] arg_cong [OF assms, of lg_subject]
    arg_cong [OF assms, of lg_evaluated] arg_cong [OF assms, of lg_enforced] arg_cong [OF assms, of lg_diff]
    arg_cong [OF assms, of lg_previous] arg_cong [OF assms, of lg_would_deny] arg_cong [OF assms, of lg_would_require]
    arg_cong [OF assms, of lg_timestamp]
  by (simp_all add: draft_record_def)

definition record_fits :: "prims \<Rightarrow> shadow_record \<Rightarrow> bool" where
  "record_fits P r \<longleftrightarrow> sealed P r \<and> lg_action r \<noteq> [] \<and> lg_resource r \<noteq> [] \<and> lg_subject r \<noteq> [] \<and>
     (\<exists>b. lg_diff r = diff_text b (lg_evaluated r))"

text \<open>The baseline is read back from the diff.\<close>

lemma baseline_of_diff: "\<exists>b'. baseline_of (diff_text b e) = Inr b' \<and> diff_text b' e = diff_text b e"
proof (cases b)
  case (Some d)
  then show ?thesis
    by (cases d; cases e; simp add: baseline_of_def diff_text_def arrow_def py_def startswith_def decision_of_text_def)
qed (simp add: baseline_of_def diff_text_def)

lemma check_record_fits: "record_fits P r \<Longrightarrow> check_record P (lg_previous r) r = Inr True"
  using baseline_of_diff by (fastforce simp: check_record_def record_fits_def sealed_def)

lemma check_record_ok: "check_record P prev r = Inr True \<Longrightarrow> lg_previous r = prev \<and> sealed P r"
  by (auto simp: check_record_def sealed_def split: if_splits)

lemma first_bad_None: "first_bad P i g rs = Inr None \<Longrightarrow> linked lg_previous lg_hash g rs \<and> list_all (sealed P) rs"
  by (induction rs arbitrary: i g) (auto split: if_splits dest: check_record_ok)

lemma first_bad_fits: "linked lg_previous lg_hash g rs \<Longrightarrow> list_all (record_fits P) rs \<Longrightarrow> first_bad P i g rs = Inr None"
  by (induction rs arbitrary: i g) (auto simp: check_record_fits)

definition log_ok :: "prims \<Rightarrow> shadow_record list \<Rightarrow> bool" where
  "log_ok P rs \<longleftrightarrow> linked lg_previous lg_hash genesis_prev_hash rs \<and> list_all (record_fits P) rs"

lemma log_ok_verifies: "log_ok P rs \<Longrightarrow> verify_log P rs = Inr \<lparr>li_ok = True, li_checked = length rs, li_bad = None\<rparr>"
  by (simp add: log_ok_def verify_log_def first_bad_fits)

interpretation shadow_log: hash_chain "record_body P" lg_previous "json_digest P" id for P
  by unfold_locales (auto simp: record_body_def)

lemma sealed_linked:
  assumes "list_all (sealed P) rs" "linked lg_previous lg_hash g rs"
  shows "linked lg_previous (\<lambda>r. id (json_digest P (record_body P r))) g rs"
proof -
  have "sealed P r \<Longrightarrow> json_digest P (record_body P r) = lg_hash r" for r by (simp add: sealed_def json_digest_ok)
  with assms show ?thesis by (induction rs arbitrary: g) auto
qed

section \<open>Operations\<close>

datatype shadow_op = Evaluate datetime datetime raw_request | ChangeMode signed_envelope datetime

datatype shadow_answer = Evaluated eval_answer | Changed mode_change

text \<open>pydantic's two readers.\<close>

record shadow_lib =
  read_ask :: "jdict \<Rightarrow> evaluation_request option"
  read_change :: "jdict \<Rightarrow> mode_change option"

fun shadow_exec :: "prims \<Rightarrow> token_lib \<Rightarrow> shadow_lib \<Rightarrow> shadow_op \<Rightarrow> shadow \<Rightarrow> shadow_answer res \<times> shadow" where
  "shadow_exec P L R (Evaluate t1 t2 raw) s =
     (let (a, s') = evaluate P L (read_ask R) t1 t2 raw s in (map_sum id Evaluated a, s'))"
| "shadow_exec P L R (ChangeMode env now) s =
     (let (a, s') = apply_mode_change P (read_change R) env now s in (map_sum id Changed a, s'))"

lemma apply_mode_change_cases:
  obtains (rejected) e where "apply_mode_change P C env now s = (Inl e, s)"
  | (applied) c where "admit_mode_change P C env now s = Inr c"
      "apply_mode_change P C env now s = (Inr c, s\<lparr>sd_mode := cg_mode c, sd_sequence := cg_sequence c\<rparr>)"
  by (cases "admit_mode_change P C env now s") (auto simp: apply_mode_change_def)

text \<open>A request built as the model satisfies the constraints of the model.\<close>

fun op_ok :: "shadow_op \<Rightarrow> bool" where
  "op_ok (Evaluate t1 t2 (Validated q)) = request_ok q"
| "op_ok _ = True"

lemma read_request_ok: "op_ok (Evaluate t1 t2 raw) \<Longrightarrow> read_request R raw = Inr q \<Longrightarrow> request_ok q"
  by (cases raw) (auto simp: read_request_def)

lemma shadow_exec_log:
  assumes "op_ok x" "log_ok P (sd_records s)"
  shows "log_ok P (sd_records (snd (shadow_exec P L R x s))) \<and>
    (\<exists>more. sd_records (snd (shadow_exec P L R x s)) = sd_records s @ more)"
proof (cases x)
  case (Evaluate t1 t2 raw)
  show ?thesis
  proof (cases rule: evaluate_cases [of P L "read_ask R" t1 t2 raw s])
    case (refused e)
    with Evaluate assms(2) show ?thesis by simp
  next
    case (lost q e s1)
    with Evaluate assms(2) spent_after_same [OF lost(2)] show ?thesis by simp
  next
    case (recorded q src u z s1 r)
    note f = draft_fields [OF recorded(5)]
    have "request_ok q" using read_request_ok recorded(1) assms(1) Evaluate by blast
    with recorded(4) f have "record_fits P r" by (auto simp: record_fits_def request_ok_def)
    moreover have "lg_previous r = last_record_hash (sd_records s)" using f(7) spent_after_same [OF recorded(2)] by simp
    ultimately have "log_ok P (sd_records s @ [r])"
      using assms(2) by (simp add: log_ok_def linked_snoc last_record_hash_def)
    with Evaluate recorded(6) show ?thesis by simp
  qed
next
  case (ChangeMode env now)
  with assms(2) show ?thesis
    by (cases rule: apply_mode_change_cases [of P "read_change R" env now s]) simp_all
qed

lemma shadow_run_log:
  "list_all op_ok ops \<Longrightarrow> log_ok P (sd_records s) \<Longrightarrow>
    log_ok P (sd_records (snd (run_all (shadow_exec P L R) ops s))) \<and>
    (\<exists>more. sd_records (snd (run_all (shadow_exec P L R) ops s)) = sd_records s @ more)"
proof (induction ops arbitrary: s)
  case (Cons x xs)
  let ?s = "snd (shadow_exec P L R x s)"
  have run: "snd (run_all (shadow_exec P L R) (x # xs) s) = snd (run_all (shadow_exec P L R) xs ?s)"
    by (simp add: case_prod_unfold Let_def)
  from shadow_exec_log [of x P s L R] Cons.prems obtain more where "log_ok P (sd_records ?s)" "sd_records ?s = sd_records s @ more"
    by auto
  with Cons.IH [of ?s] Cons.prems(1) show ?case unfolding run by auto
qed simp

section \<open>Tokens are used once\<close>

fun answer_record :: "eval_answer \<Rightarrow> shadow_record" where
  "answer_record (Returned r) = r"
| "answer_record (Blocked r) = r"

text \<open>The nonce behind a recorded decision: the one of the presented token, unless the decision is DENY.\<close>

fun token_nonce :: "token_lib \<Rightarrow> shadow_lib \<Rightarrow> shadow_op \<Rightarrow> shadow_answer \<Rightarrow> pystr option" where
  "token_nonce L R (Evaluate t1 t2 raw) (Evaluated a) =
     (case read_request (read_ask R) raw of Inl e \<Rightarrow> None
      | Inr q \<Rightarrow> (case ask_token q of None \<Rightarrow> None
          | Some t \<Rightarrow> if lg_evaluated (answer_record a) = DENY then None
              else map_option t_nonce (read_token L (payload (te_envelope t)))))"
| "token_nonce L R _ _ = None"

lemma shadow_exec_nonces: "set (sd_nonces s) \<subseteq> set (sd_nonces (snd (shadow_exec P L R x s)))"
proof (cases x)
  case (Evaluate t1 t2 raw)
  then show ?thesis
    by (cases rule: evaluate_cases [of P L "read_ask R" t1 t2 raw s]) (auto dest!: spent_after_same)
next
  case (ChangeMode env now)
  then show ?thesis by (cases rule: apply_mode_change_cases [of P "read_change R" env now s]) simp_all
qed

interpretation shadow_nonces: single_use "shadow_exec P L R" "token_nonce L R" "\<lambda>s. set (sd_nonces s)" for P L R
proof unfold_locales
  fix x s e s'
  assume "shadow_exec P L R x s = (Inl e, s')"
  then show "set (sd_nonces s) \<subseteq> set (sd_nonces s')" using shadow_exec_nonces [of s P L R x] by simp
next
  fix x s a s'
  assume "shadow_exec P L R x s = (Inr a, s')"
  then show "set (sd_nonces s) \<subseteq> set (sd_nonces s')" using shadow_exec_nonces [of s P L R x] by simp
next
  fix x s a s' i
  assume ex: "shadow_exec P L R x s = (Inr a, s')" and i: "token_nonce L R x a = Some i"
  then obtain t1 t2 raw ans where x: "x = Evaluate t1 t2 raw" and a: "a = Evaluated ans" by (cases x; cases a) auto
  then have ev: "evaluate P L (read_ask R) t1 t2 raw s = (Inr ans, s')"
  proof -
    obtain b s2 where e: "evaluate P L (read_ask R) t1 t2 raw s = (b, s2)" by (cases "evaluate P L (read_ask R) t1 t2 raw s")
    with ex show ?thesis by (cases b) (auto simp: x a)
  qed
  show "i \<notin> set (sd_nonces s) \<and> i \<in> set (sd_nonces s')"
  proof (cases rule: evaluate_cases [of P L "read_ask R" t1 t2 raw s])
    case (recorded q src u z s1 r)
    then have ans: "answer_record ans = r" and s': "s' = s1\<lparr>sd_records := sd_records s @ [r]\<rparr>" using ev by auto
    from i recorded(1) obtain t where t: "ask_token q = Some t" "lg_evaluated r \<noteq> DENY"
      "map_option t_nonce (read_token L (payload (te_envelope t))) = Some i"
      by (auto simp: x a ans split: option.splits if_splits)
    from t(2) draft_fields(4) [OF recorded(5)] have "shadow_verdict P L s t1 q \<noteq> DENY" by simp
    then obtain p where p: "shadow_grants P L s t1 q t p" using t(1) by (auto simp: shadow_verdict_def split: if_splits)
    with recorded(2) t(1) have "s1 = s\<lparr>sd_nonces := t_nonce p # sd_nonces s\<rparr>"
      using shadow_grants_unique by (fastforce simp: spent_after_def)
    moreover have "i = t_nonce p" using shadow_grants_facts(2) [OF p] t(3) by simp
    ultimately show ?thesis using shadow_grants_facts(1) [OF p] s' by simp
  qed (use ev in simp_all)
qed

section \<open>Mode changes\<close>

fun applied_change :: "shadow_op \<Rightarrow> shadow_answer \<Rightarrow> mode_change option" where
  "applied_change x (Changed c) = Some c"
| "applied_change x _ = None"

text \<open>What admits an envelope as a command at the time \<open>now\<close> of the operation: a key of the controllers signed it, its
  payload reads as the command, and the time is in the window of the command.\<close>

definition commanded :: "prims \<Rightarrow> (jdict \<Rightarrow> mode_change option) \<Rightarrow> (pystr \<times> bytes) list \<Rightarrow> signed_envelope \<Rightarrow> datetime
    \<Rightarrow> mode_change \<Rightarrow> bool" where
  "commanded P C keys env now c \<longleftrightarrow>
     (\<exists>pub p. map_of keys (env_key_id env) = Some pub \<and> verify_envelope P env pub = Inr p \<and> C p = Some c) \<and>
     0 \<le> cg_sequence c \<and> (\<exists>t z. now = Aware t z \<and> cg_issued c \<le> t \<and> t < cg_expires c)"

lemma aware_instant_Inr: "aware_instant x now = Inr t \<longleftrightarrow> (\<exists>z. now = Aware t z)"
  by (cases now) (simp_all add: aware_instant_def)

lemma admit_mode_change_ok:
  "admit_mode_change P C env now s = Inr c \<longleftrightarrow>
     commanded P C (sd_controllers s) env now c \<and> mode_change_ok c \<and> sd_sequence s < cg_sequence c"
  unfolding admit_mode_change_def commanded_def
  by (auto simp: aware_instant_Inr mode_change_ok_def simp del: verify_envelope_ok)

text \<open>The command that each entry of a trace applied was admitted from the envelope and at the time of its operation.\<close>

fun admitted :: "prims \<Rightarrow> (jdict \<Rightarrow> mode_change option) \<Rightarrow> (pystr \<times> bytes) list \<Rightarrow> shadow_op \<times> shadow_answer res \<Rightarrow> bool" where
  "admitted P C keys (x, Inr (Changed c)) = (\<exists>env now. x = ChangeMode env now \<and> commanded P C keys env now c)"
| "admitted P C keys _ = True"

lemma shadow_exec_mode:
  assumes "shadow_exec P L R x s = (a, s')"
  shows "(\<exists>c. a = Inr (Changed c) \<and> admitted P (read_change R) (sd_controllers s) (x, a) \<and> sd_sequence s < cg_sequence c \<and>
      sd_mode s' = cg_mode c \<and> sd_sequence s' = cg_sequence c \<and> sd_controllers s' = sd_controllers s) \<or>
    ((\<forall>c. a \<noteq> Inr (Changed c)) \<and> sd_mode s' = sd_mode s \<and> sd_sequence s' = sd_sequence s \<and>
      sd_controllers s' = sd_controllers s)"
proof (cases x)
  case (Evaluate t1 t2 raw)
  then show ?thesis using assms
    by (cases rule: evaluate_cases [of P L "read_ask R" t1 t2 raw s]) (auto dest!: spent_after_same)
next
  case (ChangeMode env now)
  then show ?thesis using assms
    by (cases rule: apply_mode_change_cases [of P "read_change R" env now s]) (auto simp: admit_mode_change_ok)
qed

lemma changes_step:
  "granted applied_change ((x, a) # t) = (case a of Inr (Changed c) \<Rightarrow> c # granted applied_change t | _ \<Rightarrow> granted applied_change t)"
  by (cases a) (auto split: shadow_answer.splits)

lemma shadow_run_modes:
  assumes "run_all (shadow_exec P L R) ops s = (tr, s')" "cs = granted applied_change tr"
  shows "sorted_wrt (<) (map cg_sequence cs) \<and> (\<forall>c \<in> set cs. sd_sequence s < cg_sequence c) \<and>
    map fst tr = ops \<and> list_all (admitted P (read_change R) (sd_controllers s)) tr \<and>
    sd_mode s' = (if cs = [] then sd_mode s else cg_mode (last cs)) \<and>
    sd_sequence s' = (if cs = [] then sd_sequence s else cg_sequence (last cs))"
  using assms
proof (induction ops arbitrary: s tr cs)
  case (Cons x xs)
  obtain a s1 where step: "shadow_exec P L R x s = (a, s1)" by (cases "shadow_exec P L R x s")
  obtain tr1 where run: "run_all (shadow_exec P L R) xs s1 = (tr1, s')" "tr = (x, a) # tr1"
    using Cons.prems(1) step by (auto split: prod.splits)
  note ih = Cons.IH [OF run(1) refl]
  from shadow_exec_mode [OF step] show ?case
  proof
    assume "\<exists>c. a = Inr (Changed c) \<and> admitted P (read_change R) (sd_controllers s) (x, a) \<and> sd_sequence s < cg_sequence c \<and>
      sd_mode s1 = cg_mode c \<and> sd_sequence s1 = cg_sequence c \<and> sd_controllers s1 = sd_controllers s"
    then obtain c where c: "a = Inr (Changed c)" "admitted P (read_change R) (sd_controllers s) (x, a)"
      "sd_sequence s < cg_sequence c" "sd_mode s1 = cg_mode c" "sd_sequence s1 = cg_sequence c"
      "sd_controllers s1 = sd_controllers s" by blast
    then have "cs = c # granted applied_change tr1" using Cons.prems(2) run(2) by (simp add: changes_step)
    with ih c run(2) show ?thesis by fastforce
  next
    assume n: "(\<forall>c. a \<noteq> Inr (Changed c)) \<and> sd_mode s1 = sd_mode s \<and> sd_sequence s1 = sd_sequence s \<and>
      sd_controllers s1 = sd_controllers s"
    then have "cs = granted applied_change tr1"
      using Cons.prems(2) run(2) by (auto simp: changes_step split: sum.splits shadow_answer.splits)
    moreover have "admitted P (read_change R) (sd_controllers s) (x, a)"
      using n by (cases "(P, read_change R, sd_controllers s, (x, a))" rule: admitted.cases) auto
    ultimately show ?thesis using ih n run(2) by simp
  qed
qed simp

section \<open>An instance\<close>

definition demo_ask :: evaluation_request where
  "demo_ask = \<lparr>ask_action = py ''shell.rm'', ask_resource = py ''ws'', ask_subject = py ''agent'', ask_token = None,
     ask_baseline = Some ALLOW\<rparr>"

definition demo_controllers :: "(pystr \<times> bytes) list" where
  "demo_controllers = [(py ''c'', replicate 32 3)]"

definition demo_shadow :: shadow where
  "demo_shadow = new_shadow demo_con Shadow None demo_controllers"

definition demo_readers :: shadow_lib where
  "demo_readers = \<lparr>read_ask = (\<lambda>_. None), read_change = (\<lambda>_. Some \<lparr>cg_mode = Enforce, cg_sequence = 0, cg_issued = 0,
     cg_expires = 20\<rparr>)\<rparr>"

definition demo_evaluate :: shadow_op where
  "demo_evaluate = Evaluate (Aware 5 0) (Aware 5 0) (Validated demo_ask)"

lemma demo_ask_denied: "governance_check (py ''shell.rm'') (py ''ws'') demo_con = DENY"
  by code_simp

lemma demo_recorded: obtains r s' where
  "evaluate toy toy_token_lib (read_ask demo_readers) (Aware 5 0) (Aware 5 0) (Validated demo_ask) demo_shadow = (Inr (Returned r), s')"
  "sd_records s' = [r]"
proof -
  have v: "shadow_verdict toy toy_token_lib demo_shadow (Aware 5 0) demo_ask = DENY"
    by (simp add: shadow_verdict_def demo_ask_def demo_shadow_def new_shadow_def demo_ask_denied)
  have e: "enforced_of demo_shadow a v = ALLOW" for a v
    by (simp add: enforced_of_def demo_shadow_def new_shadow_def never_shadow_match_def demo_con_def)
  obtain b where b: "content_hash_of toy (sd_constitution demo_shadow) = Inr (to_hex b)"
    using demo_con_hash by (auto simp: demo_shadow_def new_shadow_def)
  have pipe: "run_pipeline toy toy_token_lib (Aware 5 0) demo_ask demo_shadow = (Inr (DENY, to_hex b), demo_shadow)"
    using b by (simp add: run_pipeline_def demo_ask_def Let_def)
      (simp add: demo_shadow_def new_shadow_def demo_ask_denied)
  let ?r = "draft_record demo_shadow 5 demo_ask DENY ALLOW (to_hex b)"
  have "text_ok genesis_prev_hash" by (simp add: genesis_prev_hash_def) (simp add: text_ok_def)
  then have "json_ok toy (record_body toy ?r)"
    by (simp add: record_body_def draft_record_def demo_ask_def diff_text_def arrow_def last_record_hash_def
        demo_shadow_def new_shadow_def del: to_hex.simps)
  from canonical_total [OF this] obtain h where h: "sha256_hex toy (record_body toy ?r) = Inr h"
    by (auto simp: sha256_hex_def)
  have "append_record toy (Aware 5 0) demo_ask DENY ALLOW (to_hex b) demo_shadow =
      (Inr (?r\<lparr>lg_id := record_id_of h, lg_hash := h\<rparr>),
       demo_shadow\<lparr>sd_records := sd_records demo_shadow @ [?r\<lparr>lg_id := record_id_of h, lg_hash := h\<rparr>]\<rparr>)"
    using h by (simp add: append_record_def aware_instant_def Let_def)
  moreover have "sd_records demo_shadow = []" by (simp add: demo_shadow_def new_shadow_def)
  ultimately show ?thesis using that by (simp add: evaluate_def read_request_def pipe e)
qed

section \<open>Properties\<close>

text \<open>C23: what an evaluation records and enforces. The evaluated decision is the constitution's, or DENY when a token
  is presented that does not verify for this action, resource and subject; it is enforced in ENFORCE mode and for the
  actions that are never shadowed, and replaced by ALLOW otherwise; the request is blocked exactly when DENY is
  enforced; one record is appended, and the nonce of a token that grants is spent, whatever the constitution says.\<close>

theorem evaluation_specification:
  assumes "evaluate P L R t1 t2 raw s = (Inr a, s')"
  shows "\<exists>q r. read_request R raw = Inr q \<and> sd_records s' = sd_records s @ [r] \<and> sd_mode s' = sd_mode s \<and>
    lg_evaluated r = shadow_verdict P L s t1 q \<and>
    lg_enforced r = (if sd_mode s = Enforce \<or> (\<exists>p \<in> set (sd_never s). fnmatchcase (ask_action q) p)
      then lg_evaluated r else ALLOW) \<and>
    a = (if lg_enforced r = DENY then Blocked r else Returned r) \<and>
    lg_would_deny r = (lg_evaluated r = DENY \<and> lg_enforced r = ALLOW) \<and>
    set (sd_nonces s') = set (sd_nonces s) \<union> {t_nonce p |p. \<exists>t. ask_token q = Some t \<and> shadow_grants P L s t1 q t p}"
proof (cases rule: evaluate_cases [of P L R t1 t2 raw s])
  case (recorded q src u z s1 r)
  note f = draft_fields [OF recorded(5)] and same = spent_after_same [OF recorded(2)]
  have a: "a = (if lg_enforced r = DENY then Blocked r else Returned r)" "s' = s1\<lparr>sd_records := sd_records s @ [r]\<rparr>"
    using assms recorded(6) by simp_all
  have "set (sd_nonces s1) = set (sd_nonces s) \<union> {t_nonce p |p. \<exists>t. ask_token q = Some t \<and> shadow_grants P L s t1 q t p}"
    by (rule spent_after_nonces [OF recorded(2)])
  then show ?thesis
    using f same a recorded(1)
    by (intro exI [of _ q] exI [of _ r]) (simp add: enforced_of_def never_shadow_match_def list_ex_iff)
qed (use assms in simp_all)

theorem evaluation_specification_witness:
  "\<exists>r s'. evaluate toy toy_token_lib (read_ask demo_readers) (Aware 5 0) (Aware 5 0) (Validated demo_ask) demo_shadow =
      (Inr (Returned r), s') \<and> lg_evaluated r = DENY \<and> lg_enforced r = ALLOW \<and> lg_would_deny r \<and> sd_records s' = [r]"
proof -
  obtain r s' where e: "evaluate toy toy_token_lib (read_ask demo_readers) (Aware 5 0) (Aware 5 0) (Validated demo_ask)
      demo_shadow = (Inr (Returned r), s')" by (rule demo_recorded)
  have v: "shadow_verdict toy toy_token_lib demo_shadow (Aware 5 0) demo_ask = DENY"
    by (simp add: shadow_verdict_def demo_ask_def demo_shadow_def new_shadow_def demo_ask_denied)
  have s: "sd_mode demo_shadow = Shadow" "sd_never demo_shadow = []" "sd_records demo_shadow = []"
    by (simp_all add: demo_shadow_def new_shadow_def demo_con_def)
  from evaluation_specification [OF e] e show ?thesis by (auto simp: read_request_def v s)
qed

text \<open>The shadow log always verifies and only grows. From a new governor, after any sequence of evaluations and
  mode changes, accepted or not, \<^verbatim>\<open>verify_log\<close> finds no bad record, and what comes later leaves the
  records that are there.\<close>

theorem shadow_log_verifies:
  assumes "list_all op_ok (ops @ later)"
  shows "verify_log P (sd_records (snd (run_all (shadow_exec P L R) ops (new_shadow c m never keys)))) =
      Inr \<lparr>li_ok = True, li_checked = length (sd_records (snd (run_all (shadow_exec P L R) ops (new_shadow c m never keys)))),
        li_bad = None\<rparr> \<and>
    (\<exists>new. sd_records (snd (run_all (shadow_exec P L R) later (snd (run_all (shadow_exec P L R) ops (new_shadow c m never keys))))) =
      sd_records (snd (run_all (shadow_exec P L R) ops (new_shadow c m never keys))) @ new)"
proof -
  have "log_ok P (sd_records (new_shadow c m never keys))" by (simp add: new_shadow_def log_ok_def)
  with shadow_run_log [of ops] assms
  have ok: "log_ok P (sd_records (snd (run_all (shadow_exec P L R) ops (new_shadow c m never keys))))" by simp
  with shadow_run_log [of later P "snd (run_all (shadow_exec P L R) ops (new_shadow c m never keys))" L R] assms
    log_ok_verifies [OF ok] show ?thesis by simp
qed

lemma demo_run_records: "\<exists>r. sd_records (snd (run_all (shadow_exec toy toy_token_lib demo_readers) [demo_evaluate] demo_shadow)) = [r]"
  by (rule demo_recorded) (simp add: demo_evaluate_def)

theorem shadow_log_verifies_witness:
  "verify_log toy (sd_records (snd (run_all (shadow_exec toy toy_token_lib demo_readers) [demo_evaluate] demo_shadow))) =
     Inr \<lparr>li_ok = True, li_checked = 1, li_bad = None\<rparr>"
proof -
  have "list_all op_ok ([demo_evaluate] @ [])" by (simp add: demo_evaluate_def request_ok_def demo_ask_def)
  from shadow_log_verifies [OF this, of toy toy_token_lib demo_readers demo_con Shadow None demo_controllers]
    demo_run_records show ?thesis by (auto simp: demo_shadow_def [symmetric])
qed

text \<open>The log is tamper-evident. Two logs of one length that both verify and end in the same record hash have the same
  records, up to two different record bodies with one digest.\<close>

theorem shadow_log_binds:
  assumes "verify_log P rs = Inr i" "li_ok i" "verify_log P rs' = Inr i'" "li_ok i'" "length rs = length rs'" "rs \<noteq> []"
    and "lg_hash (last rs) = lg_hash (last rs')" "\<not> collides (json_digest P) (record_body P ` set (rs @ rs'))"
  shows "map (record_body P) rs = map (record_body P) rs'"
proof -
  have v: "linked lg_previous lg_hash genesis_prev_hash rs \<and> list_all (sealed P) rs"
    "linked lg_previous lg_hash genesis_prev_hash rs' \<and> list_all (sealed P) rs'"
    using assms(1-4) first_bad_None by (auto simp: verify_log_def)
  have "rs' \<noteq> []" using assms(5,6) by auto
  with v assms(6) have "sealed P (last rs)" "sealed P (last rs')" by (auto simp: list_all_iff)
  with assms(7) have "json_digest P (record_body P (last rs)) = json_digest P (record_body P (last rs'))"
    by (simp add: sealed_def json_digest_ok)
  from shadow_log.chains_agree [OF assms(5) _ _ assms(6) this assms(8)] sealed_linked v show ?thesis by metis
qed

theorem shadow_log_binds_witness:
  "\<exists>rs i. verify_log toy rs = Inr i \<and> li_ok i \<and> length rs = 1 \<and> map (record_body toy) rs = map (record_body toy) [last rs]"
proof -
  obtain r where r: "sd_records (snd (run_all (shadow_exec toy toy_token_lib demo_readers) [demo_evaluate] demo_shadow)) = [r]"
    using demo_run_records by blast
  have "log_ok toy (sd_records demo_shadow)" by (simp add: demo_shadow_def new_shadow_def log_ok_def)
  then have "log_ok toy [r]"
    using shadow_run_log [of "[demo_evaluate]" toy demo_shadow toy_token_lib demo_readers] r
    by (simp add: demo_evaluate_def request_ok_def demo_ask_def)
  then have v: "verify_log toy [r] = Inr \<lparr>li_ok = True, li_checked = length [r], li_bad = None\<rparr>" by (rule log_ok_verifies)
  have "map (record_body toy) [r] = map (record_body toy) [r]"
    by (rule shadow_log_binds [OF v _ v]) (simp_all add: collides_def)
  with v show ?thesis by (intro exI [of _ "[r]"]) simp
qed

text \<open>A token stands behind one decision. Over any sequence of operations of one governor, the nonces of the tokens
  that were presented with the requests decided otherwise than DENY are all different, and none of them was spent before.\<close>

theorem shadow_token_used_once:
  "distinct (granted (token_nonce L R) (fst (run_all (shadow_exec P L R) ops s))) \<and>
   set (granted (token_nonce L R) (fst (run_all (shadow_exec P L R) ops s))) \<inter> set (sd_nonces s) = {}"
  by (rule shadow_nonces.granted_once)

text \<open>C11: the mode follows the controllers' commands. Over any sequence of operations, every operation that applied a
  command presented an envelope that a key of the controllers signed and whose payload is that command, at a time that is in
  the window of the command (issued, and not expired); the sequence numbers of the applied commands increase strictly, so that
  none is applied twice; and the mode is the one of the last applied command.\<close>

theorem mode_follows_commands:
  assumes "run_all (shadow_exec P L R) ops (new_shadow c m never keys) = (tr, s')"
  shows "map fst tr = ops \<and>
    (\<forall>x k. (x, Inr (Changed k)) \<in> set tr \<longrightarrow> (\<exists>env pub p t z. x = ChangeMode env (Aware t z) \<and>
       map_of keys (env_key_id env) = Some pub \<and> verify_envelope P env pub = Inr p \<and> read_change R p = Some k \<and>
       0 \<le> cg_sequence k \<and> cg_issued k \<le> t \<and> t < cg_expires k)) \<and>
    sorted_wrt (<) (map cg_sequence (granted applied_change tr)) \<and>
    sd_mode s' = (if granted applied_change tr = [] then m else cg_mode (last (granted applied_change tr)))"
proof (intro conjI allI impI)
  note run = shadow_run_modes [OF assms refl]
  show "map fst tr = ops" "sorted_wrt (<) (map cg_sequence (granted applied_change tr))"
    "sd_mode s' = (if granted applied_change tr = [] then m else cg_mode (last (granted applied_change tr)))"
    using run by (auto simp: new_shadow_def)
  fix x k
  assume "(x, Inr (Changed k)) \<in> set tr"
  moreover have "\<forall>e \<in> set tr. admitted P (read_change R) keys e" using run by (simp add: new_shadow_def list_all_iff)
  ultimately have "admitted P (read_change R) keys (x, Inr (Changed k))" by (rule bspec [rotated])
  then show "\<exists>env pub p t z. x = ChangeMode env (Aware t z) \<and> map_of keys (env_key_id env) = Some pub \<and>
      verify_envelope P env pub = Inr p \<and> read_change R p = Some k \<and> 0 \<le> cg_sequence k \<and> cg_issued k \<le> t \<and> t < cg_expires k"
    by (auto simp: commanded_def simp del: verify_envelope_ok)
qed

theorem mode_follows_commands_witness:
  "\<exists>env tr s'. sign_mode_change toy (toy_signer ''c'' 3) Enforce 0 (Aware 0 0) (Aware 20 0) = Inr env \<and>
     run_all (shadow_exec toy toy_token_lib demo_readers) [ChangeMode env (Aware 5 0), ChangeMode env (Aware 6 0)] demo_shadow = (tr, s') \<and>
     map cg_sequence (granted applied_change tr) = [0] \<and> sd_mode s' = Enforce"
proof -
  let ?c = "\<lparr>cg_mode = Enforce, cg_sequence = 0, cg_issued = 0, cg_expires = 20\<rparr>"
  obtain env where env: "sign_payload toy (toy_signer ''c'' 3) (mode_change_dump toy ?c) = Inr env"
    using sign_payload_total [of toy "mode_change_dump toy ?c"] by (auto simp: mode_change_dump_def)
  have v: "verify_envelope toy env (replicate 32 3) = Inr (mode_change_dump toy ?c)"
    using verify_signed_payload [OF toy_ok toy_signer_ok env] by simp
  have k: "env_key_id env = py ''c''" using sign_payload_ok(1) [OF env] by simp
  have "sign_mode_change toy (toy_signer ''c'' 3) Enforce 0 (Aware 0 0) (Aware 20 0) = Inr env"
    using env by (simp add: sign_mode_change_def aware_instant_def mode_change_ok_def Let_def)
  moreover have a: "admit_mode_change toy (read_change demo_readers) env (Aware t 0) s =
      (if sd_sequence s < 0 then Inr ?c else raise ModeChangeRejected ''stale or replayed sequence'')"
    if "sd_controllers s = demo_controllers" "0 \<le> t" "t < 20" for s t
    using that v k by (simp add: admit_mode_change_def demo_controllers_def demo_readers_def aware_instant_def mode_change_ok_def
        del: replicate.simps)
  define s1 where "s1 = demo_shadow\<lparr>sd_mode := Enforce, sd_sequence := 0\<rparr>"
  have s: "sd_controllers demo_shadow = demo_controllers" "sd_sequence demo_shadow = - 1" "sd_controllers s1 = demo_controllers"
    "sd_sequence s1 = 0" by (simp_all add: demo_shadow_def new_shadow_def s1_def)
  have r: "run_all (shadow_exec toy toy_token_lib demo_readers) [ChangeMode env (Aware 5 0), ChangeMode env (Aware 6 0)]
      (new_shadow demo_con Shadow None demo_controllers) =
    ([(ChangeMode env (Aware 5 0), Inr (Changed ?c)),
      (ChangeMode env (Aware 6 0), raise ModeChangeRejected ''stale or replayed sequence'')], s1)"
    using a [OF s(1), of 5] a [OF s(3), of 6] s(2,4)
    by (simp add: apply_mode_change_def demo_shadow_def [symmetric] s1_def [symmetric])
  from mode_follows_commands [OF r] have "sd_mode s1 = Enforce" by simp
  ultimately show ?thesis using r by (auto simp: demo_shadow_def)
qed

text \<open>The dry run lists every request, and flags exactly those that the new constitution denies and the old one does not.\<close>

theorem compare_flags_exactly:
  assumes "compare P R old new (Some raws) = Inr rep"
  shows "\<exists>qs. list_all2 (\<lambda>raw q. read_request R raw = Inr q) raws qs \<and>
    map df_action (cm_diffs rep) = map ask_action qs \<and>
    map df_action (cm_risky rep) = map ask_action (filter (\<lambda>q.
      governance_check (ask_action q) (ask_resource q) (plain_constitution new) = DENY \<and>
      governance_check (ask_action q) (ask_resource q) (plain_constitution old) \<noteq> DENY) qs) \<and>
    cm_changed rep + cm_unchanged rep = length raws"
proof -
  obtain qs where qs: "rmap (\<lambda>raw. except ValidationError CompareInputRejected ''historical request failed validation''
      (read_request R raw)) raws = Inr qs"
    and d: "cm_diffs rep = map (diff_of (plain_constitution old) (plain_constitution new)) qs"
      "cm_risky rep = filter (\<lambda>d. df_risk d = TightenToDeny) (cm_diffs rep)"
      "cm_changed rep = count_of df_changed (cm_diffs rep)" "cm_unchanged rep = count_of (\<lambda>d. \<not> df_changed d) (cm_diffs rep)"
    using assms by (auto simp: compare_def Let_def)
  have all: "list_all2 (\<lambda>raw q. read_request R raw = Inr q) raws qs"
    using qs by (induction raws arbitrary: qs) auto
  have risk: "df_risk (diff_of a b q) = TightenToDeny \<longleftrightarrow> governance_check (ask_action q) (ask_resource q) b = DENY \<and>
      governance_check (ask_action q) (ask_resource q) a \<noteq> DENY" for a b q
    by (auto simp: diff_of_def Let_def classify_risk_def)
  have act: "df_action (diff_of a b q) = ask_action q" for a b q by (simp add: diff_of_def Let_def)
  have "cm_changed rep + cm_unchanged rep = length (cm_diffs rep)"
    unfolding d(3,4) count_of_def by (rule sum_length_filter_compl)
  moreover have "length (cm_diffs rep) = length raws" using all d(1) by (simp add: list_all2_lengthD)
  moreover have "map df_action (cm_diffs rep) = map ask_action qs" by (simp add: d(1) act o_def)
  moreover have "map df_action (cm_risky rep) = map ask_action (filter (\<lambda>q.
      governance_check (ask_action q) (ask_resource q) (plain_constitution new) = DENY \<and>
      governance_check (ask_action q) (ask_resource q) (plain_constitution old) \<noteq> DENY) qs)"
    by (simp add: d(1,2) filter_map o_def risk act)
  ultimately show ?thesis using all by (intro exI [of _ qs]) simp
qed

end
