(* ===== verification/Base58.thy ===== *)
theory Base58
  imports Stdlib
begin

text \<open>
  The identifiers of \<^verbatim>\<open>agent_identity.py\<close>: base58, and the \<^verbatim>\<open>did:key\<close> of an Ed25519
  key. Every key has exactly one identifier, and the identifier gives the key back.
\<close>

section \<open>Base58\<close>

definition b58_alphabet :: pystr where
  "b58_alphabet = py ''123456789ABCDEFGHJKLMNPQRSTUVWXYZabcdefghijkmnopqrstuvwxyz''"

fun digits58 :: "nat \<Rightarrow> nat list" where
  "digits58 n = (if n = 0 then [] else digits58 (n div 58) @ [n mod 58])"

declare digits58.simps [simp del]

definition leading :: "'a \<Rightarrow> 'a list \<Rightarrow> nat" where
  "leading z xs = length (takeWhile ((=) z) xs)"

definition base58_encode :: "bytes \<Rightarrow> pystr" where
  "base58_encode data = replicate (leading 0 data) 49 @ map (\<lambda>d. b58_alphabet ! d) (digits58 (from_be data))"

definition b58_index :: "nat \<Rightarrow> nat option" where
  "b58_index c = (let i = length (takeWhile ((\<noteq>) c) b58_alphabet) in if i < length b58_alphabet then Some i else None)"

fun b58_number :: "nat \<Rightarrow> pystr \<Rightarrow> nat res" where
  "b58_number n [] = Inr n"
| "b58_number n (c # s) = rbind (of_option AgentIdentityError ''invalid base58 character'' (b58_index c)) (\<lambda>d.
     b58_number (n * 58 + d) s)"

definition base58_decode :: "pystr \<Rightarrow> bytes res" where
  "base58_decode s =
     require (s \<noteq> []) AgentIdentityError ''base58 value must be a non-empty string''
     (rbind (b58_number 0 s) (\<lambda>n. Inr (replicate (leading 49 s) 0 @ (if n = 0 then [] else to_be (byte_width n) n))))"

section \<open>\<^verbatim>\<open>did:key\<close>\<close>

definition multicodec_ed25519_prefix :: bytes where
  "multicodec_ed25519_prefix = [0xed, 0x01]"

definition did_for_pubkey :: "bytes \<Rightarrow> pystr res" where
  "did_for_pubkey key =
     require (length key = 32) AgentIdentityError ''Ed25519 public key must be 32 bytes''
       (Inr (py ''did:key:z'' @ base58_encode (multicodec_ed25519_prefix @ key)))"

definition pubkey_bytes_for_did :: "pystr \<Rightarrow> bytes res" where
  "pubkey_bytes_for_did did =
     (case split_on 58 did of
        [a, b, m] \<Rightarrow>
          require (a = py ''did'' \<and> b = py ''key'') AgentIdentityError ''unsupported DID method''
         (require (startswith m [122]) AgentIdentityError ''unsupported multibase''
         (rbind (base58_decode (tl m)) (\<lambda>fp.
          require (take 2 fp = multicodec_ed25519_prefix) AgentIdentityError ''wrong multicodec key-type prefix''
         (require (length (drop 2 fp) = 32) AgentIdentityError ''Ed25519 public key must be 32 bytes''
         (Inr (drop 2 fp))))))
      | _ \<Rightarrow> raise AgentIdentityError ''unsupported DID method'')"

record verification_method =
  vm_id :: pystr
  vm_controller :: pystr
  vm_multibase :: pystr

record did_document =
  dd_id :: pystr
  dd_methods :: "verification_method list"
  dd_authentication :: "pystr list"

definition document_of :: "pystr \<Rightarrow> bytes \<Rightarrow> did_document" where
  "document_of did key = (let fp = base58_encode (multicodec_ed25519_prefix @ key); mid = did @ [35] @ fp in
     \<lparr>dd_id = did, dd_methods = [\<lparr>vm_id = mid, vm_controller = did, vm_multibase = 122 # fp\<rparr>], dd_authentication = [mid]\<rparr>)"

definition resolve_did :: "pystr \<Rightarrow> did_document res" where
  "resolve_did did =
     rbind (pubkey_bytes_for_did did) (\<lambda>key.
     rbind (did_for_pubkey key) (\<lambda>canonical.
     require (canonical = did) AgentIdentityError ''DID does not match its key fingerprint'' (Inr (document_of did key))))"

definition subject_id_for :: "pystr \<Rightarrow> pystr res" where
  "subject_id_for did = rbind (resolve_did did) (\<lambda>_. Inr did)"

section \<open>Round trips\<close>

lemma b58_index_nth: "d < 58 \<Longrightarrow> b58_index (b58_alphabet ! d) = Some d"
proof -
  have "\<forall>d \<in> set [0 ..< 58]. b58_index (b58_alphabet ! d) = Some d" by code_simp
  then show "d < 58 \<Longrightarrow> b58_index (b58_alphabet ! d) = Some d" by simp
qed

lemma b58_index_bound: "b58_index c = Some d \<Longrightarrow> d < 58 \<and> b58_alphabet ! d = c"
proof -
  assume i: "b58_index c = Some d"
  have len: "length b58_alphabet = 58" by code_simp
  from i have d: "d = length (takeWhile ((\<noteq>) c) b58_alphabet)" "d < length b58_alphabet"
    by (auto simp: b58_index_def Let_def split: if_splits)
  with nth_length_takeWhile [of "(\<noteq>) c" b58_alphabet] len show ?thesis by simp
qed

lemma digits58_bound: "\<forall>d \<in> set (digits58 n). d < 58"
proof (induction n rule: digits58.induct)
  case (1 n)
  then show ?case by (subst digits58.simps) auto
qed

lemma b58_number_digits: "\<forall>d \<in> set ds. d < 58 \<Longrightarrow>
    b58_number n (map (\<lambda>d. b58_alphabet ! d) ds) = Inr (foldl (\<lambda>a d. a * 58 + d) n ds)"
  by (induction ds arbitrary: n) (auto simp: b58_index_nth)

lemma foldl_digits58: "foldl (\<lambda>a d. a * 58 + d) 0 (digits58 n) = n"
proof (induction n rule: digits58.induct)
  case (1 n)
  then show ?case by (cases "n = 0") (auto simp: digits58.simps [of n] digits58.simps [of 0])
qed

lemma b58_number_append: "b58_number n (s @ t) = rbind (b58_number n s) (\<lambda>m. b58_number m t)"
  by (induction s arbitrary: n) (auto simp: rbind_assoc)

lemma b58_zero: "b58_index 49 = Some 0" "b58_alphabet ! 0 = 49"
  by code_simp+

lemma b58_number_ones: "b58_number 0 (replicate k 49) = Inr 0"
  by (induction k) (auto simp: b58_zero)

lemma digits58_hd: "n \<noteq> 0 \<Longrightarrow> \<exists>d ds. digits58 n = d # ds \<and> d \<noteq> 0"
proof (induction n rule: digits58.induct)
  case (1 n)
  then show ?case
  proof (cases "n div 58 = 0")
    case True
    with 1(2) show ?thesis by (simp add: digits58.simps [of n] digits58.simps [of 0])
  next
    case False
    with 1 show ?thesis by (auto simp: digits58.simps [of n])
  qed
qed

lemma leading_replicate: "leading z (replicate k z @ xs) = k + leading z xs"
  by (induction k) (auto simp: leading_def)

lemma leading_digits: "leading 49 (map (\<lambda>d. b58_alphabet ! d) (digits58 n)) = 0"
proof (cases "n = 0")
  case False
  then obtain d ds where d: "digits58 n = d # ds" "d \<noteq> 0" using digits58_hd by blast
  have "d < 58" using digits58_bound [of n] d(1) by simp
  with b58_index_nth [of d] b58_zero d(2) have "b58_alphabet ! d \<noteq> 49" by auto
  then show ?thesis by (simp add: d(1) leading_def)
qed (simp add: digits58.simps leading_def)

lemma split_leading: "xs = replicate (leading z xs) z @ dropWhile ((=) z) xs"
proof -
  have "takeWhile ((=) z) xs = replicate (leading z xs) z"
    by (induction xs) (auto simp: leading_def)
  then show ?thesis by (metis takeWhile_dropWhile_id)
qed

lemma from_be_zeros: "from_be (replicate k 0 @ bs) = from_be bs"
  by (induction k) (auto simp: from_be_def)

lemma byte_width_from_be:
  assumes "bs \<noteq> []" "hd bs \<noteq> 0" shows "from_be bs \<noteq> 0" "byte_width (from_be bs) = length bs"
proof -
  obtain b r where bs: "bs = b # r" using assms(1) by (cases bs) auto
  have pos: "256 ^ length r \<le> from_be bs"
  proof -
    have "from_be (b # r) = unat b * 256 ^ length r + from_be r"
    proof (induction r rule: rev_induct)
      case (snoc x xs)
      have "from_be (b # xs @ [x]) = from_be (b # xs) * 256 + unat x" using from_be_snoc [of "b # xs" x] by simp
      with snoc show ?case by (simp add: algebra_simps)
    qed simp
    moreover have "1 \<le> unat b" using assms(2) bs by (simp add: unat_gt_0 Suc_le_eq)
    then have "1 * 256 ^ length r \<le> unat b * 256 ^ length r" by (rule mult_right_mono) simp
    ultimately show ?thesis unfolding bs by linarith
  qed
  then show nz: "from_be bs \<noteq> 0" by (metis not_one_le_zero one_le_numeral one_le_power order_trans)
  have up: "from_be bs < 256 ^ length bs" by (rule from_be_bound)
  let ?w = "byte_width (from_be bs)"
  have lo: "256 ^ (?w - 1) \<le> from_be bs" "0 < ?w" using byte_width_lower [OF nz] by simp_all
  have "(256::nat) ^ (?w - 1) < 256 ^ length bs" using lo(1) up by (rule le_less_trans)
  then have "?w - 1 < length bs" by (simp add: power_strict_increasing_iff)
  moreover have "(256::nat) ^ length r < 256 ^ ?w" using pos less_256_byte_width by (rule le_less_trans)
  then have "length r < ?w" by (simp add: power_strict_increasing_iff)
  ultimately show "?w = length bs" using bs lo(2) by simp
qed

theorem base58_decode_encode: "data \<noteq> [] \<Longrightarrow> base58_decode (base58_encode data) = Inr data"
proof -
  assume ne: "data \<noteq> []"
  let ?l = "leading 0 data" and ?r = "dropWhile ((=) 0) data"
  have data: "data = replicate ?l 0 @ ?r" by (rule split_leading)
  then have n: "from_be data = from_be ?r" by (metis from_be_zeros)
  have num: "b58_number 0 (base58_encode data) = Inr (from_be data)"
    by (simp add: base58_encode_def b58_number_append b58_number_ones b58_number_digits [OF digits58_bound] foldl_digits58)
  have lead: "leading 49 (base58_encode data) = ?l" by (simp add: base58_encode_def leading_replicate leading_digits)
  have "base58_encode data \<noteq> []"
  proof
    assume "base58_encode data = []"
    then have "?l = 0" "digits58 (from_be data) = []" by (simp_all add: base58_encode_def)
    then have "from_be data = 0" using digits58_hd by fastforce
    moreover have "?r \<noteq> []" using data ne \<open>?l = 0\<close> by (metis append_Nil replicate_0)
    then have "from_be ?r \<noteq> 0" using byte_width_from_be(1) hd_dropWhile by metis
    ultimately show False using n by simp
  qed
  moreover have "(if from_be data = 0 then [] else to_be (byte_width (from_be data)) (from_be data)) = ?r"
  proof (cases "?r = []")
    case True
    then have "from_be data = 0" using n by (metis from_be_Nil)
    with True show ?thesis by metis
  next
    case False
    have "hd ?r \<noteq> 0" using hd_dropWhile [OF False] by auto
    from byte_width_from_be [OF False this] show ?thesis by (simp add: n to_be_from_be)
  qed
  ultimately show ?thesis using num lead data by (simp add: base58_decode_def)
qed

lemma base58_plain: "list_all (\<lambda>c. c \<noteq> 58) (base58_encode data)"
proof -
  have "\<forall>d \<in> set [0 ..< 58]. b58_alphabet ! d \<noteq> 58" by code_simp
  then have "d < 58 \<Longrightarrow> b58_alphabet ! d \<noteq> 58" for d by simp
  with digits58_bound show ?thesis by (fastforce simp: base58_encode_def list_all_iff)
qed

lemma split_on_plain: "list_all (\<lambda>c. c \<noteq> sep) s \<Longrightarrow> split_on sep s = [s]"
  by (induction s) auto

text \<open>A resolvable identifier is the one of its key, and the identifier of a key resolves to it.\<close>

lemma pubkey_of_did: "did_for_pubkey key = Inr did \<Longrightarrow> pubkey_bytes_for_did did = Inr key"
proof -
  assume d: "did_for_pubkey key = Inr did"
  let ?fp = "multicodec_ed25519_prefix @ key"
  have did: "did = py ''did:key:z'' @ base58_encode ?fp" and len: "length key = 32"
    using d by (auto simp: did_for_pubkey_def)
  have "split_on 58 (122 # base58_encode ?fp) = [122 # base58_encode ?fp]"
    using base58_plain [of ?fp] by (intro split_on_plain) simp
  then have "split_on 58 did = [py ''did'', py ''key'', 122 # base58_encode ?fp]" by (simp add: did py_def)
  moreover have "base58_decode (base58_encode ?fp) = Inr ?fp"
    by (rule base58_decode_encode) (simp add: multicodec_ed25519_prefix_def)
  ultimately show ?thesis using len by (simp add: pubkey_bytes_for_did_def startswith_def multicodec_ed25519_prefix_def)
qed

lemma resolve_did_eq: "resolve_did did = Inr doc \<longleftrightarrow>
    (\<exists>key. length key = 32 \<and> did_for_pubkey key = Inr did \<and> doc = document_of did key)"
proof
  assume "resolve_did did = Inr doc"
  then obtain key where "did_for_pubkey key = Inr did" "doc = document_of did key" by (auto simp: resolve_did_def)
  moreover from this(1) have "length key = 32" by (auto simp: did_for_pubkey_def)
  ultimately show "\<exists>key. length key = 32 \<and> did_for_pubkey key = Inr did \<and> doc = document_of did key" by blast
next
  assume "\<exists>key. length key = 32 \<and> did_for_pubkey key = Inr did \<and> doc = document_of did key"
  then show "resolve_did did = Inr doc" by (auto simp: resolve_did_def pubkey_of_did)
qed

end
