(* ===== verification/Target_Glob.thy ===== *)
theory Target_Glob
  imports Stdlib
begin

text \<open>
  The glob engine of \<^verbatim>\<open>agent_identity.py\<close>: patterns are compiled to tokens, and matched with one star
  bookmark and no backtracking over groups. The scanners keep their place as what is left of the pattern and of
  the target; \<open>gone\<close> are the tokens matched since the last star, to which a mismatch returns.
\<close>

section \<open>Tokens\<close>

datatype glob_token =
    Lit nat
  | Star
  | DStar
  | AnyOne
  | Cls "nat list" bool

fun is_star :: "glob_token \<Rightarrow> bool" where
  "is_star Star = True"
| "is_star DStar = True"
| "is_star _ = False"

text \<open>The characters of a class; \<open>None\<close> is an inverted range, a \<^verbatim>\<open>PatternError\<close>.\<close>

fun parse_class_body :: "pystr \<Rightarrow> nat list option" where
  "parse_class_body [] = Some []"
| "parse_class_body (a # b # c # s) =
     (if b = 45
      then if c < a then None else map_option ((@) [a ..< Suc c]) (parse_class_body s)
      else map_option ((#) a) (parse_class_body (b # c # s)))"
| "parse_class_body (a # s) = map_option ((#) a) (parse_class_body s)"

text \<open>The inside of a class and what follows its bracket, from the text after \<^verbatim>\<open>[\<close> and
  \<^verbatim>\<open>!\<close>: a bracket right there is a member.\<close>

definition class_end :: "pystr \<Rightarrow> (pystr \<times> pystr) option" where
  "class_end s = (let (first, r) = (case s of c # t \<Rightarrow> if c = 93 then ([c], t) else ([], s) | [] \<Rightarrow> ([], s));
       body = takeWhile (\<lambda>c. c \<noteq> 93) r; rest = dropWhile (\<lambda>c. c \<noteq> 93) r
     in if rest = [] then None else Some (first @ body, tl rest))"

lemma class_end_shorter: "class_end s = Some (body, rest) \<Longrightarrow> length rest < length s"
proof -
  have "dropWhile (\<lambda>c. c \<noteq> 93) r \<noteq> [] \<Longrightarrow> length (tl (dropWhile (\<lambda>c. c \<noteq> 93) r)) < length r" for r :: pystr
    using length_dropWhile_le [of "\<lambda>c. c \<noteq> 93" r] by (cases "dropWhile (\<lambda>c. c \<noteq> 93) r") auto
  then show "class_end s = Some (body, rest) \<Longrightarrow> length rest < length s"
    by (auto simp: class_end_def Let_def less_Suc_eq split: list.splits if_splits)
qed

text \<open>\<open>acc\<close> are the tokens so far, the last one first.\<close>

definition add_star :: "glob_token \<Rightarrow> glob_token list \<Rightarrow> glob_token list" where
  "add_star t acc = (case acc of a # r \<Rightarrow> if is_star a then (if t = DStar then DStar # r else acc) else t # acc
     | [] \<Rightarrow> [t])"

function tokens_of :: "glob_token list \<Rightarrow> pystr \<Rightarrow> glob_token list option" where
  "tokens_of acc [] = Some (rev acc)"
| "tokens_of acc (c # s) =
     (if c = 42 then
        (case s of d # r \<Rightarrow> if d = 42 then tokens_of (add_star DStar acc) r else tokens_of (add_star Star acc) s
         | [] \<Rightarrow> tokens_of (add_star Star acc) s)
      else if c = 63 then tokens_of (AnyOne # acc) s
      else if c = 91 then
        (let (negate, t) = (case s of d # r \<Rightarrow> if d = 33 then (True, r) else (False, s) | [] \<Rightarrow> (False, s)) in
         case class_end t of
           None \<Rightarrow> tokens_of (Lit c # acc) s
         | Some (body, rest) \<Rightarrow>
             (case parse_class_body body of None \<Rightarrow> None | Some cs \<Rightarrow> tokens_of (Cls cs negate # acc) rest))
      else tokens_of (Lit c # acc) s)"
  by pat_completeness auto
termination
  by (relation "measure (length \<circ> snd)") (auto split: list.splits if_splits dest!: class_end_shorter)

definition max_target_pattern_len :: nat where
  "max_target_pattern_len = 2048"

definition max_target_len :: nat where
  "max_target_len = 4096"

text \<open>\<open>None\<close> is a \<^verbatim>\<open>PatternError\<close>.\<close>

definition tokenize_target_pattern :: "pystr \<Rightarrow> glob_token list option" where
  "tokenize_target_pattern p = (if max_target_pattern_len < length p then None else tokens_of [] p)"

text \<open>A negated class never matches a slash.\<close>

fun token_char_match :: "glob_token \<Rightarrow> nat \<Rightarrow> bool" where
  "token_char_match (Lit d) c \<longleftrightarrow> c = d"
| "token_char_match AnyOne c \<longleftrightarrow> c \<noteq> 47"
| "token_char_match Star c \<longleftrightarrow> c \<noteq> 47"
| "token_char_match DStar c \<longleftrightarrow> True"
| "token_char_match (Cls cs negate) c \<longleftrightarrow> (if negate then c \<notin> set cs \<and> c \<noteq> 47 else c \<in> set cs)"

section \<open>The scanners\<close>

text \<open>The shortest prefix of the target that the tokens match, as what is left after it. The bookmark is the kind of
  the last star and the target where it stands.\<close>

function match_prefix :: "glob_token list \<Rightarrow> glob_token list \<Rightarrow> pystr \<Rightarrow> (glob_token \<times> pystr) option \<Rightarrow> pystr option" where
  "match_prefix gone toks inp mark =
     (case toks of
        [] \<Rightarrow> Some inp
      | t # ts \<Rightarrow>
          (case inp of
             [] \<Rightarrow> if list_all is_star toks then Some [] else None
           | c # cs \<Rightarrow>
               if is_star t then match_prefix [] ts inp (Some (t, inp))
               else if token_char_match t c then match_prefix (gone @ [t]) ts cs mark
               else (case mark of
                   None \<Rightarrow> None
                 | Some (k, b) \<Rightarrow>
                     (case b of [] \<Rightarrow> None
                      | d # b' \<Rightarrow> if k = Star \<and> d = 47 then None
                          else match_prefix [] (gone @ toks) b' (Some (k, b'))))))"
  by pat_completeness auto
termination
  by (relation "measures [\<lambda>(gone, toks, inp, mark). length gone + length toks,
      \<lambda>(gone, toks, inp, mark). (case mark of None \<Rightarrow> 0 | Some (k, b) \<Rightarrow> length b),
      \<lambda>(gone, toks, inp, mark). length toks]") auto

declare match_prefix.simps [simp del]

text \<open>Anchored at both ends.\<close>

function match_full :: "glob_token list \<Rightarrow> glob_token list \<Rightarrow> pystr \<Rightarrow> (glob_token \<times> pystr) option \<Rightarrow> bool" where
  "match_full gone toks inp mark =
     (case inp of
        [] \<Rightarrow> list_all is_star toks
      | c # cs \<Rightarrow>
          (case toks of
             t # ts \<Rightarrow>
               if is_star t then match_full [] ts inp (Some (t, inp))
               else if token_char_match t c then match_full (gone @ [t]) ts cs mark
               else (case mark of
                   None \<Rightarrow> False
                 | Some (k, b) \<Rightarrow>
                     (case b of [] \<Rightarrow> False
                      | d # b' \<Rightarrow> if k = Star \<and> d = 47 then False
                          else match_full [] (gone @ toks) b' (Some (k, b'))))
           | [] \<Rightarrow>
               (case mark of
                   None \<Rightarrow> False
                 | Some (k, b) \<Rightarrow>
                     (case b of [] \<Rightarrow> False
                      | d # b' \<Rightarrow> if k = Star \<and> d = 47 then False
                          else match_full [] gone b' (Some (k, b'))))))"
  by pat_completeness auto
termination
  by (relation "measures [\<lambda>(gone, toks, inp, mark). length gone + length toks,
      \<lambda>(gone, toks, inp, mark). (case mark of None \<Rightarrow> 0 | Some (k, b) \<Rightarrow> length b),
      \<lambda>(gone, toks, inp, mark). length toks]") auto

declare match_full.simps [simp del]

definition match_tokens_prefix :: "glob_token list \<Rightarrow> pystr \<Rightarrow> pystr option" where
  "match_tokens_prefix toks target = match_prefix [] toks target None"

definition match_tokens_full :: "glob_token list \<Rightarrow> pystr \<Rightarrow> bool" where
  "match_tokens_full toks target = match_full [] toks target None"

text \<open>The leftmost start that matches.\<close>

fun find_segment :: "glob_token list \<Rightarrow> pystr \<Rightarrow> pystr option" where
  "find_segment seg target = (case match_tokens_prefix seg target of
     Some r \<Rightarrow> Some r
   | None \<Rightarrow> (case target of [] \<Rightarrow> None | c # t \<Rightarrow> find_segment seg t))"

declare find_segment.simps [simp del]

definition match_suffix :: "glob_token list \<Rightarrow> pystr \<Rightarrow> bool" where
  "match_suffix seg target = (match_tokens_prefix (rev seg) (rev target) \<noteq> None)"

section \<open>Segments\<close>

text \<open>The pattern split at every double star.\<close>

fun segments_of :: "glob_token list \<Rightarrow> glob_token list list" where
  "segments_of [] = [[]]"
| "segments_of (t # ts) = (if t = DStar then [] # segments_of ts
     else (case segments_of ts of s # ss \<Rightarrow> (t # s) # ss | [] \<Rightarrow> [[t]]))"

text \<open>The loop over the non-empty segments: \<open>first\<close> is its index 0; \<open>lead\<close> and \<open>trail\<close> say that the pattern
  begins and ends with a double star.\<close>

fun match_segments :: "bool \<Rightarrow> bool \<Rightarrow> bool \<Rightarrow> glob_token list list \<Rightarrow> pystr \<Rightarrow> bool" where
  "match_segments first lead trail [] target = True"
| "match_segments first lead trail (seg # segs) target =
     (if first \<and> \<not> lead
      then (case match_tokens_prefix seg target of None \<Rightarrow> False | Some r \<Rightarrow> match_segments False lead trail segs r)
      else if segs = [] \<and> \<not> trail then match_suffix seg target
      else (case find_segment seg target of None \<Rightarrow> False | Some r \<Rightarrow> match_segments False lead trail segs r))"

definition match_tokens :: "glob_token list \<Rightarrow> pystr \<Rightarrow> bool" where
  "match_tokens toks target =
     (if DStar \<notin> set toks then match_tokens_full toks target
      else (let segs = segments_of toks in
        match_segments True (hd segs = []) (last segs = []) (filter (\<lambda>s. s \<noteq> []) segs) target))"

definition target_matches :: "pystr \<Rightarrow> pystr \<Rightarrow> bool" where
  "target_matches pattern target =
     (length target \<le> max_target_len \<and>
      (case tokenize_target_pattern pattern of None \<Rightarrow> False | Some toks \<Rightarrow> match_tokens toks target))"

section \<open>What a pattern means\<close>

text \<open>The reference: each token matches one character, a star any run without a slash, a double star any run.\<close>

fun glob :: "glob_token list \<Rightarrow> pystr \<Rightarrow> bool" where
  "glob [] s \<longleftrightarrow> s = []"
| "glob (t # ts) [] \<longleftrightarrow> is_star t \<and> glob ts []"
| "glob (t # ts) (c # s) \<longleftrightarrow>
     (if is_star t then glob ts (c # s) \<or> token_char_match t c \<and> glob (t # ts) s
      else token_char_match t c \<and> glob ts s)"

lemma glob_star_skip: "is_star t \<Longrightarrow> glob ts s \<Longrightarrow> glob (t # ts) s"
  by (cases s) auto

lemma glob_append: "glob ts u \<Longrightarrow> glob us v \<Longrightarrow> glob (ts @ us) (u @ v)"
proof (induction ts u rule: glob.induct)
  case (2 t ts)
  then show ?case by (cases v) auto
qed auto

lemma glob_stars: "list_all is_star ts \<Longrightarrow> glob ts []"
  by (induction ts) auto

lemma glob_star_run: "is_star k \<Longrightarrow> list_all (token_char_match k) w \<Longrightarrow> glob ts u \<Longrightarrow> glob (k # ts) (w @ u)"
  by (induction w) (auto intro: glob_star_skip)

section \<open>The scanners are sound\<close>

text \<open>What the bookmark remembers: its star, and that the tokens since then matched from it to here.\<close>

fun mark_ok :: "glob_token list \<Rightarrow> pystr \<Rightarrow> (glob_token \<times> pystr) option \<Rightarrow> bool" where
  "mark_ok gone inp None = True"
| "mark_ok gone inp (Some (k, b)) = (is_star k \<and> (\<exists>v. b = v @ inp \<and> glob gone v))"

lemma mark_ok_step: "mark_ok gone (c # cs) mark \<Longrightarrow> \<not> is_star t \<Longrightarrow> token_char_match t c \<Longrightarrow> mark_ok (gone @ [t]) cs mark"
  using glob_append [of gone _ "[t]" "[c]"] by (cases mark) (fastforce split: prod.splits)+

lemma mark_ok_star: "is_star t \<Longrightarrow> mark_ok [] inp (Some (t, inp))"
  by simp

lemma mark_ok_back: "is_star k \<Longrightarrow> mark_ok [] b' (Some (k, b'))"
  by simp

text \<open>From a state with bookmark, the star and everything after it matches from the bookmark on.\<close>

definition found :: "glob_token list \<Rightarrow> glob_token list \<Rightarrow> pystr \<Rightarrow> (glob_token \<times> pystr) option \<Rightarrow> pystr \<Rightarrow> bool" where
  "found gone toks inp mark r = (case mark of
     None \<Rightarrow> (\<exists>u. inp = u @ r \<and> glob toks u)
   | Some (k, b) \<Rightarrow> (\<exists>u. b = u @ r \<and> glob (k # gone @ toks) u))"

lemma found_here: "mark_ok gone inp mark \<Longrightarrow> inp = u @ r \<Longrightarrow> glob toks u \<Longrightarrow> found gone toks inp mark r"
  by (cases mark) (auto simp: found_def intro!: glob_star_skip glob_append)

lemma found_char: "found (gone @ [t]) ts cs mark r \<Longrightarrow> \<not> is_star t \<Longrightarrow> token_char_match t c \<Longrightarrow> found gone (t # ts) (c # cs) mark r"
  by (cases mark) (auto simp: found_def Cons_eq_append_conv)

lemma found_star:
  assumes "found [] ts inp (Some (t, inp)) r" "is_star t" "mark_ok gone inp mark"
  shows "found gone (t # ts) inp mark r"
proof -
  from assms(1) obtain u where "inp = u @ r" "glob (t # ts) u" by (auto simp: found_def)
  then show ?thesis using assms(3) by (intro found_here)
qed

lemma found_back:
  assumes "found [] (gone @ toks) b' (Some (k, b')) r" "is_star k" "\<not> (k = Star \<and> d = 47)"
  shows "found gone toks inp (Some (k, d # b')) r"
proof -
  from assms(1) obtain u where u: "b' = u @ r" "glob (k # gone @ toks) u" by (auto simp: found_def)
  have "token_char_match k d" using assms(2,3) by (cases k) auto
  with u assms(2) have "glob (k # gone @ toks) (d # u)" by simp
  with u show ?thesis by (auto simp: found_def Cons_eq_append_conv)
qed

lemma match_prefix_sound:
  "match_prefix gone toks inp mark = Some r \<Longrightarrow> mark_ok gone inp mark \<Longrightarrow> found gone toks inp mark r"
proof (induction gone toks inp mark rule: match_prefix.induct)
  case (1 gone toks inp mark)
  note res = "1.prems"(1) [unfolded match_prefix.simps [of gone toks inp mark]]
  show ?case
  proof (cases toks)
    case Nil
    with res "1.prems"(2) show ?thesis by (intro found_here [of _ _ _ "[]"]) auto
  next
    case t: (Cons t ts)
    show ?thesis
    proof (cases inp)
      case Nil
      with res t have "r = []" "glob toks []" using glob_stars by (auto split: if_splits)
      with Nil "1.prems"(2) show ?thesis by (intro found_here [of _ _ _ "[]"]) auto
    next
      case c: (Cons c cs)
      consider (star) "is_star t" | (char) "\<not> is_star t" "token_char_match t c"
        | (miss) "\<not> is_star t" "\<not> token_char_match t c" by blast
      then show ?thesis
      proof cases
        case star
        then show ?thesis using res t c "1.IH"(1) [OF t c star] "1.prems"(2) found_star by simp
      next
        case char
        then show ?thesis
          using res t c "1.IH"(2) [OF t c char] mark_ok_step [of gone c cs mark t] "1.prems"(2) found_char by simp
      next
        case miss
        then obtain k d b' where m: "mark = Some (k, d # b')" "\<not> (k = Star \<and> d = 47)"
          "match_prefix [] (gone @ toks) b' (Some (k, b')) = Some r"
          using res t c by (auto split: option.splits prod.splits list.splits if_splits)
        have k: "is_star k" using "1.prems"(2) m(1) by simp
        have "found [] (gone @ toks) b' (Some (k, b')) r"
          using "1.IH"(3) [OF t c miss m(1) refl refl m(2,3)] k by simp
        then show ?thesis unfolding m(1) by (rule found_back [OF _ k m(2)])
      qed
    qed
  qed
qed

lemma match_tokens_prefix_sound: "match_tokens_prefix toks s = Some r \<Longrightarrow> \<exists>u. s = u @ r \<and> glob toks u"
  using match_prefix_sound [of "[]" toks s None r] by (simp add: match_tokens_prefix_def found_def)

lemma match_full_sound:
  "match_full gone toks inp mark \<Longrightarrow> mark_ok gone inp mark \<Longrightarrow> found gone toks inp mark []"
proof (induction gone toks inp mark rule: match_full.induct)
  case (1 gone toks inp mark)
  note res = "1.prems"(1) [unfolded match_full.simps [of gone toks inp mark]]
  show ?case
  proof (cases inp)
    case Nil
    with res have "glob toks []" using glob_stars by simp
    with Nil "1.prems"(2) show ?thesis by (intro found_here [of _ _ _ "[]"]) auto
  next
    case c: (Cons c cs)
    consider (star) t ts where "toks = t # ts" "is_star t"
      | (char) t ts where "toks = t # ts" "\<not> is_star t" "token_char_match t c"
      | (miss) t ts where "toks = t # ts" "\<not> is_star t" "\<not> token_char_match t c" | (over) "toks = []"
      by (cases toks) auto
    then show ?thesis
    proof cases
      case star
      then show ?thesis using res c "1.IH"(2) [OF c star] "1.prems"(2) found_star by simp
    next
      case (char t ts)
      then show ?thesis
        using res c "1.IH"(3) [OF c char] mark_ok_step [of gone c cs mark t] "1.prems"(2) found_char by simp
    next
      case (miss t ts)
      then obtain k d b' where m: "mark = Some (k, d # b')" "\<not> (k = Star \<and> d = 47)"
        "match_full [] (gone @ toks) b' (Some (k, b'))"
        using res c by (auto split: option.splits prod.splits list.splits if_splits)
      have k: "is_star k" using "1.prems"(2) m(1) by simp
      have "found [] (gone @ toks) b' (Some (k, b')) []"
        using "1.IH"(4) [OF c miss m(1) refl refl m(2,3)] k by simp
      then show ?thesis unfolding m(1) by (rule found_back [OF _ k m(2)])
    next
      case over
      then obtain k d b' where m: "mark = Some (k, d # b')" "\<not> (k = Star \<and> d = 47)"
        "match_full [] gone b' (Some (k, b'))"
        using res c by (auto split: option.splits prod.splits list.splits if_splits)
      have k: "is_star k" using "1.prems"(2) m(1) by simp
      have "found [] (gone @ toks) b' (Some (k, b')) []"
        using "1.IH"(1) [OF c over m(1) refl refl m(2,3)] k over by simp
      then show ?thesis unfolding m(1) by (rule found_back [OF _ k m(2)])
    qed
  qed
qed

lemma match_tokens_full_sound: "match_tokens_full toks s \<Longrightarrow> glob toks s"
  using match_full_sound [of "[]" toks s None] by (simp add: match_tokens_full_def found_def)

section \<open>The anchored scanner is complete\<close>

text \<open>Tokens that either match only a slash or never match one. A class that holds the slash among others is not
  of this kind.\<close>

fun slash_fixed :: "glob_token \<Rightarrow> bool" where
  "slash_fixed (Cls cs negate) \<longleftrightarrow> negate \<or> 47 \<notin> set cs \<or> set cs = {47}"
| "slash_fixed DStar \<longleftrightarrow> False"
| "slash_fixed _ \<longleftrightarrow> True"

definition starless :: "glob_token list \<Rightarrow> bool" where
  "starless ts \<longleftrightarrow> list_all (\<lambda>t. \<not> is_star t) ts"

lemma glob_starless_append:
  "starless ts \<Longrightarrow> glob (ts @ us) s \<longleftrightarrow> (\<exists>u v. s = u @ v \<and> list_all2 token_char_match ts u \<and> glob us v)"
proof (induction ts arbitrary: s)
  case (Cons t ts)
  then show ?case by (cases s) (auto simp: starless_def list_all2_Cons1 Cons_eq_append_conv)
qed (simp add: starless_def)

lemma glob_starless: "starless ts \<Longrightarrow> glob ts s \<longleftrightarrow> list_all2 token_char_match ts s"
  using glob_starless_append [of ts "[]" s] by simp

lemma glob_Star: "glob (Star # ts) s \<longleftrightarrow> (\<exists>w u. s = w @ u \<and> 47 \<notin> set w \<and> glob ts u)"
proof (induction s)
  case (Cons c s)
  have "(\<exists>w u. c # s = w @ u \<and> 47 \<notin> set w \<and> glob ts u) \<longleftrightarrow>
      glob ts (c # s) \<or> c \<noteq> 47 \<and> (\<exists>w u. s = w @ u \<and> 47 \<notin> set w \<and> glob ts u)" (is "?L \<longleftrightarrow> ?R")
  proof
    assume ?L
    then obtain w u where w: "c # s = w @ u" "47 \<notin> set w" "glob ts u" by blast
    then show ?R by (cases w) auto
  next
    assume ?R
    then show ?L
    proof
      assume "glob ts (c # s)"
      then show ?L by (intro exI [of _ "[]"] exI [of _ "c # s"]) simp
    next
      assume "c \<noteq> 47 \<and> (\<exists>w u. s = w @ u \<and> 47 \<notin> set w \<and> glob ts u)"
      then obtain w u where "c \<noteq> 47" "s = w @ u" "47 \<notin> set w" "glob ts u" by blast
      then show ?L by (intro exI [of _ "c # w"] exI [of _ u]) simp
    qed
  qed
  with Cons show ?case by simp
qed simp

lemma fixed_one: "slash_fixed t \<Longrightarrow> \<not> is_star t \<Longrightarrow> token_char_match t c \<Longrightarrow> token_char_match t d \<Longrightarrow> c = 47 \<longleftrightarrow> d = 47"
  by (cases t) (auto split: if_splits)

lemma fixed_slashes:
  "list_all2 token_char_match ts u \<Longrightarrow> list_all2 token_char_match ts v \<Longrightarrow> list_all slash_fixed ts \<Longrightarrow> starless ts \<Longrightarrow>
    count_list u 47 = count_list v 47"
proof (induction ts arbitrary: u v)
  case (Cons t ts)
  then obtain c u' d v' where uv: "u = c # u'" "v = d # v'" "token_char_match t c" "token_char_match t d"
    by (auto simp: list_all2_Cons1)
  have "c = 47 \<longleftrightarrow> d = 47" by (rule fixed_one [OF _ _ uv(3,4)]) (use Cons.prems in \<open>simp_all add: starless_def\<close>)
  moreover have "count_list u' 47 = count_list v' 47"
    by (rule Cons.IH) (use Cons.prems in \<open>simp_all add: uv starless_def\<close>)
  ultimately show ?case by (simp add: uv)
qed simp

text \<open>The leftmost place of the tokens between two stars serves as well as any later one: the run in between has no slash,
  since the two runs hold equally many.\<close>

lemma leftmost_serves:
  assumes "glob (Star # gone @ Star # ts) (v @ inp)" "list_all2 token_char_match gone v"
    and "starless gone" "list_all slash_fixed gone"
  shows "glob (Star # ts) inp"
proof -
  obtain w u where w: "v @ inp = w @ u" "47 \<notin> set w" "glob (gone @ Star # ts) u" using assms(1) by (auto simp: glob_Star)
  then obtain v' r where u: "u = v' @ r" "list_all2 token_char_match gone v'" "glob (Star # ts) r"
    using glob_starless_append [OF assms(3)] by blast
  have len: "length v = length v'" using assms(2) u(2) by (metis list_all2_lengthD)
  have eq: "v @ inp = (w @ v') @ r" using w u by simp
  have "\<exists>us. v = (w @ v') @ us \<and> us @ inp = r \<or> v @ us = w @ v' \<and> inp = us @ r"
    using eq by (rule append_eq_append_conv2 [THEN iffD1])
  then consider us where "v = (w @ v') @ us" "us @ inp = r" | us where "v @ us = w @ v'" "inp = us @ r" by blast
  then obtain x where x: "w @ v' = v @ x" "inp = x @ r"
  proof cases
    case 1
    from arg_cong [OF 1(1), of length] len have "w = []" "us = []" by simp_all
    with 1 that [of "[]"] show ?thesis by simp
  next
    case 2
    then show ?thesis by - (rule that [of us], simp_all)
  qed
  have "count_list (w @ v') 47 = count_list (v @ x) 47" using x by simp
  moreover have "count_list w 47 = 0" using w(2) by (simp add: count_list_0_iff)
  ultimately have "count_list x 47 = 0" using fixed_slashes [OF assms(2) u(2) assms(4,3)] by simp
  then have "47 \<notin> set x" by (simp add: count_list_0_iff)
  moreover obtain w' u' where "r = w' @ u'" "47 \<notin> set w'" "glob ts u'" using u(3) by (auto simp: glob_Star)
  ultimately show ?thesis using x(2) unfolding glob_Star by - (rule exI [of _ "x @ w'"], rule exI [of _ u'], simp)
qed

text \<open>The state of the scanner while the whole pattern still matches.\<close>

fun still :: "glob_token list \<Rightarrow> glob_token list \<Rightarrow> pystr \<Rightarrow> (glob_token \<times> pystr) option \<Rightarrow> bool" where
  "still gone toks inp None \<longleftrightarrow> glob toks inp"
| "still gone toks inp (Some (k, b)) \<longleftrightarrow> k = Star \<and> glob (Star # gone @ toks) b \<and>
     (\<exists>v. b = v @ inp \<and> list_all2 token_char_match gone v)"

lemma starless_snoc: "starless gone \<Longrightarrow> \<not> is_star t \<Longrightarrow> starless (gone @ [t])"
  by (simp add: starless_def)

lemma still_char:
  assumes "still gone (t # ts) (c # cs) mark" "token_char_match t c" "\<not> is_star t"
  shows "still (gone @ [t]) ts cs mark"
proof (cases mark)
  case None
  with assms show ?thesis by simp
next
  case (Some kb)
  obtain k b where kb: "kb = (k, b)" by (cases kb)
  from assms(1) obtain v where v: "k = Star" "glob (Star # gone @ t # ts) b" "b = v @ c # cs" "list_all2 token_char_match gone v"
    by (auto simp: Some kb)
  have "list_all2 token_char_match (gone @ [t]) (v @ [c])" using v(4) assms(2) by (simp add: list_all2_appendI)
  with v show ?thesis by (auto simp: Some kb intro!: exI [of _ "v @ [c]"])
qed

lemma still_star:
  assumes "still gone (Star # ts) inp mark" "starless gone" "list_all slash_fixed gone"
  shows "still [] ts inp (Some (Star, inp))"
proof (cases mark)
  case None
  with assms show ?thesis by simp
next
  case (Some kb)
  obtain k b where kb: "kb = (k, b)" by (cases kb)
  from assms(1) obtain v where v: "glob (Star # gone @ Star # ts) (v @ inp)" "list_all2 token_char_match gone v"
    by (auto simp: Some kb)
  with leftmost_serves [OF v assms(2,3)] show ?thesis by simp
qed

lemma still_back:
  assumes "still gone toks (c # cs) mark" "starless gone" "\<And>t ts. toks = t # ts \<Longrightarrow> \<not> is_star t \<and> \<not> token_char_match t c"
  obtains d b' where "mark = Some (Star, d # b')" "d \<noteq> 47" "still [] (gone @ toks) b' (Some (Star, b'))"
proof (cases mark)
  case None
  with assms(1,3) show ?thesis by (cases toks) auto
next
  case (Some kb)
  obtain k b where kb: "kb = (k, b)" by (cases kb)
  from assms(1) obtain v where v: "k = Star" "glob (Star # gone @ toks) b" "b = v @ c # cs" "list_all2 token_char_match gone v"
    by (auto simp: Some kb)
  have no: "\<not> glob (gone @ toks) b"
  proof
    assume "glob (gone @ toks) b"
    then obtain u r where u: "b = u @ r" "list_all2 token_char_match gone u" "glob toks r"
      using glob_starless_append [OF assms(2)] by blast
    have "length u = length v" using u(2) v(4) by (metis list_all2_lengthD)
    with u(1) v(3) have "r = c # cs" by simp
    with u(3) assms(3) show False by (cases toks) auto
  qed
  have "b \<noteq> []" using v(3) by simp
  then obtain d b' where b: "b = d # b'" by (cases b) auto
  with v(2) no have "d \<noteq> 47" "glob (Star # gone @ toks) b'" by (auto simp del: glob.simps(2))
  then show ?thesis using b v(1) Some kb by (intro that) auto
qed

lemma match_full_complete:
  "still gone toks inp mark \<Longrightarrow> starless gone \<Longrightarrow> list_all slash_fixed (gone @ toks) \<Longrightarrow> match_full gone toks inp mark"
proof (induction gone toks inp mark rule: match_full.induct)
  case (1 gone toks inp mark)
  note unfold = match_full.simps [of gone toks inp mark]
  show ?case
  proof (cases inp)
    case Nil
    have "list_all is_star toks"
    proof (cases mark)
      case None
      with "1.prems"(1) Nil have "glob toks []" by simp
      then show ?thesis by (induction toks) auto
    next
      case (Some kb)
      obtain k b where kb: "kb = (k, b)" by (cases kb)
      from "1.prems"(1) have g: "glob (Star # gone @ toks) b" and l: "list_all2 token_char_match gone b"
        by (auto simp: Some kb Nil)
      obtain w u where w: "b = w @ u" "glob (gone @ toks) u" using g by (auto simp: glob_Star)
      then obtain x y where x: "u = x @ y" "list_all2 token_char_match gone x" "glob toks y"
        using glob_starless_append [OF "1.prems"(2)] by blast
      have "length x = length b" using x(2) l by (metis list_all2_lengthD)
      with w(1) x(1) have "y = []" by simp
      with x(3) have "glob toks []" by simp
      then show ?thesis by (induction toks) auto
    qed
    then show ?thesis unfolding unfold using Nil by simp
  next
    case c: (Cons c cs)
    consider (star) t ts where "toks = t # ts" "is_star t"
      | (char) t ts where "toks = t # ts" "\<not> is_star t" "token_char_match t c"
      | (miss) t ts where "toks = t # ts" "\<not> is_star t" "\<not> token_char_match t c" | (over) "toks = []"
      by (cases toks) auto
    then show ?thesis
    proof cases
      case (star t ts)
      then have t: "t = Star" using "1.prems"(3) by (cases t) auto
      have "still [] ts inp (Some (t, inp))" using still_star "1.prems" star(1) t by auto
      with "1.IH"(2) [OF c star] "1.prems"(3) star have "match_full [] ts inp (Some (t, inp))" by (simp add: starless_def)
      then show ?thesis unfolding unfold using c star by simp
    next
      case (char t ts)
      have "still (gone @ [t]) ts cs mark" using still_char "1.prems"(1) char c by blast
      with "1.IH"(3) [OF c char] "1.prems"(2,3) char have "match_full (gone @ [t]) ts cs mark" by (simp add: starless_snoc)
      then show ?thesis unfolding unfold using c char by simp
    next
      case (miss t ts)
      obtain d b' where m: "mark = Some (Star, d # b')" "d \<noteq> 47" "still [] (gone @ toks) b' (Some (Star, b'))"
        using still_back [of gone toks c cs mark] "1.prems"(1,2) miss c by auto
      have "match_full [] (gone @ toks) b' (Some (Star, b'))"
        using "1.IH"(4) [OF c miss m(1) refl refl] m(2,3) "1.prems"(3) by (simp add: starless_def)
      then show ?thesis unfolding unfold using c miss m by simp
    next
      case over
      obtain d b' where m: "mark = Some (Star, d # b')" "d \<noteq> 47" "still [] (gone @ toks) b' (Some (Star, b'))"
        using still_back [of gone toks c cs mark] "1.prems"(1,2) over c by auto
      have "match_full [] gone b' (Some (Star, b'))"
        using "1.IH"(1) [OF c over m(1) refl refl] m(2,3) "1.prems"(3) over by (simp add: starless_def)
      then show ?thesis unfolding unfold using c over m by simp
    qed
  qed
qed

lemma match_tokens_full_exact: "list_all slash_fixed toks \<Longrightarrow> match_tokens_full toks s \<longleftrightarrow> glob toks s"
  using match_full_complete [of "[]" toks s None] match_tokens_full_sound [of toks s]
  by (auto simp: match_tokens_full_def starless_def)

section \<open>The segments are sound\<close>

lemma glob_split: "glob (ts @ us) s \<Longrightarrow> \<exists>u v. s = u @ v \<and> glob ts u \<and> glob us v"
proof (induction ts s rule: glob.induct)
  case (3 t ts c s)
  consider (skip) "is_star t" "glob (ts @ us) (c # s)" | (run) "is_star t" "token_char_match t c" "glob ((t # ts) @ us) s"
    | (char) "\<not> is_star t" "token_char_match t c" "glob (ts @ us) s" using "3.prems" by (auto split: if_splits)
  then show ?case
  proof cases
    case skip
    with "3.IH"(1) obtain u v where "c # s = u @ v" "glob ts u" "glob us v" by blast
    with skip(1) glob_star_skip show ?thesis by blast
  next
    case run
    with "3.IH"(2) obtain u v where "s = u @ v" "glob (t # ts) u" "glob us v" by blast
    with run show ?thesis by (intro exI [of _ "c # u"] exI [of _ v]) simp
  next
    case char
    with "3.IH"(3) obtain u v where "s = u @ v" "glob ts u" "glob us v" by blast
    with char show ?thesis by (intro exI [of _ "c # u"] exI [of _ v]) simp
  qed
qed auto

lemma glob_star_only: "is_star t \<Longrightarrow> glob [t] s \<longleftrightarrow> list_all (token_char_match t) s"
  by (induction s) auto

lemma glob_rev: "glob ts s \<Longrightarrow> glob (rev ts) (rev s)"
proof (induction ts s rule: glob.induct)
  case (2 t ts)
  then show ?case using glob_append [of "rev ts" "[]" "[t]" "[]"] by simp
next
  case (3 t ts c s)
  consider (skip) "is_star t" "glob ts (c # s)" | (run) "is_star t" "token_char_match t c" "glob (t # ts) s"
    | (char) "\<not> is_star t" "token_char_match t c" "glob ts s" using "3.prems" by (auto split: if_splits)
  then show ?case
  proof cases
    case skip
    then show ?thesis using "3.IH"(1) glob_append [of "rev ts" "rev (c # s)" "[t]" "[]"] by simp
  next
    case run
    have "glob (rev ts @ [t]) (rev s)" using "3.IH"(2) [OF run(1,3)] by simp
    from glob_split [OF this] obtain u v where "rev s = u @ v" "glob (rev ts) u" "glob [t] v" by blast
    with run show ?thesis using glob_append [of "rev ts" u "[t]" "v @ [c]"] by (simp add: glob_star_only)
  next
    case char
    then show ?thesis using "3.IH"(3) glob_append [of "rev ts" "rev s" "[t]" "[c]"] by simp
  qed
qed simp

lemma match_suffix_sound: "match_suffix seg s \<Longrightarrow> \<exists>g u. s = g @ u \<and> glob seg u"
proof -
  assume "match_suffix seg s"
  then obtain r where "match_tokens_prefix (rev seg) (rev s) = Some r" by (auto simp: match_suffix_def)
  then obtain u where "rev s = u @ r" "glob (rev seg) u" using match_tokens_prefix_sound by blast
  then have "s = rev r @ rev u" "glob seg (rev u)" using glob_rev [of "rev seg" u] by (simp_all add: rev_swap)
  then show ?thesis by blast
qed

lemma find_segment_sound: "find_segment seg s = Some r \<Longrightarrow> \<exists>g u. s = g @ u @ r \<and> glob seg u"
proof (induction seg s rule: find_segment.induct)
  case (1 seg s)
  show ?case
  proof (cases "match_tokens_prefix seg s")
    case (Some q)
    with "1.prems" have "q = r" by (simp add: find_segment.simps [of seg s])
    with match_tokens_prefix_sound [OF Some] show ?thesis by (metis append_Nil)
  next
    case None
    with "1.prems" obtain c t where t: "s = c # t" "find_segment seg t = Some r"
      by (subst (asm) find_segment.simps) (auto split: list.splits)
    from "1.IH" [OF None t] obtain g u where "t = g @ u @ r" "glob seg u" by blast
    with t(1) show ?thesis by (intro exI [of _ "c # g"] exI [of _ u]) simp
  qed
qed

lemma glob_DStar: "glob ts u \<Longrightarrow> glob (DStar # ts) (g @ u)"
  by (rule glob_star_run) (simp_all add: list_all_iff)

text \<open>The tokens that the rest of the loop answers for.\<close>

fun tail_pat :: "bool \<Rightarrow> glob_token list list \<Rightarrow> glob_token list" where
  "tail_pat trail [] = [DStar]"
| "tail_pat trail (s # ss) = DStar # s @ (if ss = [] \<and> \<not> trail then [] else tail_pat trail ss)"

lemma match_segments_tail:
  "(core = [] \<Longrightarrow> trail) \<Longrightarrow> match_segments False lead trail core s \<Longrightarrow> glob (tail_pat trail core) s"
proof (induction core arbitrary: s)
  case Nil
  then show ?case by (simp add: glob_star_only list_all_iff)
next
  case (Cons seg segs)
  show ?case
  proof (cases "segs = [] \<and> \<not> trail")
    case True
    with Cons.prems(2) have "match_suffix seg s" by simp
    from match_suffix_sound [OF this] obtain g u where "s = g @ u" "glob seg u" by blast
    with True show ?thesis by (simp add: glob_DStar)
  next
    case False
    with Cons.prems(2) obtain r where r: "find_segment seg s = Some r" "match_segments False lead trail segs r"
      by (auto split: option.splits)
    from find_segment_sound [OF r(1)] obtain g u where "s = g @ u @ r" "glob seg u" by blast
    moreover have "glob (tail_pat trail segs) r" using Cons.IH r(2) False by blast
    ultimately show ?thesis using False by (auto intro: glob_DStar glob_append)
  qed
qed

fun join_segments :: "glob_token list list \<Rightarrow> glob_token list" where
  "join_segments [] = []"
| "join_segments [s] = s"
| "join_segments (s # ss) = s @ DStar # join_segments ss"

lemma segments_of_neq_Nil [simp]: "segments_of ts \<noteq> []"
  by (cases ts) (auto split: list.splits)

lemma join_segments_Cons: "ss \<noteq> [] \<Longrightarrow> join_segments (s # ss) = s @ DStar # join_segments ss"
  by (cases ss) auto

lemma join_segments_of [simp]: "join_segments (segments_of ts) = ts"
proof (induction ts)
  case (Cons t ts)
  obtain s ss where seg: "segments_of ts = s # ss" by (cases "segments_of ts") auto
  show ?case
  proof (cases "t = DStar")
    case True
    with Cons show ?thesis by (simp add: join_segments_Cons)
  next
    case False
    with Cons seg show ?thesis by (cases ss) auto
  qed
qed simp

lemma segments_of_single: "segments_of ts = [s] \<Longrightarrow> DStar \<notin> set ts"
  by (induction ts arbitrary: s) (auto split: if_splits list.splits)

lemma tail_pat_join:
  "segs \<noteq> [] \<Longrightarrow> glob (tail_pat (last segs = []) (filter (\<lambda>s. s \<noteq> []) segs)) t \<Longrightarrow> glob (DStar # join_segments segs) t"
proof (induction segs arbitrary: t)
  case (Cons s ss)
  show ?case
  proof (cases "ss = []")
    case True
    with Cons.prems show ?thesis by (cases "s = []") simp_all
  next
    case ne: False
    show ?thesis
    proof (cases "s = []")
      case True
      have "glob (DStar # join_segments ss) t" using Cons.IH [OF ne] Cons.prems(2) True ne by simp
      then show ?thesis using True ne by (simp add: join_segments_Cons glob_star_skip del: glob.simps)
    next
      case False
      let ?core = "filter (\<lambda>s. s \<noteq> []) ss"
      have "?core = [] \<longrightarrow> last ss = []" using ne by (auto simp: filter_empty_conv)
      then have "glob ((DStar # s) @ tail_pat (last ss = []) ?core) t"
        using Cons.prems(2) False ne by (auto split: if_splits)
      from glob_split [OF this] obtain x y where xy: "t = x @ y" "glob (DStar # s) x" "glob (tail_pat (last ss = []) ?core) y"
        by blast
      have "glob (DStar # join_segments ss) y" by (rule Cons.IH [OF ne xy(3)])
      with xy(1,2) glob_append show ?thesis by (fastforce simp: join_segments_Cons [OF ne] simp del: glob.simps)
    qed
  qed
qed simp

lemma match_tokens_sound: "match_tokens toks s \<Longrightarrow> glob toks s"
proof (cases "DStar \<in> set toks")
  case True
  assume m: "match_tokens toks s"
  obtain s0 ss where seg: "segments_of toks = s0 # ss" by (cases "segments_of toks") auto
  have ne: "ss \<noteq> []" using segments_of_single [of toks s0] seg True by auto
  have toks: "toks = s0 @ DStar # join_segments ss"
    using join_segments_of [of toks] by (simp add: seg join_segments_Cons [OF ne])
  let ?trail = "last ss = []" and ?core = "filter (\<lambda>s. s \<noteq> []) ss"
  have core: "?core = [] \<Longrightarrow> ?trail" using ne by (auto simp: filter_empty_conv)
  have m': "match_segments True (s0 = []) ?trail (filter (\<lambda>s. s \<noteq> []) (s0 # ss)) s"
    using m True ne by (simp add: match_tokens_def seg Let_def)
  show ?thesis
  proof (cases "s0 = []")
    case lead: True
    have "match_segments True True ?trail ?core s = match_segments False True ?trail ?core s" by (cases ?core) simp_all
    with m' lead have "glob (tail_pat ?trail ?core) s" using match_segments_tail [OF core] by simp
    with tail_pat_join [OF ne] show ?thesis by (simp add: toks lead del: glob.simps)
  next
    case False
    with m' obtain r where r: "match_tokens_prefix s0 s = Some r" "match_segments False False ?trail ?core r"
      by (auto split: option.splits)
    from match_tokens_prefix_sound [OF r(1)] obtain u where "s = u @ r" "glob s0 u" by blast
    moreover have "glob (DStar # join_segments ss) r" by (rule tail_pat_join [OF ne match_segments_tail [OF core r(2)]])
    ultimately show ?thesis unfolding toks using glob_append by blast
  qed
next
  case False
  assume "match_tokens toks s"
  with False show ?thesis using match_tokens_full_sound by (simp add: match_tokens_def)
qed

end
