(* ===== verification/Agents.thy ===== *)
theory Agents
  imports Base58 Target_Glob Envelope
begin

text \<open>
  \<^verbatim>\<open>agent_identity.py\<close>: signed capability assertions of agents, the registry that verifies them again on
  every read, and the check of a claim. The decoding of JSON and pydantic's reading of an assertion are parameters.
\<close>

section \<open>Assertions\<close>

record capability_pattern =
  cp_plane :: pystr
  cp_verb :: pystr
  cp_target :: pystr
  cp_max_spend :: "f64 option"

record agent_assertion =
  as_did :: pystr
  as_capabilities :: "capability_pattern list"
  as_issued_at :: int
  as_expires_at :: int
  as_id :: pystr
  as_attester :: pystr

text \<open>The validator of every field: a float must be finite.\<close>

definition pattern_ok :: "capability_pattern \<Rightarrow> bool" where
  "pattern_ok c \<longleftrightarrow> (case cp_max_spend c of None \<Rightarrow> True | Some x \<Rightarrow> is_finite x)"

definition pattern_json :: "capability_pattern \<Rightarrow> json" where
  "pattern_json c = JObj [(py ''plane'', JStr (cp_plane c)), (py ''verb'', JStr (cp_verb c)),
     (py ''target_pattern'', JStr (cp_target c)),
     (py ''max_spend'', (case cp_max_spend c of None \<Rightarrow> JNull | Some x \<Rightarrow> JFloat x))]"

definition assertion_json :: "prims \<Rightarrow> agent_assertion \<Rightarrow> json" where
  "assertion_json P a = JObj [(py ''did'', JStr (as_did a)), (py ''capabilities'', JArr (map pattern_json (as_capabilities a))),
     (py ''issued_at'', JStr (dt_json P (as_issued_at a))), (py ''expires_at'', JStr (dt_json P (as_expires_at a))),
     (py ''assertion_id'', JStr (as_id a)), (py ''attester_did'', JStr (as_attester a))]"

text \<open>The decoder of JSON text, and \<^verbatim>\<open>AssertionPayload.model_validate\<close>.\<close>

record agent_lib =
  load_json :: "pystr \<Rightarrow> json option"
  read_assertion :: "json \<Rightarrow> agent_assertion option"

record assertion_args =
  aa_attester_did :: pystr
  aa_subject_did :: pystr
  aa_capabilities :: "capability_pattern list"
  aa_issued_at :: "datetime option"
  aa_ttl :: int
  aa_id :: "pystr option"

text \<open>\<open>tick\<close> is the clock and \<open>hex\<close> the drawn id.\<close>

definition assertion_of :: "assertion_args \<Rightarrow> int \<Rightarrow> pystr \<Rightarrow> agent_assertion res" where
  "assertion_of a tick hex =
     (let moment = (case aa_issued_at a of None \<Rightarrow> tick | Some t \<Rightarrow> as_utc t) in
      rbind (dt_add moment (aa_ttl a)) (\<lambda>expires.
      Inr \<lparr>as_did = aa_subject_did a, as_capabilities = aa_capabilities a, as_issued_at = moment,
        as_expires_at = expires,
        as_id = (case aa_id a of None \<Rightarrow> py ''assert-'' @ hex | Some i \<Rightarrow> if i = [] then py ''assert-'' @ hex else i),
        as_attester = aa_attester_did a\<rparr>))"

definition issue_assertion :: "prims \<Rightarrow> signer \<Rightarrow> assertion_args \<Rightarrow> int \<Rightarrow> pystr \<Rightarrow> bytes res" where
  "issue_assertion P attester a tick hex =
     rbind (pubkey_bytes_for_did (aa_attester_did a)) (\<lambda>key.
     require (key = public_key_bytes attester) AgentIdentityError ''attester_did does not resolve to the attester signer''
    (rbind (pubkey_bytes_for_did (aa_subject_did a)) (\<lambda>_.
     rbind (assertion_of a tick hex) (\<lambda>p.
     rbind (canonical_bytes P (assertion_json P p)) (\<lambda>b.
     rbind (utf8_encode (aa_attester_did a)) (\<lambda>kid. cose_sign_bytes b (sign_bytes attester) kid []))))))"

section \<open>Verification\<close>

text \<open>The key comes from the identifier in the protected header.\<close>

definition kid_of_header :: "pyval \<Rightarrow> bytes res" where
  "kid_of_header v = (case v of
     PDict d \<Rightarrow> (case dict_get label_kid d of
         Some (PBytes kid) \<Rightarrow> require (kid \<noteq> []) COSEError ''protected header must carry a non-empty kid'' (Inr kid)
       | _ \<Rightarrow> raise COSEError ''protected header must carry a non-empty kid'')
   | _ \<Rightarrow> raise COSEError ''protected header must carry a non-empty kid'')"

definition verify_with_resolved_kid :: "prims \<Rightarrow> bytes \<Rightarrow> (bytes \<times> bytes) res" where
  "verify_with_resolved_kid P m =
     rbind (except CBORError COSEError ''malformed COSE_Sign1'' (cbor_loads m)) (\<lambda>outer.
     rbind (get_four COSEError ''COSE_Sign1 must be an array of 4 elements'' outer) (\<lambda>(body_v, _, _, _).
     rbind (get_bytes COSEError ''body_protected must be a byte string'' body_v) (\<lambda>body.
     rbind (except CBORError COSEError ''malformed protected header'' (cbor_loads body)) (\<lambda>protected.
     rbind (kid_of_header protected) (\<lambda>kid.
     rbind (of_option COSEError ''kid is not valid UTF-8'' (utf8_decode kid)) (\<lambda>did.
     rbind (except AgentIdentityError COSEError ''kid is not a resolvable did:key DID'' (pubkey_bytes_for_did did)) (\<lambda>key.
     cose_verify P (PBytes m) [kid \<mapsto> key] [])))))))"

text \<open>The checks on a payload that was read: the attester, and the window.\<close>

definition check_assertion :: "pystr list \<Rightarrow> int \<Rightarrow> pystr \<Rightarrow> agent_assertion \<Rightarrow> agent_assertion res" where
  "check_assertion trusted moment did a =
     require (as_attester a = did) AgentIdentityError ''assertion kid does not match payload attester_did''
    (require (as_attester a = as_did a \<or> as_attester a \<in> set trusted) AgentIdentityError ''third-party attester not in trusted set''
    (require (as_issued_at a \<le> moment) AgentIdentityError ''assertion not yet valid''
    (require (moment < as_expires_at a) AgentIdentityError ''assertion expired'' (Inr a))))"

definition verify_agent_assertion :: "prims \<Rightarrow> agent_lib \<Rightarrow> bytes \<Rightarrow> pystr list \<Rightarrow> int \<Rightarrow> agent_assertion res" where
  "verify_agent_assertion P A m trusted moment =
     rbind (except COSEError AgentIdentityError ''assertion COSE verification failed'' (verify_with_resolved_kid P m)) (\<lambda>(b, kid).
     rbind (of_option AgentIdentityError ''assertion kid is not a UTF-8 DID'' (utf8_decode kid)) (\<lambda>did.
     rbind (of_option AgentIdentityError ''assertion payload is not JSON'' (Option.bind (utf8_decode b) (load_json A))) (\<lambda>raw.
     rbind (of_option AgentIdentityError ''assertion payload schema invalid'' (read_assertion A raw)) (\<lambda>a.
     rbind (except ValueError AgentIdentityError ''assertion payload contains non-JSON-compliant values'' (canonical_bytes P raw)) (\<lambda>c.
     require (c = b) AgentIdentityError ''assertion payload is not in canonical form'' (check_assertion trusted moment did a))))))"

section \<open>The registry\<close>

record entry =
  en_document :: did_document
  en_doc_hash :: pystr
  en_assertions :: "(pystr \<times> bytes) list"
  en_revoked :: "pystr list"

record registry =
  ar_trusted :: "pystr list"
  ar_entries :: "(pystr \<times> entry) list"

definition new_registry :: "pystr list \<Rightarrow> registry" where
  "new_registry trusted = \<lparr>ar_trusted = trusted, ar_entries = []\<rparr>"

definition method_json :: "verification_method \<Rightarrow> json" where
  "method_json m = JObj [(py ''id'', JStr (vm_id m)), (py ''type'', JStr (py ''Ed25519VerificationKey2020'')),
     (py ''controller'', JStr (vm_controller m)), (py ''publicKeyMultibase'', JStr (vm_multibase m))]"

definition document_json :: "did_document \<Rightarrow> json" where
  "document_json d = JObj [(py ''id'', JStr (dd_id d)), (py ''verificationMethod'', JArr (map method_json (dd_methods d))),
     (py ''authentication'', JArr (map JStr (dd_authentication d)))]"

definition doc_hash :: "prims \<Rightarrow> did_document \<Rightarrow> pystr res" where
  "doc_hash P d = sha256_hex P (document_json d)"

text \<open>The loop over the assertions of a registration.\<close>

fun admit_assertions :: "prims \<Rightarrow> agent_lib \<Rightarrow> pystr list \<Rightarrow> int \<Rightarrow> pystr \<Rightarrow> bytes list \<Rightarrow> (pystr \<times> bytes) list
    \<Rightarrow> (pystr \<times> bytes) list res" where
  "admit_assertions P A trusted moment did [] stored = Inr stored"
| "admit_assertions P A trusted moment did (m # ms) stored =
     rbind (verify_agent_assertion P A m trusted moment) (\<lambda>a.
     require (as_did a = did) AgentIdentityError ''assertion subject does not match the registered DID''
    (require (map_of stored (as_id a) = None) AgentIdentityError ''duplicate assertion_id in registration''
    (admit_assertions P A trusted moment did ms (stored @ [(as_id a, m)]))))"

text \<open>\<^verbatim>\<open>d[k] = v\<close> for a dict as the list of its items.\<close>

definition put_item :: "'k \<Rightarrow> 'v \<Rightarrow> ('k \<times> 'v) list \<Rightarrow> ('k \<times> 'v) list" where
  "put_item k v d = (if map_of d k \<noteq> None then map (\<lambda>(k', w). (k', if k' = k then v else w)) d else d @ [(k, v)])"

definition register_agent :: "prims \<Rightarrow> agent_lib \<Rightarrow> int \<Rightarrow> pystr \<Rightarrow> did_document \<Rightarrow> bytes list \<Rightarrow> registry
    \<Rightarrow> unit res \<times> registry" where
  "register_agent P A moment did doc msgs g =
     (case rbind (except PyException AgentIdentityError ''registration failed''
            (rbind (resolve_did did) (\<lambda>resolved.
             require (dd_id doc = did \<and> doc = resolved) AgentIdentityError ''registry document does not match''
               (admit_assertions P A (ar_trusted g) moment did msgs [])))) (\<lambda>stored.
          rbind (doc_hash P doc) (\<lambda>h.
          Inr \<lparr>en_document = doc, en_doc_hash = h, en_assertions = stored, en_revoked = []\<rparr>)) of
        Inl e \<Rightarrow> (Inl e, g)
      | Inr e \<Rightarrow> (Inr (), g\<lparr>ar_entries := put_item did e (ar_entries g)\<rparr>))"

record resolved_identity =
  ri_did :: pystr
  ri_document :: did_document
  ri_assertions :: "agent_assertion list"

text \<open>Assertions that no longer verify are not live; another exception is raised on.\<close>

fun live_assertions :: "prims \<Rightarrow> agent_lib \<Rightarrow> pystr list \<Rightarrow> int \<Rightarrow> pystr list \<Rightarrow> (pystr \<times> bytes) list \<Rightarrow> agent_assertion list res" where
  "live_assertions P A trusted moment revoked [] = Inr []"
| "live_assertions P A trusted moment revoked ((i, m) # ms) =
     (if i \<in> set revoked then live_assertions P A trusted moment revoked ms
      else (case verify_agent_assertion P A m trusted moment of
          Inr a \<Rightarrow> rbind (live_assertions P A trusted moment revoked ms) (\<lambda>as. Inr (a # as))
        | Inl e \<Rightarrow> if is_a (exn_cls e) AgentIdentityError then live_assertions P A trusted moment revoked ms else Inl e))"

definition resolve_agent :: "prims \<Rightarrow> agent_lib \<Rightarrow> int \<Rightarrow> pystr \<Rightarrow> registry \<Rightarrow> resolved_identity res" where
  "resolve_agent P A moment did g =
     rbind (of_option AgentIdentityError ''unknown DID in registry'' (map_of (ar_entries g) did)) (\<lambda>e.
     rbind (resolve_did did) (\<lambda>_.
     rbind (doc_hash P (en_document e)) (\<lambda>h.
     require (h = en_doc_hash e) AgentIdentityError ''registry entry tampered''
    (rbind (live_assertions P A (ar_trusted g) moment (en_revoked e) (en_assertions e)) (\<lambda>live.
     Inr \<lparr>ri_did = did, ri_document = en_document e, ri_assertions = live\<rparr>)))))"

definition revoke_in :: "pystr \<Rightarrow> entry \<Rightarrow> entry" where
  "revoke_in i e = (if map_of (en_assertions e) i \<noteq> None then e\<lparr>en_revoked := i # en_revoked e\<rparr> else e)"

definition revoke_assertion :: "pystr \<Rightarrow> registry \<Rightarrow> unit res \<times> registry" where
  "revoke_assertion i g =
     (if list_ex (\<lambda>(d, e). map_of (en_assertions e) i \<noteq> None) (ar_entries g)
      then (Inr (), g\<lparr>ar_entries := map (\<lambda>(d, e). (d, revoke_in i e)) (ar_entries g)\<rparr>)
      else (raise AgentIdentityError ''unknown assertion_id'', g))"

section \<open>Claims\<close>

definition covers :: "pystr \<Rightarrow> pystr \<Rightarrow> pystr \<Rightarrow> capability_pattern \<Rightarrow> bool" where
  "covers pl vb tg c \<longleftrightarrow> cp_plane c = pl \<and> cp_verb c = vb \<and> target_matches (cp_target c) tg"

definition authorize_capability_claim :: "prims \<Rightarrow> agent_lib \<Rightarrow> int \<Rightarrow> pystr \<Rightarrow> pystr \<Rightarrow> pystr \<Rightarrow> pystr \<Rightarrow> registry \<Rightarrow> bool" where
  "authorize_capability_claim P A moment did pl vb tg g =
     (case resolve_agent P A moment did g of
        Inl e \<Rightarrow> False
      | Inr r \<Rightarrow> ri_did r = did \<and>
          list_ex (\<lambda>a. as_did a = did \<and> list_ex (covers pl vb tg) (as_capabilities a)) (ri_assertions r))"

end
