(* ===== verification/Agents_Properties.thy ===== *)
theory Agents_Properties
  imports Agents Canonical_Total Cbor_Properties Single_Use Instances
begin

text \<open>
  What agent identity guarantees: a claim is only covered by a live assertion that the named key signed and whose
  pattern means the target; an issued assertion verifies; a revocation lasts until the identifier is registered again.
\<close>

section \<open>What a verified assertion is\<close>

definition attested :: "prims \<Rightarrow> agent_lib \<Rightarrow> pystr list \<Rightarrow> int \<Rightarrow> bytes \<Rightarrow> agent_assertion \<Rightarrow> bool" where
  "attested P A trusted moment m a \<longleftrightarrow>
     (\<exists>kid key b raw. utf8_encode (as_attester a) = Inr kid \<and> pubkey_bytes_for_did (as_attester a) = Inr key \<and>
        cose_authentic P m [kid \<mapsto> key] [] b kid \<and> Option.bind (utf8_decode b) (load_json A) = Some raw \<and>
        canonical_bytes P raw = Inr b \<and> read_assertion A raw = Some a) \<and>
     (as_attester a = as_did a \<or> as_attester a \<in> set trusted) \<and>
     as_issued_at a \<le> moment \<and> moment < as_expires_at a"

lemma kid_of_header_eq: "kid_of_header v = Inr kid \<longleftrightarrow> (\<exists>d. v = PDict d \<and> dict_get label_kid d = Some (PBytes kid) \<and> kid \<noteq> [])"
  by (cases v; auto simp: kid_of_header_def split: option.splits pyval.splits)

lemma verify_with_resolved_kid_ok:
  assumes "verify_with_resolved_kid P m = Inr (b, kid)"
  shows "\<exists>did key. utf8_decode kid = Some did \<and> pubkey_bytes_for_did did = Inr key \<and> cose_authentic P m [kid \<mapsto> key] [] b kid"
proof -
  obtain kid' did key where k: "utf8_decode kid' = Some did" "pubkey_bytes_for_did did = Inr key"
    "cose_verify P (PBytes m) [kid' \<mapsto> key] [] = Inr (b, kid)"
    using assms by (auto simp: verify_with_resolved_kid_def)
  then have c: "cose_authentic P m [kid' \<mapsto> key] [] b kid" by (simp add: cose_verify_eq)
  then have "kid = kid'" by (auto simp: cose_authentic_def split: if_splits)
  with k c show ?thesis by blast
qed

lemma check_assertion_eq: "check_assertion trusted moment did a = Inr a' \<longleftrightarrow> a' = a \<and> as_attester a = did \<and>
    (as_attester a = as_did a \<or> as_attester a \<in> set trusted) \<and> as_issued_at a \<le> moment \<and> moment < as_expires_at a"
  by (auto simp: check_assertion_def)

lemma verify_agent_assertion_ok: "verify_agent_assertion P A m trusted moment = Inr a \<Longrightarrow> attested P A trusted moment m a"
proof -
  assume v: "verify_agent_assertion P A m trusted moment = Inr a"
  then obtain b kid did raw where k: "verify_with_resolved_kid P m = Inr (b, kid)" "utf8_decode kid = Some did"
    "Option.bind (utf8_decode b) (load_json A) = Some raw" "read_assertion A raw = Some a" "canonical_bytes P raw = Inr b"
    "check_assertion trusted moment did a = Inr a"
    by (auto simp: verify_agent_assertion_def check_assertion_eq)
  from verify_with_resolved_kid_ok [OF k(1)] k(2) obtain key where
    key: "pubkey_bytes_for_did did = Inr key" "cose_authentic P m [kid \<mapsto> key] [] b kid" by auto
  have "utf8_encode did = Inr kid" using k(2) by (rule utf8_encode_decode)
  with k key show ?thesis by (auto simp: attested_def check_assertion_eq)
qed

section \<open>Claims\<close>

lemma live_assertions_ok:
  "live_assertions P A trusted moment revoked ms = Inr as \<Longrightarrow> a \<in> set as \<Longrightarrow>
    \<exists>(i, m) \<in> set ms. i \<notin> set revoked \<and> verify_agent_assertion P A m trusted moment = Inr a"
proof (induction ms arbitrary: as)
  case (Cons im ms)
  obtain i m where im: "im = (i, m)" by (cases im)
  show ?case
  proof (cases "i \<in> set revoked")
    case True
    with Cons im show ?thesis by auto
  next
    case False
    show ?thesis
    proof (cases "verify_agent_assertion P A m trusted moment")
      case (Inl e)
      with Cons im False show ?thesis by (auto split: if_splits)
    next
      case (Inr a')
      with Cons.prems im False obtain as' where "live_assertions P A trusted moment revoked ms = Inr as'" "as = a' # as'" by auto
      with Cons.IH Cons.prems(2) Inr im False show ?thesis by fastforce
    qed
  qed
qed simp

lemma resolve_agent_ok:
  assumes "resolve_agent P A moment did g = Inr r"
  obtains e where "map_of (ar_entries g) did = Some e" "ri_did r = did"
    "live_assertions P A (ar_trusted g) moment (en_revoked e) (en_assertions e) = Inr (ri_assertions r)"
    "doc_hash P (en_document e) = Inr (en_doc_hash e)"
  using assms by (auto simp: resolve_agent_def)

text \<open>What a pattern means: \<open>glob\<close> is the reference.\<close>

definition means :: "pystr \<Rightarrow> pystr \<Rightarrow> bool" where
  "means pat tg \<longleftrightarrow> length tg \<le> max_target_len \<and> (\<exists>toks. tokenize_target_pattern pat = Some toks \<and> glob toks tg)"

lemma target_matches_sound: "target_matches pat tg \<Longrightarrow> means pat tg"
  by (auto simp: target_matches_def means_def match_tokens_sound split: option.splits)

section \<open>Issued assertions verify\<close>

lemma issued_assertion_verifies:
  assumes "signer_ok P sg" "issue_assertion P sg a tick hex = Inr m" "assertion_of a tick hex = Inr p"
    and "canonical_bytes P (assertion_json P p) = Inr b" "utf8_decode b = Some t" "load_json A t = Some raw"
    and "canonical_bytes P raw = Inr b" "read_assertion A raw = Some p"
    and "aa_attester_did a = aa_subject_did a \<or> aa_attester_did a \<in> set trusted"
    and "as_issued_at p \<le> moment" "moment < as_expires_at p"
  shows "verify_agent_assertion P A m trusted moment = Inr p"
proof -
  let ?did = "aa_attester_did a"
  obtain kid where kid: "pubkey_bytes_for_did ?did = Inr (public_key_bytes sg)" "utf8_encode ?did = Inr kid"
    "cose_sign_bytes b (sign_bytes sg) kid [] = Inr m" using assms(2-4) by (auto simp: issue_assertion_def)
  have v: "cose_verify P (PBytes m) [kid \<mapsto> public_key_bytes sg] [] = Inr (b, kid)"
    using assms(1) kid(3) by (intro cose_verify_sign) (auto simp: signer_ok_def)
  then have "cose_authentic P m [kid \<mapsto> public_key_bytes sg] [] b kid" by (simp add: cose_verify_eq)
  then obtain body sig hdr where c: "cbor_loads m = Inr (PList [PBytes body, PDict [], PBytes b, PBytes sig])"
    "cbor_loads body = Inr (PDict hdr)" "dict_get label_kid hdr = Some (PBytes kid)"
    by (auto simp: cose_authentic_def)
  have d: "utf8_decode kid = Some ?did" using kid(2) by (rule utf8_decode_encode)
  have "kid \<noteq> []"
  proof
    assume "kid = []"
    with d have "?did = []" by simp
    with kid(1) show False by (simp add: pubkey_bytes_for_did_def)
  qed
  with c have "kid_of_header (PDict hdr) = Inr kid" by (auto simp: kid_of_header_eq)
  with c d kid(1) v have "verify_with_resolved_kid P m = Inr (b, kid)" by (simp add: verify_with_resolved_kid_def)
  moreover have "as_attester p = ?did" "as_did p = aa_subject_did a" using assms(3) by (auto simp: assertion_of_def Let_def)
  ultimately show ?thesis using assms(5-11) d by (simp add: verify_agent_assertion_def check_assertion_def)
qed

section \<open>The claims that are covered\<close>

text \<open>C8: \<^verbatim>\<open>authorize_capability_claim\<close> says yes only for a registered agent with a stored message that is not
  revoked and verifies now as an assertion for that identifier: a trusted attester, or the agent itself, signed it
  with the key its identifier encodes, the moment is in its window, and one of its capabilities has the plane and the
  verb and a pattern that means the target. Any failure on the way is a no.\<close>

theorem claim_backed:
  assumes "authorize_capability_claim P A moment did pl vb tg g"
  shows "\<exists>e i m a c. map_of (ar_entries g) did = Some e \<and> doc_hash P (en_document e) = Inr (en_doc_hash e) \<and>
    (i, m) \<in> set (en_assertions e) \<and> i \<notin> set (en_revoked e) \<and> attested P A (ar_trusted g) moment m a \<and>
    as_did a = did \<and> c \<in> set (as_capabilities a) \<and> cp_plane c = pl \<and> cp_verb c = vb \<and> means (cp_target c) tg"
proof -
  from assms obtain r where r: "resolve_agent P A moment did g = Inr r"
    by (auto simp: authorize_capability_claim_def split: sum.splits)
  with assms obtain a c where a: "a \<in> set (ri_assertions r)" "as_did a = did" "c \<in> set (as_capabilities a)" "covers pl vb tg c"
    by (auto simp: authorize_capability_claim_def list_ex_iff)
  from resolve_agent_ok [OF r] obtain e where e: "map_of (ar_entries g) did = Some e"
    "live_assertions P A (ar_trusted g) moment (en_revoked e) (en_assertions e) = Inr (ri_assertions r)"
    "doc_hash P (en_document e) = Inr (en_doc_hash e)" by metis
  from live_assertions_ok [OF e(2) a(1)] obtain i m where
    m: "(i, m) \<in> set (en_assertions e)" "i \<notin> set (en_revoked e)" "attested P A (ar_trusted g) moment m a"
    using verify_agent_assertion_ok by blast
  have c: "cp_plane c = pl" "cp_verb c = vb" "means (cp_target c) tg" using a(4) target_matches_sound by (auto simp: covers_def)
  show ?thesis by (intro exI conjI) (rule e(1), rule e(3), rule m(1), rule m(2), rule m(3), rule a(2), rule a(3), rule c(1), rule c(2), rule c(3))
qed

section \<open>Registration and revocation\<close>

text \<open>The payload of a message does not depend on when it is verified.\<close>

lemma verify_agent_assertion_payload:
  "verify_agent_assertion P A m trusted moment = Inr a \<Longrightarrow>
    \<exists>b kid raw. verify_with_resolved_kid P m = Inr (b, kid) \<and> Option.bind (utf8_decode b) (load_json A) = Some raw \<and>
      read_assertion A raw = Some a"
  by (auto simp: verify_agent_assertion_def check_assertion_eq)

lemma payload_of_message:
  assumes "verify_agent_assertion P A m trusted moment = Inr a" "verify_agent_assertion P A m trusted' moment' = Inr a'"
  shows "a' = a"
  using verify_agent_assertion_payload [OF assms(1)] verify_agent_assertion_payload [OF assms(2)] by (elim exE conjE) simp

text \<open>Every stored id is the one of the message stored under it.\<close>

definition ids_ok :: "prims \<Rightarrow> agent_lib \<Rightarrow> pystr \<Rightarrow> (pystr \<times> bytes) list \<Rightarrow> bool" where
  "ids_ok P A did ms \<longleftrightarrow> (\<forall>(i, m) \<in> set ms. \<exists>trusted moment a.
     verify_agent_assertion P A m trusted moment = Inr a \<and> as_id a = i \<and> as_did a = did)"

definition registry_ok :: "prims \<Rightarrow> agent_lib \<Rightarrow> registry \<Rightarrow> bool" where
  "registry_ok P A g \<longleftrightarrow> (\<forall>(did, e) \<in> set (ar_entries g). ids_ok P A did (en_assertions e) \<and>
     resolve_did did = Inr (en_document e) \<and> doc_hash P (en_document e) = Inr (en_doc_hash e))"

lemma admit_assertions_ok:
  "admit_assertions P A trusted moment did ms stored = Inr stored' \<Longrightarrow> ids_ok P A did stored \<Longrightarrow> ids_ok P A did stored'"
proof (induction ms arbitrary: stored)
  case (Cons m ms)
  then obtain a where a: "verify_agent_assertion P A m trusted moment = Inr a" "as_did a = did"
    "admit_assertions P A trusted moment did ms (stored @ [(as_id a, m)]) = Inr stored'" by auto
  have "ids_ok P A did [(as_id a, m)]" unfolding ids_ok_def using a(1,2) by auto
  with Cons.prems(2) have "ids_ok P A did (stored @ [(as_id a, m)])" unfolding ids_ok_def by (simp add: ball_Un)
  with a(3) show ?case by (rule Cons.IH)
qed simp

lemma set_put_item: "set (put_item k v d) \<subseteq> insert (k, v) (set d)"
  by (auto simp: put_item_def split: if_splits)

lemma map_of_update: "map_of (map (\<lambda>(k', w). (k', if k' = k then v else w)) d) k' =
    (if k' = k \<and> map_of d k \<noteq> None then Some v else map_of d k')"
  by (induction d) auto

lemma map_of_put_item [simp]: "map_of (put_item k v d) k' = (if k' = k then Some v else map_of d k')"
  by (auto simp: put_item_def map_of_update map_add_def split: option.splits)

lemma register_agent_cases:
  assumes "register_agent P A moment did doc msgs g = (r, g')"
  obtains e where "r = Inl e" "g' = g" | stored h where "r = Inr ()" "resolve_did did = Inr doc"
    "admit_assertions P A (ar_trusted g) moment did msgs [] = Inr stored" "doc_hash P doc = Inr h"
    "g' = g\<lparr>ar_entries := put_item did
       \<lparr>en_document = doc, en_doc_hash = h, en_assertions = stored, en_revoked = []\<rparr> (ar_entries g)\<rparr>"
proof -
  let ?admit = "rbind (except PyException AgentIdentityError ''registration failed''
            (rbind (resolve_did did) (\<lambda>resolved.
             require (dd_id doc = did \<and> doc = resolved) AgentIdentityError ''registry document does not match''
               (admit_assertions P A (ar_trusted g) moment did msgs [])))) (\<lambda>stored.
          rbind (doc_hash P doc) (\<lambda>h.
          Inr \<lparr>en_document = doc, en_doc_hash = h, en_assertions = stored, en_revoked = []\<rparr>))"
  note run = assms [unfolded register_agent_def]
  show thesis
  proof (cases ?admit)
    case (Inl e)
    with run have "r = Inl e" "g' = g" by simp_all
    then show thesis by (rule that(1))
  next
    case (Inr e)
    then obtain stored h where e: "resolve_did did = Inr doc" "admit_assertions P A (ar_trusted g) moment did msgs [] = Inr stored"
      "doc_hash P doc = Inr h" "e = \<lparr>en_document = doc, en_doc_hash = h, en_assertions = stored, en_revoked = []\<rparr>"
      by auto
    from run Inr have "r = Inr ()" "g' = g\<lparr>ar_entries := put_item did e (ar_entries g)\<rparr>" by simp_all
    with e show thesis by (intro that(2)) simp_all
  qed
qed

lemma register_agent_keeps:
  assumes "register_agent P A moment did doc msgs g = (r, g')" "registry_ok P A g" shows "registry_ok P A g'"
  using assms(1)
proof (cases rule: register_agent_cases)
  case (2 stored h)
  let ?e = "\<lparr>en_document = doc, en_doc_hash = h, en_assertions = stored, en_revoked = []\<rparr>"
  have "ids_ok P A did stored" by (rule admit_assertions_ok [OF 2(3)]) (simp add: ids_ok_def)
  with 2(2,4) have new: "ids_ok P A did (en_assertions ?e) \<and> resolve_did did = Inr (en_document ?e) \<and>
    doc_hash P (en_document ?e) = Inr (en_doc_hash ?e)" by simp
  show ?thesis unfolding registry_ok_def
  proof (rule ballI)
    fix x assume "x \<in> set (ar_entries g')"
    then have "x = (did, ?e) \<or> x \<in> set (ar_entries g)" using 2(5) set_put_item [of did ?e "ar_entries g"] by auto
    then show "case x of (did, e) \<Rightarrow> ids_ok P A did (en_assertions e) \<and> resolve_did did = Inr (en_document e) \<and>
      doc_hash P (en_document e) = Inr (en_doc_hash e)"
      using new assms(2) unfolding registry_ok_def by auto
  qed
qed (use assms(2) in simp)

lemma revoke_in_simps [simp]: "en_assertions (revoke_in i e) = en_assertions e" "en_document (revoke_in i e) = en_document e"
  "en_doc_hash (revoke_in i e) = en_doc_hash e" "set (en_revoked e) \<subseteq> set (en_revoked (revoke_in i e))"
  "map_of (en_assertions e) i \<noteq> None \<Longrightarrow> i \<in> set (en_revoked (revoke_in i e))"
  by (auto simp: revoke_in_def)

lemma revoke_assertion_keeps:
  "revoke_assertion i g = (r, g') \<Longrightarrow> registry_ok P A g \<Longrightarrow> registry_ok P A g'"
  by (auto simp: revoke_assertion_def registry_ok_def split: if_splits prod.splits)

datatype registry_op = Register int pystr did_document "bytes list" | Revoke pystr

fun registry_exec :: "prims \<Rightarrow> agent_lib \<Rightarrow> registry_op \<Rightarrow> registry \<Rightarrow> unit res \<times> registry" where
  "registry_exec P A (Register moment did doc msgs) g = register_agent P A moment did doc msgs g"
| "registry_exec P A (Revoke i) g = revoke_assertion i g"

fun registers :: "pystr \<Rightarrow> registry_op \<Rightarrow> bool" where
  "registers did (Register moment did' doc msgs) \<longleftrightarrow> did' = did"
| "registers did (Revoke i) \<longleftrightarrow> False"

lemma registry_exec_keeps: "registry_exec P A x g = (r, g') \<Longrightarrow> registry_ok P A g \<Longrightarrow> registry_ok P A g'"
  by (cases x) (auto intro: register_agent_keeps revoke_assertion_keeps)

lemma map_of_map_items: "map_of (map (\<lambda>(k, v). (k, f v)) d) k = map_option f (map_of d k)"
  by (induction d) auto

text \<open>A revocation of \<open>i\<close> in the entry of \<open>did\<close>: it is there or there is no message for it.\<close>

definition revoked_in :: "pystr \<Rightarrow> pystr \<Rightarrow> registry \<Rightarrow> bool" where
  "revoked_in did i g \<longleftrightarrow> (\<forall>e. map_of (ar_entries g) did = Some e \<longrightarrow> map_of (en_assertions e) i \<noteq> None \<longrightarrow> i \<in> set (en_revoked e))"

lemma revoke_revokes: "revoke_assertion i g = (Inr (), g') \<Longrightarrow> revoked_in did i g'"
  by (auto simp: revoke_assertion_def revoked_in_def map_of_map_items intro: revoke_in_simps(5) split: if_splits)

lemma revoked_in_step:
  assumes "registry_exec P A x g = (r, g')" "\<not> registers did x" "revoked_in did i g"
  shows "revoked_in did i g'"
proof (cases x)
  case (Register moment did' doc msgs)
  with assms(1) have "register_agent P A moment did' doc msgs g = (r, g')" by simp
  then show ?thesis by (cases rule: register_agent_cases) (use assms(2,3) Register in \<open>auto simp: revoked_in_def\<close>)
next
  case (Revoke j)
  with assms show ?thesis
    by (auto simp: revoke_assertion_def revoked_in_def map_of_map_items revoke_in_def split: if_splits)
qed

lemma revoked_in_run:
  "run_all (registry_exec P A) xs g = (tr, g') \<Longrightarrow> list_all (\<lambda>x. \<not> registers did x) xs \<Longrightarrow> revoked_in did i g \<Longrightarrow>
    registry_ok P A g \<Longrightarrow> revoked_in did i g' \<and> registry_ok P A g'"
proof (induction xs arbitrary: g tr)
  case (Cons x xs)
  obtain r g1 where x: "registry_exec P A x g = (r, g1)" by fastforce
  obtain tr1 where run: "run_all (registry_exec P A) xs g1 = (tr1, g')"
    using Cons.prems(1) x by (cases "run_all (registry_exec P A) xs g1") (simp add: run_all.simps)
  show ?case
  proof (rule Cons.IH [OF run])
    show "list_all (\<lambda>x. \<not> registers did x) xs" using Cons.prems(2) by simp
    show "revoked_in did i g1" using revoked_in_step [OF x] Cons.prems(2,3) by simp
    show "registry_ok P A g1" using registry_exec_keeps [OF x Cons.prems(4)] .
  qed
qed simp


text \<open>C22: after \<^verbatim>\<open>revoke_assertion\<close> no assertion with that id is resolved any more, whatever is registered
  and revoked in between, as long as the identifier is not registered again.\<close>

theorem revocation_holds:
  assumes "registry_ok P A g" "revoke_assertion i g = (Inr (), g1)"
    and "run_all (registry_exec P A) xs g1 = (tr, g2)" "list_all (\<lambda>x. \<not> registers did x) xs"
    and "resolve_agent P A moment did g2 = Inr r"
  shows "i \<notin> as_id ` set (ri_assertions r)"
proof
  assume "i \<in> as_id ` set (ri_assertions r)"
  then obtain a where a: "a \<in> set (ri_assertions r)" "as_id a = i" by blast
  have g2: "revoked_in did i g2" "registry_ok P A g2"
    using revoked_in_run [where i = i, OF assms(3,4) revoke_revokes [OF assms(2)] revoke_assertion_keeps [OF assms(2,1)]] by simp_all
  from resolve_agent_ok [OF assms(5)] obtain e where e: "map_of (ar_entries g2) did = Some e"
    "live_assertions P A (ar_trusted g2) moment (en_revoked e) (en_assertions e) = Inr (ri_assertions r)" by metis
  from live_assertions_ok [OF e(2) a(1)] obtain j m where m: "(j, m) \<in> set (en_assertions e)" "j \<notin> set (en_revoked e)"
    "verify_agent_assertion P A m (ar_trusted g2) moment = Inr a" by blast
  have "ids_ok P A did (en_assertions e)" using g2(2) map_of_SomeD [OF e(1)] by (auto simp: registry_ok_def)
  with m(1) obtain trusted t a' where "verify_agent_assertion P A m trusted t = Inr a'" "as_id a' = j"
    unfolding ids_ok_def by blast
  with payload_of_message [OF m(3)] a(2) have "j = i" by blast
  with m(1) have "map_of (en_assertions e) i \<noteq> None" using weak_map_of_SomeI by fastforce
  with g2(1) e(1) m(2) \<open>j = i\<close> show False by (simp add: revoked_in_def)
qed

lemma admit_assertions_all:
  "admit_assertions P A trusted moment did ms stored = Inr stored' \<Longrightarrow>
    \<exists>as. list_all2 (\<lambda>m a. verify_agent_assertion P A m trusted moment = Inr a \<and> as_did a = did) ms as \<and>
      stored' = stored @ zip (map as_id as) ms"
proof (induction ms arbitrary: stored)
  case (Cons m ms)
  then obtain a where a: "verify_agent_assertion P A m trusted moment = Inr a" "as_did a = did"
    "admit_assertions P A trusted moment did ms (stored @ [(as_id a, m)]) = Inr stored'" by auto
  from Cons.IH [OF a(3)] obtain as where
    "list_all2 (\<lambda>m a. verify_agent_assertion P A m trusted moment = Inr a \<and> as_did a = did) ms as"
    "stored' = (stored @ [(as_id a, m)]) @ zip (map as_id as) ms" by blast
  with a show ?case by (intro exI [of _ "a # as"]) simp
qed simp

lemma live_assertions_all:
  "list_all2 (\<lambda>m a. verify_agent_assertion P A m trusted moment = Inr a \<and> as_did a = did) ms as \<Longrightarrow>
    live_assertions P A trusted moment [] (zip (map as_id as) ms) = Inr as"
  by (induction rule: list_all2_induct) simp_all

text \<open>A registration that succeeds is found: at the same moment the identifier resolves to the registered document
  and to one verified assertion for every message, in the order given. This holds whatever was revoked before: the
  registration starts with an empty set of revocations, so that a message whose assertion was revoked is live again.\<close>

theorem registered_agent_resolves:
  assumes "register_agent P A moment did doc msgs g = (Inr (), g')"
  shows "\<exists>r. resolve_agent P A moment did g' = Inr r \<and> ri_did r = did \<and> ri_document r = doc \<and>
    list_all2 (\<lambda>m a. verify_agent_assertion P A m (ar_trusted g) moment = Inr a \<and> as_did a = did) msgs (ri_assertions r)"
  using assms
proof (cases rule: register_agent_cases)
  case (2 stored h)
  from admit_assertions_all [OF 2(3)] obtain as where as: "stored = zip (map as_id as) msgs"
    "list_all2 (\<lambda>m a. verify_agent_assertion P A m (ar_trusted g) moment = Inr a \<and> as_did a = did) msgs as" by auto
  with 2 live_assertions_all [OF as(2)] show ?thesis by (simp add: resolve_agent_def)
qed simp

section \<open>The scanner and the reference\<close>

text \<open>C27: for a pattern without \<^verbatim>\<open>**\<close> and without a class that holds both a slash and something else, the
  linear scanner with its one bookmark says exactly what the reference says, for every target up to the length bound.\<close>

theorem star_scanner_exact:
  assumes "tokenize_target_pattern pat = Some toks" "list_all slash_fixed toks"
  shows "target_matches pat tg = (length tg \<le> max_target_len \<and> glob toks tg)"
proof -
  have "DStar \<notin> set toks" using assms(2) by (auto simp: list_all_iff)
  then show ?thesis using assms match_tokens_full_exact by (simp add: target_matches_def match_tokens_def)
qed

section \<open>A concrete registry\<close>

definition demo_did :: pystr where
  "demo_did = py ''did:key:z6MkenrXJkaVJ2ybox6Es4bSJUQp3NKrnCgTV4FD8BC1etPv''"

lemma digits58_foldl: "\<forall>d \<in> set (c # ds). d < 58 \<Longrightarrow> c \<noteq> 0 \<Longrightarrow>
    digits58 (foldl (\<lambda>a d. a * 58 + d) 0 (c # ds)) = c # ds"
proof (induction ds rule: rev_induct)
  case Nil
  then show ?case by (simp add: digits58.simps [of c] digits58.simps [of 0])
next
  case (snoc d ds)
  let ?n = "foldl (\<lambda>a d. a * 58 + d) 0 (c # ds)"
  have "0 < ?n" by (induction ds rule: rev_induct) (use snoc.prems in auto)
  then have "digits58 (?n * 58 + d) = digits58 ?n @ [d]"
    using snoc.prems(1) by (subst digits58.simps) simp
  with snoc show ?case by simp
qed

definition demo_digits :: "nat list" where
  "demo_digits = [5, 20, 43, 37, 45, 49, 30, 17, 43, 33, 28, 17, 1, 56, 34, 46, 55, 5, 13, 50, 3, 34, 25, 17, 27, 23, 47, 2, 21, 18, 49, 45, 11, 39, 26, 28, 3, 14, 12, 7, 10, 11, 0, 37, 51, 22, 53]"

lemma demo_number: "from_be (multicodec_ed25519_prefix @ replicate 32 5) = foldl (\<lambda>a d. a * 58 + d) 0 demo_digits"
proof -
  have "replicate 32 (5 :: byte) = [5, 5, 5, 5, 5, 5, 5, 5, 5, 5, 5, 5, 5, 5, 5, 5, 5, 5, 5, 5, 5, 5, 5, 5, 5, 5, 5, 5, 5, 5, 5, 5]"
    by code_simp
  then show ?thesis by (simp add: multicodec_ed25519_prefix_def from_be_def demo_digits_def)
qed

lemma demo_did_of_key: "did_for_pubkey (replicate 32 5) = Inr demo_did"
proof -
  have "digits58 (from_be (multicodec_ed25519_prefix @ replicate 32 5)) = demo_digits"
    unfolding demo_number demo_digits_def by (rule digits58_foldl) simp_all
  then show ?thesis
    by (simp add: did_for_pubkey_def base58_encode_def demo_did_def demo_digits_def leading_def multicodec_ed25519_prefix_def
        b58_alphabet_def py_def)
qed

definition demo_grant :: capability_pattern where
  "demo_grant = \<lparr>cp_plane = py ''db'', cp_verb = py ''read'', cp_target = py ''log/*.[a-c]'', cp_max_spend = None\<rparr>"

definition demo_said :: agent_assertion where
  "demo_said = \<lparr>as_did = demo_did, as_capabilities = [demo_grant], as_issued_at = 0, as_expires_at = 60000000,
     as_id = py ''i'', as_attester = demo_did\<rparr>"

definition demo_said_args :: assertion_args where
  "demo_said_args = \<lparr>aa_attester_did = demo_did, aa_subject_did = demo_did, aa_capabilities = [demo_grant],
     aa_issued_at = Some (Aware 0 0), aa_ttl = 60000000, aa_id = Some (py ''i'')\<rparr>"

text \<open>A decoder that knows one text.\<close>

definition demo_agent_lib :: agent_lib where
  "demo_agent_lib = \<lparr>load_json = (\<lambda>t. if utf8_encode t = canonical_bytes toy (assertion_json toy demo_said)
       then Some (assertion_json toy demo_said) else None),
     read_assertion = (\<lambda>j. if j = assertion_json toy demo_said then Some demo_said else None)\<rparr>"

lemma demo_said_bytes: "\<exists>b t. canonical_bytes toy (assertion_json toy demo_said) = Inr b \<and> utf8_decode b = Some t \<and>
    length b < 2 ^ 60"
proof -
  have "\<exists>b. canonical_bytes toy (assertion_json toy demo_said) = Inr b \<and> length b < 2 ^ 60"
    by (simp add: canonical_bytes_def assertion_json_def pattern_json_def demo_said_def demo_grant_def demo_did_def py_def
        json_string_def json_escape_def int_text_def nat_text.simps utf8_char_def)
  then show ?thesis by (auto simp: canonical_bytes_def dest: utf8_decode_encode)
qed

lemma demo_message:
  "\<exists>m. issue_assertion toy (toy_signer ''a'' 5) demo_said_args 0 [] = Inr m \<and>
     verify_agent_assertion toy demo_agent_lib m [] 5 = Inr demo_said"
proof -
  obtain b t where b: "canonical_bytes toy (assertion_json toy demo_said) = Inr b" "utf8_decode b = Some t" "length b < 2 ^ 60"
    using demo_said_bytes by blast
  obtain kid where kid: "utf8_encode demo_did = Inr kid" "length kid < 2 ^ 60"
    using utf8_encode_total [of demo_did] by (force simp: demo_did_def text_ok_def py_def)
  obtain m where m: "cose_sign_bytes b (sign_bytes (toy_signer ''a'' 5)) kid [] = Inr m"
    using cose_sign_total [of "sign_bytes (toy_signer ''a'' 5)" kid "[]" b] kid(2) b(3) by auto
  have said: "assertion_of demo_said_args 0 [] = Inr demo_said"
    by (simp add: assertion_of_def demo_said_args_def demo_said_def dt_add_def)
  have issued: "issue_assertion toy (toy_signer ''a'' 5) demo_said_args 0 [] = Inr m"
    using b(1) kid(1) m said pubkey_of_did [OF demo_did_of_key] by (simp add: issue_assertion_def demo_said_args_def)
  moreover have "utf8_encode t = Inr b" using b(2) by (rule utf8_encode_decode)
  then have "verify_agent_assertion toy demo_agent_lib m [] 5 = Inr demo_said"
    by (intro issued_assertion_verifies [OF toy_signer_ok issued said b(1,2) _ b(1)])
       (simp_all add: demo_agent_lib_def b(1), simp_all add: demo_said_args_def demo_said_def)
  ultimately show ?thesis by blast
qed

definition demo_document :: did_document where
  "demo_document = document_of demo_did (replicate 32 5)"

lemma demo_registered:
  "\<exists>m g. register_agent toy demo_agent_lib 5 demo_did demo_document [m] (new_registry []) = (Inr (), g) \<and>
     verify_agent_assertion toy demo_agent_lib m [] 5 = Inr demo_said"
proof -
  obtain m where m: "verify_agent_assertion toy demo_agent_lib m [] 5 = Inr demo_said" using demo_message by blast
  have r: "resolve_did demo_did = Inr demo_document" using demo_did_of_key
    by (auto simp: resolve_did_eq demo_document_def intro!: exI [of _ "replicate 32 5"])
  have "demo_did = py ''did:key:z'' @ base58_encode (multicodec_ed25519_prefix @ replicate 32 5)"
    using demo_did_of_key by (simp add: did_for_pubkey_def)
  from arg_cong [OF this, of "drop 9"]
  have "base58_encode (multicodec_ed25519_prefix @ replicate 32 5) = drop 9 demo_did" by (simp add: py_def)
  then have "json_ok toy (document_json demo_document)"
    by (simp add: document_json_def method_json_def demo_document_def document_of_def Let_def demo_did_def py_def text_ok_def)
  then obtain h where "doc_hash toy demo_document = Inr h"
    using canonical_total by (fastforce simp: doc_hash_def sha256_hex_def)
  with m r have "\<exists>g. register_agent toy demo_agent_lib 5 demo_did demo_document [m] (new_registry []) = (Inr (), g)"
    by (simp add: register_agent_def new_registry_def demo_document_def demo_said_def document_of_def Let_def)
  with m show ?thesis by blast
qed

lemma demo_covered: "covers (py ''db'') (py ''read'') (py ''log/x.b'') demo_grant"
  by code_simp

theorem registered_agent_resolves_witness:
  "\<exists>m g r. register_agent toy demo_agent_lib 5 demo_did demo_document [m] (new_registry []) = (Inr (), g) \<and>
     resolve_agent toy demo_agent_lib 5 demo_did g = Inr r \<and> ri_assertions r = [demo_said]"
proof -
  obtain m g where m: "register_agent toy demo_agent_lib 5 demo_did demo_document [m] (new_registry []) = (Inr (), g)"
    "verify_agent_assertion toy demo_agent_lib m [] 5 = Inr demo_said" using demo_registered by blast
  from registered_agent_resolves [OF m(1)] m show ?thesis by (auto simp: new_registry_def list_all2_Cons1)
qed

theorem claim_backed_witness:
  "\<exists>g e i m a. authorize_capability_claim toy demo_agent_lib 5 demo_did (py ''db'') (py ''read'') (py ''log/x.b'') g \<and>
     map_of (ar_entries g) demo_did = Some e \<and> (i, m) \<in> set (en_assertions e) \<and> attested toy demo_agent_lib (ar_trusted g) 5 m a"
proof -
  obtain m g where m: "register_agent toy demo_agent_lib 5 demo_did demo_document [m] (new_registry []) = (Inr (), g)"
    "verify_agent_assertion toy demo_agent_lib m [] 5 = Inr demo_said" using demo_registered by blast
  from m(1) obtain e where "map_of (ar_entries g) demo_did = Some e" "en_assertions e = [(py ''i'', m)]" "en_revoked e = []"
    "doc_hash toy (en_document e) = Inr (en_doc_hash e)" "ar_trusted g = []" "resolve_did demo_did = Inr demo_document"
    using m(2) by (cases rule: register_agent_cases) (auto simp: new_registry_def demo_said_def)
  with m(2) have "authorize_capability_claim toy demo_agent_lib 5 demo_did (py ''db'') (py ''read'') (py ''log/x.b'') g"
    using demo_covered by (simp add: authorize_capability_claim_def resolve_agent_def demo_said_def)
  with claim_backed [OF this] show ?thesis by blast
qed

theorem revocation_holds_witness:
  "\<exists>m g g1 g2 r. register_agent toy demo_agent_lib 5 demo_did demo_document [m] (new_registry []) = (Inr (), g) \<and>
     revoke_assertion (py ''i'') g = (Inr (), g1) \<and> run_all (registry_exec toy demo_agent_lib) [Revoke (py ''j'')] g1 = ([(Revoke (py ''j''), raise AgentIdentityError ''unknown assertion_id'')], g2) \<and>
     resolve_agent toy demo_agent_lib 5 demo_did g2 = Inr r \<and> py ''i'' \<notin> as_id ` set (ri_assertions r)"
proof -
  obtain m g where m: "register_agent toy demo_agent_lib 5 demo_did demo_document [m] (new_registry []) = (Inr (), g)"
    "verify_agent_assertion toy demo_agent_lib m [] 5 = Inr demo_said" using demo_registered by blast
  from m(1) obtain h where g: "ar_trusted g = []" "resolve_did demo_did = Inr demo_document" "doc_hash toy demo_document = Inr h"
    "ar_entries g = [(demo_did, \<lparr>en_document = demo_document, en_doc_hash = h, en_assertions = [(py ''i'', m)], en_revoked = []\<rparr>)]"
    using m(2) by (cases rule: register_agent_cases) (auto simp: new_registry_def demo_said_def put_item_def)
  define g1 where "g1 = g\<lparr>ar_entries := [(demo_did, \<lparr>en_document = demo_document, en_doc_hash = h,
    en_assertions = [(py ''i'', m)], en_revoked = [py ''i'']\<rparr>)]\<rparr>"
  have ok: "registry_ok toy demo_agent_lib g"
    by (rule register_agent_keeps [OF m(1)]) (simp add: registry_ok_def new_registry_def)
  have rv: "revoke_assertion (py ''i'') g = (Inr (), g1)"
    by (simp add: revoke_assertion_def g(4) revoke_in_def g1_def)
  have run: "run_all (registry_exec toy demo_agent_lib) [Revoke (py ''j'')] g1 =
    ([(Revoke (py ''j''), raise AgentIdentityError ''unknown assertion_id'')], g1)"
    by (simp add: revoke_assertion_def g1_def py_def)
  have r: "resolve_agent toy demo_agent_lib 5 demo_did g1 = Inr \<lparr>ri_did = demo_did, ri_document = demo_document, ri_assertions = []\<rparr>"
    using g(1-3) by (simp add: resolve_agent_def g1_def)
  from revocation_holds [OF ok rv run _ r] m(1) rv run r show ?thesis by fastforce
qed

theorem star_scanner_exact_witness:
  "target_matches (py ''a*/?.[!x]*'') (py ''abc/d.efg'') \<and> \<not> target_matches (py ''a*b'') (py ''a/b'')"
proof -
  have t: "tokenize_target_pattern (py ''a*/?.[!x]*'') = Some [Lit 97, Star, Lit 47, AnyOne, Lit 46, Cls [120] True, Star]"
    "tokenize_target_pattern (py ''a*b'') = Some [Lit 97, Star, Lit 98]" by code_simp+
  have "glob [Lit 97, Star, Lit 47, AnyOne, Lit 46, Cls [120] True, Star] (py ''abc/d.efg'')"
    "\<not> glob [Lit 97, Star, Lit 98] (py ''a/b'')" by code_simp+
  with star_scanner_exact [OF t(1)] star_scanner_exact [OF t(2)] show ?thesis by (simp add: max_target_len_def py_def)
qed

text \<open>The scanner is not complete for other classes: \<^verbatim>\<open>*[/x]*b\<close> means \<^verbatim>\<open>ax/b\<close>, the second star
  taking nothing after the slash, but the bookmark has moved past the \<^verbatim>\<open>x\<close> before the class is tried on the slash.\<close>

lemma scanner_misses_class_with_slash:
  "means (py ''*[/x]*b'') (py ''ax/b'') \<and> \<not> target_matches (py ''*[/x]*b'') (py ''ax/b'')"
proof -
  have "tokenize_target_pattern (py ''*[/x]*b'') = Some [Star, Cls [47, 120] False, Star, Lit 98]"
    "glob [Star, Cls [47, 120] False, Star, Lit 98] (py ''ax/b'')" "length (py ''ax/b'') \<le> max_target_len"
    "\<not> target_matches (py ''*[/x]*b'') (py ''ax/b'')" by code_simp+
  then show ?thesis unfolding means_def by blast
qed

end
