(* ===== verification/A2a_Cards.thy ===== *)
theory A2a_Cards
  imports Planes Delegation Json_Python Envelope
begin

text \<open>
  The agent cards of \<^verbatim>\<open>a2a.py\<close>: the card that the agent signs, and the card whose anchor section a
  guardian signs. Pydantic's reading of a dict at the declared field types is a parameter; the validators of the
  models are here.
\<close>

definition aware_utc :: "datetime \<Rightarrow> int res" where
  "aware_utc t = (case t of Naive u \<Rightarrow> raise ValueError ''must be timezone-aware'' | Aware u z \<Rightarrow> Inr u)"

definition raw_key_text :: "prims \<Rightarrow> pystr \<Rightarrow> bool" where
  "raw_key_text P v \<longleftrightarrow> (case b64_decode P v of Some raw \<Rightarrow> length raw = 32 | None \<Rightarrow> False)"

text \<open>\<^verbatim>\<open>sorted(set(planes))\<close>.\<close>

definition sorted_planes :: "pystr list \<Rightarrow> pystr list" where
  "sorted_planes ps = sort (remdups ps)"

definition dict_entry :: "(pystr \<times> json) list \<Rightarrow> string \<Rightarrow> json" where
  "dict_entry d k = (case map_of d (py k) of None \<Rightarrow> JNull | Some v \<Rightarrow> v)"

section \<open>The card of the agent\<close>

record enforcement_declaration =
  ef_key :: pystr
  ef_planes :: "pystr list"
  ef_constitution :: pystr
  ef_hint :: pystr

record agent_card_body =
  cb_agent :: pystr
  cb_did :: pystr
  cb_enforcement :: enforcement_declaration
  cb_issued_at :: int

text \<open>The constructors: the fields are checked, an instant must be aware.\<close>

definition declaration_of :: "prims \<Rightarrow> enforcement_declaration \<Rightarrow> enforcement_declaration res" where
  "declaration_of P d =
     require (raw_key_text P (ef_key d) \<and> ef_planes d \<noteq> [] \<and> ef_constitution d \<noteq> [] \<and> ef_hint d \<noteq> [])
       ValidationError ''EnforcementDeclaration'' (Inr d)"

record card_fields =
  cf_agent :: pystr
  cf_did :: pystr
  cf_enforcement :: enforcement_declaration
  cf_issued_at :: datetime

definition card_body_of :: "prims \<Rightarrow> card_fields \<Rightarrow> agent_card_body res" where
  "card_body_of P f =
     rbind (declaration_of P (cf_enforcement f)) (\<lambda>d.
     rbind (except ValueError ValidationError ''AgentCardBody'' (aware_utc (cf_issued_at f))) (\<lambda>t.
     require (cf_agent f \<noteq> [] \<and> cf_did f \<noteq> []) ValidationError ''AgentCardBody''
       (Inr \<lparr>cb_agent = cf_agent f, cb_did = cf_did f, cb_enforcement = d, cb_issued_at = t\<rparr>)))"

definition declaration_json :: "enforcement_declaration \<Rightarrow> json" where
  "declaration_json d = JObj [(py ''governor_key'', JStr (ef_key d)), (py ''planes'', JArr (map JStr (ef_planes d))),
     (py ''constitution_hash'', JStr (ef_constitution d)), (py ''decision_verify_hint'', JStr (ef_hint d))]"

definition card_body_dump :: "prims \<Rightarrow> agent_card_body \<Rightarrow> (pystr \<times> json) list" where
  "card_body_dump P b = [(py ''agent_id'', JStr (cb_agent b)), (py ''did'', JStr (cb_did b)),
     (py ''anchor_enforcement'', declaration_json (cb_enforcement b)), (py ''issued_at'', JStr (dt_json P (cb_issued_at b)))]"

definition decision_verify_hint :: pystr where
  "decision_verify_hint = py (''anchor_v1.planes.verify_decision(signed_envelope, '' @
     ''base64.b64decode(anchor_enforcement.governor_key))'')"

record card_args =
  ca_agent :: pystr
  ca_did :: pystr
  ca_governor :: bytes
  ca_planes :: "pystr list"
  ca_digest :: pystr
  ca_issued_at :: "datetime option"

text \<open>\<open>tick\<close> is the clock.\<close>

definition build_agent_card :: "prims \<Rightarrow> signer \<Rightarrow> card_args \<Rightarrow> int \<Rightarrow> (pystr \<times> json) list res" where
  "build_agent_card P sg a tick =
     (let planes = sorted_planes (ca_planes a) in
      require (planes \<noteq> []) ValueError ''enforced_planes must be non-empty''
     (require (set planes \<subseteq> set supported_planes) ValueError ''enforced_planes contains unsupported planes''
     (require (length (ca_governor a) = 32) ValueError ''governor_pubkey must be 32 raw Ed25519 bytes''
     (rbind (declaration_of P \<lparr>ef_key = b64_encode P (ca_governor a), ef_planes = planes, ef_constitution = ca_digest a,
         ef_hint = decision_verify_hint\<rparr>) (\<lambda>d.
      rbind (aware_utc (case ca_issued_at a of None \<Rightarrow> Aware tick 0 | Some t \<Rightarrow> t)) (\<lambda>t.
      rbind (card_body_of P \<lparr>cf_agent = ca_agent a, cf_did = ca_did a, cf_enforcement = d, cf_issued_at = Aware t 0\<rparr>) (\<lambda>body.
      rbind (sign_payload P sg (card_body_dump P body)) (\<lambda>env.
      Inr (card_body_dump P body @ [(py ''signature'', envelope_json env)])))))))))"

text \<open>Pydantic's readers of a signature block and of the fields of a body.\<close>

record card_lib =
  read_signed :: "(pystr \<times> json) list \<Rightarrow> signed_envelope option"
  read_fields :: "(pystr \<times> json) list \<Rightarrow> card_fields option"

definition verify_agent_card :: "prims \<Rightarrow> card_lib \<Rightarrow> (pystr \<times> json) list \<Rightarrow> (pystr \<rightharpoonup> bytes) \<Rightarrow> pystr list option
    \<Rightarrow> pystr list option \<Rightarrow> agent_card_body res" where
  "verify_agent_card P C cd trusted supported known =
     rbind (case dict_entry cd ''signature'' of JObj d \<Rightarrow> Inr d
        | _ \<Rightarrow> raise CardVerificationError ''card has no signature block'') (\<lambda>raw_sig.
     rbind (of_option CardVerificationError ''malformed card signature'' (read_signed C raw_sig)) (\<lambda>env.
     rbind (case dict_entry cd ''did'' of JStr s \<Rightarrow> if s = [] then raise CardVerificationError ''card has no did'' else Inr s
        | _ \<Rightarrow> raise CardVerificationError ''card has no did'') (\<lambda>did.
     rbind (of_option CardVerificationError ''untrusted DID'' (trusted did)) (\<lambda>key.
     rbind (except PyException CardVerificationError ''card signature invalid'' (verify_envelope P env key)) (\<lambda>pl.
     require (json_eq (JObj (filter (\<lambda>(k, v). k \<noteq> py ''signature'') cd)) (JObj pl)) CardVerificationError
       ''card body does not match signed content''
    (rbind (except PyException CardVerificationError ''card body malformed''
        (rbind (of_option ValidationError ''AgentCardBody'' (read_fields C pl)) (card_body_of P))) (\<lambda>body.
     require (cb_did body = did) CardVerificationError ''signed did does not match card did''
    (require (set (ef_planes (cb_enforcement body)) \<subseteq> set (case supported of None \<Rightarrow> supported_planes | Some s \<Rightarrow> s))
       CardVerificationError ''card over-claims enforcement on unsupported planes''
    (require (case known of None \<Rightarrow> True | Some hs \<Rightarrow> ef_constitution (cb_enforcement body) \<in> set hs)
       CardVerificationError ''card constitution hash does not resolve'' (Inr body))))))))))"

section \<open>The anchored card\<close>

record anchor_section =
  an_guardian :: pystr
  an_pubkey :: pystr
  an_policy :: pystr
  an_planes :: "pystr list"
  an_hint :: pystr
  an_issued_at :: int

record anchor_fields =
  af_guardian :: pystr
  af_pubkey :: pystr
  af_policy :: pystr
  af_planes :: "pystr list"
  af_hint :: pystr
  af_issued_at :: datetime

text \<open>The validators: the key is 32 bytes, the planes are known and come out sorted.\<close>

definition section_of :: "prims \<Rightarrow> anchor_fields \<Rightarrow> anchor_section res" where
  "section_of P f =
     require (af_guardian f \<noteq> [] \<and> af_pubkey f \<noteq> [] \<and> af_policy f \<noteq> [] \<and> af_planes f \<noteq> [] \<and> af_hint f \<noteq> [] \<and>
       raw_key_text P (af_pubkey f) \<and> set (af_planes f) \<subseteq> set supported_planes) ValidationError ''AnchorSection''
     (rbind (except ValueError ValidationError ''AnchorSection'' (aware_utc (af_issued_at f))) (\<lambda>t.
      Inr \<lparr>an_guardian = af_guardian f, an_pubkey = af_pubkey f, an_policy = af_policy f,
        an_planes = sorted_planes (af_planes f), an_hint = af_hint f, an_issued_at = t\<rparr>))"

definition section_json :: "prims \<Rightarrow> anchor_section \<Rightarrow> json" where
  "section_json P s = JObj [(py ''guardian_key_id'', JStr (an_guardian s)), (py ''guardian_pubkey'', JStr (an_pubkey s)),
     (py ''policy_ref'', JStr (an_policy s)), (py ''enforced_planes'', JArr (map JStr (an_planes s))),
     (py ''decision_verify_hint'', JStr (an_hint s)), (py ''issued_at'', JStr (dt_json P (an_issued_at s)))]"

record anchored_card =
  ac_agent :: pystr
  ac_did :: pystr
  ac_capabilities :: "(pystr \<times> json) list"
  ac_schemes :: "(pystr \<times> json) list"
  ac_anchor :: anchor_section
  ac_signature :: pystr

definition anchored_card_ok :: "anchored_card \<Rightarrow> bool" where
  "anchored_card_ok c \<longleftrightarrow> ac_agent c \<noteq> [] \<and> ac_did c \<noteq> [] \<and> ac_signature c \<noteq> []"

definition anchored_card_dump :: "prims \<Rightarrow> anchored_card \<Rightarrow> (pystr \<times> json) list" where
  "anchored_card_dump P c = [(py ''agent_id'', JStr (ac_agent c)), (py ''did'', JStr (ac_did c)),
     (py ''capabilities'', JObj (ac_capabilities c)), (py ''securitySchemes'', JObj (ac_schemes c)),
     (py ''anchor'', section_json P (ac_anchor c)), (py ''anchor_signature'', JStr (ac_signature c))]"

definition anchored_decision_verify_hint :: pystr where
  "anchored_decision_verify_hint = py (''anchor_v1.a2a.verify_anchored_agent_card(card, '' @
     ''trusted_guardians={<guardian_key_id>: <32 raw bytes>})'')"

record anchored_args =
  ag_agent :: pystr
  ag_did :: pystr
  ag_policy :: pystr
  ag_planes :: "pystr list"
  ag_capabilities :: "(pystr \<times> json) list"
  ag_schemes :: "(pystr \<times> json) list"
  ag_issued_at :: "datetime option"

definition default_capabilities :: "pystr list \<Rightarrow> pystr \<Rightarrow> (pystr \<times> json) list" where
  "default_capabilities planes ref = [(py ''anchor'', JObj [(py ''enforced'', JBool True),
     (py ''planes'', JArr (map JStr planes)), (py ''policy_ref'', JStr ref),
     (py ''capability'', JStr (py ''holder-of-key-one-use''))])]"

definition default_schemes :: "(pystr \<times> json) list" where
  "default_schemes = [(py ''anchorCapability'', JObj [(py ''type'', JStr (py ''holderOfKey'')),
     (py ''description'', JStr (py (''One-use holder-of-key capabilities minted under the '' @
       ''guardian's policy; presented with proof-of-possession per call. No bearer tokens.'')))])]"

definition build_anchored_agent_card :: "prims \<Rightarrow> signer \<Rightarrow> anchored_args \<Rightarrow> int \<Rightarrow> (pystr \<times> json) list res" where
  "build_anchored_agent_card P guardian a tick =
     (let planes = sorted_planes (ag_planes a) in
      require (planes \<noteq> []) ValueError ''enforced_planes must be non-empty''
     (require (set planes \<subseteq> set supported_planes) ValueError ''enforced_planes contains unknown planes''
     (require (ag_policy a \<noteq> []) ValueError ''policy_ref is required''
     (rbind (aware_utc (case ag_issued_at a of None \<Rightarrow> Aware tick 0 | Some t \<Rightarrow> t)) (\<lambda>t.
      rbind (section_of P \<lparr>af_guardian = key_id guardian, af_pubkey = b64_encode P (public_key_bytes guardian),
         af_policy = ag_policy a, af_planes = planes, af_hint = anchored_decision_verify_hint, af_issued_at = Aware t 0\<rparr>) (\<lambda>s.
      rbind (canonical_bytes P (section_json P s)) (\<lambda>b.
      let c = \<lparr>ac_agent = ag_agent a, ac_did = ag_did a,
           ac_capabilities = json_merge (default_capabilities planes (ag_policy a)) (ag_capabilities a),
           ac_schemes = json_merge default_schemes (ag_schemes a), ac_anchor = s,
           ac_signature = b64_encode P (sign_bytes guardian b)\<rparr>
      in require (anchored_card_ok c) ValidationError ''AnchoredAgentCard'' (Inr (anchored_card_dump P c)))))))))"

text \<open>Pydantic's readers of a section and of the card around it.\<close>

record anchored_lib =
  read_section :: "(pystr \<times> json) list \<Rightarrow> anchor_fields option"
  read_frame :: "(pystr \<times> json) list \<Rightarrow> (pystr \<times> pystr \<times> (pystr \<times> json) list \<times> (pystr \<times> json) list \<times> pystr) option"

definition verify_anchored_agent_card :: "prims \<Rightarrow> anchored_lib \<Rightarrow> json \<Rightarrow> (pystr \<rightharpoonup> bytes) \<Rightarrow> anchored_card res" where
  "verify_anchored_agent_card P C v trusted =
     rbind (case v of JObj d \<Rightarrow> Inr d | _ \<Rightarrow> raise CardVerificationError ''card must be a mapping'') (\<lambda>cd.
     rbind (case dict_entry cd ''anchor'' of
          JObj d \<Rightarrow> if Envelope.truthy (dict_entry cd ''anchor_signature'') then Inr d
            else raise CardVerificationError ''unsigned anchor section''
        | _ \<Rightarrow> raise CardVerificationError ''unsigned anchor section'') (\<lambda>raw.
     rbind (except PyException CardVerificationError ''anchor section malformed''
        (rbind (of_option ValidationError ''AnchorSection'' (read_section C raw)) (section_of P))) (\<lambda>s.
     rbind (of_option CardVerificationError ''anchor guardian key id is not trusted'' (trusted (an_guardian s))) (\<lambda>key.
     rbind (public_key_from_b64 P (an_pubkey s)) (\<lambda>claimed.
     require (claimed = key) CardVerificationError ''anchor guardian pubkey does not match the trusted key''
    (rbind (case dict_entry cd ''anchor_signature'' of JStr t \<Rightarrow> Inr t
        | _ \<Rightarrow> raise CardVerificationError ''anchor signature must be a base64 string'') (\<lambda>t.
     rbind (of_option CardVerificationError ''anchor signature is not valid base64'' (b64_strict P t)) (\<lambda>sig.
     require (length key = 32) ValueError ''An Ed25519 public key is 32 bytes long''
    (rbind (canonical_bytes P (section_json P s)) (\<lambda>b.
     require (ed_verify P key sig b) CardVerificationError ''anchor section signature invalid''
    (rbind (of_option CardVerificationError ''card body malformed'' (read_frame C cd)) (\<lambda>(agent, did, caps, schemes, st).
     let c = \<lparr>ac_agent = agent, ac_did = did, ac_capabilities = caps, ac_schemes = schemes, ac_anchor = s, ac_signature = st\<rparr>
     in require (anchored_card_ok c) CardVerificationError ''card body malformed'' (Inr c)))))))))))))"

end
