(* ===== verification/A2a.thy ===== *)
theory A2a
  imports A2a_Cards Delegation Authority
begin

text \<open>
  Delegation between agents in \<^verbatim>\<open>a2a.py\<close>: the package a delegator builds, with a chain of receipts, a
  mandate, and a child capability minted from it, and its verification by the receiver. Pydantic's readers of
  packages, signed envelopes, receipts, action envelopes and capabilities are parameters.
\<close>

section \<open>Packages\<close>

record package =
  pk_principal :: pystr
  pk_delegatee :: pystr
  pk_chain :: "json list"
  pk_mandate :: pystr
  pk_child :: pystr
  pk_envelope :: json
  pk_digest :: pystr
  pk_at :: int

definition package_ok :: "package \<Rightarrow> bool" where
  "package_ok k \<longleftrightarrow> pk_principal k \<noteq> [] \<and> pk_delegatee k \<noteq> [] \<and> pk_chain k \<noteq> [] \<and> pk_mandate k \<noteq> [] \<and>
     pk_child k \<noteq> [] \<and> length (pk_digest k) = 64"

record a2a_lib =
  lib_package :: "json \<Rightarrow> package option"
  lib_signed :: "json \<Rightarrow> signed_envelope option"
  lib_receipt :: "(pystr \<times> json) list \<Rightarrow> receipt option"
  lib_envelope :: "json \<Rightarrow> action_envelope option"
  lib_payload :: "pyval \<Rightarrow> cap_payload option"

text \<open>\<^verbatim>\<open>action_envelope.model_dump(mode="json")\<close>.\<close>

definition action_effect_json :: "effect \<Rightarrow> json" where
  "action_effect_json e = JObj [(py ''plane'', JStr (plane e)), (py ''verb'', JStr (verb e)),
     (py ''target'', JStr (target e)), (py ''args_digest'', JStr (args_digest e))]"

definition action_envelope_json :: "prims \<Rightarrow> action_envelope \<Rightarrow> json" where
  "action_envelope_json P e = JObj [(py ''action_id'', JStr (action_id e)), (py ''principal'', JStr (principal e)),
     (py ''effect'', action_effect_json (effect e)), (py ''policy_ref'', JStr (policy_ref e)),
     (py ''issued_at'', JStr (dt_json P (issued_at e))), (py ''not_before'', JStr (dt_json P (not_before e))),
     (py ''not_after'', JStr (dt_json P (not_after e))), (py ''nonce'', JStr (nonce e))]"

section \<open>The delegator\<close>

record propagate_args =
  ga_principal :: pystr
  ga_chain :: "signed_envelope list"
  ga_mandate :: bytes
  ga_delegatee :: pystr
  ga_delegatee_key :: bytes
  ga_envelope :: action_envelope
  ga_spend_limit :: "int option"
  ga_ttl :: int
  ga_now :: "datetime option"

text \<open>The fresh values are those of the minted child, and the clock.\<close>

definition propagate_delegation :: "prims \<Rightarrow> a2a_lib \<Rightarrow> fresh \<Rightarrow> signer \<Rightarrow> trust \<Rightarrow> propagate_args \<Rightarrow> package res" where
  "propagate_delegation P A fr holder trusted a =
     (let t = now_or_clock fr (ga_now a) in
      require (ga_principal a \<noteq> []) DelegationPropagationError ''principal is required''
     (require (ga_delegatee a \<noteq> []) DelegationPropagationError ''delegatee_key_id is required''
     (require (length (ga_delegatee_key a) = 32) DelegationPropagationError ''delegatee_pubkey must be 32 raw bytes''
     (require (ga_chain a \<noteq> []) DelegationPropagationError ''chain_envelopes must be non-empty''
     (rbind (except CapabilityError DelegationPropagationError ''mandate capability invalid''
         (verify_capability P (lib_payload A) (PBytes (ga_mandate a)) trusted t)) (\<lambda>mandate.
      require (kind mandate = kind_mandate) DelegationPropagationError ''capability kind is not mandate''
     (require (holder_pubkey mandate = public_key_bytes holder) DelegationPropagationError
        ''holder_signer is not the mandate holder''
     (rbind (action_digest P (ga_envelope a)) (\<lambda>digest.
      require (digest = cap_digest mandate) DelegationPropagationError ''action envelope is not bound to this mandate''
     (rbind (except CapabilityError DelegationPropagationError ''child capability mint failed''
         (mint_child P (lib_payload A) fr (PBytes (ga_mandate a)) holder trusted
           \<lparr>m_holder = PBytes (ga_delegatee_key a), m_spend_limit = opt_val PInt (ga_spend_limit a), m_spend_asset = PNone,
            m_ttl = Some (ga_ttl a), m_staleness = None, m_now = Some (Aware t 0)\<rparr>)) (\<lambda>child.
      let k = \<lparr>pk_principal = ga_principal a, pk_delegatee = ga_delegatee a, pk_chain = map envelope_json (ga_chain a),
           pk_mandate = to_hex (ga_mandate a), pk_child = to_hex child, pk_envelope = action_envelope_json P (ga_envelope a),
           pk_digest = digest, pk_at = t\<rparr>
      in require (package_ok k) ValidationError ''DelegationPackage'' (Inr k))))))))))))"

section \<open>The receiver\<close>

record verified_delegation =
  vd_principal :: pystr
  vd_delegatee :: pystr
  vd_scope :: scope
  vd_chain :: verified_chain
  vd_mandate_id :: pystr
  vd_child_id :: pystr
  vd_digest :: pystr

definition coerce_pubkey :: "prims \<Rightarrow> registered \<Rightarrow> bytes res" where
  "coerce_pubkey P raw =
     rbind (case raw of KeyBytes b \<Rightarrow> Inr b
       | KeyText t \<Rightarrow> of_option DelegationRejected ''public key is not valid base64'' (b64_strict P t)
       | KeyOther \<Rightarrow> raise DelegationRejected ''public key has unsupported type'') (\<lambda>b.
     require (length b = 32) DelegationRejected ''public key is not 32 bytes'' (Inr b))"

text \<open>The loop over the trusted authorities.\<close>

fun authority_keys :: "prims \<Rightarrow> (pystr \<rightharpoonup> registered) \<Rightarrow> pystr list \<Rightarrow> trust \<Rightarrow> trust res" where
  "authority_keys P reg [] m = Inr m"
| "authority_keys P reg (k # ks) m =
     rbind (of_option DelegationRejected ''no public key registered for trusted authority'' (reg k)) (\<lambda>raw.
     rbind (utf8_encode k) (\<lambda>kid.
     rbind (coerce_pubkey P raw) (\<lambda>key. authority_keys P reg ks (m(kid \<mapsto> key)))))"

fun read_chain :: "a2a_lib \<Rightarrow> json list \<Rightarrow> signed_envelope list res" where
  "read_chain A [] = Inr []"
| "read_chain A (v # vs) = rbind (of_option DelegationRejected ''not a valid receipt envelope'' (lib_signed A v)) (\<lambda>e.
     rbind (read_chain A vs) (\<lambda>es. Inr (e # es)))"

definition hex_capability :: "prims \<Rightarrow> a2a_lib \<Rightarrow> pystr \<Rightarrow> trust \<Rightarrow> int \<Rightarrow> cap_payload res" where
  "hex_capability P A h trusted t =
     rbind (of_option ValueError ''non-hexadecimal number found in fromhex()'' (from_hex h)) (\<lambda>b.
     verify_capability P (lib_payload A) (PBytes b) trusted t)"

record receiver =
  rc_authorities :: "pystr list"
  rc_registry :: "pystr \<rightharpoonup> registered"
  rc_key_id :: pystr
  rc_key :: bytes
  rc_revoked :: "pystr list"

datatype package_arg = Package package | RawPackage json

text \<open>Step (4): the child is checked under the key of the leaf's delegator, the holder of the mandate.\<close>

definition delegated_child :: "prims \<Rightarrow> a2a_lib \<Rightarrow> receiver \<Rightarrow> int \<Rightarrow> receipt \<Rightarrow> cap_payload \<Rightarrow> pystr \<Rightarrow> cap_payload res" where
  "delegated_child P A R t leaf mandate h =
     rbind (of_option DelegationRejected ''no public key registered for delegator'' (rc_registry R (delegator leaf))) (\<lambda>raw.
     rbind (coerce_pubkey P raw) (\<lambda>key.
     require (holder_pubkey mandate = key) DelegationRejected ''mandate holder is not the chain's leaf delegator''
    (rbind (utf8_encode (delegator leaf)) (\<lambda>kid.
     except ValueError DelegationRejected ''child capability invalid'' (hex_capability P A h [kid \<mapsto> key] t)))))"

text \<open>Step (5), the binding of the child.\<close>

definition check_child :: "receiver \<Rightarrow> cap_payload \<Rightarrow> cap_payload \<Rightarrow> unit res" where
  "check_child R mandate child =
     require (kind child = kind_execution) DelegationRejected ''child capability kind is not execution''
    (require (parent_capability_id child = Some (capability_id mandate)) DelegationRejected
       ''child capability was not minted from this mandate''
    (require (cap_digest child = cap_digest mandate) DelegationRejected ''child action digest differs from the mandate's''
    (require (holder_pubkey child = rc_key R) DelegationRejected ''child capability is not bound to this receiver'' (Inr ()))))"

definition receive_package :: "prims \<Rightarrow> a2a_lib \<Rightarrow> receiver \<Rightarrow> int \<Rightarrow> package \<Rightarrow> verified_delegation res" where
  "receive_package P A R t k =
     rbind (read_chain A (pk_chain k)) (\<lambda>envs.
     rbind (except DelegationError DelegationRejected ''delegation chain rejected''
        (verify_chain P \<lparr>read_receipt = lib_receipt A, trusted_authority = rc_authorities R, registry = rc_registry R,
           moment = t\<rparr> envs)) (\<lambda>info.
     rbind (of_option DelegationRejected ''leaf receipt malformed'' (lib_receipt A (payload (last envs)))) (\<lambda>leaf.
     require (delegatee leaf = rc_key_id R \<and> pk_delegatee k = rc_key_id R) DelegationRejected
       ''delegation is not addressed to this receiver''
    (rbind (authority_keys P (rc_registry R) (rc_authorities R) Map.empty) (\<lambda>trusted.
     rbind (except ValueError DelegationRejected ''mandate capability invalid''
        (hex_capability P A (pk_mandate k) trusted t)) (\<lambda>mandate.
     require (kind mandate = kind_mandate) DelegationRejected ''mandate capability kind is not mandate''
    (rbind (delegated_child P A R t leaf mandate (pk_child k)) (\<lambda>child.
     rbind (check_child R mandate child) (\<lambda>_.
     rbind (of_option DelegationRejected ''action envelope malformed'' (lib_envelope A (pk_envelope k))) (\<lambda>e.
     rbind (action_digest P e) (\<lambda>digest.
     require (digest = pk_digest k) DelegationRejected ''package action_digest does not match the envelope''
    (require (digest = cap_digest child) DelegationRejected ''envelope digest does not match the child capability binding''
    (require (scope_allows (effective_scope info) (verb (effect e)) (target (effect e))) DelegationRejected
       ''delegation chain scope does not authorize this effect''
    (require (capability_id mandate \<notin> set (rc_revoked R)) DelegationRejected ''the mandate behind this delegation was revoked''
    (require (capability_id child \<notin> set (rc_revoked R)) DelegationRejected ''the child capability was revoked''
    (Inr \<lparr>vd_principal = pk_principal k, vd_delegatee = rc_key_id R, vd_scope = effective_scope info, vd_chain = info,
       vd_mandate_id = capability_id mandate, vd_child_id = capability_id child, vd_digest = cap_digest child\<rparr>))))))))))))))))"

text \<open>The moment of the check, with the clock \<open>tick\<close>.\<close>

definition receive_moment :: "int \<Rightarrow> datetime option \<Rightarrow> int" where
  "receive_moment tick now = (case now of None \<Rightarrow> tick | Some t \<Rightarrow> as_utc t)"

definition receive_delegation :: "prims \<Rightarrow> a2a_lib \<Rightarrow> receiver \<Rightarrow> int \<Rightarrow> datetime option \<Rightarrow> package_arg \<Rightarrow> verified_delegation res" where
  "receive_delegation P A R tick now v =
     rbind (case v of Package k \<Rightarrow> Inr k
       | RawPackage j \<Rightarrow> rbind (of_option DelegationRejected ''delegation package malformed'' (lib_package A j)) (\<lambda>k.
           require (package_ok k) DelegationRejected ''delegation package malformed'' (Inr k)))
     (receive_package P A R (receive_moment tick now))"

end
