(* ===== verification/A2a_Properties.thy ===== *)
theory A2a_Properties
  imports A2a Delegation_Properties Capability
begin

text \<open>
  What the agent-to-agent layer guarantees: an accepted package rests on a verified chain whose every hop allows the
  effect, a mandate of an authority and a child that the delegator signed for the receiver; an honest package is
  accepted; and an accepted card carries a guardian's signature over its anchor section, which says nothing of the agent.
\<close>

section \<open>What the receiver accepts\<close>

definition verifier_of :: "a2a_lib \<Rightarrow> receiver \<Rightarrow> int \<Rightarrow> verifier" where
  "verifier_of A R t = \<lparr>read_receipt = lib_receipt A, trusted_authority = rc_authorities R, registry = rc_registry R, moment = t\<rparr>"

text \<open>The evidence in a package: the chain and its summary, the leaf receipt, the mandate under the keys of the authorities, and
  the child under the key of the leaf's delegator.\<close>

definition chain_evidence :: "prims \<Rightarrow> a2a_lib \<Rightarrow> receiver \<Rightarrow> int \<Rightarrow> package \<Rightarrow> signed_envelope list \<Rightarrow> verified_chain \<Rightarrow> receipt \<Rightarrow> bool" where
  "chain_evidence P A R t k envs info leaf \<longleftrightarrow> read_chain A (pk_chain k) = Inr envs \<and>
     verify_chain P (verifier_of A R t) envs = Inr info \<and> lib_receipt A (payload (last envs)) = Some leaf \<and>
     delegatee leaf = rc_key_id R \<and> pk_delegatee k = rc_key_id R"

definition capability_evidence :: "prims \<Rightarrow> a2a_lib \<Rightarrow> receiver \<Rightarrow> int \<Rightarrow> package \<Rightarrow> receipt \<Rightarrow> cap_payload \<Rightarrow> cap_payload \<Rightarrow> bool" where
  "capability_evidence P A R t k leaf mandate child \<longleftrightarrow>
     (\<exists>trusted raw key kid. authority_keys P (rc_registry R) (rc_authorities R) Map.empty = Inr trusted \<and>
        hex_capability P A (pk_mandate k) trusted t = Inr mandate \<and> kind mandate = kind_mandate \<and>
        rc_registry R (delegator leaf) = Some raw \<and> coerce_pubkey P raw = Inr key \<and> holder_pubkey mandate = key \<and>
        utf8_encode (delegator leaf) = Inr kid \<and> hex_capability P A (pk_child k) [kid \<mapsto> key] t = Inr child) \<and>
     kind child = kind_execution \<and> parent_capability_id child = Some (capability_id mandate) \<and>
     cap_digest child = cap_digest mandate \<and> holder_pubkey child = rc_key R \<and>
     capability_id mandate \<notin> set (rc_revoked R) \<and> capability_id child \<notin> set (rc_revoked R)"

definition effect_evidence :: "prims \<Rightarrow> a2a_lib \<Rightarrow> package \<Rightarrow> verified_chain \<Rightarrow> cap_payload \<Rightarrow> action_envelope \<Rightarrow> bool" where
  "effect_evidence P A k info child e \<longleftrightarrow> lib_envelope A (pk_envelope k) = Some e \<and>
     action_digest P e = Inr (pk_digest k) \<and> pk_digest k = cap_digest child \<and>
     scope_allows (effective_scope info) (verb (effect e)) (target (effect e))"

definition delegation_of :: "receiver \<Rightarrow> package \<Rightarrow> verified_chain \<Rightarrow> cap_payload \<Rightarrow> cap_payload \<Rightarrow> verified_delegation" where
  "delegation_of R k info mandate child = \<lparr>vd_principal = pk_principal k, vd_delegatee = rc_key_id R,
     vd_scope = effective_scope info, vd_chain = info, vd_mandate_id = capability_id mandate,
     vd_child_id = capability_id child, vd_digest = cap_digest child\<rparr>"

lemma delegated_child_eq: "delegated_child P A R t leaf mandate h = Inr child \<longleftrightarrow>
    (\<exists>raw key kid. rc_registry R (delegator leaf) = Some raw \<and> coerce_pubkey P raw = Inr key \<and> holder_pubkey mandate = key \<and>
      utf8_encode (delegator leaf) = Inr kid \<and> hex_capability P A h [kid \<mapsto> key] t = Inr child)"
  by (auto simp: delegated_child_def)

lemma check_child_eq: "check_child R mandate child = Inr u \<longleftrightarrow> kind child = kind_execution \<and>
    parent_capability_id child = Some (capability_id mandate) \<and> cap_digest child = cap_digest mandate \<and> holder_pubkey child = rc_key R"
  by (auto simp: check_child_def)

lemma receive_package_eq: "receive_package P A R t k = Inr d \<longleftrightarrow>
    (\<exists>envs info leaf mandate child e. chain_evidence P A R t k envs info leaf \<and>
       capability_evidence P A R t k leaf mandate child \<and> effect_evidence P A k info child e \<and>
       d = delegation_of R k info mandate child)"
  unfolding receive_package_def rbind_eq_Inr require_eq_Inr of_option_eq_Inr except_eq_Inr delegated_child_eq check_child_eq
    chain_evidence_def capability_evidence_def effect_evidence_def delegation_of_def verifier_of_def
  by (safe; (simp; fail)?; blast)

lemma authority_keys_source:
  "authority_keys P reg ks m = Inr m' \<Longrightarrow> m' kid = Some key \<Longrightarrow>
    m kid = Some key \<or> (\<exists>k \<in> set ks. utf8_encode k = Inr kid \<and> (\<exists>raw. reg k = Some raw \<and> coerce_pubkey P raw = Inr key))"
proof (induction ks arbitrary: m)
  case (Cons k ks)
  then obtain raw kid' key' where k: "reg k = Some raw" "utf8_encode k = Inr kid'" "coerce_pubkey P raw = Inr key'"
    "authority_keys P reg ks (m(kid' \<mapsto> key')) = Inr m'" by auto
  from Cons.IH [OF k(4) Cons.prems(2)] k(1-3) show ?case by (auto split: if_splits)
qed simp

text \<open>A capability that verifies under a set of keys verifies under the one its message names.\<close>

lemma verify_capability_key:
  assumes "verify_capability P rd v trusted t = Inr p"
  obtains kid key where "trusted kid = Some key" "verify_capability P rd v [kid \<mapsto> key] t = Inr p"
proof -
  obtain m raw kid rm where m: "v = PBytes m" "cose_authentic P m trusted [] raw kid" "cbor_loads raw = Inr rm"
    "rd rm = Some p" "well_formed p" "in_window P t p" using assms by (auto simp: verify_capability_eq)
  then obtain key where k: "trusted kid = Some key" by (auto simp: cose_authentic_def)
  have "cose_authentic P m [kid \<mapsto> key] [] raw kid" using m(2) k unfolding cose_authentic_def by simp
  with m have "verify_capability P rd v [kid \<mapsto> key] t = Inr p" by (auto simp: verify_capability_eq)
  with k show thesis by (rule that)
qed

text \<open>C9: an accepted delegation is backed. The package it was read from carries a chain that verifies for the trusted
  authorities, addressed to the receiver; a mandate signed by one of those authorities, held by the leaf's delegator; and an execution
  capability that this delegator signed, which names the mandate as its parent, has its action digest and is held by the
  receiver's key. The digest is that of the envelope, whose effect every hop of the chain allows, and neither capability is revoked.\<close>

theorem accepted_delegation_backed:
  assumes "receive_delegation P A R tick now v = Inr d"
    and t: "t = receive_moment tick now"
  shows "\<exists>k envs rs hs leaf mandate child e. (v = Package k \<or> (\<exists>j. v = RawPackage j \<and> lib_package A j = Some k)) \<and>
    chain_evidence P A R t k envs (vd_chain d) leaf \<and> legit_chain P (verifier_of A R t) envs rs hs \<and> last rs = leaf \<and>
    (\<exists>name \<in> set (rc_authorities R). \<exists>kid raw key b. utf8_encode name = Inr kid \<and> rc_registry R name = Some raw \<and>
       coerce_pubkey P raw = Inr key \<and> from_hex (pk_mandate k) = Some b \<and>
       verify_capability P (lib_payload A) (PBytes b) [kid \<mapsto> key] t = Inr mandate) \<and>
    capability_evidence P A R t k leaf mandate child \<and> effect_evidence P A k (vd_chain d) child e \<and>
    (\<forall>r \<in> set rs. scope_allows (d_scope r) (verb (effect e)) (target (effect e))) \<and>
    d = delegation_of R k (vd_chain d) mandate child"
proof -
  obtain k where k: "v = Package k \<or> (\<exists>j. v = RawPackage j \<and> lib_package A j = Some k)" "receive_package P A R t k = Inr d"
    using assms(1) t by (auto simp: receive_delegation_def split: package_arg.splits)
  from k(2) obtain envs info leaf mandate child e where ev: "chain_evidence P A R t k envs info leaf"
    "capability_evidence P A R t k leaf mandate child" "effect_evidence P A k info child e"
    "d = delegation_of R k info mandate child" unfolding receive_package_eq by blast
  have info: "vd_chain d = info" by (simp add: ev(4) delegation_of_def)
  from ev(1) have "verify_chain P (verifier_of A R t) envs = Inr info" by (simp add: chain_evidence_def)
  then obtain rs hs where l: "legit_chain P (verifier_of A R t) envs rs hs" "info = summary rs hs" "envs \<noteq> []"
    using verify_chain_ok by blast
  have leaf: "last rs = leaf"
  proof -
    have "length rs = length envs" "receipt_ok P (verifier_of A R t) (envs ! (length envs - 1)) (rs ! (length envs - 1)) (hs ! (length envs - 1))"
      using l(1,3) by (auto simp: legit_chain_def)
    moreover from this(1) l(3) have "rs \<noteq> []" by auto
    ultimately have "lib_receipt A (payload (last envs)) = Some (last rs)"
      using l(3) by (auto simp: receipt_ok_def verifier_of_def last_conv_nth)
    with ev(1) show ?thesis by (simp add: chain_evidence_def)
  qed
  have hops: "\<forall>r \<in> set rs. scope_allows (d_scope r) (verb (effect e)) (target (effect e))"
  proof
    fix r assume "r \<in> set rs"
    from delegation.within_permits [OF legit_chain_scopes [OF l(1) this]] ev(3) l(2)
    show "scope_allows (d_scope r) (verb (effect e)) (target (effect e))" by (auto simp: effect_evidence_def summary_def)
  qed
  from ev(2) obtain trusted b where b: "authority_keys P (rc_registry R) (rc_authorities R) Map.empty = Inr trusted"
    "from_hex (pk_mandate k) = Some b" "verify_capability P (lib_payload A) (PBytes b) trusted t = Inr mandate"
    by (auto simp: capability_evidence_def hex_capability_def)
  from b(3) obtain kid key where key: "trusted kid = Some key" "verify_capability P (lib_payload A) (PBytes b) [kid \<mapsto> key] t = Inr mandate"
    by (rule verify_capability_key)
  from authority_keys_source [OF b(1) key(1)] key(2) b(2)
  have auth: "\<exists>name \<in> set (rc_authorities R). \<exists>kid raw key b. utf8_encode name = Inr kid \<and> rc_registry R name = Some raw \<and>
       coerce_pubkey P raw = Inr key \<and> from_hex (pk_mandate k) = Some b \<and>
       verify_capability P (lib_payload A) (PBytes b) [kid \<mapsto> key] t = Inr mandate" by auto
  show ?thesis unfolding info
    by (rule exI, rule exI, rule exI, rule exI, rule exI, rule exI, rule exI, rule exI, intro conjI)
      (rule k(1), rule ev(1), rule l(1), rule leaf, rule auth, rule ev(2), rule ev(3), rule hops, rule ev(4))
qed

section \<open>An honest package is accepted\<close>

lemma minted_child_verifies:
  assumes "prims_ok P" "signer_ok P sg" "pydantic_ok rd" "utf8_encode (key_id sg) = Inr kid"
    and "mint_child P rd fr v sg trusted \<lparr>m_holder = PBytes h, m_spend_limit = opt_val PInt lim, m_spend_asset = PNone,
      m_ttl = Some ttl, m_staleness = None, m_now = Some (Aware now 0)\<rparr> = Inr m"
    and "fresh_id fr \<noteq> []" "fresh_nonce fr \<noteq> []" "0 < ttl" "now \<le> t + seconds future_issuance_skew_s" "t \<le> now + ttl"
  obtains parent c where "verify_capability P rd v trusted now = Inr parent" "kind c = kind_execution"
    "parent_capability_id c = Some (capability_id parent)" "cap_digest c = cap_digest parent" "holder_pubkey c = h"
    "capability_id c = fresh_id fr" "verify_capability P rd (PBytes m) [kid \<mapsto> public_key_bytes sg] t = Inr c"
proof -
  let ?a = "\<lparr>m_holder = PBytes h, m_spend_limit = opt_val PInt lim, m_spend_asset = PNone,
      m_ttl = Some ttl, m_staleness = None, m_now = Some (Aware now 0)\<rparr>"
  obtain parent c where p: "verify_capability P rd v trusted now = Inr parent" "child_payload P fr ?a parent = Inr c"
    "sign_capability c sg = Inr m" using assms(5) by (auto simp: mint_child_def now_or_clock_def)
  let ?limit = "or_default (opt_val PInt lim) (opt_val PInt (spend_limit parent))"
  let ?asset = "opt_val PStr (spend_asset parent)"
  from p(2) have c: "check_spend ?limit ?asset = Inr ()" "length h = 32" "\<exists>bound. parse_iso P (expires_at parent) = Inr bound"
    "c = \<lparr>version = capability_version, capability_id = fresh_id fr, kind = kind_execution,
       cap_digest = cap_digest parent, holder_pubkey = h, spend_limit = val_int ?limit, spend_asset = val_str ?asset,
       cap_issued_at = isoformat P now, expires_at = isoformat P (now + ttl),
       cap_nonce = fresh_nonce fr, parent_capability_id = Some (capability_id parent),
       max_revocation_staleness = max_revocation_staleness parent, read_key_prefix = None, read_trusted_writers = None,
       read_min_version = None, read_require_statement = False\<rparr>"
    unfolding child_payload_def Let_def require_eq_Inr rbind_eq_Inr if_raise_eq_Inr
    by (auto simp: or_default_def [of PNone] check_pubkey_eq now_or_clock_def dest!: dt_add_eq_Inr)
  have lim: "?limit = opt_val PInt (if lim = None then spend_limit parent else lim)"
    by (cases lim) (simp_all add: or_default_def)
  have wp: "well_formed parent" using p(1) by (auto simp: verify_capability_eq)
  have "well_formed c" using wp c(1,2) assms(6,7) unfolding c(4) lim
    by (auto simp: well_formed_def check_spend_typed kinds_def)
  moreover have "in_window P t c" using assms(1,8-10) by (simp add: c(4) in_window_def prims_ok_def)
  ultimately have "verify_capability P rd (PBytes m) [kid \<mapsto> public_key_bytes sg] t = Inr c"
    using verify_sign_capability [where trusted = "[kid \<mapsto> public_key_bytes sg]", OF assms(2-4) _ p(3)] by simp
  then show thesis using c(4) by (intro that [OF p(1)]) simp_all
qed

text \<open>One message has one payload, whenever it is verified.\<close>

lemma capability_of_message:
  assumes "verify_capability P rd v trusted t = Inr p" "verify_capability P rd v trusted' t' = Inr p'" shows "p' = p"
  using assms by (auto simp: verify_capability_eq cose_authentic_def)

lemma read_chain_back: "\<forall>e \<in> set es. lib_signed A (envelope_json e) = Some e \<Longrightarrow> read_chain A (map envelope_json es) = Inr es"
  by (induction es) auto

text \<open>C32: an honest delegation is accepted. If the package that \<^verbatim>\<open>propagate_delegation\<close> builds reaches the
  addressed receiver while its chain, the mandate and the child are valid, the leaf of the chain names the holder of the mandate as delegator and
  the receiver as delegatee, the chain allows the effect and neither capability is revoked, then the receiver accepts it, with the
  scope of the chain and the child that was minted.\<close>

theorem honest_delegation_accepted:
  assumes "prims_ok P" "signer_ok P holder" "pydantic_ok (lib_payload A)"
    and "propagate_delegation P A fr holder trusted a = Inr k"
    and "\<forall>e \<in> set (ga_chain a). lib_signed A (envelope_json e) = Some e"
    and "lib_envelope A (action_envelope_json P (ga_envelope a)) = Some (ga_envelope a)"
    and "verify_chain P (verifier_of A R t) (ga_chain a) = Inr info" "lib_receipt A (payload (last (ga_chain a))) = Some leaf"
    and "delegatee leaf = rc_key_id R" "ga_delegatee a = rc_key_id R" "ga_delegatee_key a = rc_key R"
    and "delegator leaf = key_id holder" "utf8_encode (key_id holder) = Inr kid"
    and "rc_registry R (key_id holder) = Some (KeyBytes (public_key_bytes holder))"
    and "authority_keys P (rc_registry R) (rc_authorities R) Map.empty = Inr trusted"
    and "verify_capability P (lib_payload A) (PBytes (ga_mandate a)) trusted t = Inr mandate"
    and "fresh_id fr \<noteq> []" "fresh_nonce fr \<noteq> []" "0 < ga_ttl a"
    and "now_or_clock fr (ga_now a) \<le> t + seconds future_issuance_skew_s" "t \<le> now_or_clock fr (ga_now a) + ga_ttl a"
    and "scope_allows (effective_scope info) (verb (effect (ga_envelope a))) (target (effect (ga_envelope a)))"
    and "capability_id mandate \<notin> set (rc_revoked R)" "fresh_id fr \<notin> set (rc_revoked R)"
  shows "\<exists>d. receive_delegation P A R tick (Some (Aware t 0)) (Package k) = Inr d \<and> vd_principal d = ga_principal a \<and> vd_chain d = info \<and>
    vd_mandate_id d = capability_id mandate \<and> vd_child_id d = fresh_id fr \<and>
    action_digest P (ga_envelope a) = Inr (vd_digest d)"
proof -
  let ?now = "now_or_clock fr (ga_now a)"
  obtain m child where m: "verify_capability P (lib_payload A) (PBytes (ga_mandate a)) trusted ?now = Inr m"
    "kind m = kind_mandate" "holder_pubkey m = public_key_bytes holder" "action_digest P (ga_envelope a) = Inr (cap_digest m)"
    and mint: "mint_child P (lib_payload A) fr (PBytes (ga_mandate a)) holder trusted
           \<lparr>m_holder = PBytes (ga_delegatee_key a), m_spend_limit = opt_val PInt (ga_spend_limit a), m_spend_asset = PNone,
            m_ttl = Some (ga_ttl a), m_staleness = None, m_now = Some (Aware ?now 0)\<rparr> = Inr child"
    and k: "k = \<lparr>pk_principal = ga_principal a, pk_delegatee = ga_delegatee a, pk_chain = map envelope_json (ga_chain a),
           pk_mandate = to_hex (ga_mandate a), pk_child = to_hex child, pk_envelope = action_envelope_json P (ga_envelope a),
           pk_digest = cap_digest m, pk_at = ?now\<rparr>"
    using assms(4) unfolding propagate_delegation_def Let_def require_eq_Inr rbind_eq_Inr except_eq_Inr by auto
  have mm: "m = mandate" by (rule capability_of_message [OF assms(16) m(1)])
  obtain parent c where c: "verify_capability P (lib_payload A) (PBytes (ga_mandate a)) trusted ?now = Inr parent"
    "kind c = kind_execution" "parent_capability_id c = Some (capability_id parent)" "cap_digest c = cap_digest parent"
    "holder_pubkey c = ga_delegatee_key a" "capability_id c = fresh_id fr"
    "verify_capability P (lib_payload A) (PBytes child) [kid \<mapsto> public_key_bytes holder] t = Inr c"
    by (rule minted_child_verifies [OF assms(1-3) assms(13) mint assms(17-21)])
  have "parent = mandate" using c(1) m(1) mm by simp
  have len: "length (public_key_bytes holder) = 32" using assms(2) by (simp add: signer_ok_def)
  have "chain_evidence P A R t k (ga_chain a) info leaf"
    using assms(7-10) read_chain_back [OF assms(5)] by (simp add: chain_evidence_def k)
  moreover have "capability_evidence P A R t k leaf mandate c"
    using assms(11-16,23,24) m(2,3) mm c \<open>parent = mandate\<close> len
    by (auto simp: capability_evidence_def hex_capability_def coerce_pubkey_def k)
  moreover have "effect_evidence P A k info c (ga_envelope a)"
    using assms(6,22) m(4) mm c(4) \<open>parent = mandate\<close> by (simp add: effect_evidence_def k)
  ultimately have "receive_package P A R t k = Inr (delegation_of R k info mandate c)"
    unfolding receive_package_eq by blast
  then show ?thesis using m(4) mm c(4,6) \<open>parent = mandate\<close>
    by (simp add: receive_delegation_def receive_moment_def delegation_of_def k)
qed

section \<open>A concrete delegation\<close>

definition demo_signed_reader :: "json \<Rightarrow> signed_envelope option" where
  "demo_signed_reader j = (case j of JObj d \<Rightarrow> Some \<lparr>alg = text_at d ''alg'', env_key_id = text_at d ''key_id'',
       payload = (case map_of d (py ''payload'') of Some v \<Rightarrow> (case v of JObj p \<Rightarrow> p | _ \<Rightarrow> []) | None \<Rightarrow> []),
       signature = text_at d ''signature''\<rparr> | _ \<Rightarrow> None)"

definition demo_effect_reader :: "json \<Rightarrow> effect" where
  "demo_effect_reader j = (case j of JObj d \<Rightarrow> \<lparr>plane = text_at d ''plane'', verb = text_at d ''verb'',
       target = text_at d ''target'', args_digest = text_at d ''args_digest''\<rparr>
     | _ \<Rightarrow> \<lparr>plane = [], verb = [], target = [], args_digest = []\<rparr>)"

definition demo_envelope_reader :: "json \<Rightarrow> action_envelope option" where
  "demo_envelope_reader j = (case j of JObj d \<Rightarrow> Some \<lparr>action_id = text_at d ''action_id'', principal = text_at d ''principal'',
       effect = demo_effect_reader (case map_of d (py ''effect'') of Some v \<Rightarrow> v | None \<Rightarrow> JNull),
       policy_ref = text_at d ''policy_ref'', issued_at = text_int (text_at d ''issued_at''),
       not_before = text_int (text_at d ''not_before''), not_after = text_int (text_at d ''not_after''), nonce = text_at d ''nonce''\<rparr>
     | _ \<Rightarrow> None)"

definition demo_a2a_lib :: a2a_lib where
  "demo_a2a_lib = \<lparr>lib_package = (\<lambda>j. None), lib_signed = demo_signed_reader, lib_receipt = (\<lambda>d. Some (demo_read d)),
     lib_envelope = demo_envelope_reader, lib_payload = read_cap\<rparr>"

lemma demo_readers: "lib_signed demo_a2a_lib (envelope_json env) = Some env"
    "lib_envelope demo_a2a_lib (action_envelope_json demo_prims e) = Some e" "pydantic_ok (lib_payload demo_a2a_lib)"
proof -
  have "dt_json demo_prims = int_text" by (simp add: demo_prims_def)
  then show "lib_envelope demo_a2a_lib (action_envelope_json demo_prims e) = Some e"
    by (simp add: demo_a2a_lib_def demo_envelope_reader_def action_envelope_json_def text_at_def demo_effect_reader_def action_effect_json_def)
  show "lib_signed demo_a2a_lib (envelope_json env) = Some env"
    by (simp add: demo_a2a_lib_def demo_signed_reader_def envelope_json_def text_at_def)
qed (simp add: demo_a2a_lib_def read_cap_ok)

definition demo_receiver :: receiver where
  "demo_receiver = \<lparr>rc_authorities = [py ''a''], rc_registry = registry demo_verifier, rc_key_id = py ''b'',
     rc_key = replicate 32 2, rc_revoked = []\<rparr>"

lemma demo_verifier_of: "verifier_of demo_a2a_lib demo_receiver 5 = demo_verifier"
  by (simp add: verifier_of_def demo_a2a_lib_def demo_receiver_def demo_verifier_def)

definition demo_sent :: action_envelope where
  "demo_sent = \<lparr>action_id = py ''id'', principal = py ''agent'', effect = \<lparr>plane = py ''a2a'', verb = py ''read'',
     target = py ''ws'', args_digest = py ''00''\<rparr>, policy_ref = py ''p'', issued_at = 0, not_before = 0, not_after = 60, nonce = py ''n''\<rparr>"

lemma demo_sent_digest: "\<exists>d. action_digest demo_prims demo_sent = Inr d \<and> text_ok d \<and> length d = 64 \<and> from_hex d \<noteq> None"
proof -
  have "dt_json demo_prims = int_text" by (simp add: demo_prims_def)
  then have "\<exists>b. envelope_bytes demo_prims demo_sent = Inr b"
    using cbor_dumps_total [of "envelope_dump demo_prims demo_sent"] length_int_text [of 0] length_int_text [of 60]
    by (auto simp: envelope_bytes_def envelope_dump_def effect_dump_def demo_sent_def)
  then obtain b where b: "envelope_bytes demo_prims demo_sent = Inr b" by blast
  have "length (sha256 demo_prims b) = 32" using demo_prims_ok(1) by (simp add: prims_ok_def)
  with b show ?thesis by (simp add: action_digest_def del: to_hex.simps)
qed

text \<open>The mandate of the authority \<^verbatim>\<open>a\<close>, held by its own key.\<close>

definition demo_mandate_for :: "pystr \<Rightarrow> cap_payload" where
  "demo_mandate_for d = (demo_payload kind_mandate)\<lparr>cap_digest := d, holder_pubkey := replicate 32 1\<rparr>"

definition demo_child_for :: "pystr \<Rightarrow> int \<Rightarrow> cap_payload" where
  "demo_child_for d n = (demo_payload kind_execution)\<lparr>capability_id := py ''cap-2'', cap_digest := d, spend_limit := Some n,
     cap_issued_at := int_text 5, expires_at := int_text (5 + seconds 600), holder_pubkey := replicate 32 2,
     parent_capability_id := Some (py ''cap-1'')\<rparr>"

lemma demo_a_signs: "cap_small p \<Longrightarrow> \<exists>m. sign_capability p (toy_signer ''a'' 1) = Inr m"
  using sign_capability_total [of p toy "toy_signer ''a'' 1" "[97]"] by (simp add: utf8_char_def b8_def py_def)

lemma demo_a_kid: "utf8_encode (key_id (toy_signer ''a'' 1)) = Inr [97]" "utf8_encode (py ''a'') = Inr [97]"
  by (simp_all add: utf8_char_def b8_def py_def)

lemma demo_small_for:
  assumes "text_ok d" "length d = 64" "n = 40 \<or> n = 1000"
  shows "cap_small (demo_mandate_for d)" "cap_small (demo_child_for d n)"
  using assms length_int_text [of 0] length_int_text [of 3600000000] length_int_text [of 5]
    length_int_text [of 600000005]
  by (auto simp: cap_small_def demo_mandate_for_def demo_child_for_def demo_payload_def payload_dump_def
      kind_mandate_def kind_execution_def simp del: to_hex.simps)

lemma demo_good_for:
  assumes "length d = 64" "from_hex d \<noteq> None" "0 \<le> n"
  shows "well_formed (demo_mandate_for d)" "well_formed (demo_child_for d n)" "in_window demo_prims 5 (demo_mandate_for d)"
    "in_window demo_prims 5 (demo_child_for d n)"
proof -
  have "fromisoformat demo_prims s = Some (Aware (text_int s) 0)" for s by (simp add: demo_prims_def)
  then show "in_window demo_prims 5 (demo_mandate_for d)" "in_window demo_prims 5 (demo_child_for d n)"
    by (simp_all add: in_window_def demo_mandate_for_def demo_child_for_def demo_payload_def future_issuance_skew_s_def)
  show "well_formed (demo_mandate_for d)" "well_formed (demo_child_for d n)" using assms
    by (auto simp: well_formed_def demo_mandate_for_def demo_child_for_def demo_payload_def capability_version_def kinds_def)
qed

lemma demo_authority_keys: "authority_keys demo_prims (rc_registry demo_receiver) (rc_authorities demo_receiver) Map.empty =
    Inr [[97] \<mapsto> replicate 32 1]"
  by (simp add: demo_receiver_def demo_verifier_def demo_a_kid coerce_pubkey_def)

lemma demo_a_verify:
  assumes "sign_capability p (toy_signer ''a'' 1) = Inr m" "well_formed p" "in_window demo_prims 5 p"
  shows "verify_capability demo_prims (lib_payload demo_a2a_lib) (PBytes m) [[97] \<mapsto> replicate 32 1] 5 = Inr p"
  using verify_sign_capability [where P = demo_prims and trusted = "[[97] \<mapsto> replicate 32 1]", OF demo_prims_ok(2) demo_readers(3) demo_a_kid(1) _ assms(1)]
    assms(2,3) by simp

lemma verified_message_nonempty: "verify_capability P rd (PBytes m) trusted t = Inr p \<Longrightarrow> m \<noteq> []"
proof -
  have "cbor_loads [] \<noteq> Inr v" for v by (simp add: cbor_loads_def read_head_def read_def)
  then show "verify_capability P rd (PBytes m) trusted t = Inr p \<Longrightarrow> m \<noteq> []"
    by (auto simp: verify_capability_eq cose_authentic_def)
qed

lemma demo_fields [simp]: "rc_key_id demo_receiver = py ''b''" "rc_key demo_receiver = replicate 32 2" "rc_revoked demo_receiver = []"
    "rc_registry demo_receiver (py ''a'') = Some (KeyBytes (replicate 32 1))"
    "delegatee demo_receipt = py ''b''" "delegator demo_receipt = py ''a''"
  by (simp_all add: demo_receiver_def demo_receipt_def demo_verifier_def del: replicate.simps)

text \<open>The demo chain: one root receipt from \<^verbatim>\<open>a\<close> to \<^verbatim>\<open>b\<close>.\<close>

lemma demo_chain_info: "\<exists>env info. verify_chain demo_prims (verifier_of demo_a2a_lib demo_receiver 5) [env] = Inr info \<and>
    lib_receipt demo_a2a_lib (payload env) = Some demo_receipt \<and> effective_scope info = demo_scope"
proof -
  obtain env where l: "legit_chain demo_prims demo_verifier [env] [demo_receipt] [to_hex (replicate 32 97)]"
    using demo_root by blast
  then have "verify_chain demo_prims demo_verifier [env] = Inr (summary [demo_receipt] [to_hex (replicate 32 97)])"
    using verify_chain_ok by blast
  moreover have "read_receipt demo_verifier (payload env) = Some demo_receipt" using l by (auto simp: legit_chain_def receipt_ok_def)
  then have "lib_receipt demo_a2a_lib (payload env) = Some demo_receipt" by (simp add: demo_a2a_lib_def demo_verifier_def)
  ultimately show ?thesis
    by (intro exI conjI, simp only: demo_verifier_of) (simp_all add: summary_def demo_receipt_def)
qed

definition demo_propagate :: "signed_envelope \<Rightarrow> bytes \<Rightarrow> propagate_args" where
  "demo_propagate env m = \<lparr>ga_principal = py ''p'', ga_chain = [env], ga_mandate = m, ga_delegatee = py ''b'',
     ga_delegatee_key = replicate 32 2, ga_envelope = demo_sent, ga_spend_limit = Some 40, ga_ttl = seconds 600,
     ga_now = Some (Aware 5 0)\<rparr>"

lemma demo_propagate_fields [simp]: "ga_principal (demo_propagate env m) = py ''p''" "ga_chain (demo_propagate env m) = [env]"
    "ga_mandate (demo_propagate env m) = m" "ga_delegatee (demo_propagate env m) = py ''b''"
    "ga_delegatee_key (demo_propagate env m) = replicate 32 2" "ga_envelope (demo_propagate env m) = demo_sent"
    "ga_spend_limit (demo_propagate env m) = Some 40" "ga_ttl (demo_propagate env m) = seconds 600"
    "ga_now (demo_propagate env m) = Some (Aware 5 0)" for env m
  by (simp_all add: demo_propagate_def)

definition demo_a2a_fresh :: fresh where
  "demo_a2a_fresh = \<lparr>clock = 5, fresh_id = py ''cap-2'', fresh_nonce = py ''nonce-1''\<rparr>"

lemma demo_scope_allows: "scope_allows demo_scope (verb (effect demo_sent)) (target (effect demo_sent))"
  by (simp add: scope_allows_def demo_scope_def demo_sent_def)

theorem honest_delegation_accepted_witness:
  "\<exists>env m k d. propagate_delegation demo_prims demo_a2a_lib demo_a2a_fresh (toy_signer ''a'' 1) [[97] \<mapsto> replicate 32 1]
       (demo_propagate env m) = Inr k \<and>
     receive_delegation demo_prims demo_a2a_lib demo_receiver 0 (Some (Aware 5 0)) (Package k) = Inr d \<and> vd_child_id d = py ''cap-2'' \<and>
     effective_scope (vd_chain d) = demo_scope"
proof -
  obtain env info where env: "verify_chain demo_prims (verifier_of demo_a2a_lib demo_receiver 5) [env] = Inr info"
    "lib_receipt demo_a2a_lib (payload env) = Some demo_receipt" "effective_scope info = demo_scope" using demo_chain_info by blast
  obtain D where D: "action_digest demo_prims demo_sent = Inr D" "text_ok D" "length D = 64" "from_hex D \<noteq> None"
    using demo_sent_digest by blast
  obtain m c where m: "sign_capability (demo_mandate_for D) (toy_signer ''a'' 1) = Inr m"
    "sign_capability (demo_child_for D 40) (toy_signer ''a'' 1) = Inr c"
    using demo_small_for [OF D(2,3), of 40] demo_a_signs by blast
  have v: "verify_capability demo_prims (lib_payload demo_a2a_lib) (PBytes m) [[97] \<mapsto> replicate 32 1] 5 = Inr (demo_mandate_for D)"
    using demo_good_for [OF D(3,4), of 40] by (intro demo_a_verify [OF m(1)]) simp_all
  let ?a = "\<lparr>m_holder = PBytes (replicate 32 2), m_spend_limit = PInt 40, m_spend_asset = PNone,
    m_ttl = Some (seconds 600), m_staleness = None, m_now = Some (Aware 5 0)\<rparr>"
  have iso: "isoformat demo_prims = int_text" "fromisoformat demo_prims s = Some (Aware (text_int s) 0)" for s
    by (simp_all add: demo_prims_def toy_def)
  have "child_payload demo_prims demo_a2a_fresh ?a (demo_mandate_for D) = Inr (demo_child_for D 40)"
    by (simp add: child_payload_def demo_mandate_for_def demo_child_for_def demo_payload_def demo_a2a_fresh_def or_default_def
        check_spend_def now_or_clock_def parse_iso_def dt_add_def capability_version_def check_pubkey_def iso)
  then have mint: "mint_child demo_prims (lib_payload demo_a2a_lib) demo_a2a_fresh (PBytes m) (toy_signer ''a'' 1) [[97] \<mapsto> replicate 32 1] ?a = Inr c"
    using v m(2) by (simp add: mint_child_def now_or_clock_def)
  have vc: "verify_capability demo_prims (lib_payload demo_a2a_lib) (PBytes c) [[97] \<mapsto> replicate 32 1] 5 = Inr (demo_child_for D 40)"
    using demo_good_for [OF D(3,4), of 40] by (intro demo_a_verify [OF m(2)]) simp_all
  have "m \<noteq> []" "c \<noteq> []" using verified_message_nonempty v vc by blast+
  then obtain k where k: "propagate_delegation demo_prims demo_a2a_lib demo_a2a_fresh (toy_signer ''a'' 1) [[97] \<mapsto> replicate 32 1]
       (demo_propagate env m) = Inr k"
    using v mint D by (simp add: propagate_delegation_def now_or_clock_def demo_mandate_for_def demo_payload_def package_ok_def)
  have "\<exists>d. receive_delegation demo_prims demo_a2a_lib demo_receiver 0 (Some (Aware 5 0)) (Package k) = Inr d \<and> vd_principal d = ga_principal (demo_propagate env m) \<and>
      vd_chain d = info \<and> vd_mandate_id d = capability_id (demo_mandate_for D) \<and> vd_child_id d = fresh_id demo_a2a_fresh \<and>
      action_digest demo_prims (ga_envelope (demo_propagate env m)) = Inr (vd_digest d)"
    by (rule honest_delegation_accepted [where leaf = demo_receipt, OF demo_prims_ok demo_readers(3) k _ _ _ _ _ _ _ _ demo_a_kid(1) _ demo_authority_keys _])
      (use env v demo_scope_allows in \<open>simp_all add: demo_readers
        demo_a2a_fresh_def now_or_clock_def future_issuance_skew_s_def\<close>)
  with k env(3) show ?thesis by (auto simp: demo_a2a_fresh_def)
qed

text \<open>The evidence of a package with a given child, for the demo receiver.\<close>

lemma demo_accepts:
  assumes D: "action_digest demo_prims demo_sent = Inr D" "text_ok D" "length D = 64" "from_hex D \<noteq> None" and n: "n = 40 \<or> n = 1000"
  shows "\<exists>k d. receive_package demo_prims demo_a2a_lib demo_receiver 5 k = Inr d \<and>
    capability_evidence demo_prims demo_a2a_lib demo_receiver 5 k demo_receipt (demo_mandate_for D) (demo_child_for D n)"
proof -
  obtain env info where env: "verify_chain demo_prims (verifier_of demo_a2a_lib demo_receiver 5) [env] = Inr info"
    "lib_receipt demo_a2a_lib (payload env) = Some demo_receipt" "effective_scope info = demo_scope" using demo_chain_info by blast
  obtain m c where m: "sign_capability (demo_mandate_for D) (toy_signer ''a'' 1) = Inr m"
    "sign_capability (demo_child_for D n) (toy_signer ''a'' 1) = Inr c" using demo_small_for [OF D(2,3) n] demo_a_signs by blast
  have good: "well_formed (demo_mandate_for D)" "well_formed (demo_child_for D n)" "in_window demo_prims 5 (demo_mandate_for D)"
    "in_window demo_prims 5 (demo_child_for D n)" using demo_good_for [OF D(3,4), of n] n by auto
  let ?k = "\<lparr>pk_principal = py ''p'', pk_delegatee = py ''b'', pk_chain = [envelope_json env], pk_mandate = to_hex m,
    pk_child = to_hex c, pk_envelope = action_envelope_json demo_prims demo_sent, pk_digest = D, pk_at = 5\<rparr>"
  have "chain_evidence demo_prims demo_a2a_lib demo_receiver 5 ?k [env] info demo_receipt"
    using env by (simp add: chain_evidence_def demo_readers)
  moreover have cap: "capability_evidence demo_prims demo_a2a_lib demo_receiver 5 ?k demo_receipt (demo_mandate_for D) (demo_child_for D n)"
    using demo_a_verify [OF m(1) good(1,3)] demo_a_verify [OF m(2) good(2,4)]
    by (simp add: capability_evidence_def hex_capability_def demo_authority_keys demo_a_kid coerce_pubkey_def)
      (simp add: demo_mandate_for_def demo_child_for_def demo_payload_def)
  moreover have "effect_evidence demo_prims demo_a2a_lib ?k info (demo_child_for D n) demo_sent"
    using D(1) env(3) demo_scope_allows by (simp add: effect_evidence_def demo_readers demo_child_for_def)
  ultimately have "receive_package demo_prims demo_a2a_lib demo_receiver 5 ?k = Inr (delegation_of demo_receiver ?k info (demo_mandate_for D) (demo_child_for D n))"
    unfolding receive_package_eq by blast
  with cap show ?thesis by blast
qed

theorem accepted_delegation_backed_witness:
  "\<exists>k d leaf mandate child. receive_delegation demo_prims demo_a2a_lib demo_receiver 0 (Some (Aware 5 0)) (Package k) = Inr d \<and>
     vd_mandate_id d = capability_id mandate \<and> parent_capability_id child = Some (capability_id mandate) \<and>
     capability_evidence demo_prims demo_a2a_lib demo_receiver 5 k leaf mandate child"
proof -
  obtain D where D: "action_digest demo_prims demo_sent = Inr D" "text_ok D" "length D = 64" "from_hex D \<noteq> None"
    using demo_sent_digest by blast
  from demo_accepts [OF D disjI1 [OF refl]] obtain k d where "receive_package demo_prims demo_a2a_lib demo_receiver 5 k = Inr d" by blast
  then have r: "receive_delegation demo_prims demo_a2a_lib demo_receiver 0 (Some (Aware 5 0)) (Package k) = Inr d" by (simp add: receive_delegation_def receive_moment_def)
  from accepted_delegation_backed [where t = 5, OF r] obtain info envs leaf mandate child where
    c: "chain_evidence demo_prims demo_a2a_lib demo_receiver 5 k envs info leaf"
    "capability_evidence demo_prims demo_a2a_lib demo_receiver 5 k leaf mandate child"
    "d = delegation_of demo_receiver k (vd_chain d) mandate child" by (auto simp: receive_moment_def)
  from c(3) have "vd_mandate_id d = capability_id mandate" by (metis delegation_of_def verified_delegation.select_convs(5))
  moreover from c(2) have "parent_capability_id child = Some (capability_id mandate)" by (simp add: capability_evidence_def)
  ultimately show ?thesis using r c(2) by blast
qed

section \<open>What the receiver does not check\<close>

text \<open>The limits of the child are not compared with those of the mandate: a delegator that signs a child itself, instead of minting
  it, raises the spend limit, and the package is accepted.\<close>

lemma amplified_child_accepted:
  "\<exists>k d mandate child. receive_package demo_prims demo_a2a_lib demo_receiver 5 k = Inr d \<and>
     capability_evidence demo_prims demo_a2a_lib demo_receiver 5 k demo_receipt mandate child \<and>
     spend_limit mandate = Some 100 \<and> spend_limit child = Some 1000"
proof -
  obtain D where D: "action_digest demo_prims demo_sent = Inr D" "text_ok D" "length D = 64" "from_hex D \<noteq> None"
    using demo_sent_digest by blast
  have "spend_limit (demo_mandate_for D) = Some 100" "spend_limit (demo_child_for D 1000) = Some 1000"
    by (simp_all add: demo_mandate_for_def demo_child_for_def demo_payload_def)
  with demo_accepts [OF D disjI2 [OF refl]] show ?thesis by blast
qed

text \<open>Nothing binds the principal: whoever forwards the package names it.\<close>

lemma principal_not_bound:
  assumes "receive_package P A R t k = Inr d"
  shows "receive_package P A R t (k\<lparr>pk_principal := p\<rparr>) = Inr (d\<lparr>vd_principal := p\<rparr>)"
  using assms by (fastforce simp: receive_package_eq chain_evidence_def capability_evidence_def effect_evidence_def delegation_of_def)

section \<open>Cards\<close>

text \<open>An anchored card that verifies carries, under the key id of a trusted guardian, a signature by that guardian's key over
  the canonical bytes of its anchor section, which names the key itself and only known planes, each once and in order.\<close>

theorem anchored_card_authentic:
  assumes "verify_anchored_agent_card P C v trusted = Inr c"
  shows "\<exists>d key sig b st. v = JObj d \<and> trusted (an_guardian (ac_anchor c)) = Some key \<and> b64_decode P (an_pubkey (ac_anchor c)) = Some key \<and>
    length key = 32 \<and> map_of d (py ''anchor_signature'') = Some (JStr st) \<and> b64_strict P st = Some sig \<and>
    canonical_bytes P (section_json P (ac_anchor c)) = Inr b \<and> ed_verify P key sig b \<and>
    set (an_planes (ac_anchor c)) \<subseteq> set supported_planes \<and> sorted (an_planes (ac_anchor c)) \<and> distinct (an_planes (ac_anchor c))"
proof -
  have entry: "dict_entry d k = JStr s \<longleftrightarrow> map_of d (py k) = Some (JStr s)" for d k s
    by (simp add: dict_entry_def split: option.splits)
  have planes: "set (an_planes s) \<subseteq> set supported_planes \<and> sorted (an_planes s) \<and> distinct (an_planes s)"
    if "section_of P f = Inr s" for f s
    using that by (auto simp: section_of_def sorted_planes_def)
  from assms show ?thesis unfolding verify_anchored_agent_card_def
    by (fastforce simp: entry public_key_from_b64_def Let_def dest: planes split: json.splits if_splits prod.splits)
qed

text \<open>Pydantic reads a section and a card back from their dumps.\<close>

definition fields_of_section :: "anchor_section \<Rightarrow> anchor_fields" where
  "fields_of_section s = \<lparr>af_guardian = an_guardian s, af_pubkey = an_pubkey s, af_policy = an_policy s, af_planes = an_planes s,
     af_hint = an_hint s, af_issued_at = Aware (an_issued_at s) 0\<rparr>"

definition anchored_reads :: "prims \<Rightarrow> anchored_lib \<Rightarrow> bool" where
  "anchored_reads P C \<longleftrightarrow> (\<forall>s d. JObj d = section_json P s \<longrightarrow> read_section C d = Some (fields_of_section s)) \<and>
     (\<forall>c. read_frame C (anchored_card_dump P c) =
        Some (ac_agent c, ac_did c, ac_capabilities c, ac_schemes c, ac_signature c))"

text \<open>The card that a guardian builds verifies wherever the guardian's key is trusted under its key id, and gives the card back.\<close>

theorem built_anchored_card_verifies:
  assumes "prims_ok P" "signer_ok P guardian" "\<forall>b. b64_strict P (b64_encode P b) = Some b" "anchored_reads P C"
    and "build_anchored_agent_card P guardian a tick = Inr d" "trusted (key_id guardian) = Some (public_key_bytes guardian)"
  shows "\<exists>c. verify_anchored_agent_card P C (JObj d) trusted = Inr c \<and> d = anchored_card_dump P c \<and> ac_agent c = ag_agent a \<and>
    ac_did c = ag_did a \<and> an_policy (ac_anchor c) = ag_policy a \<and> an_planes (ac_anchor c) = sorted_planes (ag_planes a)"
proof -
  define planes where "planes = sorted_planes (ag_planes a)"
  let ?f = "\<lambda>t. \<lparr>af_guardian = key_id guardian, af_pubkey = b64_encode P (public_key_bytes guardian),
       af_policy = ag_policy a, af_planes = planes, af_hint = anchored_decision_verify_hint, af_issued_at = Aware t 0\<rparr>"
  let ?c = "\<lambda>s b. \<lparr>ac_agent = ag_agent a, ac_did = ag_did a,
           ac_capabilities = json_merge (default_capabilities planes (ag_policy a)) (ag_capabilities a),
           ac_schemes = json_merge default_schemes (ag_schemes a), ac_anchor = s,
           ac_signature = b64_encode P (sign_bytes guardian b)\<rparr>"
  obtain t s b where s: "section_of P (?f t) = Inr s" "canonical_bytes P (section_json P s) = Inr b"
    "anchored_card_ok (?c s b)" "d = anchored_card_dump P (?c s b)"
    using assms(5) unfolding build_anchored_agent_card_def Let_def require_eq_Inr rbind_eq_Inr planes_def by auto
  define c where "c = ?c s b"
  have c: "ac_agent c = ag_agent a" "ac_did c = ag_did a" "ac_anchor c = s" "ac_signature c = b64_encode P (sign_bytes guardian b)"
    "anchored_card_ok c" "d = anchored_card_dump P c" using s(3,4) by (simp_all add: c_def)
  have idem: "sorted_planes (sorted_planes ps) = sorted_planes ps" for ps
    by (simp add: sorted_planes_def sorted_sort_id distinct_remdups_id)
  have f: "an_guardian s = key_id guardian" "an_pubkey s = b64_encode P (public_key_bytes guardian)"
    "an_policy s = ag_policy a" "an_planes s = planes" "an_issued_at s = t" "an_hint s = anchored_decision_verify_hint"
    using s(1) by (auto simp: section_of_def aware_utc_def planes_def idem)
  then have "fields_of_section s = ?f t" by (simp add: fields_of_section_def)
  then have sec: "section_of P (fields_of_section s) = Inr s" using s(1) by simp
  obtain sd where sd: "section_json P s = JObj sd" by (simp add: section_json_def)
  have rd: "read_section C sd = Some (fields_of_section s)"
    "read_frame C d = Some (ac_agent c, ac_did c, ac_capabilities c, ac_schemes c, ac_signature c)"
    using assms(4) sd by (simp_all add: anchored_reads_def c(6))
  have en: "dict_entry d ''anchor'' = JObj sd" "dict_entry d ''anchor_signature'' = JStr (ac_signature c)"
    using c(3,6) sd by (simp_all add: dict_entry_def anchored_card_dump_def)
  have key: "public_key_from_b64 P (an_pubkey s) = Inr (public_key_bytes guardian)"
    using assms(1) f(2) by (simp add: public_key_from_b64_def prims_ok_def)
  have "verify_anchored_agent_card P C (JObj d) trusted = Inr c"
    using assms(2,3,6) s(2) sec rd en key f(1) c(3-5)
    by (simp add: verify_anchored_agent_card_def signer_ok_def anchored_card_ok_def)
  then show ?thesis using c f(3,4) by (auto simp: planes_def)
qed

text \<open>The guardian's signature covers the section and nothing else, and the section does not name the agent: the section and the
  signature of an accepted card, put into any other well-formed card, make that card accepted with its own agent, identifier and
  capabilities.\<close>

theorem anchor_section_transplants:
  assumes "verify_anchored_agent_card P C (JObj d) trusted = Inr c"
    and "map_of d' (py ''anchor'') = map_of d (py ''anchor'')" "map_of d' (py ''anchor_signature'') = map_of d (py ''anchor_signature'')"
    and "read_frame C d' = Some (agent, did, caps, schemes, st)" "agent \<noteq> []" "did \<noteq> []" "st \<noteq> []"
  shows "verify_anchored_agent_card P C (JObj d') trusted =
    Inr (c\<lparr>ac_agent := agent, ac_did := did, ac_capabilities := caps, ac_schemes := schemes, ac_signature := st\<rparr>)"
proof -
  have "dict_entry d' ''anchor'' = dict_entry d ''anchor''" "dict_entry d' ''anchor_signature'' = dict_entry d ''anchor_signature''"
    using assms(2,3) by (simp_all add: dict_entry_def)
  with assms(1,4-7) show ?thesis unfolding verify_anchored_agent_card_def rbind_simps rbind_eq_Inr require_eq_Inr
    by (auto simp: anchored_card_ok_def Let_def split: json.splits if_splits prod.splits)
qed

text \<open>Pydantic reads a body back from its dump, and an envelope from its own.\<close>

definition cards_read :: "prims \<Rightarrow> card_lib \<Rightarrow> bool" where
  "cards_read P C \<longleftrightarrow> (\<forall>env d. JObj d = envelope_json env \<longrightarrow> read_signed C d = Some env) \<and>
     (\<forall>b. read_fields C (card_body_dump P b) = Some \<lparr>cf_agent = cb_agent b, cf_did = cb_did b,
        cf_enforcement = cb_enforcement b, cf_issued_at = Aware (cb_issued_at b) 0\<rparr>)"

lemma json_eq_strings: "json_eq_items (map JStr xs) (map JStr xs)"
  by (induction xs) auto

text \<open>The card that an agent signs verifies under its key, when the verifier knows the constitution the card names.\<close>

theorem built_agent_card_verifies:
  assumes "prims_ok P" "signer_ok P sg" "cards_read P C" "build_agent_card P sg a tick = Inr d"
    and "trusted (ca_did a) = Some (public_key_bytes sg)" "case known of None \<Rightarrow> True | Some hs \<Rightarrow> ca_digest a \<in> set hs"
  shows "\<exists>body. verify_agent_card P C d trusted None known = Inr body \<and> cb_agent body = ca_agent a \<and> cb_did body = ca_did a \<and>
    ef_planes (cb_enforcement body) = sorted_planes (ca_planes a) \<and> ef_constitution (cb_enforcement body) = ca_digest a"
proof -
  let ?e = "\<lparr>ef_key = b64_encode P (ca_governor a), ef_planes = sorted_planes (ca_planes a), ef_constitution = ca_digest a,
    ef_hint = decision_verify_hint\<rparr>"
  obtain t body env where b: "declaration_of P ?e = Inr ?e" "set (sorted_planes (ca_planes a)) \<subseteq> set supported_planes"
    "card_body_of P \<lparr>cf_agent = ca_agent a, cf_did = ca_did a, cf_enforcement = ?e, cf_issued_at = Aware t 0\<rparr> = Inr body"
    "sign_payload P sg (card_body_dump P body) = Inr env" "d = card_body_dump P body @ [(py ''signature'', envelope_json env)]"
    using assms(4) unfolding build_agent_card_def Let_def require_eq_Inr rbind_eq_Inr by (auto simp: declaration_of_def)
  have body: "body = \<lparr>cb_agent = ca_agent a, cb_did = ca_did a, cb_enforcement = ?e, cb_issued_at = t\<rparr>" "ca_did a \<noteq> []"
    using b(3) by (auto simp: card_body_of_def aware_utc_def declaration_of_def)
  obtain sd where sd: "envelope_json env = JObj sd" by (simp add: envelope_json_def)
  have v: "verify_envelope P env (public_key_bytes sg) = Inr (card_body_dump P body)"
    by (rule verify_signed_payload [OF assms(1,2) b(4)])
  have rd: "read_signed C sd = Some env" using assms(3) sd by (simp add: cards_read_def)
  have bd: "Option.bind (read_fields C (card_body_dump P body)) (\<lambda>f. Some (card_body_of P f)) = Some (Inr body)"
    using assms(3) b(3) by (simp add: cards_read_def body(1))
  have en: "dict_entry d ''signature'' = JObj sd" "dict_entry d ''did'' = JStr (ca_did a)"
    using sd by (simp_all add: dict_entry_def b(5) card_body_dump_def body(1))
  have "filter (\<lambda>(k, v). k \<noteq> py ''signature'') d = card_body_dump P body" by (simp add: b(5) card_body_dump_def)
  moreover have "json_eq (JObj (card_body_dump P body)) (JObj (card_body_dump P body))"
    by (simp add: card_body_dump_def body(1) declaration_json_def json_eq_strings)
  ultimately have "verify_agent_card P C d trusted None known = Inr body"
    using assms(5,6) rd v bd en body b(2) by (cases known) (auto simp: verify_agent_card_def bind_eq_Some_conv)
  then show ?thesis by (simp add: body(1))
qed

end
