(* ===== verification/Spec2Isabelle.thy ===== *)
theory Spec2Isabelle
  imports Capability Cbor_Properties Envelope_Properties State_Binding Pep Delegation_Properties Planes_Properties Scitt_Properties Scitt_Events Provenance_Properties Evidence_Properties Ots_Properties Checkpoints_Properties Stepup_Properties Policies_Properties Mcp_Properties Shadow_Properties Agents_Properties A2a_Properties
begin

text \<open>
  \<^bold>\<open>ANCHOR v1: a verification development of \<^verbatim>\<open>src/src/anchor_v1\<close>\<close>

  ANCHOR decides what an agent may do and keeps the evidence of what it did. An issuer signs a capability for one exact
  action and one holder key; an enforcement point presents it, with a proof of the holder key, to the capability store,
  which grants it once and within the limits of its mandate; the constitution and the policies behind a decision are
  signed documents; and decisions, reads and executions leave signed records in hash chains, Merkle trees and
  transparency logs. The files below follow the modules of the source. In each module file the definitions stand in the order of the code
  and carry its names; a class is a record of its fields, a method that changes its object is a function that returns
  the record updated, an exception is the left side of \<open>'a res = exn + 'a\<close>, and what the code stores or sends is
  the text or the bytes it would store or send.

  \<^bold>\<open>The layers and their theories\<close>

  Language and library.
  \<^item> \<open>Prelude\<close>: exceptions with their class hierarchy and results (\<open>rbind\<close>, \<open>require\<close>, \<open>except\<close> are sequencing,
    a guard that raises, and an except clause), points in time, the collections of elimination rules.
  \<^item> \<open>Stdlib\<close>, \<open>Floats\<close>, \<open>Json_Python\<close>: byte strings, UTF-8, hexadecimal text, \<^verbatim>\<open>split\<close>,
    \<^verbatim>\<open>fnmatchcase\<close>; doubles as 64 bit words with packing to the narrower formats; Python's operators on decoded JSON.
    \<open>prims\<close> collects the cryptographic primitives.
  \<^item> \<open>Sqlite\<close>: what an \<^verbatim>\<open>int\<close> is bound to in a statement, and the sums of the columns.
  \<^item> \<open>Instances\<close>: one concrete choice of the primitives on which the witnesses evaluate.
  \<^item> \<open>Merkle\<close>, \<open>Hash_Chain\<close>, \<open>Single_Use\<close>, \<open>Narrowing\<close>: the interfaces that several components share (below).

  Encodings and signatures.
  \<^item> \<open>Canonical\<close>, \<open>Canonical_Total\<close>: \<^verbatim>\<open>canonical.py\<close>, \<^verbatim>\<open>models.py\<close>, \<^verbatim>\<open>crypto.py\<close>.
  \<^item> \<open>Cbor\<close>, \<open>Cbor_Roundtrip\<close>, \<open>Cbor_Size\<close>, \<open>Cbor_Python\<close>, \<open>Cbor_Properties\<close>: \<^verbatim>\<open>cbor.py\<close>.
  \<^item> \<open>Cose\<close>: \<^verbatim>\<open>cose.py\<close>. \<open>Envelope\<close>, \<open>Envelope_Properties\<close>: \<^verbatim>\<open>envelope.py\<close>.

  Authority.
  \<^item> \<open>Authority\<close>, \<open>Capability\<close>: \<^verbatim>\<open>authority.py\<close>: issue, verification, minting of attenuated children, holder proofs.
  \<^item> \<open>Store\<close>, \<open>Store_Laws\<close>, \<open>Store_Properties\<close>: \<^verbatim>\<open>store.py\<close>: the tables, consumption, mandates with
    their life cycle and budget, revocation.
  \<^item> \<open>State_Binding\<close>: \<^verbatim>\<open>state_binding.py\<close>. \<open>Pep\<close>: \<^verbatim>\<open>pep.py\<close>: broker, shell and egress proxy.
  \<^item> \<open>Tokens\<close>, \<open>Tokens_Laws\<close>, \<open>Tokens_Properties\<close>: \<^verbatim>\<open>attenuated_tokens.py\<close>.
  \<^item> \<open>Delegation\<close>, \<open>Delegation_Laws\<close>, \<open>Delegation_Properties\<close>: \<^verbatim>\<open>delegation_chains.py\<close>.
  \<^item> \<open>Stepup\<close>, \<open>Webauthn\<close>, \<open>Stepup_Laws\<close>, \<open>Stepup_Properties\<close>: \<^verbatim>\<open>stepup.py\<close>.
  \<^item> \<open>Base58\<close>, \<open>Target_Glob\<close>, \<open>Agents\<close>, \<open>Agents_Properties\<close>: \<^verbatim>\<open>agent_identity.py\<close>.
  \<^item> \<open>A2a_Cards\<close>, \<open>A2a\<close>, \<open>A2a_Properties\<close>: \<^verbatim>\<open>a2a.py\<close>: agent cards, and the delegation packages one agent sends another.

  Decisions.
  \<^item> \<open>Constitution\<close>: \<^verbatim>\<open>multisig_constitution.py\<close>. \<open>Planes\<close>, \<open>Planes_Properties\<close>: \<^verbatim>\<open>planes.py\<close>, the decision core.
  \<^item> \<open>Policy_Values\<close>, \<open>Policies\<close>, \<open>Policies_Properties\<close>: \<^verbatim>\<open>policy_providers.py\<close>: typed conditions and
    the three providers.
  \<^item> \<open>Shadow\<close>, \<open>Shadow_Properties\<close>: \<^verbatim>\<open>shadow_mode.py\<close>.
  \<^item> \<open>Mcp\<close>, \<open>Mcp_Laws\<close>, \<open>Mcp_Properties\<close>: \<^verbatim>\<open>mcp_gateway.py\<close>.

  Evidence.
  \<^item> \<open>Scitt_Tree\<close>, \<open>Scitt\<close>, \<open>Scitt_Laws\<close>, \<open>Scitt_Events\<close>, \<open>Scitt_Properties\<close>: \<^verbatim>\<open>scitt.py\<close>.
  \<^item> \<open>Provenance\<close>, \<open>Provenance_Properties\<close>: \<^verbatim>\<open>provenance.py\<close>.
  \<^item> \<open>Evidence\<close>, \<open>Evidence_Properties\<close>, \<open>Ots_Codec\<close>, \<open>Ots_Laws\<close>, \<open>Ots_Properties\<close>, \<open>Anchors\<close>, \<open>Anchors_Laws\<close>,
    \<open>Checkpoints\<close>, \<open>Checkpoints_Laws\<close>, \<open>Checkpoints_Properties\<close>: \<^verbatim>\<open>anchored_checkpoints.py\<close>.

  \<^bold>\<open>How the components meet\<close>

  Envelopes are CBOR inside COSE; a capability holds the digest of an envelope. The enforcement points of
  \<^verbatim>\<open>pep.py\<close> and \<^verbatim>\<open>mcp_gateway.py\<close> consume from the store before they act; the state-bound commit consumes and
  compares the state it was prepared against. The decision core reads tokens and constitutions and is called by the gateway of
  protocol v0; shadow mode runs the same checks without denying. A read of the document store presents a read
  capability. Governance events become transparency statements, ledger events become leaves of checkpoints, and a
  checkpoint is bound by an anchor. These meetings are function calls in the model as they are in the code.

  \<^bold>\<open>Interfaces\<close>

  \<^item> \<open>item_codec\<close> (encode, then decode, with a rest): the CBOR reader, at every nesting depth.
  \<^item> \<open>hash_tree\<close> (injective leaf and node strings): the tree of the evidence ledger and the tree of SCITT; inclusion
    proofs and roots bind the leaves, or exhibit a collision.
  \<^item> \<open>hash_chain\<close> (each record holds its predecessor's digest): the evidence ledger and the shadow log.
  \<^item> \<open>guarded_use\<close> and its specialisation \<open>single_use\<close> (a granted use was not spent, and is spent after): the capability store, the nonces of the governor
    and of shadow mode, the versions of documents, the signature counts and the challenges of step-up.
  \<^item> \<open>narrowing\<close> and \<open>authority\<close> (an order of grants under which permission is monotone): tokens and delegation scopes.
  \<^item> \<open>policy_provider\<close> (a provider allows exactly what its policy grants, and the entry point turns every failure into a denial) and
    its extension \<open>deciding_provider\<close> (it never abstains, so that everything not granted is denied): Cedar, Rego, native rules.
  \<^item> \<open>enforcement\<close> (each logged effect has a capability the store consumed for it): the shell and the MCP gateway.
  \<^item> \<open>timestamp_anchor\<close> (an issued proof checks for the checkpoints it is bound to, and goes on checking while more proofs are issued): the emulated log and OpenTimestamps.

  \<^bold>\<open>What the lemmas show\<close>

  \<^item> Encodings: the CBOR round trip and canonical form for all values within the format's limits, the inputs on which encoder and
    decoder disagree; what an accepted COSE message and an envelope bind; base58, cursors and OpenTimestamps files are read back.
  \<^item> Exactness: verification of delegation chains, constitutions and checkpoint chains, and the decisions of the policy
    providers, each equal a declarative specification (\<open>legit_chain\<close> and its like) in both directions.
  \<^item> Attenuation: minted capabilities, tokens and delegation hops are within what they come from.
  \<^item> One use: over every sequence of operations a capability, a nonce, a challenge, a signature count and a version is granted once; a revoked
    capability is never granted; a mandate's counters stay within its limits, and under a spend limit they are exact.
  \<^item> Composition: a dispatched command or tool call is backed by a consumed capability for exactly that call; a
    decision is the policy's; an answered call has a receipt that verifies offline.
  \<^item> Evidence: an inclusion proof, a sealed checkpoint and a verified log determine what they attest, up to a collision of
    SHA-256 that the conclusion exhibits.
  \<^item> Agent identity: a covered claim rests on a live assertion that a trusted key signed and whose pattern means the
    target in the reference semantics of globs; revocation lasts until the identifier is registered again.
  \<^item> Liveness and termination: honest issuers, signers and operators are accepted; the loops of the source end.
  \<^item> Agent to agent: an accepted delegation package carries a verified chain whose every hop allows the effect and a child capability
    that the chain's delegator signed for this receiver under an authority's mandate, and an honest package is accepted.

  Some lemmas record behaviour that a comment or a doc of the source denies: NaN caveats that escape as \<^verbatim>\<open>ValueError\<close>, an order
  of map keys in which encoder and decoder differ, a policy confusion that an \<^verbatim>\<open>unless\<close> turns into a permission, a class with a
  slash that the glob scanner misses. They are stated of the code as it is.

  \<^bold>\<open>Parameters\<close>

  Code outside \<^verbatim>\<open>src\<close> is an argument: SHA-256, Ed25519, base64, \<^verbatim>\<open>isoformat\<close> and the text of floats in \<open>prims\<close>, with
  \<open>prims_ok\<close> and \<open>signer_ok\<close> as the documented behaviour relied on (the digest has 32 bytes, what is encoded is decoded, what a key
  pair signs its public key verifies), and distinct instants have distinct texts (\<open>inj (dt_json P)\<close>); pydantic's \<^verbatim>\<open>model_validate\<close> as readers that return an option, the validators written in the
  source being definitions here; the JSON parser, P-256, regular expressions, the URL-safe base64, the answers of
  timestamp calendars, the spawned process, the backends of tools (each a function of the calls made so far, the name and the
  arguments; the step that runs one extends the list of calls). The clock and the random values of each operation are arguments. No theorem assumes that a
  digest has no collisions at all: where two digests must differ, the statement names the finite set of objects of which no two may collide,
  or its conclusion is the collision.

  \<^bold>\<open>Conventions and bounds\<close>

  \<^item> A time is an integer count of microseconds in UTC; a \<^verbatim>\<open>datetime\<close> is naive or aware with its offset. Python's ints are \<open>int\<close>, bytes are 8 bit
    words, text is a list of code points, so surrogates can occur and fail to encode. A dict is the list of its items with distinct keys, in order of insertion.
  \<^item> An exception carries the constant text of its message, without interpolated values.
  \<^item> The operations on one store are transactions under one lock, so an execution is a sequence of operations (\<open>run_all\<close>). Values stored in
    SQLite are kept at their signed 64 bit width: \<open>sql_int\<close> is where an integer is too large to be bound. The counters of a mandate
    are added inside SQLite, where a sum that leaves 64 bits becomes a double (\<open>sql_num\<close>, \<open>sql_add\<close>); a lemma shows what a mandate without a limit loses by it.
  \<^item> CBOR nests to depth 64 and lengths are below \<open>2 ^ 64\<close>, as in the source; a chain of tokens has at most nine levels, which is the fuel of
    its verification; an OpenTimestamps proof nests to depth 64, so 65 levels of fuel reach every proof; the loop over SCITT paths counts the elements of its input.
    The walk over the pages of an inventory has one step more than there are tools, and a lemma shows that it suffices for inventories below \<open>2 ^ 64\<close>. Decimals have 28 digits.
  \<^item> The glob scanners recurse on a measure of the tokens since the last star and the rest of the target; no fuel is used. Patterns are at most 2048 and targets at most 4096 characters, as in the source.
  \<^item> Python's recursion limit and the limits on memory and on the digits of \<^verbatim>\<open>int()\<close> are not modelled.

  \<^bold>\<open>Not modelled\<close>

  \<^item> \<^verbatim>\<open>acs_guardian.py\<close> (the hook protocol of an outside agent runtime and its wire format) and \<^verbatim>\<open>identity_adapters.py\<close>
    (the parsing and checking of SPIFFE and OIDC identities): not yet translated.
  \<^item> The loading and saving of PEM keys in \<^verbatim>\<open>crypto.py\<close>, and the HTTP client of OpenTimestamps: file and network access. The client's answers are a parameter of the anchors.
  \<^item> The lazy re-exports of moved names in \<^verbatim>\<open>planes.py\<close>, the package marker, the adversarial harness, the tests and
    the documents: they hold no logic of the protocol.
  \<^item> The Rust verifier is a second implementation of the offline verification; the development follows the Python one. The bounded TLA+ model
    describes the capability life cycle; its invariants are proved here of the code, for executions of any length.
\<close>

end
